(* ===== verification/GoLib.thy ===== *)
theory GoLib
  imports Complex_Main "HOL-Library.Char_ord" "HOL-Library.List_Lexorder"
    "HOL-Library.Multiset"
begin

text \<open>
  The Go standard-library functions the proxy calls, as executable HOL functions, and the
  generic lemmas the component theories share.

  \<^item> A Go \<^verbatim>\<open>string\<close> or \<^verbatim>\<open>[]byte\<close> is a \<^typ>\<open>string\<close>: a list of bytes. Case mapping is
    the ASCII part of \<^verbatim>\<open>strings.ToLower\<close>.
  \<^item> A \<^verbatim>\<open>time.Time\<close> is an \<^typ>\<open>int\<close> (nanoseconds), a \<^verbatim>\<open>time.Duration\<close> is an \<^typ>\<open>int\<close>
    (nanoseconds); \<^verbatim>\<open>t.After(u)\<close> is \<open>u < t\<close>, \<^verbatim>\<open>t.Before(u)\<close> is \<open>t < u\<close>.
  \<^item> A \<^verbatim>\<open>float64\<close> that cannot be special (a duration in seconds, a published rate) is an exact rational
    (\<^typ>\<open>rat\<close>); the others are in \<open>Float64\<close>.
  \<^item> \<^verbatim>\<open>strings.Index\<close> and \<^verbatim>\<open>strings.IndexByte\<close> return an \<open>option\<close>, where Go returns -1.
\<close>

named_theorems go_simps \<open>defining equations of the string functions\<close>
named_theorems hdr_simps \<open>how header operations read back\<close>

section \<open>Strings\<close>

fun has_prefix :: "string \<Rightarrow> string \<Rightarrow> bool" where
  "has_prefix s [] = True"
| "has_prefix [] (c # p) = False"
| "has_prefix (x # s) (c # p) = (x = c \<and> has_prefix s p)"

definition has_suffix :: "string \<Rightarrow> string \<Rightarrow> bool" where
  "has_suffix s p \<longleftrightarrow> has_prefix (rev s) (rev p)"

definition trim_prefix :: "string \<Rightarrow> string \<Rightarrow> string" where
  "trim_prefix s p = (if has_prefix s p then drop (length p) s else s)"

fun index_byte :: "string \<Rightarrow> char \<Rightarrow> nat option" where
  "index_byte [] c = None"
| "index_byte (x # xs) c = (if x = c then Some 0 else map_option Suc (index_byte xs c))"

fun index_of :: "string \<Rightarrow> string \<Rightarrow> nat option" where
  "index_of [] p = (if p = [] then Some 0 else None)"
| "index_of (x # xs) p =
     (if has_prefix (x # xs) p then Some 0 else map_option Suc (index_of xs p))"

definition contains :: "string \<Rightarrow> string \<Rightarrow> bool" where
  "contains s p \<longleftrightarrow> index_of s p \<noteq> None"

definition count_byte :: "string \<Rightarrow> char \<Rightarrow> nat" where
  "count_byte s c = length (filter (\<lambda>x. x = c) s)"

definition trim_right :: "string \<Rightarrow> char \<Rightarrow> string" where
  "trim_right s c = rev (dropWhile (\<lambda>x. x = c) (rev s))"

definition is_space :: "char \<Rightarrow> bool" where
  "is_space c \<longleftrightarrow> of_char c \<in> {9, 10, 11, 12, 13, 32 :: nat}"

definition trim_space :: "string \<Rightarrow> string" where
  "trim_space s = rev (dropWhile is_space (rev (dropWhile is_space s)))"

definition lower_char :: "char \<Rightarrow> char" where
  "lower_char c =
     (let n = of_char c :: nat in if 65 \<le> n \<and> n \<le> 90 then char_of (n + 32) else c)"

definition upper_char :: "char \<Rightarrow> char" where
  "upper_char c =
     (let n = of_char c :: nat in if 97 \<le> n \<and> n \<le> 122 then char_of (n - 32) else c)"

definition to_lower :: "string \<Rightarrow> string" where
  "to_lower s = map lower_char s"

text \<open>\<^verbatim>\<open>strings.Split\<close> with a one-byte separator, \<^verbatim>\<open>strings.SplitN(s, sep, 2)\<close> and
  \<^verbatim>\<open>strings.Join\<close>.\<close>

fun split_on :: "char \<Rightarrow> string \<Rightarrow> string list" where
  "split_on c [] = [[]]"
| "split_on c (x # xs) =
     (if x = c then [] # split_on c xs
      else (case split_on c xs of [] \<Rightarrow> [[x]] | y # ys \<Rightarrow> (x # y) # ys))"

definition split_n2 :: "char \<Rightarrow> string \<Rightarrow> string list" where
  "split_n2 c s =
     (case index_byte s c of None \<Rightarrow> [s] | Some i \<Rightarrow> [take i s, drop (Suc i) s])"

fun join :: "string \<Rightarrow> string list \<Rightarrow> string" where
  "join sep [] = []"
| "join sep [x] = x"
| "join sep (x # y # ys) = x @ sep @ join sep (y # ys)"

declare has_suffix_def [go_simps] trim_prefix_def [go_simps]
  contains_def [go_simps] count_byte_def [go_simps] trim_right_def [go_simps]
  is_space_def [go_simps] trim_space_def [go_simps] lower_char_def [go_simps]
  upper_char_def [go_simps] to_lower_def [go_simps] split_n2_def [go_simps]

lemma has_prefix_iff: "has_prefix s p \<longleftrightarrow> (\<exists>r. s = p @ r)"
  by (induction s p rule: has_prefix.induct) auto

lemma has_prefix_take: "has_prefix s p \<longleftrightarrow> take (length p) s = p"
  by (induction s p rule: has_prefix.induct) auto

lemma has_prefix_refl [simp]: "has_prefix s s"
  by (simp add: has_prefix_take)

lemma has_prefix_append [simp]: "has_prefix (p @ r) p"
  by (simp add: has_prefix_take)

lemma has_prefix_same [simp]: "has_prefix (p @ a) (p @ b) \<longleftrightarrow> has_prefix a b"
  by (auto simp: has_prefix_iff)

lemma has_prefix_trans: "has_prefix s p \<Longrightarrow> has_prefix p q \<Longrightarrow> has_prefix s q"
  by (auto simp: has_prefix_iff)

lemma has_prefix_comparable:
  "has_prefix s p \<Longrightarrow> has_prefix s q \<Longrightarrow> has_prefix p q \<or> has_prefix q p"
  by (auto simp: has_prefix_iff append_eq_append_conv2)

lemma has_suffix_iff: "has_suffix s p \<longleftrightarrow> (\<exists>r. s = r @ p)"
  unfolding has_suffix_def has_prefix_iff by (metis rev_append rev_rev_ident)

lemma split_on_not_Nil [simp]: "split_on c s \<noteq> []"
  by (cases s) (auto split: list.splits)

lemma join_split_on: "join [c] (split_on c s) = s"
proof (induction s)
  case (Cons x xs)
  obtain y ys where y: "split_on c xs = y # ys"
    by (cases "split_on c xs") auto
  with Cons show ?case by (cases ys) auto
qed simp

lemma split_on_no_sep: "c \<notin> set s \<Longrightarrow> split_on c s = [s]"
  by (induction s) auto

lemma split_on_append_sep: "c \<notin> set p \<Longrightarrow> split_on c (p @ c # s) = p # split_on c s"
  by (induction p) auto

lemma split_on_join:
  "ps \<noteq> [] \<Longrightarrow> \<forall>p \<in> set ps. c \<notin> set p \<Longrightarrow> split_on c (join [c] ps) = ps"
proof (induction ps rule: induct_list012)
  case (3 x y zs)
  then show ?case by (simp add: split_on_append_sep)
qed (auto simp: split_on_no_sep)

lemma split_on_elem_no_sep: "p \<in> set (split_on c s) \<Longrightarrow> c \<notin> set p"
  by (induction s arbitrary: p) (auto split: list.splits if_splits)

lemma index_byte_None: "index_byte s c = None \<longleftrightarrow> c \<notin> set s"
  by (induction s) auto

lemma index_byte_Some:
  "index_byte s c = Some i \<Longrightarrow> i < length s \<and> s ! i = c \<and> c \<notin> set (take i s)"
  by (induction s arbitrary: i) (auto split: if_splits)

lemma index_byte_append: "c \<notin> set p \<Longrightarrow> index_byte (p @ c # s) c = Some (length p)"
  by (induction p) auto

lemma index_byte_split:
  assumes "index_byte s c = Some i"
  shows "s = take i s @ c # drop (Suc i) s"
  using index_byte_Some [OF assms] by (metis id_take_nth_drop)

lemma trim_right_decomp: "\<exists>n. s = trim_right s c @ replicate n c"
proof -
  let ?t = "takeWhile (\<lambda>x. x = c) (rev s)"
  have t: "?t = replicate (length ?t) c"
    by (rule replicate_length_same [symmetric]) (auto dest: set_takeWhileD)
  have "s = rev (dropWhile (\<lambda>x. x = c) (rev s)) @ rev ?t"
    by (simp flip: rev_append)
  also have "rev ?t = replicate (length ?t) c"
    by (subst t) simp
  finally show ?thesis
    unfolding trim_right_def by blast
qed

lemma trim_right_last: "trim_right s c \<noteq> [] \<Longrightarrow> last (trim_right s c) \<noteq> c"
  unfolding trim_right_def
  by (metis (mono_tags, lifting) dropWhile_eq_Nil_conv hd_dropWhile last_rev rev_is_Nil_conv)

lemma trim_right_idem [simp]: "trim_right (trim_right s c) c = trim_right s c"
  unfolding trim_right_def by simp

lemma trim_right_id: "s = [] \<or> last s \<noteq> c \<Longrightarrow> trim_right s c = s"
  unfolding trim_right_def by (cases s rule: rev_cases) auto

lemma trim_right_replicate [simp]: "trim_right (s @ replicate n c) c = trim_right s c"
proof -
  have "dropWhile (\<lambda>x. x = c) (replicate n c @ t) = dropWhile (\<lambda>x. x = c) t" for t
    by (induction n) auto
  then show ?thesis by (simp add: trim_right_def)
qed

lemma to_lower_append [simp]: "to_lower (a @ b) = to_lower a @ to_lower b"
  by (simp add: to_lower_def)

section \<open>Durations\<close>

type_synonym time = int
type_synonym duration = int

definition nanosecond :: duration where "nanosecond = 1"
definition microsecond :: duration where "microsecond = 1000"
definition millisecond :: duration where "millisecond = 1000000"
definition second :: duration where "second = 1000000000"
definition minute :: duration where "minute = 60 * second"
definition hour :: duration where "hour = 60 * minute"

lemmas duration_defs = nanosecond_def microsecond_def millisecond_def second_def
  minute_def hour_def

text \<open>\<^verbatim>\<open>time.ParseDuration\<close>: an optional sign, then a non-empty sequence of decimal numbers
  with a unit. \<^verbatim>\<open>leadingInt\<close> fails above \<open>2 ^ 63\<close>; \<^verbatim>\<open>leadingFraction\<close> keeps the digits it
  can and drops the rest.\<close>

definition is_digit :: "char \<Rightarrow> bool" where
  "is_digit c \<longleftrightarrow> 48 \<le> (of_char c :: nat) \<and> (of_char c :: nat) \<le> 57"

definition digit_val :: "char \<Rightarrow> nat" where
  "digit_val c = of_char c - 48"

fun leading_int :: "nat \<Rightarrow> string \<Rightarrow> (nat \<times> string) option" where
  "leading_int x [] = Some (x, [])"
| "leading_int x (c # s) =
     (if \<not> is_digit c then Some (x, c # s)
      else if x > 2 ^ 63 div 10 then None
      else (let x' = x * 10 + digit_val c in
            if x' > 2 ^ 63 then None else leading_int x' s))"

fun leading_fraction :: "nat \<Rightarrow> nat \<Rightarrow> bool \<Rightarrow> string \<Rightarrow> nat \<times> nat \<times> string" where
  "leading_fraction x scale overflow [] = (x, scale, [])"
| "leading_fraction x scale overflow (c # s) =
     (if \<not> is_digit c then (x, scale, c # s)
      else if overflow then leading_fraction x scale True s
      else if x > (2 ^ 63 - 1) div 10 then leading_fraction x scale True s
      else (let y = x * 10 + digit_val c in
            if y > 2 ^ 63 then leading_fraction x scale True s
            else leading_fraction y (scale * 10) False s))"

definition unit_map :: "string \<Rightarrow> nat option" where
  "unit_map u = map_of
     [(''ns'', 1), (''us'', 1000), ([CHR 0xC2, CHR 0xB5, CHR ''s''], 1000),
      ([CHR 0xCE, CHR 0xBC, CHR ''s''], 1000), (''ms'', 1000000), (''s'', 1000000000),
      (''m'', 60000000000), (''h'', 3600000000000)] u"

text \<open>One number-and-unit group; \<open>None\<close> is an error. The fraction is truncated to whole
  nanoseconds.\<close>

definition duration_group :: "string \<Rightarrow> (nat \<times> string) option" where
  "duration_group s =
     (if s = [] \<or> \<not> (hd s = CHR ''.'' \<or> is_digit (hd s)) then None
      else case leading_int 0 s of
        None \<Rightarrow> None
      | Some (v, s1) \<Rightarrow>
          (let pre = (length s1 \<noteq> length s);
               (f, scale, s2, post) =
                 (case s1 of
                    c # s1' \<Rightarrow>
                      if c = CHR ''.'' then
                        (case leading_fraction 0 1 False s1' of
                           (f, scale, s2) \<Rightarrow> (f, scale, s2, length s2 \<noteq> length s1'))
                      else (0, 1, s1, False)
                  | [] \<Rightarrow> (0, 1, s1, False));
               u = takeWhile (\<lambda>c. \<not> (c = CHR ''.'' \<or> is_digit c)) s2;
               rest = drop (length u) s2
           in if \<not> pre \<and> \<not> post then None
              else if u = [] then None
              else case unit_map u of
                None \<Rightarrow> None
              | Some unit \<Rightarrow>
                  if v > 2 ^ 63 div unit then None
                  else (let v' = v * unit + (f * unit) div scale in
                        if v' > 2 ^ 63 then None else Some (v', rest))))"

text \<open>Every group consumes at least one byte, so \<open>length s\<close> bounds the number of rounds.\<close>

fun duration_groups :: "nat \<Rightarrow> nat \<Rightarrow> string \<Rightarrow> nat option" where
  "duration_groups fuel d [] = Some d"
| "duration_groups 0 d s = None"
| "duration_groups (Suc fuel) d s =
     (case duration_group s of
        None \<Rightarrow> None
      | Some (v, rest) \<Rightarrow>
          if d + v > 2 ^ 63 then None else duration_groups fuel (d + v) rest)"

definition parse_duration :: "string \<Rightarrow> duration option" where
  "parse_duration orig =
     (let neg = (orig \<noteq> [] \<and> hd orig = CHR ''-'');
          s = (if orig \<noteq> [] \<and> (hd orig = CHR ''-'' \<or> hd orig = CHR ''+'') then tl orig
               else orig)
      in if s = ''0'' then Some 0
         else if s = [] then None
         else case duration_groups (length s) 0 s of
           None \<Rightarrow> None
         | Some d \<Rightarrow>
             if neg then Some (- int d)
             else if d > 2 ^ 63 - 1 then None
             else Some (int d))"

lemma duration_group_consumes:
  assumes "duration_group s = Some (v, rest)"
  shows "length rest < length s"
proof -
  have li: "leading_int x t = Some (v', t') \<Longrightarrow> length t' \<le> length t" for x t v' t'
    by (induction x t rule: leading_int.induct)
      (auto simp: Let_def split: if_splits intro: le_SucI)
  have lf: "leading_fraction x sc ov t = (f', sc', t') \<Longrightarrow> length t' \<le> length t"
    for x sc ov t f' sc' t'
    by (induction x sc ov t rule: leading_fraction.induct)
      (auto simp: Let_def split: if_splits intro: le_SucI)
  show ?thesis using assms
    by (auto simp: duration_group_def Let_def split: if_splits option.splits list.splits
        prod.splits dest!: li lf)
qed

lemma parse_duration_range: "parse_duration s = Some d \<Longrightarrow> - (2 ^ 63) \<le> d \<and> d < 2 ^ 63"
proof -
  have grp: "duration_groups n a t = Some b \<Longrightarrow> a \<le> 2 ^ 63 \<Longrightarrow> b \<le> 2 ^ 63" for n a t b
    by (induction n a t rule: duration_groups.induct) (auto split: option.splits if_splits)
  show "parse_duration s = Some d \<Longrightarrow> ?thesis"
    by (auto simp: parse_duration_def Let_def split: if_splits option.splits dest!: grp)
qed

section \<open>Keys built with separators\<close>

lemma sep_left:
  "c \<notin> set x \<Longrightarrow> c \<notin> set x' \<Longrightarrow> x @ c # y = x' @ c # y' \<longleftrightarrow> x = x' \<and> y = y'"
proof (induction x arbitrary: x')
  case Nil
  then show ?case by (cases x') auto
next
  case (Cons a x)
  then show ?case by (cases x') auto
qed

lemma sep_right:
  assumes "c \<notin> set y" "c \<notin> set y'"
  shows "x @ c # y = x' @ c # y' \<longleftrightarrow> x = x' \<and> y = y'"
proof -
  have "x @ c # y = x' @ c # y' \<longleftrightarrow> rev (x @ c # y) = rev (x' @ c # y')"
    by (simp only: rev_is_rev_conv)
  also have "\<dots> \<longleftrightarrow> rev y @ c # rev x = rev y' @ c # rev x'" by (simp del: rev_is_rev_conv)
  also have "\<dots> \<longleftrightarrow> rev y = rev y' \<and> rev x = rev x'"
    by (rule sep_left) (use assms in simp_all)
  finally show ?thesis by auto
qed

section \<open>Numbers as text\<close>

text \<open>\<^verbatim>\<open>%d\<close> and \<^verbatim>\<open>%.nf\<close>; a tie in the last digit is rounded to even.\<close>

definition digit_char :: "nat \<Rightarrow> char" where
  "digit_char n = char_of (48 + n mod 10)"

fun string_of_nat :: "nat \<Rightarrow> string" where
  "string_of_nat n = (if n < 10 then [digit_char n] else string_of_nat (n div 10) @ [digit_char n])"

declare string_of_nat.simps [simp del]

definition string_of_int :: "int \<Rightarrow> string" where
  "string_of_int i = (if i < 0 then CHR ''-'' # string_of_nat (nat (- i)) else string_of_nat (nat i))"

definition round_even :: "rat \<Rightarrow> int" where
  "round_even x =
     (let f = \<lfloor>x\<rfloor>; d = x - of_int f in
      if d < 1 / 2 \<or> d = 1 / 2 \<and> even f then f else f + 1)"

definition pad_zeros :: "nat \<Rightarrow> string \<Rightarrow> string" where
  "pad_zeros n s = replicate (n - length s) (CHR ''0'') @ s"

definition fmt_fixed :: "nat \<Rightarrow> rat \<Rightarrow> string" where
  "fmt_fixed n x =
     (let k = nat (round_even (\<bar>x\<bar> * 10 ^ n)) in
      (if x < 0 then ''-'' else []) @ string_of_nat (k div 10 ^ n) @
      (if n = 0 then [] else ''.'' @ pad_zeros n (string_of_nat (k mod 10 ^ n))))"

text \<open>The value of a string of digits.\<close>

definition digits_val :: "string \<Rightarrow> nat" where
  "digits_val s = foldl (\<lambda>n c. n * 10 + digit_val c) 0 s"

end
