(* ===== verification/Storage.thy ===== *)
theory Storage
  imports GoLib
begin

text \<open>
  The metadata store (\<^verbatim>\<open>internal/storage\<close>): one row per proxied request in a SQLite table.

  The table is the list of its rows in insertion order; each SQL statement of the source is the
  function on rows that its text denotes. A statement fails when the environment says so (\<open>db_fault\<close>), which
  stands for every error of the driver and the disk; the id column is a primary key, so an insert
  also fails on a known id. Times are compared as times: the driver stores them as text in UTC, whose
  order is that of time. Rows with equal timestamps, whose order SQL leaves open, keep insertion
  order. The conversion of a text operand compared with an integer column is a parameter
  (\<open>affinity\<close>). The header maps of \<^verbatim>\<open>RequestLog\<close> are not columns and stay nil, so they are left out.

  Shown: batches are written whole or not at all and ids stay unique; clearing references touches
  exactly the rows of the named files; the user's search text matches as a literal prefix; a search
  returns one page of exactly the matching rows, newest first, and pages put together give all of them.
\<close>

record request_log =
  lg_ID :: string
  lg_Timestamp :: time
  lg_MerchantKey :: string
  lg_Region :: string
  lg_Method :: string
  lg_Path :: string
  lg_QueryParams :: string
  lg_StatusCode :: int
  lg_CacheStatus :: string
  lg_Queued :: bool
  lg_QueueWaitMs :: int
  lg_UpstreamLatencyMs :: int
  lg_TotalLatencyMs :: int
  lg_PIIRedactedRequest :: bool
  lg_PIIRedactedResponse :: bool
  lg_AmazonRequestID :: string
  lg_RequestContentLength :: int
  lg_ResponseContentLength :: int
  lg_BodyFile :: string
  lg_BodyOffset :: int
  lg_BodyLength :: int
  lg_ErrorReason :: string
  lg_CachedFromID :: string

text \<open>\<open>None\<close> is the zero time.\<close>

record log_filter =
  fl_From :: "time option"
  fl_To :: "time option"
  fl_Merchant :: string
  fl_Region :: string
  fl_Endpoint :: string
  fl_Status :: string
  fl_CacheStatus :: string
  fl_Method :: string
  fl_Queued :: string
  fl_MinLatency :: int
  fl_MaxLatency :: int
  fl_Limit :: int
  fl_Offset :: int

datatype db_op = DbInsert | DbDelete | DbUpdate | DbSelect | DbPragma

record db =
  db_rows :: "request_log list"
  db_fault :: "db_op \<Rightarrow> bool"

section \<open>Writing\<close>

fun insert_rows :: "request_log list \<Rightarrow> request_log list \<Rightarrow> request_log list option" where
  "insert_rows [] rows = Some rows"
| "insert_rows (e # es) rows =
     (if lg_ID e \<in> lg_ID ` set rows then None else insert_rows es (rows @ [e]))"

definition LogRequestBatch :: "request_log list \<Rightarrow> 'a db_scheme \<Rightarrow> bool \<times> 'a db_scheme" where
  "LogRequestBatch entries d =
     (if entries = [] then (True, d)
      else if db_fault d DbInsert then (False, d)
      else case insert_rows entries (db_rows d) of
        None \<Rightarrow> (False, d)
      | Some rows \<Rightarrow> (True, d\<lparr>db_rows := rows\<rparr>))"

definition LogRequest :: "request_log \<Rightarrow> 'a db_scheme \<Rightarrow> bool \<times> 'a db_scheme" where
  "LogRequest entry d = LogRequestBatch [entry] d"

text \<open>\<open>Inr n\<close>: the number of rows affected.\<close>

definition PurgeOlderThan :: "time \<Rightarrow> duration \<Rightarrow> 'a db_scheme \<Rightarrow> (unit + int) \<times> 'a db_scheme" where
  "PurgeOlderThan t age d =
     (let cutoff = t - age;
          old = filter (\<lambda>r. lg_Timestamp r < cutoff) (db_rows d)
      in if db_fault d DbDelete then (Inl (), d)
         else (Inr (int (length old)), d\<lparr>db_rows := filter (\<lambda>r. \<not> lg_Timestamp r < cutoff) (db_rows d)\<rparr>))"

definition Maintain :: "'a db_scheme \<Rightarrow> bool" where
  "Maintain d = (\<not> db_fault d DbPragma)"

definition clear_ref :: "request_log \<Rightarrow> request_log" where
  "clear_ref r = r\<lparr>lg_BodyFile := [], lg_BodyOffset := 0, lg_BodyLength := 0\<rparr>"

definition NullifyBodyRefs :: "string list \<Rightarrow> 'a db_scheme \<Rightarrow> (unit + int) \<times> 'a db_scheme" where
  "NullifyBodyRefs files d =
     (if files = [] then (Inr 0, d)
      else if db_fault d DbUpdate then (Inl (), d)
      else (Inr (int (length (filter (\<lambda>r. lg_BodyFile r \<in> set files) (db_rows d)))),
            d\<lparr>db_rows := map (\<lambda>r. if lg_BodyFile r \<in> set files then clear_ref r else r) (db_rows d)\<rparr>))"

section \<open>Reading\<close>

definition QueryByTimeRange :: "time \<Rightarrow> time \<Rightarrow> 'a db_scheme \<Rightarrow> request_log list option" where
  "QueryByTimeRange from to d =
     (if db_fault d DbSelect then None
      else Some (sort_key lg_Timestamp (filter (\<lambda>r. from \<le> lg_Timestamp r \<and> lg_Timestamp r < to) (db_rows d))))"

definition QueryByID :: "string \<Rightarrow> 'a db_scheme \<Rightarrow> unit + request_log option" where
  "QueryByID i d = (if db_fault d DbSelect then Inl () else Inr (find (\<lambda>r. lg_ID r = i) (db_rows d)))"

text \<open>\<^verbatim>\<open>strings.NewReplacer\<close> with one-byte keys replaces byte by byte.\<close>

definition escape_like_byte :: "char \<Rightarrow> string" where
  "escape_like_byte c = (if c = CHR 0x5C \<or> c = CHR ''%'' \<or> c = CHR ''_'' then [CHR 0x5C, c] else [c])"

definition escapeLikePrefix :: "string \<Rightarrow> string" where
  "escapeLikePrefix s = concat (map escape_like_byte s)"

text \<open>SQL's \<^verbatim>\<open>LIKE ... ESCAPE '\'\<close>, which ignores the case of ASCII letters.\<close>

fun like :: "string \<Rightarrow> string \<Rightarrow> bool" where
  "like [] s \<longleftrightarrow> s = []"
| "like (p # ps) s \<longleftrightarrow>
     (if p = CHR ''%'' then like ps s \<or> (case s of [] \<Rightarrow> False | _ # s' \<Rightarrow> like (p # ps) s')
      else if p = CHR ''_'' then (case s of [] \<Rightarrow> False | _ # s' \<Rightarrow> like ps s')
      else if p = CHR 0x5C
           then (case ps of [] \<Rightarrow> False
                 | q # qs \<Rightarrow> (case s of [] \<Rightarrow> False | c # s' \<Rightarrow> lower_char q = lower_char c \<and> like qs s'))
           else (case s of [] \<Rightarrow> False | c # s' \<Rightarrow> lower_char p = lower_char c \<and> like ps s'))"

datatype clause =
    TimestampGe time | TimestampLt time | MerchantLike string | RegionEq string | PathLike string
  | StatusRange int int | StatusEq string | CacheStatusEq string | MethodEq string | QueuedIs bool
  | LatencyGe int | LatencyLe int

text \<open>\<^verbatim>\<open>status[0] - '0'\<close> is a byte.\<close>

definition buildStatusClause :: "string \<Rightarrow> clause list" where
  "buildStatusClause status =
     (if status = [] then []
      else if length status = 3 \<and> tl status = ''xx''
           then (let digit = (int (of_char (hd status)) - 48) mod 256
                 in [StatusRange (digit * 100) (digit * 100 + 100)])
           else [StatusEq status])"

definition buildLogWhereClause :: "log_filter \<Rightarrow> clause list" where
  "buildLogWhereClause f =
     (case fl_From f of None \<Rightarrow> [] | Some t \<Rightarrow> [TimestampGe t])
     @ (case fl_To f of None \<Rightarrow> [] | Some t \<Rightarrow> [TimestampLt t])
     @ (if fl_Merchant f \<noteq> [] then [MerchantLike (escapeLikePrefix (fl_Merchant f) @ ''%'')] else [])
     @ (if fl_Region f \<noteq> [] then [RegionEq (fl_Region f)] else [])
     @ (if fl_Endpoint f \<noteq> [] then [PathLike (escapeLikePrefix (fl_Endpoint f) @ ''%'')] else [])
     @ buildStatusClause (fl_Status f)
     @ (if fl_CacheStatus f \<noteq> [] then [CacheStatusEq (fl_CacheStatus f)] else [])
     @ (if fl_Method f \<noteq> [] then [MethodEq (fl_Method f)] else [])
     @ (if fl_Queued f = ''true'' then [QueuedIs True] else if fl_Queued f = ''false'' then [QueuedIs False] else [])
     @ (if 0 < fl_MinLatency f then [LatencyGe (fl_MinLatency f)] else [])
     @ (if 0 < fl_MaxLatency f then [LatencyLe (fl_MaxLatency f)] else [])"

fun clause_holds :: "(string \<Rightarrow> int option) \<Rightarrow> clause \<Rightarrow> request_log \<Rightarrow> bool" where
  "clause_holds affinity (TimestampGe t) r \<longleftrightarrow> t \<le> lg_Timestamp r"
| "clause_holds affinity (TimestampLt t) r \<longleftrightarrow> lg_Timestamp r < t"
| "clause_holds affinity (MerchantLike p) r \<longleftrightarrow> like p (lg_MerchantKey r)"
| "clause_holds affinity (RegionEq x) r \<longleftrightarrow> lg_Region r = x"
| "clause_holds affinity (PathLike p) r \<longleftrightarrow> like p (lg_Path r)"
| "clause_holds affinity (StatusRange a b) r \<longleftrightarrow> a \<le> lg_StatusCode r \<and> lg_StatusCode r < b"
| "clause_holds affinity (StatusEq x) r \<longleftrightarrow> affinity x = Some (lg_StatusCode r)"
| "clause_holds affinity (CacheStatusEq x) r \<longleftrightarrow> lg_CacheStatus r = x"
| "clause_holds affinity (MethodEq x) r \<longleftrightarrow> lg_Method r = x"
| "clause_holds affinity (QueuedIs q) r \<longleftrightarrow> lg_Queued r = q"
| "clause_holds affinity (LatencyGe n) r \<longleftrightarrow> n \<le> lg_TotalLatencyMs r"
| "clause_holds affinity (LatencyLe n) r \<longleftrightarrow> lg_TotalLatencyMs r \<le> n"

definition where_holds :: "(string \<Rightarrow> int option) \<Rightarrow> log_filter \<Rightarrow> request_log \<Rightarrow> bool" where
  "where_holds affinity f r = list_all (\<lambda>c. clause_holds affinity c r) (buildLogWhereClause f)"

definition page_limit :: "int \<Rightarrow> int" where
  "page_limit l = (let l1 = (if l \<le> 0 then 50 else l) in if 200 < l1 then 200 else l1)"

text \<open>A negative offset counts as zero.\<close>

definition QueryLogs :: "(string \<Rightarrow> int option) \<Rightarrow> log_filter \<Rightarrow> 'a db_scheme \<Rightarrow> (request_log list \<times> int) option" where
  "QueryLogs affinity f d =
     (if db_fault d DbSelect then None
      else let hits = filter (where_holds affinity f) (db_rows d)
           in Some (take (nat (page_limit (fl_Limit f))) (drop (nat (fl_Offset f)) (sort_key (\<lambda>r. - lg_Timestamp r) hits)),
                    int (length hits)))"

definition last_seen :: "request_log list \<Rightarrow> string \<Rightarrow> time" where
  "last_seen rows m = Max (lg_Timestamp ` {r \<in> set rows. lg_MerchantKey r = m})"

definition DistinctMerchants :: "string \<Rightarrow> int \<Rightarrow> 'a db_scheme \<Rightarrow> string list option" where
  "DistinctMerchants prefix l d =
     (let l1 = (if l \<le> 0 then 20 else l);
          keys = filter (\<lambda>m. m \<noteq> [] \<and> (prefix = [] \<or> like (escapeLikePrefix prefix @ ''%'') m))
                   (remdups (map lg_MerchantKey (db_rows d)))
      in if db_fault d DbSelect then None
         else Some (take (nat l1) (sort_key (\<lambda>m. - last_seen (db_rows d) m) keys)))"

text \<open>The map from paths to methods, as the list of its entries.\<close>

definition MethodsByEndpoint :: "time \<Rightarrow> time \<Rightarrow> 'a db_scheme \<Rightarrow> (string \<times> string list) list option" where
  "MethodsByEndpoint from to d =
     (if db_fault d DbSelect then None
      else let pairs = remdups (map (\<lambda>r. (lg_Path r, lg_Method r))
                         (filter (\<lambda>r. from \<le> lg_Timestamp r \<and> lg_Timestamp r < to) (db_rows d)))
           in Some (map (\<lambda>p. (p, map snd (filter (\<lambda>e. fst e = p) pairs))) (remdups (map fst pairs))))"

section \<open>Batches\<close>

lemma insert_rows_cases:
  "insert_rows es rows =
     (if distinct (map lg_ID es) \<and> lg_ID ` set es \<inter> lg_ID ` set rows = {} then Some (rows @ es) else None)"
proof (induction es arbitrary: rows)
  case (Cons e es)
  have "insert_rows es (rows @ [e]) = (if distinct (map lg_ID es) \<and> lg_ID ` set es \<inter> (insert (lg_ID e) (lg_ID ` set rows)) = {}
      then Some (rows @ e # es) else None)"
    using Cons.IH [of "rows @ [e]"] by simp
  then show ?case by auto
qed simp

definition db_ok :: "'a db_scheme \<Rightarrow> bool" where
  "db_ok d \<longleftrightarrow> distinct (map lg_ID (db_rows d))"

lemma batch_whole_or_nothing:
  assumes "LogRequestBatch es d = (ok, d')"
  shows "(ok \<longrightarrow> db_rows d' = db_rows d @ es \<and> (db_ok d \<longrightarrow> db_ok d')) \<and> (\<not> ok \<longrightarrow> d' = d)"
proof -
  have "ok \<longrightarrow> db_rows d' = db_rows d @ es \<and> (es = [] \<or> distinct (map lg_ID es) \<and> lg_ID ` set es \<inter> lg_ID ` set (db_rows d) = {})"
    using assms by (auto simp: LogRequestBatch_def insert_rows_cases split: if_splits)
  moreover have "\<not> ok \<longrightarrow> d' = d"
    using assms by (auto simp: LogRequestBatch_def split: if_splits option.splits)
  ultimately show ?thesis by (auto simp: db_ok_def Int_commute)
qed

lemma batch_accepts:
  assumes "\<not> db_fault d DbInsert" "distinct (map lg_ID es)" "lg_ID ` set es \<inter> lg_ID ` set (db_rows d) = {}"
  shows "fst (LogRequestBatch es d)"
  using assms by (simp add: LogRequestBatch_def insert_rows_cases)

section \<open>References\<close>

lemma nullify_clears:
  assumes "NullifyBodyRefs files d = (Inr n, d')" "[] \<notin> set files"
  shows "\<forall>r \<in> set (db_rows d'). lg_BodyFile r \<notin> set files"
    and "db_rows d' = map (\<lambda>r. if lg_BodyFile r \<in> set files then clear_ref r else r) (db_rows d)"
  using assms by (auto simp: NullifyBodyRefs_def clear_ref_def split: if_splits)

section \<open>Searching\<close>

lemma like_all: "like ''%'' s"
  by (induction s) auto

lemma like_escaped:
  "like (escapeLikePrefix p @ ps) s \<longleftrightarrow> (\<exists>a b. s = a @ b \<and> to_lower a = to_lower p \<and> like ps b)"
proof (induction p arbitrary: s)
  case Nil
  then show ?case by (auto simp: escapeLikePrefix_def to_lower_def)
next
  case (Cons c p)
  have step: "like (escapeLikePrefix (c # p) @ ps) s \<longleftrightarrow>
      (\<exists>x s'. s = x # s' \<and> lower_char c = lower_char x \<and> like (escapeLikePrefix p @ ps) s')"
    by (cases s) (auto simp: escapeLikePrefix_def escape_like_byte_def)
  show ?case
  proof
    assume "like (escapeLikePrefix (c # p) @ ps) s"
    then obtain x a b where "s = x # a @ b" "lower_char c = lower_char x" "to_lower a = to_lower p" "like ps b"
      unfolding step Cons.IH by blast
    then show "\<exists>a b. s = a @ b \<and> to_lower a = to_lower (c # p) \<and> like ps b"
      by (intro exI [of _ "x # a"] exI [of _ b]) (simp add: to_lower_def)
  next
    assume "\<exists>a b. s = a @ b \<and> to_lower a = to_lower (c # p) \<and> like ps b"
    then obtain x a b where "s = (x # a) @ b" "lower_char x = lower_char c" "to_lower a = to_lower p" "like ps b"
      by (auto simp: to_lower_def map_eq_Cons_conv)
    then show "like (escapeLikePrefix (c # p) @ ps) s" unfolding step Cons.IH by auto
  qed
qed

lemma like_prefix: "like (escapeLikePrefix p @ ''%'') s \<longleftrightarrow> has_prefix (to_lower s) (to_lower p)"
proof -
  have "like (escapeLikePrefix p @ ''%'') s \<longleftrightarrow> (\<exists>a b. s = a @ b \<and> to_lower a = to_lower p)"
    using like_escaped [of p "''%''" s] like_all by auto
  also have "\<dots> \<longleftrightarrow> (\<exists>b. to_lower s = to_lower p @ b)"
    by (auto simp: to_lower_def map_eq_append_conv)
  finally show ?thesis by (simp add: has_prefix_iff)
qed

text \<open>What a search means: times in the half-open interval, literal prefixes whatever wildcards the
  text has, equality in the other fields.\<close>

definition in_bucket :: "string \<Rightarrow> int \<Rightarrow> bool" where
  "in_bucket status code \<longleftrightarrow> int (digit_val (hd status)) * 100 \<le> code \<and> code < int (digit_val (hd status)) * 100 + 100"

definition search_spec :: "(string \<Rightarrow> int option) \<Rightarrow> log_filter \<Rightarrow> request_log \<Rightarrow> bool" where
  "search_spec affinity f r \<longleftrightarrow>
     (\<forall>t. fl_From f = Some t \<longrightarrow> t \<le> lg_Timestamp r) \<and> (\<forall>t. fl_To f = Some t \<longrightarrow> lg_Timestamp r < t) \<and>
     has_prefix (to_lower (lg_MerchantKey r)) (to_lower (fl_Merchant f)) \<and>
     has_prefix (to_lower (lg_Path r)) (to_lower (fl_Endpoint f)) \<and>
     (fl_Region f \<noteq> [] \<longrightarrow> lg_Region r = fl_Region f) \<and>
     (fl_Status f \<noteq> [] \<longrightarrow>
        (if tl (fl_Status f) = ''xx'' then in_bucket (fl_Status f) (lg_StatusCode r)
         else affinity (fl_Status f) = Some (lg_StatusCode r))) \<and>
     (fl_CacheStatus f \<noteq> [] \<longrightarrow> lg_CacheStatus r = fl_CacheStatus f) \<and>
     (fl_Method f \<noteq> [] \<longrightarrow> lg_Method r = fl_Method f) \<and>
     (fl_Queued f = ''true'' \<longrightarrow> lg_Queued r) \<and> (fl_Queued f = ''false'' \<longrightarrow> \<not> lg_Queued r) \<and>
     (0 < fl_MinLatency f \<longrightarrow> fl_MinLatency f \<le> lg_TotalLatencyMs r) \<and>
     (0 < fl_MaxLatency f \<longrightarrow> lg_TotalLatencyMs r \<le> fl_MaxLatency f)"

definition status_checked :: "string \<Rightarrow> bool" where
  "status_checked status \<longleftrightarrow> (tl status = ''xx'' \<longrightarrow> is_digit (hd status))"

lemma status_clause:
  assumes "status_checked status"
  shows "list_all (\<lambda>c. clause_holds affinity c r) (buildStatusClause status) \<longleftrightarrow>
    (status \<noteq> [] \<longrightarrow> (if tl status = ''xx'' then in_bucket status (lg_StatusCode r)
       else affinity status = Some (lg_StatusCode r)))"
proof (cases "status \<noteq> [] \<and> tl status = ''xx''")
  case True
  then have l: "length status = 3" by (cases status) auto
  have "is_digit (hd status)" using assms True by (simp add: status_checked_def)
  then have "int (of_char (hd status)) - 48 = int (digit_val (hd status))" "digit_val (hd status) \<le> 9"
    by (auto simp: is_digit_def digit_val_def)
  then show ?thesis using True l by (simp add: buildStatusClause_def in_bucket_def Let_def)
qed (auto simp: buildStatusClause_def)

lemma where_spec:
  assumes "status_checked (fl_Status f)"
  shows "where_holds affinity f = search_spec affinity f"
proof
  fix r
  have p: "has_prefix s []" "to_lower [] = []" for s by (simp_all add: to_lower_def)
  show "where_holds affinity f r = search_spec affinity f r"
    unfolding where_holds_def buildLogWhereClause_def list_all_append status_clause [OF assms] search_spec_def
    by (cases "fl_From f"; cases "fl_To f"; cases "fl_Merchant f = []"; cases "fl_Endpoint f = []") (auto simp: like_prefix p)
qed

lemma pages_append: "n = m * k \<Longrightarrow> concat (map (\<lambda>i. take k (drop (i * k) xs)) [0..<m]) = take n xs"
proof (induction m arbitrary: n)
  case (Suc m)
  have "n = m * k + k" using Suc.prems by simp
  then show ?case using Suc.IH [OF refl] by (simp only: take_add) simp
qed simp

lemma pages_cover: "0 < k \<Longrightarrow> length xs \<le> m * k \<Longrightarrow> concat (map (\<lambda>i. take k (drop (i * k) xs)) [0..<m]) = xs"
  using pages_append [of "m * k" m k xs] by simp

definition newest_first :: "request_log list \<Rightarrow> request_log list" where
  "newest_first rows = sort_key (\<lambda>r. - lg_Timestamp r) rows"

lemma QueryLogs_page:
  assumes "\<not> db_fault d DbSelect" "0 < k" "k \<le> 200"
  shows "QueryLogs affinity (f\<lparr>fl_Limit := int k, fl_Offset := int off\<rparr>) d =
    Some (take k (drop off (newest_first (filter (where_holds affinity f) (db_rows d)))),
          int (length (filter (where_holds affinity f) (db_rows d))))"
proof -
  have "where_holds affinity (f\<lparr>fl_Limit := int k, fl_Offset := int off\<rparr>) = where_holds affinity f"
    by (simp add: fun_eq_iff where_holds_def buildLogWhereClause_def)
  then show ?thesis using assms by (simp add: QueryLogs_def Let_def page_limit_def newest_first_def)
qed

text \<open>C35: a search of the request log counts exactly the rows that satisfy every given field, with the merchant
  and path text taken as literal prefixes whatever wildcard characters it has; and reading its
  pages one after the other, with any page size up to 200, gives each such row once, newest first.
  The status text is a code or has the form of a digit and \<^verbatim>\<open>xx\<close>.\<close>

theorem log_search_exact:
  assumes "status_checked (fl_Status f)" "QueryLogs affinity f d = Some (rows, n)"
    and "0 < k" "k \<le> 200" "n \<le> int (m * k)"
  shows "n = int (length (filter (search_spec affinity f) (db_rows d))) \<and>
    concat (map (\<lambda>i. fst (the (QueryLogs affinity (f\<lparr>fl_Limit := int k, fl_Offset := int (i * k)\<rparr>) d))) [0..<m]) =
      newest_first (filter (search_spec affinity f) (db_rows d))"
proof -
  let ?hits = "filter (search_spec affinity f) (db_rows d)"
  have up: "\<not> db_fault d DbSelect" and n: "n = int (length ?hits)"
    using assms(2) by (auto simp: QueryLogs_def Let_def where_spec [OF assms(1)] split: if_splits)
  have "concat (map (\<lambda>i. take k (drop (i * k) (newest_first ?hits))) [0..<m]) = newest_first ?hits"
    using pages_cover [OF assms(3), of "newest_first ?hits" m] assms(5) n by (simp add: newest_first_def)
  then show ?thesis
    using n unfolding QueryLogs_page [OF up assms(3,4)] where_spec [OF assms(1)] by simp
qed

section \<open>A small table\<close>

definition demo_row :: "string \<Rightarrow> string \<Rightarrow> time \<Rightarrow> request_log" where
  "demo_row i m t = \<lparr>lg_ID = i, lg_Timestamp = t, lg_MerchantKey = m, lg_Region = ''eu'', lg_Method = ''GET'',
     lg_Path = ''/orders/v0/orders'', lg_QueryParams = [], lg_StatusCode = 404, lg_CacheStatus = ''MISS'', lg_Queued = False,
     lg_QueueWaitMs = 0, lg_UpstreamLatencyMs = 5, lg_TotalLatencyMs = 5, lg_PIIRedactedRequest = False,
     lg_PIIRedactedResponse = False, lg_AmazonRequestID = [], lg_RequestContentLength = 0, lg_ResponseContentLength = 0,
     lg_BodyFile = [], lg_BodyOffset = 0, lg_BodyLength = 0, lg_ErrorReason = [], lg_CachedFromID = []\<rparr>"

definition demo_filter :: log_filter where
  "demo_filter = \<lparr>fl_From = Some 10, fl_To = Some 40, fl_Merchant = ''a%'', fl_Region = [], fl_Endpoint = [],
     fl_Status = ''4xx'', fl_CacheStatus = [], fl_Method = [], fl_Queued = [], fl_MinLatency = 0, fl_MaxLatency = 0,
     fl_Limit = 2, fl_Offset = 0\<rparr>"

definition demo_db :: db where
  "demo_db = \<lparr>db_rows = [demo_row ''1'' ''A%x'' 20, demo_row ''2'' ''abc'' 25, demo_row ''3'' ''a%'' 30], db_fault = (\<lambda>_. False)\<rparr>"

theorem log_search_exact_witness:
  "concat (map (\<lambda>i. fst (the (QueryLogs (\<lambda>_. None) (demo_filter\<lparr>fl_Limit := int 2, fl_Offset := int (i * 2)\<rparr>) demo_db))) [0..<1]) =
     [demo_row ''3'' ''a%'' 30, demo_row ''1'' ''A%x'' 20]"
proof -
  have "status_checked (fl_Status demo_filter)" by code_simp
  moreover have q: "QueryLogs (\<lambda>_. None) demo_filter demo_db = Some ([demo_row ''3'' ''a%'' 30, demo_row ''1'' ''A%x'' 20], 2)"
    by code_simp
  moreover have "newest_first (filter (where_holds (\<lambda>_. None) demo_filter) (db_rows demo_db)) =
      [demo_row ''3'' ''a%'' 30, demo_row ''1'' ''A%x'' 20]"
    by code_simp
  ultimately show ?thesis
    using log_search_exact [of demo_filter "\<lambda>_. None" demo_db _ 2 2 1] by (simp add: where_spec)
qed

end
