(* ===== verification/FileSys.thy ===== *)
theory FileSys
  imports GoLib
begin

text \<open>
  The operating system's files, as far as body storage uses them: the functions of Go's
  \<^verbatim>\<open>os\<close> and \<^verbatim>\<open>path/filepath\<close> that \<^verbatim>\<open>internal/blob/local.go\<close> and \<^verbatim>\<open>internal/bodies\<close> call, and the
  calendar date of a time.

  An absolute path is the list of its components, so \<^verbatim>\<open>filepath.Dir\<close> is \<open>butlast\<close> and the root
  directory is the empty list. A node is a file with its content and modification time, a
  directory, or a symbolic link with an absolute target. The environment decides which calls fail
  (\<open>faults\<close>), how much of a failing append reaches the file (\<open>short_write\<close>) and which random
  part a temporary name gets (\<open>temp\<close>). Path resolution follows at most 40 links in the kernel and
  255 in \<^verbatim>\<open>filepath.EvalSymlinks\<close>; running out is the error it is there.

  The lemmas describe the operations on a tree without links, in which every node's parent is a
  directory.
\<close>

type_synonym path = "string list"

datatype node = File string time | Dir | Link path

datatype os_error = NotExist | OsError

datatype fs_op = OpEval | OpStat | OpOpen | OpMkdir | OpCreate | OpCopy | OpRename | OpRemove | OpReadDir | OpAppend

record fs =
  nodes :: "(path \<times> node) list"
  clock :: time
  faults :: "fs_op \<Rightarrow> path \<Rightarrow> bool"
  short_write :: nat
  temp :: string

section \<open>Looking up paths\<close>

definition fs_node :: "'a fs_scheme \<Rightarrow> path \<Rightarrow> node option" where
  "fs_node s p = (if p = [] then Some Dir else map_of (nodes s) p)"

fun resolve :: "nat \<Rightarrow> 'a fs_scheme \<Rightarrow> path \<Rightarrow> path \<Rightarrow> os_error + path" where
  "resolve n s here [] = Inr here"
| "resolve n s here (c # cs) =
     (case fs_node s (here @ [c]) of
        None \<Rightarrow> Inl NotExist
      | Some Dir \<Rightarrow> resolve n s (here @ [c]) cs
      | Some (File _ _) \<Rightarrow> if cs = [] then Inr (here @ [c]) else Inl OsError
      | Some (Link t) \<Rightarrow> (case n of 0 \<Rightarrow> Inl OsError | Suc m \<Rightarrow> resolve m s [] (t @ cs)))"

definition eval_symlinks :: "'a fs_scheme \<Rightarrow> path \<Rightarrow> os_error + path" where
  "eval_symlinks s p = (if faults s OpEval p then Inl OsError else resolve 255 s [] p)"

definition follow :: "'a fs_scheme \<Rightarrow> path \<Rightarrow> os_error + path" where
  "follow s p = resolve 40 s [] p"

text \<open>The place of a directory entry that a call creates, renames or removes: links are followed
  in the directory part only.\<close>

definition entry_place :: "'a fs_scheme \<Rightarrow> path \<Rightarrow> os_error + path" where
  "entry_place s p =
     (if p = [] then Inl OsError
      else case follow s (butlast p) of
        Inl e \<Rightarrow> Inl e
      | Inr d \<Rightarrow> if fs_node s d = Some Dir then Inr (d @ [last p]) else Inl OsError)"

section \<open>Calls\<close>

definition os_Stat :: "'a fs_scheme \<Rightarrow> path \<Rightarrow> os_error + node" where
  "os_Stat s p =
     (if faults s OpStat p then Inl OsError
      else case follow s p of
        Inl e \<Rightarrow> Inl e
      | Inr q \<Rightarrow> (case fs_node s q of None \<Rightarrow> Inl NotExist | Some nd \<Rightarrow> Inr nd))"

text \<open>\<^verbatim>\<open>os.Open\<close> and reading to the end; a directory opens but cannot be read.\<close>

definition os_ReadFile :: "'a fs_scheme \<Rightarrow> path \<Rightarrow> os_error + string" where
  "os_ReadFile s p =
     (if faults s OpOpen p then Inl OsError
      else case follow s p of
        Inl e \<Rightarrow> Inl e
      | Inr q \<Rightarrow> (case fs_node s q of Some (File c t) \<Rightarrow> Inr c | _ \<Rightarrow> Inl OsError))"

definition set_node :: "path \<Rightarrow> node \<Rightarrow> 'a fs_scheme \<Rightarrow> 'a fs_scheme" where
  "set_node p nd s = s\<lparr>nodes := (p, nd) # filter (\<lambda>e. fst e \<noteq> p) (nodes s)\<rparr>"

definition del_node :: "path \<Rightarrow> 'a fs_scheme \<Rightarrow> 'a fs_scheme" where
  "del_node p s = s\<lparr>nodes := filter (\<lambda>e. fst e \<noteq> p) (nodes s)\<rparr>"

definition has_children :: "'a fs_scheme \<Rightarrow> path \<Rightarrow> bool" where
  "has_children s p \<longleftrightarrow> list_ex (\<lambda>e. fst e \<noteq> [] \<and> butlast (fst e) = p) (nodes s)"

definition os_Remove :: "path \<Rightarrow> 'a fs_scheme \<Rightarrow> os_error option \<times> 'a fs_scheme" where
  "os_Remove p s =
     (if faults s OpRemove p then (Some OsError, s)
      else case entry_place s p of
        Inl e \<Rightarrow> (Some e, s)
      | Inr q \<Rightarrow>
          (case fs_node s q of
             None \<Rightarrow> (Some NotExist, s)
           | Some Dir \<Rightarrow> if has_children s q then (Some OsError, s) else (None, del_node q s)
           | Some _ \<Rightarrow> (None, del_node q s)))"

definition os_Mkdir :: "path \<Rightarrow> 'a fs_scheme \<Rightarrow> os_error option \<times> 'a fs_scheme" where
  "os_Mkdir p s =
     (if faults s OpMkdir p then (Some OsError, s)
      else case entry_place s p of
        Inl e \<Rightarrow> (Some e, s)
      | Inr q \<Rightarrow>
          (case fs_node s q of
             None \<Rightarrow> (None, set_node q Dir s)
           | Some Dir \<Rightarrow> (None, s)
           | Some _ \<Rightarrow> (Some OsError, s)))"

text \<open>\<^verbatim>\<open>os.MkdirAll\<close>, on the reversed path.\<close>

fun mkdir_all :: "path \<Rightarrow> 'a fs_scheme \<Rightarrow> os_error option \<times> 'a fs_scheme" where
  "mkdir_all [] s = (None, s)"
| "mkdir_all (c # r) s =
     (case os_Stat s (rev (c # r)) of
        Inr Dir \<Rightarrow> (None, s)
      | Inr _ \<Rightarrow> (Some OsError, s)
      | Inl _ \<Rightarrow>
          (case mkdir_all r s of
             (Some e, s') \<Rightarrow> (Some e, s')
           | (None, s') \<Rightarrow> os_Mkdir (rev (c # r)) s'))"

definition os_MkdirAll :: "path \<Rightarrow> 'a fs_scheme \<Rightarrow> os_error option \<times> 'a fs_scheme" where
  "os_MkdirAll p = mkdir_all (rev p)"

text \<open>\<^verbatim>\<open>os.CreateTemp(dir, ".blob-*.tmp")\<close>: the name with its random part. The call retries taken
  names; here a taken name is an error.\<close>

definition temp_file :: "'a fs_scheme \<Rightarrow> string" where
  "temp_file s = ''.blob-'' @ temp s @ ''.tmp''"

definition os_CreateTemp :: "path \<Rightarrow> 'a fs_scheme \<Rightarrow> (os_error + path) \<times> 'a fs_scheme" where
  "os_CreateTemp d s =
     (let p = d @ [temp_file s] in
      if faults s OpCreate p then (Inl OsError, s)
      else case entry_place s p of
        Inl e \<Rightarrow> (Inl e, s)
      | Inr q \<Rightarrow>
          if fs_node s q \<noteq> None then (Inl OsError, s)
          else (Inr p, set_node q (File [] (clock s)) s))"

text \<open>\<^verbatim>\<open>io.Copy\<close> of a reader into an open file. A reader is the bytes it delivers before its end,
  or an error.\<close>

definition os_Fill :: "path \<Rightarrow> os_error + string \<Rightarrow> 'a fs_scheme \<Rightarrow> os_error option \<times> 'a fs_scheme" where
  "os_Fill p r s =
     (if faults s OpCopy p then (Some OsError, s)
      else case r of
        Inl e \<Rightarrow> (Some e, s)
      | Inr c \<Rightarrow>
          (case entry_place s p of
             Inl e \<Rightarrow> (Some e, s)
           | Inr q \<Rightarrow> (None, set_node q (File c (clock s)) s)))"

definition os_Rename :: "path \<Rightarrow> path \<Rightarrow> 'a fs_scheme \<Rightarrow> os_error option \<times> 'a fs_scheme" where
  "os_Rename p p' s =
     (if faults s OpRename p' then (Some OsError, s)
      else case (entry_place s p, entry_place s p') of
        (Inr q, Inr q') \<Rightarrow>
          (case fs_node s q of
             Some (File c t) \<Rightarrow>
               if fs_node s q' = Some Dir then (Some OsError, s)
               else (None, set_node q' (File c t) (del_node q s))
           | _ \<Rightarrow> (Some OsError, s))
      | _ \<Rightarrow> (Some OsError, s))"

text \<open>\<^verbatim>\<open>os.OpenFile\<close> for appending, which creates the file, and a write to the handle. A handle
  stands for the place of its file; what is written after the file was unlinked is lost.\<close>

definition os_OpenAppend :: "path \<Rightarrow> 'a fs_scheme \<Rightarrow> (os_error + path) \<times> 'a fs_scheme" where
  "os_OpenAppend p s =
     (if faults s OpOpen p then (Inl OsError, s)
      else case follow s p of
        Inr q \<Rightarrow>
          (case fs_node s q of Some (File c t) \<Rightarrow> (Inr q, s) | _ \<Rightarrow> (Inl OsError, s))
      | Inl OsError \<Rightarrow> (Inl OsError, s)
      | Inl NotExist \<Rightarrow>
          (case entry_place s p of
             Inl e \<Rightarrow> (Inl e, s)
           | Inr q \<Rightarrow>
               if fs_node s q \<noteq> None then (Inl OsError, s)
               else (Inr q, set_node q (File [] (clock s)) s)))"

definition os_Append :: "path \<Rightarrow> string \<Rightarrow> 'a fs_scheme \<Rightarrow> os_error option \<times> 'a fs_scheme" where
  "os_Append q b s =
     (let put = (\<lambda>b. case fs_node s q of
                   Some (File c t) \<Rightarrow> set_node q (File (c @ b) (clock s)) s
                 | _ \<Rightarrow> s)
      in if faults s OpAppend q then (Some OsError, put (take (short_write s) b))
         else (None, put b))"

text \<open>\<^verbatim>\<open>os.ReadDir\<close>: the entries of a directory in the order of their names.\<close>

definition os_ReadDir :: "'a fs_scheme \<Rightarrow> path \<Rightarrow> os_error + (string \<times> node) list" where
  "os_ReadDir s p =
     (if faults s OpReadDir p then Inl OsError
      else case follow s p of
        Inl e \<Rightarrow> Inl e
      | Inr d \<Rightarrow>
          if fs_node s d \<noteq> Some Dir then Inl OsError
          else Inr (sort_key fst
             (map (\<lambda>e. (last (fst e), snd e))
               (filter (\<lambda>e. fst e \<noteq> [] \<and> butlast (fst e) = d) (nodes s)))))"

text \<open>\<^verbatim>\<open>filepath.WalkDir\<close>: the nodes below a path that are no directories, in lexical order; links
  are not followed. A missing start is an empty walk, as the callback answers it with
  \<^verbatim>\<open>SkipDir\<close>.\<close>

definition os_WalkDir :: "'a fs_scheme \<Rightarrow> path \<Rightarrow> os_error + (path \<times> node) list" where
  "os_WalkDir s p =
     (if faults s OpReadDir p then Inl OsError
      else case (if p = [] then Inr [] else entry_place s p) of
        Inl NotExist \<Rightarrow> Inr []
      | Inl OsError \<Rightarrow> Inl OsError
      | Inr q \<Rightarrow>
          Inr (sort_key fst
            (map (\<lambda>e. (p @ drop (length q) (fst e), snd e))
              (filter (\<lambda>e. take (length q) (fst e) = q \<and> snd e \<noteq> Dir) (nodes s)))))"

definition node_size :: "node \<Rightarrow> int" where
  "node_size nd =
     (case nd of File c t \<Rightarrow> int (length c) | Dir \<Rightarrow> 0
      | Link t \<Rightarrow> int (length (concat (map (\<lambda>c. CHR ''/'' # c) t))))"

definition node_time :: "node \<Rightarrow> time" where
  "node_time nd = (case nd of File c t \<Rightarrow> t | _ \<Rightarrow> 0)"

section \<open>Trees without links\<close>

definition fs_tree :: "'a fs_scheme \<Rightarrow> bool" where
  "fs_tree s \<longleftrightarrow> distinct (map fst (nodes s)) \<and>
     list_all (\<lambda>(p, nd). p \<noteq> [] \<and> fs_node s (butlast p) = Some Dir \<and>
                 (case nd of Link _ \<Rightarrow> False | _ \<Rightarrow> True)) (nodes s)"

lemma map_of_drop_key:
  "map_of (filter (\<lambda>e. fst e \<noteq> p) xs) q = (if q = p then None else map_of xs q)"
  by (induction xs) auto

lemma fs_node_set [simp]:
  "p \<noteq> [] \<Longrightarrow> fs_node (set_node p nd s) q = (if q = p then Some nd else fs_node s q)"
  by (simp add: fs_node_def set_node_def map_of_drop_key)

lemma fs_node_del [simp]:
  "p \<noteq> [] \<Longrightarrow> fs_node (del_node p s) q = (if q = p then None else fs_node s q)"
  by (simp add: fs_node_def del_node_def map_of_drop_key)

lemma set_node_simps [simp]:
  "clock (set_node p nd s) = clock s" "faults (set_node p nd s) = faults s"
  "temp (set_node p nd s) = temp s" "short_write (set_node p nd s) = short_write s"
  "temp_file (set_node p nd s) = temp_file s"
  by (simp_all add: set_node_def temp_file_def)

lemma del_node_simps [simp]:
  "clock (del_node p s) = clock s" "faults (del_node p s) = faults s"
  "temp (del_node p s) = temp s" "short_write (del_node p s) = short_write s"
  "temp_file (del_node p s) = temp_file s"
  by (simp_all add: del_node_def temp_file_def)

lemma fs_tree_node:
  assumes "fs_tree s" "fs_node s (p @ [c]) = Some nd"
  shows "fs_node s p = Some Dir" and "nd \<noteq> Link t"
proof -
  from assms(2) have "(p @ [c], nd) \<in> set (nodes s)"
    by (auto simp: fs_node_def dest: map_of_SomeD)
  with assms(1) show "fs_node s p = Some Dir" "nd \<noteq> Link t"
    by (auto simp: fs_tree_def list_all_iff)
qed

lemma fs_tree_above:
  "fs_tree s \<Longrightarrow> fs_node s (p @ q) = Some nd \<Longrightarrow> q \<noteq> [] \<Longrightarrow> fs_node s p = Some Dir"
proof (induction q arbitrary: nd rule: rev_induct)
  case (snoc c q)
  have "fs_node s (p @ q) = Some Dir"
    by (rule fs_tree_node(1) [OF snoc.prems(1), of "p @ q" c nd]) (use snoc.prems in simp)
  with snoc show ?case by (cases "q = []") auto
qed simp

lemma resolve_present:
  "fs_tree s \<Longrightarrow> fs_node s (here @ p) = Some nd \<Longrightarrow> resolve n s here p = Inr (here @ p)"
proof (induction p arbitrary: here)
  case (Cons c p)
  show ?case
  proof (cases "p = []")
    case True
    with Cons.prems fs_tree_node(2) [OF Cons.prems(1), of here c nd] show ?thesis
      by (cases nd) auto
  next
    case False
    have "fs_node s (here @ [c]) = Some Dir"
      by (rule fs_tree_above [OF Cons.prems(1), of "here @ [c]" p nd]) (use Cons.prems False in simp_all)
    with Cons show ?thesis by simp
  qed
qed simp

lemma resolve_absent:
  "fs_tree s \<Longrightarrow> fs_node s (here @ q) = Some Dir \<Longrightarrow> fs_node s (here @ q @ [c]) = None \<Longrightarrow>
     resolve n s here (q @ c # cs) = Inl NotExist"
proof (induction q arbitrary: here)
  case (Cons a q)
  have "fs_node s (here @ [a]) = Some Dir"
    using fs_tree_above [OF Cons.prems(1), of "here @ [a]" q Dir] Cons.prems(2) by (cases "q = []") auto
  with Cons show ?case by simp
qed simp

lemma follow_present: "fs_tree s \<Longrightarrow> fs_node s p = Some nd \<Longrightarrow> follow s p = Inr p"
  unfolding follow_def using resolve_present [of s "[]" p nd] by simp

lemma follow_absent:
  "fs_tree s \<Longrightarrow> fs_node s p = Some Dir \<Longrightarrow> fs_node s (p @ [c]) = None \<Longrightarrow>
     follow s (p @ c # cs) = Inl NotExist"
  unfolding follow_def using resolve_absent [of s "[]" p c] by simp

lemma eval_present:
  "fs_tree s \<Longrightarrow> fs_node s p = Some nd \<Longrightarrow> eval_symlinks s p = (if faults s OpEval p then Inl OsError else Inr p)"
  unfolding eval_symlinks_def using resolve_present [of s "[]" p nd] by simp

lemma eval_absent:
  "fs_tree s \<Longrightarrow> fs_node s p = Some Dir \<Longrightarrow> fs_node s (p @ [c]) = None \<Longrightarrow>
     eval_symlinks s (p @ c # cs) = (if faults s OpEval (p @ c # cs) then Inl OsError else Inl NotExist)"
  unfolding eval_symlinks_def using resolve_absent [of s "[]" p c] by simp

lemma entry_place_dir:
  "fs_tree s \<Longrightarrow> fs_node s d = Some Dir \<Longrightarrow> entry_place s (d @ [c]) = Inr (d @ [c])"
  by (simp add: entry_place_def follow_present)

lemma follow_entry:
  assumes "fs_tree s" "fs_node s d = Some Dir"
  shows "follow s (d @ [c]) = (if fs_node s (d @ [c]) = None then Inl NotExist else Inr (d @ [c]))"
  using follow_absent [OF assms, of c "[]"] follow_present [OF assms(1), of "d @ [c]"]
  by (cases "fs_node s (d @ [c])") auto

lemma eval_entry:
  assumes "fs_tree s" "fs_node s d = Some Dir"
  shows "eval_symlinks s (d @ [c]) =
    (if faults s OpEval (d @ [c]) then Inl OsError
     else if fs_node s (d @ [c]) = None then Inl NotExist else Inr (d @ [c]))"
  using eval_absent [OF assms, of c "[]"] eval_present [OF assms(1), of "d @ [c]"]
  by (cases "fs_node s (d @ [c])") auto

lemmas tree_paths = follow_present follow_entry eval_present eval_entry entry_place_dir

lemma fs_tree_set:
  assumes "fs_tree s" "fs_node s d = Some Dir"
    and "nd = Dir \<or> (\<exists>c t. nd = File c t) \<and> fs_node s (d @ [n]) \<noteq> Some Dir"
  shows "fs_tree (set_node (d @ [n]) nd s)"
proof -
  have keep: "fs_node (set_node (d @ [n]) nd s) (butlast p) = Some Dir"
    if "fs_node s (butlast p) = Some Dir" for p
    using that assms(3) by auto
  have "p \<noteq> [] \<and> fs_node (set_node (d @ [n]) nd s) (butlast p) = Some Dir \<and> (case x of Link _ \<Rightarrow> False | _ \<Rightarrow> True)"
    if "(p, x) \<in> set (nodes (set_node (d @ [n]) nd s))" for p x
  proof (cases "p = d @ [n]")
    case True
    then have "x = nd" using that by (auto simp: set_node_def)
    then show ?thesis using True assms by auto
  next
    case False
    then have "(p, x) \<in> set (nodes s)" using that by (auto simp: set_node_def)
    then have "p \<noteq> []" "fs_node s (butlast p) = Some Dir" "case x of Link _ \<Rightarrow> False | _ \<Rightarrow> True"
      using assms(1) unfolding fs_tree_def list_all_iff by fastforce+
    then show ?thesis using keep [of p] by blast
  qed
  moreover have "distinct (map fst (nodes (set_node (d @ [n]) nd s)))"
    using assms(1) by (auto simp: set_node_def fs_tree_def distinct_map intro: inj_on_subset)
  ultimately show ?thesis
    unfolding fs_tree_def list_all_iff by fast
qed

lemma fs_tree_del:
  assumes "fs_tree s" "p \<noteq> []" "fs_node s p \<noteq> Some Dir"
  shows "fs_tree (del_node p s)"
proof -
  have "q \<noteq> [] \<and> fs_node (del_node p s) (butlast q) = Some Dir \<and> (case x of Link _ \<Rightarrow> False | _ \<Rightarrow> True)"
    if "(q, x) \<in> set (nodes (del_node p s))" for q x
  proof -
    have "(q, x) \<in> set (nodes s)" using that by (auto simp: del_node_def)
    then have "q \<noteq> []" "fs_node s (butlast q) = Some Dir" "case x of Link _ \<Rightarrow> False | _ \<Rightarrow> True"
      using assms(1) unfolding fs_tree_def list_all_iff by fastforce+
    then show ?thesis using assms by auto
  qed
  moreover have "distinct (map fst (nodes (del_node p s)))"
    using assms(1) by (auto simp: del_node_def fs_tree_def distinct_map intro: inj_on_subset)
  ultimately show ?thesis
    unfolding fs_tree_def list_all_iff by fast
qed

lemma fs_tree_mem:
  assumes "fs_tree s"
  shows "(p, nd) \<in> set (nodes s) \<longleftrightarrow> p \<noteq> [] \<and> fs_node s p = Some nd"
  using assms map_of_eq_Some_iff [of "nodes s" p nd]
  by (auto simp: fs_tree_def fs_node_def list_all_iff)

end
