(* ===== verification/Blob.thy ===== *)
theory Blob
  imports FileSys
begin

text \<open>
  Object storage (\<^verbatim>\<open>internal/blob\<close>): the interface \<^verbatim>\<open>Backend\<close> as a record of operations on the state
  of the world, its contract as the locale \<open>blob_store\<close>, and the local directory
  (\<^verbatim>\<open>internal/blob/local.go\<close>) as an implementation, interpreted on it.

  A reader is what it delivers: all its bytes, or an error. \<^verbatim>\<open>Get\<close> reads at once what its caller
  will read from the open file. The error \<^verbatim>\<open>ErrNotFound\<close> is told apart from all others because the
  callers do.

  Shown: every path the local backend hands to the operating system resolves inside its root,
  whatever symbolic links there are; \<^verbatim>\<open>Put\<close> is atomic: a failing one leaves every object but its own
  temporary file as it was; what was put is what is read; the laws of the contract.
\<close>

datatype blob_error = ErrNotFound | BlobError

record object =
  ob_Key :: string
  ob_Size :: int
  ob_ModTime :: time

type_synonym reader = "os_error + string"

record 's backend =
  be_Put :: "string \<Rightarrow> reader \<Rightarrow> 's \<Rightarrow> blob_error option \<times> 's"
  be_Get :: "string \<Rightarrow> int \<Rightarrow> int \<Rightarrow> 's \<Rightarrow> blob_error + string"
  be_Delete :: "string list \<Rightarrow> 's \<Rightarrow> blob_error option \<times> 's"
  be_List :: "string \<Rightarrow> 's \<Rightarrow> blob_error + object list"
  be_Stat :: "string \<Rightarrow> 's \<Rightarrow> blob_error + object"

text \<open>The byte range of \<^verbatim>\<open>Get\<close>: from the offset, to the end if the length is not positive.\<close>

definition byte_range :: "int \<Rightarrow> int \<Rightarrow> string \<Rightarrow> string" where
  "byte_range offset len c =
     (let c' = drop (nat offset) c in if 0 < len then take (nat len) c' else c')"

section \<open>The local directory\<close>

record local_backend =
  lb_root :: path

definition NewLocal :: "path \<Rightarrow> 'a fs_scheme \<Rightarrow> (blob_error + local_backend) \<times> 'a fs_scheme" where
  "NewLocal base s =
     (case os_MkdirAll base s of
        (Some e, s') \<Rightarrow> (Inl BlobError, s')
      | (None, s') \<Rightarrow>
          (Inr \<lparr>lb_root = (case eval_symlinks s' base of Inr resolved \<Rightarrow> resolved | Inl _ \<Rightarrow> base)\<rparr>, s'))"

text \<open>\<^verbatim>\<open>filepath.Join(root, key)\<close> for a key without \<^verbatim>\<open>..\<close>.\<close>

definition key_path :: "path \<Rightarrow> string \<Rightarrow> path" where
  "key_path base key = base @ filter (\<lambda>c. c \<noteq> [] \<and> c \<noteq> ''.'') (split_on (CHR ''/'') key)"

text \<open>The textual prefix test on the resolved path; for the root \<^verbatim>\<open>/\<close> the prefix is \<^verbatim>\<open>//\<close>, which no
  path has.\<close>

definition inside :: "path \<Rightarrow> path \<Rightarrow> bool" where
  "inside base q \<longleftrightarrow> q = base \<or> (base \<noteq> [] \<and> take (length base) q = base)"

text \<open>The loop of \<^verbatim>\<open>pathFor\<close> over the path and its ancestors, on the reversed path.\<close>

fun contained :: "'a fs_scheme \<Rightarrow> path \<Rightarrow> path \<Rightarrow> bool" where
  "contained s base [] = (case eval_symlinks s [] of Inr q \<Rightarrow> inside base q | Inl e \<Rightarrow> e = NotExist)"
| "contained s base (c # r) =
     (case eval_symlinks s (rev (c # r)) of
        Inr q \<Rightarrow> inside base q
      | Inl NotExist \<Rightarrow> contained s base r
      | Inl OsError \<Rightarrow> False)"

definition pathFor :: "local_backend \<Rightarrow> 'a fs_scheme \<Rightarrow> string \<Rightarrow> blob_error + path" where
  "pathFor b s key =
     (if key = [] \<or> contains key ''..'' then Inl BlobError
      else let joined = key_path (lb_root b) key in
           if contained s (lb_root b) (rev joined) then Inr joined else Inl BlobError)"

definition local_Put :: "local_backend \<Rightarrow> string \<Rightarrow> reader \<Rightarrow> 'a fs_scheme \<Rightarrow> blob_error option \<times> 'a fs_scheme" where
  "local_Put b key r s =
     (case pathFor b s key of
        Inl e \<Rightarrow> (Some e, s)
      | Inr path \<Rightarrow>
          (case os_MkdirAll (butlast path) s of
             (Some e, s1) \<Rightarrow> (Some BlobError, s1)
           | (None, s1) \<Rightarrow>
               (case os_CreateTemp (butlast path) s1 of
                  (Inl e, s2) \<Rightarrow> (Some BlobError, s2)
                | (Inr tmp, s2) \<Rightarrow>
                    (case os_Fill tmp r s2 of
                       (Some e, s3) \<Rightarrow> (Some BlobError, snd (os_Remove tmp s3))
                     | (None, s3) \<Rightarrow>
                         (case os_Rename tmp path s3 of
                            (Some e, s4) \<Rightarrow> (Some BlobError, snd (os_Remove tmp s4))
                          | (None, s4) \<Rightarrow> (None, s4))))))"

definition local_Get :: "local_backend \<Rightarrow> string \<Rightarrow> int \<Rightarrow> int \<Rightarrow> 'a fs_scheme \<Rightarrow> blob_error + string" where
  "local_Get b key offset len s =
     (case pathFor b s key of
        Inl e \<Rightarrow> Inl e
      | Inr path \<Rightarrow>
          (case os_ReadFile s path of
             Inl NotExist \<Rightarrow> Inl ErrNotFound
           | Inl OsError \<Rightarrow> Inl BlobError
           | Inr c \<Rightarrow> Inr (byte_range offset len c)))"

fun local_Delete :: "local_backend \<Rightarrow> string list \<Rightarrow> 'a fs_scheme \<Rightarrow> blob_error option \<times> 'a fs_scheme" where
  "local_Delete b [] s = (None, s)"
| "local_Delete b (key # keys) s =
     (case pathFor b s key of
        Inl e \<Rightarrow> (Some e, s)
      | Inr path \<Rightarrow>
          (case os_Remove path s of
             (Some OsError, s') \<Rightarrow> (Some BlobError, s')
           | (_, s') \<Rightarrow> local_Delete b keys s'))"

text \<open>\<^verbatim>\<open>filepath.Rel\<close> between absolute paths.\<close>

fun rel_path :: "path \<Rightarrow> path \<Rightarrow> path" where
  "rel_path (x # xs) (y # ys) =
     (if x = y then rel_path xs ys else map (\<lambda>_. ''..'') (x # xs) @ y # ys)"
| "rel_path xs ys = map (\<lambda>_. ''..'') xs @ ys"

definition local_List :: "local_backend \<Rightarrow> string \<Rightarrow> 'a fs_scheme \<Rightarrow> blob_error + object list" where
  "local_List b prefix s =
     (let prefixPath = key_path (lb_root b) prefix;
          walkRoot = (if has_suffix prefix ''/'' then prefixPath else butlast prefixPath)
      in case os_WalkDir s walkRoot of
           Inl e \<Rightarrow> Inl BlobError
         | Inr found \<Rightarrow>
             Inr (filter (\<lambda>ob. has_prefix (ob_Key ob) prefix)
               (map (\<lambda>(p, nd). \<lparr>ob_Key = join ''/'' (rel_path (lb_root b) p), ob_Size = node_size nd,
                                ob_ModTime = node_time nd\<rparr>) found)))"

definition local_Stat :: "local_backend \<Rightarrow> string \<Rightarrow> 'a fs_scheme \<Rightarrow> blob_error + object" where
  "local_Stat b key s =
     (case pathFor b s key of
        Inl e \<Rightarrow> Inl e
      | Inr path \<Rightarrow>
          (case os_Stat s path of
             Inl NotExist \<Rightarrow> Inl ErrNotFound
           | Inl OsError \<Rightarrow> Inl BlobError
           | Inr nd \<Rightarrow> Inr \<lparr>ob_Key = key, ob_Size = node_size nd, ob_ModTime = node_time nd\<rparr>))"

definition LocalBackend :: "local_backend \<Rightarrow> 'a fs_scheme backend" where
  "LocalBackend b =
     \<lparr>be_Put = local_Put b, be_Get = local_Get b, be_Delete = local_Delete b, be_List = local_List b,
      be_Stat = local_Stat b\<rparr>"

section \<open>Every path stays inside the root\<close>

lemma resolve_more_links:
  "resolve n s here p = Inr q \<Longrightarrow> n \<le> m \<Longrightarrow> resolve m s here p = Inr q"
proof (induction n s here p arbitrary: m rule: resolve.induct)
  case (2 n s here c cs)
  show ?case
  proof (cases "fs_node s (here @ [c])")
    case (Some nd)
    show ?thesis
    proof (cases nd)
      case Dir
      with Some "2.prems" "2.IH"(1) [of Dir m] show ?thesis by simp
    next
      case (Link t)
      with Some "2.prems" obtain n' m' where nm: "n = Suc n'" "m = Suc m'"
        by (cases n; cases m) auto
      with Some Link "2.prems" "2.IH"(2) [of "Link t" t n' m'] show ?thesis by simp
    qed (use Some "2.prems" in \<open>simp split: if_splits\<close>)
  qed (use "2.prems" in simp)
qed simp

text \<open>Where \<^verbatim>\<open>pathFor\<close> accepts a key whose path exists, opening that path reaches a node inside the
  root.\<close>

lemma pathFor_inside:
  assumes "pathFor b s key = Inr p" "follow s p = Inr q"
  shows "inside (lb_root b) q"
proof -
  have ev: "eval_symlinks s p = Inl OsError \<or> eval_symlinks s p = Inr q"
    using resolve_more_links [of 40 s "[]" p q 255] assms(2)
    by (auto simp: eval_symlinks_def follow_def)
  from assms(1) have "contained s (lb_root b) (rev p)"
    by (auto simp: pathFor_def Let_def split: if_splits)
  with ev show ?thesis
    by (cases "rev p") (auto split: sum.splits os_error.splits)
qed

section \<open>The contract\<close>

text \<open>Body files are stored under keys \<^verbatim>\<open>recent/\<close>\<open>n\<close> and \<^verbatim>\<open>archive/\<close>\<open>n\<close>.\<close>

definition name_ok :: "string \<Rightarrow> bool" where
  "name_ok n \<longleftrightarrow> n \<noteq> [] \<and> n \<noteq> ''.'' \<and> CHR ''/'' \<notin> set n \<and> \<not> contains n ''..''"

definition tier_ok :: "string \<Rightarrow> bool" where
  "tier_ok t \<longleftrightarrow> t = ''recent'' \<or> t = ''archive''"

definition body_key :: "string \<Rightarrow> bool" where
  "body_key k \<longleftrightarrow> (case split_on (CHR ''/'') k of [t, n] \<Rightarrow> tier_ok t \<and> name_ok n | _ \<Rightarrow> False)"

definition area_ok :: "string \<Rightarrow> bool" where
  "area_ok t \<longleftrightarrow> tier_ok t \<or> t = ''current''"

text \<open>Files that a failed \<^verbatim>\<open>Put\<close> may leave behind.\<close>

definition temp_name :: "string \<Rightarrow> bool" where
  "temp_name n \<longleftrightarrow> has_prefix n ''.blob-''"

definition temp_key :: "string \<Rightarrow> bool" where
  "temp_key k \<longleftrightarrow> temp_name (last (split_on (CHR ''/'') k))"

text \<open>Nothing of the environment but the tree changes; no call fails.\<close>

definition same_env :: "'a fs_scheme \<Rightarrow> 'a fs_scheme \<Rightarrow> bool" where
  "same_env s s' \<longleftrightarrow> clock s' = clock s \<and> faults s' = faults s \<and> temp s' = temp s \<and>
     short_write s' = short_write s"

definition quiet :: "'a fs_scheme \<Rightarrow> bool" where
  "quiet s \<longleftrightarrow> (\<forall>op p. \<not> faults s op p) \<and> (\<forall>(p, nd) \<in> set (nodes s). last p \<noteq> temp_file s)"

locale blob_store =
  fixes b :: "'a fs_scheme backend"
    and ok :: "'a fs_scheme \<Rightarrow> bool"
    and objs :: "'a fs_scheme \<Rightarrow> string \<Rightarrow> (string \<times> time) option"
  assumes objs_key: "ok s \<Longrightarrow> objs s k = Some v \<Longrightarrow> body_key k"
    and put_env: "ok s \<Longrightarrow> body_key k \<Longrightarrow> be_Put b k r s = (e, s') \<Longrightarrow> ok s' \<and> same_env s s'"
    and put_done: "ok s \<Longrightarrow> body_key k \<Longrightarrow> be_Put b k r s = (None, s') \<Longrightarrow>
          \<exists>c. r = Inr c \<and> objs s' = (objs s)(k \<mapsto> (c, clock s))"
    and put_failed: "ok s \<Longrightarrow> body_key k \<Longrightarrow> be_Put b k r s = (Some er, s') \<Longrightarrow> \<not> temp_key k' \<Longrightarrow>
          objs s' k' = objs s k'"
    and put_quiet: "ok s \<Longrightarrow> body_key k \<Longrightarrow> quiet s \<Longrightarrow>
          \<exists>s'. be_Put b k (Inr c) s = (None, s') \<and> (\<not> temp_key k \<longrightarrow> quiet s')"
    and get_done: "ok s \<Longrightarrow> body_key k \<Longrightarrow> be_Get b k off n s = Inr c \<Longrightarrow>
          \<exists>c' t. objs s k = Some (c', t) \<and> c = byte_range off n c'"
    and get_missing: "ok s \<Longrightarrow> body_key k \<Longrightarrow> be_Get b k off n s = Inl ErrNotFound \<Longrightarrow> objs s k = None"
    and get_quiet: "ok s \<Longrightarrow> body_key k \<Longrightarrow> quiet s \<Longrightarrow>
          be_Get b k off n s =
            (case objs s k of None \<Rightarrow> Inl ErrNotFound | Some (c, t) \<Rightarrow> Inr (byte_range off n c))"
    and delete_env: "ok s \<Longrightarrow> list_all body_key ks \<Longrightarrow> be_Delete b ks s = (e, s') \<Longrightarrow> ok s' \<and> same_env s s'"
    and delete_objs: "ok s \<Longrightarrow> list_all body_key ks \<Longrightarrow> be_Delete b ks s = (e, s') \<Longrightarrow>
          objs s' k = objs s k \<or> k \<in> set ks \<and> objs s' k = None"
    and delete_done: "ok s \<Longrightarrow> list_all body_key ks \<Longrightarrow> be_Delete b ks s = (None, s') \<Longrightarrow> k \<in> set ks \<Longrightarrow>
          objs s' k = None"
    and delete_quiet: "ok s \<Longrightarrow> list_all body_key ks \<Longrightarrow> quiet s \<Longrightarrow>
          \<exists>s'. be_Delete b ks s = (None, s') \<and> quiet s'"
    and list_done: "ok s \<Longrightarrow> tier_ok t \<Longrightarrow> be_List b (t @ ''/'') s = Inr os \<Longrightarrow>
          distinct (map ob_Key os) \<and>
          (\<forall>ob \<in> set os. has_prefix (ob_Key ob) (t @ ''/'')) \<and>
          (\<forall>k. has_prefix k (t @ ''/'') \<longrightarrow> (\<forall>ob. ob_Key ob = k \<longrightarrow>
             (ob \<in> set os \<longleftrightarrow> (\<exists>c. objs s k = Some (c, ob_ModTime ob) \<and> ob_Size ob = int (length c)))))"
    and list_quiet: "ok s \<Longrightarrow> tier_ok t \<Longrightarrow> quiet s \<Longrightarrow> \<exists>os. be_List b (t @ ''/'') s = Inr os"

section \<open>The local directory keeps it\<close>

definition tier_node :: "path \<Rightarrow> path \<Rightarrow> node \<Rightarrow> bool" where
  "tier_node base p nd \<longleftrightarrow>
     (take (length base) p = base \<longrightarrow>
       (case drop (length base) p of
          t # r \<Rightarrow>
            area_ok t \<longrightarrow>
              (case r of
                 [] \<Rightarrow> nd = Dir
               | [n] \<Rightarrow> name_ok n \<and> (case nd of File _ _ \<Rightarrow> True | _ \<Rightarrow> False)
               | _ \<Rightarrow> False)
        | [] \<Rightarrow> True))"

definition local_ok :: "path \<Rightarrow> 'a fs_scheme \<Rightarrow> bool" where
  "local_ok base s \<longleftrightarrow> fs_tree s \<and> base \<noteq> [] \<and> fs_node s base = Some Dir \<and>
     fs_node s (base @ [''current'']) = Some Dir \<and> list_all is_digit (temp s) \<and>
     (\<forall>(p, nd) \<in> set (nodes s). tier_node base p nd)"

definition local_objs :: "path \<Rightarrow> 'a fs_scheme \<Rightarrow> string \<Rightarrow> (string \<times> time) option" where
  "local_objs base s k =
     (case split_on (CHR ''/'') k of
        [t, n] \<Rightarrow>
          if tier_ok t then (case fs_node s (base @ [t, n]) of Some (File c tm) \<Rightarrow> Some (c, tm) | _ \<Rightarrow> None)
          else None
      | _ \<Rightarrow> None)"

lemma body_keyE:
  assumes "body_key k"
  obtains t n where "split_on (CHR ''/'') k = [t, n]" "k = t @ ''/'' @ n" "tier_ok t" "name_ok n"
proof -
  from assms obtain t n where tn: "split_on (CHR ''/'') k = [t, n]" "tier_ok t" "name_ok n"
    by (auto simp: body_key_def split: list.splits)
  moreover have "k = t @ ''/'' @ n" using join_split_on [of "CHR ''/''" k] tn(1) by simp
  ultimately show thesis using that by blast
qed

lemma tier_ok_no_slash: "tier_ok t \<Longrightarrow> CHR ''/'' \<notin> set t"
  by (auto simp: tier_ok_def)

lemma split_key: "tier_ok t \<Longrightarrow> CHR ''/'' \<notin> set n \<Longrightarrow> split_on (CHR ''/'') (t @ CHR ''/'' # n) = [t, n]"
  by (simp add: split_on_append_sep tier_ok_no_slash split_on_no_sep)

lemma body_key_iff: "CHR ''/'' \<notin> set n \<Longrightarrow> tier_ok t \<Longrightarrow> body_key (t @ CHR ''/'' # n) \<longleftrightarrow> name_ok n"
  by (simp add: body_key_def split_key)

lemma local_area:
  assumes "local_ok base s" "area_ok t"
  shows "fs_node s (base @ [t]) = Some nd \<Longrightarrow> nd = Dir"
    and "fs_node s (base @ t # n # r) = Some nd \<Longrightarrow> r = [] \<and> name_ok n \<and> (\<exists>c tm. nd = File c tm)"
proof -
  have mem: "fs_node s p = Some nd \<Longrightarrow> p \<noteq> [] \<Longrightarrow> tier_node base p nd" for p
    using assms(1) fs_tree_mem [of s p nd] unfolding local_ok_def by fastforce
  show "fs_node s (base @ [t]) = Some nd \<Longrightarrow> nd = Dir"
    using mem [of "base @ [t]"] assms(2) by (simp add: tier_node_def)
  show "fs_node s (base @ t # n # r) = Some nd \<Longrightarrow> r = [] \<and> name_ok n \<and> (\<exists>c tm. nd = File c tm)"
    using mem [of "base @ t # n # r"] assms(2)
    by (auto simp: tier_node_def split: list.splits node.splits)
qed

lemma tier_area [simp]: "tier_ok t \<Longrightarrow> area_ok t" "area_ok ''current''"
  by (simp_all add: area_ok_def)

lemma local_tier:
  assumes "local_ok base s" "tier_ok t"
  shows "fs_node s (base @ [t]) = Some nd \<Longrightarrow> nd = Dir"
    and "fs_node s (base @ t # n # r) = Some nd \<Longrightarrow> r = [] \<and> name_ok n \<and> (\<exists>c tm. nd = File c tm)"
  using local_area [OF assms(1) tier_area(1) [OF assms(2)]] by blast+

lemma contains_split:
  "contains (t @ c # n) ''..'' \<Longrightarrow> c \<noteq> CHR ''.'' \<Longrightarrow> contains t ''..'' \<or> contains n ''..''"
proof (induction t)
  case Nil
  then show ?case by (auto simp: contains_def)
next
  case (Cons x t)
  then show ?case
    by (cases t) (auto simp: contains_def split: if_splits)
qed

lemma key_no_dots: "tier_ok t \<Longrightarrow> name_ok n \<Longrightarrow> \<not> contains (t @ CHR ''/'' # n) ''..''"
  using contains_split [of t "CHR ''/''" n]
  by (auto simp: tier_ok_def name_ok_def contains_def)

lemma local_okD:
  assumes "local_ok base s"
  shows "fs_tree s" "base \<noteq> []" "fs_node s base = Some Dir" "list_all is_digit (temp s)"
  using assms by (simp_all add: local_ok_def)

lemma key_path_local: "tier_ok t \<Longrightarrow> name_ok n \<Longrightarrow> key_path base (t @ CHR ''/'' # n) = base @ [t, n]"
  by (auto simp: key_path_def split_key name_ok_def) (auto simp: tier_ok_def)

lemma contained_local:
  assumes "local_ok base s" "tier_ok t"
  shows "contained s base (n # t # rev base) \<or> (\<exists>op p. faults s op p)"
proof (rule disjCI)
  assume "\<nexists>op p. faults s op p"
  then have nf: "\<And>op p. \<not> faults s op p" by blast
  note d = local_okD [OF assms(1)]
  have b: "contained s base (rev base)"
    using d nf by (cases "rev base") (auto simp: eval_present inside_def)
  show "contained s base (n # t # rev base)"
  proof (cases "fs_node s (base @ [t])")
    case None
    have "eval_symlinks s (base @ [t, n]) = Inl NotExist" "eval_symlinks s (base @ [t]) = Inl NotExist"
      using eval_absent [OF d(1,3) None, of "[n]"] eval_absent [OF d(1,3) None, of "[]"] nf by simp_all
    then show ?thesis using b by simp
  next
    case (Some nd)
    then have dir: "fs_node s (base @ [t]) = Some Dir" using local_tier(1) [OF assms Some] by simp
    have e1: "eval_symlinks s (base @ [t]) = Inr (base @ [t])"
      using eval_present [OF d(1) dir] nf by simp
    have e2: "eval_symlinks s (base @ [t, n]) =
        (if fs_node s (base @ [t, n]) = None then Inl NotExist else Inr (base @ [t, n]))"
      using eval_entry [OF d(1) dir, of n] nf by simp
    show ?thesis using d(2) by (simp add: e1 e2 inside_def)
  qed
qed

lemma pathFor_local:
  assumes "local_ok base s" "tier_ok t" "name_ok n"
  shows "pathFor \<lparr>lb_root = base\<rparr> s (t @ CHR ''/'' # n) = Inr (base @ [t, n]) \<or>
    pathFor \<lparr>lb_root = base\<rparr> s (t @ CHR ''/'' # n) = Inl BlobError \<and> (\<exists>op p. faults s op p)"
  using contained_local [OF assms(1,2), of n] key_no_dots [OF assms(2,3)]
  by (auto simp: pathFor_def Let_def key_path_local [OF assms(2,3)] simp del: contained.simps)

text \<open>Changing files inside a tier, and creating the tier's directory.\<close>

lemma local_ok_set:
  assumes "local_ok base s" "area_ok t" "fs_node s (base @ [t]) = Some Dir" "name_ok n"
  shows "local_ok base (set_node (base @ [t, n]) (File c tm) s)"
proof -
  note d = local_okD [OF assms(1)]
  have nd: "fs_node s (base @ [t, n]) \<noteq> Some Dir"
    using local_area(2) [OF assms(1,2), of n "[]" Dir] by auto
  have tree: "fs_tree (set_node (base @ [t, n]) (File c tm) s)"
    using fs_tree_set [OF d(1) assms(3), of "File c tm" n] nd by simp
  have "tier_node base p x" if "(p, x) \<in> set (nodes (set_node (base @ [t, n]) (File c tm) s))" for p x
    using that assms by (auto simp: set_node_def local_ok_def tier_node_def)
  then show ?thesis using tree d assms(1) by (auto simp: local_ok_def)
qed

lemma local_ok_mkdir:
  assumes "local_ok base s" "tier_ok t"
  shows "local_ok base (set_node (base @ [t]) Dir s)"
proof -
  note d = local_okD [OF assms(1)]
  have tree: "fs_tree (set_node (base @ [t]) Dir s)"
    using fs_tree_set [OF d(1,3), of Dir t] by simp
  have "tier_node base p x" if "(p, x) \<in> set (nodes (set_node (base @ [t]) Dir s))" for p x
    using that assms by (auto simp: set_node_def local_ok_def tier_node_def)
  then show ?thesis using tree d assms(1) by (auto simp: local_ok_def)
qed

lemma local_ok_del:
  assumes "local_ok base s" "fs_node s (p @ [n]) \<noteq> Some Dir"
  shows "local_ok base (del_node (p @ [n]) s)"
proof -
  note d = local_okD [OF assms(1)]
  have "fs_tree (del_node (p @ [n]) s)" using fs_tree_del [OF d(1)] assms(2) by simp
  moreover have "fs_node s (base @ [''current'']) = Some Dir" using assms(1) by (simp add: local_ok_def)
  moreover have "set (nodes (del_node (p @ [n]) s)) \<subseteq> set (nodes s)" by (auto simp: del_node_def)
  ultimately show ?thesis using assms(2) d assms(1) by (auto simp: local_ok_def)
qed

lemma same_env_refl [simp]: "same_env s s"
  by (simp add: same_env_def)

lemma same_env_nodes [simp]:
  "same_env s (set_node p nd s') \<longleftrightarrow> same_env s s'" "same_env s (del_node p s') \<longleftrightarrow> same_env s s'"
  by (simp_all add: same_env_def)

lemma mkdir_present:
  assumes "fs_tree s" "fs_node s p = Some Dir"
  shows "\<exists>e. os_MkdirAll p s = (e, s) \<and> (e \<noteq> None \<longrightarrow> (\<exists>op p. faults s op p))"
  using assms(2)
proof (induction p rule: rev_induct)
  case (snoc c p)
  have p: "fs_node s p = Some Dir" using fs_tree_node(1) [OF assms(1) snoc.prems] .
  with snoc.IH obtain e where e: "os_MkdirAll p s = (e, s)" "e \<noteq> None \<longrightarrow> (\<exists>op p. faults s op p)" by blast
  have st: "os_Stat s (p @ [c]) = (if faults s OpStat (p @ [c]) then Inl OsError else Inr Dir)"
    using snoc.prems by (simp add: os_Stat_def follow_present [OF assms(1) snoc.prems])
  have mk: "os_Mkdir (p @ [c]) s = (if faults s OpMkdir (p @ [c]) then (Some OsError, s) else (None, s))"
    using snoc.prems by (simp add: os_Mkdir_def entry_place_dir [OF assms(1) p])
  show ?case using e st mk by (cases e) (auto simp: os_MkdirAll_def)
qed (simp add: os_MkdirAll_def)

lemma mkdir_tier:
  assumes "local_ok base s" "tier_ok t" "os_MkdirAll (base @ [t]) s = (e, s1)"
  shows "s1 = s \<and> (e = None \<longrightarrow> fs_node s (base @ [t]) = Some Dir) \<or>
      e = None \<and> fs_node s (base @ [t]) = None \<and> s1 = set_node (base @ [t]) Dir s"
    and "e \<noteq> None \<Longrightarrow> \<exists>op p. faults s op p"
proof -
  note d = local_okD [OF assms(1)]
  obtain e0 where e0: "os_MkdirAll base s = (e0, s)" "e0 \<noteq> None \<longrightarrow> (\<exists>op p. faults s op p)"
    using mkdir_present [OF d(1,3)] by blast
  have "(s1 = s \<and> (e = None \<longrightarrow> fs_node s (base @ [t]) = Some Dir) \<or>
      e = None \<and> fs_node s (base @ [t]) = None \<and> s1 = set_node (base @ [t]) Dir s) \<and>
      (e \<noteq> None \<longrightarrow> (\<exists>op p. faults s op p))"
  proof (cases "fs_node s (base @ [t])")
    case (Some nd)
    then have "fs_node s (base @ [t]) = Some Dir" using local_tier(1) [OF assms(1,2) Some] by simp
    from mkdir_present [OF d(1) this] assms(3) show ?thesis
      using \<open>fs_node s (base @ [t]) = Some Dir\<close> by auto
  next
    case None
    have st: "\<exists>x. os_Stat s (base @ [t]) = Inl x"
      using follow_absent [OF d(1,3) None, of "[]"] by (simp add: os_Stat_def)
    have mk: "os_Mkdir (base @ [t]) s =
        (if faults s OpMkdir (base @ [t]) then (Some OsError, s) else (None, set_node (base @ [t]) Dir s))"
      using None by (simp add: os_Mkdir_def entry_place_dir [OF d(1,3)])
    show ?thesis using assms(3) e0 st mk None
      by (cases e0) (auto simp: os_MkdirAll_def split: if_splits)
  qed
  then show "s1 = s \<and> (e = None \<longrightarrow> fs_node s (base @ [t]) = Some Dir) \<or>
      e = None \<and> fs_node s (base @ [t]) = None \<and> s1 = set_node (base @ [t]) Dir s"
    and "e \<noteq> None \<Longrightarrow> \<exists>op p. faults s op p" by blast+
qed

lemma temp_file_ok:
  assumes "local_ok base s"
  shows "name_ok (temp_file s)" "temp_name (temp_file s)"
proof -
  have digits: "list_all is_digit d \<Longrightarrow> \<not> contains (d @ ''.tmp'') ''..''" for d
    by (induction d) (auto simp: contains_def is_digit_def)
  have "\<not> contains (temp_file s) ''..''"
    using digits [OF local_okD(4) [OF assms]] by (simp add: temp_file_def contains_def)
  moreover have "CHR ''/'' \<notin> set (temp_file s)"
    using local_okD(4) [OF assms] by (auto simp: temp_file_def list_all_iff is_digit_def)
  ultimately show "name_ok (temp_file s)" by (auto simp: name_ok_def temp_file_def)
  show "temp_name (temp_file s)" by (simp add: temp_name_def temp_file_def)
qed

text \<open>What \<^verbatim>\<open>Put\<close> does once the tier's directory exists: everything happens in that directory, at the
  temporary name and, if all went well, at the object's own.\<close>

definition put_staged :: "path \<Rightarrow> string \<Rightarrow> reader \<Rightarrow> 'a fs_scheme \<Rightarrow> blob_error option \<times> 'a fs_scheme" where
  "put_staged dir n r s =
     (case os_CreateTemp dir s of
        (Inl e, s2) \<Rightarrow> (Some BlobError, s2)
      | (Inr tmp, s2) \<Rightarrow>
          (case os_Fill tmp r s2 of
             (Some e, s3) \<Rightarrow> (Some BlobError, snd (os_Remove tmp s3))
           | (None, s3) \<Rightarrow>
               (case os_Rename tmp (dir @ [n]) s3 of
                  (Some e, s4) \<Rightarrow> (Some BlobError, snd (os_Remove tmp s4))
                | (None, s4) \<Rightarrow> (None, s4))))"

lemma remove_file:
  assumes "fs_tree s" "fs_node s d = Some Dir" "fs_node s (d @ [n]) = Some (File c t)"
  shows "os_Remove (d @ [n]) s = (if faults s OpRemove (d @ [n]) then (Some OsError, s) else (None, del_node (d @ [n]) s))"
  using assms by (simp add: os_Remove_def entry_place_dir)

lemma put_staged_cases:
  assumes ok: "local_ok base s" "tier_ok t" "fs_node s (base @ [t]) = Some Dir" "name_ok n"
    and put: "put_staged (base @ [t]) n r s = (e, s')"
  shows "local_ok base s' \<and> same_env s s' \<and>
    (\<forall>q. q \<noteq> base @ [t, n] \<and> q \<noteq> base @ [t, temp_file s] \<longrightarrow> fs_node s' q = fs_node s q) \<and>
    (case e of
       None \<Rightarrow> \<exists>c. r = Inr c \<and> fs_node s' (base @ [t, n]) = Some (File c (clock s)) \<and>
                (n \<noteq> temp_file s \<longrightarrow>
                  fs_node s (base @ [t, temp_file s]) = None \<and> fs_node s' (base @ [t, temp_file s]) = None)
     | Some _ \<Rightarrow> (n \<noteq> temp_file s \<longrightarrow> fs_node s' (base @ [t, n]) = fs_node s (base @ [t, n])) \<and>
         ((\<exists>op p. faults s op p) \<or> (\<exists>x. r = Inl x) \<or> fs_node s (base @ [t, temp_file s]) \<noteq> None))"
proof -
  let ?tmp = "base @ [t, temp_file s]" and ?p = "base @ [t, n]"
  define s2 where "s2 = set_node ?tmp (File [] (clock s)) s"
  define s3 where "s3 c = set_node ?tmp (File c (clock s)) s2" for c
  define s4 where "s4 c = set_node ?p (File c (clock s)) (del_node ?tmp (s3 c))" for c
  note d = local_okD [OF ok(1)] and tmp_ok = temp_file_ok(1) [OF ok(1)]
  have place: "entry_place s (base @ [t, m]) = Inr (base @ [t, m])" for m
    using entry_place_dir [OF d(1) ok(3), of m] by simp
  have env2: "clock s2 = clock s" "faults s2 = faults s" by (simp_all add: s2_def)
  have env3: "faults (s3 c) = faults s" "fs_node (s3 c) ?tmp = Some (File c (clock s))" for c
    by (simp_all add: s3_def env2)
  have ok2: "local_ok base s2" unfolding s2_def by (rule local_ok_set [OF ok(1) tier_area(1) [OF ok(2)] ok(3) tmp_ok])
  have dir2: "fs_node s2 (base @ [t]) = Some Dir" using ok(3) by (simp add: s2_def)
  have ok3: "local_ok base (s3 c)" for c unfolding s3_def by (rule local_ok_set [OF ok2 tier_area(1) [OF ok(2)] dir2 tmp_ok])
  have dir3: "fs_node (s3 c) (base @ [t]) = Some Dir" for c using dir2 by (simp add: s3_def)
  have del_ok: "local_ok base (del_node ?tmp x)" if "local_ok base x" "fs_node x ?tmp = Some (File c u)" for x c u
    using local_ok_del [OF that(1), of "base @ [t]" "temp_file s"] that(2) by simp
  have ok4: "local_ok base (s4 c)" for c
    unfolding s4_def
    by (rule local_ok_set [OF del_ok [OF ok3] tier_area(1) [OF ok(2)] _ ok(4)]) (use dir3 in \<open>simp_all add: s3_def\<close>)
  have place3: "entry_place (s3 c) (base @ [t, m]) = Inr (base @ [t, m])" for c m
    using entry_place_dir [OF local_okD(1) [OF ok3 [of c]] dir3 [of c], of m] by simp
  have no_dir: "fs_node (s3 c) ?p \<noteq> Some Dir" for c
    using local_tier(2) [OF ok3 ok(2), of c n "[]" Dir] by auto
  have create: "os_CreateTemp (base @ [t]) s =
      (if faults s OpCreate ?tmp then (Inl OsError, s) else if fs_node s ?tmp \<noteq> None then (Inl OsError, s)
       else (Inr ?tmp, s2))"
    by (simp add: os_CreateTemp_def Let_def place s2_def)
  have fill: "os_Fill ?tmp r s2 =
      (if faults s OpCopy ?tmp then (Some OsError, s2)
       else case r of Inl x \<Rightarrow> (Some x, s2) | Inr c \<Rightarrow> (None, s3 c))"
    using entry_place_dir [OF local_okD(1) [OF ok2] dir2, of "temp_file s"]
    unfolding os_Fill_def s3_def by (simp add: env2 split: sum.split)
  have rename: "os_Rename ?tmp ?p (s3 c) =
      (if faults s OpRename ?p then (Some OsError, s3 c) else (None, s4 c))" for c
    using no_dir [of c] by (simp add: os_Rename_def s4_def env3 place3)
  have rm2: "snd (os_Remove ?tmp s2) = s2 \<or> snd (os_Remove ?tmp s2) = del_node ?tmp s2"
    using remove_file [OF local_okD(1) [OF ok2] dir2, of "temp_file s" "[]" "clock s"] by (simp add: s2_def)
  have rm3: "snd (os_Remove ?tmp (s3 c)) = s3 c \<or> snd (os_Remove ?tmp (s3 c)) = del_node ?tmp (s3 c)" for c
    using remove_file [OF local_okD(1) [OF ok3 [of c]] dir3 [of c], of "temp_file s" c "clock s"] by (simp add: env3)
  have keep2: "local_ok base x \<and> same_env s x \<and> (\<forall>q. q \<noteq> ?tmp \<longrightarrow> fs_node x q = fs_node s q)"
    if "x = s2 \<or> x = del_node ?tmp s2" for x
    using that ok2 del_ok [OF ok2] by (auto simp: s2_def)
  have keep3: "local_ok base x \<and> same_env s x \<and> (\<forall>q. q \<noteq> ?tmp \<longrightarrow> fs_node x q = fs_node s q)"
    if "x = s3 c \<or> x = del_node ?tmp (s3 c)" for x c
    using that ok3 del_ok [OF ok3] by (auto simp: s3_def s2_def)
  show ?thesis
  proof (cases "faults s OpCreate ?tmp \<or> fs_node s ?tmp \<noteq> None")
    case True
    then have "s' = s" "e = Some BlobError" using put by (auto simp: put_staged_def create split: if_splits)
    then show ?thesis using ok True by auto
  next
    case False
    then have c: "os_CreateTemp (base @ [t]) s = (Inr ?tmp, s2)" and no_temp: "fs_node s ?tmp = None"
      by (simp_all add: create)
    show ?thesis
    proof (cases "\<exists>c. r = Inr c \<and> \<not> faults s OpCopy ?tmp")
      case False
      then have "\<exists>x. os_Fill ?tmp r s2 = (Some x, s2)" "(\<exists>op p. faults s op p) \<or> (\<exists>x. r = Inl x)"
        unfolding fill by (cases r; auto)+
      then have e: "e = Some BlobError" and s': "s' = snd (os_Remove ?tmp s2)"
        and why: "(\<exists>op p. faults s op p) \<or> (\<exists>x. r = Inl x)"
        using put by (auto simp: put_staged_def c)
      then show ?thesis using keep2 [of s'] rm2 by auto
    next
      case True
      then obtain x where r: "r = Inr x" and f: "os_Fill ?tmp r s2 = (None, s3 x)" unfolding fill by auto
      show ?thesis
      proof (cases "faults s OpRename ?p")
        case True
        then have "e = Some BlobError" "s' = snd (os_Remove ?tmp (s3 x))"
          using put by (auto simp: put_staged_def c f rename)
        then show ?thesis using keep3 [of s' x] rm3 [of x] True by auto
      next
        case False
        then have "e = None" "s' = s4 x" using put by (auto simp: put_staged_def c f rename)
        then show ?thesis using r ok4 [of x] no_temp by (auto simp: s4_def s3_def s2_def)
      qed
    qed
  qed
qed

lemma local_Put_staged:
  assumes "local_ok base s" "tier_ok t" "name_ok n"
  shows "local_Put \<lparr>lb_root = base\<rparr> (t @ CHR ''/'' # n) r s =
    (case pathFor \<lparr>lb_root = base\<rparr> s (t @ CHR ''/'' # n) of
       Inl e \<Rightarrow> (Some e, s)
     | Inr _ \<Rightarrow>
         (case os_MkdirAll (base @ [t]) s of
            (Some e, s1) \<Rightarrow> (Some BlobError, s1)
          | (None, s1) \<Rightarrow> put_staged (base @ [t]) n r s1))"
proof -
  have "butlast (base @ [t, n]) = base @ [t]" by (simp add: butlast_append)
  then show ?thesis using pathFor_local [OF assms]
    by (auto simp: local_Put_def put_staged_def split: prod.split option.split sum.split)
qed

lemma local_objs_key:
  assumes "tier_ok t" "CHR ''/'' \<notin> set n"
  shows "local_objs base s (t @ CHR ''/'' # n) =
    (case fs_node s (base @ [t, n]) of Some (File c tm) \<Rightarrow> Some (c, tm) | _ \<Rightarrow> None)"
  using assms by (simp add: local_objs_def split_key)

lemma local_objs_split:
  assumes "local_objs base s k = Some v"
  obtains t n where "split_on (CHR ''/'') k = [t, n]" "k = t @ CHR ''/'' # n" "tier_ok t" "CHR ''/'' \<notin> set n"
    "fs_node s (base @ [t, n]) = Some (File (fst v) (snd v))"
proof -
  from assms obtain t n where tn: "split_on (CHR ''/'') k = [t, n]" "tier_ok t"
    "fs_node s (base @ [t, n]) = Some (File (fst v) (snd v))"
    by (auto simp: local_objs_def split: list.splits if_splits option.splits node.splits)
  moreover have "k = t @ CHR ''/'' # n" using join_split_on [of "CHR ''/''" k] tn(1) by simp
  moreover have "CHR ''/'' \<notin> set n" using split_on_elem_no_sep [of n "CHR ''/''" k] tn(1) by simp
  ultimately show thesis using that by blast
qed

text \<open>Objects depend on the nodes of the tiers only.\<close>

lemma local_objs_cong:
  assumes "\<And>t n. tier_ok t \<Longrightarrow> k = t @ CHR ''/'' # n \<Longrightarrow> fs_node s' (base @ [t, n]) = fs_node s (base @ [t, n])"
  shows "local_objs base s' k = local_objs base s k"
proof (cases "\<exists>t n. split_on (CHR ''/'') k = [t, n] \<and> tier_ok t")
  case True
  then obtain t n where tn: "split_on (CHR ''/'') k = [t, n]" "tier_ok t" by blast
  moreover have "k = t @ CHR ''/'' # n" using join_split_on [of "CHR ''/''" k] tn(1) by simp
  ultimately show ?thesis using assms by (simp add: local_objs_def)
next
  case False
  then show ?thesis by (auto simp: local_objs_def split: list.split)
qed

lemma local_Put_cases:
  assumes ok: "local_ok base s" "tier_ok t" "name_ok n"
    and put: "local_Put \<lparr>lb_root = base\<rparr> (t @ CHR ''/'' # n) r s = (e, s')"
  shows "local_ok base s' \<and> same_env s s' \<and>
    (\<forall>q. q \<noteq> base @ [t] \<and> q \<noteq> base @ [t, n] \<and> q \<noteq> base @ [t, temp_file s] \<longrightarrow> fs_node s' q = fs_node s q) \<and>
    (case e of
       None \<Rightarrow> \<exists>c. r = Inr c \<and> fs_node s' (base @ [t, n]) = Some (File c (clock s)) \<and>
                (n \<noteq> temp_file s \<longrightarrow>
                  fs_node s (base @ [t, temp_file s]) = None \<and> fs_node s' (base @ [t, temp_file s]) = None)
     | Some _ \<Rightarrow> (n \<noteq> temp_file s \<longrightarrow> fs_node s' (base @ [t, n]) = fs_node s (base @ [t, n])) \<and>
         ((\<exists>op p. faults s op p) \<or> (\<exists>x. r = Inl x) \<or> fs_node s (base @ [t, temp_file s]) \<noteq> None))"
proof (cases "pathFor \<lparr>lb_root = base\<rparr> s (t @ CHR ''/'' # n)")
  case (Inl x)
  then have "e = Some x" "s' = s" using put by (simp_all add: local_Put_staged [OF ok])
  then show ?thesis using pathFor_local [OF ok] Inl ok by auto
next
  case (Inr p)
  obtain e1 s1 where mk: "os_MkdirAll (base @ [t]) s = (e1, s1)" by fastforce
  note m = mkdir_tier [OF ok(1,2) mk]
  show ?thesis
  proof (cases e1)
    case (Some x)
    then have "e = Some BlobError" "s' = s1" using put by (simp_all add: local_Put_staged [OF ok] Inr mk)
    then show ?thesis using m Some ok by auto
  next
    case None
    have ok1: "local_ok base s1" using m(1) local_ok_mkdir [OF ok(1,2)] ok(1) by auto
    have dir: "fs_node s1 (base @ [t]) = Some Dir" using m(1) None by auto
    have env: "same_env s s1" "clock s1 = clock s" "faults s1 = faults s" "temp_file s1 = temp_file s"
      "q \<noteq> base @ [t] \<Longrightarrow> fs_node s1 q = fs_node s q" for q
      using m(1) by (auto simp: same_env_def)
    have "put_staged (base @ [t]) n r s1 = (e, s')"
      using put None by (simp add: local_Put_staged [OF ok] Inr mk)
    from put_staged_cases [OF ok1 ok(2) dir ok(3) this] env show ?thesis
      by (auto simp: same_env_def split: option.splits)
  qed
qed

lemma local_read:
  assumes ok: "local_ok base s" "tier_ok t" "name_ok n"
  shows "os_ReadFile s (base @ [t, n]) =
    (if faults s OpOpen (base @ [t, n]) then Inl OsError
     else case fs_node s (base @ [t, n]) of Some (File c tm) \<Rightarrow> Inr c | _ \<Rightarrow> Inl NotExist)"
proof -
  note d = local_okD [OF ok(1)]
  show ?thesis
  proof (cases "fs_node s (base @ [t])")
    case None
    then have "fs_node s (base @ [t, n]) = None"
      using fs_tree_above [OF d(1), of "base @ [t]" "[n]"] by (cases "fs_node s (base @ [t, n])") auto
    moreover have "follow s (base @ [t, n]) = Inl NotExist" using follow_absent [OF d(1,3) None, of "[n]"] by simp
    ultimately show ?thesis by (simp add: os_ReadFile_def)
  next
    case (Some nd)
    then have "fs_node s (base @ [t]) = Some Dir" using local_tier(1) [OF ok(1,2) Some] by simp
    from follow_entry [OF d(1) this, of n] local_tier(2) [OF ok(1,2), of n "[]"] show ?thesis
      by (cases "fs_node s (base @ [t, n])") (auto simp: os_ReadFile_def)
  qed
qed

lemma local_remove:
  assumes ok: "local_ok base s" "tier_ok t" "name_ok n" and rm: "os_Remove (base @ [t, n]) s = (x, s')"
  shows "local_ok base s' \<and> same_env s s' \<and>
    (\<forall>q. q \<noteq> base @ [t, n] \<longrightarrow> fs_node s' q = fs_node s q) \<and> set (nodes s') \<subseteq> set (nodes s) \<and>
    (if x = Some OsError then s' = s \<and> (\<exists>op p. faults s op p) else fs_node s' (base @ [t, n]) = None)"
proof -
  note d = local_okD [OF ok(1)]
  show ?thesis
  proof (cases "fs_node s (base @ [t])")
    case None
    then have "fs_node s (base @ [t, n]) = None"
      using fs_tree_above [OF d(1), of "base @ [t]" "[n]"] by (cases "fs_node s (base @ [t, n])") auto
    moreover have "entry_place s (base @ [t, n]) = Inl NotExist"
      using follow_absent [OF d(1,3) None, of "[]"] by (simp add: entry_place_def butlast_append)
    ultimately show ?thesis using rm ok(1) by (auto simp: os_Remove_def split: if_splits)
  next
    case (Some nd)
    then have dir: "fs_node s (base @ [t]) = Some Dir" using local_tier(1) [OF ok(1,2) Some] by simp
    have place: "entry_place s (base @ [t, n]) = Inr (base @ [t, n])"
      using entry_place_dir [OF d(1) dir, of n] by simp
    show ?thesis
    proof (cases "fs_node s (base @ [t, n])")
      case None
      then show ?thesis using rm ok(1) by (auto simp: os_Remove_def place split: if_splits)
    next
      case (Some x')
      then obtain c tm where f: "fs_node s (base @ [t, n]) = Some (File c tm)"
        using local_tier(2) [OF ok(1,2), of n "[]" x'] by auto
      have "local_ok base (del_node (base @ [t, n]) s)"
        using local_ok_del [OF ok(1), of "base @ [t]" n] f by simp
      moreover have "set (nodes (del_node (base @ [t, n]) s)) \<subseteq> set (nodes s)" by (auto simp: del_node_def)
      ultimately show ?thesis using rm ok(1) f by (auto simp: os_Remove_def place split: if_splits)
    qed
  qed
qed

lemma local_Delete_cases:
  assumes "local_ok base s" "list_all body_key ks" "local_Delete \<lparr>lb_root = base\<rparr> ks s = (e, s')"
  shows "local_ok base s' \<and> same_env s s' \<and> set (nodes s') \<subseteq> set (nodes s) \<and>
    (\<forall>q. fs_node s' q = fs_node s q \<or>
         (\<exists>t n. q = base @ [t, n] \<and> tier_ok t \<and> t @ CHR ''/'' # n \<in> set ks) \<and> fs_node s' q = None) \<and>
    (e = None \<longrightarrow> (\<forall>t n. tier_ok t \<longrightarrow> t @ CHR ''/'' # n \<in> set ks \<longrightarrow> fs_node s' (base @ [t, n]) = None)) \<and>
    (e \<noteq> None \<longrightarrow> (\<exists>op p. faults s op p))"
  using assms
proof (induction ks arbitrary: s)
  case (Cons k ks)
  from Cons.prems obtain t n where k: "k = t @ CHR ''/'' # n" "tier_ok t" "name_ok n"
    by (auto elim: body_keyE)
  note ok = Cons.prems(1) k(2,3)
  from pathFor_local [OF ok] show ?case
  proof (elim disjE conjE)
    assume p: "pathFor \<lparr>lb_root = base\<rparr> s (t @ CHR ''/'' # n) = Inl BlobError" "\<exists>op p. faults s op p"
    then show ?thesis using Cons.prems k by auto
  next
    assume p: "pathFor \<lparr>lb_root = base\<rparr> s (t @ CHR ''/'' # n) = Inr (base @ [t, n])"
    obtain x s1 where rm: "os_Remove (base @ [t, n]) s = (x, s1)" by fastforce
    note r = local_remove [OF ok rm]
    show ?thesis
    proof (cases "x = Some OsError")
      case True
      then show ?thesis using Cons.prems k p rm r by auto
    next
      case False
      then have del: "local_Delete \<lparr>lb_root = base\<rparr> ks s1 = (e, s')"
        using Cons.prems(3) k p rm by (auto split: option.splits os_error.splits)
      have ks: "list_all body_key ks" using Cons.prems(2) by simp
      have r1: "local_ok base s1" "same_env s s1" "set (nodes s1) \<subseteq> set (nodes s)"
        "fs_node s1 (base @ [t, n]) = None" "q \<noteq> base @ [t, n] \<Longrightarrow> fs_node s1 q = fs_node s q" for q
        using r False by auto
      have ih: "local_ok base s'" "same_env s1 s'" "set (nodes s') \<subseteq> set (nodes s1)"
        "fs_node s' q = fs_node s1 q \<or>
          (\<exists>t n. q = base @ [t, n] \<and> tier_ok t \<and> t @ CHR ''/'' # n \<in> set ks) \<and> fs_node s' q = None"
        "e = None \<Longrightarrow> tier_ok t' \<Longrightarrow> t' @ CHR ''/'' # n' \<in> set ks \<Longrightarrow> fs_node s' (base @ [t', n']) = None"
        "e \<noteq> None \<Longrightarrow> \<exists>op p. faults s1 op p" for q t' n'
        using Cons.IH [OF r1(1) ks del] by blast+
      have keys: "t' @ CHR ''/'' # n' = k \<longleftrightarrow> t' = t \<and> n' = n" if "tier_ok t'" for t' n'
        unfolding k(1) by (rule sep_left) (use that k(2) tier_ok_no_slash in auto)
      have n1: "fs_node s' q = fs_node s q \<or>
          (\<exists>t n. q = base @ [t, n] \<and> tier_ok t \<and> t @ CHR ''/'' # n \<in> set (k # ks)) \<and> fs_node s' q = None" for q
      proof (cases "q = base @ [t, n]")
        case True
        then show ?thesis using ih(4) [of q] r1(4) k by auto
      next
        case False
        then show ?thesis using ih(4) [of q] r1(5) [of q] by auto
      qed
      have n2: "fs_node s' (base @ [t', n']) = None"
        if "e = None" "tier_ok t'" "t' @ CHR ''/'' # n' \<in> set (k # ks)" for t' n'
        using that ih(4) [of "base @ [t', n']"] ih(5) [of t' n'] keys [of t' n'] r1(4) by auto
      have n3: "same_env s s'" using r1(2) ih(2) by (simp add: same_env_def)
      have n4: "e \<noteq> None \<Longrightarrow> \<exists>op p. faults s op p" using ih(6) r1(2) by (simp add: same_env_def)
      have n5: "set (nodes s') \<subseteq> set (nodes s)" using ih(3) r1(3) by blast
      show ?thesis
        by (intro conjI allI impI; (rule ih(1) n1 n2 n3 n4 n5; assumption?))
    qed
  qed
qed auto

lemma rel_path_below [simp]: "rel_path base (base @ r) = r"
  by (induction base) (cases r, auto)

lemma local_List_eq:
  assumes ok: "local_ok base s" "tier_ok t"
  shows "local_List \<lparr>lb_root = base\<rparr> (t @ ''/'') s =
    (if faults s OpReadDir (base @ [t]) then Inl BlobError
     else Inr (map (\<lambda>(p, nd). \<lparr>ob_Key = join ''/'' (drop (length base) p), ob_Size = node_size nd,
                              ob_ModTime = node_time nd\<rparr>)
       (sort_key fst (filter (\<lambda>(p, nd). take (Suc (length base)) p = base @ [t] \<and> nd \<noteq> Dir) (nodes s)))))"
proof -
  note d = local_okD [OF ok(1)]
  have kp: "key_path base (t @ ''/'') = base @ [t]"
    using split_key [OF ok(2), of "[]"] ok(2) by (auto simp: key_path_def tier_ok_def)
  have suffix: "has_suffix (t @ ''/'') ''/''" by (auto simp: has_suffix_iff)
  define xs where "xs = filter (\<lambda>(p, nd). take (Suc (length base)) p = base @ [t] \<and> nd \<noteq> Dir) (nodes s)"
  have below: "p = (base @ [t]) @ drop (Suc (length base)) p \<and> drop (length base) p = t # drop (Suc (length base)) p"
    if "(p, nd) \<in> set xs" for p nd
  proof -
    have "take (Suc (length base)) p = base @ [t]" using that by (auto simp: xs_def)
    then have p: "p = (base @ [t]) @ drop (Suc (length base)) p" by (metis append_take_drop_id)
    have "drop (length base) ((base @ [t]) @ r) = t # r" for r by simp
    from this [of "drop (Suc (length base)) p"] p show ?thesis by metis
  qed
  have "map (\<lambda>e. ((base @ [t]) @ drop (length (base @ [t])) (fst e), snd e))
      (filter (\<lambda>e. take (length (base @ [t])) (fst e) = base @ [t] \<and> snd e \<noteq> Dir) (nodes s)) = map id xs"
    unfolding xs_def by (intro map_cong) (use below in \<open>auto simp: xs_def split_def\<close>)
  then have walk: "os_WalkDir s (base @ [t]) =
      (if faults s OpReadDir (base @ [t]) then Inl OsError else Inr (sort_key fst xs))"
    using entry_place_dir [OF d(1,3), of t] by (simp add: os_WalkDir_def)
  have key: "join ''/'' (rel_path base p) = join ''/'' (drop (length base) p)
      \<and> has_prefix (join ''/'' (drop (length base) p)) (t @ ''/'')" if "(p, nd) \<in> set xs" for p nd
  proof -
    from below [OF that] obtain r where p: "p = base @ t # r" "drop (length base) p = t # r" by auto
    have "(p, nd) \<in> set (nodes s)" "nd \<noteq> Dir" using that by (auto simp: xs_def)
    then have "fs_node s p = Some nd" "nd \<noteq> Dir" using fs_tree_mem [OF d(1)] by auto
    then have "r \<noteq> []" using local_tier(1) [OF ok] p by auto
    then show ?thesis using p by (cases r) auto
  qed
  have same: "map (\<lambda>(p, nd). \<lparr>ob_Key = join ''/'' (rel_path base p), ob_Size = node_size nd, ob_ModTime = node_time nd\<rparr>)
        (sort_key fst xs) =
      map (\<lambda>(p, nd). \<lparr>ob_Key = join ''/'' (drop (length base) p), ob_Size = node_size nd, ob_ModTime = node_time nd\<rparr>)
        (sort_key fst xs)"
    by (intro map_cong) (use key in auto)
  have "filter (\<lambda>ob. has_prefix (ob_Key ob) (t @ ''/''))
        (map (\<lambda>(p, nd). \<lparr>ob_Key = join ''/'' (drop (length base) p), ob_Size = node_size nd, ob_ModTime = node_time nd\<rparr>)
          (sort_key fst xs)) =
      map (\<lambda>(p, nd). \<lparr>ob_Key = join ''/'' (drop (length base) p), ob_Size = node_size nd, ob_ModTime = node_time nd\<rparr>)
        (sort_key fst xs)"
    by (rule filter_True) (use key in auto)
  then show ?thesis unfolding local_List_def
    by (simp add: Let_def kp suffix walk same xs_def [symmetric])
qed

lemma local_List_cases:
  assumes ok: "local_ok base s" "tier_ok t" and l: "local_List \<lparr>lb_root = base\<rparr> (t @ ''/'') s = Inr os"
  shows "distinct (map ob_Key os) \<and>
    (\<forall>ob \<in> set os. has_prefix (ob_Key ob) (t @ ''/'')) \<and>
    (\<forall>k. has_prefix k (t @ ''/'') \<longrightarrow> (\<forall>ob. ob_Key ob = k \<longrightarrow>
       (ob \<in> set os \<longleftrightarrow> (\<exists>c. local_objs base s k = Some (c, ob_ModTime ob) \<and> ob_Size ob = int (length c)))))"
proof -
  note d = local_okD [OF ok(1)]
  define xs where "xs = sort_key fst (filter (\<lambda>(p, nd). take (Suc (length base)) p = base @ [t] \<and> nd \<noteq> Dir) (nodes s))"
  have os: "os = map (\<lambda>(p, nd). \<lparr>ob_Key = join ''/'' (drop (length base) p), ob_Size = node_size nd,
                              ob_ModTime = node_time nd\<rparr>) xs"
    using l unfolding local_List_eq [OF ok] xs_def by (simp split: if_splits)
  have mem: "(p, nd) \<in> set xs \<longleftrightarrow> (\<exists>n c tm. p = base @ [t, n] \<and> nd = File c tm \<and> fs_node s p = Some nd)" for p nd
  proof
    assume "(p, nd) \<in> set xs"
    then have "(p, nd) \<in> set (nodes s)" "nd \<noteq> Dir" "take (Suc (length base)) p = base @ [t]"
      by (auto simp: xs_def)
    then have *: "fs_node s p = Some nd" "nd \<noteq> Dir" "p = base @ t # drop (Suc (length base)) p"
      using fs_tree_mem [OF d(1)] by (auto, metis append_take_drop_id append.assoc append_Cons append_Nil)
    then obtain n r where p: "p = base @ t # n # r"
      using local_tier(1) [OF ok] by (cases "drop (Suc (length base)) p") auto
    then show "\<exists>n c tm. p = base @ [t, n] \<and> nd = File c tm \<and> fs_node s p = Some nd"
      using local_tier(2) [OF ok, of n r nd] * by auto
  next
    assume "\<exists>n c tm. p = base @ [t, n] \<and> nd = File c tm \<and> fs_node s p = Some nd"
    then show "(p, nd) \<in> set xs" using fs_tree_mem [OF d(1)] by (auto simp: xs_def)
  qed
  have names: "CHR ''/'' \<notin> set n" if "fs_node s (base @ [t, n]) = Some nd" for n nd
    using local_tier(2) [OF ok that] by (simp add: name_ok_def)
  have "distinct (map fst xs)"
  proof -
    have "distinct (map fst (filter (\<lambda>(p, nd). take (Suc (length base)) p = base @ [t] \<and> nd \<noteq> Dir) (nodes s)))"
      using d(1) by (simp add: fs_tree_def distinct_map_filter)
    then show ?thesis by (simp add: xs_def distinct_map)
  qed
  then have dist: "distinct (map ob_Key os)"
    unfolding os using mem by (auto simp: distinct_map inj_on_def split_def)
  have "ob \<in> set os \<longleftrightarrow> (\<exists>c. local_objs base s k = Some (c, ob_ModTime ob) \<and> ob_Size ob = int (length c))"
    if k: "has_prefix k (t @ ''/'')" "ob_Key ob = k" for k ob
  proof
    assume "ob \<in> set os"
    then obtain n c tm where *: "fs_node s (base @ [t, n]) = Some (File c tm)"
      "ob = \<lparr>ob_Key = t @ ''/'' @ n, ob_Size = int (length c), ob_ModTime = tm\<rparr>"
      by (auto simp: os mem node_size_def node_time_def)
    then have "k = t @ CHR ''/'' # n" using k(2) by simp
    then show "\<exists>c. local_objs base s k = Some (c, ob_ModTime ob) \<and> ob_Size ob = int (length c)"
      using * names [OF *(1)] by (simp add: local_objs_key ok(2))
  next
    assume "\<exists>c. local_objs base s k = Some (c, ob_ModTime ob) \<and> ob_Size ob = int (length c)"
    then obtain c where c: "local_objs base s k = Some (c, ob_ModTime ob)" "ob_Size ob = int (length c)" by blast
    from c(1) obtain t' n where *: "k = t' @ CHR ''/'' # n" "tier_ok t'"
      "fs_node s (base @ [t', n]) = Some (File c (ob_ModTime ob))"
      by (auto elim: local_objs_split)
    obtain r where "k = t @ CHR ''/'' # r" using k(1) by (auto simp: has_prefix_iff)
    with *(1) have "t' = t" using sep_left [of "CHR ''/''" t' t n r] tier_ok_no_slash *(2) ok(2) by auto
    with * have "(base @ [t, n], File c (ob_ModTime ob)) \<in> set xs" by (simp add: mem)
    then have "\<lparr>ob_Key = t @ ''/'' @ n, ob_Size = int (length c), ob_ModTime = ob_ModTime ob\<rparr> \<in> set os"
      unfolding os by (force simp: node_size_def node_time_def)
    moreover have "ob = \<lparr>ob_Key = t @ ''/'' @ n, ob_Size = int (length c), ob_ModTime = ob_ModTime ob\<rparr>"
      using k(2) *(1) c(2) \<open>t' = t\<close> by simp
    ultimately show "ob \<in> set os" by simp
  qed
  moreover have "has_prefix (ob_Key ob) (t @ ''/'')" if "ob \<in> set os" for ob
    using that by (auto simp: os mem has_prefix_iff)
  ultimately show ?thesis using dist by blast
qed

lemma quietD: "quiet s \<Longrightarrow> \<not> faults s op p"
  by (simp add: quiet_def)

lemma quiet_no_temp:
  assumes "quiet s" "fs_tree s"
  shows "fs_node s (p @ [temp_file s]) = None"
proof (rule ccontr)
  assume "fs_node s (p @ [temp_file s]) \<noteq> None"
  then obtain nd where "(p @ [temp_file s], nd) \<in> set (nodes s)" using fs_tree_mem [OF assms(2)] by auto
  then show False using assms(1) by (auto simp: quiet_def)
qed

lemma local_backend_sel [simp]:
  "be_Put (LocalBackend b) = local_Put b" "be_Get (LocalBackend b) = local_Get b"
  "be_Delete (LocalBackend b) = local_Delete b" "be_List (LocalBackend b) = local_List b"
  "be_Stat (LocalBackend b) = local_Stat b"
  by (simp_all add: LocalBackend_def)

lemma local_Put_objs:
  assumes ok: "local_ok base s" "body_key k" and put: "local_Put \<lparr>lb_root = base\<rparr> k r s = (e, s')"
  shows "case e of
      None \<Rightarrow> \<exists>c. r = Inr c \<and> local_objs base s' = (local_objs base s)(k \<mapsto> (c, clock s))
    | Some _ \<Rightarrow> \<forall>k'. \<not> temp_key k' \<longrightarrow> local_objs base s' k' = local_objs base s k'"
proof -
  from ok(2) obtain t n where k: "k = t @ CHR ''/'' # n" "tier_ok t" "name_ok n" by (auto elim: body_keyE)
  note p = local_Put_cases [OF ok(1) k(2,3) put [unfolded k(1)]]
  have keys: "t' @ CHR ''/'' # n' = k \<longleftrightarrow> t' = t \<and> n' = n" if "tier_ok t'" for t' n'
    unfolding k(1) by (rule sep_left) (use that k(2) tier_ok_no_slash in auto)
  have other: "local_objs base s' k' = local_objs base s k'"
    if "k' \<noteq> k" "k' \<noteq> t @ CHR ''/'' # temp_file s" for k'
  proof (rule local_objs_cong)
    fix t' n' assume tn: "tier_ok t'" "k' = t' @ CHR ''/'' # n'"
    then have "base @ [t', n'] \<noteq> base @ [t, n]" "base @ [t', n'] \<noteq> base @ [t, temp_file s]"
      using that keys by auto
    then show "fs_node s' (base @ [t', n']) = fs_node s (base @ [t', n'])" using p by simp
  qed
  have slash: "CHR ''/'' \<notin> set n" "CHR ''/'' \<notin> set (temp_file s)"
    using k(3) temp_file_ok(1) [OF ok(1)] by (simp_all add: name_ok_def)
  show ?thesis
  proof (cases e)
    case None
    then obtain c where c: "r = Inr c" "fs_node s' (base @ [t, n]) = Some (File c (clock s))"
      "n \<noteq> temp_file s \<Longrightarrow>
        fs_node s (base @ [t, temp_file s]) = None \<and> fs_node s' (base @ [t, temp_file s]) = None" using p by auto
    have "local_objs base s' k' = ((local_objs base s)(k \<mapsto> (c, clock s))) k'" for k'
    proof (cases "k' = k")
      case True
      then show ?thesis using c k slash by (simp add: local_objs_key)
    next
      case False
      show ?thesis
      proof (cases "k' = t @ CHR ''/'' # temp_file s")
        case True
        then show ?thesis using False c k slash by (auto simp: local_objs_key)
      qed (use other False in simp)
    qed
    then show ?thesis using c(1) None by auto
  next
    case (Some x)
    have "local_objs base s' k' = local_objs base s k'" if "\<not> temp_key k'" for k'
    proof (cases "k' = k")
      case True
      have "n \<noteq> temp_file s"
        using that True k temp_file_ok(2) [OF ok(1)] slash by (auto simp: temp_key_def split_key)
      then show ?thesis using True p Some k slash by (simp add: local_objs_key)
    next
      case False
      have "k' \<noteq> t @ CHR ''/'' # temp_file s"
        using that k temp_file_ok(2) [OF ok(1)] slash by (auto simp: temp_key_def split_key)
      then show ?thesis using other False by blast
    qed
    then show ?thesis using Some by simp
  qed
qed

lemma local_Put_quiet:
  assumes ok: "local_ok base s" "body_key k" "quiet s"
  shows "\<exists>s'. local_Put \<lparr>lb_root = base\<rparr> k (Inr c) s = (None, s') \<and> (\<not> temp_key k \<longrightarrow> quiet s')"
proof -
  from ok(2) obtain t n where k: "k = t @ CHR ''/'' # n" "tier_ok t" "name_ok n" by (auto elim: body_keyE)
  obtain e s' where put: "local_Put \<lparr>lb_root = base\<rparr> k (Inr c) s = (e, s')" by fastforce
  note p = local_Put_cases [OF ok(1) k(2,3) put [unfolded k(1)]]
  have tmp: "fs_node s (base @ [t, temp_file s]) = None"
    using quiet_no_temp [OF ok(3) local_okD(1) [OF ok(1)], of "base @ [t]"] by simp
  have "e = None" using p quietD [OF ok(3)] tmp by (cases e) auto
  moreover have "quiet s'" if nt: "\<not> temp_key k"
  proof -
    have name: "CHR ''/'' \<notin> set n" using k(3) by (simp add: name_ok_def)
    have ne: "n \<noteq> temp_file s"
      using nt k temp_file_ok(2) [OF ok(1)] name by (auto simp: temp_key_def split_key)
    have "last q \<noteq> temp_file s'" if "(q, nd) \<in> set (nodes s')" for q nd
    proof -
      have env: "temp_file s' = temp_file s" using p by (simp add: same_env_def temp_file_def)
      have q: "fs_node s' q = Some nd" "q \<noteq> []" using that fs_tree_mem [OF local_okD(1)] p by auto
      have "t \<noteq> temp_file s" using k(2) by (auto simp: tier_ok_def temp_file_def)
      moreover have "q \<noteq> base @ [t, temp_file s]" using p q \<open>e = None\<close> ne by auto
      moreover have "last q \<noteq> temp_file s" if "fs_node s q = Some nd"
        using that q(2) fs_tree_mem [OF local_okD(1) [OF ok(1)], of q nd] ok(3) by (auto simp: quiet_def)
      ultimately show ?thesis using p q ne env by (cases "q = base @ [t] \<or> q = base @ [t, n]") auto
    qed
    then show ?thesis using p quietD [OF ok(3)] by (auto simp: quiet_def same_env_def)
  qed
  ultimately show ?thesis using put by simp
qed

lemma local_Get_cases:
  assumes ok: "local_ok base s" "body_key k"
  shows "local_Get \<lparr>lb_root = base\<rparr> k off n s = Inl BlobError \<and> (\<exists>op p. faults s op p) \<or>
    local_Get \<lparr>lb_root = base\<rparr> k off n s =
      (case local_objs base s k of None \<Rightarrow> Inl ErrNotFound | Some (c, t) \<Rightarrow> Inr (byte_range off n c))"
proof -
  from ok(2) obtain t m where k: "k = t @ CHR ''/'' # m" "tier_ok t" "name_ok m" by (auto elim: body_keyE)
  have slash: "CHR ''/'' \<notin> set m" using k(3) by (simp add: name_ok_def)
  from pathFor_local [OF ok(1) k(2,3)] show ?thesis
    unfolding local_Get_def k(1) local_objs_key [OF k(2) slash]
    by (cases "faults s OpOpen (base @ [t, m])")
      (auto simp: local_read [OF ok(1) k(2,3)] split: option.split node.split)
qed

lemma local_Delete_objs:
  assumes "local_ok base s" "list_all body_key ks" "local_Delete \<lparr>lb_root = base\<rparr> ks s = (e, s')"
  shows "local_objs base s' k = local_objs base s k \<or> k \<in> set ks \<and> local_objs base s' k = None"
    and "e = None \<Longrightarrow> k \<in> set ks \<Longrightarrow> local_objs base s' k = None"
proof -
  note del = local_Delete_cases [OF assms]
  have key: "\<exists>t n. split_on (CHR ''/'') k = [t, n] \<and> k = t @ CHR ''/'' # n \<and> tier_ok t"
    if "local_objs base x k \<noteq> None" for x :: "'a fs_scheme"
    using that by (auto elim!: local_objs_split)
  show "local_objs base s' k = local_objs base s k \<or> k \<in> set ks \<and> local_objs base s' k = None"
  proof (cases "local_objs base s k = None \<and> local_objs base s' k = None")
    case False
    then obtain t n where k: "split_on (CHR ''/'') k = [t, n]" "k = t @ CHR ''/'' # n" "tier_ok t"
      using key by blast
    have n: "CHR ''/'' \<notin> set n" using split_on_elem_no_sep [of n "CHR ''/''" k] k(1) by simp
    have "fs_node s' (base @ [t, n]) = fs_node s (base @ [t, n]) \<or>
        k \<in> set ks \<and> fs_node s' (base @ [t, n]) = None"
      using del k(2) by fastforce
    then show ?thesis using k(2) by (auto simp: local_objs_key [OF k(3) n])
  qed simp
  show "local_objs base s' k = None" if "e = None" "k \<in> set ks"
  proof (rule ccontr)
    assume "local_objs base s' k \<noteq> None"
    then obtain v where "local_objs base s' k = Some v" by auto
    then show False using del that by (auto elim!: local_objs_split)
  qed
qed

lemma quiet_subset:
  assumes "quiet s" "same_env s s'" "set (nodes s') \<subseteq> set (nodes s)"
  shows "quiet s'"
  using assms by (auto simp: quiet_def same_env_def temp_file_def)

lemma local_Delete_quiet:
  assumes "local_ok base s" "list_all body_key ks" "quiet s"
  shows "\<exists>s'. local_Delete \<lparr>lb_root = base\<rparr> ks s = (None, s') \<and> quiet s'"
proof -
  obtain e s' where d: "local_Delete \<lparr>lb_root = base\<rparr> ks s = (e, s')" by fastforce
  note c = local_Delete_cases [OF assms(1,2) d]
  have "e = None" using c quietD [OF assms(3)] by simp
  moreover have "quiet s'" by (rule quiet_subset [OF assms(3)]) (use c in simp_all)
  ultimately show ?thesis using d by simp
qed

interpretation local_dir: blob_store "LocalBackend \<lparr>lb_root = base\<rparr> :: 'a fs_scheme backend"
    "local_ok base" "local_objs base" for base
proof (unfold_locales, unfold local_backend_sel)
  fix s :: "'a fs_scheme" and k k' r e er s' off n ks t os v c
  let ?b = "\<lparr>lb_root = base\<rparr>"
  assume ok: "local_ok base s"
  show "local_objs base s k = Some v \<Longrightarrow> body_key k"
    using local_tier(2) [OF ok] by (fastforce elim!: local_objs_split simp: body_key_def)
  show "body_key k \<Longrightarrow> local_Put ?b k r s = (e, s') \<Longrightarrow> local_ok base s' \<and> same_env s s'"
    using local_Put_cases [OF ok] by (auto elim!: body_keyE)
  show "body_key k \<Longrightarrow> local_Put ?b k r s = (None, s') \<Longrightarrow>
      \<exists>c. r = Inr c \<and> local_objs base s' = (local_objs base s)(k \<mapsto> (c, clock s))"
    using local_Put_objs [OF ok, of k r None s'] by simp
  show "body_key k \<Longrightarrow> local_Put ?b k r s = (Some er, s') \<Longrightarrow> \<not> temp_key k' \<Longrightarrow>
      local_objs base s' k' = local_objs base s k'"
    using local_Put_objs [OF ok, of k r "Some er" s'] by simp
  show "body_key k \<Longrightarrow> quiet s \<Longrightarrow>
      \<exists>s'. local_Put ?b k (Inr c) s = (None, s') \<and> (\<not> temp_key k \<longrightarrow> quiet s')"
    by (rule local_Put_quiet [OF ok])
  show "body_key k \<Longrightarrow> local_Get ?b k off n s = Inr c \<Longrightarrow>
      \<exists>c' t. local_objs base s k = Some (c', t) \<and> c = byte_range off n c'"
    using local_Get_cases [OF ok, of k off n] by (auto split: option.splits)
  show "body_key k \<Longrightarrow> local_Get ?b k off n s = Inl ErrNotFound \<Longrightarrow> local_objs base s k = None"
    using local_Get_cases [OF ok, of k off n] by (auto split: option.splits)
  show "body_key k \<Longrightarrow> quiet s \<Longrightarrow> local_Get ?b k off n s =
      (case local_objs base s k of None \<Rightarrow> Inl ErrNotFound | Some (c, t) \<Rightarrow> Inr (byte_range off n c))"
    using local_Get_cases [OF ok, of k off n] quietD by blast
  show "tier_ok t \<Longrightarrow> local_List ?b (t @ ''/'') s = Inr os \<Longrightarrow> distinct (map ob_Key os) \<and>
      (\<forall>ob \<in> set os. has_prefix (ob_Key ob) (t @ ''/'')) \<and>
      (\<forall>k. has_prefix k (t @ ''/'') \<longrightarrow> (\<forall>ob. ob_Key ob = k \<longrightarrow>
         (ob \<in> set os \<longleftrightarrow> (\<exists>c. local_objs base s k = Some (c, ob_ModTime ob) \<and> ob_Size ob = int (length c)))))"
    by (rule local_List_cases [OF ok])
  show "tier_ok t \<Longrightarrow> quiet s \<Longrightarrow> \<exists>os. local_List ?b (t @ ''/'') s = Inr os"
    using local_List_eq [OF ok, of t] quietD [of s] by auto
  assume ks: "list_all body_key ks"
  show "local_Delete ?b ks s = (e, s') \<Longrightarrow> local_ok base s' \<and> same_env s s'"
    using local_Delete_cases [OF ok ks] by blast
  show "local_Delete ?b ks s = (e, s') \<Longrightarrow>
      local_objs base s' k = local_objs base s k \<or> k \<in> set ks \<and> local_objs base s' k = None"
    by (rule local_Delete_objs(1) [OF ok ks])
  show "local_Delete ?b ks s = (None, s') \<Longrightarrow> k \<in> set ks \<Longrightarrow> local_objs base s' k = None"
    using local_Delete_objs(2) [OF ok ks, of None s' k] by simp
  show "quiet s \<Longrightarrow> \<exists>s'. local_Delete ?b ks s = (None, s') \<and> quiet s'"
    by (rule local_Delete_quiet [OF ok ks])
qed

end
