(* ===== verification/Calendar.thy ===== *)
theory Calendar
  imports GoLib
begin

text \<open>
  The calendar side of Go's \<^verbatim>\<open>time\<close> package, for UTC: year, month, day and hour of a time given in
  nanoseconds since 1970, by the cycles of 400, 100, 4 and 1 years of the Gregorian calendar, and
  numbers printed with leading zeros.

  The main facts: a date determines its day, and the text of a number determines the number, so
  names built from date and hour are different for different hours.
\<close>

definition day_length :: duration where
  "day_length = 24 * hour"

text \<open>Days since the first of January of the year 1; 1970 begins 719162 days later.\<close>

definition day_of :: "time \<Rightarrow> int" where
  "day_of t = t div day_length + 719162"

definition hour_of :: "time \<Rightarrow> int" where
  "hour_of t = t mod day_length div hour"

definition is_leap :: "int \<Rightarrow> bool" where
  "is_leap y \<longleftrightarrow> y mod 4 = 0 \<and> (y mod 100 \<noteq> 0 \<or> y mod 400 = 0)"

text \<open>The year and the day in the year.\<close>

definition year_day :: "int \<Rightarrow> int \<times> int" where
  "year_day d =
     (let a = d div 146097; d1 = d mod 146097;
          b = min 3 (d1 div 36524); d2 = d1 - 36524 * b;
          c = d2 div 1461; d3 = d2 mod 1461;
          e = min 3 (d3 div 365)
      in (400 * a + 100 * b + 4 * c + e + 1, d3 - 365 * e))"

definition days_before :: "nat list" where
  "days_before = [0, 31, 59, 90, 120, 151, 181, 212, 243, 273, 304, 334, 365]"

text \<open>Month and day of the month; the 29th of February is the day of a leap year with number 59.\<close>

definition month_day :: "bool \<Rightarrow> nat \<Rightarrow> nat \<times> nat" where
  "month_day leap yd =
     (if leap \<and> yd = 59 then (2, 29)
      else let yd = (if leap \<and> 59 < yd then yd - 1 else yd);
               m = yd div 31
           in if days_before ! Suc m \<le> yd then (m + 2, yd - days_before ! Suc m + 1)
              else (m + 1, yd - days_before ! m + 1))"

definition Date :: "time \<Rightarrow> int \<times> nat \<times> nat" where
  "Date t =
     (case year_day (day_of t) of
        (y, yd) \<Rightarrow> (case month_day (is_leap y) (nat yd) of (m, d) \<Rightarrow> (y, m, d)))"

text \<open>\<^verbatim>\<open>%0wd\<close>.\<close>

definition fmt_pad :: "nat \<Rightarrow> nat \<Rightarrow> string" where
  "fmt_pad w n = pad_zeros w (string_of_nat n)"

section \<open>A date determines its day\<close>

definition day_number :: "int \<Rightarrow> int" where
  "day_number y = 365 * (y - 1) + (y - 1) div 4 - (y - 1) div 100 + (y - 1) div 400"

definition year_position :: "bool \<Rightarrow> nat \<Rightarrow> nat \<Rightarrow> nat" where
  "year_position leap m d = days_before ! (m - 1) + d - 1 + (if leap \<and> 2 < m then 1 else 0)"

lemma year_day_cycles:
  fixes d :: int
  obtains a b c e r where "year_day d = (400 * a + 100 * b + 4 * c + e + 1, r)"
    "d = 146097 * a + 36524 * b + 1461 * c + 365 * e + r"
    "0 \<le> b" "b \<le> 3" "0 \<le> c" "c \<le> 24" "0 \<le> e" "e \<le> 3" "0 \<le> r" "r \<le> 365"
proof -
  define d1 where "d1 = d mod 146097"
  define b where "b = min 3 (d1 div 36524)"
  define d2 where "d2 = d1 - 36524 * b"
  define d3 where "d3 = d2 mod 1461"
  define e where "e = min 3 (d3 div 365)"
  have d1: "0 \<le> d1" "d1 < 146097" by (simp_all add: d1_def)
  have b: "0 \<le> b" "b \<le> 3" and d2: "0 \<le> d2" "d2 \<le> 36524"
    using d1 unfolding b_def d2_def by linarith+
  have c: "0 \<le> d2 div 1461" "d2 div 1461 \<le> 24" using d2 by linarith+
  have d3: "0 \<le> d3" "d3 < 1461" by (simp_all add: d3_def)
  have e: "0 \<le> e" "e \<le> 3" and r: "0 \<le> d3 - 365 * e" "d3 - 365 * e \<le> 365"
    using d3 unfolding e_def by linarith+
  have sum: "d = 146097 * (d div 146097) + 36524 * b + 1461 * (d2 div 1461) + 365 * e + (d3 - 365 * e)"
    unfolding d3_def d2_def d1_def by (simp add: algebra_simps minus_mult_div_eq_mod [symmetric])
  have "year_day d = (400 * (d div 146097) + 100 * b + 4 * (d2 div 1461) + e + 1, d3 - 365 * e)"
    unfolding year_day_def Let_def d1_def b_def d2_def d3_def e_def by simp
  from that [OF this sum b c e r] show thesis .
qed

lemma year_day_number:
  assumes "year_day d = (y, r)"
  shows "d = day_number y + r" and "0 \<le> r" and "r \<le> 365"
proof -
  obtain a b c e r' where *: "year_day d = (400 * a + 100 * b + 4 * c + e + 1, r')"
    "d = 146097 * a + 36524 * b + 1461 * c + 365 * e + r'"
    "0 \<le> b" "b \<le> 3" "0 \<le> c" "c \<le> 24" "0 \<le> e" "e \<le> 3" "0 \<le> r'" "r' \<le> 365"
    by (rule year_day_cycles)
  then have y: "y - 1 = 400 * a + 100 * b + 4 * c + e" and r: "r = r'" using assms by auto
  have "(y - 1) div 4 = 100 * a + 25 * b + c" "(y - 1) div 100 = 4 * a + b" "(y - 1) div 400 = a"
    using * unfolding y by linarith+
  then show "d = day_number y + r" using * y r unfolding day_number_def by (simp add: algebra_simps)
  show "0 \<le> r" "r \<le> 365" using * r by simp_all
qed

lemma month_day_position:
  assumes "month_day leap n = (m, d)" "n \<le> 365"
  shows "year_position leap m d = n"
proof (cases "leap \<and> n = 59")
  case True
  with assms(1) show ?thesis
    by (auto simp: month_day_def year_position_def days_before_def eval_nat_numeral)
next
  case False
  define k where "k = (if leap \<and> 59 < n then n - 1 else n)"
  have "k \<le> 365" using assms(2) by (auto simp: k_def)
  then have "k div 31 < 12" by linarith
  moreover have "n \<in> {0, 1, 2, 3, 4, 5, 6, 7, 8, 9, 10, 11}" if "n < 12" for n :: nat
    using that by (simp, presburger)
  ultimately have cases: "k div 31 \<in> {0, 1, 2, 3, 4, 5, 6, 7, 8, 9, 10, 11}"
    by blast
  have md: "(m, d) = (if days_before ! Suc (k div 31) \<le> k
      then (k div 31 + 2, k - days_before ! Suc (k div 31) + 1)
      else (k div 31 + 1, k - days_before ! (k div 31) + 1))"
    using assms(1) False unfolding month_day_def k_def by (auto simp: Let_def split: if_splits)
  have "days_before ! (m - 1) + d - 1 = k \<and> (2 < m \<longleftrightarrow> 59 \<le> k)"
    using cases
  proof (elim insertE emptyE)
  qed (use md \<open>k \<le> 365\<close> in \<open>(auto simp: days_before_def nth_Cons' split: if_splits; linarith)+\<close>)
  then show ?thesis using False by (auto simp: year_position_def k_def split: if_splits)
qed

lemma Date_day:
  assumes "Date t = Date t'"
  shows "day_of t = day_of t'"
proof -
  obtain y r where y: "year_day (day_of t) = (y, r)" by fastforce
  obtain y' r' where y': "year_day (day_of t') = (y', r')" by fastforce
  obtain m d where m: "month_day (is_leap y) (nat r) = (m, d)" by fastforce
  obtain m' d' where m': "month_day (is_leap y') (nat r') = (m', d')" by fastforce
  from assms have eq: "y = y'" "m = m'" "d = d'" by (simp_all add: Date_def y y' m m')
  note r = year_day_number [OF y] and r' = year_day_number [OF y']
  have "nat r = year_position (is_leap y) m d"
    using month_day_position [OF m] r(3) by simp
  also have "\<dots> = nat r'"
    using month_day_position [OF m'] r'(3) eq by simp
  finally have "r = r'" using r(2) r'(2) by simp
  with r(1) r'(1) eq show ?thesis by simp
qed

lemma hours_split: "x div day_length = x div hour div 24" "hour_of x = x div hour mod 24"
proof -
  have len: "day_length = hour * 24" by (simp add: day_length_def)
  show "x div day_length = x div hour div 24" unfolding len by (rule zdiv_zmult2_eq) simp
  have h: "(0 :: int) < hour" by (simp add: duration_defs)
  have "x mod (hour * 24) = x mod hour + hour * (x div hour mod 24)"
    using zmod_zmult2_eq [of 24 x hour] by simp
  then have "x mod (hour * 24) div hour = x div hour mod 24 + x mod hour div hour"
    using h by simp
  then show "hour_of x = x div hour mod 24" using h by (simp add: hour_of_def len)
qed

lemma day_hour:
  assumes "day_of t = day_of t'" "hour_of t = hour_of t'"
  shows "t div hour = t' div hour"
proof -
  have "24 * (t div hour div 24) + t div hour mod 24 = 24 * (t' div hour div 24) + t' div hour mod 24"
    using assms by (simp only: day_of_def hours_split add_right_cancel)
  then show ?thesis by (simp only: mult_div_mod_eq)
qed

lemma Date_year_positive:
  assumes "0 \<le> t"
  shows "0 < fst (Date t)"
proof -
  obtain y r where y: "year_day (day_of t) = (y, r)" by fastforce
  have "0 \<le> day_of t - 719162"
    using assms unfolding day_of_def day_length_def duration_defs by simp
  then have d: "366 \<le> day_number y + r" "r \<le> 365" using year_day_number [OF y] by simp_all
  have "0 < y"
  proof (rule ccontr)
    assume "\<not> 0 < y"
    then have z: "(y - 1) div 4 \<le> 0" "y - 1 \<le> (y - 1) div 100" "(y - 1) div 400 \<le> 0" "y - 1 \<le> 0"
      by linarith+
    have "365 * z + a - b + c \<le> 0" if "a \<le> 0" "z \<le> b" "c \<le> 0" "z \<le> 0" for z a b c :: int
      using that by linarith
    from this [OF z] have "day_number y \<le> 0" unfolding day_number_def .
    with d show False by simp
  qed
  then show ?thesis by (simp add: Date_def y split: prod.split)
qed

section \<open>The text of a number determines the number\<close>

lemma digit_char_val [simp]: "digit_val (digit_char n) = n mod 10" "is_digit (digit_char n)"
proof -
  have "n mod 10 < 10" by simp
  then have "(48 + n mod 10) mod 256 = 48 + n mod 10" by (intro mod_less) linarith
  then have "of_char (digit_char n) = 48 + n mod 10"
    by (simp add: digit_char_def of_char_of del: mod_add_left_eq mod_add_right_eq)
  then show "digit_val (digit_char n) = n mod 10" "is_digit (digit_char n)"
    using \<open>n mod 10 < 10\<close> by (simp_all add: digit_val_def is_digit_def)
qed

lemma digits_val_snoc [simp]: "digits_val (s @ [c]) = digits_val s * 10 + digit_val c"
  by (simp add: digits_val_def)

lemma digits_val_zeros: "digits_val (replicate k (CHR ''0'') @ s) = digits_val s"
  by (induction k) (simp_all add: digits_val_def digit_val_def)

lemma string_of_nat_val: "digits_val (string_of_nat n) = n \<and> list_all is_digit (string_of_nat n)"
proof (induction n rule: string_of_nat.induct)
  case (1 n)
  show ?case
  proof (cases "n < 10")
    case True
    then show ?thesis by (subst (1 2) string_of_nat.simps) (simp add: digits_val_def)
  next
    case False
    with 1 show ?thesis by (subst (1 2) string_of_nat.simps) simp
  qed
qed

lemma fmt_pad_val [simp]: "digits_val (fmt_pad w n) = n"
  by (simp add: fmt_pad_def pad_zeros_def digits_val_zeros string_of_nat_val)

lemma fmt_pad_digits: "c \<in> set (fmt_pad w n) \<Longrightarrow> is_digit c"
  using string_of_nat_val [of n]
  by (auto simp: fmt_pad_def pad_zeros_def list_all_iff is_digit_def)

lemma fmt_pad_no_dash [simp]: "CHR ''-'' \<notin> set (fmt_pad w n)"
  using fmt_pad_digits [of "CHR ''-''" w n] by (auto simp: is_digit_def)

lemma fmt_pad_inj: "fmt_pad w m = fmt_pad w n \<longleftrightarrow> m = n"
  by (metis fmt_pad_val)

end
