(* ===== verification/Bodies.thy ===== *)
theory Bodies
  imports Blob Calendar
begin

text \<open>
  Body storage (\<^verbatim>\<open>internal/bodies\<close>): entries are appended as lines to an hourly file on the local disk;
  the rotator moves closed files to the backend's \<^verbatim>\<open>recent/\<close>, compresses them into \<^verbatim>\<open>archive/\<close>, deletes
  expired ones and evicts the oldest when the budget is exceeded; the reader finds an entry by file,
  offset and length wherever its file is by then.

  The JSON encoding of an entry and the zstd and gzip streams are parameters (\<open>jsonl\<close>, \<open>streams\<close>). An
  open file handle is the place of its file. \<^verbatim>\<open>time.Now()\<close> is the clock of the file system's state.
  Errors are values; the texts they carry are dropped. \<^verbatim>\<open>Run\<close>'s ticker and the logger's goroutine
  are the order in which operations are applied.
\<close>

section \<open>Entries, codecs, file names\<close>

record body_entry =
  en_ID :: string
  en_RequestHeaders :: "(string \<times> string) list"
  en_ResponseHeaders :: "(string \<times> string) list"
  en_RequestBody :: "string option"
  en_ResponseBody :: "string option"

record jsonl =
  entry_marshal :: "body_entry \<Rightarrow> string option"
  entry_unmarshal :: "string \<Rightarrow> body_entry option"

datatype Codec = zstdCodec | gzipCodec | noneCodec

definition NewCodec :: "string \<Rightarrow> Codec option" where
  "NewCodec name =
     (if name = [] \<or> name = ''zstd'' then Some zstdCodec
      else if name = ''gzip'' then Some gzipCodec
      else if name = ''none'' then Some noneCodec
      else None)"

fun Extension :: "Codec \<Rightarrow> string" where
  "Extension zstdCodec = ''.zst''"
| "Extension gzipCodec = ''.gz''"
| "Extension noneCodec = ''''"

text \<open>Compressing a whole stream; decoding gives the bytes up to the end or the first error, or
  fails on the header.\<close>

record streams =
  zstd_enc :: "string \<Rightarrow> string"
  zstd_dec :: "string \<Rightarrow> string option"
  gzip_enc :: "string \<Rightarrow> string"
  gzip_dec :: "string \<Rightarrow> string option"

fun encode :: "streams \<Rightarrow> Codec \<Rightarrow> string \<Rightarrow> string" where
  "encode st zstdCodec x = zstd_enc st x"
| "encode st gzipCodec x = gzip_enc st x"
| "encode st noneCodec x = x"

fun decode :: "streams \<Rightarrow> Codec \<Rightarrow> string \<Rightarrow> string option" where
  "decode st zstdCodec x = zstd_dec st x"
| "decode st gzipCodec x = gzip_dec st x"
| "decode st noneCodec x = Some x"

definition hourlyFileName :: "time \<Rightarrow> string" where
  "hourlyFileName t =
     (case Date t of
        (y, m, d) \<Rightarrow>
          fmt_pad 4 (nat y) @ ''-'' @ fmt_pad 2 m @ ''-'' @ fmt_pad 2 d @ ''-'' @
          fmt_pad 2 (nat (hour_of t)) @ ''.jsonl'')"

datatype body_error = BadName | BodyIO | BadJSON | BodyMissing | BodyBlob blob_error | BodyPanic

section \<open>Writer\<close>

datatype handle = NoHandle | OpenAt path | ClosedHandle

record writer =
  currentDir :: path
  current :: handle
  currentName :: string
  offset :: int

definition NewWriter :: "path \<Rightarrow> 'a fs_scheme \<Rightarrow> (body_error + writer) \<times> 'a fs_scheme" where
  "NewWriter dir s =
     (case os_MkdirAll dir s of
        (Some e, s') \<Rightarrow> (Inl BodyIO, s')
      | (None, s') \<Rightarrow> (Inr \<lparr>currentDir = dir, current = NoHandle, currentName = [], offset = 0\<rparr>, s'))"

definition rotateIfNeeded :: "writer \<Rightarrow> 'a fs_scheme \<Rightarrow> body_error option \<times> writer \<times> 'a fs_scheme" where
  "rotateIfNeeded w s =
     (let name = hourlyFileName (clock s) in
      if name = currentName w \<and> current w \<noteq> NoHandle then (None, w, s)
      else let w1 = (if current w \<noteq> NoHandle then w\<lparr>current := ClosedHandle\<rparr> else w) in
           case os_OpenAppend (currentDir w @ [name]) s of
             (Inl e, s1) \<Rightarrow> (Some BodyIO, w1, s1)
           | (Inr q, s1) \<Rightarrow>
               if faults s1 OpStat q then (Some BodyIO, w1, s1)
               else (None,
                     w1\<lparr>current := OpenAt q, currentName := name,
                        offset := (case fs_node s1 q of None \<Rightarrow> 0 | Some nd \<Rightarrow> node_size nd)\<rparr>, s1))"

definition writer_Write ::
  "jsonl \<Rightarrow> body_entry \<Rightarrow> writer \<Rightarrow> 'a fs_scheme \<Rightarrow> (body_error + string \<times> int \<times> int) \<times> writer \<times> 'a fs_scheme" where
  "writer_Write js entry w s =
     (case rotateIfNeeded w s of
        (Some e, w1, s1) \<Rightarrow> (Inl e, w1, s1)
      | (None, w1, s1) \<Rightarrow>
          (case entry_marshal js entry of
             None \<Rightarrow> (Inl BadJSON, w1, s1)
           | Some b \<Rightarrow>
               let line = b @ [CHR 0x0A] in
               (case current w1 of
                  OpenAt q \<Rightarrow>
                    (case os_Append q line s1 of
                       (Some e, s2) \<Rightarrow> (Inl BodyIO, w1, s2)
                     | (None, s2) \<Rightarrow>
                         (Inr (currentName w1, offset w1, int (length line)),
                          w1\<lparr>offset := offset w1 + int (length line)\<rparr>, s2))
                | _ \<Rightarrow> (Inl BodyIO, w1, s1))))"

definition writer_Close :: "writer \<Rightarrow> writer" where
  "writer_Close w = (if current w \<noteq> NoHandle then w\<lparr>current := ClosedHandle\<rparr> else w)"

section \<open>Reader\<close>

definition codecFromSuffix :: "string \<Rightarrow> Codec option" where
  "codecFromSuffix key =
     (if has_suffix key ''.zst'' then NewCodec ''zstd''
      else if has_suffix key ''.gz'' then NewCodec ''gzip''
      else None)"

definition parse_entry :: "jsonl \<Rightarrow> string \<Rightarrow> body_error + body_entry" where
  "parse_entry js buf = (case entry_unmarshal js buf of None \<Rightarrow> Inl BadJSON | Some e \<Rightarrow> Inr e)"

text \<open>\<^verbatim>\<open>ReadAt\<close> and \<^verbatim>\<open>ReadFull\<close> into a buffer of the given length fail when the bytes run out.\<close>

definition read_full :: "int \<Rightarrow> int \<Rightarrow> string \<Rightarrow> string option" where
  "read_full off len c =
     (let b = take (nat len) (drop (nat off) c) in if int (length b) < len then None else Some b)"

definition readDirect :: "jsonl \<Rightarrow> path \<Rightarrow> int \<Rightarrow> int \<Rightarrow> 'a fs_scheme \<Rightarrow> body_error + body_entry" where
  "readDirect js path off len s =
     (case os_ReadFile s path of
        Inl e \<Rightarrow> Inl BodyIO
      | Inr c \<Rightarrow>
          if len < 0 then Inl BodyPanic
          else if off < 0 then Inl BodyIO
          else case read_full off len c of None \<Rightarrow> Inl BodyIO | Some buf \<Rightarrow> parse_entry js buf)"

definition readFromBackendRange ::
  "jsonl \<Rightarrow> 's backend \<Rightarrow> string \<Rightarrow> int \<Rightarrow> int \<Rightarrow> 's \<Rightarrow> body_error + body_entry" where
  "readFromBackendRange js b key off len s =
     (case be_Get b key off len s of
        Inl e \<Rightarrow> Inl (BodyBlob e)
      | Inr c \<Rightarrow>
          if len < 0 then Inl BodyPanic
          else case read_full 0 len c of None \<Rightarrow> Inl BodyIO | Some buf \<Rightarrow> parse_entry js buf)"

definition readFromBackendCompressed ::
  "jsonl \<Rightarrow> streams \<Rightarrow> 's backend \<Rightarrow> string \<Rightarrow> Codec \<Rightarrow> int \<Rightarrow> int \<Rightarrow> 's \<Rightarrow> body_error + body_entry" where
  "readFromBackendCompressed js st b key cdc off len s =
     (case be_Get b key 0 0 s of
        Inl e \<Rightarrow> Inl (BodyBlob e)
      | Inr z \<Rightarrow>
          (case decode st cdc z of
             None \<Rightarrow> Inl BodyIO
           | Some c \<Rightarrow>
               if 0 < off \<and> int (length c) < off then Inl BodyIO
               else if len < 0 then Inl BodyPanic
               else case read_full off len c of None \<Rightarrow> Inl BodyIO | Some buf \<Rightarrow> parse_entry js buf))"

record 's body_reader =
  rd_backend :: "'s backend"
  rd_dir :: path

text \<open>\<^verbatim>\<open>filepath.Base(file) != file\<close> and \<^verbatim>\<open>filepath.Join(dir, file)\<close> for a name that passed it.\<close>

definition is_base_name :: "string \<Rightarrow> bool" where
  "is_base_name file \<longleftrightarrow> file = ''/'' \<or> (file \<noteq> [] \<and> CHR ''/'' \<notin> set file)"

definition join_name :: "path \<Rightarrow> string \<Rightarrow> path" where
  "join_name dir file =
     (if file = ''..'' then butlast dir else if file = ''.'' \<or> file = ''/'' then dir else dir @ [file])"

fun try_archive ::
  "jsonl \<Rightarrow> streams \<Rightarrow> 's backend \<Rightarrow> string list \<Rightarrow> int \<Rightarrow> int \<Rightarrow> 's \<Rightarrow> body_error + body_entry" where
  "try_archive js st b [] off len s = Inl BodyMissing"
| "try_archive js st b (key # keys) off len s =
     (case (case codecFromSuffix key of
              None \<Rightarrow> readFromBackendRange js b key off len s
            | Some cdc \<Rightarrow> readFromBackendCompressed js st b key cdc off len s) of
        Inr entry \<Rightarrow> Inr entry
      | Inl e \<Rightarrow> if e = BodyBlob ErrNotFound then try_archive js st b keys off len s else Inl e)"

definition reader_Read ::
  "jsonl \<Rightarrow> streams \<Rightarrow> 'a fs_scheme body_reader \<Rightarrow> string \<Rightarrow> int \<Rightarrow> int \<Rightarrow> 'a fs_scheme \<Rightarrow> body_error + body_entry" where
  "reader_Read js st r file off len s =
     (if \<not> is_base_name file then Inl BadName
      else case os_Stat s (join_name (rd_dir r) file) of
        Inr _ \<Rightarrow> readDirect js (join_name (rd_dir r) file) off len s
      | Inl _ \<Rightarrow>
          let plain = (codecFromSuffix file = None);
              archive = ''archive/'' @ file;
              candidates = (if plain then [archive, archive @ ''.zst'', archive @ ''.gz''] else [archive])
          in case (if plain then readFromBackendRange js (rd_backend r) (''recent/'' @ file) off len s
                   else Inl (BodyBlob ErrNotFound)) of
               Inr entry \<Rightarrow> Inr entry
             | Inl e \<Rightarrow>
                 if e = BodyBlob ErrNotFound
                 then try_archive js st (rd_backend r) candidates off len s
                 else Inl e)"

section \<open>Store\<close>

record 's body_store =
  bs_writer :: writer
  bs_reader :: "'s body_reader"

definition NewStore ::
  "'a fs_scheme backend \<Rightarrow> path \<Rightarrow> 'a fs_scheme \<Rightarrow> (body_error + 'a fs_scheme body_store) \<times> 'a fs_scheme" where
  "NewStore b dir s =
     (case NewWriter dir s of
        (Inl e, s') \<Rightarrow> (Inl e, s')
      | (Inr w, s') \<Rightarrow> (Inr \<lparr>bs_writer = w, bs_reader = \<lparr>rd_backend = b, rd_dir = dir\<rparr>\<rparr>, s'))"

definition NewLocalStore :: "path \<Rightarrow> 'a fs_scheme \<Rightarrow> (body_error + 'a fs_scheme body_store) \<times> 'a fs_scheme" where
  "NewLocalStore base s =
     (case NewLocal base s of
        (Inl e, s') \<Rightarrow> (Inl (BodyBlob e), s')
      | (Inr b, s') \<Rightarrow> NewStore (LocalBackend b) (base @ [''current'']) s')"

definition store_Write ::
  "jsonl \<Rightarrow> body_entry \<Rightarrow> 'a fs_scheme body_store \<Rightarrow> 'a fs_scheme \<Rightarrow>
     (body_error + string \<times> int \<times> int) \<times> 'a fs_scheme body_store \<times> 'a fs_scheme" where
  "store_Write js entry bs s =
     (case writer_Write js entry (bs_writer bs) s of (r, w, s') \<Rightarrow> (r, bs\<lparr>bs_writer := w\<rparr>, s'))"

definition store_Read ::
  "jsonl \<Rightarrow> streams \<Rightarrow> 'a fs_scheme body_store \<Rightarrow> string \<Rightarrow> int \<Rightarrow> int \<Rightarrow> 'a fs_scheme \<Rightarrow> body_error + body_entry" where
  "store_Read js st bs = reader_Read js st (bs_reader bs)"

definition store_Close :: "'a fs_scheme body_store \<Rightarrow> 'a fs_scheme body_store" where
  "store_Close bs = bs\<lparr>bs_writer := writer_Close (bs_writer bs)\<rparr>"

section \<open>Names of hourly files\<close>

lemma hourly_unfold:
  "\<exists>y m d. Date t = (y, m, d) \<and> hourlyFileName t =
     fmt_pad 4 (nat y) @ CHR ''-'' # fmt_pad 2 m @ CHR ''-'' # fmt_pad 2 d @ CHR ''-'' #
     fmt_pad 2 (nat (hour_of t)) @ ''.jsonl''"
  by (cases "Date t") (simp add: hourlyFileName_def)

lemma hourly_hour:
  assumes "hourlyFileName t = hourlyFileName t'" "0 \<le> t" "0 \<le> t'"
  shows "t div hour = t' div hour"
proof -
  obtain y m d where 1: "Date t = (y, m, d)" "hourlyFileName t =
      fmt_pad 4 (nat y) @ CHR ''-'' # fmt_pad 2 m @ CHR ''-'' # fmt_pad 2 d @ CHR ''-'' #
      fmt_pad 2 (nat (hour_of t)) @ ''.jsonl''"
    using hourly_unfold by blast
  obtain y' m' d' where 2: "Date t' = (y', m', d')" "hourlyFileName t' =
      fmt_pad 4 (nat y') @ CHR ''-'' # fmt_pad 2 m' @ CHR ''-'' # fmt_pad 2 d' @ CHR ''-'' #
      fmt_pad 2 (nat (hour_of t')) @ ''.jsonl''"
    using hourly_unfold by blast
  have "nat y = nat y'" "m = m'" "d = d'" "nat (hour_of t) = nat (hour_of t')"
    using assms(1) unfolding 1(2) 2(2)
    by (simp_all add: sep_left fmt_pad_inj)
  moreover have "0 < y" "0 < y'" using Date_year_positive assms(2,3) 1(1) 2(1) by fastforce+
  moreover have "0 \<le> hour_of t" "0 \<le> hour_of t'"
    by (simp_all add: hour_of_def day_length_def duration_defs pos_imp_zdiv_nonneg_iff)
  ultimately have "Date t = Date t'" "hour_of t = hour_of t'" using 1(1) 2(1) by auto
  then show ?thesis using day_hour Date_day by blast
qed

lemma hourly_same:
  assumes "t div hour = t' div hour"
  shows "hourlyFileName t = hourlyFileName t'"
proof -
  have "day_of t = day_of t'" "hour_of t = hour_of t'" using assms by (simp_all add: day_of_def hours_split)
  then show ?thesis by (simp add: hourlyFileName_def Date_def)
qed

definition body_name :: "string \<Rightarrow> bool" where
  "body_name f \<longleftrightarrow> name_ok f \<and> has_suffix f ''.jsonl'' \<and> \<not> temp_name f"

lemma hourly_body_name: "body_name (hourlyFileName t)"
proof -
  obtain y m d where u: "hourlyFileName t =
      fmt_pad 4 (nat y) @ CHR ''-'' # fmt_pad 2 m @ CHR ''-'' # fmt_pad 2 d @ CHR ''-'' #
      fmt_pad 2 (nat (hour_of t)) @ ''.jsonl''"
    using hourly_unfold by blast
  define p where "p = fmt_pad 4 (nat y) @ CHR ''-'' # fmt_pad 2 m @ CHR ''-'' # fmt_pad 2 d @ CHR ''-'' #
      fmt_pad 2 (nat (hour_of t))"
  have p: "hourlyFileName t = p @ ''.jsonl''" by (simp add: u p_def)
  have chars: "is_digit c \<or> c = CHR ''-''" if "c \<in> set p" for c
    using that fmt_pad_digits by (auto simp: p_def)
  have no: "CHR ''/'' \<notin> set p" "CHR ''.'' \<notin> set p"
    using chars [of "CHR ''/''"] chars [of "CHR ''.''"] by (auto simp: is_digit_def)
  have dots: "\<not> contains (q @ ''.jsonl'') ''..''" if "CHR ''.'' \<notin> set q" for q
    using that by (induction q) (auto simp: contains_def)
  have "p \<noteq> []" by (simp add: p_def)
  then have "hd p \<noteq> CHR ''.''" using no(2) by (cases p) auto
  then have "\<not> temp_name (p @ ''.jsonl'')" using \<open>p \<noteq> []\<close> by (cases p) (auto simp: temp_name_def)
  moreover have "name_ok (p @ ''.jsonl'')" using no dots [OF no(2)] by (auto simp: name_ok_def)
  ultimately show ?thesis unfolding p body_name_def by (auto simp: has_suffix_iff)
qed

end
