(* ===== verification/Endpoint.thy ===== *)
theory Endpoint
  imports GoLib
begin

text \<open>
  Endpoint classification (\<^verbatim>\<open>internal/endpoint/classify.go\<close>): the ordered pattern table and
  \<^verbatim>\<open>ClassifyKnown\<close>, which maps a request path to its canonical pattern by first match. Rate
  limits, PII rules and metrics are all keyed by its result.

  The lemmas show that classification ignores query strings and trailing slashes, that no
  row of the table is shadowed by an earlier one, and that classifying twice is classifying
  once.
\<close>

record endpoint_pattern =
  ep_prefix :: string
  ep_segments :: nat
  ep_suffix :: string
  ep_pattern :: string

definition endpointPatterns_orders :: "endpoint_pattern list" where
  "endpointPatterns_orders = [
     \<lparr>ep_prefix = ''/orders/v0/orders/'', ep_segments = 7, ep_suffix = ''orderItems/buyerInfo'',
      ep_pattern = ''/orders/v0/orders/{orderId}/orderItems/buyerInfo''\<rparr>,
     \<lparr>ep_prefix = ''/orders/v0/orders/'', ep_segments = 6, ep_suffix = ''orderItems'',
      ep_pattern = ''/orders/v0/orders/{orderId}/orderItems''\<rparr>,
     \<lparr>ep_prefix = ''/orders/v0/orders/'', ep_segments = 6, ep_suffix = ''buyerInfo'',
      ep_pattern = ''/orders/v0/orders/{orderId}/buyerInfo''\<rparr>,
     \<lparr>ep_prefix = ''/orders/v0/orders/'', ep_segments = 6, ep_suffix = ''address'',
      ep_pattern = ''/orders/v0/orders/{orderId}/address''\<rparr>,
     \<lparr>ep_prefix = ''/orders/v0/orders/'', ep_segments = 6, ep_suffix = ''regulatedInfo'',
      ep_pattern = ''/orders/v0/orders/{orderId}/regulatedInfo''\<rparr>,
     \<lparr>ep_prefix = ''/orders/v0/orders/'', ep_segments = 6, ep_suffix = ''shipmentConfirmation'',
      ep_pattern = ''/orders/v0/orders/{orderId}/shipmentConfirmation''\<rparr>,
     \<lparr>ep_prefix = ''/orders/v0/orders/'', ep_segments = 6, ep_suffix = ''shipment'',
      ep_pattern = ''/orders/v0/orders/{orderId}/shipment''\<rparr>,
     \<lparr>ep_prefix = ''/orders/v0/orders/'', ep_segments = 5, ep_suffix = '''',
      ep_pattern = ''/orders/v0/orders/{orderId}''\<rparr>,
     \<lparr>ep_prefix = ''/orders/v0/orders'', ep_segments = 4, ep_suffix = '''',
      ep_pattern = ''/orders/v0/orders''\<rparr>,
     \<lparr>ep_prefix = ''/orders/2026-01-01/orders/'', ep_segments = 5, ep_suffix = '''',
      ep_pattern = ''/orders/2026-01-01/orders/{orderId}''\<rparr>,
     \<lparr>ep_prefix = ''/orders/2026-01-01/orders'', ep_segments = 4, ep_suffix = '''',
      ep_pattern = ''/orders/2026-01-01/orders''\<rparr>]"

definition endpointPatterns_documents :: "endpoint_pattern list" where
  "endpointPatterns_documents = [
     \<lparr>ep_prefix = ''/catalog/2022-04-01/items/'', ep_segments = 5, ep_suffix = '''',
      ep_pattern = ''/catalog/2022-04-01/items/{asin}''\<rparr>,
     \<lparr>ep_prefix = ''/feeds/2021-06-30/feeds/'', ep_segments = 5, ep_suffix = '''',
      ep_pattern = ''/feeds/2021-06-30/feeds/{feedId}''\<rparr>,
     \<lparr>ep_prefix = ''/feeds/2021-06-30/documents/'', ep_segments = 5, ep_suffix = '''',
      ep_pattern = ''/feeds/2021-06-30/documents/{feedDocumentId}''\<rparr>,
     \<lparr>ep_prefix = ''/reports/2021-06-30/reports/'', ep_segments = 5, ep_suffix = '''',
      ep_pattern = ''/reports/2021-06-30/reports/{reportId}''\<rparr>,
     \<lparr>ep_prefix = ''/reports/2021-06-30/schedules/'', ep_segments = 5, ep_suffix = '''',
      ep_pattern = ''/reports/2021-06-30/schedules/{scheduleId}''\<rparr>,
     \<lparr>ep_prefix = ''/reports/2021-06-30/documents/'', ep_segments = 5, ep_suffix = '''',
      ep_pattern = ''/reports/2021-06-30/documents/{documentId}''\<rparr>,
     \<lparr>ep_prefix = ''/datakiosk/2023-11-15/queries/'', ep_segments = 5, ep_suffix = '''',
      ep_pattern = ''/datakiosk/2023-11-15/queries/{queryId}''\<rparr>,
     \<lparr>ep_prefix = ''/datakiosk/2023-11-15/documents/'', ep_segments = 5, ep_suffix = '''',
      ep_pattern = ''/datakiosk/2023-11-15/documents/{documentId}''\<rparr>]"

definition endpointPatterns_products :: "endpoint_pattern list" where
  "endpointPatterns_products = [
     \<lparr>ep_prefix = ''/listings/2021-08-01/items/'', ep_segments = 6, ep_suffix = '''',
      ep_pattern = ''/listings/2021-08-01/items/{sellerId}/{sku}''\<rparr>,
     \<lparr>ep_prefix = ''/listings/2021-08-01/items/'', ep_segments = 5, ep_suffix = '''',
      ep_pattern = ''/listings/2021-08-01/items/{sellerId}''\<rparr>,
     \<lparr>ep_prefix = ''/products/pricing/v0/items/'', ep_segments = 7, ep_suffix = '''',
      ep_pattern = ''/products/pricing/v0/items/{asin}/offers''\<rparr>,
     \<lparr>ep_prefix = ''/products/pricing/v0/listings/'', ep_segments = 7, ep_suffix = '''',
      ep_pattern = ''/products/pricing/v0/listings/{sku}/offers''\<rparr>,
     \<lparr>ep_prefix = ''/batches/products/pricing/v0/listingOffers'', ep_segments = 6, ep_suffix = '''',
      ep_pattern = ''/batches/products/pricing/v0/listingOffers''\<rparr>,
     \<lparr>ep_prefix = ''/batches/products/pricing/v0/itemOffers'', ep_segments = 6, ep_suffix = '''',
      ep_pattern = ''/batches/products/pricing/v0/itemOffers''\<rparr>,
     \<lparr>ep_prefix = ''/products/fees/v0/listings/'', ep_segments = 7, ep_suffix = '''',
      ep_pattern = ''/products/fees/v0/listings/{sku}/feesEstimate''\<rparr>,
     \<lparr>ep_prefix = ''/products/fees/v0/items/'', ep_segments = 7, ep_suffix = '''',
      ep_pattern = ''/products/fees/v0/items/{asin}/feesEstimate''\<rparr>,
     \<lparr>ep_prefix = ''/products/fees/v0/feesEstimate'', ep_segments = 5, ep_suffix = '''',
      ep_pattern = ''/products/fees/v0/feesEstimate''\<rparr>,
     \<lparr>ep_prefix = ''/definitions/2020-09-01/productTypes/'', ep_segments = 5, ep_suffix = '''',
      ep_pattern = ''/definitions/2020-09-01/productTypes/{productType}''\<rparr>]"

definition endpointPatterns_fba :: "endpoint_pattern list" where
  "endpointPatterns_fba = [
     \<lparr>ep_prefix = ''/fba/inventory/v1/items/'', ep_segments = 6, ep_suffix = ''inventory'',
      ep_pattern = ''/fba/inventory/v1/items/inventory''\<rparr>,
     \<lparr>ep_prefix = ''/fba/inventory/v1/items/'', ep_segments = 6, ep_suffix = '''',
      ep_pattern = ''/fba/inventory/v1/items/{sku}''\<rparr>,
     \<lparr>ep_prefix = ''/fba/inbound/v2024-03-20/inboundPlans/'', ep_segments = 7, ep_suffix = ''packingOptions'',
      ep_pattern = ''/fba/inbound/v2024-03-20/inboundPlans/{planId}/packingOptions''\<rparr>,
     \<lparr>ep_prefix = ''/fba/inbound/v2024-03-20/inboundPlans/'', ep_segments = 7, ep_suffix = ''placementOptions'',
      ep_pattern = ''/fba/inbound/v2024-03-20/inboundPlans/{planId}/placementOptions''\<rparr>,
     \<lparr>ep_prefix = ''/fba/inbound/v2024-03-20/inboundPlans/'', ep_segments = 6, ep_suffix = '''',
      ep_pattern = ''/fba/inbound/v2024-03-20/inboundPlans/{planId}''\<rparr>,
     \<lparr>ep_prefix = ''/fba/inbound/v0/shipments/'', ep_segments = 7, ep_suffix = ''labels'',
      ep_pattern = ''/fba/inbound/v0/shipments/{shipmentId}/labels''\<rparr>,
     \<lparr>ep_prefix = ''/fba/inbound/v0/shipments/'', ep_segments = 7, ep_suffix = ''billOfLading'',
      ep_pattern = ''/fba/inbound/v0/shipments/{shipmentId}/billOfLading''\<rparr>,
     \<lparr>ep_prefix = ''/fba/inbound/v0/shipments/'', ep_segments = 7, ep_suffix = ''items'',
      ep_pattern = ''/fba/inbound/v0/shipments/{shipmentId}/items''\<rparr>,
     \<lparr>ep_prefix = ''/fba/outbound/2020-07-01/features/inventory/'', ep_segments = 8, ep_suffix = '''',
      ep_pattern = ''/fba/outbound/2020-07-01/features/inventory/{featureName}/{sku}''\<rparr>,
     \<lparr>ep_prefix = ''/fba/outbound/2020-07-01/fulfillmentOrders/'', ep_segments = 7, ep_suffix = ''cancel'',
      ep_pattern = ''/fba/outbound/2020-07-01/fulfillmentOrders/{orderId}/cancel''\<rparr>,
     \<lparr>ep_prefix = ''/fba/outbound/2020-07-01/fulfillmentOrders/'', ep_segments = 7, ep_suffix = ''return'',
      ep_pattern = ''/fba/outbound/2020-07-01/fulfillmentOrders/{orderId}/return''\<rparr>,
     \<lparr>ep_prefix = ''/fba/outbound/2020-07-01/features/inventory/'', ep_segments = 7, ep_suffix = '''',
      ep_pattern = ''/fba/outbound/2020-07-01/features/inventory/{featureName}''\<rparr>,
     \<lparr>ep_prefix = ''/fba/outbound/2020-07-01/fulfillmentOrders/'', ep_segments = 6, ep_suffix = ''preview'',
      ep_pattern = ''/fba/outbound/2020-07-01/fulfillmentOrders/preview''\<rparr>,
     \<lparr>ep_prefix = ''/fba/outbound/2020-07-01/fulfillmentOrders/'', ep_segments = 6, ep_suffix = '''',
      ep_pattern = ''/fba/outbound/2020-07-01/fulfillmentOrders/{orderId}''\<rparr>,
     \<lparr>ep_prefix = ''/fba/outbound/2020-07-01/fulfillmentOrders'', ep_segments = 5, ep_suffix = '''',
      ep_pattern = ''/fba/outbound/2020-07-01/fulfillmentOrders''\<rparr>]"

definition endpointPatterns_shipping :: "endpoint_pattern list" where
  "endpointPatterns_shipping = [
     \<lparr>ep_prefix = ''/shipping/v1/shipments/'', ep_segments = 6, ep_suffix = ''cancel'',
      ep_pattern = ''/shipping/v1/shipments/{shipmentId}/cancel''\<rparr>,
     \<lparr>ep_prefix = ''/shipping/v1/shipments/'', ep_segments = 6, ep_suffix = ''purchaseLabels'',
      ep_pattern = ''/shipping/v1/shipments/{shipmentId}/purchaseLabels''\<rparr>,
     \<lparr>ep_prefix = ''/shipping/v1/containers/'', ep_segments = 6, ep_suffix = ''label'',
      ep_pattern = ''/shipping/v1/containers/{trackingId}/label''\<rparr>,
     \<lparr>ep_prefix = ''/shipping/v1/shipments/'', ep_segments = 5, ep_suffix = '''',
      ep_pattern = ''/shipping/v1/shipments/{shipmentId}''\<rparr>,
     \<lparr>ep_prefix = ''/shipping/v1/tracking/'', ep_segments = 5, ep_suffix = '''',
      ep_pattern = ''/shipping/v1/tracking/{trackingId}''\<rparr>,
     \<lparr>ep_prefix = ''/shipping/v1/shipments'', ep_segments = 4, ep_suffix = '''',
      ep_pattern = ''/shipping/v1/shipments''\<rparr>,
     \<lparr>ep_prefix = ''/shipping/v2/shipments/'', ep_segments = 6, ep_suffix = ''cancel'',
      ep_pattern = ''/shipping/v2/shipments/{shipmentId}/cancel''\<rparr>,
     \<lparr>ep_prefix = ''/shipping/v2/shipments/'', ep_segments = 6, ep_suffix = ''documents'',
      ep_pattern = ''/shipping/v2/shipments/{shipmentId}/documents''\<rparr>,
     \<lparr>ep_prefix = ''/shipping/v2/shipments/rates'', ep_segments = 5, ep_suffix = '''',
      ep_pattern = ''/shipping/v2/shipments/rates''\<rparr>,
     \<lparr>ep_prefix = ''/shipping/v2/shipments/directPurchase'', ep_segments = 5, ep_suffix = '''',
      ep_pattern = ''/shipping/v2/shipments/directPurchase''\<rparr>,
     \<lparr>ep_prefix = ''/shipping/v2/shipments'', ep_segments = 4, ep_suffix = '''',
      ep_pattern = ''/shipping/v2/shipments''\<rparr>,
     \<lparr>ep_prefix = ''/shipping/v2/oneClickShipment'', ep_segments = 4, ep_suffix = '''',
      ep_pattern = ''/shipping/v2/oneClickShipment''\<rparr>,
     \<lparr>ep_prefix = ''/mfn/v0/shipments'', ep_segments = 4, ep_suffix = '''',
      ep_pattern = ''/mfn/v0/shipments''\<rparr>,
     \<lparr>ep_prefix = ''/mfn/v0/shipments/'', ep_segments = 5, ep_suffix = '''',
      ep_pattern = ''/mfn/v0/shipments/{shipmentId}''\<rparr>,
     \<lparr>ep_prefix = ''/easyShip/2022-03-23/packages/bulk'', ep_segments = 5, ep_suffix = '''',
      ep_pattern = ''/easyShip/2022-03-23/packages/bulk''\<rparr>,
     \<lparr>ep_prefix = ''/easyShip/2022-03-23/package'', ep_segments = 4, ep_suffix = '''',
      ep_pattern = ''/easyShip/2022-03-23/package''\<rparr>]"

definition endpointPatterns_events :: "endpoint_pattern list" where
  "endpointPatterns_events = [
     \<lparr>ep_prefix = ''/notifications/v1/subscriptions/'', ep_segments = 5, ep_suffix = '''',
      ep_pattern = ''/notifications/v1/subscriptions/{type}''\<rparr>,
     \<lparr>ep_prefix = ''/notifications/v1/destinations/'', ep_segments = 5, ep_suffix = '''',
      ep_pattern = ''/notifications/v1/destinations/{destinationId}''\<rparr>,
     \<lparr>ep_prefix = ''/finances/v0/financialEventGroups/'', ep_segments = 6, ep_suffix = ''financialEvents'',
      ep_pattern = ''/finances/v0/financialEventGroups/{eventGroupId}/financialEvents''\<rparr>,
     \<lparr>ep_prefix = ''/finances/v0/orders/'', ep_segments = 6, ep_suffix = ''financialEvents'',
      ep_pattern = ''/finances/v0/orders/{orderId}/financialEvents''\<rparr>,
     \<lparr>ep_prefix = ''/finances/v0/financialEvents'', ep_segments = 4, ep_suffix = '''',
      ep_pattern = ''/finances/v0/financialEvents''\<rparr>,
     \<lparr>ep_prefix = ''/messaging/v1/orders/'', ep_segments = 7, ep_suffix = '''',
      ep_pattern = ''/messaging/v1/orders/{orderId}/messages/{messageId}''\<rparr>,
     \<lparr>ep_prefix = ''/messaging/v1/orders/'', ep_segments = 6, ep_suffix = '''',
      ep_pattern = ''/messaging/v1/orders/{orderId}/messages''\<rparr>,
     \<lparr>ep_prefix = ''/solicitations/v1/orders/'', ep_segments = 7, ep_suffix = ''productReviewAndSellerFeedback'',
      ep_pattern = ''/solicitations/v1/orders/{orderId}/solicitations/productReviewAndSellerFeedback''\<rparr>,
     \<lparr>ep_prefix = ''/solicitations/v1/orders/'', ep_segments = 6, ep_suffix = ''solicitations'',
      ep_pattern = ''/solicitations/v1/orders/{orderId}/solicitations''\<rparr>]"

definition endpointPatterns_content :: "endpoint_pattern list" where
  "endpointPatterns_content = [
     \<lparr>ep_prefix = ''/uploads/2020-11-01/uploadDestinations/'', ep_segments = 5, ep_suffix = '''',
      ep_pattern = ''/uploads/2020-11-01/uploadDestinations/{resource}''\<rparr>,
     \<lparr>ep_prefix = ''/aplus/2020-11-01/contentDocuments/'', ep_segments = 5, ep_suffix = '''',
      ep_pattern = ''/aplus/2020-11-01/contentDocuments/{contentReferenceKey}''\<rparr>,
     \<lparr>ep_prefix = ''/awd/2024-05-09/inboundShipments/'', ep_segments = 5, ep_suffix = '''',
      ep_pattern = ''/awd/2024-05-09/inboundShipments/{shipmentId}''\<rparr>,
     \<lparr>ep_prefix = ''/supplySources/2020-07-01/supplySources/'', ep_segments = 5, ep_suffix = '''',
      ep_pattern = ''/supplySources/2020-07-01/supplySources/{supplySourceId}''\<rparr>]"

definition endpointPatterns_vendor :: "endpoint_pattern list" where
  "endpointPatterns_vendor = [
     \<lparr>ep_prefix = ''/vendor/directFulfillment/orders/2021-12-28/purchaseOrders/'', ep_segments = 7, ep_suffix = '''',
      ep_pattern = ''/vendor/directFulfillment/orders/2021-12-28/purchaseOrders/{purchaseOrderNumber}''\<rparr>,
     \<lparr>ep_prefix = ''/vendor/directFulfillment/shipping/2021-12-28/shippingLabels/'', ep_segments = 7, ep_suffix = '''',
      ep_pattern = ''/vendor/directFulfillment/shipping/2021-12-28/shippingLabels/{purchaseOrderNumber}''\<rparr>,
     \<lparr>ep_prefix = ''/vendor/directFulfillment/shipping/2021-12-28/customerInvoices/'', ep_segments = 7, ep_suffix = '''',
      ep_pattern = ''/vendor/directFulfillment/shipping/2021-12-28/customerInvoices/{purchaseOrderNumber}''\<rparr>,
     \<lparr>ep_prefix = ''/vendor/directFulfillment/shipping/2021-12-28/packingSlips/'', ep_segments = 7, ep_suffix = '''',
      ep_pattern = ''/vendor/directFulfillment/shipping/2021-12-28/packingSlips/{purchaseOrderNumber}''\<rparr>,
     \<lparr>ep_prefix = ''/vendor/directFulfillment/transactions/2021-12-28/transactions/'', ep_segments = 7, ep_suffix = '''',
      ep_pattern = ''/vendor/directFulfillment/transactions/2021-12-28/transactions/{transactionId}''\<rparr>,
     \<lparr>ep_prefix = ''/vendor/orders/v1/purchaseOrders/'', ep_segments = 6, ep_suffix = '''',
      ep_pattern = ''/vendor/orders/v1/purchaseOrders/{purchaseOrderNumber}''\<rparr>,
     \<lparr>ep_prefix = ''/vendor/transactionStatus/v1/transactions/'', ep_segments = 6, ep_suffix = '''',
      ep_pattern = ''/vendor/transactionStatus/v1/transactions/{transactionId}''\<rparr>]"

definition endpointPatterns :: "endpoint_pattern list" where
  "endpointPatterns = endpointPatterns_orders @ endpointPatterns_documents @ endpointPatterns_products @ endpointPatterns_fba
     @ endpointPatterns_shipping @ endpointPatterns_events @ endpointPatterns_content @ endpointPatterns_vendor"

text \<open>\<^verbatim>\<open>if idx := strings.IndexByte(path, '?'); idx != -1 { path = path[:idx] }\<close>, then
  \<^verbatim>\<open>strings.TrimRight(path, "/")\<close>.\<close>

definition strip_query :: "string \<Rightarrow> string" where
  "strip_query path = (case index_byte path (CHR ''?'') of None \<Rightarrow> path | Some i \<Rightarrow> take i path)"

definition clean_path :: "string \<Rightarrow> string" where
  "clean_path path = trim_right (strip_query path) (CHR ''/'')"

definition ep_matches :: "string \<Rightarrow> nat \<Rightarrow> endpoint_pattern \<Rightarrow> bool" where
  "ep_matches path segmentCount ep \<longleftrightarrow>
     has_prefix path (ep_prefix ep) \<and> segmentCount = ep_segments ep
     \<and> (ep_suffix ep = [] \<or> has_suffix path (''/'' @ ep_suffix ep))"

definition find_endpoint :: "string \<Rightarrow> nat \<Rightarrow> endpoint_pattern option" where
  "find_endpoint path segmentCount = find (ep_matches path segmentCount) endpointPatterns"

definition ClassifyKnown :: "string \<Rightarrow> string \<times> bool" where
  "ClassifyKnown path0 =
     (let path = clean_path path0;
          segmentCount = count_byte path (CHR ''/'') + 1
      in case find_endpoint path segmentCount of
           Some ep \<Rightarrow> (ep_pattern ep, True)
         | None \<Rightarrow> (path, False))"

definition Classify :: "string \<Rightarrow> string" where
  "Classify path = fst (ClassifyKnown path)"

lemma strip_query_no_query: "CHR ''?'' \<notin> set p \<Longrightarrow> strip_query p = p"
  by (metis index_byte_None option.case(1) strip_query_def)

lemma strip_query_append: "strip_query (p @ CHR ''?'' # q) = strip_query p"
proof (cases "index_byte p (CHR ''?'')")
  case None
  then have "CHR ''?'' \<notin> set p" by (metis index_byte_None)
  then show ?thesis
    by (simp add: strip_query_no_query) (simp add: strip_query_def index_byte_append)
next
  case (Some i)
  then have "index_byte (p @ CHR ''?'' # q) (CHR ''?'') = Some i \<and> i < length p"
    by (induction p arbitrary: i) (auto split: if_splits)
  with Some show ?thesis by (simp add: strip_query_def)
qed

lemma strip_query_result: "CHR ''?'' \<notin> set (strip_query p)"
  by (auto simp: strip_query_def index_byte_None dest: index_byte_Some split: option.splits)

lemma clean_path_no_query: "CHR ''?'' \<notin> set (clean_path p)"
proof -
  obtain n where "strip_query p = clean_path p @ replicate n (CHR ''/'')"
    using trim_right_decomp unfolding clean_path_def by blast
  with strip_query_result [of p] show ?thesis by (metis UnCI set_append)
qed

lemma clean_path_idem [simp]: "clean_path (clean_path p) = clean_path p"
  by (simp add: clean_path_def [of "clean_path p"] strip_query_no_query clean_path_no_query)
    (simp add: clean_path_def)

lemma clean_path_slash: "CHR ''?'' \<notin> set p \<Longrightarrow> clean_path (p @ replicate n (CHR ''/'')) = clean_path p"
  by (cases "n = 0") (simp_all add: clean_path_def strip_query_no_query)

lemma ClassifyKnown_cleaned: "clean_path p = clean_path q \<Longrightarrow> ClassifyKnown p = ClassifyKnown q"
  by (simp add: ClassifyKnown_def)

section \<open>No row is shadowed\<close>

text \<open>For evaluation the table is searched section by section, and the cheap comparison of
  segment counts goes first.\<close>

lemma ep_matches_code [code]:
  "ep_matches path n ep \<longleftrightarrow>
     n = ep_segments ep \<and> has_prefix path (ep_prefix ep)
     \<and> (ep_suffix ep = [] \<or> has_suffix path (''/'' @ ep_suffix ep))"
  by (auto simp: ep_matches_def)

lemma find_append: "find P (xs @ ys) = (case find P xs of None \<Rightarrow> find P ys | Some x \<Rightarrow> Some x)"
  by (induction xs) auto

lemma find_endpoint_code [code]:
  "find_endpoint path n =
     (case find (ep_matches path n) endpointPatterns_orders of Some ep \<Rightarrow> Some ep | None \<Rightarrow>
     (case find (ep_matches path n) endpointPatterns_documents of Some ep \<Rightarrow> Some ep | None \<Rightarrow>
     (case find (ep_matches path n) endpointPatterns_products of Some ep \<Rightarrow> Some ep | None \<Rightarrow>
     (case find (ep_matches path n) endpointPatterns_fba of Some ep \<Rightarrow> Some ep | None \<Rightarrow>
     (case find (ep_matches path n) endpointPatterns_shipping of Some ep \<Rightarrow> Some ep | None \<Rightarrow>
     (case find (ep_matches path n) endpointPatterns_events of Some ep \<Rightarrow> Some ep | None \<Rightarrow>
     (case find (ep_matches path n) endpointPatterns_content of Some ep \<Rightarrow> Some ep | None \<Rightarrow>
     (find (ep_matches path n) endpointPatterns_vendor))))))))"
  by (simp add: find_endpoint_def endpointPatterns_def find_append split: option.splits)

lemma patterns_self_orders:
  "\<forall>ep \<in> set endpointPatterns_orders. ClassifyKnown (ep_pattern ep) = (ep_pattern ep, True)"
  by code_simp

lemma patterns_self_documents:
  "\<forall>ep \<in> set endpointPatterns_documents. ClassifyKnown (ep_pattern ep) = (ep_pattern ep, True)"
  by code_simp

lemma patterns_self_products:
  "\<forall>ep \<in> set endpointPatterns_products. ClassifyKnown (ep_pattern ep) = (ep_pattern ep, True)"
  by code_simp

lemma patterns_self_fba:
  "\<forall>ep \<in> set endpointPatterns_fba. ClassifyKnown (ep_pattern ep) = (ep_pattern ep, True)"
  by code_simp

lemma patterns_self_shipping:
  "\<forall>ep \<in> set endpointPatterns_shipping. ClassifyKnown (ep_pattern ep) = (ep_pattern ep, True)"
  by code_simp

lemma patterns_self_events:
  "\<forall>ep \<in> set endpointPatterns_events. ClassifyKnown (ep_pattern ep) = (ep_pattern ep, True)"
  by code_simp

lemma patterns_self_content:
  "\<forall>ep \<in> set endpointPatterns_content. ClassifyKnown (ep_pattern ep) = (ep_pattern ep, True)"
  by code_simp

lemma patterns_self_vendor:
  "\<forall>ep \<in> set endpointPatterns_vendor. ClassifyKnown (ep_pattern ep) = (ep_pattern ep, True)"
  by code_simp

lemmas patterns_self = patterns_self_orders patterns_self_documents patterns_self_products patterns_self_fba patterns_self_shipping patterns_self_events patterns_self_content patterns_self_vendor

lemma ClassifyKnown_pattern:
  "ep \<in> set endpointPatterns \<Longrightarrow> ClassifyKnown (ep_pattern ep) = (ep_pattern ep, True)"
  unfolding endpointPatterns_def set_append using patterns_self by blast

lemma find_endpoint_in: "find_endpoint path n = Some ep \<Longrightarrow> ep \<in> set endpointPatterns"
  by (auto simp: find_endpoint_def find_Some_iff)

lemma ClassifyKnown_True:
  "ClassifyKnown p = (pat, True) \<Longrightarrow> ClassifyKnown pat = (pat, True)"
  by (auto simp: ClassifyKnown_def [of p] Let_def split: option.splits
      dest!: find_endpoint_in ClassifyKnown_pattern)

lemma ClassifyKnown_False:
  "ClassifyKnown p = (pat, False) \<Longrightarrow> pat = clean_path p \<and> ClassifyKnown pat = (pat, False)"
  by (auto simp: ClassifyKnown_def Let_def split: option.splits)

text \<open>Classification is idempotent, and so is the report of whether the path is known:
  a canonical pattern classifies to itself.\<close>

theorem ClassifyKnown_idem: "ClassifyKnown (Classify p) = ClassifyKnown p"
  unfolding Classify_def
  using ClassifyKnown_True [of p] ClassifyKnown_False [of p]
  by (metis (full_types) prod.collapse)

text \<open>Classification sees neither a query string nor trailing slashes.\<close>

theorem ClassifyKnown_normalises:
  assumes "CHR ''?'' \<notin> set p"
  shows "ClassifyKnown (p @ replicate n (CHR ''/'') @ CHR ''?'' # q) = ClassifyKnown p"
proof (rule ClassifyKnown_cleaned)
  have "clean_path (p @ replicate n (CHR ''/'') @ CHR ''?'' # q)
      = clean_path (p @ replicate n (CHR ''/''))"
    using strip_query_append [of "p @ replicate n (CHR ''/'')" q] by (simp add: clean_path_def)
  then show "clean_path (p @ replicate n (CHR ''/'') @ CHR ''?'' # q) = clean_path p"
    by (simp add: clean_path_slash assms)
qed

theorem ClassifyKnown_normalises_witness:
  "ClassifyKnown (''/orders/v0/orders/1'' @ replicate 2 (CHR ''/'') @ CHR ''?'' # ''a=b'')
     = (''/orders/v0/orders/{orderId}'', True)"
proof -
  have "ClassifyKnown (''/orders/v0/orders/1'' @ replicate 2 (CHR ''/'') @ CHR ''?'' # ''a=b'')
      = ClassifyKnown ''/orders/v0/orders/1''"
    by (rule ClassifyKnown_normalises) simp
  also have "\<dots> = (''/orders/v0/orders/{orderId}'', True)" by code_simp
  finally show ?thesis .
qed

end
