(* ===== verification/Http.thy ===== *)
theory Http
  imports GoLib
begin

text \<open>
  The part of \<^verbatim>\<open>net/http\<close> the middlewares use: headers, requests, response writers and
  handlers, and the merchant value that travels in the request context.

  \<^item> \<^verbatim>\<open>http.Header\<close> (a map from canonical names to value lists) is an association list with
    distinct keys; its order stands for whatever order a Go map iteration takes.
  \<^item> A \<^verbatim>\<open>ResponseWriter\<close> is the record \<open>rw\<close>: its header map, the codes passed to
    \<^verbatim>\<open>WriteHeader\<close> in call order, and the bytes written.
  \<^item> A handler is a function of the request, the writer and the state of the world. It
    returns the writer, the request's header map after the call (Go passes the map by
    reference, so a callee's \<^verbatim>\<open>r.Header.Set\<close> is seen by the caller) and the new world.
  \<^item> The world is a record that starts with the clock and that every component extends with
    its own state. \<^verbatim>\<open>time.Now()\<close> reads the clock; a handler further down the chain may move it.
\<close>

section \<open>Header maps\<close>

type_synonym header = "(string \<times> string list) list"

definition valid_header_byte :: "char \<Rightarrow> bool" where
  "valid_header_byte c \<longleftrightarrow>
     (let n = of_char c :: nat in
      (48 \<le> n \<and> n \<le> 57) \<or> (65 \<le> n \<and> n \<le> 90) \<or> (97 \<le> n \<and> n \<le> 122)
      \<or> n \<in> {33, 35, 36, 37, 38, 39, 42, 43, 45, 46, 94, 95, 96, 124, 126})"

fun canon_from :: "bool \<Rightarrow> string \<Rightarrow> string" where
  "canon_from up [] = []"
| "canon_from up (c # cs) =
     (if up then upper_char c else lower_char c) # canon_from (c = CHR ''-'') cs"

text \<open>\<^verbatim>\<open>textproto.CanonicalMIMEHeaderKey\<close>.\<close>

definition canonical_key :: "string \<Rightarrow> string" where
  "canonical_key k = (if list_all valid_header_byte k then canon_from True k else k)"

definition hdr_vals :: "header \<Rightarrow> string \<Rightarrow> string list" where
  "hdr_vals h k = (case map_of h (canonical_key k) of None \<Rightarrow> [] | Some vs \<Rightarrow> vs)"

definition hdr_get :: "header \<Rightarrow> string \<Rightarrow> string" where
  "hdr_get h k = (case hdr_vals h k of [] \<Rightarrow> [] | v # _ \<Rightarrow> v)"

fun hdr_put :: "header \<Rightarrow> string \<Rightarrow> string list \<Rightarrow> header" where
  "hdr_put [] k vs = [(k, vs)]"
| "hdr_put ((k', vs') # h) k vs =
     (if k' = k then (k, vs) # h else (k', vs') # hdr_put h k vs)"

definition hdr_set :: "header \<Rightarrow> string \<Rightarrow> string \<Rightarrow> header" where
  "hdr_set h k v = hdr_put h (canonical_key k) [v]"

definition hdr_add :: "header \<Rightarrow> string \<Rightarrow> string \<Rightarrow> header" where
  "hdr_add h k v = hdr_put h (canonical_key k) (hdr_vals h k @ [v])"

definition hdr_del :: "header \<Rightarrow> string \<Rightarrow> header" where
  "hdr_del h k = filter (\<lambda>(k', _). k' \<noteq> canonical_key k) h"

text \<open>\<^verbatim>\<open>for k, vals := range src { for _, v := range vals { dst.Add(k, v) } }\<close>\<close>

definition hdr_add_all :: "header \<Rightarrow> header \<Rightarrow> header" where
  "hdr_add_all dst src = fold (\<lambda>(k, vs) d. fold (\<lambda>v d. hdr_add d k v) vs d) src dst"

lemma lower_upper_char [simp]:
  "lower_char (lower_char c) = lower_char c" "upper_char (upper_char c) = upper_char c"
  "lower_char (upper_char c) = lower_char c" "upper_char (lower_char c) = upper_char c"
  by (auto simp: lower_char_def upper_char_def Let_def)

lemma map_of_hdr_put: "map_of (hdr_put h k vs) = (map_of h)(k \<mapsto> vs)"
  by (induction h k vs rule: hdr_put.induct) auto

lemma keys_hdr_put: "fst ` set (hdr_put h k vs) = insert k (fst ` set h)"
  by (induction h k vs rule: hdr_put.induct) auto

lemma distinct_hdr_put: "distinct (map fst h) \<Longrightarrow> distinct (map fst (hdr_put h k vs))"
  by (induction h k vs rule: hdr_put.induct) (auto simp: keys_hdr_put simp flip: image_image)

lemma hdr_vals_put [hdr_simps]:
  "hdr_vals (hdr_put h (canonical_key k) vs) j =
     (if canonical_key j = canonical_key k then vs else hdr_vals h j)"
  by (simp add: hdr_vals_def map_of_hdr_put)

lemma hdr_get_set [hdr_simps]:
  "hdr_get (hdr_set h k v) j = (if canonical_key j = canonical_key k then v else hdr_get h j)"
  by (simp add: hdr_get_def hdr_set_def hdr_vals_put)

lemma hdr_vals_set [hdr_simps]:
  "hdr_vals (hdr_set h k v) j =
     (if canonical_key j = canonical_key k then [v] else hdr_vals h j)"
  by (simp add: hdr_set_def hdr_vals_put)

lemma hdr_vals_add [hdr_simps]:
  "hdr_vals (hdr_add h k v) j =
     (if canonical_key j = canonical_key k then hdr_vals h j @ [v] else hdr_vals h j)"
  by (auto simp: hdr_add_def hdr_vals_put) (simp add: hdr_vals_def)

lemma map_of_filter_key:
  "map_of (filter (\<lambda>(k', _). k' \<noteq> k) h) j = (if j = k then None else map_of h j)"
  by (induction h) auto

lemma hdr_vals_del [hdr_simps]:
  "hdr_vals (hdr_del h k) j =
     (if canonical_key j = canonical_key k then [] else hdr_vals h j)"
  by (simp add: hdr_vals_def hdr_del_def map_of_filter_key)

lemma hdr_get_del [hdr_simps]:
  "hdr_get (hdr_del h k) j = (if canonical_key j = canonical_key k then [] else hdr_get h j)"
  by (simp add: hdr_get_def hdr_vals_del)

section \<open>Requests, response writers, handlers\<close>

record merchant =
  m_key :: string
  m_source :: string

text \<open>\<open>ctx_done\<close> says whether the request's own context is cancelled (the client is gone).\<close>

record request =
  r_method :: string
  r_path :: string
  r_query :: string
  r_header :: header
  r_body :: string
  r_length :: int
  ctx_merchant :: "merchant option"
  ctx_request_id :: string
  ctx_done :: bool

record rw =
  w_header :: header
  w_codes :: "nat list"
  w_body :: string

type_synonym 's handler = "request \<Rightarrow> rw \<Rightarrow> 's \<Rightarrow> rw \<times> header \<times> 's"

record world =
  now :: time

definition new_rw :: rw where
  "new_rw = \<lparr>w_header = [], w_codes = [], w_body = []\<rparr>"

definition w_set :: "rw \<Rightarrow> string \<Rightarrow> string \<Rightarrow> rw" where
  "w_set w k v = w\<lparr>w_header := hdr_set (w_header w) k v\<rparr>"

definition w_write_header :: "rw \<Rightarrow> nat \<Rightarrow> rw" where
  "w_write_header w code = w\<lparr>w_codes := w_codes w @ [code]\<rparr>"

definition w_write :: "rw \<Rightarrow> string \<Rightarrow> rw" where
  "w_write w b = w\<lparr>w_body := w_body w @ b\<rparr>"

text \<open>The status line the client sees: the first \<^verbatim>\<open>WriteHeader\<close> wins, 200 without one.\<close>

definition w_status :: "rw \<Rightarrow> nat" where
  "w_status w = (case w_codes w of [] \<Rightarrow> 200 | c # _ \<Rightarrow> c)"

text \<open>\<^verbatim>\<open>http.Error\<close>.\<close>

definition http_error :: "rw \<Rightarrow> string \<Rightarrow> nat \<Rightarrow> rw" where
  "http_error w msg code =
     w_write (w_write_header
        (w_set (w_set (w\<lparr>w_header := hdr_del (w_header w) ''Content-Length''\<rparr>)
           ''Content-Type'' ''text/plain; charset=utf-8'')
           ''X-Content-Type-Options'' ''nosniff'') code) (msg @ [CHR 0x0A])"

lemma w_fields [simp]:
  "w_header (w_set w k v) = hdr_set (w_header w) k v"
  "w_codes (w_set w k v) = w_codes w" "w_body (w_set w k v) = w_body w"
  "w_header (w_write_header w c) = w_header w"
  "w_codes (w_write_header w c) = w_codes w @ [c]"
  "w_body (w_write_header w c) = w_body w"
  "w_header (w_write w b) = w_header w" "w_codes (w_write w b) = w_codes w"
  "w_body (w_write w b) = w_body w @ b"
  by (simp_all add: w_set_def w_write_header_def w_write_def)

lemma http_error_codes [simp]: "w_codes (http_error w msg c) = w_codes w @ [c]"
  by (simp add: http_error_def)

lemma new_rw_fields [simp]: "w_header new_rw = []" "w_codes new_rw = []" "w_body new_rw = []"
  by (simp_all add: new_rw_def)

end
