(* ===== verification/Merchant.thy ===== *)
theory Merchant
  imports Http
begin

text \<open>
  Merchant resolution (\<^verbatim>\<open>internal/merchant\<close>): the three-step priority of \<^verbatim>\<open>Resolve\<close>, its
  strict variant, and the middleware that stores the result in the request context.
  SHA-256 is the parameter \<open>sha256\<close>: a function from bytes to the digest's bytes.
\<close>

record resolver =
  tokenMap :: "(string \<rightharpoonup> string) option"
  strict :: bool

definition NewResolver :: "(string \<rightharpoonup> string) option \<Rightarrow> resolver" where
  "NewResolver tm = \<lparr>tokenMap = tm, strict = False\<rparr>"

definition SetStrict :: "resolver \<Rightarrow> bool \<Rightarrow> resolver" where
  "SetStrict r v = r\<lparr>strict := v\<rparr>"

text \<open>\<^verbatim>\<open>hex.EncodeToString\<close>: two lower-case digits per byte.\<close>

definition hex_digit :: "nat \<Rightarrow> char" where
  "hex_digit n = char_of (if n < 10 then 48 + n else 87 + n)"

definition hex_encode :: "string \<Rightarrow> string" where
  "hex_encode s =
     concat (map (\<lambda>c. [hex_digit (of_char c div 16), hex_digit (of_char c mod 16)]) s)"

definition token_hash_merchant :: "(string \<Rightarrow> string) \<Rightarrow> string \<Rightarrow> merchant" where
  "token_hash_merchant sha256 token =
     \<lparr>m_key = ''tokenhash:'' @ hex_encode (take 16 (sha256 token)), m_source = ''token-hash''\<rparr>"

definition map_token :: "resolver \<Rightarrow> string \<Rightarrow> string option" where
  "map_token r token = (case tokenMap r of None \<Rightarrow> None | Some tm \<Rightarrow> tm token)"

definition Resolve :: "(string \<Rightarrow> string) \<Rightarrow> resolver \<Rightarrow> header \<Rightarrow> merchant" where
  "Resolve sha256 r h =
     (let ident = hdr_get h ''X-SP-Proxy-Merchant-Id'' in
      if ident \<noteq> [] then \<lparr>m_key = ident, m_source = ''header''\<rparr>
      else
        (let token = hdr_get h ''X-Amz-Access-Token'' in
         case map_token r token of
           Some mapped \<Rightarrow> \<lparr>m_key = mapped, m_source = ''config''\<rparr>
         | None \<Rightarrow> token_hash_merchant sha256 token))"

definition ResolveStrict :: "(string \<Rightarrow> string) \<Rightarrow> resolver \<Rightarrow> header \<Rightarrow> merchant option" where
  "ResolveStrict sha256 r h =
     (let ident = hdr_get h ''X-SP-Proxy-Merchant-Id'' in
      if ident \<noteq> [] then Some \<lparr>m_key = ident, m_source = ''header''\<rparr>
      else
        (let token = hdr_get h ''X-Amz-Access-Token'' in
         case map_token r token of
           Some mapped \<Rightarrow> Some \<lparr>m_key = mapped, m_source = ''config''\<rparr>
         | None \<Rightarrow>
             if token = [] then None
             else Some (token_hash_merchant sha256 token)))"

definition ContextWithMerchant :: "request \<Rightarrow> merchant \<Rightarrow> request" where
  "ContextWithMerchant r m = r\<lparr>ctx_merchant := Some m\<rparr>"

definition MerchantFromContext :: "request \<Rightarrow> merchant" where
  "MerchantFromContext r =
     (case ctx_merchant r of None \<Rightarrow> \<lparr>m_key = [], m_source = []\<rparr> | Some m \<Rightarrow> m)"

definition merchant_middleware ::
  "(string \<Rightarrow> string) \<Rightarrow> resolver \<Rightarrow> 's handler \<Rightarrow> 's handler" where
  "merchant_middleware sha256 rs nxt = (\<lambda>req w s.
     if strict rs then
       (case ResolveStrict sha256 rs (r_header req) of
          None \<Rightarrow>
            (http_error w
               ''merchant identity required: set X-SP-Proxy-Merchant-Id or X-Amz-Access-Token''
               400, r_header req, s)
        | Some m \<Rightarrow> nxt (ContextWithMerchant req m) w s)
     else nxt (ContextWithMerchant req (Resolve sha256 rs (r_header req))) w s)"

lemma ResolveStrict_Some:
  "ResolveStrict sha256 r h = Some m \<Longrightarrow> m = Resolve sha256 r h"
  by (auto simp: ResolveStrict_def Resolve_def Let_def split: if_splits option.splits)

lemma ResolveStrict_None:
  "ResolveStrict sha256 r h = None \<longleftrightarrow>
     hdr_get h ''X-SP-Proxy-Merchant-Id'' = [] \<and> hdr_get h ''X-Amz-Access-Token'' = []
     \<and> map_token r [] = None"
  by (auto simp: ResolveStrict_def Let_def split: if_splits option.splits)

lemma hex_digit_not_colon: "n < 16 \<Longrightarrow> hex_digit n \<noteq> CHR '':''"
proof
  assume n: "n < 16" and eq: "hex_digit n = CHR '':''"
  define k where "k = (if n < 10 then 48 + n else 87 + n)"
  have k: "k < 256" "k \<noteq> 58" using n by (auto simp: k_def)
  have "k mod 256 = of_char (hex_digit n)"
    unfolding hex_digit_def k_def by (rule of_char_of [symmetric])
  also have "\<dots> = 58" by (simp add: eq)
  finally show False using k by simp
qed

lemma hex_encode_no_colon: "CHR '':'' \<notin> set (hex_encode s)"
proof -
  have "hex_digit (of_char c div 16) \<noteq> CHR '':'' \<and> hex_digit (of_char c mod 16) \<noteq> CHR '':''" for c
  proof -
    have "(of_char c :: nat) < 256" by (rule nat_of_char_less_256)
    then have "(of_char c :: nat) div 16 < 16" by (simp add: div_less_iff_less_mult)
    then show ?thesis by (simp add: hex_digit_not_colon)
  qed
  note digits = this
  show ?thesis by (induction s) (simp_all add: hex_encode_def digits digits [THEN conjunct1, THEN not_sym]
      digits [THEN conjunct2, THEN not_sym])
qed

lemma hex_encode_length: "length (hex_encode s) = 2 * length s"
  by (induction s) (auto simp: hex_encode_def)

end
