(* ===== verification/CacheKeys.thy ===== *)
theory CacheKeys
  imports Merchant
begin

text \<open>
  Cache keys (\<^verbatim>\<open>internal/cache/keys.go\<close>) and the prefixes that a mutation invalidates
  (\<^verbatim>\<open>internal/cache/invalidation.go\<close>), with \<^verbatim>\<open>url.ParseQuery\<close> as the keys use it.

  Shown: the key does not depend on the order of query parameters; keys of merchants whose
  identifiers have no colon never coincide; the prefix deleted on a mutation covers every key
  of the mutated resource; and where two different requests do get one key.
\<close>

section \<open>url.ParseQuery\<close>

definition hex_val :: "char \<Rightarrow> nat option" where
  "hex_val c =
     (let n = (of_char c :: nat) in
      if 48 \<le> n \<and> n \<le> 57 then Some (n - 48)
      else if 97 \<le> n \<and> n \<le> 102 then Some (n - 87)
      else if 65 \<le> n \<and> n \<le> 70 then Some (n - 55)
      else None)"

text \<open>\<^verbatim>\<open>url.QueryUnescape\<close>; \<open>None\<close> is the error of a bad escape.\<close>

fun query_unescape :: "string \<Rightarrow> string option" where
  "query_unescape [] = Some []"
| "query_unescape (c # s) =
     (if c = CHR ''%'' then
        (case s of
           a # b # rest \<Rightarrow>
             (case (hex_val a, hex_val b) of
                (Some x, Some y) \<Rightarrow>
                  map_option (\<lambda>t. char_of (16 * x + y) # t) (query_unescape rest)
              | _ \<Rightarrow> None)
         | _ \<Rightarrow> None)
      else map_option (\<lambda>t. (if c = CHR ''+'' then CHR '' '' else c) # t) (query_unescape s))"

text \<open>One segment between ampersands: an error, nothing, or a pair.\<close>

datatype query_part = QErr | QSkip | QPair string string

definition parse_segment :: "string \<Rightarrow> query_part" where
  "parse_segment seg =
     (if CHR '';'' \<in> set seg then QErr
      else if seg = [] then QSkip
      else
        (let (k, v) = (case index_byte seg (CHR ''='') of
                         None \<Rightarrow> (seg, [])
                       | Some i \<Rightarrow> (take i seg, drop (Suc i) seg))
         in case query_unescape k of
              None \<Rightarrow> QErr
            | Some k' \<Rightarrow>
                (case query_unescape v of None \<Rightarrow> QErr | Some v' \<Rightarrow> QPair k' v')))"

text \<open>The pairs in order of appearance; \<open>None\<close> if \<^verbatim>\<open>ParseQuery\<close> reports an error.\<close>

definition parse_query :: "string \<Rightarrow> (string \<times> string) list option" where
  "parse_query query =
     (let parts = map parse_segment (split_on (CHR ''&'') query) in
      if QErr \<in> set parts then None
      else Some (concat (map (\<lambda>p. case p of QPair k v \<Rightarrow> [(k, v)] | _ \<Rightarrow> []) parts)))"

definition query_values :: "(string \<times> string) list \<Rightarrow> string \<Rightarrow> string list" where
  "query_values ps k = map snd (filter (\<lambda>(k', _). k' = k) ps)"

section \<open>Keys\<close>

definition sorted_parts :: "(string \<times> string) list \<Rightarrow> string list" where
  "sorted_parts params =
     concat (map (\<lambda>k. map (\<lambda>v. k @ ''='' @ v) (sort (query_values params k)))
       (sorted_list_of_set (fst ` set params)))"

definition SortQueryParams :: "string \<Rightarrow> string" where
  "SortQueryParams query =
     (if query = [] then []
      else case parse_query query of
        None \<Rightarrow> query
      | Some params \<Rightarrow> join ''&'' (sorted_parts params))"

definition GenerateCacheKey :: "string \<Rightarrow> string \<Rightarrow> string \<Rightarrow> string \<Rightarrow> string \<Rightarrow> string" where
  "GenerateCacheKey merchantKey method path query customSuffix =
     (let key = merchantKey @ '':'' @ method @ '':'' @ path;
          sorted_q = SortQueryParams query;
          key1 = (if sorted_q \<noteq> [] then key @ ''?'' @ sorted_q else key)
      in if customSuffix \<noteq> [] then key1 @ '':'' @ customSuffix else key1)"

section \<open>Prefixes to invalidate\<close>

definition ExtractResourcePrefix :: "string \<Rightarrow> string" where
  "ExtractResourcePrefix path0 =
     (let path = trim_right path0 (CHR ''/'');
          parts = split_on (CHR ''/'') path
      in if length parts \<le> 4 then path else join ''/'' (butlast parts))"

text \<open>\<^verbatim>\<open>invalidateBatchListingOffers\<close>: the prefix it deletes, if the path is that of a listing.\<close>

definition batch_listing_prefix :: "string \<Rightarrow> string \<Rightarrow> string option" where
  "batch_listing_prefix merchantKey path =
     (if \<not> has_prefix path ''/listings/'' then None
      else case index_of path ''/items/'' of
        None \<Rightarrow> None
      | Some idx \<Rightarrow>
          (case split_n2 (CHR ''/'') (drop (idx + length ''/items/'') path) of
             [_, rest] \<Rightarrow>
               (let sku = trim_right rest (CHR ''/'') in
                if sku = [] then None
                else Some (merchantKey @
                  '':BATCH:/batches/products/pricing/v0/listingOffers:listingOffers:'' @ sku @ '':''))
           | _ \<Rightarrow> None))"

text \<open>\<^verbatim>\<open>InvalidateOnMutation\<close> calls \<^verbatim>\<open>DeleteByPrefix\<close> for each of these prefixes, in this order.\<close>

definition mutation_prefixes :: "string \<Rightarrow> string \<Rightarrow> string \<Rightarrow> string list" where
  "mutation_prefixes merchantKey method path =
     (if method = ''GET'' then []
      else (merchantKey @ '':GET:'' @ ExtractResourcePrefix path) #
        (if method = ''PUT'' \<or> method = ''PATCH''
         then (case batch_listing_prefix merchantKey path of None \<Rightarrow> [] | Some p \<Rightarrow> [p])
         else []))"

section \<open>The order of query parameters\<close>

lemma sort_mset_eq: "mset xs = mset ys \<Longrightarrow> sort xs = sort (ys :: 'a::linorder list)"
  by (metis mset_sort properties_for_sort sorted_sort)

lemma query_values_mset: "mset (query_values ps k) = image_mset snd (filter_mset (\<lambda>p. fst p = k) (mset ps))"
  by (simp add: query_values_def case_prod_unfold)

lemma sorted_parts_mset: "mset ps = mset qs \<Longrightarrow> sorted_parts ps = sorted_parts qs"
proof -
  assume eq: "mset ps = mset qs"
  then have "fst ` set ps = fst ` set qs" by (metis set_mset_mset)
  moreover have "sort (query_values ps k) = sort (query_values qs k)" for k
    by (rule sort_mset_eq) (simp add: query_values_mset eq)
  ultimately show ?thesis by (simp add: sorted_parts_def)
qed

definition part_pairs :: "query_part \<Rightarrow> (string \<times> string) list" where
  "part_pairs p = (case p of QPair k v \<Rightarrow> [(k, v)] | _ \<Rightarrow> [])"

lemma mset_concat_map: "mset (concat (map f xs)) = sum_mset (image_mset (\<lambda>x. mset (f x)) (mset xs))"
  by (induction xs) auto

lemma parse_query_join:
  assumes "segs \<noteq> []" "\<forall>g \<in> set segs. CHR ''&'' \<notin> set g"
  shows "parse_query (join ''&'' segs) =
    (if QErr \<in> parse_segment ` set segs then None else Some (concat (map (part_pairs \<circ> parse_segment) segs)))"
proof -
  have "(\<lambda>p. case p of QPair k v \<Rightarrow> [(k, v)] | _ \<Rightarrow> []) = part_pairs"
    by (rule ext) (simp add: part_pairs_def split: query_part.splits)
  then show ?thesis
    by (simp add: parse_query_def split_on_join [OF assms] comp_def)
qed

lemma join_Nil_iff: "join ''&'' segs = [] \<longleftrightarrow> segs = [] \<or> segs = [[]]"
  by (induction "''&''" segs rule: join.induct) auto

lemma SortQueryParams_perm:
  assumes "mset segs = mset segs'" "\<forall>g \<in> set segs. CHR ''&'' \<notin> set g"
    and "parse_query (join ''&'' segs) \<noteq> None"
  shows "SortQueryParams (join ''&'' segs) = SortQueryParams (join ''&'' segs')"
proof (cases "segs = []")
  case True
  then show ?thesis using assms(1) by simp
next
  case False
  have sets: "set segs = set segs'" using assms(1) by (rule mset_eq_setD)
  have ne: "segs' \<noteq> []" using False assms(1) by auto
  have "segs = [[]] \<longleftrightarrow> segs' = [[]]"
    using assms(1) by (metis mset_single_iff_right mset_single_iff)
  then have nil: "join ''&'' segs = [] \<longleftrightarrow> join ''&'' segs' = []"
    using False ne by (simp add: join_Nil_iff)
  let ?f = "part_pairs \<circ> parse_segment"
  have "mset (concat (map ?f segs)) = mset (concat (map ?f segs'))"
    by (simp only: mset_concat_map assms(1))
  then have "sorted_parts (concat (map ?f segs)) = sorted_parts (concat (map ?f segs'))"
    by (rule sorted_parts_mset)
  then show ?thesis
    using assms(2,3) sets nil
    by (auto simp: SortQueryParams_def parse_query_join False ne split: if_splits)
qed

section \<open>Keys and merchants\<close>

text \<open>The part of a key after the merchant and the method.\<close>

definition key_rest :: "string \<Rightarrow> string \<Rightarrow> string \<Rightarrow> string" where
  "key_rest path query sfx =
     path @ (if SortQueryParams query \<noteq> [] then ''?'' @ SortQueryParams query else [])
       @ (if sfx \<noteq> [] then '':'' @ sfx else [])"

lemma GenerateCacheKey_rest:
  "GenerateCacheKey mk m p q sfx = mk @ '':'' @ m @ '':'' @ key_rest p q sfx"
  by (simp add: GenerateCacheKey_def key_rest_def Let_def)

text \<open>The keys \<^verbatim>\<open>Resolve\<close> gives: an identifier, or the hash of the token.\<close>

definition merchant_key_ok :: "string \<Rightarrow> bool" where
  "merchant_key_ok mk \<longleftrightarrow>
     CHR '':'' \<notin> set mk \<or> (\<exists>h. mk = ''tokenhash:'' @ h \<and> CHR '':'' \<notin> set h \<and> length h = 32)"

lemma keys_apart:
  assumes "merchant_key_ok mk" "merchant_key_ok mk'" "CHR '':'' \<notin> set m" "CHR '':'' \<notin> set m'"
    and "length m < 32" "length m' < 32"
    and "mk @ '':'' @ m @ '':'' @ x = mk' @ '':'' @ m' @ '':'' @ x'"
  shows "mk = mk' \<and> m = m' \<and> x = x'"
proof -
  have tok: "CHR '':'' \<notin> set ''tokenhash''" by simp
  have one: "n = n' \<and> y = y'"
    if "n @ '':'' @ y = n' @ '':'' @ y'" "CHR '':'' \<notin> set n" "CHR '':'' \<notin> set n'" for n n' y y'
    using that sep_left [of "CHR '':''" n n' y y'] by simp
  consider (plain) "CHR '':'' \<notin> set mk" "CHR '':'' \<notin> set mk'"
    | (left) h where "mk = ''tokenhash'' @ '':'' @ h" "CHR '':'' \<notin> set h" "length h = 32" "CHR '':'' \<notin> set mk'"
    | (right) h where "mk' = ''tokenhash'' @ '':'' @ h" "CHR '':'' \<notin> set h" "length h = 32" "CHR '':'' \<notin> set mk"
    | (both) h h' where "mk = ''tokenhash'' @ '':'' @ h" "mk' = ''tokenhash'' @ '':'' @ h'"
        "CHR '':'' \<notin> set h" "CHR '':'' \<notin> set h'"
    using assms(1,2) by (auto simp: merchant_key_ok_def)
  then show ?thesis
  proof cases
    case plain
    then show ?thesis using one [OF assms(7)] one [of m x m' x'] assms(3,4) by blast
  next
    case left
    then have "h @ '':'' @ m @ '':'' @ x = m' @ '':'' @ x'"
      using one [of "''tokenhash''" "h @ '':'' @ m @ '':'' @ x" mk' "m' @ '':'' @ x'"] assms(7) tok by simp
    then have "h = m'" using one [of h _ m' x'] left(2) assms(4) by blast
    then show ?thesis using left(3) assms(6) by simp
  next
    case right
    then have "h @ '':'' @ m' @ '':'' @ x' = m @ '':'' @ x"
      using one [of "''tokenhash''" "h @ '':'' @ m' @ '':'' @ x'" mk "m @ '':'' @ x"] assms(7) tok by simp
    then have "h = m" using one [of h _ m x] right(2) assms(3) by blast
    then show ?thesis using right(3) assms(5) by simp
  next
    case both
    then have "h @ '':'' @ m @ '':'' @ x = h' @ '':'' @ m' @ '':'' @ x'" using assms(7) by simp
    then have "h = h' \<and> m @ '':'' @ x = m' @ '':'' @ x'" using one both(3,4) by blast
    then show ?thesis using one [of m x m' x'] assms(3,4) both(1,2) by blast
  qed
qed

lemma Resolve_key_ok:
  assumes "tokenMap rs = None" "CHR '':'' \<notin> set (hdr_get h ''X-SP-Proxy-Merchant-Id'')"
    and "\<And>x. length (sha256 x) = 32"
  shows "merchant_key_ok (m_key (Resolve sha256 rs h))"
proof (cases "hdr_get h ''X-SP-Proxy-Merchant-Id'' = []")
  case True
  then show ?thesis
    using assms(1,3) by (simp add: Resolve_def map_token_def token_hash_merchant_def merchant_key_ok_def
        hex_encode_no_colon hex_encode_length)
next
  case False
  then show ?thesis using assms(2) by (simp add: Resolve_def merchant_key_ok_def)
qed

section \<open>Invalidation\<close>

lemma join_butlast_prefix: "has_prefix (join sep ps) (join sep (butlast ps))"
  by (induction sep ps rule: join.induct) (auto simp: has_prefix_iff neq_Nil_conv split: if_splits)

lemma trim_right_prefix: "has_prefix s (trim_right s c)"
  using trim_right_decomp [of s c] unfolding has_prefix_iff by blast

lemma ExtractResourcePrefix_prefix: "has_prefix path (ExtractResourcePrefix path)"
proof -
  let ?p = "trim_right path (CHR ''/'')"
  have "has_prefix ?p (join ''/'' (butlast (split_on (CHR ''/'') ?p)))"
    using join_butlast_prefix [of "''/''" "split_on (CHR ''/'') ?p"] by (simp add: join_split_on)
  then show ?thesis
    using has_prefix_trans [OF trim_right_prefix] trim_right_prefix
    by (auto simp: ExtractResourcePrefix_def Let_def)
qed

section \<open>Properties\<close>

text \<open>The cache key does not depend on the order in which the query parameters are written:
  for every query that parses, all permutations of its parameters share one key.\<close>

theorem cache_key_param_order:
  assumes "mset segs = mset segs'" "\<forall>g \<in> set segs. CHR ''&'' \<notin> set g"
    and "parse_query (join ''&'' segs) \<noteq> None"
  shows "GenerateCacheKey mk m path (join ''&'' segs) sfx = GenerateCacheKey mk m path (join ''&'' segs') sfx"
  using SortQueryParams_perm [OF assms] by (simp add: GenerateCacheKey_rest key_rest_def)

theorem cache_key_param_order_witness:
  "GenerateCacheKey ''A'' ''GET'' ''/p'' ''b=2&a=1&a=0'' [] = GenerateCacheKey ''A'' ''GET'' ''/p'' ''a=1&a=0&b=2'' []
   \<and> GenerateCacheKey ''A'' ''GET'' ''/p'' ''b=2&a=1&a=0'' [] = ''A:GET:/p?a=0&a=1&b=2''"
proof
  show "GenerateCacheKey ''A'' ''GET'' ''/p'' ''b=2&a=1&a=0'' [] = ''A:GET:/p?a=0&a=1&b=2''"
    by code_simp
  have "parse_query (join ''&'' [''b=2'', ''a=1'', ''a=0'']) \<noteq> None" by code_simp
  then show "GenerateCacheKey ''A'' ''GET'' ''/p'' ''b=2&a=1&a=0'' [] = GenerateCacheKey ''A'' ''GET'' ''/p'' ''a=1&a=0&b=2'' []"
    using cache_key_param_order [of "[''b=2'', ''a=1'', ''a=0'']" "[''a=1'', ''a=0'', ''b=2'']"] by simp
qed

text \<open>C25: two merchants never share a cache key. If neither request names its merchant by an
  identifier with a colon, equal keys come from the same merchant, the same method and the
  same path, query and suffix part; hashes of tokens count as merchants here.\<close>

theorem cache_keys_of_merchants_apart:
  assumes "tokenMap rs = None" "\<And>x. length (sha256 x) = 32"
    and "CHR '':'' \<notin> set (hdr_get h ''X-SP-Proxy-Merchant-Id'')"
    and "CHR '':'' \<notin> set (hdr_get h' ''X-SP-Proxy-Merchant-Id'')"
    and "m \<in> {''GET'', ''POST''}" "m' \<in> {''GET'', ''POST''}"
    and "GenerateCacheKey (m_key (Resolve sha256 rs h)) m p q sfx
       = GenerateCacheKey (m_key (Resolve sha256 rs h')) m' p' q' sfx'"
  shows "m_key (Resolve sha256 rs h) = m_key (Resolve sha256 rs h') \<and> m = m'
    \<and> key_rest p q sfx = key_rest p' q' sfx'"
  by (rule keys_apart) (use assms Resolve_key_ok in \<open>auto simp: GenerateCacheKey_rest\<close>)

theorem cache_keys_of_merchants_apart_witness:
  "GenerateCacheKey (m_key (Resolve (\<lambda>_. replicate 32 (CHR ''x'')) (NewResolver None)
        [(''X-Sp-Proxy-Merchant-Id'', [''A''])])) ''GET'' ''/p'' [] []
   \<noteq> GenerateCacheKey (m_key (Resolve (\<lambda>_. replicate 32 (CHR ''x'')) (NewResolver None)
        [(''X-Amz-Access-Token'', [''t''])])) ''GET'' ''/p'' [] []"
proof
  let ?sha = "\<lambda>_. replicate 32 (CHR ''x'')"
  let ?h = "[(''X-Sp-Proxy-Merchant-Id'', [''A''])]" and ?h' = "[(''X-Amz-Access-Token'', [''t''])]"
  assume eq: "GenerateCacheKey (m_key (Resolve ?sha (NewResolver None) ?h)) ''GET'' ''/p'' [] []
    = GenerateCacheKey (m_key (Resolve ?sha (NewResolver None) ?h')) ''GET'' ''/p'' [] []"
  have nc: "CHR '':'' \<notin> set (hdr_get ?h ''X-SP-Proxy-Merchant-Id'')"
    "CHR '':'' \<notin> set (hdr_get ?h' ''X-SP-Proxy-Merchant-Id'')" by code_simp+
  have map: "tokenMap (NewResolver None) = None" by (simp add: NewResolver_def)
  have "m_key (Resolve ?sha (NewResolver None) ?h) = m_key (Resolve ?sha (NewResolver None) ?h')"
    by (rule cache_keys_of_merchants_apart [OF map _ nc _ _ eq, THEN conjunct1])
      (rule length_replicate insertI1)+
  moreover have "hdr_get ?h' ''X-SP-Proxy-Merchant-Id'' = []" "hdr_get ?h ''X-SP-Proxy-Merchant-Id'' = ''A''"
    by code_simp+
  ultimately show False
    by (simp add: Resolve_def NewResolver_def map_token_def token_hash_merchant_def)
qed

text \<open>A mutation invalidates what it may have changed: the first prefix deleted on a method
  other than GET covers the key of a GET on the same path for every query and suffix, and the
  resource collection above it.\<close>

theorem mutation_covers_resource:
  assumes "method \<noteq> ''GET''"
  shows "has_prefix (GenerateCacheKey mk ''GET'' path query sfx) (hd (mutation_prefixes mk method path))
    \<and> has_prefix (GenerateCacheKey mk ''GET'' (ExtractResourcePrefix path) query sfx)
        (hd (mutation_prefixes mk method path))"
proof -
  let ?e = "ExtractResourcePrefix path"
  have hd: "hd (mutation_prefixes mk method path) = mk @ '':GET:'' @ ?e"
    using assms by (simp add: mutation_prefixes_def)
  have rest: "has_prefix (key_rest p query sfx) p" for p by (simp add: key_rest_def)
  have "has_prefix (key_rest path query sfx) ?e" "has_prefix (key_rest ?e query sfx) ?e"
    using has_prefix_trans [OF rest ExtractResourcePrefix_prefix] rest by blast+
  then show ?thesis unfolding hd GenerateCacheKey_rest by simp
qed

theorem mutation_covers_resource_witness:
  "has_prefix (GenerateCacheKey ''A'' ''GET'' ''/listings/2021-08-01/items/S/SKU'' ''x=1'' [])
     ''A:GET:/listings/2021-08-01/items/S''"
proof -
  have "hd (mutation_prefixes ''A'' ''PUT'' ''/listings/2021-08-01/items/S/SKU'')
      = ''A:GET:/listings/2021-08-01/items/S''" by code_simp
  then show ?thesis
    using mutation_covers_resource [of "''PUT''" "''A''" "''/listings/2021-08-01/items/S/SKU''" "''x=1''" "[]"]
    by simp
qed

text \<open>Three ways in which different requests get one key. Parameters are joined again without
  escaping, so an escaped ampersand is taken for a separator; the custom suffix and the query
  are not kept apart; and with a colon in an identifier one merchant's key is another's.\<close>

theorem cache_key_collisions:
  "GenerateCacheKey mk m p ''a=1%26b%3D2'' sfx = GenerateCacheKey mk m p ''a=1&b=2'' sfx
   \<and> GenerateCacheKey mk m p ''a=1'' ''x'' = GenerateCacheKey mk m p ''a=1:x'' []
   \<and> GenerateCacheKey ''A:GET:/q'' ''GET'' ''/p'' q sfx = GenerateCacheKey ''A'' ''GET'' ''/q:GET:/p'' q sfx"
proof -
  have s: "SortQueryParams ''a=1%26b%3D2'' = ''a=1&b=2''" "SortQueryParams ''a=1&b=2'' = ''a=1&b=2''"
    "SortQueryParams ''a=1'' = ''a=1''" "SortQueryParams ''a=1:x'' = ''a=1:x''"
    by code_simp+
  show ?thesis by (simp add: GenerateCacheKey_rest key_rest_def s)
qed

end
