(* ===== verification/PiiWalk.thy ===== *)
theory PiiWalk
  imports GoLib
begin

text \<open>
  The JSON walker of the redaction engine (\<^verbatim>\<open>internal/pii/jsonpath.go\<close>). Decoded JSON is a tree
  without sharing, so the walker, which edits maps in place, is a function that returns the
  edited tree with the flag the code returns.

  The specification \<open>select\<close> lists the values a path reaches. Shown: a walk reports a match
  exactly if the path reaches something; what the path reaches afterwards is what the edit
  left there; and a later walk along another path never brings an edited value back.
\<close>

section \<open>JSON values\<close>

text \<open>A decoded value. An object is a list of its fields; \<open>json_wf\<close> says that no key is repeated,
  as in a Go map. A number is its literal.\<close>

datatype json =
    JNull
  | JBool bool
  | JNum string
  | JStr string
  | JArr "json list"
  | JObj "(string \<times> json) list"

fun json_wf :: "json \<Rightarrow> bool" where
  "json_wf (JArr xs) = list_all json_wf xs"
| "json_wf (JObj fs) = (distinct (map fst fs) \<and> list_all (\<lambda>(_, v). json_wf v) fs)"
| "json_wf _ = True"

text \<open>Assignment to and deletion of a field of a map.\<close>

fun obj_set :: "(string \<times> json) list \<Rightarrow> string \<Rightarrow> json \<Rightarrow> (string \<times> json) list" where
  "obj_set [] k v = [(k, v)]"
| "obj_set ((k', v') # fs) k v = (if k' = k then (k, v) # fs else (k', v') # obj_set fs k v)"

definition obj_del :: "(string \<times> json) list \<Rightarrow> string \<Rightarrow> (string \<times> json) list" where
  "obj_del fs k = filter (\<lambda>(k', _). k' \<noteq> k) fs"

section \<open>Paths\<close>

text \<open>\<^verbatim>\<open>strconv.Atoi\<close> for a 64-bit \<^verbatim>\<open>int\<close>.\<close>

definition atoi :: "string \<Rightarrow> int option" where
  "atoi s =
     (let neg = (s \<noteq> [] \<and> hd s = CHR ''-'');
          ds = (if s \<noteq> [] \<and> (hd s = CHR ''-'' \<or> hd s = CHR ''+'') then tl s else s);
          n = (if neg then - int (digits_val ds) else int (digits_val ds))
      in if ds = [] \<or> \<not> list_all is_digit ds then None
         else if n < - (2 ^ 63) \<or> 2 ^ 63 \<le> n then None
         else Some n)"

definition part_segments :: "string \<Rightarrow> string list" where
  "part_segments part =
     (if part = [] then []
      else case index_byte part (CHR ''['') of
        Some idx \<Rightarrow> (if take idx part \<noteq> [] then [take idx part] else []) @ [drop idx part]
      | None \<Rightarrow> [part])"

definition parsePath :: "string \<Rightarrow> string list" where
  "parsePath path0 =
     (let path = (if has_prefix path0 ''$.'' then drop 2 path0
                  else if has_prefix path0 ''$'' then drop 1 path0
                  else path0)
      in if path = [] then [] else concat (map part_segments (split_on (CHR ''.'') path)))"

definition is_bracket :: "string \<Rightarrow> bool" where
  "is_bracket seg \<longleftrightarrow> has_prefix seg ''['' \<and> has_suffix seg '']''"

text \<open>The index in \<^verbatim>\<open>[N]\<close> if it lies in an array of length \<open>len\<close>.\<close>

definition bracket_index :: "string \<Rightarrow> nat \<Rightarrow> nat option" where
  "bracket_index seg len =
     (case atoi (butlast (tl seg)) of
        None \<Rightarrow> None
      | Some n \<Rightarrow> if n < 0 \<or> int len \<le> n then None else Some (nat n))"

section \<open>The walk\<close>

text \<open>\<open>fn\<close> edits the fields of the parent object, given the key; every caller returns true.\<close>

type_synonym edit = "(string \<times> json) list \<Rightarrow> string \<Rightarrow> (string \<times> json) list"

fun walkSegments :: "string list \<Rightarrow> edit \<Rightarrow> json \<Rightarrow> bool \<times> json" where
  "walkSegments [] fn data = (False, data)"
| "walkSegments (seg # rest) fn data =
     (if is_bracket seg then
        (case data of
           JArr arr \<Rightarrow>
             if seg = ''[*]'' then
               (let rs = map (walkSegments rest fn) arr in
                (list_ex fst rs, JArr (map snd rs)))
             else (case bracket_index seg (length arr) of
                 None \<Rightarrow> (False, data)
               | Some n \<Rightarrow>
                   (case walkSegments rest fn (arr ! n) of
                      (found, v) \<Rightarrow> (found, JArr (arr[n := v]))))
         | _ \<Rightarrow> (False, data))
      else
        (case data of
           JObj obj \<Rightarrow>
             (case map_of obj seg of
                None \<Rightarrow> (False, data)
              | Some child \<Rightarrow>
                  if rest = [] then (True, JObj (fn obj seg))
                  else (case walkSegments rest fn child of
                      (found, v) \<Rightarrow> (found, JObj (obj_set obj seg v))))
         | _ \<Rightarrow> (False, data)))"

definition WalkAndApply :: "json \<Rightarrow> string \<Rightarrow> edit \<Rightarrow> bool \<times> json" where
  "WalkAndApply data path fn = walkSegments (parsePath path) fn data"

section \<open>What a path reaches\<close>

fun select :: "string list \<Rightarrow> json \<Rightarrow> json list" where
  "select [] v = [v]"
| "select (seg # rest) v =
     (if is_bracket seg then
        (case v of
           JArr arr \<Rightarrow>
             if seg = ''[*]'' then concat (map (select rest) arr)
             else (case bracket_index seg (length arr) of
                 None \<Rightarrow> [] | Some n \<Rightarrow> select rest (arr ! n))
         | _ \<Rightarrow> [])
      else
        (case v of
           JObj obj \<Rightarrow> (case map_of obj seg of None \<Rightarrow> [] | Some child \<Rightarrow> select rest child)
         | _ \<Rightarrow> []))"

text \<open>A path the walker can act on ends in a field.\<close>

definition path_ok :: "string list \<Rightarrow> bool" where
  "path_ok segs \<longleftrightarrow> segs \<noteq> [] \<and> \<not> is_bracket (last segs)"

lemma map_of_obj_set: "map_of (obj_set fs k v) j = (if j = k then Some v else map_of fs j)"
  by (induction fs k v rule: obj_set.induct) auto

lemma map_of_obj_del: "map_of (obj_del fs k) j = (if j = k then None else map_of fs j)"
  by (induction fs) (auto simp: obj_del_def)

lemma bracket_index_less: "bracket_index seg n = Some i \<Longrightarrow> i < n"
  by (auto simp: bracket_index_def split: option.splits if_splits)

lemma path_ok_Cons: "path_ok (seg # rest) \<longleftrightarrow> (if rest = [] then \<not> is_bracket seg else path_ok rest)"
  by (simp add: path_ok_def)

text \<open>The four ways one segment can meet a value.\<close>

lemma segment_cases:
  obtains (stuck) "\<And>rest fn. walkSegments (seg # rest) fn v = (False, v)" "\<And>rest. select (seg # rest) v = []"
  | (star) arr where "v = JArr arr" "is_bracket seg" "seg = ''[*]''"
  | (index) arr n where "v = JArr arr" "is_bracket seg" "seg \<noteq> ''[*]''"
      "bracket_index seg (length arr) = Some n" "n < length arr"
  | (field) obj child where "v = JObj obj" "\<not> is_bracket seg" "map_of obj seg = Some child"
proof -
  consider "is_bracket seg" "\<exists>arr. v = JArr arr" | "\<not> is_bracket seg" "\<exists>obj. v = JObj obj"
    | "\<And>rest fn. walkSegments (seg # rest) fn v = (False, v)" "\<And>rest. select (seg # rest) v = []"
    by (cases v; cases "is_bracket seg") auto
  then show thesis
  proof cases
    case 1
    then obtain arr where arr: "v = JArr arr" by blast
    show thesis
    proof (cases "seg = ''[*]''")
      case True
      with 1 arr star show thesis by blast
    next
      case False
      with 1 arr index bracket_index_less stuck show thesis
        by (cases "bracket_index seg (length arr)") auto
    qed
  next
    case 2
    then obtain obj where "v = JObj obj" by blast
    with 2 field stuck show thesis by (cases "map_of obj seg") auto
  qed (use stuck in blast)
qed

lemma walk_star: "is_bracket ''[*]''"
  by (simp add: is_bracket_def has_suffix_def)

lemma walk_steps:
  "walkSegments (''[*]'' # rest) fn (JArr arr) =
     (list_ex (\<lambda>x. fst (walkSegments rest fn x)) arr, JArr (map (\<lambda>x. snd (walkSegments rest fn x)) arr))"
  "is_bracket seg \<Longrightarrow> seg \<noteq> ''[*]'' \<Longrightarrow> bracket_index seg (length arr) = Some n \<Longrightarrow>
   walkSegments (seg # rest) fn (JArr arr) =
     (fst (walkSegments rest fn (arr ! n)), JArr (arr[n := snd (walkSegments rest fn (arr ! n))]))"
  "\<not> is_bracket seg \<Longrightarrow> map_of obj seg = Some child \<Longrightarrow> rest \<noteq> [] \<Longrightarrow>
   walkSegments (seg # rest) fn (JObj obj) =
     (fst (walkSegments rest fn child), JObj (obj_set obj seg (snd (walkSegments rest fn child))))"
  "\<not> is_bracket seg \<Longrightarrow> map_of obj seg = Some child \<Longrightarrow>
   walkSegments [seg] fn (JObj obj) = (True, JObj (fn obj seg))"
  by (simp_all add: walk_star Let_def list_ex_iff comp_def split: prod.splits)

lemma select_steps:
  "select (''[*]'' # rest) (JArr arr) = concat (map (select rest) arr)"
  "is_bracket seg \<Longrightarrow> seg \<noteq> ''[*]'' \<Longrightarrow> bracket_index seg (length arr) = Some n \<Longrightarrow>
   select (seg # rest) (JArr arr) = select rest (arr ! n)"
  "\<not> is_bracket seg \<Longrightarrow> map_of obj seg = Some child \<Longrightarrow>
   select (seg # rest) (JObj obj) = select rest child"
  "\<not> is_bracket seg \<Longrightarrow> map_of obj seg = None \<Longrightarrow> select (seg # rest) (JObj obj) = []"
  by (simp_all add: walk_star)

declare walkSegments.simps(2) [simp del] select.simps(2) [simp del]

lemma walk_found: "path_ok p \<Longrightarrow> fst (walkSegments p fn v) \<longleftrightarrow> select p v \<noteq> []"
proof (induction p arbitrary: v)
  case (Cons seg rest)
  have ok: "rest \<noteq> [] \<Longrightarrow> path_ok rest" and last: "rest = [] \<Longrightarrow> \<not> is_bracket seg"
    using Cons.prems by (auto simp: path_ok_Cons split: if_splits)
  show ?case
  proof (cases rule: segment_cases [of seg v])
    case (star arr)
    then show ?thesis using last Cons.IH ok by (auto simp: walk_steps select_steps list_ex_iff walk_star)
  next
    case (index arr n)
    then show ?thesis using last Cons.IH ok by (auto simp: walk_steps select_steps)
  next
    case (field obj child)
    then show ?thesis using Cons.IH ok by (cases "rest = []") (auto simp: walk_steps select_steps)
  qed simp
qed (simp add: path_ok_def)

section \<open>What an edit leaves behind\<close>

text \<open>The edits of the engine: they touch one field, and leave there nothing or a good value.\<close>

definition edit_ok :: "(json \<Rightarrow> bool) \<Rightarrow> edit \<Rightarrow> bool" where
  "edit_ok P fn \<longleftrightarrow>
     (\<forall>obj k. map_of obj k \<noteq> None \<longrightarrow>
        (\<forall>x. map_of (fn obj k) k = Some x \<longrightarrow> P x) \<and> (\<forall>j. j \<noteq> k \<longrightarrow> map_of (fn obj k) j = map_of obj j))"

lemma edit_okD:
  assumes "edit_ok P fn" "map_of obj k = Some c"
  shows "map_of (fn obj k) k = Some x \<Longrightarrow> P x" "j \<noteq> k \<Longrightarrow> map_of (fn obj k) j = map_of obj j"
  using assms by (auto simp: edit_ok_def)

lemma select_field_in:
  "\<not> is_bracket seg \<Longrightarrow> x \<in> set (select (seg # rest) (JObj obj)) \<Longrightarrow>
   \<exists>c. map_of obj seg = Some c \<and> x \<in> set (select rest c)"
  by (cases "map_of obj seg") (auto simp: select_steps)

lemma walk_edited:
  assumes "edit_ok P fn"
  shows "path_ok p \<Longrightarrow> x \<in> set (select p (snd (walkSegments p fn v))) \<Longrightarrow> P x"
proof (induction p arbitrary: v x)
  case (Cons seg rest)
  have ok: "rest \<noteq> [] \<Longrightarrow> path_ok rest" and last: "rest = [] \<Longrightarrow> \<not> is_bracket seg"
    using Cons.prems(1) by (auto simp: path_ok_Cons split: if_splits)
  show ?case
  proof (cases rule: segment_cases [of seg v])
    case stuck
    then show ?thesis using Cons.prems(2) by simp
  next
    case (star arr)
    then show ?thesis using Cons.prems(2) Cons.IH ok last by (auto simp: walk_steps select_steps walk_star)
  next
    case (index arr n)
    then show ?thesis using Cons.prems(2) Cons.IH ok last by (auto simp: walk_steps select_steps)
  next
    case (field obj child)
    show ?thesis
    proof (cases "rest = []")
      case True
      with Cons.prems(2) field obtain c where "map_of (fn obj seg) seg = Some c" "x = c"
        by (auto simp: walk_steps dest: select_field_in)
      then show ?thesis using edit_okD(1) [OF assms field(3)] by simp
    next
      case False
      with Cons.prems(2) field have "x \<in> set (select rest (snd (walkSegments rest fn child)))"
        by (auto simp: walk_steps map_of_obj_set dest: select_field_in)
      then show ?thesis using Cons.IH ok False by blast
    qed
  qed
qed (simp add: path_ok_def)

lemma walk_string [simp]: "walkSegments p fn (JStr t) = (False, JStr t)"
  by (cases p) (simp_all add: walkSegments.simps(2))

lemma select_string: "x \<in> set (select q (JStr t)) \<Longrightarrow> x = JStr t"
  by (cases q) (simp_all add: select.simps(2) split: if_splits)

text \<open>One step of a walk changes an array elementwise and an object at one field.\<close>

lemma walk_array:
  "\<exists>arr'. snd (walkSegments p fn (JArr arr)) = JArr arr' \<and> length arr' = length arr
     \<and> (\<forall>i < length arr. arr' ! i = arr ! i \<or> (\<exists>p'. arr' ! i = snd (walkSegments p' fn (arr ! i))))"
proof (cases p)
  case (Cons seg rest)
  show ?thesis
  proof (cases rule: segment_cases [of seg "JArr arr"])
    case (star arr')
    then show ?thesis by (auto simp: Cons walk_steps walk_star)
  next
    case (index arr' n)
    then show ?thesis by (auto simp: Cons walk_steps nth_list_update)
  qed (auto simp: Cons)
qed simp

lemma walk_object:
  assumes "edit_ok P fn"
  shows "\<exists>obj'. snd (walkSegments p fn (JObj obj)) = JObj obj'
     \<and> (\<forall>k c'. map_of obj' k = Some c' \<longrightarrow>
          P c' \<or> (\<exists>c p'. map_of obj k = Some c \<and> c' = snd (walkSegments p' fn c)))"
proof -
  have same: "c = snd (walkSegments [] fn c)" for c by simp
  show ?thesis
  proof (cases p)
    case (Cons seg rest)
    show ?thesis
    proof (cases rule: segment_cases [of seg "JObj obj"])
      case stuck
      then show ?thesis using same unfolding Cons by (metis json.inject(5) snd_conv)
    next
      case (field obj' child)
      then have m: "map_of obj seg = Some child" "\<not> is_bracket seg" by simp_all
      show ?thesis
      proof (cases "rest = []")
        case True
        have "P c' \<or> (\<exists>c p'. map_of obj k = Some c \<and> c' = snd (walkSegments p' fn c))"
          if "map_of (fn obj seg) k = Some c'" for k c'
          using that edit_okD [OF assms m(1)] same by (cases "k = seg") metis+
        then show ?thesis using True m by (auto simp: Cons walk_steps)
      next
        case False
        have "\<exists>c p'. map_of obj k = Some c \<and> c' = snd (walkSegments p' fn c)"
          if "map_of (obj_set obj seg (snd (walkSegments rest fn child))) k = Some c'" for k c'
          using that m(1) same unfolding map_of_obj_set by (metis option.inject)
        then show ?thesis using False m by (auto simp: Cons walk_steps)
      qed
    qed auto
  next
    case Nil
    then show ?thesis using same by (metis snd_conv walkSegments.simps(1))
  qed
qed

text \<open>A walk never brings back what another path already found edited.\<close>

lemma walk_keeps:
  assumes "edit_ok P fn" and str: "\<And>x. P x \<Longrightarrow> \<exists>t. x = JStr t"
  shows "(\<And>x. x \<in> set (select q v) \<Longrightarrow> P x) \<Longrightarrow> x \<in> set (select q (snd (walkSegments p fn v))) \<Longrightarrow> P x"
proof (induction q arbitrary: v p x)
  case Nil
  then have "P v" by simp
  with str obtain t where "v = JStr t" by blast
  with Nil \<open>P v\<close> show ?case by simp
next
  case (Cons seg q)
  show ?case
  proof (cases v)
    case (JArr arr)
    obtain arr' where arr': "snd (walkSegments p fn v) = JArr arr'" "length arr' = length arr"
      "\<And>i. i < length arr \<Longrightarrow> arr' ! i = arr ! i \<or> (\<exists>p'. arr' ! i = snd (walkSegments p' fn (arr ! i)))"
      using walk_array [of p fn arr] JArr by auto
    have elem: "P y" if i: "i < length arr" and sub: "set (select q (arr ! i)) \<subseteq> set (select (seg # q) v)"
        and y: "y \<in> set (select q (arr' ! i))" for i y
    proof -
      have old: "\<And>z. z \<in> set (select q (arr ! i)) \<Longrightarrow> P z" using Cons.prems(1) sub by blast
      from arr'(3) [OF i] show ?thesis using Cons.IH [OF old] old y by metis
    qed
    show ?thesis
    proof (cases rule: segment_cases [of seg "JArr arr'"])
      case stuck
      then show ?thesis using Cons.prems(2) arr'(1) by simp
    next
      case (star arr'')
      then have "\<exists>y \<in> set arr'. x \<in> set (select q y)"
        using Cons.prems(2) arr'(1) by (simp add: select_steps)
      then obtain i where "i < length arr" "x \<in> set (select q (arr' ! i))"
        using arr'(2) by (metis in_set_conv_nth)
      then show ?thesis using elem [of i x] star JArr by (force simp: select_steps)
    next
      case (index arr'' n)
      then show ?thesis
        using elem [of n x] Cons.prems(2) arr'(1,2) JArr by (auto simp: select_steps)
    qed simp
  next
    case (JObj obj)
    obtain obj' where obj': "snd (walkSegments p fn v) = JObj obj'"
      "\<And>k c'. map_of obj' k = Some c' \<Longrightarrow>
          P c' \<or> (\<exists>c p'. map_of obj k = Some c \<and> c' = snd (walkSegments p' fn c))"
      using walk_object [OF assms(1), of p obj] JObj by auto
    show ?thesis
    proof (cases rule: segment_cases [of seg "JObj obj'"])
      case stuck
      then show ?thesis using Cons.prems(2) obj'(1) by simp
    next
      case (field obj'' c')
      then have c': "map_of obj' seg = Some c'" "\<not> is_bracket seg" by simp_all
      then have x: "x \<in> set (select q c')" using Cons.prems(2) obj'(1) by (simp add: select_steps)
      show ?thesis
      proof (cases "P c'")
        case True
        then show ?thesis using str [OF True] x select_string by blast
      next
        case False
        then obtain c p' where c: "map_of obj seg = Some c" "c' = snd (walkSegments p' fn c)"
          using obj'(2) [OF c'(1)] by blast
        then have "\<And>y. y \<in> set (select q c) \<Longrightarrow> P y"
          using Cons.prems(1) c'(2) JObj by (simp add: select_steps)
        then show ?thesis using Cons.IH x c(2) by blast
      qed
    qed simp_all
  qed (use Cons.prems in \<open>cases p; simp add: walkSegments.simps(2) split: if_splits\<close>)+
qed

text \<open>A walk that finds nothing changes nothing.\<close>

lemma obj_set_same: "map_of fs k = Some v \<Longrightarrow> obj_set fs k v = fs"
  by (induction fs k v rule: obj_set.induct) (auto split: if_splits)

lemma walk_unfound: "\<not> fst (walkSegments p fn v) \<Longrightarrow> snd (walkSegments p fn v) = v"
proof (induction p arbitrary: v)
  case (Cons seg rest)
  show ?case
  proof (cases rule: segment_cases [of seg v])
    case (star arr)
    then have "\<forall>x \<in> set arr. snd (walkSegments rest fn x) = x"
      using Cons by (auto simp: walk_steps list_ex_iff)
    then show ?thesis by (simp add: star walk_steps map_idI)
  next
    case (index arr n)
    then show ?thesis using Cons by (simp add: walk_steps)
  next
    case (field obj child)
    then show ?thesis using Cons by (cases "rest = []") (simp_all add: walk_steps obj_set_same)
  qed simp
qed simp

end
