(* ===== verification/PiiRegistry.thy ===== *)
theory PiiRegistry
  imports Endpoint CacheKeys PiiWalk
begin

text \<open>
  The PII registry (\<^verbatim>\<open>internal/pii/registry.go\<close>): which fields of which responses and request
  bodies are personal data, which bodies are personal data as a whole, and \<^verbatim>\<open>ContainsPII\<close>, which
  keeps such responses out of the cache. A Go map is a list of its rows, looked up by key.

  Shown: every rule is filed under a pattern that the classifier really produces and has a
  path the walker can act on, so that no rule is dead; a GET whose response would be redacted
  is always excluded from the cache; unknown paths are covered in fail-closed mode.
\<close>

datatype RedactionMode = RedactModeRedact | RedactModeHash | RedactModeOmit

record field_redaction =
  JSONPath :: string
  Mode :: RedactionMode

type_synonym pii_rules = "(string \<times> field_redaction list) list"

definition DefaultPIIRules_orders :: pii_rules where
  "DefaultPIIRules_orders = [
     (''/orders/v0/orders'', [
       \<lparr>JSONPath = ''$.payload.Orders[*].BuyerInfo.BuyerEmail'', Mode = RedactModeRedact\<rparr>,
       \<lparr>JSONPath = ''$.payload.Orders[*].BuyerInfo.BuyerName'', Mode = RedactModeRedact\<rparr>,
       \<lparr>JSONPath = ''$.payload.Orders[*].BuyerInfo.BuyerCounty'', Mode = RedactModeRedact\<rparr>,
       \<lparr>JSONPath = ''$.payload.Orders[*].BuyerInfo.BuyerTaxInfo'', Mode = RedactModeRedact\<rparr>,
       \<lparr>JSONPath = ''$.payload.Orders[*].BuyerInfo.PurchaseOrderNumber'', Mode = RedactModeRedact\<rparr>,
       \<lparr>JSONPath = ''$.payload.Orders[*].ShippingAddress.Name'', Mode = RedactModeRedact\<rparr>,
       \<lparr>JSONPath = ''$.payload.Orders[*].ShippingAddress.AddressLine1'', Mode = RedactModeRedact\<rparr>,
       \<lparr>JSONPath = ''$.payload.Orders[*].ShippingAddress.AddressLine2'', Mode = RedactModeRedact\<rparr>,
       \<lparr>JSONPath = ''$.payload.Orders[*].ShippingAddress.AddressLine3'', Mode = RedactModeRedact\<rparr>,
       \<lparr>JSONPath = ''$.payload.Orders[*].ShippingAddress.City'', Mode = RedactModeRedact\<rparr>,
       \<lparr>JSONPath = ''$.payload.Orders[*].ShippingAddress.StateOrRegion'', Mode = RedactModeRedact\<rparr>,
       \<lparr>JSONPath = ''$.payload.Orders[*].ShippingAddress.PostalCode'', Mode = RedactModeRedact\<rparr>,
       \<lparr>JSONPath = ''$.payload.Orders[*].ShippingAddress.Phone'', Mode = RedactModeRedact\<rparr>,
       \<lparr>JSONPath = ''$.payload.Orders[*].ShippingAddress.AddressType'', Mode = RedactModeRedact\<rparr>,
       \<lparr>JSONPath = ''$.payload.Orders[*].ShippingAddress.ExtendedFields'', Mode = RedactModeRedact\<rparr>]),
     (''/orders/v0/orders/{orderId}'', [
       \<lparr>JSONPath = ''$.payload.BuyerInfo.BuyerEmail'', Mode = RedactModeRedact\<rparr>,
       \<lparr>JSONPath = ''$.payload.BuyerInfo.BuyerName'', Mode = RedactModeRedact\<rparr>,
       \<lparr>JSONPath = ''$.payload.BuyerInfo.BuyerCounty'', Mode = RedactModeRedact\<rparr>,
       \<lparr>JSONPath = ''$.payload.BuyerInfo.BuyerTaxInfo'', Mode = RedactModeRedact\<rparr>,
       \<lparr>JSONPath = ''$.payload.BuyerInfo.PurchaseOrderNumber'', Mode = RedactModeRedact\<rparr>,
       \<lparr>JSONPath = ''$.payload.ShippingAddress.Name'', Mode = RedactModeRedact\<rparr>,
       \<lparr>JSONPath = ''$.payload.ShippingAddress.AddressLine1'', Mode = RedactModeRedact\<rparr>,
       \<lparr>JSONPath = ''$.payload.ShippingAddress.AddressLine2'', Mode = RedactModeRedact\<rparr>,
       \<lparr>JSONPath = ''$.payload.ShippingAddress.AddressLine3'', Mode = RedactModeRedact\<rparr>,
       \<lparr>JSONPath = ''$.payload.ShippingAddress.City'', Mode = RedactModeRedact\<rparr>,
       \<lparr>JSONPath = ''$.payload.ShippingAddress.StateOrRegion'', Mode = RedactModeRedact\<rparr>,
       \<lparr>JSONPath = ''$.payload.ShippingAddress.PostalCode'', Mode = RedactModeRedact\<rparr>,
       \<lparr>JSONPath = ''$.payload.ShippingAddress.Phone'', Mode = RedactModeRedact\<rparr>,
       \<lparr>JSONPath = ''$.payload.ShippingAddress.AddressType'', Mode = RedactModeRedact\<rparr>,
       \<lparr>JSONPath = ''$.payload.ShippingAddress.ExtendedFields'', Mode = RedactModeRedact\<rparr>]),
     (''/orders/v0/orders/{orderId}/orderItems'', [
       \<lparr>JSONPath = ''$.payload.OrderItems[*].BuyerInfo.BuyerCustomizedInfo'', Mode = RedactModeRedact\<rparr>,
       \<lparr>JSONPath = ''$.payload.OrderItems[*].BuyerInfo.GiftMessageText'', Mode = RedactModeRedact\<rparr>])]"

definition DefaultPIIRules_shipments :: pii_rules where
  "DefaultPIIRules_shipments = [
     (''/shipping/v2/shipments'', [
       \<lparr>JSONPath = ''$.payload.Shipments[*].ShipTo.Name'', Mode = RedactModeRedact\<rparr>,
       \<lparr>JSONPath = ''$.payload.Shipments[*].ShipTo.AddressLine1'', Mode = RedactModeRedact\<rparr>,
       \<lparr>JSONPath = ''$.payload.Shipments[*].ShipTo.AddressLine2'', Mode = RedactModeRedact\<rparr>,
       \<lparr>JSONPath = ''$.payload.Shipments[*].ShipTo.City'', Mode = RedactModeRedact\<rparr>,
       \<lparr>JSONPath = ''$.payload.Shipments[*].ShipTo.StateOrRegion'', Mode = RedactModeRedact\<rparr>,
       \<lparr>JSONPath = ''$.payload.Shipments[*].ShipTo.PostalCode'', Mode = RedactModeRedact\<rparr>,
       \<lparr>JSONPath = ''$.payload.Shipments[*].ShipTo.Phone'', Mode = RedactModeRedact\<rparr>,
       \<lparr>JSONPath = ''$.payload.Shipments[*].ShipTo.Email'', Mode = RedactModeRedact\<rparr>]),
     (''/shipping/v1/shipments/{shipmentId}'', [
       \<lparr>JSONPath = ''$.payload.shipTo.name'', Mode = RedactModeRedact\<rparr>,
       \<lparr>JSONPath = ''$.payload.shipTo.addressLine1'', Mode = RedactModeRedact\<rparr>,
       \<lparr>JSONPath = ''$.payload.shipTo.addressLine2'', Mode = RedactModeRedact\<rparr>,
       \<lparr>JSONPath = ''$.payload.shipTo.addressLine3'', Mode = RedactModeRedact\<rparr>,
       \<lparr>JSONPath = ''$.payload.shipTo.city'', Mode = RedactModeRedact\<rparr>,
       \<lparr>JSONPath = ''$.payload.shipTo.stateOrRegion'', Mode = RedactModeRedact\<rparr>,
       \<lparr>JSONPath = ''$.payload.shipTo.postalCode'', Mode = RedactModeRedact\<rparr>,
       \<lparr>JSONPath = ''$.payload.shipTo.email'', Mode = RedactModeRedact\<rparr>,
       \<lparr>JSONPath = ''$.payload.shipFrom.name'', Mode = RedactModeRedact\<rparr>,
       \<lparr>JSONPath = ''$.payload.shipFrom.addressLine1'', Mode = RedactModeRedact\<rparr>,
       \<lparr>JSONPath = ''$.payload.shipFrom.addressLine2'', Mode = RedactModeRedact\<rparr>,
       \<lparr>JSONPath = ''$.payload.shipFrom.addressLine3'', Mode = RedactModeRedact\<rparr>,
       \<lparr>JSONPath = ''$.payload.shipFrom.city'', Mode = RedactModeRedact\<rparr>,
       \<lparr>JSONPath = ''$.payload.shipFrom.stateOrRegion'', Mode = RedactModeRedact\<rparr>,
       \<lparr>JSONPath = ''$.payload.shipFrom.postalCode'', Mode = RedactModeRedact\<rparr>,
       \<lparr>JSONPath = ''$.payload.shipFrom.email'', Mode = RedactModeRedact\<rparr>]),
     (''/mfn/v0/shipments'', [
       \<lparr>JSONPath = ''$.payload.ShipFromAddress.Name'', Mode = RedactModeRedact\<rparr>,
       \<lparr>JSONPath = ''$.payload.ShipFromAddress.AddressLine1'', Mode = RedactModeRedact\<rparr>,
       \<lparr>JSONPath = ''$.payload.ShipFromAddress.City'', Mode = RedactModeRedact\<rparr>,
       \<lparr>JSONPath = ''$.payload.ShipFromAddress.PostalCode'', Mode = RedactModeRedact\<rparr>,
       \<lparr>JSONPath = ''$.payload.ShipFromAddress.Phone'', Mode = RedactModeRedact\<rparr>,
       \<lparr>JSONPath = ''$.payload.ShipFromAddress.Email'', Mode = RedactModeRedact\<rparr>,
       \<lparr>JSONPath = ''$.payload.ShipToAddress.Name'', Mode = RedactModeRedact\<rparr>,
       \<lparr>JSONPath = ''$.payload.ShipToAddress.AddressLine1'', Mode = RedactModeRedact\<rparr>,
       \<lparr>JSONPath = ''$.payload.ShipToAddress.City'', Mode = RedactModeRedact\<rparr>,
       \<lparr>JSONPath = ''$.payload.ShipToAddress.PostalCode'', Mode = RedactModeRedact\<rparr>,
       \<lparr>JSONPath = ''$.payload.ShipToAddress.Phone'', Mode = RedactModeRedact\<rparr>,
       \<lparr>JSONPath = ''$.payload.ShipToAddress.Email'', Mode = RedactModeRedact\<rparr>]),
     (''/mfn/v0/shipments/{shipmentId}'', [
       \<lparr>JSONPath = ''$.payload.ShipFromAddress.Name'', Mode = RedactModeRedact\<rparr>,
       \<lparr>JSONPath = ''$.payload.ShipFromAddress.AddressLine1'', Mode = RedactModeRedact\<rparr>,
       \<lparr>JSONPath = ''$.payload.ShipFromAddress.AddressLine2'', Mode = RedactModeRedact\<rparr>,
       \<lparr>JSONPath = ''$.payload.ShipFromAddress.City'', Mode = RedactModeRedact\<rparr>,
       \<lparr>JSONPath = ''$.payload.ShipFromAddress.StateOrRegion'', Mode = RedactModeRedact\<rparr>,
       \<lparr>JSONPath = ''$.payload.ShipFromAddress.PostalCode'', Mode = RedactModeRedact\<rparr>,
       \<lparr>JSONPath = ''$.payload.ShipFromAddress.Phone'', Mode = RedactModeRedact\<rparr>,
       \<lparr>JSONPath = ''$.payload.ShipFromAddress.Email'', Mode = RedactModeRedact\<rparr>,
       \<lparr>JSONPath = ''$.payload.ShipToAddress.Name'', Mode = RedactModeRedact\<rparr>,
       \<lparr>JSONPath = ''$.payload.ShipToAddress.AddressLine1'', Mode = RedactModeRedact\<rparr>,
       \<lparr>JSONPath = ''$.payload.ShipToAddress.AddressLine2'', Mode = RedactModeRedact\<rparr>,
       \<lparr>JSONPath = ''$.payload.ShipToAddress.City'', Mode = RedactModeRedact\<rparr>,
       \<lparr>JSONPath = ''$.payload.ShipToAddress.StateOrRegion'', Mode = RedactModeRedact\<rparr>,
       \<lparr>JSONPath = ''$.payload.ShipToAddress.PostalCode'', Mode = RedactModeRedact\<rparr>,
       \<lparr>JSONPath = ''$.payload.ShipToAddress.Phone'', Mode = RedactModeRedact\<rparr>,
       \<lparr>JSONPath = ''$.payload.ShipToAddress.Email'', Mode = RedactModeRedact\<rparr>])]"

definition DefaultPIIRules_fulfillment :: pii_rules where
  "DefaultPIIRules_fulfillment = [
     (''/fba/outbound/2020-07-01/fulfillmentOrders'', [
       \<lparr>JSONPath = ''$.payload.FulfillmentOrders[*].DestinationAddress.Name'', Mode = RedactModeRedact\<rparr>,
       \<lparr>JSONPath = ''$.payload.FulfillmentOrders[*].DestinationAddress.Line1'', Mode = RedactModeRedact\<rparr>,
       \<lparr>JSONPath = ''$.payload.FulfillmentOrders[*].DestinationAddress.Line2'', Mode = RedactModeRedact\<rparr>,
       \<lparr>JSONPath = ''$.payload.FulfillmentOrders[*].DestinationAddress.City'', Mode = RedactModeRedact\<rparr>,
       \<lparr>JSONPath = ''$.payload.FulfillmentOrders[*].DestinationAddress.PostalCode'', Mode = RedactModeRedact\<rparr>,
       \<lparr>JSONPath = ''$.payload.FulfillmentOrders[*].DestinationAddress.Phone'', Mode = RedactModeRedact\<rparr>]),
     (''/fba/outbound/2020-07-01/fulfillmentOrders/{orderId}'', [
       \<lparr>JSONPath = ''$.payload.FulfillmentOrder.DestinationAddress.Name'', Mode = RedactModeRedact\<rparr>,
       \<lparr>JSONPath = ''$.payload.FulfillmentOrder.DestinationAddress.Line1'', Mode = RedactModeRedact\<rparr>,
       \<lparr>JSONPath = ''$.payload.FulfillmentOrder.DestinationAddress.Line2'', Mode = RedactModeRedact\<rparr>,
       \<lparr>JSONPath = ''$.payload.FulfillmentOrder.DestinationAddress.City'', Mode = RedactModeRedact\<rparr>,
       \<lparr>JSONPath = ''$.payload.FulfillmentOrder.DestinationAddress.StateOrRegion'', Mode = RedactModeRedact\<rparr>,
       \<lparr>JSONPath = ''$.payload.FulfillmentOrder.DestinationAddress.PostalCode'', Mode = RedactModeRedact\<rparr>,
       \<lparr>JSONPath = ''$.payload.FulfillmentOrder.DestinationAddress.Phone'', Mode = RedactModeRedact\<rparr>])]"

definition DefaultPIIRules_other :: pii_rules where
  "DefaultPIIRules_other = [
     (''/messaging/v1/orders/{orderId}/messages'', [
       \<lparr>JSONPath = ''$.payload.Messages[*].MessageText'', Mode = RedactModeRedact\<rparr>,
       \<lparr>JSONPath = ''$.payload.Messages[*].Attachments'', Mode = RedactModeOmit\<rparr>]),
     (''/finances/v0/financialEvents'', [
       \<lparr>JSONPath = ''$.payload.FinancialEvents.ShipmentEventList[*].AmazonOrderId'', Mode = RedactModeRedact\<rparr>]),
     (''/finances/v0/financialEventGroups/{eventGroupId}/financialEvents'', [
       \<lparr>JSONPath = ''$.payload.FinancialEvents.ShipmentEventList[*].AmazonOrderId'', Mode = RedactModeRedact\<rparr>]),
     (''/finances/v0/orders/{orderId}/financialEvents'', [
       \<lparr>JSONPath = ''$.payload.FinancialEvents.ShipmentEventList[*].AmazonOrderId'', Mode = RedactModeRedact\<rparr>]),
     (''/easyShip/2022-03-23/package'', [
       \<lparr>JSONPath = ''$.payload.ScheduledPackageId.AmazonOrderId'', Mode = RedactModeRedact\<rparr>,
       \<lparr>JSONPath = ''$.payload.PackageDetails.PackagePickUpSlot.SlotId'', Mode = RedactModeRedact\<rparr>]),
     (''/orders/v0/orders/{orderId}/regulatedInfo'', [
       \<lparr>JSONPath = ''$.payload.RegulatedInformation.Fields[*].FieldValue'', Mode = RedactModeRedact\<rparr>,
       \<lparr>JSONPath = ''$.payload.BuyerInfo.BuyerEmail'', Mode = RedactModeRedact\<rparr>,
       \<lparr>JSONPath = ''$.payload.BuyerInfo.BuyerName'', Mode = RedactModeRedact\<rparr>,
       \<lparr>JSONPath = ''$.payload.ShippingAddress.Name'', Mode = RedactModeRedact\<rparr>,
       \<lparr>JSONPath = ''$.payload.ShippingAddress.AddressLine1'', Mode = RedactModeRedact\<rparr>,
       \<lparr>JSONPath = ''$.payload.ShippingAddress.AddressLine2'', Mode = RedactModeRedact\<rparr>,
       \<lparr>JSONPath = ''$.payload.ShippingAddress.AddressLine3'', Mode = RedactModeRedact\<rparr>,
       \<lparr>JSONPath = ''$.payload.ShippingAddress.City'', Mode = RedactModeRedact\<rparr>,
       \<lparr>JSONPath = ''$.payload.ShippingAddress.StateOrRegion'', Mode = RedactModeRedact\<rparr>,
       \<lparr>JSONPath = ''$.payload.ShippingAddress.PostalCode'', Mode = RedactModeRedact\<rparr>,
       \<lparr>JSONPath = ''$.payload.ShippingAddress.Phone'', Mode = RedactModeRedact\<rparr>]),
     (''/reports/2021-06-30/documents/{documentId}'', [
       \<lparr>JSONPath = ''$.url'', Mode = RedactModeRedact\<rparr>,
       \<lparr>JSONPath = ''$.encryptionDetails.key'', Mode = RedactModeRedact\<rparr>]),
     (''/feeds/2021-06-30/documents/{feedDocumentId}'', [
       \<lparr>JSONPath = ''$.url'', Mode = RedactModeRedact\<rparr>,
       \<lparr>JSONPath = ''$.encryptionDetails.key'', Mode = RedactModeRedact\<rparr>]),
     (''/datakiosk/2023-11-15/documents/{documentId}'', [
       \<lparr>JSONPath = ''$.documentUrl'', Mode = RedactModeRedact\<rparr>]),
     (''/vendor/directFulfillment/orders/2021-12-28/purchaseOrders/{purchaseOrderNumber}'', [
       \<lparr>JSONPath = ''$.payload.orderDetails.shipToParty.address.name'', Mode = RedactModeRedact\<rparr>,
       \<lparr>JSONPath = ''$.payload.orderDetails.shipToParty.address.addressLine1'', Mode = RedactModeRedact\<rparr>,
       \<lparr>JSONPath = ''$.payload.orderDetails.shipToParty.address.addressLine2'', Mode = RedactModeRedact\<rparr>,
       \<lparr>JSONPath = ''$.payload.orderDetails.shipToParty.address.addressLine3'', Mode = RedactModeRedact\<rparr>,
       \<lparr>JSONPath = ''$.payload.orderDetails.shipToParty.address.city'', Mode = RedactModeRedact\<rparr>,
       \<lparr>JSONPath = ''$.payload.orderDetails.shipToParty.address.district'', Mode = RedactModeRedact\<rparr>,
       \<lparr>JSONPath = ''$.payload.orderDetails.shipToParty.address.stateOrRegion'', Mode = RedactModeRedact\<rparr>,
       \<lparr>JSONPath = ''$.payload.orderDetails.shipToParty.address.postalCode'', Mode = RedactModeRedact\<rparr>,
       \<lparr>JSONPath = ''$.payload.orderDetails.shipToParty.address.phone'', Mode = RedactModeRedact\<rparr>])]"

definition DefaultPIIRules :: pii_rules where
  "DefaultPIIRules = concat [DefaultPIIRules_orders, DefaultPIIRules_shipments, DefaultPIIRules_fulfillment,
     DefaultPIIRules_other]"

definition ConditionalPIIRules :: pii_rules where
  "ConditionalPIIRules = [
     (''/orders/2026-01-01/orders'', [
       \<lparr>JSONPath = ''$.orders[*].buyer.buyerName'', Mode = RedactModeRedact\<rparr>,
       \<lparr>JSONPath = ''$.orders[*].buyer.buyerEmail'', Mode = RedactModeRedact\<rparr>,
       \<lparr>JSONPath = ''$.orders[*].buyer.buyerCompanyName'', Mode = RedactModeRedact\<rparr>,
       \<lparr>JSONPath = ''$.orders[*].buyer.buyerPurchaseOrderNumber'', Mode = RedactModeRedact\<rparr>,
       \<lparr>JSONPath = ''$.orders[*].recipient.deliveryAddress.name'', Mode = RedactModeRedact\<rparr>,
       \<lparr>JSONPath = ''$.orders[*].recipient.deliveryAddress.companyName'', Mode = RedactModeRedact\<rparr>,
       \<lparr>JSONPath = ''$.orders[*].recipient.deliveryAddress.addressLine1'', Mode = RedactModeRedact\<rparr>,
       \<lparr>JSONPath = ''$.orders[*].recipient.deliveryAddress.addressLine2'', Mode = RedactModeRedact\<rparr>,
       \<lparr>JSONPath = ''$.orders[*].recipient.deliveryAddress.addressLine3'', Mode = RedactModeRedact\<rparr>,
       \<lparr>JSONPath = ''$.orders[*].recipient.deliveryAddress.city'', Mode = RedactModeRedact\<rparr>,
       \<lparr>JSONPath = ''$.orders[*].recipient.deliveryAddress.districtOrCounty'', Mode = RedactModeRedact\<rparr>,
       \<lparr>JSONPath = ''$.orders[*].recipient.deliveryAddress.stateOrRegion'', Mode = RedactModeRedact\<rparr>,
       \<lparr>JSONPath = ''$.orders[*].recipient.deliveryAddress.municipality'', Mode = RedactModeRedact\<rparr>,
       \<lparr>JSONPath = ''$.orders[*].recipient.deliveryAddress.postalCode'', Mode = RedactModeRedact\<rparr>,
       \<lparr>JSONPath = ''$.orders[*].recipient.deliveryAddress.phone'', Mode = RedactModeRedact\<rparr>,
       \<lparr>JSONPath = ''$.orders[*].recipient.deliveryAddress.extendedFields'', Mode = RedactModeRedact\<rparr>,
       \<lparr>JSONPath = ''$.orders[*].recipient.deliveryPreference.dropOffLocation'', Mode = RedactModeRedact\<rparr>,
       \<lparr>JSONPath = ''$.orders[*].recipient.deliveryPreference.addressInstruction'', Mode = RedactModeRedact\<rparr>]),
     (''/orders/2026-01-01/orders/{orderId}'', [
       \<lparr>JSONPath = ''$.buyer.buyerName'', Mode = RedactModeRedact\<rparr>,
       \<lparr>JSONPath = ''$.buyer.buyerEmail'', Mode = RedactModeRedact\<rparr>,
       \<lparr>JSONPath = ''$.buyer.buyerCompanyName'', Mode = RedactModeRedact\<rparr>,
       \<lparr>JSONPath = ''$.buyer.buyerPurchaseOrderNumber'', Mode = RedactModeRedact\<rparr>,
       \<lparr>JSONPath = ''$.recipient.deliveryAddress.name'', Mode = RedactModeRedact\<rparr>,
       \<lparr>JSONPath = ''$.recipient.deliveryAddress.companyName'', Mode = RedactModeRedact\<rparr>,
       \<lparr>JSONPath = ''$.recipient.deliveryAddress.addressLine1'', Mode = RedactModeRedact\<rparr>,
       \<lparr>JSONPath = ''$.recipient.deliveryAddress.addressLine2'', Mode = RedactModeRedact\<rparr>,
       \<lparr>JSONPath = ''$.recipient.deliveryAddress.addressLine3'', Mode = RedactModeRedact\<rparr>,
       \<lparr>JSONPath = ''$.recipient.deliveryAddress.city'', Mode = RedactModeRedact\<rparr>,
       \<lparr>JSONPath = ''$.recipient.deliveryAddress.districtOrCounty'', Mode = RedactModeRedact\<rparr>,
       \<lparr>JSONPath = ''$.recipient.deliveryAddress.stateOrRegion'', Mode = RedactModeRedact\<rparr>,
       \<lparr>JSONPath = ''$.recipient.deliveryAddress.municipality'', Mode = RedactModeRedact\<rparr>,
       \<lparr>JSONPath = ''$.recipient.deliveryAddress.postalCode'', Mode = RedactModeRedact\<rparr>,
       \<lparr>JSONPath = ''$.recipient.deliveryAddress.phone'', Mode = RedactModeRedact\<rparr>,
       \<lparr>JSONPath = ''$.recipient.deliveryAddress.extendedFields'', Mode = RedactModeRedact\<rparr>,
       \<lparr>JSONPath = ''$.recipient.deliveryPreference.dropOffLocation'', Mode = RedactModeRedact\<rparr>,
       \<lparr>JSONPath = ''$.recipient.deliveryPreference.addressInstruction'', Mode = RedactModeRedact\<rparr>])]"

definition shippingV2AddressRules :: "field_redaction list" where
  "shippingV2AddressRules = [
       \<lparr>JSONPath = ''$.shipTo.name'', Mode = RedactModeRedact\<rparr>,
       \<lparr>JSONPath = ''$.shipTo.companyName'', Mode = RedactModeRedact\<rparr>,
       \<lparr>JSONPath = ''$.shipTo.addressLine1'', Mode = RedactModeRedact\<rparr>,
       \<lparr>JSONPath = ''$.shipTo.addressLine2'', Mode = RedactModeRedact\<rparr>,
       \<lparr>JSONPath = ''$.shipTo.addressLine3'', Mode = RedactModeRedact\<rparr>,
       \<lparr>JSONPath = ''$.shipTo.city'', Mode = RedactModeRedact\<rparr>,
       \<lparr>JSONPath = ''$.shipTo.stateOrRegion'', Mode = RedactModeRedact\<rparr>,
       \<lparr>JSONPath = ''$.shipTo.postalCode'', Mode = RedactModeRedact\<rparr>,
       \<lparr>JSONPath = ''$.shipTo.phoneNumber'', Mode = RedactModeRedact\<rparr>,
       \<lparr>JSONPath = ''$.shipTo.email'', Mode = RedactModeRedact\<rparr>,
       \<lparr>JSONPath = ''$.shipFrom.name'', Mode = RedactModeRedact\<rparr>,
       \<lparr>JSONPath = ''$.shipFrom.companyName'', Mode = RedactModeRedact\<rparr>,
       \<lparr>JSONPath = ''$.shipFrom.addressLine1'', Mode = RedactModeRedact\<rparr>,
       \<lparr>JSONPath = ''$.shipFrom.addressLine2'', Mode = RedactModeRedact\<rparr>,
       \<lparr>JSONPath = ''$.shipFrom.addressLine3'', Mode = RedactModeRedact\<rparr>,
       \<lparr>JSONPath = ''$.shipFrom.city'', Mode = RedactModeRedact\<rparr>,
       \<lparr>JSONPath = ''$.shipFrom.stateOrRegion'', Mode = RedactModeRedact\<rparr>,
       \<lparr>JSONPath = ''$.shipFrom.postalCode'', Mode = RedactModeRedact\<rparr>,
       \<lparr>JSONPath = ''$.shipFrom.phoneNumber'', Mode = RedactModeRedact\<rparr>,
       \<lparr>JSONPath = ''$.shipFrom.email'', Mode = RedactModeRedact\<rparr>,
       \<lparr>JSONPath = ''$.returnTo.name'', Mode = RedactModeRedact\<rparr>,
       \<lparr>JSONPath = ''$.returnTo.companyName'', Mode = RedactModeRedact\<rparr>,
       \<lparr>JSONPath = ''$.returnTo.addressLine1'', Mode = RedactModeRedact\<rparr>,
       \<lparr>JSONPath = ''$.returnTo.addressLine2'', Mode = RedactModeRedact\<rparr>,
       \<lparr>JSONPath = ''$.returnTo.addressLine3'', Mode = RedactModeRedact\<rparr>,
       \<lparr>JSONPath = ''$.returnTo.city'', Mode = RedactModeRedact\<rparr>,
       \<lparr>JSONPath = ''$.returnTo.stateOrRegion'', Mode = RedactModeRedact\<rparr>,
       \<lparr>JSONPath = ''$.returnTo.postalCode'', Mode = RedactModeRedact\<rparr>,
       \<lparr>JSONPath = ''$.returnTo.phoneNumber'', Mode = RedactModeRedact\<rparr>,
       \<lparr>JSONPath = ''$.returnTo.email'', Mode = RedactModeRedact\<rparr>,
       \<lparr>JSONPath = ''$.packages[*].sellerDisplayName'', Mode = RedactModeRedact\<rparr>]"

definition RequestBodyRules_messaging :: pii_rules where
  "RequestBodyRules_messaging = [
     (''/messaging/v1/orders/{orderId}/messages/createConfirmServiceDetails'', [
       \<lparr>JSONPath = ''$.message.text'', Mode = RedactModeRedact\<rparr>]),
     (''/messaging/v1/orders/{orderId}/messages/createConfirmDeliveryDetails'', [
       \<lparr>JSONPath = ''$.message.text'', Mode = RedactModeRedact\<rparr>]),
     (''/messaging/v1/orders/{orderId}/messages/createUnexpectedProblem'', [
       \<lparr>JSONPath = ''$.message.text'', Mode = RedactModeRedact\<rparr>]),
     (''/messaging/v1/orders/{orderId}/messages/createConfirmOrderDetails'', [
       \<lparr>JSONPath = ''$.message.text'', Mode = RedactModeRedact\<rparr>]),
     (''/messaging/v1/orders/{orderId}/messages/createWarranty'', [
       \<lparr>JSONPath = ''$.message.text'', Mode = RedactModeRedact\<rparr>]),
     (''/messaging/v1/orders/{orderId}/messages/createDigitalAccessKey'', [
       \<lparr>JSONPath = ''$.message.text'', Mode = RedactModeRedact\<rparr>]),
     (''/messaging/v1/orders/{orderId}/messages/createLegalDisclosure'', [
       \<lparr>JSONPath = ''$.message.text'', Mode = RedactModeRedact\<rparr>]),
     (''/messaging/v1/orders/{orderId}/messages/createAmazonMotors'', [
       \<lparr>JSONPath = ''$.message.text'', Mode = RedactModeRedact\<rparr>]),
     (''/messaging/v1/orders/{orderId}/messages/sendInvoice'', [
       \<lparr>JSONPath = ''$.message.text'', Mode = RedactModeRedact\<rparr>]),
     (''/messaging/v1/orders/{orderId}/messages/confirmCustomizationDetails'', [
       \<lparr>JSONPath = ''$.message.text'', Mode = RedactModeRedact\<rparr>])]"

definition RequestBodyRules_shipping :: pii_rules where
  "RequestBodyRules_shipping = [
     (''/mfn/v0/shipments'', [
       \<lparr>JSONPath = ''$.ShipmentRequestDetails.ShipFromAddress.Name'', Mode = RedactModeRedact\<rparr>,
       \<lparr>JSONPath = ''$.ShipmentRequestDetails.ShipFromAddress.AddressLine1'', Mode = RedactModeRedact\<rparr>,
       \<lparr>JSONPath = ''$.ShipmentRequestDetails.ShipFromAddress.AddressLine2'', Mode = RedactModeRedact\<rparr>,
       \<lparr>JSONPath = ''$.ShipmentRequestDetails.ShipFromAddress.AddressLine3'', Mode = RedactModeRedact\<rparr>,
       \<lparr>JSONPath = ''$.ShipmentRequestDetails.ShipFromAddress.DistrictOrCounty'', Mode = RedactModeRedact\<rparr>,
       \<lparr>JSONPath = ''$.ShipmentRequestDetails.ShipFromAddress.City'', Mode = RedactModeRedact\<rparr>,
       \<lparr>JSONPath = ''$.ShipmentRequestDetails.ShipFromAddress.StateOrProvinceCode'', Mode = RedactModeRedact\<rparr>,
       \<lparr>JSONPath = ''$.ShipmentRequestDetails.ShipFromAddress.PostalCode'', Mode = RedactModeRedact\<rparr>,
       \<lparr>JSONPath = ''$.ShipmentRequestDetails.ShipFromAddress.Phone'', Mode = RedactModeRedact\<rparr>,
       \<lparr>JSONPath = ''$.ShipmentRequestDetails.ShipFromAddress.Email'', Mode = RedactModeRedact\<rparr>]),
     (''/shipping/v1/shipments'', [
       \<lparr>JSONPath = ''$.shipTo.name'', Mode = RedactModeRedact\<rparr>,
       \<lparr>JSONPath = ''$.shipTo.addressLine1'', Mode = RedactModeRedact\<rparr>,
       \<lparr>JSONPath = ''$.shipTo.addressLine2'', Mode = RedactModeRedact\<rparr>,
       \<lparr>JSONPath = ''$.shipTo.addressLine3'', Mode = RedactModeRedact\<rparr>,
       \<lparr>JSONPath = ''$.shipTo.city'', Mode = RedactModeRedact\<rparr>,
       \<lparr>JSONPath = ''$.shipTo.stateOrRegion'', Mode = RedactModeRedact\<rparr>,
       \<lparr>JSONPath = ''$.shipTo.postalCode'', Mode = RedactModeRedact\<rparr>,
       \<lparr>JSONPath = ''$.shipTo.phoneNumber'', Mode = RedactModeRedact\<rparr>,
       \<lparr>JSONPath = ''$.shipTo.email'', Mode = RedactModeRedact\<rparr>,
       \<lparr>JSONPath = ''$.shipTo.copyEmails'', Mode = RedactModeRedact\<rparr>,
       \<lparr>JSONPath = ''$.shipFrom.name'', Mode = RedactModeRedact\<rparr>,
       \<lparr>JSONPath = ''$.shipFrom.addressLine1'', Mode = RedactModeRedact\<rparr>,
       \<lparr>JSONPath = ''$.shipFrom.addressLine2'', Mode = RedactModeRedact\<rparr>,
       \<lparr>JSONPath = ''$.shipFrom.addressLine3'', Mode = RedactModeRedact\<rparr>,
       \<lparr>JSONPath = ''$.shipFrom.city'', Mode = RedactModeRedact\<rparr>,
       \<lparr>JSONPath = ''$.shipFrom.stateOrRegion'', Mode = RedactModeRedact\<rparr>,
       \<lparr>JSONPath = ''$.shipFrom.postalCode'', Mode = RedactModeRedact\<rparr>,
       \<lparr>JSONPath = ''$.shipFrom.phoneNumber'', Mode = RedactModeRedact\<rparr>,
       \<lparr>JSONPath = ''$.shipFrom.email'', Mode = RedactModeRedact\<rparr>,
       \<lparr>JSONPath = ''$.shipFrom.copyEmails'', Mode = RedactModeRedact\<rparr>]),
     (''/shipping/v2/shipments/rates'', shippingV2AddressRules),
     (''/shipping/v2/shipments/directPurchase'', shippingV2AddressRules),
     (''/shipping/v2/oneClickShipment'', shippingV2AddressRules),
     (''/fba/outbound/2020-07-01/fulfillmentOrders/preview'', [
       \<lparr>JSONPath = ''$.destinationAddress.name'', Mode = RedactModeRedact\<rparr>,
       \<lparr>JSONPath = ''$.destinationAddress.line1'', Mode = RedactModeRedact\<rparr>,
       \<lparr>JSONPath = ''$.destinationAddress.line2'', Mode = RedactModeRedact\<rparr>,
       \<lparr>JSONPath = ''$.destinationAddress.city'', Mode = RedactModeRedact\<rparr>,
       \<lparr>JSONPath = ''$.destinationAddress.stateOrRegion'', Mode = RedactModeRedact\<rparr>,
       \<lparr>JSONPath = ''$.destinationAddress.postalCode'', Mode = RedactModeRedact\<rparr>,
       \<lparr>JSONPath = ''$.destinationAddress.phone'', Mode = RedactModeRedact\<rparr>])]"

definition DefaultRequestBodyPIIRules :: pii_rules where
  "DefaultRequestBodyPIIRules = RequestBodyRules_messaging @ RequestBodyRules_shipping"

definition DefaultFullBodyPIIEndpoints :: "string list" where
  "DefaultFullBodyPIIEndpoints = [
     ''/orders/v0/orders/{orderId}/buyerInfo'',
     ''/orders/v0/orders/{orderId}/address'',
     ''/orders/v0/orders/{orderId}/orderItems/buyerInfo'',
     ''/messaging/v1/orders/{orderId}/messages/{messageId}'',
     ''/vendor/directFulfillment/shipping/2021-12-28/packingSlips/{purchaseOrderNumber}'']"

section \<open>The registry\<close>

text \<open>\<open>queryParamsExtra\<close>: \<open>None\<close> is the nil map.\<close>

record registry =
  reg_rules :: pii_rules
  conditionalRules :: pii_rules
  requestBodyRules :: pii_rules
  fullBodyEndpoints :: "string list"
  failClosed :: bool
  queryParamsExtra :: "string list option"

definition NewRegistry :: registry where
  "NewRegistry =
     \<lparr>reg_rules = DefaultPIIRules, conditionalRules = ConditionalPIIRules,
      requestBodyRules = DefaultRequestBodyPIIRules, fullBodyEndpoints = DefaultFullBodyPIIEndpoints,
      failClosed = False, queryParamsExtra = None\<rparr>"

definition NewRegistryFailClosed :: registry where
  "NewRegistryFailClosed = NewRegistry\<lparr>failClosed := True\<rparr>"

definition NewRegistryWithExtras :: "string list \<Rightarrow> registry" where
  "NewRegistryWithExtras extras =
     (if extras \<noteq> []
      then NewRegistry\<lparr>queryParamsExtra :=
        Some (filter (\<lambda>e. e \<noteq> []) (map (\<lambda>e. trim_space (to_lower e)) extras))\<rparr>
      else NewRegistry)"

definition SetFailClosed :: "registry \<Rightarrow> bool \<Rightarrow> registry" where
  "SetFailClosed reg v = reg\<lparr>failClosed := v\<rparr>"

text \<open>A missing key of a Go map reads as the nil slice.\<close>

definition rules_at :: "pii_rules \<Rightarrow> string \<Rightarrow> field_redaction list" where
  "rules_at t k = (case map_of t k of None \<Rightarrow> [] | Some rs \<Rightarrow> rs)"

definition RulesFor :: "registry \<Rightarrow> string \<Rightarrow> field_redaction list" where
  "RulesFor reg endpointPattern =
     rules_at (reg_rules reg) endpointPattern @ rules_at (conditionalRules reg) endpointPattern"

definition IsFullBodyPII :: "registry \<Rightarrow> string \<Rightarrow> bool \<Rightarrow> bool" where
  "IsFullBodyPII reg endpointPattern known =
     (if endpointPattern \<in> set (fullBodyEndpoints reg) then True
      else if \<not> failClosed reg then False
      else if rules_at (reg_rules reg) endpointPattern \<noteq> [] then False
      else if rules_at (conditionalRules reg) endpointPattern \<noteq> [] then False
      else \<not> known)"

definition piiQueryValues :: "(string \<times> string list) list" where
  "piiQueryValues = [(''dataElements'', [''buyerInfo'', ''shippingAddress'']),
     (''includedData'', [''BUYER'', ''RECIPIENT''])]"

definition messagingPOSTActions :: "string list" where
  "messagingPOSTActions = [''createConfirmServiceDetails'', ''createConfirmDeliveryDetails'',
     ''createUnexpectedProblem'', ''createConfirmOrderDetails'', ''createWarranty'',
     ''createDigitalAccessKey'', ''createLegalDisclosure'', ''createAmazonMotors'', ''sendInvoice'',
     ''confirmCustomizationDetails'']"

text \<open>\<open>[]\<close> stands for the empty string the code returns.\<close>

definition classifyMessagingPOST :: "request \<Rightarrow> string" where
  "classifyMessagingPOST r =
     (if r_method r \<noteq> ''POST'' then []
      else if \<not> has_prefix (r_path r) ''/messaging/v1/orders/'' then []
      else
        (let rest = drop (length ''/messaging/v1/orders/'') (r_path r) in
         case index_of rest ''/messages/'' of
           None \<Rightarrow> []
         | Some idx \<Rightarrow>
             (let action = drop (idx + length ''/messages/'') rest in
              if action = [] \<or> CHR ''/'' \<in> set action then []
              else if action \<notin> set messagingPOSTActions then []
              else ''/messaging/v1/orders/{orderId}/messages/'' @ action)))"

definition RequestBodyRulesFor :: "registry \<Rightarrow> string \<Rightarrow> field_redaction list" where
  "RequestBodyRulesFor reg endpointPattern = rules_at (requestBodyRules reg) endpointPattern"

definition classifyRequestBody :: "registry \<Rightarrow> request \<Rightarrow> string \<times> bool \<times> bool" where
  "classifyRequestBody reg r =
     (let msg = classifyMessagingPOST r in
      if msg \<noteq> [] then (msg, rules_at (requestBodyRules reg) msg \<noteq> [], True)
      else (case ClassifyKnown (r_path r) of
          (p, known) \<Rightarrow> (p, rules_at (requestBodyRules reg) p \<noteq> [], known)))"

definition bodyless_method :: "string \<Rightarrow> bool" where
  "bodyless_method m \<longleftrightarrow> m = ''GET'' \<or> m = ''HEAD'' \<or> m = ''OPTIONS''"

definition RequestBodyContainsPII :: "registry \<Rightarrow> request \<Rightarrow> bool" where
  "RequestBodyContainsPII reg r =
     (if bodyless_method (r_method r) then False
      else case classifyRequestBody reg r of
        (_, hasRules, known) \<Rightarrow> hasRules \<or> (failClosed reg \<and> \<not> known))"

definition RequestBodyPattern :: "registry \<Rightarrow> request \<Rightarrow> string" where
  "RequestBodyPattern reg r =
     (if bodyless_method (r_method r) then []
      else case classifyRequestBody reg r of
        (p, hasRules, known) \<Rightarrow>
          if hasRules then p else if failClosed reg \<and> \<not> known then p else [])"

text \<open>\<^verbatim>\<open>r.URL.Query()\<close>: the pairs that parse; segments in error are dropped.\<close>

definition url_query :: "string \<Rightarrow> (string \<times> string) list" where
  "url_query query = concat (map (part_pairs \<circ> parse_segment) (split_on (CHR ''&'') query))"

definition query_selects_pii :: "string \<Rightarrow> bool" where
  "query_selects_pii query \<longleftrightarrow>
     list_ex (\<lambda>(paramKey, piiValues).
       list_ex (\<lambda>val. list_ex (\<lambda>e. trim_space e \<in> set piiValues) (split_on (CHR '','') val))
         (query_values (url_query query) paramKey)) piiQueryValues"

definition ContainsPII :: "registry \<Rightarrow> request \<Rightarrow> bool" where
  "ContainsPII reg r =
     (if r_method r \<noteq> ''GET'' then False
      else case ClassifyKnown (r_path r) of
        (pattern, known) \<Rightarrow>
          if pattern \<in> set (fullBodyEndpoints reg) then True
          else if rules_at (reg_rules reg) pattern \<noteq> [] then True
          else if query_selects_pii (r_query r) then True
          else failClosed reg \<and> \<not> known)"

section \<open>No rule is dead\<close>

definition rules_live :: "pii_rules \<Rightarrow> bool" where
  "rules_live t \<longleftrightarrow>
     list_all (\<lambda>(k, rs). ClassifyKnown k = (k, True) \<and> rs \<noteq> []
        \<and> list_all (\<lambda>rule. path_ok (parsePath (JSONPath rule))) rs) t"

lemma rules_live_orders: "rules_live DefaultPIIRules_orders"
  by code_simp

lemma rules_live_shipments: "rules_live DefaultPIIRules_shipments"
  by code_simp

lemma rules_live_fulfillment: "rules_live DefaultPIIRules_fulfillment"
  by code_simp

lemma rules_live_other: "rules_live DefaultPIIRules_other"
  by code_simp

lemma rules_live_conditional: "rules_live ConditionalPIIRules"
  by code_simp

lemma rules_live_body: "rules_live RequestBodyRules_shipping"
  by code_simp

lemma rules_live_append: "rules_live (s @ t) \<longleftrightarrow> rules_live s \<and> rules_live t"
  by (simp add: rules_live_def)

lemma rules_live_default: "rules_live DefaultPIIRules"
  using rules_live_orders rules_live_shipments rules_live_fulfillment rules_live_other
  by (simp add: DefaultPIIRules_def rules_live_append)

lemma rules_live_lookup:
  "rules_live t \<Longrightarrow> rule \<in> set (rules_at t k) \<Longrightarrow>
   ClassifyKnown k = (k, True) \<and> path_ok (parsePath (JSONPath rule))"
proof -
  assume live: "rules_live t" and rule: "rule \<in> set (rules_at t k)"
  then obtain rs where "map_of t k = Some rs" "rule \<in> set rs"
    by (cases "map_of t k") (auto simp: rules_at_def)
  then have "(k, rs) \<in> set t" "rule \<in> set rs" by (auto dest: map_of_SomeD)
  with live show ?thesis by (auto simp: rules_live_def list_all_iff)
qed

lemma messaging_paths_ok:
  "list_all (\<lambda>(k, rs). list_all (\<lambda>rule. path_ok (parsePath (JSONPath rule))) rs) RequestBodyRules_messaging"
  by code_simp

lemma messaging_actions_have_rules:
  "list_all (\<lambda>a. rules_at DefaultRequestBodyPIIRules (''/messaging/v1/orders/{orderId}/messages/'' @ a) \<noteq> [])
     messagingPOSTActions"
  by code_simp

lemma messaging_actions_no_slash: "list_all (\<lambda>a. a \<noteq> [] \<and> CHR ''/'' \<notin> set a) messagingPOSTActions"
  by code_simp

lemma index_of_skip:
  "hd pat \<notin> set pre \<Longrightarrow> pat \<noteq> [] \<Longrightarrow> index_of (pre @ pat @ rest) pat = Some (length pre)"
proof (induction pre)
  case (Cons c pre)
  then have "\<not> has_prefix (c # pre @ pat @ rest) pat" by (cases pat) auto
  with Cons show ?case by simp
qed (cases pat; simp)

lemma classifyMessagingPOST_action:
  assumes "r_method r = ''POST''" "r_path r = ''/messaging/v1/orders/'' @ oid @ ''/messages/'' @ action"
    and "CHR ''/'' \<notin> set oid" "action \<in> set messagingPOSTActions"
  shows "classifyMessagingPOST r = ''/messaging/v1/orders/{orderId}/messages/'' @ action"
proof -
  have act: "action \<noteq> []" "CHR ''/'' \<notin> set action"
    using messaging_actions_no_slash assms(4) by (auto simp: list_all_iff)
  have idx: "index_of (oid @ ''/messages/'' @ action) ''/messages/'' = Some (length oid)"
    using index_of_skip [of "''/messages/''" oid action] assms(3) by simp
  have rest: "drop (length ''/messaging/v1/orders/'') (r_path r) = oid @ ''/messages/'' @ action"
    unfolding assms(2) by simp
  have "has_prefix (r_path r) ''/messaging/v1/orders/''"
    unfolding assms(2) by (rule has_prefix_append)
  then show ?thesis
    unfolding classifyMessagingPOST_def Let_def rest idx using assms(1,4) act by simp
qed

section \<open>Properties\<close>

text \<open>No redaction rule is dead. Every field rule for responses, and every rule for request
  bodies outside messaging, is filed under a pattern that the classifier produces and has a
  path the walker can act on; and every messaging action that is posted, for any order, is
  mapped to a pattern that has rules.\<close>

theorem pii_rules_live:
  "(rule \<in> set (RulesFor NewRegistry k) \<longrightarrow> ClassifyKnown k = (k, True) \<and> path_ok (parsePath (JSONPath rule)))
   \<and> (rule \<in> set (rules_at RequestBodyRules_shipping k) \<longrightarrow>
        ClassifyKnown k = (k, True) \<and> path_ok (parsePath (JSONPath rule)))
   \<and> (r_method r = ''POST'' \<and> r_path r = ''/messaging/v1/orders/'' @ oid @ ''/messages/'' @ action
        \<and> CHR ''/'' \<notin> set oid \<and> action \<in> set messagingPOSTActions \<longrightarrow>
        RequestBodyContainsPII NewRegistry r
        \<and> RequestBodyRulesFor NewRegistry (RequestBodyPattern NewRegistry r) \<noteq> [])"
proof (intro conjI impI)
  assume "rule \<in> set (RulesFor NewRegistry k)"
  then have "rule \<in> set (rules_at DefaultPIIRules k) \<or> rule \<in> set (rules_at ConditionalPIIRules k)"
    by (simp add: RulesFor_def NewRegistry_def)
  then show "ClassifyKnown k = (k, True)" "path_ok (parsePath (JSONPath rule))"
    using rules_live_lookup [OF rules_live_default] rules_live_lookup [OF rules_live_conditional] by blast+
next
  assume "rule \<in> set (rules_at RequestBodyRules_shipping k)"
  then show "ClassifyKnown k = (k, True)" "path_ok (parsePath (JSONPath rule))"
    using rules_live_lookup [OF rules_live_body] by blast+
next
  assume "r_method r = ''POST'' \<and> r_path r = ''/messaging/v1/orders/'' @ oid @ ''/messages/'' @ action
        \<and> CHR ''/'' \<notin> set oid \<and> action \<in> set messagingPOSTActions"
  then have c: "classifyMessagingPOST r = ''/messaging/v1/orders/{orderId}/messages/'' @ action"
    and rules: "rules_at DefaultRequestBodyPIIRules (''/messaging/v1/orders/{orderId}/messages/'' @ action) \<noteq> []"
    and post: "r_method r = ''POST''"
    using classifyMessagingPOST_action messaging_actions_have_rules by (auto simp: list_all_iff)
  then show "RequestBodyContainsPII NewRegistry r"
    "RequestBodyRulesFor NewRegistry (RequestBodyPattern NewRegistry r) \<noteq> []"
    by (simp_all add: RequestBodyContainsPII_def RequestBodyPattern_def RequestBodyRulesFor_def
        classifyRequestBody_def bodyless_method_def NewRegistry_def)
qed

definition get_request :: "string \<Rightarrow> request" where
  "get_request path = \<lparr>r_method = ''GET'', r_path = path, r_query = [], r_header = [], r_body = [],
     r_length = 0, ctx_merchant = None, ctx_request_id = [], ctx_done = False\<rparr>"

theorem pii_rules_live_witness:
  "RequestBodyContainsPII NewRegistry ((get_request
     ''/messaging/v1/orders/1/messages/sendInvoice'')\<lparr>r_method := ''POST''\<rparr>)"
  using pii_rules_live [of _ _ "(get_request ''/messaging/v1/orders/1/messages/sendInvoice'')\<lparr>r_method := ''POST''\<rparr>"
      "''1''" "''sendInvoice''"]
  by (simp add: get_request_def messagingPOSTActions_def)

text \<open>What is redacted in the log is never cached. If the response to a GET has unconditional
  field rules, or is personal data as a whole (in fail-closed mode: also because its path is
  unknown), or its query selects a personal dataset, then \<^verbatim>\<open>ContainsPII\<close> holds.\<close>

theorem redacted_is_excluded:
  assumes "r_method r = ''GET''" "ClassifyKnown (r_path r) = (pattern, known)"
    and "rules_at (reg_rules reg) pattern \<noteq> [] \<or> IsFullBodyPII reg pattern known \<or> query_selects_pii (r_query r)"
  shows "ContainsPII reg r"
  using assms by (auto simp: ContainsPII_def IsFullBodyPII_def split: if_splits)

theorem redacted_is_excluded_witness:
  "ContainsPII NewRegistry (get_request ''/orders/v0/orders/1'')
   \<and> ContainsPII NewRegistry ((get_request ''/orders/2026-01-01/orders'')\<lparr>r_query := ''includedData=A,%20BUYER''\<rparr>)"
proof
  have k: "ClassifyKnown ''/orders/v0/orders/1'' = (''/orders/v0/orders/{orderId}'', True)" by code_simp
  have "rules_at DefaultPIIRules ''/orders/v0/orders/{orderId}'' \<noteq> []" by code_simp
  then show "ContainsPII NewRegistry (get_request ''/orders/v0/orders/1'')"
    by (intro redacted_is_excluded [where known = True and pattern = "''/orders/v0/orders/{orderId}''"])
      (simp_all add: get_request_def NewRegistry_def k)
  have q: "query_selects_pii ''includedData=A,%20BUYER''" by code_simp
  obtain p b where "ClassifyKnown ''/orders/2026-01-01/orders'' = (p, b)" by (metis prod.exhaust)
  then show "ContainsPII NewRegistry ((get_request ''/orders/2026-01-01/orders'')\<lparr>r_query := ''includedData=A,%20BUYER''\<rparr>)"
    by (intro redacted_is_excluded [where known = b and pattern = p]) (simp_all add: get_request_def q)
qed

text \<open>Fail-closed mode covers the unknown: for a path that matches no registered pattern, every
  GET counts as personal data, its whole response body is redacted in the log, and so does the
  body of every other request that can have one. It also covers documented list endpoints
  that the pattern table lacks, such as the catalogue search.\<close>

theorem fail_closed_covers_unknown:
  assumes "failClosed reg" "ClassifyKnown (r_path r) = (p, False)"
  shows "(r_method r = ''GET'' \<longrightarrow> ContainsPII reg r)
    \<and> (rules_at (reg_rules reg) p = [] \<and> rules_at (conditionalRules reg) p = [] \<longrightarrow> IsFullBodyPII reg p False)
    \<and> (\<not> bodyless_method (r_method r) \<and> classifyMessagingPOST r = [] \<longrightarrow> RequestBodyContainsPII reg r)"
  using assms
  by (simp add: ContainsPII_def IsFullBodyPII_def RequestBodyContainsPII_def classifyRequestBody_def)

theorem fail_closed_covers_unknown_witness:
  "ContainsPII NewRegistryFailClosed (get_request ''/catalog/2022-04-01/items'')"
proof -
  have "ClassifyKnown ''/catalog/2022-04-01/items'' = (''/catalog/2022-04-01/items'', False)" by code_simp
  then show ?thesis
    using fail_closed_covers_unknown [of NewRegistryFailClosed "get_request ''/catalog/2022-04-01/items''"]
    by (simp add: NewRegistryFailClosed_def get_request_def)
qed

end
