(* ===== verification/PiiEngine.thy ===== *)
theory PiiEngine
  imports PiiRegistry
begin

text \<open>
  Redaction of what goes to the log: bodies (\<^verbatim>\<open>internal/pii/engine.go\<close>), headers
  (\<^verbatim>\<open>headers.go\<close>) and query strings (\<^verbatim>\<open>query.go\<close>).

  \<^verbatim>\<open>json.Unmarshal\<close> into an empty interface, \<^verbatim>\<open>json.Marshal\<close> and \<^verbatim>\<open>sha256.Sum256\<close> are arguments,
  collected in a record: nothing but the stated laws is used of them, and the results hold
  whatever they are.

  Shown: in a redacted body every field that any rule for the endpoint selects is a
  redaction marker or a hash, also where rules overlap; a body is handed back unredacted only if
  there is no rule, it is not JSON, or no rule selects anything; sensitive header values and
  query values never survive and everything else does.
\<close>

record codec =
  unmarshal :: "string \<Rightarrow> json option"
  marshal :: "json \<Rightarrow> string option"
  sum256 :: "string \<Rightarrow> string"

definition hashValue :: "codec \<Rightarrow> json \<Rightarrow> string" where
  "hashValue cd v =
     (let s = (case v of JStr x \<Rightarrow> x
               | _ \<Rightarrow> (case marshal cd v of None \<Rightarrow> [] | Some b \<Rightarrow> b))
      in ''sha256:'' @ hex_encode (sum256 cd s))"

text \<open>The closure that both redaction functions pass to the walker.\<close>

definition redact_edit :: "codec \<Rightarrow> RedactionMode \<Rightarrow> edit" where
  "redact_edit cd mode parent k =
     (case mode of
        RedactModeRedact \<Rightarrow> obj_set parent k (JStr ''[REDACTED]'')
      | RedactModeHash \<Rightarrow>
          obj_set parent k (JStr (hashValue cd (case map_of parent k of None \<Rightarrow> JNull | Some v \<Rightarrow> v)))
      | RedactModeOmit \<Rightarrow> obj_del parent k)"

fun apply_rules :: "codec \<Rightarrow> field_redaction list \<Rightarrow> json \<Rightarrow> bool \<times> json" where
  "apply_rules cd [] data = (False, data)"
| "apply_rules cd (rule # rules) data =
     (case WalkAndApply data (JSONPath rule) (redact_edit cd (Mode rule)) of
        (matched, data1) \<Rightarrow>
          (case apply_rules cd rules data1 of
             (anyMatched, data2) \<Rightarrow> (matched \<or> anyMatched, data2)))"

definition redact_with :: "codec \<Rightarrow> field_redaction list \<Rightarrow> string \<Rightarrow> string \<times> bool" where
  "redact_with cd rules body =
     (case unmarshal cd body of
        None \<Rightarrow> (body, False)
      | Some data \<Rightarrow>
          (case apply_rules cd rules data of
             (anyMatched, data') \<Rightarrow>
               if \<not> anyMatched then (body, False)
               else (case marshal cd data' of None \<Rightarrow> (body, False) | Some redacted \<Rightarrow> (redacted, True))))"

definition RedactForLogging :: "codec \<Rightarrow> registry \<Rightarrow> string \<Rightarrow> string \<Rightarrow> string \<times> bool" where
  "RedactForLogging cd reg ep body =
     (let rules = RulesFor reg ep in
      if rules = [] then (body, False) else redact_with cd rules body)"

definition RedactFullBody :: "codec \<Rightarrow> string \<Rightarrow> string" where
  "RedactFullBody cd ep =
     (case marshal cd (JObj [(''endpoint'', JStr ep), (''redacted'', JBool True)]) of
        None \<Rightarrow> [] | Some b \<Rightarrow> b)"

definition RedactRequestBodyForLogging :: "codec \<Rightarrow> registry \<Rightarrow> string \<Rightarrow> string \<Rightarrow> string \<times> bool" where
  "RedactRequestBodyForLogging cd reg ep body =
     (let rules = RequestBodyRulesFor reg ep in
      if rules = [] then (body, False)
      else if list_ex (\<lambda>rule. JSONPath rule = ''$'') rules then (RedactFullBody cd ep, True)
      else redact_with cd rules body)"

section \<open>Headers and query strings\<close>

definition SensitiveHeaders :: "string list" where
  "SensitiveHeaders = [''x-amz-access-token'', ''authorization'', ''x-amz-security-token'',
     ''set-cookie'', ''cookie'']"

definition RedactHeaders :: "header \<Rightarrow> header" where
  "RedactHeaders h =
     map (\<lambda>(k, vals). if to_lower k \<in> set SensitiveHeaders then (k, [''[REDACTED]'']) else (k, vals)) h"

definition DefaultPIIQueryParams :: "string list" where
  "DefaultPIIQueryParams = [''buyeremail'', ''buyername'']"

definition queryRedactedValue :: string where
  "queryRedactedValue = ''%5BREDACTED%5D''"

definition pii_query_key :: "string list option \<Rightarrow> string \<Rightarrow> bool" where
  "pii_query_key extraLower key \<longleftrightarrow>
     to_lower key \<in> set DefaultPIIQueryParams
     \<or> (case extraLower of None \<Rightarrow> False | Some ex \<Rightarrow> to_lower key \<in> set ex)"

definition redact_part :: "string list option \<Rightarrow> string \<Rightarrow> string" where
  "redact_part extraLower part =
     (case index_byte part (CHR ''='') of
        None \<Rightarrow> part
      | Some eq \<Rightarrow>
          if pii_query_key extraLower (take eq part) then take eq part @ ''='' @ queryRedactedValue
          else part)"

definition RedactQueryString :: "string \<Rightarrow> string list option \<Rightarrow> string" where
  "RedactQueryString rawQuery extraLower =
     (if rawQuery = [] then []
      else join ''&'' (map (redact_part extraLower) (split_on (CHR ''&'') rawQuery)))"

section \<open>Lemmas on bodies\<close>

text \<open>What redaction leaves in place of a value.\<close>

definition redacted_value :: "json \<Rightarrow> bool" where
  "redacted_value v \<longleftrightarrow>
     (\<exists>t. v = JStr t \<and> (t = ''[REDACTED]'' \<or> (\<exists>d. t = ''sha256:'' @ hex_encode d)))"

lemma redact_edit_ok: "edit_ok redacted_value (redact_edit cd mode)"
  by (cases mode) (auto simp: edit_ok_def redact_edit_def map_of_obj_set map_of_obj_del redacted_value_def
      hashValue_def Let_def split: if_splits)

lemma redacted_is_string: "redacted_value x \<Longrightarrow> \<exists>t. x = JStr t"
  by (auto simp: redacted_value_def)

lemma apply_rules_Cons:
  "apply_rules cd (rule # rules) data =
     (let d1 = walkSegments (parsePath (JSONPath rule)) (redact_edit cd (Mode rule)) data;
          d2 = apply_rules cd rules (snd d1)
      in (fst d1 \<or> fst d2, snd d2))"
  by (simp add: WalkAndApply_def Let_def split: prod.splits)

lemma apply_rules_keeps:
  "(\<And>x. x \<in> set (select q data) \<Longrightarrow> redacted_value x) \<Longrightarrow>
   x \<in> set (select q (snd (apply_rules cd rules data))) \<Longrightarrow> redacted_value x"
proof (induction rules arbitrary: data x)
  case (Cons rule rules)
  let ?d = "snd (walkSegments (parsePath (JSONPath rule)) (redact_edit cd (Mode rule)) data)"
  have "redacted_value y" if "y \<in> set (select q ?d)" for y
    using walk_keeps [OF redact_edit_ok redacted_is_string] Cons.prems(1) that by blast
  with Cons.IH [of ?d x] Cons.prems(2) show ?case by (simp add: apply_rules_Cons Let_def del: apply_rules.simps(2))
qed simp

lemma apply_rules_redacts:
  "rule \<in> set rules \<Longrightarrow> \<forall>r \<in> set rules. path_ok (parsePath (JSONPath r)) \<Longrightarrow>
   x \<in> set (select (parsePath (JSONPath rule)) (snd (apply_rules cd rules data))) \<Longrightarrow> redacted_value x"
proof (induction rules arbitrary: data)
  case (Cons r rules)
  let ?d = "snd (walkSegments (parsePath (JSONPath r)) (redact_edit cd (Mode r)) data)"
  have step: "snd (apply_rules cd (r # rules) data) = snd (apply_rules cd rules ?d)"
    by (simp add: apply_rules_Cons Let_def del: apply_rules.simps(2))
  show ?case
  proof (cases "rule = r")
    case True
    have "redacted_value y" if "y \<in> set (select (parsePath (JSONPath r)) ?d)" for y
      using walk_edited [OF redact_edit_ok _ that] Cons.prems(2) by simp
    then show ?thesis using apply_rules_keeps Cons.prems(3) True unfolding step by blast
  next
    case False
    then show ?thesis using Cons.IH [of ?d] Cons.prems unfolding step by simp
  qed
qed simp

lemma apply_rules_no_match:
  "\<forall>r \<in> set rules. path_ok (parsePath (JSONPath r)) \<Longrightarrow> \<not> fst (apply_rules cd rules data) \<Longrightarrow>
   snd (apply_rules cd rules data) = data \<and> (\<forall>r \<in> set rules. select (parsePath (JSONPath r)) data = [])"
proof (induction rules arbitrary: data)
  case (Cons r rules)
  let ?w = "walkSegments (parsePath (JSONPath r)) (redact_edit cd (Mode r)) data"
  have f: "\<not> fst ?w" "\<not> fst (apply_rules cd rules (snd ?w))"
    using Cons.prems(2) by (auto simp: apply_rules_Cons Let_def simp del: apply_rules.simps(2))
  have nil: "select (parsePath (JSONPath r)) data = []"
    using walk_found [of "parsePath (JSONPath r)"] f(1) Cons.prems(1) by auto
  have "snd ?w = data" using walk_unfound f(1) by blast
  with f Cons nil show ?case by (simp add: apply_rules_Cons Let_def del: apply_rules.simps(2))
qed simp

lemma redact_with_result:
  assumes "\<forall>r \<in> set rules. path_ok (parsePath (JSONPath r))" "redact_with cd rules body = (out, flag)"
  shows "(flag \<longrightarrow> (\<exists>data'. marshal cd data' = Some out
            \<and> (\<forall>rule \<in> set rules. \<forall>x \<in> set (select (parsePath (JSONPath rule)) data'). redacted_value x)))
    \<and> (\<not> flag \<longrightarrow> out = body \<and>
         (unmarshal cd body = None
          \<or> (\<exists>data. unmarshal cd body = Some data
               \<and> ((\<forall>rule \<in> set rules. select (parsePath (JSONPath rule)) data = [])
                  \<or> marshal cd (snd (apply_rules cd rules data)) = None))))"
proof (cases "unmarshal cd body")
  case None
  then show ?thesis using assms(2) by (simp add: redact_with_def)
next
  case (Some data)
  obtain m d where d: "apply_rules cd rules data = (m, d)" by (metis prod.exhaust)
  have red: "redacted_value x" if "rule \<in> set rules" "x \<in> set (select (parsePath (JSONPath rule)) d)" for rule x
    using apply_rules_redacts [OF that(1) assms(1), of x cd data] that(2) d by simp
  have none: "\<forall>r \<in> set rules. select (parsePath (JSONPath r)) data = []" if "\<not> m"
    using apply_rules_no_match [OF assms(1), of cd data] that d by simp
  show ?thesis
    using assms(2) red none
    by (auto simp: redact_with_def Some d split: if_splits option.splits)
qed

section \<open>Properties\<close>

text \<open>C7: redaction of response bodies is complete. For the registry the proxy builds, a body that
  is reported as redacted is the encoding of a document in which every value that any rule of
  the endpoint selects is the redaction marker or a hash. A body that is reported as not
  redacted is returned unchanged, and then the endpoint has no rules, or the body cannot be decoded,
  or no rule selects anything in it, or the edited document could not be encoded.\<close>

theorem response_redaction_complete:
  assumes "RedactForLogging cd (SetFailClosed (NewRegistryWithExtras extras) fc) ep body = (out, flag)"
  defines "rules \<equiv> RulesFor (SetFailClosed (NewRegistryWithExtras extras) fc) ep"
  shows "(flag \<longrightarrow> (\<exists>data'. marshal cd data' = Some out
            \<and> (\<forall>rule \<in> set rules. \<forall>x \<in> set (select (parsePath (JSONPath rule)) data'). redacted_value x)))
    \<and> (\<not> flag \<longrightarrow> out = body \<and>
         (rules = [] \<or> unmarshal cd body = None
          \<or> (\<exists>data. unmarshal cd body = Some data
               \<and> ((\<forall>rule \<in> set rules. select (parsePath (JSONPath rule)) data = [])
                  \<or> marshal cd (snd (apply_rules cd rules data)) = None))))"
proof -
  have "rules = RulesFor NewRegistry ep"
    by (simp add: rules_def SetFailClosed_def NewRegistryWithExtras_def RulesFor_def)
  then have "rules = rules_at DefaultPIIRules ep @ rules_at ConditionalPIIRules ep"
    by (simp add: RulesFor_def NewRegistry_def)
  then have ok: "\<forall>r \<in> set rules. path_ok (parsePath (JSONPath r))"
    using rules_live_lookup [OF rules_live_default] rules_live_lookup [OF rules_live_conditional] by auto
  show ?thesis
  proof (cases "rules = []")
    case True
    then show ?thesis using assms(1) by (simp add: RedactForLogging_def rules_def)
  next
    case False
    then have "redact_with cd rules body = (out, flag)"
      using assms(1) by (simp add: RedactForLogging_def rules_def Let_def)
    from redact_with_result [OF ok this] show ?thesis by blast
  qed
qed

text \<open>A codec for a body of one report document: it knows just that document and its redaction.\<close>

definition demo_document :: "string \<Rightarrow> json" where
  "demo_document u = JObj [(''reportDocumentId'', JStr ''d1''), (''url'', JStr u)]"

definition demo_codec :: codec where
  "demo_codec =
     \<lparr>unmarshal = (\<lambda>b. if b = ''raw'' then Some (demo_document ''https://x'') else None),
      marshal = (\<lambda>v. if v = demo_document ''[REDACTED]'' then Some ''safe'' else None),
      sum256 = (\<lambda>_. [])\<rparr>"

theorem response_redaction_complete_witness:
  "\<exists>data'. marshal demo_codec data' = Some ''safe'' \<and>
     (\<forall>x \<in> set (select [''url''] data'). redacted_value x)"
proof -
  let ?ep = "''/reports/2021-06-30/documents/{documentId}''"
  let ?reg = "SetFailClosed (NewRegistryWithExtras []) True"
  have r: "RedactForLogging demo_codec ?reg ?ep ''raw'' = (''safe'', True)" by code_simp
  have "\<lparr>JSONPath = ''$.url'', Mode = RedactModeRedact\<rparr> \<in> set (RulesFor ?reg ?ep)"
    and p: "parsePath ''$.url'' = [''url'']" by code_simp+
  with response_redaction_complete [OF r] show ?thesis by fastforce
qed

text \<open>Headers. Redaction keeps the set of header names; the values of a sensitive header,
  however it is spelled, are replaced, and all others are kept.\<close>

theorem headers_redacted:
  "map fst (RedactHeaders h) = map fst h
   \<and> ((k, vals) \<in> set (RedactHeaders h) \<longrightarrow>
        (if to_lower k \<in> set SensitiveHeaders then vals = [''[REDACTED]''] else (k, vals) \<in> set h))"
  by (auto simp: RedactHeaders_def split: if_splits)

theorem headers_redacted_witness:
  "(''Cookie'', [''[REDACTED]'']) \<in> set (RedactHeaders [(''Cookie'', [''a=1'']), (''Accept'', [''x''])])"
proof -
  have "RedactHeaders [(''Cookie'', [''a=1'']), (''Accept'', [''x''])]
      = [(''Cookie'', [''[REDACTED]'']), (''Accept'', [''x''])]" by code_simp
  with headers_redacted [of "[(''Cookie'', [''a=1'']), (''Accept'', [''x''])]" "''Cookie''" "[''[REDACTED]'']"]
  show ?thesis by simp
qed

lemma redact_part_no_amp: "CHR ''&'' \<notin> set part \<Longrightarrow> CHR ''&'' \<notin> set (redact_part ex part)"
  by (auto simp: redact_part_def queryRedactedValue_def split: option.splits dest: in_set_takeD)

text \<open>Query strings. Redaction keeps the number and the order of the parameters; each is kept
  as it is, except that a parameter with a sensitive name, in any letter case, and a value has
  the value replaced by the marker.\<close>

theorem query_redacted:
  assumes "rawQuery \<noteq> []"
  shows "split_on (CHR ''&'') (RedactQueryString rawQuery ex) = map (redact_part ex) (split_on (CHR ''&'') rawQuery)
    \<and> (\<forall>key val. CHR ''='' \<notin> set key \<longrightarrow>
         redact_part ex (key @ ''='' @ val) =
           (if pii_query_key ex key then key @ ''='' @ queryRedactedValue else key @ ''='' @ val))"
proof -
  have amp: "\<forall>p \<in> set (map (redact_part ex) (split_on (CHR ''&'') rawQuery)). CHR ''&'' \<notin> set p"
    using split_on_elem_no_sep redact_part_no_amp by auto
  have "split_on (CHR ''&'') (RedactQueryString rawQuery ex) = map (redact_part ex) (split_on (CHR ''&'') rawQuery)"
    using split_on_join [OF _ amp] assms by (simp add: RedactQueryString_def)
  moreover have "redact_part ex (key @ ''='' @ val) =
      (if pii_query_key ex key then key @ ''='' @ queryRedactedValue else key @ ''='' @ val)"
    if "CHR ''='' \<notin> set key" for key val
    using that by (simp add: redact_part_def index_byte_append)
  ultimately show ?thesis by blast
qed

theorem query_redacted_witness:
  "split_on (CHR ''&'') (RedactQueryString ''a=1&BuyerEmail=x@y'' None) = [''a=1'', ''BuyerEmail=%5BREDACTED%5D'']"
proof -
  have "map (redact_part None) (split_on (CHR ''&'') ''a=1&BuyerEmail=x@y'')
      = [''a=1'', ''BuyerEmail=%5BREDACTED%5D'']" by code_simp
  then show ?thesis using query_redacted [of "''a=1&BuyerEmail=x@y''" None] by simp
qed

end
