(* ===== verification/AsyncLogger.thy ===== *)
theory AsyncLogger
  imports Storage Bodies PiiEngine "HOL-Library.Sublist"
begin

text \<open>
  The asynchronous logger (\<^verbatim>\<open>internal/logging/logger.go\<close>, \<^verbatim>\<open>entry.go\<close>): requests put entries on a bounded channel without
  waiting; a worker collects them in batches, redacts and writes the bodies and then inserts the
  metadata rows of the batch in one transaction.

  The logger's state is the channel, the worker's batch, the drop counter and whether the channel is
  closed and the worker has returned. Each select of the worker is a step; what \<^verbatim>\<open>flush\<close> does to the stores is
  a function on their state, so the order of sends, receives, ticks and the close is free. A channel
  of capacity zero, which hands entries over only to a waiting worker, is not modelled; the program
  uses 10000. Errors of the stores are only logged.

  Shown: in every run the entries flushed, batched and queued are the accepted ones in order, no batch is
  larger than 100, every entry is accepted or counted as dropped; after \<^verbatim>\<open>Close\<close> the worker
  returns with every accepted entry flushed. Redaction runs before the body is written.
\<close>

record log_entry =
  le_Meta :: request_log
  le_Body :: "body_entry option"
  le_RequestBodyEndpoint :: string

text \<open>\<^verbatim>\<open>GenerateRequestID\<close>: 16 random bytes in hex.\<close>

definition GenerateRequestID :: "string \<Rightarrow> string" where
  "GenerateRequestID random = hex_encode random"

section \<open>Redaction\<close>

type_synonym engine = "codec \<times> registry"

definition redact_response :: "engine \<Rightarrow> string \<Rightarrow> bool \<Rightarrow> body_entry \<Rightarrow> body_entry" where
  "redact_response eng classifiedPath known body =
     (case eng of (cd, reg) \<Rightarrow>
        if IsFullBodyPII reg classifiedPath known
        then body\<lparr>en_ResponseBody := Some (RedactFullBody cd classifiedPath)\<rparr>
        else case en_ResponseBody body of
          None \<Rightarrow> body
        | Some b \<Rightarrow> body\<lparr>en_ResponseBody := Some (fst (RedactForLogging cd reg classifiedPath b))\<rparr>)"

definition redact_request :: "engine \<Rightarrow> string \<Rightarrow> bool \<Rightarrow> string \<Rightarrow> body_entry \<Rightarrow> body_entry" where
  "redact_request eng classifiedPath known requestBodyEndpoint body =
     (case eng of (cd, reg) \<Rightarrow>
        (case en_RequestBody body of
           None \<Rightarrow> body
         | Some b \<Rightarrow>
             let reqEndpoint = (if requestBodyEndpoint = [] then classifiedPath else requestBodyEndpoint) in
             (case RedactRequestBodyForLogging cd reg reqEndpoint b of
                (redacted, True) \<Rightarrow> body\<lparr>en_RequestBody := Some redacted\<rparr>
              | (redacted, False) \<Rightarrow>
                  if IsFullBodyPII reg classifiedPath known
                  then body\<lparr>en_RequestBody := Some (RedactFullBody cd reqEndpoint)\<rparr>
                  else body)))"

definition redactBody :: "engine option \<Rightarrow> request_log \<Rightarrow> string \<Rightarrow> body_entry \<Rightarrow> body_entry" where
  "redactBody eng meta requestBodyEndpoint body =
     (case eng of
        None \<Rightarrow> body
      | Some e \<Rightarrow>
          if \<not> lg_PIIRedactedRequest meta \<and> \<not> lg_PIIRedactedResponse meta then body
          else case ClassifyKnown (lg_Path meta) of
            (classifiedPath, known) \<Rightarrow>
              (let body1 = (if lg_PIIRedactedResponse meta then redact_response e classifiedPath known body else body)
               in if lg_PIIRedactedRequest meta then redact_request e classifiedPath known requestBodyEndpoint body1
                  else body1))"

section \<open>Flushing a batch\<close>

text \<open>The stores: the body store with its file system, and the metadata table.\<close>

type_synonym 'a sink = "'a fs_scheme body_store \<times> 'a fs_scheme \<times> db"

definition flush_body ::
  "jsonl \<Rightarrow> engine option \<Rightarrow> log_entry \<Rightarrow> 'a fs_scheme body_store \<times> 'a fs_scheme \<Rightarrow>
     log_entry \<times> 'a fs_scheme body_store \<times> 'a fs_scheme" where
  "flush_body js eng entry bss =
     (case bss of (bs, s) \<Rightarrow>
        (case le_Body entry of
           None \<Rightarrow> (entry, bs, s)
         | Some b \<Rightarrow>
             let b1 = redactBody eng (le_Meta entry) (le_RequestBodyEndpoint entry) b;
                 entry1 = entry\<lparr>le_Body := Some b1\<rparr>
             in (case store_Write js b1 bs s of
                   (Inl e, bs1, s1) \<Rightarrow> (entry1, bs1, s1)
                 | (Inr (file, off, len), bs1, s1) \<Rightarrow>
                     (entry1\<lparr>le_Meta := (le_Meta entry1)\<lparr>lg_BodyFile := file, lg_BodyOffset := off, lg_BodyLength := len\<rparr>\<rparr>,
                      bs1, s1))))"

fun flush_bodies ::
  "jsonl \<Rightarrow> engine option \<Rightarrow> log_entry list \<Rightarrow> 'a fs_scheme body_store \<times> 'a fs_scheme \<Rightarrow>
     log_entry list \<times> 'a fs_scheme body_store \<times> 'a fs_scheme" where
  "flush_bodies js eng [] bss = ([], bss)"
| "flush_bodies js eng (entry # batch) bss =
     (case flush_body js eng entry bss of
        (entry1, bss1) \<Rightarrow>
          (case flush_bodies js eng batch bss1 of (batch1, bss2) \<Rightarrow> (entry1 # batch1, bss2)))"

definition flush :: "jsonl \<Rightarrow> engine option \<Rightarrow> log_entry list \<Rightarrow> 'a sink \<Rightarrow> 'a sink" where
  "flush js eng batch sk =
     (if batch = [] then sk
      else case sk of (bs, s, d) \<Rightarrow>
        (case flush_bodies js eng batch (bs, s) of
           (batch1, bs1, s1) \<Rightarrow> (bs1, s1, snd (LogRequestBatch (map le_Meta batch1) d))))"

section \<open>The channel and the worker\<close>

record alog =
  al_entries :: "log_entry list"
  al_size :: nat
  al_closed :: bool
  al_dropped :: int
  al_batch :: "log_entry list"
  al_done :: bool

definition defaultBatchSize :: nat where
  "defaultBatchSize = 100"

definition NewAsyncLogger :: "nat \<Rightarrow> alog" where
  "NewAsyncLogger bufferSize =
     \<lparr>al_entries = [], al_size = bufferSize, al_closed = False, al_dropped = 0, al_batch = [], al_done = False\<rparr>"

text \<open>A send on the closed channel panics; the deferred function counts it.\<close>

definition Log :: "log_entry \<Rightarrow> alog \<Rightarrow> alog" where
  "Log entry l =
     (if al_closed l then l\<lparr>al_dropped := al_dropped l + 1\<rparr>
      else if length (al_entries l) < al_size l then l\<lparr>al_entries := al_entries l @ [entry]\<rparr>
      else l\<lparr>al_dropped := al_dropped l + 1\<rparr>)"

definition Close :: "alog \<Rightarrow> alog" where
  "Close l = l\<lparr>al_closed := True\<rparr>"

text \<open>The two cases of the worker's select; \<open>None\<close> when the case is not ready.\<close>

definition worker_recv :: "(log_entry list \<Rightarrow> 's \<Rightarrow> 's) \<Rightarrow> alog \<Rightarrow> 's \<Rightarrow> (alog \<times> 's) option" where
  "worker_recv fl l x =
     (if al_done l then None
      else case al_entries l of
        [] \<Rightarrow> (if al_closed l then Some (l\<lparr>al_batch := [], al_done := True\<rparr>, fl (al_batch l) x) else None)
      | e # es \<Rightarrow>
          (let batch = al_batch l @ [e] in
           if defaultBatchSize \<le> length batch
           then Some (l\<lparr>al_entries := es, al_batch := []\<rparr>, fl batch x)
           else Some (l\<lparr>al_entries := es, al_batch := batch\<rparr>, x)))"

definition worker_tick :: "(log_entry list \<Rightarrow> 's \<Rightarrow> 's) \<Rightarrow> alog \<Rightarrow> 's \<Rightarrow> (alog \<times> 's) option" where
  "worker_tick fl l x =
     (if al_done l then None
      else if al_batch l \<noteq> [] then Some (l\<lparr>al_batch := []\<rparr>, fl (al_batch l) x)
      else Some (l, x))"

text \<open>A run: the calls of the request goroutines in the order of their channel operations, and the
  worker's steps between them.\<close>

inductive logger_run :: "(log_entry list \<Rightarrow> 's \<Rightarrow> 's) \<Rightarrow> nat \<Rightarrow> 's \<Rightarrow> log_entry list \<Rightarrow> alog \<Rightarrow> 's \<Rightarrow> bool"
  for fl n x0 where
  run_new: "logger_run fl n x0 [] (NewAsyncLogger n) x0"
| run_log: "logger_run fl n x0 es l x \<Longrightarrow> logger_run fl n x0 (es @ [e]) (Log e l) x"
| run_recv: "logger_run fl n x0 es l x \<Longrightarrow> worker_recv fl l x = Some (l', x') \<Longrightarrow> logger_run fl n x0 es l' x'"
| run_tick: "logger_run fl n x0 es l x \<Longrightarrow> worker_tick fl l x = Some (l', x') \<Longrightarrow> logger_run fl n x0 es l' x'"
| run_close: "logger_run fl n x0 es l x \<Longrightarrow> logger_run fl n x0 es (Close l) x"

text \<open>The worker alone, on a closed channel: \<^verbatim>\<open>Close\<close> waits for it.\<close>

function worker_drain :: "(log_entry list \<Rightarrow> 's \<Rightarrow> 's) \<Rightarrow> alog \<Rightarrow> 's \<Rightarrow> alog \<times> 's" where
  "worker_drain fl l x =
     (if al_closed l then (case worker_recv fl l x of None \<Rightarrow> (l, x) | Some (l', x') \<Rightarrow> worker_drain fl l' x') else (l, x))"
  by pat_completeness auto
termination
  by (relation "measure (\<lambda>(fl, l, x). length (al_entries l) + (if al_done l then 0 else 1))")
    (auto simp: worker_recv_def Let_def split: if_splits list.splits)

declare worker_drain.simps [simp del]

section \<open>Every entry is flushed once or counted\<close>

text \<open>The history of a state: batches already flushed, in order.\<close>

definition flushed ::
  "(log_entry list \<Rightarrow> 's \<Rightarrow> 's) \<Rightarrow> 's \<Rightarrow> log_entry list list \<Rightarrow> log_entry list \<Rightarrow> alog \<Rightarrow> 's \<Rightarrow> bool" where
  "flushed fl x0 bs acc l x \<longleftrightarrow> x = fold fl bs x0 \<and> acc = concat bs @ al_batch l @ al_entries l \<and>
     (\<forall>b \<in> set bs. length b \<le> defaultBatchSize) \<and> length (al_batch l) < defaultBatchSize \<and>
     (al_done l \<longrightarrow> al_closed l \<and> al_batch l = [] \<and> al_entries l = [])"

lemma flushed_recv:
  assumes "flushed fl x0 bs acc l x" "worker_recv fl l x = Some (l', x')"
  shows "\<exists>bs'. flushed fl x0 bs' acc l' x'"
proof (cases "al_entries l")
  case Nil
  then have "l' = l\<lparr>al_batch := [], al_done := True\<rparr>" "x' = fl (al_batch l) x" "al_closed l"
    using assms(2) by (auto simp: worker_recv_def split: if_splits)
  then have "flushed fl x0 (bs @ [al_batch l]) acc l' x'"
    using assms(1) Nil by (auto simp: flushed_def defaultBatchSize_def)
  then show ?thesis by blast
next
  case (Cons e es)
  let ?b = "al_batch l @ [e]"
  have nd: "\<not> al_done l" using assms(2) by (auto simp: worker_recv_def)
  show ?thesis
  proof (cases "defaultBatchSize \<le> length ?b")
    case True
    then have "l' = l\<lparr>al_entries := es, al_batch := []\<rparr>" "x' = fl ?b x"
      using assms(2) Cons nd by (simp_all add: worker_recv_def)
    then have "flushed fl x0 (bs @ [?b]) acc l' x'"
      using assms(1) Cons nd by (auto simp: flushed_def defaultBatchSize_def)
    then show ?thesis by blast
  next
    case False
    then have "l' = l\<lparr>al_entries := es, al_batch := ?b\<rparr>" "x' = x"
      using assms(2) Cons nd by (simp_all add: worker_recv_def)
    then have "flushed fl x0 bs acc l' x'" using assms(1) Cons nd False by (auto simp: flushed_def)
    then show ?thesis by blast
  qed
qed

lemma flushed_tick:
  assumes "flushed fl x0 bs acc l x" "worker_tick fl l x = Some (l', x')"
  shows "\<exists>bs'. flushed fl x0 bs' acc l' x'"
proof (cases "al_batch l = []")
  case True
  then show ?thesis using assms by (auto simp: worker_tick_def split: if_splits)
next
  case False
  then have "l' = l\<lparr>al_batch := []\<rparr>" "x' = fl (al_batch l) x"
    using assms(2) by (auto simp: worker_tick_def split: if_splits)
  then have "flushed fl x0 (bs @ [al_batch l]) acc l' x'"
    using assms(1) by (auto simp: flushed_def defaultBatchSize_def)
  then show ?thesis by blast
qed

lemma worker_frame:
  "worker_recv fl l x = Some (l', x') \<Longrightarrow> al_dropped l' = al_dropped l \<and> al_closed l' = al_closed l \<and> al_size l' = al_size l \<and> length (al_entries l') \<le> length (al_entries l)"
  "worker_tick fl l x = Some (l', x') \<Longrightarrow> al_dropped l' = al_dropped l \<and> al_closed l' = al_closed l \<and> al_size l' = al_size l \<and> al_entries l' = al_entries l"
  by (auto simp: worker_recv_def worker_tick_def Let_def split: if_splits list.splits)

lemma Log_cases:
  "Log e l = l\<lparr>al_entries := al_entries l @ [e]\<rparr> \<and> \<not> al_closed l \<and> length (al_entries l) < al_size l \<or>
   Log e l = l\<lparr>al_dropped := al_dropped l + 1\<rparr> \<and> (al_closed l \<or> length (al_entries l) = al_size l)"
  if "length (al_entries l) \<le> al_size l"
  using that by (auto simp: Log_def)

lemma run_flushed:
  assumes "logger_run fl n x0 es l x"
  shows "\<exists>bs acc. flushed fl x0 bs acc l x \<and> subseq acc es \<and> al_dropped l = int (length es) - int (length acc) \<and>
    al_size l = n \<and> length (al_entries l) \<le> n"
  using assms
proof (induction rule: logger_run.induct)
  case run_new
  show ?case
    by (intro exI [of _ "[]"]) (simp add: flushed_def NewAsyncLogger_def defaultBatchSize_def)
next
  case (run_log es l x e)
  then obtain bs acc where IH: "flushed fl x0 bs acc l x" "subseq acc es" "al_dropped l = int (length es) - int (length acc)"
    "al_size l = n" "length (al_entries l) \<le> n" by blast
  have "length (al_entries l) \<le> al_size l" using IH(4,5) by simp
  from Log_cases [OF this, of e] show ?case
  proof (elim disjE)
    assume acc: "Log e l = l\<lparr>al_entries := al_entries l @ [e]\<rparr> \<and> \<not> al_closed l \<and> length (al_entries l) < al_size l"
    then have "flushed fl x0 bs (acc @ [e]) (Log e l) x" using IH(1) by (auto simp: flushed_def)
    moreover have "subseq (acc @ [e]) (es @ [e])" using IH(2) by simp
    ultimately show ?thesis using IH acc by (intro exI [of _ bs] exI [of _ "acc @ [e]"]) simp
  next
    assume rej: "Log e l = l\<lparr>al_dropped := al_dropped l + 1\<rparr> \<and> (al_closed l \<or> length (al_entries l) = al_size l)"
    then have "flushed fl x0 bs acc (Log e l) x" "subseq acc (es @ [e])"
      using IH(1,2) by (auto simp: flushed_def)
    then show ?thesis using IH rej by (intro exI [of _ bs] exI [of _ acc]) simp
  qed
next
  case (run_recv es l x l' x')
  then show ?case using flushed_recv worker_frame(1) [OF run_recv.hyps(2)] by (metis le_trans)
next
  case (run_tick es l x l' x')
  then show ?case using flushed_tick worker_frame(2) [OF run_tick.hyps(2)] by metis
next
  case (run_close es l x)
  then show ?case by (auto simp: flushed_def Close_def)
qed

lemma worker_drain_done:
  assumes "flushed fl x0 bs acc l x" "al_closed l" "worker_drain fl l x = (l', x')"
  shows "\<exists>bs'. flushed fl x0 bs' acc l' x' \<and> al_done l' \<and> al_dropped l' = al_dropped l"
  using assms
proof (induction fl l x arbitrary: bs rule: worker_drain.induct)
  case (1 fl l x)
  show ?case
  proof (cases "worker_recv fl l x")
    case None
    then have "al_done l" using 1(3) by (auto simp: worker_recv_def Let_def split: if_splits list.splits)
    then show ?thesis using 1(2,3,4) None by (subst (asm) worker_drain.simps) auto
  next
    case (Some p)
    obtain l1 x1 where p: "p = (l1, x1)" by fastforce
    obtain bs1 where b1: "flushed fl x0 bs1 acc l1 x1" using flushed_recv [OF 1(2)] Some p by blast
    have fr: "al_dropped l1 = al_dropped l" "al_closed l1" using worker_frame(1) [of fl l x] Some p 1(3) by auto
    have "worker_drain fl l1 x1 = (l', x')" using 1(3,4) Some p by (subst (asm) worker_drain.simps) simp
    from 1(1) [OF 1(3) Some p [symmetric] b1 fr(2) this] fr(1) show ?thesis by simp
  qed
qed

text \<open>C17: the logger never blocks and never loses track of an entry: in every interleaving of sends, worker
  steps, ticks and a close, the entries handed to the stores, held in the batch and queued are, in
  order, the accepted ones, each batch has at most 100 entries, and the accepted and the dropped
  ones add up to those sent.\<close>

theorem logger_keeps_order:
  assumes "logger_run fl n x0 es l x"
  shows "\<exists>bs acc. x = fold fl bs x0 \<and> concat bs @ al_batch l @ al_entries l = acc \<and> subseq acc es \<and>
    (\<forall>b \<in> set bs. length b \<le> 100) \<and> length (al_entries l) \<le> n \<and>
    al_dropped l + int (length acc) = int (length es)"
proof -
  obtain bs acc where *: "flushed fl x0 bs acc l x" "subseq acc es" "al_dropped l = int (length es) - int (length acc)"
    "length (al_entries l) \<le> n"
    using run_flushed [OF assms] by blast
  then show ?thesis
    by (intro exI [of _ bs] exI [of _ acc]) (simp add: flushed_def defaultBatchSize_def)
qed

text \<open>C18: when the logger is closed, the worker returns after finitely many receives, and by then every
  accepted entry has been handed to the stores, in order and in batches of at most 100.\<close>

theorem close_flushes_accepted:
  assumes "logger_run fl n x0 es l x" "worker_drain fl (Close l) x = (l', x')"
  shows "al_done l' \<and> (\<exists>bs. x' = fold fl bs x0 \<and> (\<forall>b \<in> set bs. length b \<le> 100) \<and> subseq (concat bs) es \<and>
    al_dropped l' + int (length (concat bs)) = int (length es))"
proof -
  obtain bs acc where *: "flushed fl x0 bs acc (Close l) x" "subseq acc es"
    "al_dropped (Close l) = int (length es) - int (length acc)"
    using run_flushed [OF run_close [OF assms(1)]] by blast
  obtain bs' where b: "flushed fl x0 bs' acc l' x'" "al_done l'" "al_dropped l' = al_dropped (Close l)"
    using worker_drain_done [OF *(1) _ assms(2)] by (auto simp: Close_def)
  then have acc: "acc = concat bs'" and x': "x' = fold fl bs' x0" and len: "\<forall>b \<in> set bs'. length b \<le> 100"
    by (simp_all add: flushed_def defaultBatchSize_def)
  have "al_dropped l' + int (length (concat bs')) = int (length es)" using b(3) *(3) acc by simp
  moreover have "subseq (concat bs') es" using *(2) acc by simp
  ultimately show ?thesis using b(2) x' len by (intro conjI exI [of _ bs'])
qed

section \<open>A run\<close>

definition demo_log :: "string \<Rightarrow> log_entry" where
  "demo_log i = \<lparr>le_Meta = demo_row i ''A1'' 20, le_Body = None, le_RequestBodyEndpoint = []\<rparr>"

definition demo_fl :: "log_entry list \<Rightarrow> log_entry list list \<Rightarrow> log_entry list list" where
  "demo_fl b x = x @ [b]"

definition demo_logger :: alog where
  "demo_logger = Log (demo_log ''2'') (Log (demo_log ''1'') (NewAsyncLogger 1))"

lemma demo_logger_run: "logger_run demo_fl 1 [] [demo_log ''1'', demo_log ''2''] demo_logger []"
  using run_log [OF run_log [OF run_new [of demo_fl 1 "[]"], of "demo_log ''1''"], of "demo_log ''2''"]
  by (simp add: demo_logger_def)

theorem logger_keeps_order_witness:
  "\<exists>bs acc. [] = fold demo_fl bs [] \<and> concat bs @ al_batch demo_logger @ al_entries demo_logger = acc \<and>
     subseq acc [demo_log ''1'', demo_log ''2''] \<and> al_dropped demo_logger + int (length acc) = 2"
  using logger_keeps_order [OF demo_logger_run] by auto

theorem close_flushes_accepted_witness:
  "al_done (fst (worker_drain demo_fl (Close demo_logger) [])) \<and> snd (worker_drain demo_fl (Close demo_logger) []) = [[demo_log ''1'']]"
proof -
  have "worker_drain demo_fl (Close demo_logger) [] =
      (fst (worker_drain demo_fl (Close demo_logger) []), snd (worker_drain demo_fl (Close demo_logger) []))" by simp
  from close_flushes_accepted [OF demo_logger_run this]
  have "al_done (fst (worker_drain demo_fl (Close demo_logger) []))" by blast
  moreover have "snd (worker_drain demo_fl (Close demo_logger) []) = [[demo_log ''1'']]" by code_simp
  ultimately show ?thesis by blast
qed

end
