(* ===== verification/MemCache.thy ===== *)
theory MemCache
  imports Http
begin

text \<open>
  The response cache: the interface \<^verbatim>\<open>Cache\<close> of \<^verbatim>\<open>internal/cache/cache.go\<close> as a contract, and
  \<^verbatim>\<open>MemoryCache\<close> of \<^verbatim>\<open>internal/cache/memory.go\<close>, the LRU cache that keeps it.

  \<^verbatim>\<open>entries\<close> maps a key to its entry and \<^verbatim>\<open>lruList\<close> lists the keys, most recently used
  first; a \<^verbatim>\<open>*list.Element\<close> is identified by its key. Every method runs under \<^verbatim>\<open>mc.mu\<close>.

  The contract says what a hit may be: the response of the last \<^verbatim>\<open>Set\<close> of that key, within its
  time to live and with no deletion since. An entry may vanish at any time. The main lemma is
  proved once from the contract; the invariants of the LRU structure discharge it.
\<close>

record cached_response =
  StatusCode :: nat
  Headers :: header
  Body :: string
  CachedAt :: time
  TTL :: duration
  SourceRequestID :: string

record cache_stats =
  Hits :: nat
  Misses :: nat
  Evictions :: nat
  BytesUsed :: int
  EntryCount :: nat

record cache_entry =
  ce_response :: cached_response
  ce_expiresAt :: time
  ce_size :: int

record mem_cache =
  mc_entries :: "string \<rightharpoonup> cache_entry"
  mc_lru :: "string list"
  mc_maxBytes :: int
  mc_usedBytes :: int
  mc_hits :: nat
  mc_misses :: nat
  mc_evictions :: nat
  mc_stopped :: bool

definition NewMemoryCache :: "int \<Rightarrow> mem_cache" where
  "NewMemoryCache maxBytes =
     \<lparr>mc_entries = Map.empty, mc_lru = [], mc_maxBytes = maxBytes, mc_usedBytes = 0,
      mc_hits = 0, mc_misses = 0, mc_evictions = 0, mc_stopped = False\<rparr>"

definition entrySize :: "cached_response \<Rightarrow> int" where
  "entrySize resp =
     int (length (Body resp))
     + sum_list (map (\<lambda>(k, vals). int (length k) + sum_list (map (int \<circ> length) vals)) (Headers resp))
     + 128"

definition removeLocked :: "mem_cache \<Rightarrow> string \<Rightarrow> mem_cache" where
  "removeLocked mc key =
     (case mc_entries mc key of
        None \<Rightarrow> mc
      | Some entry \<Rightarrow>
          mc\<lparr>mc_lru := filter (\<lambda>k. k \<noteq> key) (mc_lru mc),
             mc_entries := (mc_entries mc)(key := None),
             mc_usedBytes := mc_usedBytes mc - ce_size entry\<rparr>)"

definition evictLRULocked :: "mem_cache \<Rightarrow> mem_cache" where
  "evictLRULocked mc =
     (if mc_lru mc = [] then mc
      else let mc1 = removeLocked mc (last (mc_lru mc)) in mc1\<lparr>mc_evictions := Suc (mc_evictions mc1)\<rparr>)"

definition mc_Get :: "mem_cache \<Rightarrow> string \<Rightarrow> time \<Rightarrow> cached_response option \<times> mem_cache" where
  "mc_Get mc key t =
     (case mc_entries mc key of
        None \<Rightarrow> (None, mc\<lparr>mc_misses := Suc (mc_misses mc)\<rparr>)
      | Some entry \<Rightarrow>
          if t > ce_expiresAt entry then
            (let mc1 = removeLocked mc key in (None, mc1\<lparr>mc_misses := Suc (mc_misses mc1)\<rparr>))
          else
            (Some (ce_response entry),
             mc\<lparr>mc_lru := key # filter (\<lambda>k. k \<noteq> key) (mc_lru mc), mc_hits := Suc (mc_hits mc)\<rparr>))"

text \<open>The eviction loops: evict the least recently used entry while more than \<open>limit\<close> bytes are
  in use. Each round takes one key off the list, so its length bounds the rounds.\<close>

fun evict_rounds :: "nat \<Rightarrow> int \<Rightarrow> mem_cache \<Rightarrow> mem_cache" where
  "evict_rounds 0 limit mc = mc"
| "evict_rounds (Suc n) limit mc =
     (if mc_maxBytes mc > 0 \<and> mc_usedBytes mc > limit \<and> mc_lru mc \<noteq> []
      then evict_rounds n limit (evictLRULocked mc) else mc)"

definition evict_to :: "int \<Rightarrow> mem_cache \<Rightarrow> mem_cache" where
  "evict_to limit mc = evict_rounds (length (mc_lru mc)) limit mc"

definition mc_Set :: "mem_cache \<Rightarrow> string \<Rightarrow> cached_response \<Rightarrow> duration \<Rightarrow> time \<Rightarrow> mem_cache" where
  "mc_Set mc0 key resp ttl t =
     (let size = entrySize resp;
          mc1 = removeLocked mc0 key;
          mc2 = evict_to (mc_maxBytes mc1 - size) mc1;
          entry = \<lparr>ce_response = resp, ce_expiresAt = t + ttl, ce_size = size\<rparr>
      in mc2\<lparr>mc_lru := key # mc_lru mc2, mc_entries := (mc_entries mc2)(key \<mapsto> entry),
             mc_usedBytes := mc_usedBytes mc2 + size\<rparr>)"

definition mc_Delete :: "mem_cache \<Rightarrow> string \<Rightarrow> mem_cache" where
  "mc_Delete mc key = (if mc_entries mc key \<noteq> None then removeLocked mc key else mc)"

text \<open>The two loops over the map visit every key once, in any order; here in list order.\<close>

definition mc_DeleteByPrefix :: "mem_cache \<Rightarrow> string \<Rightarrow> mem_cache" where
  "mc_DeleteByPrefix mc prefix =
     foldl removeLocked mc (filter (\<lambda>k. has_prefix k prefix) (mc_lru mc))"

definition evict_one :: "mem_cache \<Rightarrow> string \<Rightarrow> mem_cache" where
  "evict_one mc key = (let mc1 = removeLocked mc key in mc1\<lparr>mc_evictions := Suc (mc_evictions mc1)\<rparr>)"

definition is_expired :: "mem_cache \<Rightarrow> time \<Rightarrow> string \<Rightarrow> bool" where
  "is_expired mc t key =
     (case mc_entries mc key of None \<Rightarrow> False | Some entry \<Rightarrow> t > ce_expiresAt entry)"

definition evictExpired :: "mem_cache \<Rightarrow> time \<Rightarrow> mem_cache" where
  "evictExpired mc t =
     (let mc1 = foldl evict_one mc (filter (is_expired mc t) (mc_lru mc));
          threshold = mc_maxBytes mc * 8 div 10
      in evict_to threshold mc1)"

definition mc_Stats :: "mem_cache \<Rightarrow> cache_stats" where
  "mc_Stats mc =
     \<lparr>Hits = mc_hits mc, Misses = mc_misses mc, Evictions = mc_evictions mc,
      BytesUsed = mc_usedBytes mc, EntryCount = card (dom (mc_entries mc))\<rparr>"

definition mc_Close :: "mem_cache \<Rightarrow> mem_cache" where
  "mc_Close mc =
     mc\<lparr>mc_stopped := True, mc_entries := Map.empty, mc_lru := [], mc_usedBytes := 0\<rparr>"

section \<open>The structural invariant\<close>

definition entry_bytes :: "mem_cache \<Rightarrow> string \<Rightarrow> int" where
  "entry_bytes mc k = (case mc_entries mc k of None \<Rightarrow> 0 | Some e \<Rightarrow> ce_size e)"

definition mc_inv :: "mem_cache \<Rightarrow> bool" where
  "mc_inv mc \<longleftrightarrow>
     distinct (mc_lru mc) \<and> set (mc_lru mc) = dom (mc_entries mc)
     \<and> mc_usedBytes mc = sum_list (map (entry_bytes mc) (mc_lru mc))
     \<and> (\<forall>k e. mc_entries mc k = Some e \<longrightarrow> ce_size e = entrySize (ce_response e))"

lemma entrySize_pos: "128 \<le> entrySize resp"
proof -
  have inner: "0 \<le> sum_list (map (int \<circ> length) vs)" for vs :: "string list"
    by (intro sum_list_nonneg) auto
  have "0 \<le> sum_list (map (\<lambda>(k, vals). int (length k) + sum_list (map (int \<circ> length) vals)) (Headers resp))"
    by (intro sum_list_nonneg) (use inner in \<open>auto simp: add_nonneg_nonneg\<close>)
  then show ?thesis by (simp add: entrySize_def)
qed

lemma mc_inv_New: "mc_inv (NewMemoryCache n)"
  by (simp add: mc_inv_def NewMemoryCache_def)

lemma mc_inv_mem: "mc_inv mc \<Longrightarrow> mc_entries mc k = Some e \<Longrightarrow> k \<in> set (mc_lru mc)"
  by (auto simp: mc_inv_def)

lemma removeLocked_entries [simp]:
  "mc_entries (removeLocked mc key) = (mc_entries mc)(key := None)"
  "mc_maxBytes (removeLocked mc key) = mc_maxBytes mc"
  by (auto simp: removeLocked_def fun_eq_iff split: option.splits)

lemma removeLocked_lru:
  "mc_inv mc \<Longrightarrow> mc_lru (removeLocked mc key) = filter (\<lambda>k. k \<noteq> key) (mc_lru mc)"
  by (auto simp: removeLocked_def mc_inv_def split: option.splits intro!: filter_True [symmetric])

lemma sum_list_filter_out:
  "distinct xs \<Longrightarrow> k \<in> set xs \<Longrightarrow>
   sum_list (map f (filter (\<lambda>x. x \<noteq> k) xs)) = sum_list (map f xs) - (f k :: int)"
proof (induction xs)
  case (Cons x xs)
  show ?case
  proof (cases "x = k")
    case True
    with Cons.prems have "filter (\<lambda>x. x \<noteq> k) xs = xs" by (auto intro!: filter_True)
    with True show ?thesis by simp
  next
    case False
    with Cons show ?thesis by simp
  qed
qed simp

lemma mc_inv_removeLocked: "mc_inv mc \<Longrightarrow> mc_inv (removeLocked mc key)"
proof -
  assume inv: "mc_inv mc"
  show ?thesis
  proof (cases "mc_entries mc key")
    case None
    with inv show ?thesis by (simp add: removeLocked_def)
  next
    case (Some e)
    have bytes: "map (entry_bytes (removeLocked mc key)) (filter (\<lambda>k. k \<noteq> key) (mc_lru mc))
        = map (entry_bytes mc) (filter (\<lambda>k. k \<noteq> key) (mc_lru mc))"
      by (auto simp: entry_bytes_def)
    have "sum_list (map (entry_bytes mc) (filter (\<lambda>k. k \<noteq> key) (mc_lru mc)))
        = mc_usedBytes mc - ce_size e"
      using inv Some mc_inv_mem [OF inv Some]
      by (simp add: sum_list_filter_out mc_inv_def) (simp add: entry_bytes_def)
    moreover have "mc_usedBytes (removeLocked mc key) = mc_usedBytes mc - ce_size e"
      using Some by (simp add: removeLocked_def)
    ultimately have "mc_usedBytes (removeLocked mc key)
        = sum_list (map (entry_bytes (removeLocked mc key)) (mc_lru (removeLocked mc key)))"
      by (simp only: removeLocked_lru [OF inv] bytes)
    then show ?thesis
      using inv by (auto simp: mc_inv_def removeLocked_lru [OF inv])
  qed
qed

text \<open>The counters do not matter for the invariant.\<close>

lemma mc_inv_counters [simp]:
  "mc_inv (mc\<lparr>mc_evictions := n\<rparr>) \<longleftrightarrow> mc_inv mc" "mc_inv (mc\<lparr>mc_hits := n\<rparr>) \<longleftrightarrow> mc_inv mc"
  "mc_inv (mc\<lparr>mc_misses := n\<rparr>) \<longleftrightarrow> mc_inv mc"
  by (simp_all add: mc_inv_def entry_bytes_def [abs_def])

lemma evictLRULocked_shrinks:
  assumes "mc_inv mc"
  shows "mc_inv (evictLRULocked mc)" "mc_entries (evictLRULocked mc) \<subseteq>\<^sub>m mc_entries mc"
    "mc_maxBytes (evictLRULocked mc) = mc_maxBytes mc"
    "length (mc_lru (evictLRULocked mc)) = length (mc_lru mc) - 1"
proof -
  let ?m = "removeLocked mc (last (mc_lru mc))"
  show "mc_inv (evictLRULocked mc)"
    using mc_inv_removeLocked [OF assms] assms by (simp add: evictLRULocked_def Let_def)
  show "mc_entries (evictLRULocked mc) \<subseteq>\<^sub>m mc_entries mc" "mc_maxBytes (evictLRULocked mc) = mc_maxBytes mc"
    by (auto simp: evictLRULocked_def Let_def map_le_def)
  show "length (mc_lru (evictLRULocked mc)) = length (mc_lru mc) - 1"
  proof (cases "mc_lru mc" rule: rev_cases)
    case (snoc ys y)
    then have "filter (\<lambda>k. k \<noteq> y) ys = ys" using assms by (auto simp: mc_inv_def intro!: filter_True)
    with snoc show ?thesis by (simp add: evictLRULocked_def Let_def removeLocked_lru [OF assms])
  qed (simp add: evictLRULocked_def)
qed

lemma evict_rounds_shrinks:
  "mc_inv mc \<Longrightarrow> mc_inv (evict_rounds n limit mc) \<and> mc_entries (evict_rounds n limit mc) \<subseteq>\<^sub>m mc_entries mc
     \<and> mc_maxBytes (evict_rounds n limit mc) = mc_maxBytes mc"
proof (induction n arbitrary: mc)
  case (Suc n)
  note e = evictLRULocked_shrinks [OF Suc.prems]
  with Suc.IH [OF e(1)] Suc.prems show ?case by (auto intro: map_le_trans)
qed simp

text \<open>With as many rounds as there are keys the loop ends as the code's does: its guard is false.\<close>

lemma evict_rounds_done:
  "mc_inv mc \<Longrightarrow> length (mc_lru mc) \<le> n \<Longrightarrow> mc_maxBytes mc > 0 \<Longrightarrow>
   mc_usedBytes (evict_rounds n limit mc) \<le> limit \<or> mc_lru (evict_rounds n limit mc) = []"
proof (induction n arbitrary: mc)
  case (Suc n)
  note e = evictLRULocked_shrinks [OF Suc.prems(1)]
  with Suc.IH [OF e(1)] Suc.prems show ?case by auto
qed simp

lemma evict_to_spec:
  assumes "mc_inv mc"
  shows "mc_inv (evict_to limit mc)" "mc_entries (evict_to limit mc) \<subseteq>\<^sub>m mc_entries mc"
    "mc_maxBytes (evict_to limit mc) = mc_maxBytes mc"
    "mc_maxBytes mc > 0 \<Longrightarrow> mc_usedBytes (evict_to limit mc) \<le> max 0 limit"
    "mc_usedBytes mc \<le> limit \<or> mc_maxBytes mc \<le> 0 \<Longrightarrow> evict_to limit mc = mc"
proof -
  note r = evict_rounds_shrinks [OF assms, of "length (mc_lru mc)" limit]
  show inv: "mc_inv (evict_to limit mc)" and "mc_entries (evict_to limit mc) \<subseteq>\<^sub>m mc_entries mc"
    "mc_maxBytes (evict_to limit mc) = mc_maxBytes mc"
    using r by (auto simp: evict_to_def)
  have "mc_usedBytes (evict_to limit mc) = 0" if "mc_lru (evict_to limit mc) = []"
    using inv that by (simp add: mc_inv_def)
  then show "mc_maxBytes mc > 0 \<Longrightarrow> mc_usedBytes (evict_to limit mc) \<le> max 0 limit"
    using evict_rounds_done [OF assms order_refl, of limit] by (auto simp: evict_to_def)
  show "mc_usedBytes mc \<le> limit \<or> mc_maxBytes mc \<le> 0 \<Longrightarrow> evict_to limit mc = mc"
    unfolding evict_to_def by (cases "length (mc_lru mc)") auto
qed

section \<open>What each method does to the entries\<close>

lemma foldl_removeLocked:
  "mc_inv mc \<Longrightarrow> mc_inv (foldl removeLocked mc ks)
     \<and> mc_entries (foldl removeLocked mc ks) = mc_entries mc |` (- set ks)"
proof (induction ks arbitrary: mc)
  case (Cons k ks)
  from Cons.IH [OF mc_inv_removeLocked [OF Cons.prems, of k]] show ?case
    by (auto simp: restrict_map_def fun_eq_iff)
qed (simp add: restrict_map_def)

lemma evict_one_spec:
  assumes "mc_inv mc"
  shows "mc_inv (evict_one mc k)" "mc_entries (evict_one mc k) = (mc_entries mc)(k := None)"
    "mc_maxBytes (evict_one mc k) = mc_maxBytes mc"
  using mc_inv_removeLocked [OF assms, of k]
  by (auto simp: evict_one_def Let_def)

lemma foldl_evict_one:
  "mc_inv mc \<Longrightarrow> mc_inv (foldl evict_one mc ks)
     \<and> mc_entries (foldl evict_one mc ks) = mc_entries mc |` (- set ks)
     \<and> mc_maxBytes (foldl evict_one mc ks) = mc_maxBytes mc"
proof (induction ks arbitrary: mc)
  case (Cons k ks)
  note e = evict_one_spec [OF Cons.prems, of k]
  from Cons.IH [OF e(1)] show ?case
    by (auto simp: restrict_map_def fun_eq_iff e)
qed (simp add: restrict_map_def)

lemma mc_Get_spec:
  assumes "mc_inv mc"
  shows "mc_inv (snd (mc_Get mc k t))"
    "fst (mc_Get mc k t) = (case mc_entries mc k of None \<Rightarrow> None
       | Some e \<Rightarrow> if t \<le> ce_expiresAt e then Some (ce_response e) else None)"
    "mc_entries (snd (mc_Get mc k t)) =
       (if fst (mc_Get mc k t) = None then (mc_entries mc)(k := None) else mc_entries mc)"
proof -
  show "fst (mc_Get mc k t) = (case mc_entries mc k of None \<Rightarrow> None
       | Some e \<Rightarrow> if t \<le> ce_expiresAt e then Some (ce_response e) else None)"
    by (simp add: mc_Get_def Let_def split: option.splits)
  show "mc_entries (snd (mc_Get mc k t)) =
       (if fst (mc_Get mc k t) = None then (mc_entries mc)(k := None) else mc_entries mc)"
    by (auto simp: mc_Get_def Let_def fun_eq_iff split: option.splits)
  have front: "mc_inv (mc\<lparr>mc_lru := k # filter (\<lambda>j. j \<noteq> k) (mc_lru mc), mc_hits := n\<rparr>)"
    if "mc_entries mc k = Some e" for e n
    using assms mc_inv_mem [OF assms that]
    by (auto simp: mc_inv_def entry_bytes_def [abs_def] sum_list_filter_out)
  show "mc_inv (snd (mc_Get mc k t))"
    using assms mc_inv_removeLocked [OF assms, of k] front
    by (auto simp: mc_Get_def Let_def split: option.splits)
qed

lemma mc_Set_spec:
  assumes "mc_inv mc"
  shows "mc_inv (mc_Set mc k resp ttl t)"
    "mc_entries (mc_Set mc k resp ttl t) k =
       Some \<lparr>ce_response = resp, ce_expiresAt = t + ttl, ce_size = entrySize resp\<rparr>"
    "j \<noteq> k \<Longrightarrow> mc_entries (mc_Set mc k resp ttl t) j = mc_entries mc j
       \<or> mc_entries (mc_Set mc k resp ttl t) j = None"
    "mc_maxBytes (mc_Set mc k resp ttl t) = mc_maxBytes mc"
proof -
  define m1 where "m1 = removeLocked mc k"
  define m2 where "m2 = evict_to (mc_maxBytes m1 - entrySize resp) m1"
  let ?e = "\<lparr>ce_response = resp, ce_expiresAt = t + ttl, ce_size = entrySize resp\<rparr>"
  have m1: "mc_inv m1" using mc_inv_removeLocked [OF assms] by (simp add: m1_def)
  note ev = evict_to_spec [OF m1, of "mc_maxBytes m1 - entrySize resp", folded m2_def]
  have le: "mc_entries m2 j = mc_entries m1 j \<or> mc_entries m2 j = None" for j
    using ev(2) by (metis domIff map_le_def)
  have fresh: "mc_entries m2 k = None" using le [of k] by (simp add: m1_def)
  have eq: "mc_Set mc k resp ttl t = m2\<lparr>mc_lru := k # mc_lru m2,
      mc_entries := (mc_entries m2)(k \<mapsto> ?e), mc_usedBytes := mc_usedBytes m2 + entrySize resp\<rparr>"
    by (simp add: mc_Set_def m1_def m2_def Let_def)
  have k: "k \<notin> set (mc_lru m2)" using ev(1) fresh by (auto simp: mc_inv_def)
  have same: "map (entry_bytes (mc_Set mc k resp ttl t)) (mc_lru m2) = map (entry_bytes m2) (mc_lru m2)"
    using k by (auto simp: entry_bytes_def eq)
  have "mc_usedBytes m2 = sum_list (map (entry_bytes m2) (mc_lru m2))" using ev(1) by (simp add: mc_inv_def)
  moreover have "entry_bytes (mc_Set mc k resp ttl t) k = entrySize resp"
    by (simp add: entry_bytes_def eq)
  ultimately have "sum_list (map (entry_bytes (mc_Set mc k resp ttl t)) (k # mc_lru m2))
      = mc_usedBytes m2 + entrySize resp"
    unfolding list.map same by simp
  then have used: "mc_usedBytes (mc_Set mc k resp ttl t)
      = sum_list (map (entry_bytes (mc_Set mc k resp ttl t)) (mc_lru (mc_Set mc k resp ttl t)))"
    by (simp add: eq)
  show "mc_inv (mc_Set mc k resp ttl t)"
    unfolding mc_inv_def using used ev(1) k by (auto simp: mc_inv_def eq)
  show "mc_entries (mc_Set mc k resp ttl t) k = Some ?e" by (simp add: eq)
  show "j \<noteq> k \<Longrightarrow> mc_entries (mc_Set mc k resp ttl t) j = mc_entries mc j
       \<or> mc_entries (mc_Set mc k resp ttl t) j = None"
    using le [of j] by (auto simp: eq m1_def)
  show "mc_maxBytes (mc_Set mc k resp ttl t) = mc_maxBytes mc"
    using ev(3) by (simp add: eq m1_def)
qed

lemma mc_DeleteByPrefix_spec:
  assumes "mc_inv mc"
  shows "mc_inv (mc_DeleteByPrefix mc p)"
    "mc_entries (mc_DeleteByPrefix mc p) = (\<lambda>k. if has_prefix k p then None else mc_entries mc k)"
proof -
  note f = foldl_removeLocked [OF assms, of "filter (\<lambda>k. has_prefix k p) (mc_lru mc)"]
  show "mc_inv (mc_DeleteByPrefix mc p)" using f by (simp add: mc_DeleteByPrefix_def)
  have "k \<in> set (mc_lru mc) \<longleftrightarrow> mc_entries mc k \<noteq> None" for k using assms by (auto simp: mc_inv_def)
  then show "mc_entries (mc_DeleteByPrefix mc p) = (\<lambda>k. if has_prefix k p then None else mc_entries mc k)"
    using f by (auto simp: mc_DeleteByPrefix_def restrict_map_def fun_eq_iff)
qed

lemma mc_Delete_spec:
  assumes "mc_inv mc"
  shows "mc_inv (mc_Delete mc k)" "mc_entries (mc_Delete mc k) = (mc_entries mc)(k := None)"
  using mc_inv_removeLocked [OF assms, of k] assms by (auto simp: mc_Delete_def)

lemma evictExpired_spec:
  assumes "mc_inv mc"
  shows "mc_inv (evictExpired mc t)" "mc_entries (evictExpired mc t) \<subseteq>\<^sub>m mc_entries mc"
    "mc_maxBytes (evictExpired mc t) = mc_maxBytes mc"
    "mc_maxBytes mc > 0 \<Longrightarrow> mc_usedBytes (evictExpired mc t) \<le> mc_maxBytes mc * 8 div 10"
proof -
  define m where "m = foldl evict_one mc (filter (is_expired mc t) (mc_lru mc))"
  have m: "mc_inv m" "mc_entries m \<subseteq>\<^sub>m mc_entries mc" "mc_maxBytes m = mc_maxBytes mc"
    using foldl_evict_one [OF assms, of "filter (is_expired mc t) (mc_lru mc)"]
    by (auto simp: m_def map_le_def restrict_map_def)
  note e = evict_to_spec [OF m(1), of "mc_maxBytes mc * 8 div 10"]
  have eq: "evictExpired mc t = evict_to (mc_maxBytes mc * 8 div 10) m"
    by (simp add: evictExpired_def m_def Let_def)
  show "mc_inv (evictExpired mc t)" "mc_maxBytes (evictExpired mc t) = mc_maxBytes mc"
    "mc_entries (evictExpired mc t) \<subseteq>\<^sub>m mc_entries mc"
    using e m by (auto simp: eq intro: map_le_trans)
  assume pos: "mc_maxBytes mc > 0"
  then show "mc_usedBytes (evictExpired mc t) \<le> mc_maxBytes mc * 8 div 10"
    using e(4) m(3) by (simp add: eq max_def split: if_splits)
qed

section \<open>The contract of a response cache\<close>

datatype 'r cache_op =
    CGet string
  | CSet string 'r duration
  | CDelete string
  | CDeleteByPrefix string
  | CTick
  | CClose

text \<open>The operation replaces or deletes what is held under the key.\<close>

fun touches :: "string \<Rightarrow> 'r cache_op \<Rightarrow> bool" where
  "touches k (CSet j r ttl) = (j = k)"
| "touches k (CDelete j) = (j = k)"
| "touches k (CDeleteByPrefix p) = has_prefix k p"
| "touches k _ = False"

text \<open>What was last stored under a key, and until when it may be served.\<close>

fun store_op :: "(string \<rightharpoonup> 'r \<times> time) \<Rightarrow> time \<Rightarrow> 'r cache_op \<Rightarrow> (string \<rightharpoonup> 'r \<times> time)" where
  "store_op m t (CSet k r ttl) = m(k \<mapsto> (r, t + ttl))"
| "store_op m t (CDelete k) = m(k := None)"
| "store_op m t (CDeleteByPrefix p) = (\<lambda>k. if has_prefix k p then None else m k)"
| "store_op m t _ = m"

definition stored :: "(string \<rightharpoonup> 'r \<times> time) \<Rightarrow> (time \<times> 'r cache_op) list \<Rightarrow> string \<rightharpoonup> 'r \<times> time" where
  "stored m cs = foldl (\<lambda>m (t, c). store_op m t c) m cs"

lemma stored_simps [simp]:
  "stored m [] = m" "stored m ((t, c) # cs) = stored (store_op m t c) cs"
  "stored m (cs @ [(t, c)]) = store_op (stored m cs) t c"
  by (simp_all add: stored_def)

lemma store_op_touches: "\<not> touches k c \<Longrightarrow> store_op m t c k = m k"
  by (cases c) auto

lemma store_op_Some:
  "store_op m t c k = Some (r, e) \<Longrightarrow> touches k c \<Longrightarrow> \<exists>ttl. c = CSet k r ttl \<and> e = t + ttl"
  by (cases c) (auto split: if_splits)

lemma stored_witness:
  "stored Map.empty cs k = Some (r, e) \<Longrightarrow>
   \<exists>pre t ttl post. cs = pre @ (t, CSet k r ttl) # post \<and> e = t + ttl
      \<and> (\<forall>(t', c) \<in> set post. \<not> touches k c)"
proof (induction cs rule: rev_induct)
  case (snoc x cs)
  obtain t c where x: "x = (t, c)" by (cases x)
  show ?case
  proof (cases "touches k c")
    case True
    then obtain ttl where "c = CSet k r ttl" "e = t + ttl"
      using snoc.prems store_op_Some by (fastforce simp: x)
    then show ?thesis by (intro exI [of _ cs]) (auto simp: x)
  next
    case False
    then have "stored Map.empty cs k = Some (r, e)"
      using snoc.prems by (simp add: x store_op_touches)
    from snoc.IH [OF this] obtain pre t0 ttl post where
      "cs = pre @ (t0, CSet k r ttl) # post" "e = t0 + ttl" "\<forall>(t', c) \<in> set post. \<not> touches k c"
      by blast
    with False show ?thesis by (intro exI [of _ pre] exI [of _ t0] exI [of _ ttl] exI [of _ "post @ [x]"]) (auto simp: x)
  qed
qed simp

lemma store_op_mono: "m \<subseteq>\<^sub>m m' \<Longrightarrow> store_op m t c \<subseteq>\<^sub>m store_op m' t c"
  by (cases c) (auto simp: map_le_def)

locale response_cache =
  fixes ok :: "'c \<Rightarrow> bool"
    and held :: "'c \<Rightarrow> string \<rightharpoonup> 'r \<times> time"
    and exec :: "'c \<Rightarrow> time \<Rightarrow> 'r cache_op \<Rightarrow> 'c"
    and get :: "'c \<Rightarrow> string \<Rightarrow> time \<Rightarrow> 'r option"
  assumes exec_ok: "ok c \<Longrightarrow> ok (exec c t x)"
    and get_held: "ok c \<Longrightarrow> get c k t =
          (case held c k of None \<Rightarrow> None | Some (r, e) \<Rightarrow> if t \<le> e then Some r else None)"
    and exec_held: "ok c \<Longrightarrow> held (exec c t x) \<subseteq>\<^sub>m store_op (held c) t x"
begin

fun run :: "'c \<Rightarrow> (time \<times> 'r cache_op) list \<Rightarrow> 'c" where
  "run c [] = c"
| "run c ((t, x) # cs) = run (exec c t x) cs"

lemma run_held: "ok c \<Longrightarrow> held c \<subseteq>\<^sub>m m \<Longrightarrow> ok (run c cs) \<and> held (run c cs) \<subseteq>\<^sub>m stored m cs"
proof (induction cs arbitrary: c m)
  case (Cons x cs)
  obtain t o' where x: "x = (t, o')" by (cases x)
  have "held (exec c t o') \<subseteq>\<^sub>m store_op m t o'"
    using exec_held [OF Cons.prems(1), of t o'] store_op_mono [OF Cons.prems(2), of t o']
    by (rule map_le_trans)
  from Cons.IH [OF exec_ok [OF Cons.prems(1)] this] show ?case by (simp add: x)
qed simp

lemma hit_sound:
  assumes "ok c" "held c = Map.empty" "get (run c cs) k t = Some r"
  shows "\<exists>pre t0 ttl post. cs = pre @ (t0, CSet k r ttl) # post \<and> t \<le> t0 + ttl
    \<and> (\<forall>(t', x) \<in> set post. \<not> touches k x)"
proof -
  have run: "ok (run c cs)" "held (run c cs) \<subseteq>\<^sub>m stored Map.empty cs"
    using run_held [OF assms(1), of Map.empty cs] assms(2) by auto
  obtain e where e: "held (run c cs) k = Some (r, e)" "t \<le> e"
    using assms(3) get_held [OF run(1)] by (auto split: option.splits if_splits)
  then have "stored Map.empty cs k = Some (r, e)" using run(2) by (metis domI map_le_def)
  from stored_witness [OF this] e(2) show ?thesis by fastforce
qed

end

section \<open>MemoryCache keeps the contract\<close>

fun mc_exec :: "mem_cache \<Rightarrow> time \<Rightarrow> cached_response cache_op \<Rightarrow> mem_cache" where
  "mc_exec mc t (CGet k) = snd (mc_Get mc k t)"
| "mc_exec mc t (CSet k r ttl) = mc_Set mc k r ttl t"
| "mc_exec mc t (CDelete k) = mc_Delete mc k"
| "mc_exec mc t (CDeleteByPrefix p) = mc_DeleteByPrefix mc p"
| "mc_exec mc t CTick = evictExpired mc t"
| "mc_exec mc t CClose = mc_Close mc"

fun mc_run :: "mem_cache \<Rightarrow> (time \<times> cached_response cache_op) list \<Rightarrow> mem_cache" where
  "mc_run mc [] = mc"
| "mc_run mc ((t, x) # cs) = mc_run (mc_exec mc t x) cs"

definition mc_held :: "mem_cache \<Rightarrow> string \<rightharpoonup> cached_response \<times> time" where
  "mc_held mc k = map_option (\<lambda>e. (ce_response e, ce_expiresAt e)) (mc_entries mc k)"

lemma mc_held_mono: "mc_entries m \<subseteq>\<^sub>m mc_entries m' \<Longrightarrow> mc_held m \<subseteq>\<^sub>m mc_held m'"
  by (auto simp: map_le_def mc_held_def dom_def)

lemma mc_inv_exec: "mc_inv mc \<Longrightarrow> mc_inv (mc_exec mc t x)"
  by (cases x) (simp_all add: mc_Get_spec(1) mc_Set_spec(1) mc_Delete_spec(1) mc_DeleteByPrefix_spec(1)
      evictExpired_spec(1), simp add: mc_inv_def mc_Close_def)

lemma mc_exec_held:
  assumes "mc_inv mc"
  shows "mc_held (mc_exec mc t x) \<subseteq>\<^sub>m store_op (mc_held mc) t x"
proof (cases x)
  case (CGet k)
  have "mc_entries (snd (mc_Get mc k t)) \<subseteq>\<^sub>m mc_entries mc"
    by (auto simp: mc_Get_spec(3) [OF assms] map_le_def)
  then show ?thesis using CGet mc_held_mono by simp
next
  case (CSet k r ttl)
  show ?thesis unfolding CSet map_le_def
  proof
    fix j assume j: "j \<in> dom (mc_held (mc_exec mc t (CSet k r ttl)))"
    show "mc_held (mc_exec mc t (CSet k r ttl)) j = store_op (mc_held mc) t (CSet k r ttl) j"
      using mc_Set_spec(2) [OF assms, of k r ttl t] mc_Set_spec(3) [OF assms, of j k r ttl t] j
      by (cases "j = k") (auto simp: mc_held_def)
  qed
next
  case CTick
  then show ?thesis using mc_held_mono [OF evictExpired_spec(2) [OF assms]] by simp
qed (auto simp: mc_Delete_spec [OF assms] mc_DeleteByPrefix_spec [OF assms] mc_held_def map_le_def
     mc_Close_def)

interpretation memory: response_cache mc_inv mc_held mc_exec "\<lambda>mc k t. fst (mc_Get mc k t)"
proof
  show "mc_inv c \<Longrightarrow> mc_inv (mc_exec c t x)" for c t x by (rule mc_inv_exec)
  show "mc_inv c \<Longrightarrow> mc_held (mc_exec c t x) \<subseteq>\<^sub>m store_op (mc_held c) t x" for c t x
    by (rule mc_exec_held)
  show "mc_inv c \<Longrightarrow> fst (mc_Get c k t) =
      (case mc_held c k of None \<Rightarrow> None | Some (r, e) \<Rightarrow> if t \<le> e then Some r else None)" for c k t
    by (simp add: mc_Get_spec(2) mc_held_def split: option.splits)
qed

lemma mc_run_memory: "mc_run mc cs = memory.run mc cs"
  by (induction cs arbitrary: mc) auto

section \<open>Properties\<close>

text \<open>C12: a hit is fresh. After any sequence of gets, sets, deletions, prefix deletions, eviction
  ticks and closing, a response that \<^verbatim>\<open>Get\<close> returns at time \<open>t\<close> was stored under exactly that
  key by a \<^verbatim>\<open>Set\<close> whose time to live has not passed at \<open>t\<close>, and since then the key was neither
  set again nor deleted.\<close>

theorem cache_hit_fresh:
  assumes "fst (mc_Get (mc_run (NewMemoryCache n) cs) k t) = Some r"
  shows "\<exists>pre t0 ttl post. cs = pre @ (t0, CSet k r ttl) # post \<and> t \<le> t0 + ttl
    \<and> (\<forall>(t', x) \<in> set post. \<not> touches k x)"
proof -
  have empty: "mc_held (NewMemoryCache n) = Map.empty"
    by (rule ext) (simp add: mc_held_def NewMemoryCache_def)
  have "fst (mc_Get (memory.run (NewMemoryCache n) cs) k t) = Some r"
    using assms by (simp only: mc_run_memory)
  then show ?thesis by (rule memory.hit_sound [OF mc_inv_New empty])
qed

definition demo_response :: cached_response where
  "demo_response = \<lparr>StatusCode = 200, Headers = [], Body = ''hi'', CachedAt = 5, TTL = 60, SourceRequestID = []\<rparr>"

theorem cache_hit_fresh_witness:
  "\<exists>pre t0 ttl post. [(4, CDelete ''k''), (5, CSet ''k'' demo_response 60), (6, CGet ''j'')]
      = pre @ (t0, CSet ''k'' demo_response ttl) # post \<and> 65 \<le> t0 + ttl"
proof -
  have "fst (mc_Get (mc_run (NewMemoryCache 1000)
      [(4, CDelete ''k''), (5, CSet ''k'' demo_response 60), (6, CGet ''j'')]) ''k'' 65) = Some demo_response"
    by code_simp
  from cache_hit_fresh [OF this] show ?thesis by blast
qed

lemma mc_Set_used:
  assumes "mc_inv mc" "mc_maxBytes mc > 0"
  shows "mc_usedBytes (mc_Set mc k r ttl t) \<le> max (mc_maxBytes mc) (entrySize r)"
proof -
  define m1 where "m1 = removeLocked mc k"
  have m1: "mc_inv m1" "mc_maxBytes m1 = mc_maxBytes mc"
    using mc_inv_removeLocked [OF assms(1)] by (simp_all add: m1_def)
  have "mc_usedBytes (evict_to (mc_maxBytes mc - entrySize r) m1) \<le> max 0 (mc_maxBytes mc - entrySize r)"
    using evict_to_spec(4) [OF m1(1)] m1(2) assms(2) by simp
  moreover have "mc_usedBytes (mc_Set mc k r ttl t)
      = mc_usedBytes (evict_to (mc_maxBytes mc - entrySize r) m1) + entrySize r"
    using m1(2) by (simp add: mc_Set_def m1_def Let_def)
  ultimately show ?thesis by linarith
qed

lemma entry_bytes_nonneg: "mc_inv mc \<Longrightarrow> 0 \<le> entry_bytes mc k"
  using entrySize_pos [of "ce_response (the (mc_entries mc k))"]
  by (auto simp: mc_inv_def entry_bytes_def split: option.splits)

lemma removeLocked_used: "mc_inv mc \<Longrightarrow> mc_usedBytes (removeLocked mc k) \<le> mc_usedBytes mc"
  using entry_bytes_nonneg [of mc k] by (auto simp: removeLocked_def entry_bytes_def split: option.splits)

lemma foldl_removeLocked_used: "mc_inv mc \<Longrightarrow> mc_usedBytes (foldl removeLocked mc ks) \<le> mc_usedBytes mc
    \<and> mc_maxBytes (foldl removeLocked mc ks) = mc_maxBytes mc"
proof (induction ks arbitrary: mc)
  case (Cons k ks)
  from Cons.IH [OF mc_inv_removeLocked [OF Cons.prems, of k]] removeLocked_used [OF Cons.prems, of k]
  show ?case by simp
qed simp

definition sets_at_most :: "int \<Rightarrow> (time \<times> cached_response cache_op) list \<Rightarrow> bool" where
  "sets_at_most M cs \<longleftrightarrow> (\<forall>(t, x) \<in> set cs. case x of CSet k r ttl \<Rightarrow> entrySize r \<le> M | _ \<Rightarrow> True)"

lemma mc_exec_used:
  assumes "mc_inv mc" "mc_maxBytes mc > 0" "mc_usedBytes mc \<le> max (mc_maxBytes mc) M"
    and "case x of CSet k r ttl \<Rightarrow> entrySize r \<le> M | _ \<Rightarrow> True"
  shows "mc_usedBytes (mc_exec mc t x) \<le> max (mc_maxBytes mc) M \<and> mc_maxBytes (mc_exec mc t x) = mc_maxBytes mc"
proof (cases x)
  case (CGet k)
  then show ?thesis
    using assms removeLocked_used [OF assms(1), of k]
    by (auto simp: mc_Get_def Let_def split: option.splits)
next
  case (CSet k r ttl)
  then show ?thesis using assms mc_Set_used [OF assms(1,2), of k r ttl t] mc_Set_spec(4) [OF assms(1)] by auto
next
  case (CDelete k)
  then show ?thesis using assms removeLocked_used [OF assms(1), of k] by (auto simp: mc_Delete_def)
next
  case (CDeleteByPrefix p)
  then show ?thesis using assms foldl_removeLocked_used [OF assms(1)] by (auto simp: mc_DeleteByPrefix_def intro: order_trans)
next
  case CTick
  have "mc_maxBytes mc * 8 div 10 \<le> mc_maxBytes mc" using assms(2) by arith
  then show ?thesis
    using CTick assms(2) evictExpired_spec(3,4) [OF assms(1), of t] by auto
next
  case CClose
  then show ?thesis using assms by (simp add: mc_Close_def)
qed

lemma mc_run_used:
  "mc_inv mc \<Longrightarrow> mc_maxBytes mc > 0 \<Longrightarrow> mc_usedBytes mc \<le> max (mc_maxBytes mc) M \<Longrightarrow> sets_at_most M cs \<Longrightarrow>
   mc_usedBytes (mc_run mc cs) \<le> max (mc_maxBytes mc) M"
proof (induction cs arbitrary: mc)
  case (Cons x cs)
  obtain t c where x: "x = (t, c)" by (cases x)
  have "case c of CSet k r ttl \<Rightarrow> entrySize r \<le> M | _ \<Rightarrow> True" "sets_at_most M cs"
    using Cons.prems(4) by (auto simp: sets_at_most_def x)
  with mc_exec_used [OF Cons.prems(1-3), of c t] Cons.IH [OF mc_inv_exec [OF Cons.prems(1)], of t c]
    Cons.prems(2)
  show ?case by (simp add: x)
qed simp

text \<open>C33: the memory bound. Whatever happens to a cache with a limit, its bytes in use never exceed
  the limit or, where a single response is larger than the limit, that response; and an
  eviction tick brings them to at most four fifths of the limit.\<close>

theorem cache_memory_bound:
  assumes "0 < n" "sets_at_most M cs"
  shows "BytesUsed (mc_Stats (mc_run (NewMemoryCache n) cs)) \<le> max n M
    \<and> BytesUsed (mc_Stats (mc_run (NewMemoryCache n) (cs @ [(t, CTick)]))) \<le> n * 8 div 10"
proof -
  have new: "mc_maxBytes (NewMemoryCache n) = n" "mc_usedBytes (NewMemoryCache n) \<le> max n M"
    using assms(1) by (simp_all add: NewMemoryCache_def)
  have inv: "mc_inv (mc_run mc cs)" if "mc_inv mc" for mc
    using that by (induction mc cs rule: mc_run.induct) (auto simp: mc_inv_exec)
  have mx: "mc_maxBytes (mc_exec mc t x) = mc_maxBytes mc" if "mc_inv mc" for mc t x
    using that foldl_removeLocked_used
    by (cases x) (auto simp: mc_Get_def mc_Set_spec(4) mc_Delete_def mc_DeleteByPrefix_def mc_Close_def
        evictExpired_spec(3) Let_def split: option.splits)
  have mr: "mc_maxBytes (mc_run mc cs) = mc_maxBytes mc" if "mc_inv mc" for mc cs
    using that by (induction mc cs rule: mc_run.induct) (auto simp: mc_inv_exec mx)
  have app: "mc_run mc (cs @ [(t, CTick)]) = evictExpired (mc_run mc cs) t" for mc
    by (induction mc cs rule: mc_run.induct) auto
  have "mc_usedBytes (mc_run (NewMemoryCache n) cs) \<le> max n M"
    using mc_run_used [OF mc_inv_New, of n M cs] assms new by simp
  moreover have "mc_usedBytes (mc_run (NewMemoryCache n) (cs @ [(t, CTick)])) \<le> n * 8 div 10"
    using evictExpired_spec(4) [OF inv [OF mc_inv_New [of n]], of t] mr [OF mc_inv_New [of n], of cs]
      assms(1) new(1) by (simp add: app)
  ultimately show ?thesis by (simp add: mc_Stats_def)
qed

theorem cache_memory_bound_witness:
  "BytesUsed (mc_Stats (mc_run (NewMemoryCache 200)
     [(5, CSet ''k'' demo_response 60), (6, CSet ''j'' demo_response 60)])) \<le> max 200 130
   \<and> mc_lru (mc_run (NewMemoryCache 200)
     [(5, CSet ''k'' demo_response 60), (6, CSet ''j'' demo_response 60)]) = [''j'']"
proof
  have "sets_at_most 130 [(5, CSet ''k'' demo_response 60), (6, CSet ''j'' demo_response 60)]"
    by code_simp
  then show "BytesUsed (mc_Stats (mc_run (NewMemoryCache 200)
     [(5, CSet ''k'' demo_response 60), (6, CSet ''j'' demo_response 60)])) \<le> max 200 130"
    by (intro cache_memory_bound [THEN conjunct1]) simp_all
  show "mc_lru (mc_run (NewMemoryCache 200)
     [(5, CSet ''k'' demo_response 60), (6, CSet ''j'' demo_response 60)]) = [''j'']"
    by code_simp
qed

end
