(* ===== verification/Tiers.thy ===== *)
theory Tiers
  imports Http
begin

text \<open>
  Cache tiers (\<^verbatim>\<open>internal/cache/tiers.go\<close>): the ordered table of path prefixes and
  \<^verbatim>\<open>TierClassifier.Classify\<close>, which decides by first match whether and for how long a response
  may be cached. The check for personal data is the function the classifier was built with.

  Shown: no row for GET is shadowed by an earlier one; documents behind pre-signed URLs, which
  expire after five minutes, get four; methods other than GET and POST are never cached.
\<close>

datatype CacheTier = CacheTierAggressive | CacheTierModerate | CacheTierShort | CacheTierNever

record tier_config =
  tc_Tier :: CacheTier
  tc_DefaultTTL :: duration
  tc_Reason :: string
  tc_BatchCacheable :: bool
  tc_PostCacheable :: bool

record tier_pattern =
  tp_prefix :: string
  tp_tier :: CacheTier
  tp_ttl :: duration
  tp_batch :: bool
  tp_post :: bool

definition tierPatterns_stable :: "tier_pattern list" where
  "tierPatterns_stable = [
     \<lparr>tp_prefix = ''/tokens/'', tp_tier = CacheTierNever, tp_ttl = 0, tp_batch = False, tp_post = False\<rparr>,
     \<lparr>tp_prefix = ''/uploads/'', tp_tier = CacheTierNever, tp_ttl = 0, tp_batch = False, tp_post = False\<rparr>,
     \<lparr>tp_prefix = ''/applications/'', tp_tier = CacheTierNever, tp_ttl = 0, tp_batch = False, tp_post = False\<rparr>,
     \<lparr>tp_prefix = ''/authorization/'', tp_tier = CacheTierNever, tp_ttl = 0, tp_batch = False, tp_post = False\<rparr>,
     \<lparr>tp_prefix = ''/definitions/'', tp_tier = CacheTierAggressive, tp_ttl = 24 * hour, tp_batch = False, tp_post = False\<rparr>,
     \<lparr>tp_prefix = ''/catalog/'', tp_tier = CacheTierAggressive, tp_ttl = 12 * hour, tp_batch = False, tp_post = False\<rparr>,
     \<lparr>tp_prefix = ''/sellers/'', tp_tier = CacheTierAggressive, tp_ttl = 12 * hour, tp_batch = False, tp_post = False\<rparr>,
     \<lparr>tp_prefix = ''/fba/inbound/eligibility/'', tp_tier = CacheTierModerate, tp_ttl = 12 * hour, tp_batch = False, tp_post = False\<rparr>,
     \<lparr>tp_prefix = ''/reports/2021-06-30/documents/'', tp_tier = CacheTierShort, tp_ttl = 4 * minute, tp_batch = False, tp_post = False\<rparr>,
     \<lparr>tp_prefix = ''/feeds/2021-06-30/documents/'', tp_tier = CacheTierShort, tp_ttl = 4 * minute, tp_batch = False, tp_post = False\<rparr>,
     \<lparr>tp_prefix = ''/datakiosk/2023-11-15/documents/'', tp_tier = CacheTierShort, tp_ttl = 4 * minute, tp_batch = False, tp_post = False\<rparr>]"

definition tierPatterns_moderate :: "tier_pattern list" where
  "tierPatterns_moderate = [
     \<lparr>tp_prefix = ''/reports/'', tp_tier = CacheTierModerate, tp_ttl = 10 * minute, tp_batch = False, tp_post = False\<rparr>,
     \<lparr>tp_prefix = ''/feeds/'', tp_tier = CacheTierModerate, tp_ttl = 2 * minute, tp_batch = False, tp_post = False\<rparr>,
     \<lparr>tp_prefix = ''/listings/'', tp_tier = CacheTierModerate, tp_ttl = 15 * minute, tp_batch = False, tp_post = False\<rparr>,
     \<lparr>tp_prefix = ''/aplus/'', tp_tier = CacheTierModerate, tp_ttl = 30 * minute, tp_batch = False, tp_post = False\<rparr>,
     \<lparr>tp_prefix = ''/sales/'', tp_tier = CacheTierModerate, tp_ttl = 15 * minute, tp_batch = False, tp_post = False\<rparr>,
     \<lparr>tp_prefix = ''/fba/inventory/'', tp_tier = CacheTierModerate, tp_ttl = 5 * minute, tp_batch = False, tp_post = False\<rparr>,
     \<lparr>tp_prefix = ''/fba/inbound/'', tp_tier = CacheTierModerate, tp_ttl = 10 * minute, tp_batch = False, tp_post = False\<rparr>,
     \<lparr>tp_prefix = ''/fba/outbound/'', tp_tier = CacheTierModerate, tp_ttl = 10 * minute, tp_batch = False, tp_post = False\<rparr>,
     \<lparr>tp_prefix = ''/fba/smallAndLight/'', tp_tier = CacheTierModerate, tp_ttl = 24 * hour, tp_batch = False, tp_post = False\<rparr>,
     \<lparr>tp_prefix = ''/fba/'', tp_tier = CacheTierModerate, tp_ttl = 10 * minute, tp_batch = False, tp_post = False\<rparr>,
     \<lparr>tp_prefix = ''/mfn/'', tp_tier = CacheTierModerate, tp_ttl = 15 * minute, tp_batch = False, tp_post = False\<rparr>,
     \<lparr>tp_prefix = ''/supplySources/'', tp_tier = CacheTierModerate, tp_ttl = 1 * hour, tp_batch = False, tp_post = False\<rparr>,
     \<lparr>tp_prefix = ''/finances/'', tp_tier = CacheTierModerate, tp_ttl = 15 * minute, tp_batch = False, tp_post = False\<rparr>,
     \<lparr>tp_prefix = ''/notifications/'', tp_tier = CacheTierModerate, tp_ttl = 30 * minute, tp_batch = False, tp_post = False\<rparr>,
     \<lparr>tp_prefix = ''/shipping/'', tp_tier = CacheTierModerate, tp_ttl = 15 * minute, tp_batch = False, tp_post = False\<rparr>,
     \<lparr>tp_prefix = ''/solicitations/'', tp_tier = CacheTierModerate, tp_ttl = 1 * hour, tp_batch = False, tp_post = False\<rparr>,
     \<lparr>tp_prefix = ''/easyShip/'', tp_tier = CacheTierModerate, tp_ttl = 10 * minute, tp_batch = False, tp_post = False\<rparr>,
     \<lparr>tp_prefix = ''/messaging/'', tp_tier = CacheTierModerate, tp_ttl = 30 * minute, tp_batch = False, tp_post = False\<rparr>,
     \<lparr>tp_prefix = ''/vendor/'', tp_tier = CacheTierModerate, tp_ttl = 15 * minute, tp_batch = False, tp_post = False\<rparr>,
     \<lparr>tp_prefix = ''/datakiosk/'', tp_tier = CacheTierModerate, tp_ttl = 2 * minute, tp_batch = False, tp_post = False\<rparr>,
     \<lparr>tp_prefix = ''/replenishment/'', tp_tier = CacheTierModerate, tp_ttl = 1 * hour, tp_batch = False, tp_post = False\<rparr>,
     \<lparr>tp_prefix = ''/awd/'', tp_tier = CacheTierModerate, tp_ttl = 10 * minute, tp_batch = False, tp_post = False\<rparr>]"

definition tierPatterns_post :: "tier_pattern list" where
  "tierPatterns_post = [
     \<lparr>tp_prefix = ''/batches/products/pricing/'', tp_tier = CacheTierModerate, tp_ttl = 5 * minute, tp_batch = True, tp_post = False\<rparr>,
     \<lparr>tp_prefix = ''/products/fees/v0/feesEstimate'', tp_tier = CacheTierAggressive, tp_ttl = 12 * hour, tp_batch = True, tp_post = False\<rparr>,
     \<lparr>tp_prefix = ''/products/fees/v0/items/'', tp_tier = CacheTierAggressive, tp_ttl = 12 * hour, tp_batch = False, tp_post = True\<rparr>,
     \<lparr>tp_prefix = ''/products/fees/v0/listings/'', tp_tier = CacheTierAggressive, tp_ttl = 12 * hour, tp_batch = False, tp_post = True\<rparr>,
     \<lparr>tp_prefix = ''/shipping/v2/shipments/rates'', tp_tier = CacheTierModerate, tp_ttl = 4 * hour, tp_batch = False, tp_post = True\<rparr>,
     \<lparr>tp_prefix = ''/shipping/v1/rates'', tp_tier = CacheTierModerate, tp_ttl = 4 * hour, tp_batch = False, tp_post = True\<rparr>,
     \<lparr>tp_prefix = ''/mfn/v0/eligibleShippingServices'', tp_tier = CacheTierModerate, tp_ttl = 6 * hour, tp_batch = False, tp_post = True\<rparr>,
     \<lparr>tp_prefix = ''/mfn/v0/additionalSellerInputs'', tp_tier = CacheTierAggressive, tp_ttl = 24 * hour, tp_batch = False, tp_post = True\<rparr>,
     \<lparr>tp_prefix = ''/fba/outbound/2020-07-01/fulfillmentOrders/preview'', tp_tier = CacheTierModerate, tp_ttl = 2 * hour, tp_batch = False, tp_post = True\<rparr>,
     \<lparr>tp_prefix = ''/easyShip/2022-03-23/timeSlot'', tp_tier = CacheTierModerate, tp_ttl = 1 * hour, tp_batch = False, tp_post = True\<rparr>,
     \<lparr>tp_prefix = ''/replenishment/2022-11-07/sellingPartners/metrics/search'', tp_tier = CacheTierModerate, tp_ttl = 6 * hour, tp_batch = False, tp_post = True\<rparr>,
     \<lparr>tp_prefix = ''/replenishment/2022-11-07/offers/metrics/search'', tp_tier = CacheTierModerate, tp_ttl = 6 * hour, tp_batch = False, tp_post = True\<rparr>,
     \<lparr>tp_prefix = ''/replenishment/2022-11-07/offers/search'', tp_tier = CacheTierModerate, tp_ttl = 6 * hour, tp_batch = False, tp_post = True\<rparr>]"

definition tierPatterns_short :: "tier_pattern list" where
  "tierPatterns_short = [
     \<lparr>tp_prefix = ''/orders/'', tp_tier = CacheTierShort, tp_ttl = 60 * second, tp_batch = False, tp_post = False\<rparr>,
     \<lparr>tp_prefix = ''/products/pricing/'', tp_tier = CacheTierShort, tp_ttl = 60 * second, tp_batch = False, tp_post = False\<rparr>,
     \<lparr>tp_prefix = ''/products/fees/'', tp_tier = CacheTierShort, tp_ttl = 60 * second, tp_batch = False, tp_post = False\<rparr>,
     \<lparr>tp_prefix = ''/products/'', tp_tier = CacheTierShort, tp_ttl = 60 * second, tp_batch = False, tp_post = False\<rparr>]"

definition defaultTierPatterns :: "tier_pattern list" where
  "defaultTierPatterns = tierPatterns_stable @ tierPatterns_moderate @ tierPatterns_post @ tierPatterns_short"

record tier_classifier =
  tc_patterns :: "tier_pattern list"
  tc_piiChecker :: "(request \<Rightarrow> bool) option"

definition NewTierClassifier :: "(request \<Rightarrow> bool) option \<Rightarrow> tier_classifier" where
  "NewTierClassifier piiChecker = \<lparr>tc_patterns = defaultTierPatterns, tc_piiChecker = piiChecker\<rparr>"

definition tier_never :: "string \<Rightarrow> tier_config" where
  "tier_never reason =
     \<lparr>tc_Tier = CacheTierNever, tc_DefaultTTL = 0, tc_Reason = reason, tc_BatchCacheable = False,
      tc_PostCacheable = False\<rparr>"

definition tier_Classify :: "tier_classifier \<Rightarrow> string \<Rightarrow> string \<Rightarrow> request \<Rightarrow> tier_config" where
  "tier_Classify tc method path r =
     (if method \<noteq> ''GET'' then
        (if method = ''POST'' then
           (case find (\<lambda>p. (tp_batch p \<or> tp_post p) \<and> has_prefix path (tp_prefix p)) (tc_patterns tc) of
              Some p \<Rightarrow>
                \<lparr>tc_Tier = tp_tier p, tc_DefaultTTL = tp_ttl p, tc_Reason = [],
                 tc_BatchCacheable = tp_batch p, tc_PostCacheable = tp_post p\<rparr>
            | None \<Rightarrow> tier_never [])
         else tier_never [])
      else if (case tc_piiChecker tc of None \<Rightarrow> False | Some chk \<Rightarrow> chk r) then tier_never ''PII_EXCLUDED''
      else
        (case find (\<lambda>p. \<not> (tp_post p \<or> tp_batch p) \<and> has_prefix path (tp_prefix p)) (tc_patterns tc) of
           Some p \<Rightarrow>
             \<lparr>tc_Tier = tp_tier p, tc_DefaultTTL = tp_ttl p, tc_Reason = [], tc_BatchCacheable = False,
              tc_PostCacheable = False\<rparr>
         | None \<Rightarrow>
             \<lparr>tc_Tier = CacheTierShort, tc_DefaultTTL = 60 * second, tc_Reason = [],
              tc_BatchCacheable = False, tc_PostCacheable = False\<rparr>))"

section \<open>Lemmas\<close>

text \<open>No earlier row of the same kind has a prefix of this row's prefix.\<close>

fun unshadowed :: "string list \<Rightarrow> bool" where
  "unshadowed [] = True"
| "unshadowed (p # ps) = (list_all (\<lambda>q. \<not> has_prefix q p) ps \<and> unshadowed ps)"

lemma get_rows_unshadowed:
  "unshadowed (map tp_prefix (filter (\<lambda>p. \<not> (tp_post p \<or> tp_batch p)) defaultTierPatterns))"
  by code_simp

lemma post_rows_unshadowed:
  "unshadowed (map tp_prefix (filter (\<lambda>p. tp_post p \<or> tp_batch p) defaultTierPatterns))"
  by code_simp

lemma find_filter: "find (\<lambda>p. A p \<and> B p) xs = find B (filter A xs)"
  by (induction xs) auto

text \<open>In an unshadowed table the prefix of each row finds that row.\<close>

lemma unshadowed_find:
  "unshadowed (map tp_prefix ps) \<Longrightarrow> p \<in> set ps \<Longrightarrow>
   find (\<lambda>q. has_prefix (tp_prefix p) (tp_prefix q)) ps = Some p"
proof (induction ps)
  case (Cons q ps)
  show ?case
  proof (cases "p = q")
    case False
    with Cons.prems have "\<not> has_prefix (tp_prefix p) (tp_prefix q)" by (auto simp: list_all_iff)
    with Cons False show ?thesis by simp
  qed simp
qed simp

section \<open>Properties\<close>

text \<open>The tier table is reachable and ordered as its comment demands. For every row, the
  classifier takes a request whose path is that row's prefix to the tier and time to live of
  that very row, GET rows for GET and POST rows for POST.\<close>

theorem tier_rows_reachable:
  assumes "p \<in> set defaultTierPatterns"
  shows "(\<not> (tp_post p \<or> tp_batch p) \<longrightarrow>
      (let c = tier_Classify (NewTierClassifier None) ''GET'' (tp_prefix p) r
       in tc_Tier c = tp_tier p \<and> tc_DefaultTTL c = tp_ttl p))
    \<and> (tp_post p \<or> tp_batch p \<longrightarrow>
      (let c = tier_Classify (NewTierClassifier None) ''POST'' (tp_prefix p) r
       in tc_Tier c = tp_tier p \<and> tc_DefaultTTL c = tp_ttl p \<and> tc_PostCacheable c = tp_post p))"
proof -
  have get: "find (\<lambda>q. has_prefix (tp_prefix p) (tp_prefix q))
      (filter (\<lambda>p. \<not> (tp_post p \<or> tp_batch p)) defaultTierPatterns) = Some p" if "\<not> (tp_post p \<or> tp_batch p)"
    by (rule unshadowed_find [OF get_rows_unshadowed]) (use that assms in simp)
  have post: "find (\<lambda>q. has_prefix (tp_prefix p) (tp_prefix q))
      (filter (\<lambda>p. tp_post p \<or> tp_batch p) defaultTierPatterns) = Some p" if "tp_post p \<or> tp_batch p"
    by (rule unshadowed_find [OF post_rows_unshadowed]) (use that assms in simp)
  have comm: "(\<lambda>p. tp_batch p \<or> tp_post p) = (\<lambda>p. tp_post p \<or> tp_batch p)" by auto
  show ?thesis
    unfolding tier_Classify_def find_filter NewTierClassifier_def comm using get post by auto
qed

theorem tier_rows_reachable_witness:
  "tc_DefaultTTL (tier_Classify (NewTierClassifier None) ''GET'' ''/definitions/'' (get_request ''/definitions/''))
     = 24 * hour"
proof -
  have "\<lparr>tp_prefix = ''/definitions/'', tp_tier = CacheTierAggressive, tp_ttl = 24 * hour, tp_batch = False,
      tp_post = False\<rparr> \<in> set defaultTierPatterns"
    by (simp add: defaultTierPatterns_def tierPatterns_stable_def)
  from tier_rows_reachable [OF this] show ?thesis by (simp add: Let_def)
qed

lemma stable_rows_documents:
  assumes "d \<in> {''/reports/2021-06-30/documents/'', ''/feeds/2021-06-30/documents/'',
      ''/datakiosk/2023-11-15/documents/''}"
  shows "\<exists>p. find (\<lambda>q. \<not> (tp_post q \<or> tp_batch q) \<and> has_prefix (d @ x) (tp_prefix q)) tierPatterns_stable = Some p
    \<and> tp_ttl p = 4 * minute"
  using assms unfolding insert_iff empty_iff by (elim disjE) (simp_all add: tierPatterns_stable_def)

lemma find_append_Some: "find P xs = Some p \<Longrightarrow> find P (xs @ ys) = Some p"
  by (induction xs) (auto split: if_splits)

text \<open>The defaults never cache documents past their pre-signed URL, and never mutations. The default time to
  live of any report, feed or data-kiosk document is four minutes, under the five after which
  its URL expires, unless it is excluded altogether; a method other than GET and POST is
  never cached.\<close>

theorem tier_safe_defaults:
  "(d \<in> {''/reports/2021-06-30/documents/'', ''/feeds/2021-06-30/documents/'',
         ''/datakiosk/2023-11-15/documents/''} \<longrightarrow>
      tc_DefaultTTL (tier_Classify (NewTierClassifier chk) ''GET'' (d @ x) r) \<in> {0, 4 * minute})
   \<and> (m \<noteq> ''GET'' \<and> m \<noteq> ''POST'' \<longrightarrow> tc_Tier (tier_Classify (NewTierClassifier chk) m path r) = CacheTierNever)"
proof -
  have "tc_DefaultTTL (tier_Classify (NewTierClassifier chk) ''GET'' (d @ x) r) \<in> {0, 4 * minute}"
    if "d \<in> {''/reports/2021-06-30/documents/'', ''/feeds/2021-06-30/documents/'',
         ''/datakiosk/2023-11-15/documents/''}"
  proof -
    from stable_rows_documents [OF that] obtain p where p:
      "find (\<lambda>q. \<not> (tp_post q \<or> tp_batch q) \<and> has_prefix (d @ x) (tp_prefix q)) tierPatterns_stable = Some p"
      "tp_ttl p = 4 * minute" by blast
    show ?thesis
      unfolding tier_Classify_def NewTierClassifier_def tier_classifier.simps defaultTierPatterns_def
        find_append_Some [OF p(1)]
      by (simp add: p(2) tier_never_def split: option.splits)
  qed
  then show ?thesis by (simp add: tier_Classify_def tier_never_def duration_defs)
qed

theorem tier_safe_defaults_witness:
  "tc_DefaultTTL (tier_Classify (NewTierClassifier None) ''GET'' ''/reports/2021-06-30/documents/d1''
     (get_request ''/reports/2021-06-30/documents/d1''))
     \<in> {0, 4 * minute}"
  using tier_safe_defaults [of "''/reports/2021-06-30/documents/''" None "''d1''"] by simp

end
