(* ===== verification/RateTable.thy ===== *)
theory RateTable
  imports Endpoint
begin

text \<open>
  The published rate limits (\<^verbatim>\<open>internal/ratelimit/defaults.go\<close>): the default parameters of
  every endpoint, the overrides for single methods, the application-wide limits, and
  \<^verbatim>\<open>LookupDefaults\<close>. A Go map is a list of its rows, looked up by key; the long table is cut
  into the groups of the source so that it can be evaluated.
\<close>

record bucket_params =
  Rate :: rat
  Burst :: rat

type_synonym limit_table = "(string \<times> bucket_params) list"

definition DefaultBucketParams_orders :: limit_table where
  "DefaultBucketParams_orders = [
     (''/orders/v0/orders'', \<lparr>Rate = 167 / 10000, Burst = 20\<rparr>),
     (''/orders/v0/orders/{orderId}'', \<lparr>Rate = 1 / 2, Burst = 30\<rparr>),
     (''/orders/v0/orders/{orderId}/orderItems'', \<lparr>Rate = 1 / 2, Burst = 30\<rparr>),
     (''/orders/v0/orders/{orderId}/buyerInfo'', \<lparr>Rate = 1 / 2, Burst = 30\<rparr>),
     (''/orders/v0/orders/{orderId}/address'', \<lparr>Rate = 1 / 2, Burst = 30\<rparr>),
     (''/orders/v0/orders/{orderId}/orderItems/buyerInfo'', \<lparr>Rate = 1 / 2, Burst = 30\<rparr>),
     (''/orders/v0/orders/{orderId}/regulatedInfo'', \<lparr>Rate = 1 / 2, Burst = 30\<rparr>),
     (''/orders/v0/orders/{orderId}/shipmentConfirmation'', \<lparr>Rate = 2, Burst = 10\<rparr>),
     (''/orders/v0/orders/{orderId}/shipment'', \<lparr>Rate = 5, Burst = 15\<rparr>),
     (''/orders/2026-01-01/orders'', \<lparr>Rate = 7 / 1250, Burst = 20\<rparr>),
     (''/orders/2026-01-01/orders/{orderId}'', \<lparr>Rate = 1 / 2, Burst = 30\<rparr>)]"

definition DefaultBucketParams_catalog :: limit_table where
  "DefaultBucketParams_catalog = [
     (''/catalog/2022-04-01/items'', \<lparr>Rate = 2, Burst = 2\<rparr>),
     (''/catalog/2022-04-01/items/{asin}'', \<lparr>Rate = 2, Burst = 2\<rparr>),
     (''/feeds/2021-06-30/feeds'', \<lparr>Rate = 111 / 5000, Burst = 10\<rparr>),
     (''/feeds/2021-06-30/feeds/{feedId}'', \<lparr>Rate = 2, Burst = 15\<rparr>),
     (''/feeds/2021-06-30/documents'', \<lparr>Rate = 1 / 2, Burst = 15\<rparr>),
     (''/feeds/2021-06-30/documents/{feedDocumentId}'', \<lparr>Rate = 111 / 5000, Burst = 10\<rparr>)]"

definition DefaultBucketParams_reports :: limit_table where
  "DefaultBucketParams_reports = [
     (''/reports/2021-06-30/reports'', \<lparr>Rate = 111 / 5000, Burst = 10\<rparr>),
     (''/reports/2021-06-30/reports/{reportId}'', \<lparr>Rate = 2, Burst = 15\<rparr>),
     (''/reports/2021-06-30/schedules'', \<lparr>Rate = 111 / 5000, Burst = 10\<rparr>),
     (''/reports/2021-06-30/schedules/{scheduleId}'', \<lparr>Rate = 111 / 5000, Burst = 10\<rparr>),
     (''/reports/2021-06-30/documents/{documentId}'', \<lparr>Rate = 167 / 10000, Burst = 15\<rparr>),
     (''/datakiosk/2023-11-15/queries'', \<lparr>Rate = 111 / 5000, Burst = 10\<rparr>),
     (''/datakiosk/2023-11-15/queries/{queryId}'', \<lparr>Rate = 2, Burst = 15\<rparr>),
     (''/datakiosk/2023-11-15/documents/{documentId}'', \<lparr>Rate = 167 / 10000, Burst = 15\<rparr>),
     (''/listings/2021-08-01/items/{sellerId}/{sku}'', \<lparr>Rate = 5, Burst = 5\<rparr>),
     (''/listings/2021-08-01/items/{sellerId}'', \<lparr>Rate = 5, Burst = 5\<rparr>),
     (''/listings/2021-08-01/restrictions'', \<lparr>Rate = 5, Burst = 10\<rparr>)]"

definition DefaultBucketParams_pricing :: limit_table where
  "DefaultBucketParams_pricing = [
     (''/products/pricing/v0/competitivePrice'', \<lparr>Rate = 1 / 2, Burst = 1\<rparr>),
     (''/products/pricing/v0/price'', \<lparr>Rate = 1 / 2, Burst = 1\<rparr>),
     (''/products/pricing/v0/items/{asin}/offers'', \<lparr>Rate = 1 / 2, Burst = 1\<rparr>),
     (''/products/pricing/v0/listings/{sku}/offers'', \<lparr>Rate = 1 / 2, Burst = 1\<rparr>),
     (''/batches/products/pricing/v0/itemOffers'', \<lparr>Rate = 1 / 2, Burst = 1\<rparr>),
     (''/batches/products/pricing/v0/listingOffers'', \<lparr>Rate = 1 / 2, Burst = 1\<rparr>),
     (''/products/pricing/2022-05-01/offer/featuredOfferExpectedPrice'', \<lparr>Rate = 33 / 1000, Burst = 1\<rparr>),
     (''/products/pricing/2022-05-01/offer/competitiveSummary'', \<lparr>Rate = 33 / 1000, Burst = 1\<rparr>),
     (''/products/fees/v0/listings/{sku}/feesEstimate'', \<lparr>Rate = 1, Burst = 2\<rparr>),
     (''/products/fees/v0/items/{asin}/feesEstimate'', \<lparr>Rate = 1, Burst = 2\<rparr>),
     (''/products/fees/v0/feesEstimate'', \<lparr>Rate = 1 / 2, Burst = 1\<rparr>),
     (''/definitions/2020-09-01/productTypes'', \<lparr>Rate = 5, Burst = 10\<rparr>),
     (''/definitions/2020-09-01/productTypes/{productType}'', \<lparr>Rate = 5, Burst = 10\<rparr>)]"

definition DefaultBucketParams_inventory :: limit_table where
  "DefaultBucketParams_inventory = [
     (''/fba/inventory/v1/summaries'', \<lparr>Rate = 2, Burst = 2\<rparr>),
     (''/fba/inventory/v1/items'', \<lparr>Rate = 2, Burst = 3\<rparr>),
     (''/fba/inventory/v1/items/{sku}'', \<lparr>Rate = 2, Burst = 3\<rparr>),
     (''/fba/inventory/v1/items/inventory'', \<lparr>Rate = 2, Burst = 3\<rparr>),
     (''/fba/inbound/v1/eligibility/itemPreview'', \<lparr>Rate = 1, Burst = 1\<rparr>),
     (''/fba/inbound/v2024-03-20/inboundPlans'', \<lparr>Rate = 2, Burst = 6\<rparr>),
     (''/fba/inbound/v2024-03-20/inboundPlans/{planId}'', \<lparr>Rate = 2, Burst = 6\<rparr>),
     (''/fba/inbound/v2024-03-20/inboundPlans/{planId}/packingOptions'', \<lparr>Rate = 2, Burst = 2\<rparr>),
     (''/fba/inbound/v2024-03-20/inboundPlans/{planId}/placementOptions'', \<lparr>Rate = 2, Burst = 2\<rparr>)]"

definition DefaultBucketParams_fulfillment :: limit_table where
  "DefaultBucketParams_fulfillment = [
     (''/fba/inbound/v0/prepInstructions'', \<lparr>Rate = 2, Burst = 30\<rparr>),
     (''/fba/inbound/v0/shipments'', \<lparr>Rate = 2, Burst = 30\<rparr>),
     (''/fba/inbound/v0/shipments/{shipmentId}/labels'', \<lparr>Rate = 5, Burst = 30\<rparr>),
     (''/fba/inbound/v0/shipments/{shipmentId}/billOfLading'', \<lparr>Rate = 2, Burst = 30\<rparr>),
     (''/fba/inbound/v0/shipments/{shipmentId}/items'', \<lparr>Rate = 2, Burst = 30\<rparr>),
     (''/fba/inbound/v0/shipmentItems'', \<lparr>Rate = 2, Burst = 30\<rparr>),
     (''/fba/outbound/2020-07-01/fulfillmentOrders'', \<lparr>Rate = 2, Burst = 30\<rparr>),
     (''/fba/outbound/2020-07-01/fulfillmentOrders/preview'', \<lparr>Rate = 2, Burst = 30\<rparr>),
     (''/fba/outbound/2020-07-01/fulfillmentOrders/{orderId}'', \<lparr>Rate = 2, Burst = 30\<rparr>),
     (''/fba/outbound/2020-07-01/fulfillmentOrders/{orderId}/cancel'', \<lparr>Rate = 2, Burst = 30\<rparr>),
     (''/fba/outbound/2020-07-01/fulfillmentOrders/{orderId}/return'', \<lparr>Rate = 2, Burst = 30\<rparr>),
     (''/fba/outbound/2020-07-01/deliveryOffers'', \<lparr>Rate = 10, Burst = 30\<rparr>),
     (''/fba/outbound/2020-07-01/tracking'', \<lparr>Rate = 2, Burst = 30\<rparr>),
     (''/fba/outbound/2020-07-01/returnReasonCodes'', \<lparr>Rate = 2, Burst = 30\<rparr>),
     (''/fba/outbound/2020-07-01/features'', \<lparr>Rate = 2, Burst = 30\<rparr>),
     (''/fba/outbound/2020-07-01/features/inventory/{featureName}'', \<lparr>Rate = 2, Burst = 30\<rparr>),
     (''/fba/outbound/2020-07-01/features/inventory/{featureName}/{sku}'', \<lparr>Rate = 2, Burst = 30\<rparr>)]"

definition DefaultBucketParams_shipping :: limit_table where
  "DefaultBucketParams_shipping = [
     (''/shipping/v1/shipments'', \<lparr>Rate = 5, Burst = 15\<rparr>),
     (''/shipping/v1/shipments/{shipmentId}'', \<lparr>Rate = 5, Burst = 15\<rparr>),
     (''/shipping/v1/shipments/{shipmentId}/cancel'', \<lparr>Rate = 5, Burst = 15\<rparr>),
     (''/shipping/v1/shipments/{shipmentId}/purchaseLabels'', \<lparr>Rate = 5, Burst = 15\<rparr>),
     (''/shipping/v1/containers/{trackingId}/label'', \<lparr>Rate = 5, Burst = 15\<rparr>),
     (''/shipping/v1/purchaseShipment'', \<lparr>Rate = 5, Burst = 15\<rparr>),
     (''/shipping/v1/rates'', \<lparr>Rate = 5, Burst = 15\<rparr>),
     (''/shipping/v1/account'', \<lparr>Rate = 5, Burst = 15\<rparr>),
     (''/shipping/v1/tracking/{trackingId}'', \<lparr>Rate = 1, Burst = 1\<rparr>),
     (''/shipping/v2/shipments'', \<lparr>Rate = 5, Burst = 15\<rparr>),
     (''/shipping/v2/tracking'', \<lparr>Rate = 5, Burst = 15\<rparr>),
     (''/shipping/v2/shipments/rates'', \<lparr>Rate = 5, Burst = 15\<rparr>),
     (''/shipping/v2/shipments/{shipmentId}/cancel'', \<lparr>Rate = 5, Burst = 15\<rparr>),
     (''/shipping/v2/shipments/{shipmentId}/documents'', \<lparr>Rate = 5, Burst = 15\<rparr>),
     (''/shipping/v2/oneClickShipment'', \<lparr>Rate = 5, Burst = 15\<rparr>),
     (''/shipping/v2/shipments/directPurchase'', \<lparr>Rate = 5, Burst = 15\<rparr>),
     (''/shipping/v2/collectionForms'', \<lparr>Rate = 5, Burst = 15\<rparr>)]"

definition DefaultBucketParams_mfn :: limit_table where
  "DefaultBucketParams_mfn = [
     (''/mfn/v0/eligibleShippingServices'', \<lparr>Rate = 6, Burst = 12\<rparr>),
     (''/mfn/v0/shipments'', \<lparr>Rate = 2, Burst = 2\<rparr>),
     (''/mfn/v0/shipments/{shipmentId}'', \<lparr>Rate = 1, Burst = 1\<rparr>),
     (''/mfn/v0/sellerInputs'', \<lparr>Rate = 1, Burst = 1\<rparr>),
     (''/easyShip/2022-03-23/timeSlot'', \<lparr>Rate = 1, Burst = 1\<rparr>),
     (''/easyShip/2022-03-23/package'', \<lparr>Rate = 1, Burst = 1\<rparr>),
     (''/easyShip/2022-03-23/packages/bulk'', \<lparr>Rate = 1, Burst = 1\<rparr>),
     (''/notifications/v1/subscriptions/{type}'', \<lparr>Rate = 1, Burst = 5\<rparr>),
     (''/notifications/v1/subscriptions'', \<lparr>Rate = 1, Burst = 5\<rparr>),
     (''/notifications/v1/destinations'', \<lparr>Rate = 1, Burst = 5\<rparr>),
     (''/notifications/v1/destinations/{destinationId}'', \<lparr>Rate = 1, Burst = 5\<rparr>),
     (''/tokens/2021-03-01/restrictedDataToken'', \<lparr>Rate = 1, Burst = 10\<rparr>),
     (''/sellers/v1/marketplaceParticipations'', \<lparr>Rate = 2 / 125, Burst = 15\<rparr>),
     (''/sellers/v1/account'', \<lparr>Rate = 2 / 125, Burst = 15\<rparr>),
     (''/sales/v1/orderMetrics'', \<lparr>Rate = 1 / 2, Burst = 15\<rparr>)]"

definition DefaultBucketParams_finances :: limit_table where
  "DefaultBucketParams_finances = [
     (''/finances/v0/financialEvents'', \<lparr>Rate = 1 / 2, Burst = 30\<rparr>),
     (''/finances/v0/financialEventGroups'', \<lparr>Rate = 1 / 2, Burst = 30\<rparr>),
     (''/finances/v0/financialEventGroups/{eventGroupId}/financialEvents'', \<lparr>Rate = 1 / 2, Burst = 30\<rparr>),
     (''/finances/v0/orders/{orderId}/financialEvents'', \<lparr>Rate = 1 / 2, Burst = 30\<rparr>),
     (''/finances/2024-06-19/transactions'', \<lparr>Rate = 1 / 2, Burst = 10\<rparr>),
     (''/messaging/v1/orders/{orderId}/messages'', \<lparr>Rate = 1, Burst = 5\<rparr>),
     (''/solicitations/v1/orders/{orderId}/solicitations/productReviewAndSellerFeedback'', \<lparr>Rate = 1, Burst = 5\<rparr>),
     (''/solicitations/v1/orders/{orderId}/solicitations'', \<lparr>Rate = 1, Burst = 5\<rparr>),
     (''/uploads/2020-11-01/uploadDestinations/{resource}'', \<lparr>Rate = 1 / 10, Burst = 5\<rparr>),
     (''/applications/2023-11-30/clientSecret'', \<lparr>Rate = 167 / 10000, Burst = 1\<rparr>),
     (''/aplus/2020-11-01/contentDocuments'', \<lparr>Rate = 10, Burst = 10\<rparr>),
     (''/aplus/2020-11-01/contentDocuments/{contentReferenceKey}'', \<lparr>Rate = 10, Burst = 10\<rparr>),
     (''/aplus/2020-11-01/contentPublishRecords'', \<lparr>Rate = 10, Burst = 10\<rparr>)]"

definition DefaultBucketParams_misc :: limit_table where
  "DefaultBucketParams_misc = [
     (''/replenishment/2022-11-07/sellingPartners/metrics/search'', \<lparr>Rate = 1, Burst = 1\<rparr>),
     (''/replenishment/2022-11-07/offers/metrics/search'', \<lparr>Rate = 1, Burst = 1\<rparr>),
     (''/replenishment/2022-11-07/offers/search'', \<lparr>Rate = 1, Burst = 1\<rparr>),
     (''/awd/2024-05-09/inboundShipments'', \<lparr>Rate = 1, Burst = 1\<rparr>),
     (''/awd/2024-05-09/inboundShipments/{shipmentId}'', \<lparr>Rate = 2, Burst = 6\<rparr>),
     (''/awd/2024-05-09/inventory'', \<lparr>Rate = 2, Burst = 2\<rparr>),
     (''/supplySources/2020-07-01/supplySources'', \<lparr>Rate = 1, Burst = 10\<rparr>),
     (''/supplySources/2020-07-01/supplySources/{supplySourceId}'', \<lparr>Rate = 1, Burst = 10\<rparr>)]"

definition DefaultBucketParams_vendor :: limit_table where
  "DefaultBucketParams_vendor = [
     (''/vendor/directFulfillment/orders/2021-12-28/purchaseOrders'', \<lparr>Rate = 10, Burst = 10\<rparr>),
     (''/vendor/directFulfillment/orders/2021-12-28/purchaseOrders/{purchaseOrderNumber}'', \<lparr>Rate = 10, Burst = 10\<rparr>),
     (''/vendor/directFulfillment/shipping/2021-12-28/shippingLabels'', \<lparr>Rate = 10, Burst = 10\<rparr>),
     (''/vendor/directFulfillment/shipping/2021-12-28/shippingLabels/{purchaseOrderNumber}'', \<lparr>Rate = 10, Burst = 10\<rparr>),
     (''/vendor/directFulfillment/shipping/2021-12-28/shipmentConfirmations'', \<lparr>Rate = 10, Burst = 10\<rparr>),
     (''/vendor/directFulfillment/shipping/2021-12-28/shipmentStatusUpdates'', \<lparr>Rate = 10, Burst = 10\<rparr>),
     (''/vendor/directFulfillment/shipping/2021-12-28/customerInvoices'', \<lparr>Rate = 10, Burst = 10\<rparr>),
     (''/vendor/directFulfillment/shipping/2021-12-28/customerInvoices/{purchaseOrderNumber}'', \<lparr>Rate = 10, Burst = 10\<rparr>),
     (''/vendor/directFulfillment/shipping/2021-12-28/packingSlips'', \<lparr>Rate = 10, Burst = 10\<rparr>),
     (''/vendor/directFulfillment/shipping/2021-12-28/packingSlips/{purchaseOrderNumber}'', \<lparr>Rate = 10, Burst = 10\<rparr>),
     (''/vendor/directFulfillment/inventory/2021-12-28/inventoryUpdates'', \<lparr>Rate = 10, Burst = 10\<rparr>),
     (''/vendor/directFulfillment/payments/2021-12-28/invoices'', \<lparr>Rate = 10, Burst = 10\<rparr>),
     (''/vendor/directFulfillment/transactions/2021-12-28/transactions/{transactionId}'', \<lparr>Rate = 10, Burst = 10\<rparr>)]"

definition DefaultBucketParams_vendor_retail :: limit_table where
  "DefaultBucketParams_vendor_retail = [
     (''/vendor/orders/v1/purchaseOrders'', \<lparr>Rate = 10, Burst = 10\<rparr>),
     (''/vendor/orders/v1/purchaseOrders/{purchaseOrderNumber}'', \<lparr>Rate = 10, Burst = 10\<rparr>),
     (''/vendor/orders/v1/purchaseOrdersStatus'', \<lparr>Rate = 10, Burst = 10\<rparr>),
     (''/vendor/orders/v1/acknowledgements'', \<lparr>Rate = 10, Burst = 10\<rparr>),
     (''/vendor/shipments/v1/shipmentConfirmations'', \<lparr>Rate = 10, Burst = 10\<rparr>),
     (''/vendor/shipments/v1/shipments'', \<lparr>Rate = 10, Burst = 10\<rparr>),
     (''/vendor/shipments/v1/shipmentLabels'', \<lparr>Rate = 10, Burst = 10\<rparr>),
     (''/vendor/invoices/v1/invoices'', \<lparr>Rate = 10, Burst = 10\<rparr>),
     (''/vendor/transactionStatus/v1/transactions/{transactionId}'', \<lparr>Rate = 10, Burst = 10\<rparr>)]"

definition DefaultBucketParams :: limit_table where
  "DefaultBucketParams = concat [
     DefaultBucketParams_orders,
     DefaultBucketParams_catalog,
     DefaultBucketParams_reports,
     DefaultBucketParams_pricing,
     DefaultBucketParams_inventory,
     DefaultBucketParams_fulfillment,
     DefaultBucketParams_shipping,
     DefaultBucketParams_mfn,
     DefaultBucketParams_finances,
     DefaultBucketParams_misc,
     DefaultBucketParams_vendor,
     DefaultBucketParams_vendor_retail]"

definition MethodBucketOverrides :: limit_table where
  "MethodBucketOverrides = [
     (''POST:/feeds/2021-06-30/feeds'', \<lparr>Rate = 83 / 10000, Burst = 15\<rparr>),
     (''POST:/reports/2021-06-30/reports'', \<lparr>Rate = 167 / 10000, Burst = 15\<rparr>),
     (''POST:/datakiosk/2023-11-15/queries'', \<lparr>Rate = 167 / 10000, Burst = 15\<rparr>)]"

definition AppBucketParams :: limit_table where
  "AppBucketParams = [
     (''GET:/catalog/2022-04-01/items'', \<lparr>Rate = 500, Burst = 500\<rparr>),
     (''GET:/catalog/2022-04-01/items/{asin}'', \<lparr>Rate = 250, Burst = 250\<rparr>),
     (''GET:/listings/2021-08-01/items/{sellerId}/{sku}'', \<lparr>Rate = 100, Burst = 100\<rparr>),
     (''PUT:/listings/2021-08-01/items/{sellerId}/{sku}'', \<lparr>Rate = 100, Burst = 100\<rparr>),
     (''PATCH:/listings/2021-08-01/items/{sellerId}/{sku}'', \<lparr>Rate = 500, Burst = 500\<rparr>),
     (''DELETE:/listings/2021-08-01/items/{sellerId}/{sku}'', \<lparr>Rate = 100, Burst = 100\<rparr>),
     (''GET:/listings/2021-08-01/items/{sellerId}'', \<lparr>Rate = 100, Burst = 100\<rparr>)]"

definition ClassifyEndpoint :: "string \<Rightarrow> string" where
  "ClassifyEndpoint path = Classify path"

definition LookupDefaults :: "string \<Rightarrow> string \<Rightarrow> bucket_params option" where
  "LookupDefaults method ep =
     (case map_of MethodBucketOverrides (method @ '':'' @ ep) of
        Some params \<Rightarrow> Some params
      | None \<Rightarrow> map_of DefaultBucketParams ep)"

section \<open>Every published limit is usable\<close>

text \<open>A positive rate, room for at least one whole token, and full again after an hour.\<close>

definition params_ok :: "bucket_params \<Rightarrow> bool" where
  "params_ok p \<longleftrightarrow> 0 < Rate p \<and> 1 \<le> Burst p \<and> Burst p \<le> 3600 * Rate p"

definition table_ok :: "limit_table \<Rightarrow> bool" where
  "table_ok t \<longleftrightarrow> list_all (\<lambda>row. params_ok (snd row)) t"

lemma table_ok_lookup: "table_ok t \<Longrightarrow> map_of t k = Some p \<Longrightarrow> params_ok p"
  by (auto simp: table_ok_def list_all_iff dest!: map_of_SomeD)

lemma table_ok_orders: "table_ok DefaultBucketParams_orders"
  by (simp add: table_ok_def params_ok_def DefaultBucketParams_orders_def)

lemma table_ok_catalog: "table_ok DefaultBucketParams_catalog"
  by (simp add: table_ok_def params_ok_def DefaultBucketParams_catalog_def)

lemma table_ok_reports: "table_ok DefaultBucketParams_reports"
  by (simp add: table_ok_def params_ok_def DefaultBucketParams_reports_def)

lemma table_ok_pricing: "table_ok DefaultBucketParams_pricing"
  by (simp add: table_ok_def params_ok_def DefaultBucketParams_pricing_def)

lemma table_ok_inventory: "table_ok DefaultBucketParams_inventory"
  by (simp add: table_ok_def params_ok_def DefaultBucketParams_inventory_def)

lemma table_ok_fulfillment: "table_ok DefaultBucketParams_fulfillment"
  by (simp add: table_ok_def params_ok_def DefaultBucketParams_fulfillment_def)

lemma table_ok_shipping: "table_ok DefaultBucketParams_shipping"
  by (simp add: table_ok_def params_ok_def DefaultBucketParams_shipping_def)

lemma table_ok_mfn: "table_ok DefaultBucketParams_mfn"
  by (simp add: table_ok_def params_ok_def DefaultBucketParams_mfn_def)

lemma table_ok_finances: "table_ok DefaultBucketParams_finances"
  by (simp add: table_ok_def params_ok_def DefaultBucketParams_finances_def)

lemma table_ok_misc: "table_ok DefaultBucketParams_misc"
  by (simp add: table_ok_def params_ok_def DefaultBucketParams_misc_def)

lemma table_ok_vendor: "table_ok DefaultBucketParams_vendor"
  by (simp add: table_ok_def params_ok_def DefaultBucketParams_vendor_def)

lemma table_ok_vendor_retail: "table_ok DefaultBucketParams_vendor_retail"
  by (simp add: table_ok_def params_ok_def DefaultBucketParams_vendor_retail_def)

lemma table_ok_overrides: "table_ok MethodBucketOverrides"
  by (simp add: table_ok_def params_ok_def MethodBucketOverrides_def)

lemma table_ok_app: "table_ok AppBucketParams"
  by (simp add: table_ok_def params_ok_def AppBucketParams_def)

lemma table_ok_defaults: "table_ok DefaultBucketParams"
  using table_ok_orders table_ok_catalog table_ok_reports table_ok_pricing table_ok_inventory table_ok_fulfillment table_ok_shipping table_ok_mfn table_ok_finances table_ok_misc table_ok_vendor table_ok_vendor_retail
  by (simp add: DefaultBucketParams_def table_ok_def)

lemma LookupDefaults_ok: "LookupDefaults m e = Some p \<Longrightarrow> params_ok p"
  using table_ok_lookup [OF table_ok_overrides] table_ok_lookup [OF table_ok_defaults]
  by (auto simp: LookupDefaults_def split: option.splits)

lemma AppBucketParams_ok: "map_of AppBucketParams k = Some p \<Longrightarrow> params_ok p"
  by (rule table_ok_lookup [OF table_ok_app])

lemma keys_stable_orders:
  "list_all (\<lambda>row. ClassifyEndpoint (fst row) = fst row \<and> CHR '':'' \<notin> set (fst row)) DefaultBucketParams_orders"
  by code_simp

lemma keys_stable_catalog:
  "list_all (\<lambda>row. ClassifyEndpoint (fst row) = fst row \<and> CHR '':'' \<notin> set (fst row)) DefaultBucketParams_catalog"
  by code_simp

lemma keys_stable_reports:
  "list_all (\<lambda>row. ClassifyEndpoint (fst row) = fst row \<and> CHR '':'' \<notin> set (fst row)) DefaultBucketParams_reports"
  by code_simp

lemma keys_stable_pricing:
  "list_all (\<lambda>row. ClassifyEndpoint (fst row) = fst row \<and> CHR '':'' \<notin> set (fst row)) DefaultBucketParams_pricing"
  by code_simp

lemma keys_stable_inventory:
  "list_all (\<lambda>row. ClassifyEndpoint (fst row) = fst row \<and> CHR '':'' \<notin> set (fst row)) DefaultBucketParams_inventory"
  by code_simp

lemma keys_stable_fulfillment:
  "list_all (\<lambda>row. ClassifyEndpoint (fst row) = fst row \<and> CHR '':'' \<notin> set (fst row)) DefaultBucketParams_fulfillment"
  by code_simp

lemma keys_stable_shipping:
  "list_all (\<lambda>row. ClassifyEndpoint (fst row) = fst row \<and> CHR '':'' \<notin> set (fst row)) DefaultBucketParams_shipping"
  by code_simp

lemma keys_stable_mfn:
  "list_all (\<lambda>row. ClassifyEndpoint (fst row) = fst row \<and> CHR '':'' \<notin> set (fst row)) DefaultBucketParams_mfn"
  by code_simp

lemma keys_stable_finances:
  "list_all (\<lambda>row. ClassifyEndpoint (fst row) = fst row \<and> CHR '':'' \<notin> set (fst row)) DefaultBucketParams_finances"
  by code_simp

lemma keys_stable_misc:
  "list_all (\<lambda>row. ClassifyEndpoint (fst row) = fst row \<and> CHR '':'' \<notin> set (fst row)) DefaultBucketParams_misc"
  by code_simp

lemma keys_stable_vendor:
  "list_all (\<lambda>row. ClassifyEndpoint (fst row) = fst row \<and> CHR '':'' \<notin> set (fst row)) DefaultBucketParams_vendor"
  by code_simp

lemma keys_stable_vendor_retail:
  "list_all (\<lambda>row. ClassifyEndpoint (fst row) = fst row \<and> CHR '':'' \<notin> set (fst row)) DefaultBucketParams_vendor_retail"
  by code_simp

lemma keys_stable:
  "(ep, p) \<in> set DefaultBucketParams \<Longrightarrow> ClassifyEndpoint ep = ep \<and> CHR '':'' \<notin> set ep"
proof -
  have "list_all (\<lambda>row. ClassifyEndpoint (fst row) = fst row \<and> CHR '':'' \<notin> set (fst row)) DefaultBucketParams"
    unfolding DefaultBucketParams_def concat.simps list_all_append
    by (intro conjI list.pred_inject(1) keys_stable_orders keys_stable_catalog keys_stable_reports keys_stable_pricing keys_stable_inventory
        keys_stable_fulfillment keys_stable_shipping keys_stable_mfn keys_stable_finances keys_stable_misc
        keys_stable_vendor keys_stable_vendor_retail)
  then show "(ep, p) \<in> set DefaultBucketParams \<Longrightarrow> ClassifyEndpoint ep = ep \<and> CHR '':'' \<notin> set ep"
    unfolding list_all_iff by fastforce
qed

lemma override_split:
  "list_all (\<lambda>row. \<exists>m \<in> {''POST''}. \<exists>e \<in> {''/feeds/2021-06-30/feeds'', ''/reports/2021-06-30/reports'',
      ''/datakiosk/2023-11-15/queries''}. fst row = m @ '':'' @ e) MethodBucketOverrides"
  by (simp add: MethodBucketOverrides_def)

text \<open>An endpoint with a limit has no colon, which keeps the limiter's keys apart.\<close>

lemma LookupDefaults_no_colon:
  assumes "LookupDefaults m ep = Some p" "CHR '':'' \<notin> set m"
  shows "CHR '':'' \<notin> set ep"
proof (cases "map_of MethodBucketOverrides (m @ '':'' @ ep)")
  case None
  then have "(ep, p) \<in> set DefaultBucketParams"
    using assms(1) by (auto simp: LookupDefaults_def dest: map_of_SomeD)
  then show ?thesis using keys_stable by blast
next
  case (Some q)
  then have "(m @ '':'' @ ep, q) \<in> set MethodBucketOverrides" by (rule map_of_SomeD)
  then obtain e where e: "m @ '':'' @ ep = ''POST'' @ '':'' @ e" "CHR '':'' \<notin> set e"
    using override_split by (fastforce simp: list_all_iff)
  have "CHR '':'' \<notin> set ''POST''" by simp
  with e(1) assms(2) have "ep = e" using sep_left [of "CHR '':''" m "''POST''" ep e] by simp
  with e(2) show ?thesis by simp
qed

text \<open>Every published limit is usable and in use. Whatever method and endpoint a limit is
  found for, its rate is positive, its burst holds a whole token and an empty bucket is full
  again within an hour; and every key of the table is the classification of some path, so that
  no row is dead.\<close>

theorem limits_usable:
  assumes "LookupDefaults m ep = Some p \<or> (ep, p) \<in> set DefaultBucketParams"
  shows "params_ok p \<and> ((ep, p) \<in> set DefaultBucketParams \<longrightarrow> ClassifyEndpoint ep = ep)"
  using assms LookupDefaults_ok keys_stable table_ok_defaults
  by (fastforce simp: table_ok_def list_all_iff)

theorem limits_usable_witness:
  "params_ok \<lparr>Rate = 83 / 10000, Burst = 15\<rparr>
   \<and> LookupDefaults ''POST'' ''/feeds/2021-06-30/feeds'' = Some \<lparr>Rate = 83 / 10000, Burst = 15\<rparr>"
proof -
  have "LookupDefaults ''POST'' ''/feeds/2021-06-30/feeds'' = Some \<lparr>Rate = 83 / 10000, Burst = 15\<rparr>"
    by (simp add: LookupDefaults_def MethodBucketOverrides_def)
  with limits_usable show ?thesis by blast
qed

end
