(* ===== verification/RequestHeap.thy ===== *)
theory RequestHeap
  imports GoLib "HOL-Library.Product_Lexorder"
begin

text \<open>
  The priority heap of waiting requests (\<^verbatim>\<open>requestHeap\<close> in \<^verbatim>\<open>internal/ratelimit/queue.go\<close>)
  under the algorithms of \<^verbatim>\<open>container/heap\<close>: \<^verbatim>\<open>Push\<close>, \<^verbatim>\<open>Pop\<close> and \<^verbatim>\<open>Remove\<close> with their
  sift-up and sift-down loops.

  A \<^verbatim>\<open>*queuedRequest\<close> is a record whose \<open>req_id\<close> is the pointer's identity. The heap slice is
  a list; every element carries the index the Go code stores in it.
\<close>

datatype PriorityLevel = PriorityHigh | PriorityNormal | PriorityLow

fun level :: "PriorityLevel \<Rightarrow> nat" where
  "level PriorityHigh = 0"
| "level PriorityNormal = 1"
| "level PriorityLow = 2"

record queued_request =
  req_id :: nat
  priority :: PriorityLevel
  enqueuedAt :: time
  index :: int

type_synonym request_heap = "queued_request list"

section \<open>The interface methods\<close>

definition Less :: "queued_request \<Rightarrow> queued_request \<Rightarrow> bool" where
  "Less a b \<longleftrightarrow>
     (if priority a \<noteq> priority b then level (priority a) < level (priority b)
      else enqueuedAt a < enqueuedAt b)"

definition Swap :: "request_heap \<Rightarrow> nat \<Rightarrow> nat \<Rightarrow> request_heap" where
  "Swap h i j = h[i := (h ! j)\<lparr>index := int i\<rparr>, j := (h ! i)\<lparr>index := int j\<rparr>]"

definition Push_last :: "request_heap \<Rightarrow> queued_request \<Rightarrow> request_heap" where
  "Push_last h item = h @ [item\<lparr>index := int (length h)\<rparr>]"

definition Pop_last :: "request_heap \<Rightarrow> queued_request \<times> request_heap" where
  "Pop_last h = ((last h)\<lparr>index := -1\<rparr>, butlast h)"

section \<open>The algorithms of container/heap\<close>

function up :: "request_heap \<Rightarrow> nat \<Rightarrow> request_heap" where
  "up h j =
     (let i = (j - 1) div 2 in
      if i = j \<or> \<not> Less (h ! j) (h ! i) then h else up (Swap h i j) i)"
  by pat_completeness auto
termination
  by (relation "measure snd") auto

function down :: "request_heap \<Rightarrow> nat \<Rightarrow> nat \<Rightarrow> request_heap \<times> nat" where
  "down h i n =
     (let j1 = 2 * i + 1 in
      if n \<le> j1 then (h, i)
      else let j2 = j1 + 1;
               j = (if j2 < n \<and> Less (h ! j2) (h ! j1) then j2 else j1)
           in if \<not> Less (h ! j) (h ! i) then (h, i) else down (Swap h i j) j n)"
  by pat_completeness auto
termination
  by (relation "measure (\<lambda>(h, i, n). n - i)") (auto simp: Let_def split: if_splits)

declare up.simps [simp del] down.simps [simp del]

definition heap_Push :: "request_heap \<Rightarrow> queued_request \<Rightarrow> request_heap" where
  "heap_Push h x = up (Push_last h x) (length h)"

definition heap_Pop :: "request_heap \<Rightarrow> queued_request \<times> request_heap" where
  "heap_Pop h = (let n = length h - 1 in Pop_last (fst (down (Swap h 0 n) 0 n)))"

definition heap_Remove :: "request_heap \<Rightarrow> nat \<Rightarrow> queued_request \<times> request_heap" where
  "heap_Remove h i =
     (let n = length h - 1 in
      if n \<noteq> i then
        (case down (Swap h i n) i n of
           (h', i') \<Rightarrow> Pop_last (if i < i' then h' else up h' i))
      else Pop_last h)"

section \<open>Order and invariants\<close>

definition req_key :: "queued_request \<Rightarrow> nat \<times> time" where
  "req_key x = (level (priority x), enqueuedAt x)"

text \<open>What a request is, without its place in the slice.\<close>

definition core :: "queued_request \<Rightarrow> nat \<times> PriorityLevel \<times> time" where
  "core x = (req_id x, priority x, enqueuedAt x)"

definition parent :: "nat \<Rightarrow> nat" where
  "parent k = (k - 1) div 2"

definition indexed :: "request_heap \<Rightarrow> bool" where
  "indexed h \<longleftrightarrow> (\<forall>i < length h. index (h ! i) = int i)"

definition ordered_at :: "(nat \<Rightarrow> 'k::linorder) \<Rightarrow> nat \<Rightarrow> bool" where
  "ordered_at f k \<longleftrightarrow> f (parent k) \<le> f k"

definition heap_upto :: "(nat \<Rightarrow> 'k::linorder) \<Rightarrow> nat \<Rightarrow> bool" where
  "heap_upto f n \<longleftrightarrow> (\<forall>k < n. 0 < k \<longrightarrow> ordered_at f k)"

text \<open>A heap whose element at \<open>i\<close> may be anything: the loops' invariant.\<close>

definition hole :: "(nat \<Rightarrow> 'k::linorder) \<Rightarrow> nat \<Rightarrow> nat \<Rightarrow> bool" where
  "hole f i n \<longleftrightarrow>
     (\<forall>k < n. 0 < k \<longrightarrow> k \<noteq> i \<longrightarrow> parent k \<noteq> i \<longrightarrow> ordered_at f k)
     \<and> (0 < i \<longrightarrow> (\<forall>k < n. 0 < k \<longrightarrow> parent k = i \<longrightarrow> f (parent i) \<le> f k))"

definition children_ordered :: "(nat \<Rightarrow> 'k::linorder) \<Rightarrow> nat \<Rightarrow> nat \<Rightarrow> bool" where
  "children_ordered f i n \<longleftrightarrow> (\<forall>k < n. 0 < k \<longrightarrow> parent k = i \<longrightarrow> ordered_at f k)"

definition req_keys :: "request_heap \<Rightarrow> nat \<Rightarrow> nat \<times> time" where
  "req_keys h = (\<lambda>k. req_key (h ! k))"

definition heap_inv :: "request_heap \<Rightarrow> bool" where
  "heap_inv h \<longleftrightarrow> heap_upto (req_keys h) (length h) \<and> indexed h"

lemma level_inj [simp]: "level a = level b \<longleftrightarrow> a = b"
  by (cases a; cases b) auto

lemma Less_key: "Less a b \<longleftrightarrow> req_key a < req_key b"
  by (auto simp: Less_def req_key_def less_prod_def')

lemma core_index [simp]: "core (x\<lparr>index := i\<rparr>) = core x"
  by (simp add: core_def)

lemma req_key_index [simp]: "req_key (x\<lparr>index := i\<rparr>) = req_key x"
  by (simp add: req_key_def)

lemma parent_less: "0 < k \<Longrightarrow> parent k < k"
  by (simp add: parent_def)

lemma parent_child: "0 < k \<Longrightarrow> parent k = i \<longleftrightarrow> k = 2 * i + 1 \<or> k = 2 * i + 2"
  unfolding parent_def by arith

lemma length_Swap [simp]: "length (Swap h i j) = length h"
  by (simp add: Swap_def)

lemma req_keys_Swap:
  "i < length h \<Longrightarrow> j < length h \<Longrightarrow> req_keys (Swap h i j) = (req_keys h)(i := req_keys h j, j := req_keys h i)"
  by (auto simp: req_keys_def Swap_def nth_list_update fun_eq_iff)

lemma Swap_other: "k \<noteq> i \<Longrightarrow> k \<noteq> j \<Longrightarrow> Swap h i j ! k = h ! k"
  by (simp add: Swap_def)

lemma indexed_Swap: "indexed h \<Longrightarrow> i < length h \<Longrightarrow> j < length h \<Longrightarrow> indexed (Swap h i j)"
  by (auto simp: indexed_def Swap_def nth_list_update)

lemma core_Swap_mset:
  assumes "i < length h" "j < length h"
  shows "mset (map core (Swap h i j)) = mset (map core h)"
proof -
  have "map core (Swap h i j) = (map core h)[i := map core h ! j, j := map core h ! i]"
    using assms by (simp add: Swap_def map_update)
  then show ?thesis using assms by (metis length_map mset_swap)
qed

lemma heap_top: "heap_upto f n \<Longrightarrow> k < n \<Longrightarrow> f 0 \<le> f k"
proof (induction k rule: less_induct)
  case (less k)
  show ?case
  proof (cases "k = 0")
    case False
    then have "f 0 \<le> f (parent k)"
      using less by (simp add: parent_less less_trans)
    also have "\<dots> \<le> f k"
      using less.prems False by (simp add: heap_upto_def ordered_at_def)
    finally show ?thesis .
  qed simp
qed

section \<open>Sifting\<close>

text \<open>One round of each loop, on the req_keys alone.\<close>

lemma hole_up_step:
  assumes h: "hole f j n" and c: "children_ordered f j n" and j: "0 < j" "j < n"
    and less: "f j < f (parent j)"
  defines "f' \<equiv> f(parent j := f j, j := f (parent j))"
  shows "hole f' (parent j) n \<and> children_ordered f' (parent j) n"
proof -
  let ?i = "parent j"
  have ij: "?i < j" using j parent_less by blast
  have above: "f ?i \<le> f k" if "k < n" "0 < k" "parent k = ?i" "k \<noteq> j" for k
    using h that ij by (auto simp: hole_def ordered_at_def)
  have "ordered_at f' k" if "k < n" "0 < k" "k \<noteq> ?i" "parent k \<noteq> ?i" for k
  proof (cases "parent k = j")
    case True
    then show ?thesis
      using h that j by (auto simp: hole_def ordered_at_def f'_def)
  next
    case False
    then show ?thesis
      using h that by (auto simp: hole_def ordered_at_def f'_def)
  qed
  moreover have "f' (parent ?i) \<le> f' k" if "0 < ?i" "k < n" "0 < k" "parent k = ?i" for k
  proof -
    have "parent ?i < ?i" using that parent_less by blast
    then have p: "f' (parent ?i) = f (parent ?i)" "f (parent ?i) \<le> f ?i"
      using h that ij j by (auto simp: hole_def ordered_at_def f'_def)
    show ?thesis
    proof (cases "k = j")
      case False
      then have "f' k = f k" using that parent_less [of k] by (auto simp: f'_def)
      with p above [OF that(2-4) False] show ?thesis by simp
    qed (use p in \<open>simp add: f'_def\<close>)
  qed
  moreover have "ordered_at f' k" if "k < n" "0 < k" "parent k = ?i" for k
  proof (cases "k = j")
    case True
    then show ?thesis using less ij by (simp add: ordered_at_def f'_def)
  next
    case False
    moreover have "k \<noteq> ?i" using that parent_less [of k] by auto
    ultimately show ?thesis
      using above [OF that False] less that ij by (simp add: ordered_at_def f'_def)
  qed
  ultimately show ?thesis by (auto simp: hole_def children_ordered_def)
qed

lemma hole_down_step:
  assumes h: "hole f i n" and j: "0 < j" "j < n" "parent j = i"
    and least: "\<And>k. k < n \<Longrightarrow> 0 < k \<Longrightarrow> parent k = i \<Longrightarrow> f j \<le> f k"
    and less: "f j < f i"
  defines "f' \<equiv> f(i := f j, j := f i)"
  shows "hole f' j n \<and> ordered_at f' j"
proof -
  have ij: "i < j" using j parent_less by blast
  have "ordered_at f' k" if k: "k < n" "0 < k" "k \<noteq> j" "parent k \<noteq> j" for k
  proof (cases "k = i")
    case True
    then have "parent k < i" using k parent_less by blast
    then show ?thesis
      using h True k j ij by (auto simp: hole_def ordered_at_def f'_def)
  next
    case False
    then show ?thesis
      using h k least by (auto simp: hole_def ordered_at_def f'_def)
  qed
  moreover have "f' (parent j) \<le> f' k" if k: "k < n" "0 < k" "parent k = j" for k
  proof -
    have "j < k" using k parent_less [of k] by simp
    with ij have "k \<noteq> i" "k \<noteq> j" by simp_all
    then show ?thesis
      using h k j ij by (auto simp: hole_def ordered_at_def f'_def)
  qed
  ultimately show ?thesis using j ij less by (auto simp: hole_def ordered_at_def f'_def)
qed

lemma hole_no_move:
  "hole f i n \<Longrightarrow> children_ordered f i n \<Longrightarrow> (0 < i \<Longrightarrow> ordered_at f i) \<Longrightarrow> heap_upto f n"
  by (auto simp: hole_def children_ordered_def heap_upto_def)

text \<open>What both loops leave alone.\<close>

definition same_requests :: "request_heap \<Rightarrow> request_heap \<Rightarrow> bool" where
  "same_requests h h' \<longleftrightarrow>
     length h' = length h \<and> mset (map core h') = mset (map core h) \<and> (indexed h \<longrightarrow> indexed h')"

lemma same_requests_refl [simp]: "same_requests h h"
  by (simp add: same_requests_def)

lemma same_requests_trans: "same_requests a b \<Longrightarrow> same_requests b c \<Longrightarrow> same_requests a c"
  by (auto simp: same_requests_def)

lemma same_requests_Swap:
  "i < length h \<Longrightarrow> j < length h \<Longrightarrow> same_requests h (Swap h i j)"
  using core_Swap_mset [of i h j] indexed_Swap [of h i j] by (simp add: same_requests_def)

lemma up_spec:
  assumes "j < n" "n \<le> length h"
  shows "same_requests h (up h j) \<and> (\<forall>k > j. up h j ! k = h ! k)
    \<and> (hole (req_keys h) j n \<longrightarrow> children_ordered (req_keys h) j n \<longrightarrow> heap_upto (req_keys (up h j)) n)"
  using assms
proof (induction h j rule: up.induct)
  case (1 h j)
  let ?i = "parent j"
  show ?case
  proof (cases "?i = j \<or> \<not> Less (h ! j) (h ! ?i)")
    case True
    then have "up h j = h" by (simp add: up.simps [of h j] parent_def)
    moreover have "0 < j \<Longrightarrow> ordered_at (req_keys h) j"
      using True parent_less [of j] by (auto simp: ordered_at_def Less_key not_less req_keys_def)
    ultimately show ?thesis using hole_no_move by simp blast
  next
    case False
    then have j: "0 < j" "req_keys h j < req_keys h ?i"
      by (auto simp: parent_def Less_key req_keys_def)
    have i: "?i < j" "?i < length h" "j < length h"
      using parent_less [OF j(1)] "1.prems" by simp_all
    let ?h = "Swap h ?i j"
    have step: "up h j = up ?h ?i"
      using False by (simp add: up.simps [of h j] parent_def Let_def)
    have IH: "same_requests ?h (up ?h ?i) \<and> (\<forall>k > ?i. up ?h ?i ! k = ?h ! k)
      \<and> (hole (req_keys ?h) ?i n \<longrightarrow> children_ordered (req_keys ?h) ?i n \<longrightarrow> heap_upto (req_keys (up ?h ?i)) n)"
      using "1.IH" [of ?i] False i "1.prems" by (simp add: parent_def)
    have "same_requests h (up h j)"
      unfolding step
      using same_requests_trans same_requests_Swap [OF i(2,3)] IH by blast
    moreover have "\<forall>k > j. up h j ! k = h ! k"
      using IH i(1) by (auto simp: step Swap_other)
    moreover have "hole (req_keys h) j n \<Longrightarrow> children_ordered (req_keys h) j n \<Longrightarrow>
        hole (req_keys ?h) ?i n \<and> children_ordered (req_keys ?h) ?i n"
      using hole_up_step [of "req_keys h" j n] j "1.prems"
      by (simp add: req_keys_Swap [OF i(2,3)])
    ultimately show ?thesis using IH by (simp add: step)
  qed
qed

text \<open>The child that \<^verbatim>\<open>down\<close> compares with is the least one.\<close>

lemma least_child:
  fixes f :: "nat \<Rightarrow> 'k::linorder"
  assumes "2 * i + 1 < n" "k < n" "0 < k" "parent k = i"
  shows "f (if 2 * i + 1 + 1 < n \<and> f (2 * i + 1 + 1) < f (2 * i + 1) then 2 * i + 1 + 1
            else 2 * i + 1) \<le> f k"
  using assms by (auto simp: parent_child)

text \<open>One round of \<^verbatim>\<open>down\<close>: either it stops, with the children in order, or it goes on
  from the least child after a swap.\<close>

lemma down_round:
  fixes h :: request_heap and i n :: nat
  obtains (stop) "down h i n = (h, i)" "children_ordered (req_keys h) i n"
  | (move) j where "0 < j" "j < n" "parent j = i" "req_keys h j < req_keys h i"
      "\<And>k. k < n \<Longrightarrow> 0 < k \<Longrightarrow> parent k = i \<Longrightarrow> req_keys h j \<le> req_keys h k"
      "down h i n = down (Swap h i j) j n"
proof -
  let ?j = "if 2 * i + 1 + 1 < n \<and> Less (h ! (2 * i + 1 + 1)) (h ! (2 * i + 1))
            then 2 * i + 1 + 1 else 2 * i + 1"
  show thesis
  proof (cases "n \<le> 2 * i + 1")
    case True
    then have "down h i n = (h, i)" by (simp add: down.simps [of h i n] Let_def)
    moreover have "children_ordered (req_keys h) i n"
      using True by (auto simp: children_ordered_def parent_child)
    ultimately show thesis by (rule stop)
  next
    case False
    have least: "req_keys h ?j \<le> req_keys h k" if "k < n" "0 < k" "parent k = i" for k
      using least_child [of i n k "req_keys h"] that False by (simp add: Less_key req_keys_def)
    have j: "0 < ?j" "?j < n" "parent ?j = i"
      using False by (auto simp: parent_def)
    show thesis
    proof (cases "Less (h ! ?j) (h ! i)")
      case True
      then have "down h i n = down (Swap h i ?j) ?j n"
        using False by (subst down.simps) (auto simp: Let_def split: if_splits)
      with True least j show thesis by (intro move [of ?j]) (auto simp: Less_key req_keys_def)
    next
      case less: False
      then have "down h i n = (h, i)"
        using False by (subst down.simps) (auto simp: Let_def split: if_splits)
      moreover have "req_keys h i \<le> req_keys h ?j"
        using less unfolding Less_key req_keys_def not_less .
      then have "children_ordered (req_keys h) i n"
        unfolding children_ordered_def ordered_at_def using least order_trans by blast
      ultimately show thesis by (rule stop)
    qed
  qed
qed

lemma down_frame:
  assumes "i < n" "n \<le> length h"
  shows "same_requests h (fst (down h i n)) \<and> i \<le> snd (down h i n)
    \<and> (\<forall>k. n \<le> k \<longrightarrow> fst (down h i n) ! k = h ! k)"
  using assms
proof (induction "n - i" arbitrary: h i rule: less_induct)
  case less
  show ?case
  proof (cases rule: down_round [of h i n])
    case (move j)
    then have ij: "i < j" using parent_less by blast
    then have IH: "same_requests (Swap h i j) (fst (down h i n)) \<and> j \<le> snd (down h i n)
        \<and> (\<forall>k. n \<le> k \<longrightarrow> fst (down h i n) ! k = Swap h i j ! k)"
      using less.hyps [of j "Swap h i j"] move less.prems by simp
    moreover have "same_requests h (Swap h i j)"
      using move less.prems by (intro same_requests_Swap) simp_all
    ultimately show ?thesis
      using ij move less.prems same_requests_trans by (auto simp: Swap_other)
  qed simp
qed

lemma down_heap:
  assumes "i < n" "n \<le> length h" "hole (req_keys h) i n" "0 < i \<Longrightarrow> ordered_at (req_keys h) i"
  shows "heap_upto (req_keys (fst (down h i n))) n"
  using assms
proof (induction "n - i" arbitrary: h i rule: less_induct)
  case less
  show ?case
  proof (cases rule: down_round [of h i n])
    case stop
    with less.prems show ?thesis using hole_no_move by fastforce
  next
    case (move j)
    then have "i < j" using parent_less by blast
    moreover have "hole (req_keys (Swap h i j)) j n \<and> ordered_at (req_keys (Swap h i j)) j"
      using hole_down_step [of "req_keys h" i n j] move less.prems by (simp add: req_keys_Swap)
    ultimately show ?thesis
      using less.hyps [of j "Swap h i j"] move less.prems by simp
  qed
qed

text \<open>The combination \<^verbatim>\<open>Remove\<close> uses: sift down, and up if nothing moved.\<close>

lemma refill_hole:
  assumes "i < n" "n \<le> length h" "hole (req_keys h) i n"
  shows "i < snd (down h i n) \<Longrightarrow> heap_upto (req_keys (fst (down h i n))) n"
    and "\<not> i < snd (down h i n) \<Longrightarrow> fst (down h i n) = h \<and> children_ordered (req_keys h) i n"
proof -
  have "(i < snd (down h i n) \<longrightarrow> heap_upto (req_keys (fst (down h i n))) n)
    \<and> (\<not> i < snd (down h i n) \<longrightarrow> fst (down h i n) = h \<and> children_ordered (req_keys h) i n)"
  proof (cases rule: down_round [of h i n])
    case (move j)
    then have ij: "i < j" using parent_less by blast
    have "hole (req_keys (Swap h i j)) j n \<and> ordered_at (req_keys (Swap h i j)) j"
      using hole_down_step [of "req_keys h" i n j] move assms by (simp add: req_keys_Swap)
    then have "heap_upto (req_keys (fst (down h i n))) n"
      using down_heap [of j n "Swap h i j"] move assms ij by simp
    moreover have "j \<le> snd (down h i n)"
      using down_frame [of j n "Swap h i j"] move assms ij by simp
    ultimately show ?thesis using ij by simp
  qed simp
  then show "i < snd (down h i n) \<Longrightarrow> heap_upto (req_keys (fst (down h i n))) n"
    and "\<not> i < snd (down h i n) \<Longrightarrow> fst (down h i n) = h \<and> children_ordered (req_keys h) i n"
    by blast+
qed

section \<open>Push, Pop and Remove\<close>

lemma heap_upto_cong: "(\<And>k. k < n \<Longrightarrow> f k = g k) \<Longrightarrow> heap_upto f n = heap_upto g n"
  unfolding heap_upto_def ordered_at_def by (metis less_trans parent_less)

lemma req_keys_append: "k < length h \<Longrightarrow> req_keys (h @ g) k = req_keys h k"
  by (simp add: req_keys_def nth_append)

lemma req_keys_butlast: "k < length h - 1 \<Longrightarrow> req_keys (butlast h) k = req_keys h k"
  by (simp add: req_keys_def nth_butlast)

lemma heap_Push_spec:
  assumes "heap_inv h"
  shows "heap_inv (heap_Push h x)"
    and "mset (map core (heap_Push h x)) = add_mset (core x) (mset (map core h))"
proof -
  let ?g = "Push_last h x" and ?n = "length h"
  have len: "length ?g = Suc ?n" by (simp add: Push_last_def)
  have ord: "ordered_at (req_keys ?g) k" if "0 < k" "k < ?n" for k
    using assms that parent_less [of k]
    by (simp add: heap_inv_def heap_upto_def ordered_at_def Push_last_def req_keys_append)
  have no_child: "parent k \<noteq> ?n" if "0 < k" "k < Suc ?n" for k
    using parent_less [OF that(1)] that(2) by simp
  have "hole (req_keys ?g) ?n (length ?g)"
    using ord no_child by (auto simp: hole_def len less_Suc_eq)
  moreover have "children_ordered (req_keys ?g) ?n (length ?g)"
    using no_child by (auto simp: children_ordered_def len)
  ultimately have up: "same_requests ?g (up ?g ?n)" "heap_upto (req_keys (up ?g ?n)) (length ?g)"
    using up_spec [of ?n "length ?g" ?g] by (simp_all add: len)
  have "indexed ?g"
    using assms by (auto simp: indexed_def heap_inv_def Push_last_def nth_append)
  with up show "heap_inv (heap_Push h x)"
    by (simp add: heap_inv_def heap_Push_def same_requests_def)
  show "mset (map core (heap_Push h x)) = add_mset (core x) (mset (map core h))"
    using up(1) by (simp add: heap_Push_def same_requests_def Push_last_def)
qed

text \<open>Dropping the last slot of a slice that is a heap below it.\<close>

lemma Pop_last_spec:
  assumes "h \<noteq> []" "heap_upto (req_keys h) (length h - 1)" "indexed h"
  shows "heap_inv (snd (Pop_last h))"
    and "mset (map core h) = add_mset (core (fst (Pop_last h))) (mset (map core (snd (Pop_last h))))"
    and "index (fst (Pop_last h)) = -1"
proof -
  show "heap_inv (snd (Pop_last h))"
    using assms heap_upto_cong [of "length h - 1" "req_keys (butlast h)" "req_keys h"]
    by (auto simp: Pop_last_def heap_inv_def indexed_def nth_butlast req_keys_butlast)
  have "mset (map core h) = mset (map core (butlast h @ [last h]))"
    using assms(1) by simp
  then show "mset (map core h)
      = add_mset (core (fst (Pop_last h))) (mset (map core (snd (Pop_last h))))"
    by (simp only: Pop_last_def) simp
  show "index (fst (Pop_last h)) = -1" by (simp add: Pop_last_def)
qed

lemma last_nth: "h \<noteq> [] \<Longrightarrow> last h = h ! (length h - 1)"
  by (simp add: last_conv_nth)

text \<open>Moving the last element into slot \<open>i\<close> leaves a heap with a hole at \<open>i\<close>.\<close>

lemma Swap_last_hole:
  assumes "heap_inv h" "i < n" "n = length h - 1"
  shows "hole (req_keys (Swap h i n)) i n"
proof -
  have n: "n < length h" using assms by simp
  have eq: "req_keys (Swap h i n) k = req_keys h k" if "k < n" "k \<noteq> i" for k
    using that assms n by (simp add: req_keys_Swap)
  have ord: "req_keys h (parent k) \<le> req_keys h k" if "k < n" "0 < k" for k
    using assms that n by (simp add: heap_inv_def heap_upto_def ordered_at_def)
  show ?thesis
    unfolding hole_def ordered_at_def
  proof (intro conjI allI impI)
    fix k assume "k < n" "0 < k" "k \<noteq> i" "parent k \<noteq> i"
    then show "req_keys (Swap h i n) (parent k) \<le> req_keys (Swap h i n) k"
      using eq ord parent_less [of k] by simp
  next
    fix k assume i: "0 < i" and k: "k < n" "0 < k" "parent k = i"
    have "req_keys h (parent i) \<le> req_keys h k"
      using ord [of i] ord [of k] i k assms(2) by simp
    then show "req_keys (Swap h i n) (parent i) \<le> req_keys (Swap h i n) k"
      using eq [of k] eq [of "parent i"] i k parent_less [of i] parent_less [of k] assms(2) by simp
  qed
qed

lemma heap_Pop_spec:
  assumes inv: "heap_inv h" and ne: "h \<noteq> []"
  shows "heap_inv (snd (heap_Pop h))"
    and "mset (map core h) = add_mset (core (fst (heap_Pop h))) (mset (map core (snd (heap_Pop h))))"
    and "core (fst (heap_Pop h)) = core (h ! 0)" and "index (fst (heap_Pop h)) = -1"
proof -
  define n where "n = length h - 1"
  define g where "g = fst (down (Swap h 0 n) 0 n)"
  have n: "n < length h" using ne by (simp add: n_def)
  have sw: "same_requests h (Swap h 0 n)" using n by (intro same_requests_Swap) auto
  have "same_requests (Swap h 0 n) g \<and> heap_upto (req_keys g) n \<and> g ! n = Swap h 0 n ! n"
  proof (cases "n = 0")
    case True
    then show ?thesis
      by (simp add: g_def down.simps [of _ 0 0] heap_upto_def)
  next
    case False
    then show ?thesis
      using down_frame [of 0 n "Swap h 0 n"] down_heap [of 0 n "Swap h 0 n"]
        Swap_last_hole [OF inv, of 0 n] n by (simp add: g_def n_def)
  qed
  then have g: "same_requests h g" "heap_upto (req_keys g) n" "g ! n = Swap h 0 n ! n"
    using sw same_requests_trans by blast+
  have len: "length g = length h" using g(1) by (simp add: same_requests_def)
  have gne: "g \<noteq> []" using len ne by auto
  have idx: "indexed g" using g(1) inv by (simp add: same_requests_def heap_inv_def)
  note pop = Pop_last_spec [OF gne _ idx]
  have eq: "heap_Pop h = Pop_last g" by (simp add: heap_Pop_def g_def n_def Let_def)
  show "heap_inv (snd (heap_Pop h))" using pop(1) g(2) len by (simp add: eq n_def)
  show "mset (map core h) = add_mset (core (fst (heap_Pop h))) (mset (map core (snd (heap_Pop h))))"
    using pop(2) g(1,2) len by (simp add: eq n_def same_requests_def)
  show "core (fst (heap_Pop h)) = core (h ! 0)"
    using g(3) gne len n by (simp add: eq Pop_last_def last_nth n_def Swap_def)
  show "index (fst (heap_Pop h)) = -1" using pop(3) g(2) len by (simp add: eq n_def)
qed

text \<open>\<^verbatim>\<open>Remove(h, i)\<close> takes out exactly the element of slot \<open>i\<close>.\<close>

lemma heap_Remove_spec:
  assumes inv: "heap_inv h" and i: "i < length h"
  shows "heap_inv (snd (heap_Remove h i))"
    and "mset (map core h) = add_mset (core (h ! i)) (mset (map core (snd (heap_Remove h i))))"
proof -
  define n where "n = length h - 1"
  define g where "g = (if n = i then h else
     (let d = down (Swap h i n) i n in if i < snd d then fst d else up (fst d) i))"
  have n: "n < length h" using i by (simp add: n_def)
  have "same_requests h g \<and> heap_upto (req_keys g) n \<and> core (g ! n) = core (h ! i)"
  proof (cases "n = i")
    case True
    then show ?thesis
      using inv n by (auto simp: g_def heap_inv_def heap_upto_def)
  next
    case False
    then have lt: "i < n" using i by (simp add: n_def)
    let ?s = "Swap h i n"
    have s: "same_requests h ?s" using i n by (intro same_requests_Swap) simp_all
    have hole: "hole (req_keys ?s) i n" using Swap_last_hole [OF inv lt] by (simp add: n_def)
    have at_n: "core (?s ! n) = core (h ! i)" using i n by (simp add: Swap_def)
    let ?d = "down ?s i n"
    have d: "same_requests h (fst ?d)" "fst ?d ! n = ?s ! n"
      using down_frame [of i n ?s] lt n s same_requests_trans by auto
    show ?thesis
    proof (cases "i < snd ?d")
      case True
      then show ?thesis
        using refill_hole(1) [OF lt _ hole] d at_n n False by (simp add: g_def Let_def)
    next
      case stay: False
      then have "fst ?d = ?s" "children_ordered (req_keys ?s) i n"
        using refill_hole(2) [OF lt _ hole] n by simp_all
      then show ?thesis
        using up_spec [of i n ?s] lt n hole s at_n stay False same_requests_trans
        by (auto simp: g_def Let_def)
    qed
  qed
  then have g: "same_requests h g" "heap_upto (req_keys g) n" "core (g ! n) = core (h ! i)"
    by blast+
  have len: "length g = length h" and idx: "indexed g"
    using g(1) inv by (simp_all add: same_requests_def heap_inv_def)
  have gne: "g \<noteq> []" using len i by auto
  have eq: "heap_Remove h i = Pop_last g"
    by (simp add: heap_Remove_def g_def n_def Let_def split: prod.splits)
  note pop = Pop_last_spec [OF gne _ idx]
  show "heap_inv (snd (heap_Remove h i))" using pop(1) g(2) len by (simp add: eq n_def)
  have "core (fst (Pop_last g)) = core (h ! i)"
    using g(3) gne len by (simp add: Pop_last_def last_nth n_def)
  then show "mset (map core h) = add_mset (core (h ! i)) (mset (map core (snd (heap_Remove h i))))"
    using pop(2) g(1,2) len by (simp add: eq n_def same_requests_def)
qed

section \<open>The priority-queue contract\<close>

text \<open>
  What \<^verbatim>\<open>RequestQueue\<close> relies on: the queue holds a multiset of requests; \<open>pop\<close> takes out one
  that no other precedes; \<open>remove\<close> takes out one given request.
\<close>

locale request_pq =
  fixes items :: "'q \<Rightarrow> 'x multiset"
    and inv :: "'q \<Rightarrow> bool"
    and empty :: 'q
    and push :: "'q \<Rightarrow> 'x \<Rightarrow> 'q"
    and pop :: "'q \<Rightarrow> ('x \<times> 'q) option"
    and remove :: "'q \<Rightarrow> 'x \<Rightarrow> 'q"
    and rank :: "'x \<Rightarrow> 'k::linorder"
  assumes empty: "inv empty" "items empty = {#}"
    and push: "inv q \<Longrightarrow> inv (push q x) \<and> items (push q x) = add_mset x (items q)"
    and pop_None: "pop q = None \<longleftrightarrow> items q = {#}"
    and pop_Some: "inv q \<Longrightarrow> pop q = Some (x, q') \<Longrightarrow>
          inv q' \<and> items q = add_mset x (items q') \<and> (\<forall>y \<in># items q. rank x \<le> rank y)"
    and remove: "inv q \<Longrightarrow> x \<in># items q \<Longrightarrow>
          inv (remove q x) \<and> items q = add_mset x (items (remove q x))"
begin

fun drain :: "nat \<Rightarrow> 'q \<Rightarrow> 'x list" where
  "drain 0 q = []"
| "drain (Suc n) q = (case pop q of None \<Rightarrow> [] | Some (x, q') \<Rightarrow> x # drain n q')"

lemma drain_items: "inv q \<Longrightarrow> size (items q) \<le> n \<Longrightarrow> mset (drain n q) = items q"
proof (induction n arbitrary: q)
  case (Suc n)
  show ?case
  proof (cases "pop q")
    case None
    then show ?thesis using pop_None [of q] by simp
  next
    case (Some p)
    then obtain x q' where p: "pop q = Some (x, q')" by (cases p) auto
    from pop_Some [OF Suc.prems(1) p] Suc p show ?thesis by auto
  qed
qed simp

lemma drain_subset: "inv q \<Longrightarrow> y \<in> set (drain n q) \<Longrightarrow> y \<in># items q"
proof (induction n arbitrary: q)
  case (Suc n)
  from Suc.prems(2) obtain x q' where p: "pop q = Some (x, q')" "y = x \<or> y \<in> set (drain n q')"
    by (cases "pop q") auto
  from pop_Some [OF Suc.prems(1) p(1)] p(2) Suc.IH [of q'] show ?case by auto
qed simp

lemma drain_sorted: "inv q \<Longrightarrow> sorted (map rank (drain n q))"
proof (induction n arbitrary: q)
  case (Suc n)
  show ?case
  proof (cases "pop q")
    case (Some p)
    then obtain x q' where p: "pop q = Some (x, q')" by (cases p) auto
    note q' = pop_Some [OF Suc.prems p]
    then have "\<forall>y \<in> set (drain n q'). rank x \<le> rank y"
      using drain_subset [of q' _ n] by auto
    with Suc.IH [of q'] q' p show ?thesis by simp
  qed simp
qed simp

end

text \<open>The heap keeps the contract. A request is identified by its core: the pointer and the
  two fields that never change.\<close>

type_synonym req_core = "nat \<times> PriorityLevel \<times> time"

definition mk_request :: "req_core \<Rightarrow> queued_request" where
  "mk_request x = \<lparr>req_id = fst x, priority = fst (snd x), enqueuedAt = snd (snd x), index = 0\<rparr>"

definition rank_core :: "req_core \<Rightarrow> nat \<times> time" where
  "rank_core x = (level (fst (snd x)), snd (snd x))"

definition pop_core :: "request_heap \<Rightarrow> (req_core \<times> request_heap) option" where
  "pop_core h =
     (if h = [] then None else Some (core (fst (heap_Pop h)), snd (heap_Pop h)))"

text \<open>\<^verbatim>\<open>RequestQueue.remove\<close>: the index is read from the request object, which holds -1 once
  it has left the heap.\<close>

definition remove_req :: "request_heap \<Rightarrow> req_core \<Rightarrow> request_heap" where
  "remove_req h x =
     (let ix = (case find (\<lambda>r. core r = x) h of None \<Rightarrow> -1 | Some r \<Rightarrow> index r) in
      if 0 \<le> ix \<and> ix < int (length h) \<and> core (h ! nat ix) = x
      then snd (heap_Remove h (nat ix)) else h)"

lemma core_mk_request [simp]: "core (mk_request x) = x"
  by (simp add: core_def mk_request_def)

lemma rank_core_req_key: "rank_core (core x) = req_key x"
  by (simp add: rank_core_def core_def req_key_def)

lemma pop_core_spec:
  assumes "heap_inv h" "pop_core h = Some (x, h')"
  shows "heap_inv h' \<and> mset (map core h) = add_mset x (mset (map core h'))
    \<and> (\<forall>y \<in># mset (map core h). rank_core x \<le> rank_core y)"
proof -
  from assms(2) have h: "h \<noteq> []" "x = core (fst (heap_Pop h))" "h' = snd (heap_Pop h)"
    by (auto simp: pop_core_def split: if_splits)
  note spec = heap_Pop_spec [OF assms(1) h(1)]
  have rank: "rank_core x = req_keys h 0"
    unfolding h(2) spec(3) by (simp add: rank_core_req_key req_keys_def)
  have "rank_core x \<le> rank_core (core y)" if "y \<in> set h" for y
  proof -
    obtain k where k: "k < length h" "y = h ! k" using \<open>y \<in> set h\<close> by (metis in_set_conv_nth)
    then have "req_keys h 0 \<le> req_keys h k"
      using heap_top [of "req_keys h" "length h" k] assms(1) by (simp add: heap_inv_def)
    then show ?thesis by (simp add: rank rank_core_req_key req_keys_def k(2))
  qed
  then have "\<forall>y \<in># mset (map core h). rank_core x \<le> rank_core y" by auto
  moreover have "heap_inv h'" "mset (map core h) = add_mset x (mset (map core h'))"
    unfolding h(2,3) by (fact spec)+
  ultimately show ?thesis by blast
qed

lemma remove_req_spec:
  assumes "heap_inv h" "x \<in># mset (map core h)"
  shows "heap_inv (remove_req h x)
    \<and> mset (map core h) = add_mset x (mset (map core (remove_req h x)))"
proof -
  from assms(2) obtain r where r: "find (\<lambda>r. core r = x) h = Some r"
    by (cases "find (\<lambda>r. core r = x) h") (auto simp: find_None_iff)
  then obtain i where i: "i < length h" "h ! i = r" "core r = x"
    by (auto simp: find_Some_iff)
  with assms(1) have "index r = int i" by (auto simp: heap_inv_def indexed_def)
  then have eq: "remove_req h x = snd (heap_Remove h i)"
    using r i by (simp add: remove_req_def)
  show ?thesis
    using heap_Remove_spec [OF assms(1) i(1)] i by (simp add: eq)
qed

lemma remove_req_absent: "x \<notin> set (map core h) \<Longrightarrow> remove_req h x = h"
proof -
  assume "x \<notin> set (map core h)"
  then have "find (\<lambda>r. core r = x) h = None" by (auto simp: find_None_iff)
  then show ?thesis by (simp add: remove_req_def)
qed

interpretation hp: request_pq "\<lambda>h. mset (map core h)" heap_inv "[]"
    "\<lambda>h x. heap_Push h (mk_request x)" pop_core remove_req rank_core
proof
  show "heap_inv []" by (simp add: heap_inv_def heap_upto_def indexed_def)
  show "mset (map core []) = {#}" by simp
  show "heap_inv q \<Longrightarrow> heap_inv (heap_Push q (mk_request x))
      \<and> mset (map core (heap_Push q (mk_request x))) = add_mset x (mset (map core q))" for q x
    using heap_Push_spec by simp
  show "pop_core q = None \<longleftrightarrow> mset (map core q) = {#}" for q
    by (simp add: pop_core_def)
qed (use pop_core_spec remove_req_spec in blast)+

lemma heap_Push_length [simp]: "heap_inv h \<Longrightarrow> length (heap_Push h x) = Suc (length h)"
  using heap_Push_spec(2) [of h x] by (metis length_map size_add_mset size_mset)

text \<open>Popping a heap until it is empty, or \<open>n\<close> times.\<close>

fun pop_all :: "nat \<Rightarrow> request_heap \<Rightarrow> req_core list" where
  "pop_all 0 h = []"
| "pop_all (Suc n) h = (case pop_core h of None \<Rightarrow> [] | Some (x, h') \<Rightarrow> x # pop_all n h')"

definition push_all :: "req_core list \<Rightarrow> request_heap" where
  "push_all xs = foldl (\<lambda>h x. heap_Push h (mk_request x)) [] xs"

lemma pop_all_drain: "pop_all n h = hp.drain n h"
  by (induction n arbitrary: h) (auto split: option.splits)

lemma foldl_push:
  "heap_inv h \<Longrightarrow> heap_inv (foldl (\<lambda>h x. heap_Push h (mk_request x)) h xs)
   \<and> mset (map core (foldl (\<lambda>h x. heap_Push h (mk_request x)) h xs)) = mset xs + mset (map core h)"
proof (induction xs arbitrary: h)
  case (Cons x xs)
  let ?h = "heap_Push h (mk_request x)"
  have p: "heap_inv ?h" "mset (map core ?h) = add_mset x (mset (map core h))"
    using hp.push [OF Cons.prems, of x] by blast+
  from Cons.IH [OF p(1)] show ?case unfolding p(2) by simp
qed simp

lemma push_all_spec: "heap_inv (push_all xs)" "mset (map core (push_all xs)) = mset xs"
  using foldl_push [OF hp.empty(1), of xs] by (auto simp: push_all_def)

text \<open>C10: the heap of waiting requests is a priority queue. Whatever requests are pushed and
  in whatever order, popping them all yields each of them exactly once, by priority first and
  by time of arrival among requests of equal priority.\<close>

theorem heap_priority_fifo:
  "sorted (map rank_core (pop_all (length xs) (push_all xs)))
   \<and> mset (pop_all (length xs) (push_all xs)) = mset xs"
  unfolding pop_all_drain
  using hp.drain_sorted [OF push_all_spec(1), of "length xs" xs]
    hp.drain_items [OF push_all_spec(1), of xs "length xs"] push_all_spec(2) [of xs]
  by (metis order_refl size_mset)

end
