(* ===== verification/Float64.thy ===== *)
theory Float64
  imports GoLib
begin

text \<open>
  Go's \<^verbatim>\<open>float64\<close> with its special values: a finite number, the two infinities, and not-a-number. The operations
  and comparisons treat the special values as IEEE 754 does, so that a comparison with not-a-number is false and
  not-a-number spreads through arithmetic. Finite numbers are exact rationals: rounding is left out, and with it the
  overflow of a finite result and the sign of zero.

  Below the type come the functions of Go's library on it: \<^verbatim>\<open>math.Min\<close>, \<^verbatim>\<open>math.Max\<close>, the conversion to \<^verbatim>\<open>int64\<close>,
  \<^verbatim>\<open>strconv.ParseFloat\<close> with all the spellings it accepts, and \<^verbatim>\<open>%.nf\<close>.
\<close>

datatype float64 = is_Fin: Fin rat | PosInf | NegInf | NaN

section \<open>Arithmetic and order\<close>

instantiation float64 :: "{plus, minus, times, inverse, ord}"
begin

fun plus_float64 :: "float64 \<Rightarrow> float64 \<Rightarrow> float64" where
  "Fin a + Fin b = Fin (a + b)"
| "NaN + y = NaN"
| "x + NaN = NaN"
| "PosInf + NegInf = NaN"
| "NegInf + PosInf = NaN"
| "PosInf + y = PosInf"
| "NegInf + y = NegInf"
| "Fin a + PosInf = PosInf"
| "Fin a + NegInf = NegInf"

fun minus_float64 :: "float64 \<Rightarrow> float64 \<Rightarrow> float64" where
  "Fin a - Fin b = Fin (a - b)"
| "NaN - y = NaN"
| "x - NaN = NaN"
| "PosInf - PosInf = NaN"
| "NegInf - NegInf = NaN"
| "PosInf - y = PosInf"
| "NegInf - y = NegInf"
| "Fin a - PosInf = NegInf"
| "Fin a - NegInf = PosInf"

text \<open>Zero times an infinity is not a number.\<close>

fun times_float64 :: "float64 \<Rightarrow> float64 \<Rightarrow> float64" where
  "Fin a * Fin b = Fin (a * b)"
| "NaN * y = NaN"
| "x * NaN = NaN"
| "PosInf * PosInf = PosInf"
| "PosInf * NegInf = NegInf"
| "NegInf * PosInf = NegInf"
| "NegInf * NegInf = PosInf"
| "PosInf * Fin b = (if b = 0 then NaN else if 0 < b then PosInf else NegInf)"
| "NegInf * Fin b = (if b = 0 then NaN else if 0 < b then NegInf else PosInf)"
| "Fin a * PosInf = (if a = 0 then NaN else if 0 < a then PosInf else NegInf)"
| "Fin a * NegInf = (if a = 0 then NaN else if 0 < a then NegInf else PosInf)"

fun divide_float64 :: "float64 \<Rightarrow> float64 \<Rightarrow> float64" where
  "divide (Fin a) (Fin b) =
     (if b \<noteq> 0 then Fin (a / b) else if a = 0 then NaN else if 0 < a then PosInf else NegInf)"
| "divide NaN y = NaN"
| "divide x NaN = NaN"
| "divide (Fin a) PosInf = Fin 0"
| "divide (Fin a) NegInf = Fin 0"
| "divide PosInf (Fin b) = (if 0 \<le> b then PosInf else NegInf)"
| "divide NegInf (Fin b) = (if 0 \<le> b then NegInf else PosInf)"
| "divide PosInf y = NaN"
| "divide NegInf y = NaN"

definition inverse_float64 :: "float64 \<Rightarrow> float64" where
  "inverse x = divide (Fin 1) x"

fun less_eq_float64 :: "float64 \<Rightarrow> float64 \<Rightarrow> bool" where
  "NaN \<le> y \<longleftrightarrow> False"
| "x \<le> NaN \<longleftrightarrow> False"
| "NegInf \<le> y \<longleftrightarrow> True"
| "x \<le> PosInf \<longleftrightarrow> True"
| "(Fin a) \<le> (Fin b) \<longleftrightarrow> (a \<le> b)"
| "PosInf \<le> y \<longleftrightarrow> False"
| "x \<le> NegInf \<longleftrightarrow> False"

definition less_float64 :: "float64 \<Rightarrow> float64 \<Rightarrow> bool" where
  "(x :: float64) < y \<longleftrightarrow> (x \<le> y \<and> x \<noteq> y)"

instance ..

end

lemma less_Fin [simp]: "Fin a < Fin b \<longleftrightarrow> a < b"
  by (auto simp: less_float64_def)

lemma less_special [simp]:
  "\<not> NaN < x" "\<not> x < NaN" "\<not> PosInf < x" "\<not> x < NegInf" "Fin a < PosInf" "NegInf < Fin a"
  by (cases x; simp add: less_float64_def)+

lemma NaN_absorbs [simp]:
  "x + NaN = NaN" "x - NaN = NaN" "x * NaN = NaN" "x / NaN = NaN" "\<not> x \<le> NaN"
  by (cases x; simp)+

lemma le_PosInf: "x \<le> PosInf \<longleftrightarrow> x \<noteq> NaN" and NegInf_le: "NegInf \<le> x \<longleftrightarrow> x \<noteq> NaN"
  by (cases x; simp)+

text \<open>\<^verbatim>\<open>math.Min\<close> and \<^verbatim>\<open>math.Max\<close> look at the infinity that decides before they look for not-a-number.\<close>

definition math_Min :: "float64 \<Rightarrow> float64 \<Rightarrow> float64" where
  "math_Min x y =
     (if x = NegInf \<or> y = NegInf then NegInf
      else if x = NaN \<or> y = NaN then NaN
      else if x < y then x else y)"

definition math_Max :: "float64 \<Rightarrow> float64 \<Rightarrow> float64" where
  "math_Max x y =
     (if x = PosInf \<or> y = PosInf then PosInf
      else if x = NaN \<or> y = NaN then NaN
      else if y < x then x else y)"

lemma math_Min_simps [simp]:
  "math_Min (Fin a) (Fin b) = Fin (min a b)" "math_Min (Fin a) NaN = NaN" "math_Min NaN NaN = NaN"
  "math_Min (Fin a) PosInf = Fin a" "math_Min (Fin a) NegInf = NegInf"
  by (auto simp: math_Min_def min_def)

lemma math_Max_Fin [simp]: "math_Max (Fin a) (Fin b) = Fin (max a b)"
  by (auto simp: math_Max_def max_def)

text \<open>\<^verbatim>\<open>int64(x)\<close> truncates. What it gives for not-a-number and for a value out of range depends on the machine; this is
  the value on amd64.\<close>

definition truncate_rat :: "rat \<Rightarrow> int" where
  "truncate_rat q = (if 0 \<le> q then \<lfloor>q\<rfloor> else \<lceil>q\<rceil>)"

definition int64_of_float :: "float64 \<Rightarrow> int" where
  "int64_of_float x =
     (case x of
        Fin q \<Rightarrow> if - (2 ^ 63) \<le> truncate_rat q \<and> truncate_rat q < 2 ^ 63 then truncate_rat q else - (2 ^ 63)
      | _ \<Rightarrow> - (2 ^ 63))"

section \<open>Text\<close>

text \<open>\<^verbatim>\<open>%.nf\<close>.\<close>

definition fmt_float :: "nat \<Rightarrow> float64 \<Rightarrow> string" where
  "fmt_float n x =
     (case x of Fin q \<Rightarrow> fmt_fixed n q | PosInf \<Rightarrow> ''+Inf'' | NegInf \<Rightarrow> ''-Inf'' | NaN \<Rightarrow> ''NaN'')"

text \<open>\<^verbatim>\<open>strconv.ParseFloat\<close>; \<open>None\<close> is an error, out of range included. First the special values, in any letter case,
  then an optional sign, a mantissa with an optional point, decimal or hexadecimal, and the exponent, which a
  hexadecimal number must have. Underscores may stand between digits.\<close>

definition special_float :: "string \<Rightarrow> float64 option" where
  "special_float s0 =
     (let s = to_lower s0 in
      if s \<in> {''inf'', ''+inf'', ''infinity'', ''+infinity''} then Some PosInf
      else if s \<in> {''-inf'', ''-infinity''} then Some NegInf
      else if s = ''nan'' then Some NaN
      else None)"

definition is_hex_digit :: "char \<Rightarrow> bool" where
  "is_hex_digit c \<longleftrightarrow> is_digit c \<or> (let n = of_char (lower_char c) :: nat in 97 \<le> n \<and> n \<le> 102)"

definition hex_digit_val :: "char \<Rightarrow> nat" where
  "hex_digit_val c = (if is_digit c then digit_val c else of_char (lower_char c) - 87)"

text \<open>Underscores must follow a digit or the base prefix, and be followed by a digit. The state is the last
  character seen: a digit, an underscore, or something else.\<close>

datatype seen = SawDigit | SawUnderscore | SawOther

fun underscores_from :: "bool \<Rightarrow> seen \<Rightarrow> string \<Rightarrow> bool" where
  "underscores_from hex saw [] = (saw \<noteq> SawUnderscore)"
| "underscores_from hex saw (c # s) =
     (if is_digit c \<or> (hex \<and> is_hex_digit c) then underscores_from hex SawDigit s
      else if c = CHR ''_'' then saw = SawDigit \<and> underscores_from hex SawUnderscore s
      else saw \<noteq> SawUnderscore \<and> underscores_from hex SawOther s)"

definition has_base_prefix :: "string \<Rightarrow> bool" where
  "has_base_prefix s \<longleftrightarrow> length s \<ge> 2 \<and> s ! 0 = CHR ''0'' \<and> lower_char (s ! 1) \<in> {CHR ''b'', CHR ''o'', CHR ''x''}"

definition underscoreOK :: "string \<Rightarrow> bool" where
  "underscoreOK s =
     (if has_base_prefix s then underscores_from (lower_char (s ! 1) = CHR ''x'') SawDigit (drop 2 s)
      else underscores_from False SawOther s)"

text \<open>The mantissa: its digits before and after the point, and what follows.\<close>

fun read_mantissa :: "bool \<Rightarrow> bool \<Rightarrow> string \<Rightarrow> string \<Rightarrow> string \<Rightarrow> string \<times> string \<times> string" where
  "read_mantissa hex dot whole fr [] = (whole, fr, [])"
| "read_mantissa hex dot whole fr (c # s) =
     (if c = CHR ''_'' then read_mantissa hex dot whole fr s
      else if c = CHR ''.'' \<and> \<not> dot then read_mantissa hex True whole fr s
      else if is_digit c \<or> (hex \<and> is_hex_digit c)
      then (if dot then read_mantissa hex dot whole (fr @ [c]) s else read_mantissa hex dot (whole @ [c]) fr s)
      else (whole, fr, c # s))"

definition mantissa_val :: "int \<Rightarrow> string \<Rightarrow> int" where
  "mantissa_val base s = foldl (\<lambda>n c. n * base + int (hex_digit_val c)) 0 s"

text \<open>An exponent stops growing at ten thousand.\<close>

definition exponent_val :: "string \<Rightarrow> int" where
  "exponent_val ds = foldl (\<lambda>e c. if c \<noteq> CHR ''_'' \<and> e < 10000 then e * 10 + int (digit_val c) else e) 0 ds"

definition read_exponent :: "string \<Rightarrow> int option" where
  "read_exponent s =
     (let neg = (s \<noteq> [] \<and> hd s = CHR ''-'');
          ds = (if s \<noteq> [] \<and> (hd s = CHR ''-'' \<or> hd s = CHR ''+'') then tl s else s)
      in if ds = [] \<or> \<not> is_digit (hd ds) \<or> \<not> list_all (\<lambda>c. is_digit c \<or> c = CHR ''_'') ds then None
         else Some (if neg then - exponent_val ds else exponent_val ds))"

definition scale :: "rat \<Rightarrow> int \<Rightarrow> rat" where
  "scale b e = (if 0 \<le> e then b ^ nat e else 1 / b ^ nat (- e))"

definition parse_float :: "string \<Rightarrow> float64 option" where
  "parse_float orig =
     (case special_float orig of
        Some x \<Rightarrow> Some x
      | None \<Rightarrow>
          let neg = (orig \<noteq> [] \<and> hd orig = CHR ''-'');
              s = (if orig \<noteq> [] \<and> (hd orig = CHR ''-'' \<or> hd orig = CHR ''+'') then tl orig else orig);
              hex = (length s > 2 \<and> s ! 0 = CHR ''0'' \<and> lower_char (s ! 1) = CHR ''x'');
              (whole, fr, rest) = read_mantissa hex False [] [] (if hex then drop 2 s else s);
              e = (case rest of
                     [] \<Rightarrow> if hex then None else Some 0
                   | c # s1 \<Rightarrow> if lower_char c = (if hex then CHR ''p'' else CHR ''e'') then read_exponent s1 else None)
          in if whole @ fr = [] \<or> \<not> underscoreOK s then None
             else case e of
               None \<Rightarrow> None
             | Some e \<Rightarrow>
                 let base = (if hex then 16 else 10);
                     v = of_int (mantissa_val base (whole @ fr)) / of_int base ^ length fr * scale (if hex then 2 else 10) e
                 in if v \<ge> 2 ^ 1024 - 2 ^ 970 then None else Some (Fin (if neg then - v else v)))"

text \<open>Some spellings.\<close>

lemma parse_float_special:
  "parse_float ''NaN'' = Some NaN" "parse_float ''+Inf'' = Some PosInf" "parse_float ''-infinity'' = Some NegInf"
  "parse_float ''-nan'' = None" "parse_float ''infi'' = None"
  by code_simp+

lemmas parse_float_defs = parse_float_def special_float_def to_lower_def lower_char_def is_digit_def is_hex_digit_def
  mantissa_val_def hex_digit_val_def digit_val_def underscoreOK_def has_base_prefix_def read_exponent_def exponent_val_def
  scale_def Let_def

lemma parse_float_number: "parse_float ''0.5'' = Some (Fin (1 / 2))" "parse_float ''.'' = None" "parse_float ''_1'' = None"
  by (simp_all add: parse_float_defs)

end
