(* ===== verification/Bucket.thy ===== *)
theory Bucket
  imports Float64
begin

text \<open>
  The token bucket (\<^verbatim>\<open>internal/ratelimit/bucket.go\<close>). Each method runs under the bucket's
  mutex, so it is one atomic function of the state and of the time \<^verbatim>\<open>time.Now()\<close> reads.

  The main result bounds what any sequence of calls can be granted: in a window of length
  \<open>e - s\<close> at most \<open>maxTokens + R * (e - s)\<close> calls succeed, where \<open>R\<close> bounds the effective
  rates in force. A denied caller that waits one nanosecond longer than it was told is
  granted a token. A rate that is not a number empties the bucket for ever: the token count becomes
  not-a-number at the next call and stays it, whatever rate is set afterwards, and nothing is granted.
\<close>

section \<open>The bucket and its methods\<close>

record token_bucket =
  tokens :: float64
  maxTokens :: float64
  refillRate :: float64
  lastRefill :: time
  throttle :: float64

definition NewTokenBucket :: "float64 \<Rightarrow> float64 \<Rightarrow> float64 \<Rightarrow> time \<Rightarrow> token_bucket" where
  "NewTokenBucket rate burst thr t =
     \<lparr>tokens = burst,
      maxTokens = (if burst \<le> Fin 0 then math_Max rate (Fin 1) else burst),
      refillRate = rate, lastRefill = t, throttle = thr\<rparr>"

definition effectiveRate :: "token_bucket \<Rightarrow> float64" where
  "effectiveRate b =
     (let r = refillRate b * throttle b in if r \<le> Fin 0 then Fin (1 / 1000000000) else r)"

text \<open>\<^verbatim>\<open>d.Seconds()\<close> of a duration in nanoseconds.\<close>

definition seconds :: "duration \<Rightarrow> rat" where
  "seconds d = of_int d / 1000000000"

definition refill :: "token_bucket \<Rightarrow> time \<Rightarrow> token_bucket" where
  "refill b t =
     b\<lparr>tokens := math_Min (maxTokens b) (tokens b + Fin (seconds (t - lastRefill b)) * effectiveRate b),
       lastRefill := t\<rparr>"

definition TryConsume :: "token_bucket \<Rightarrow> time \<Rightarrow> (bool \<times> duration) \<times> token_bucket" where
  "TryConsume b0 t =
     (let b = refill b0 t in
      if Fin 1 \<le> tokens b then ((True, 0), b\<lparr>tokens := tokens b - Fin 1\<rparr>)
      else ((False, int64_of_float ((Fin 1 - tokens b) / effectiveRate b * Fin 1000000000)), b))"

definition UpdateRate :: "token_bucket \<Rightarrow> float64 \<Rightarrow> token_bucket" where
  "UpdateRate b newRate = b\<lparr>refillRate := newRate\<rparr>"

definition Tokens :: "token_bucket \<Rightarrow> time \<Rightarrow> float64 \<times> token_bucket" where
  "Tokens b0 t = (let b = refill b0 t in (tokens b, b))"

section \<open>Sequences of calls\<close>

datatype bucket_op = OpConsume time | OpTokens time | OpUpdate float64

fun bucket_step :: "token_bucket \<Rightarrow> bucket_op \<Rightarrow> bool \<times> token_bucket" where
  "bucket_step b (OpConsume t) = (fst (fst (TryConsume b t)), snd (TryConsume b t))"
| "bucket_step b (OpTokens t) = (False, snd (Tokens b t))"
| "bucket_step b (OpUpdate r) = (False, UpdateRate b r)"

fun granted :: "token_bucket \<Rightarrow> bucket_op list \<Rightarrow> nat" where
  "granted b [] = 0"
| "granted b (c # cs) =
     (let (ok, b') = bucket_step b c in (if ok then 1 else 0) + granted b' cs)"

fun final_bucket :: "token_bucket \<Rightarrow> bucket_op list \<Rightarrow> token_bucket" where
  "final_bucket b [] = b"
| "final_bucket b (c # cs) = final_bucket (snd (bucket_step b c)) cs"

text \<open>The calls happen in order between the times \<open>s\<close> and \<open>e\<close>, and no effective rate in
  force exceeds \<open>R\<close>: it is at most \<open>R\<close>, or not a number.\<close>

fun in_window :: "time \<Rightarrow> time \<Rightarrow> bucket_op list \<Rightarrow> bool" where
  "in_window s e [] = (s \<le> e)"
| "in_window s e (OpConsume t # cs) = (s \<le> t \<and> in_window t e cs)"
| "in_window s e (OpTokens t # cs) = (s \<le> t \<and> in_window t e cs)"
| "in_window s e (OpUpdate r # cs) = in_window s e cs"

fun rate_bounded :: "rat \<Rightarrow> token_bucket \<Rightarrow> bucket_op list \<Rightarrow> bool" where
  "rate_bounded R b [] = (0 \<le> R \<and> \<not> Fin R < effectiveRate b)"
| "rate_bounded R b (c # cs) =
     (\<not> Fin R < effectiveRate b \<and> rate_bounded R (snd (bucket_step b c)) cs)"

text \<open>A bucket that can hold \<open>m\<close> tokens and holds a number of them in that range. \<open>bucket_sane\<close> also admits
  not-a-number.\<close>

definition bucket_ok :: "rat \<Rightarrow> token_bucket \<Rightarrow> bool" where
  "bucket_ok m b \<longleftrightarrow> maxTokens b = Fin m \<and> (\<exists>k. tokens b = Fin k \<and> 0 \<le> k \<and> k \<le> m)"

definition bucket_sane :: "rat \<Rightarrow> token_bucket \<Rightarrow> bool" where
  "bucket_sane m b \<longleftrightarrow> 0 \<le> m \<and> maxTokens b = Fin m \<and> (tokens b = NaN \<or> bucket_ok m b)"

text \<open>The tokens that can be handed out.\<close>

definition level :: "token_bucket \<Rightarrow> rat" where
  "level b = (case tokens b of Fin k \<Rightarrow> k | _ \<Rightarrow> 0)"

section \<open>Lemmas\<close>

text \<open>How the bucket computes on an explicit state.\<close>

lemma effectiveRate_eval:
  "effectiveRate \<lparr>tokens = k, maxTokens = m, refillRate = Fin r, lastRefill = l, throttle = Fin th\<rparr> =
     Fin (if r * th \<le> 0 then 1 / 1000000000 else r * th)"
  by (simp add: effectiveRate_def Let_def)

lemma TryConsume_eval:
  "TryConsume \<lparr>tokens = Fin k, maxTokens = Fin m, refillRate = Fin r, lastRefill = l, throttle = Fin th\<rparr> t =
     (let rate = (if r * th \<le> 0 then 1 / 1000000000 else r * th);
          v = min m (k + of_int (t - l) / 1000000000 * rate)
      in if 1 \<le> v
         then ((True, 0), \<lparr>tokens = Fin (v - 1), maxTokens = Fin m, refillRate = Fin r, lastRefill = t,
                           throttle = Fin th\<rparr>)
         else ((False, int64_of_float (Fin ((1 - v) / rate * 1000000000))),
               \<lparr>tokens = Fin v, maxTokens = Fin m, refillRate = Fin r, lastRefill = t, throttle = Fin th\<rparr>))"
  by (simp add: TryConsume_def refill_def seconds_def effectiveRate_def Let_def)

text \<open>An effective rate is positive, infinite or not a number.\<close>

lemma effectiveRate_cases:
  obtains r where "effectiveRate b = Fin r" "0 < r" | "effectiveRate b = PosInf" | "effectiveRate b = NaN"
proof (cases "refillRate b * throttle b")
  case (Fin q)
  then show ?thesis
    using that(1) [of "if q \<le> 0 then 1 / 1000000000 else q"] by (simp add: effectiveRate_def split: if_splits)
next
  case NegInf
  then show ?thesis using that(1) [of "1 / 1000000000"] by (simp add: effectiveRate_def)
qed (use that in \<open>simp_all add: effectiveRate_def\<close>)

lemma effectiveRate_NaN: "refillRate b = NaN \<or> throttle b = NaN \<Longrightarrow> effectiveRate b = NaN"
  by (auto simp: effectiveRate_def)

lemma effectiveRate_finite: "refillRate b = Fin r \<Longrightarrow> throttle b = Fin f \<Longrightarrow> \<exists>q. effectiveRate b = Fin q \<and> 0 < q"
  by (rule exI [of _ "if r * f \<le> 0 then 1 / 1000000000 else r * f"]) (simp add: effectiveRate_def)

lemma seconds_nonneg: "0 \<le> d \<Longrightarrow> 0 \<le> seconds d"
  by (simp add: seconds_def)

lemma seconds_add: "seconds (a + b) = seconds a + seconds b"
  by (simp add: seconds_def add_divide_distrib)

lemma seconds_0 [simp]: "seconds 0 = 0"
  by (simp add: seconds_def)

lemma refill_fields [simp]:
  "maxTokens (refill b t) = maxTokens b" "lastRefill (refill b t) = t"
  "refillRate (refill b t) = refillRate b" "throttle (refill b t) = throttle b"
  "effectiveRate (refill b t) = effectiveRate b"
  by (simp_all add: refill_def effectiveRate_def)

lemma effectiveRate_tokens [simp]: "effectiveRate (b\<lparr>tokens := x\<rparr>) = effectiveRate b"
  by (simp add: effectiveRate_def)

lemma refill_NaN: "maxTokens b = Fin m \<Longrightarrow> tokens b = NaN \<or> effectiveRate b = NaN \<Longrightarrow> tokens (refill b t) = NaN"
  by (auto simp: refill_def)

lemma refill_Fin:
  "maxTokens b = Fin m \<Longrightarrow> tokens b = Fin k \<Longrightarrow> effectiveRate b = Fin r \<Longrightarrow>
     tokens (refill b t) = Fin (min m (k + seconds (t - lastRefill b) * r))"
  by (simp add: refill_def)

lemma refill_sane:
  assumes "bucket_sane m b" "lastRefill b \<le> t"
  shows "bucket_sane m (refill b t)"
proof (cases "tokens b")
  case (Fin k)
  then have k: "0 \<le> k" "k \<le> m" "maxTokens b = Fin m" "0 \<le> m"
    using assms(1) by (auto simp: bucket_sane_def bucket_ok_def)
  have s: "0 \<le> seconds (t - lastRefill b)" using assms(2) by (simp add: seconds_nonneg)
  show ?thesis
  proof (cases rule: effectiveRate_cases [of b])
    case (1 r)
    then show ?thesis using refill_Fin [OF k(3) Fin 1(1), of t] k s by (simp add: bucket_sane_def bucket_ok_def)
  next
    case 2
    then show ?thesis using k s Fin by (auto simp: bucket_sane_def bucket_ok_def refill_def)
  next
    case 3
    then show ?thesis using refill_NaN [OF k(3)] k by (simp add: bucket_sane_def)
  qed
qed (use assms in \<open>auto simp: bucket_sane_def bucket_ok_def refill_NaN\<close>)

lemma refill_idem:
  assumes "bucket_sane m (refill b t)" "effectiveRate b \<noteq> PosInf"
  shows "refill (refill b t) t = refill b t"
proof -
  let ?b = "refill b t"
  have m: "maxTokens ?b = Fin m" "maxTokens b = Fin m" using assms(1) by (simp_all add: bucket_sane_def)
  have "math_Min (maxTokens ?b) (tokens ?b + Fin 0 * effectiveRate ?b) = tokens ?b"
  proof (cases rule: effectiveRate_cases [of b])
    case (1 r)
    then show ?thesis using assms(1) m by (auto simp: bucket_sane_def bucket_ok_def)
  next
    case 3
    then show ?thesis using refill_NaN [OF m(2), of t] m by simp
  qed (use assms(2) in simp)
  then have "refill ?b t = ?b\<lparr>tokens := tokens ?b, lastRefill := t\<rparr>" unfolding refill_def [of ?b] by simp
  then show ?thesis by (simp add: refill_def)
qed

lemma level_refill:
  assumes "bucket_sane m b" "lastRefill b \<le> t" "\<not> Fin R < effectiveRate b" "0 \<le> R"
  shows "level (refill b t) \<le> level b + R * seconds (t - lastRefill b)"
proof -
  have m: "maxTokens b = Fin m" and s: "0 \<le> seconds (t - lastRefill b)"
    using assms(1,2) by (simp_all add: bucket_sane_def seconds_nonneg)
  consider k where "tokens b = Fin k" "0 \<le> k" | "tokens b = NaN"
    using assms(1) by (auto simp: bucket_sane_def bucket_ok_def)
  then show ?thesis
  proof cases
    case (1 k)
    show ?thesis
    proof (cases rule: effectiveRate_cases [of b])
      case (1 r)
      then have "seconds (t - lastRefill b) * r \<le> R * seconds (t - lastRefill b)"
        using assms(3) s by (simp add: mult.commute mult_right_mono)
      then show ?thesis using refill_Fin [OF m \<open>tokens b = Fin k\<close> 1(1), of t] \<open>tokens b = Fin k\<close> by (simp add: level_def)
    next
      case 2
      then show ?thesis using assms(3) by simp
    next
      case 3
      then show ?thesis using refill_NaN [OF m, of t] 1 s assms(4) by (simp add: level_def)
    qed
  next
    case 2
    then show ?thesis using refill_NaN [OF m, of t] s assms(4) by (simp add: level_def)
  qed
qed

lemma UpdateRate_sane [simp]: "bucket_sane m (UpdateRate b r) = bucket_sane m b" "bucket_ok m (UpdateRate b r) = bucket_ok m b"
  by (simp_all add: bucket_sane_def bucket_ok_def UpdateRate_def)

lemma level_le: "bucket_sane m b \<Longrightarrow> 0 \<le> level b \<and> level b \<le> m"
  by (auto simp: bucket_sane_def bucket_ok_def level_def split: float64.splits)

lemma consume_sane:
  assumes "bucket_sane m b" "Fin 1 \<le> tokens b"
  shows "bucket_sane m (b\<lparr>tokens := tokens b - Fin 1\<rparr>)" "level (b\<lparr>tokens := tokens b - Fin 1\<rparr>) = level b - 1"
  using assms by (auto simp: bucket_sane_def bucket_ok_def level_def)

text \<open>One call: what it grants comes out of the tokens, which grow by at most the rate.\<close>

fun op_time :: "token_bucket \<Rightarrow> bucket_op \<Rightarrow> time" where
  "op_time b (OpConsume t) = t"
| "op_time b (OpTokens t) = t"
| "op_time b (OpUpdate r) = lastRefill b"

lemma step_sane:
  assumes "bucket_sane m b" "lastRefill b \<le> op_time b c"
  shows "bucket_sane m (snd (bucket_step b c)) \<and> lastRefill (snd (bucket_step b c)) = op_time b c"
  using refill_sane [of m b "op_time b c"] assms consume_sane(1) [of m "refill b (op_time b c)"]
  by (cases c) (auto simp: TryConsume_def Tokens_def UpdateRate_def Let_def bucket_sane_def bucket_ok_def)

lemma step_balance:
  assumes "bucket_sane m b" "lastRefill b \<le> op_time b c" "\<not> Fin R < effectiveRate b" "0 \<le> R"
  shows "(if fst (bucket_step b c) then 1 else 0) + level (snd (bucket_step b c))
     \<le> level b + R * seconds (op_time b c - lastRefill b)"
  using level_refill [OF assms] refill_sane [OF assms(1,2)] consume_sane(2) [of m "refill b (op_time b c)"]
  by (cases c) (auto simp: TryConsume_def Tokens_def UpdateRate_def Let_def level_def)

lemma in_window_step:
  "in_window (lastRefill b) e (c # cs) \<Longrightarrow>
     lastRefill b \<le> op_time b c \<and> in_window (op_time b c) e cs"
  by (cases c) auto

lemma rate_bounded_nonneg: "rate_bounded R b cs \<Longrightarrow> 0 \<le> R"
  by (induction cs arbitrary: b) auto

lemma granted_bound:
  assumes "bucket_sane m b" "in_window (lastRefill b) e cs" "rate_bounded R b cs"
  shows "of_nat (granted b cs) \<le> level b + R * seconds (e - lastRefill b)"
  using assms
proof (induction cs arbitrary: b)
  case Nil
  then have "0 \<le> R * seconds (e - lastRefill b)" by (intro mult_nonneg_nonneg) (auto intro: seconds_nonneg)
  with Nil level_le [of m b] show ?case by simp
next
  case (Cons c cs)
  define b' where "b' = snd (bucket_step b c)"
  define t where "t = op_time b c"
  from in_window_step [OF Cons.prems(2)]
  have t: "lastRefill b \<le> t" "in_window t e cs" by (simp_all add: t_def)
  from step_sane [OF Cons.prems(1), of c] t(1)
  have b': "bucket_sane m b'" "lastRefill b' = t" by (simp_all add: b'_def t_def)
  have IH: "of_nat (granted b' cs) \<le> level b' + R * seconds (e - t)"
    using Cons.IH [of b'] b' t(2) Cons.prems(3) by (simp add: b'_def)
  have split: "R * seconds (e - lastRefill b)
      = R * seconds (t - lastRefill b) + R * seconds (e - t)"
    by (simp add: seconds_add [symmetric] distrib_left [symmetric])
  have "of_nat (granted b (c # cs)) =
      (if fst (bucket_step b c) then 1 else 0 :: rat) + of_nat (granted b' cs)"
    by (simp add: b'_def split: prod.splits)
  moreover have "\<not> Fin R < effectiveRate b" "0 \<le> R" using Cons.prems(3) rate_bounded_nonneg by auto
  ultimately show ?case
    using IH split step_balance [OF Cons.prems(1), of c R] t(1) by (simp add: b'_def [symmetric] t_def [symmetric])
qed

lemma granted_window:
  assumes "bucket_sane m b" "lastRefill b \<le> s" "in_window s e cs" "rate_bounded R b cs"
  shows "of_nat (granted b cs) \<le> m + R * seconds (e - s)"
  using assms
proof (induction cs arbitrary: b)
  case Nil
  then have "0 \<le> R * seconds (e - s)" by (intro mult_nonneg_nonneg) (auto intro: seconds_nonneg)
  with Nil show ?case by (simp add: bucket_sane_def)
next
  case (Cons c cs)
  have R: "0 \<le> R" by (rule rate_bounded_nonneg [OF Cons.prems(4)])
  have main: "of_nat (granted b (c # cs)) \<le> m + R * seconds (e - s)"
    if c: "c = OpConsume t \<or> c = OpTokens t" for t
  proof -
    define b1 where "b1 = refill b t"
    have t: "s \<le> t" "in_window t e (c # cs)" using c Cons.prems(3) by auto
    have b1: "bucket_sane m b1" "lastRefill b1 = t"
      using refill_sane [OF Cons.prems(1), of t] Cons.prems(2) t(1) by (simp_all add: b1_def)
    have "effectiveRate b \<noteq> PosInf" using Cons.prems(4) by auto
    then have rr: "refill b1 t = b1" using refill_idem [of m b t] b1(1) by (simp add: b1_def)
    have same: "bucket_step b1 c = bucket_step b c"
      using c rr by (auto simp: TryConsume_def Tokens_def b1_def)
    have "of_nat (granted b1 (c # cs)) \<le> level b1 + R * seconds (e - t)"
      using b1 t(2) Cons.prems(4) same
      by (intro granted_bound [where b = b1, simplified b1(2)]) (simp_all add: b1_def)
    moreover have "granted b1 (c # cs) = granted b (c # cs)" by (simp add: same)
    moreover have "R * seconds (e - t) \<le> R * seconds (e - s)"
      using R t(1) by (intro mult_left_mono) (simp_all add: seconds_def divide_right_mono)
    ultimately show ?thesis using level_le [OF b1(1)] by simp
  qed
  show ?case
  proof (cases c)
    case (OpUpdate r)
    moreover have "lastRefill (UpdateRate b r) = lastRefill b" by (simp add: UpdateRate_def)
    ultimately show ?thesis using Cons.prems Cons.IH [of "UpdateRate b r"] by simp
  qed (use main in auto)
qed

section \<open>Properties\<close>

lemma NewTokenBucket_ok:
  "0 \<le> burst \<Longrightarrow> bucket_ok (if burst = 0 then max rate 1 else burst) (NewTokenBucket (Fin rate) (Fin burst) thr t)"
  by (auto simp: bucket_ok_def NewTokenBucket_def)

lemma bucket_ok_sane: "bucket_ok m b \<Longrightarrow> bucket_sane m b"
  by (auto simp: bucket_ok_def bucket_sane_def)

text \<open>C1: the rate guarantee. Whatever callers do between the times \<open>s\<close> and \<open>e\<close> (consume,
  read, change the rate, also to something that is not a number), a bucket that holds between 0 and \<open>m\<close> tokens,
  its capacity, grants at most \<open>m + R * (e - s)\<close> tokens, where \<open>R\<close> bounds the effective rates in force.\<close>

theorem bucket_rate_guarantee:
  assumes "bucket_ok m b" "lastRefill b \<le> s" "in_window s e cs" "rate_bounded R b cs"
  shows "of_nat (granted b cs) \<le> m + R * seconds (e - s)"
  using bucket_ok_sane [OF assms(1)] assms(2-4) by (rule granted_window)

theorem bucket_rate_guarantee_witness:
  "of_nat (granted (NewTokenBucket (Fin 2) (Fin 2) (Fin 1) 0) [OpConsume 0, OpConsume 0, OpConsume 0,
      OpConsume 500000000]) \<le> (2 :: rat) + 2 * seconds 500000000
   \<and> granted (NewTokenBucket (Fin 2) (Fin 2) (Fin 1) 0) [OpConsume 0, OpConsume 0, OpConsume 0,
      OpConsume 500000000] = 3"
proof -
  let ?cs = "[OpConsume 0, OpConsume 0, OpConsume 0, OpConsume 500000000]"
  let ?b = "NewTokenBucket (Fin 2) (Fin 2) (Fin 1) 0"
  have "of_nat (granted ?b ?cs) \<le> 2 + 2 * seconds (500000000 - 0)"
  proof (rule bucket_rate_guarantee)
    show "bucket_ok 2 ?b" using NewTokenBucket_ok [of 2 2 "Fin 1" 0] by simp
    show "rate_bounded 2 ?b ?cs"
      by (simp add: NewTokenBucket_def TryConsume_eval effectiveRate_eval)
  qed (simp_all add: NewTokenBucket_def)
  then show ?thesis by (simp add: NewTokenBucket_def TryConsume_eval)
qed

text \<open>The bucket's own invariant. From a bucket with a number of tokens within its capacity, any
  sequence of calls at non-decreasing times that sets only finite rates leaves such a bucket.\<close>

definition op_finite :: "bucket_op \<Rightarrow> bool" where
  "op_finite c = (case c of OpUpdate r \<Rightarrow> is_Fin r | _ \<Rightarrow> True)"

definition rates_finite :: "token_bucket \<Rightarrow> bool" where
  "rates_finite b \<longleftrightarrow> is_Fin (refillRate b) \<and> is_Fin (throttle b)"

lemma refill_ok:
  assumes "bucket_ok m b" "rates_finite b" "lastRefill b \<le> t"
  shows "bucket_ok m (refill b t)"
proof -
  obtain k where k: "tokens b = Fin k" "0 \<le> k" "k \<le> m" "maxTokens b = Fin m"
    using assms(1) by (auto simp: bucket_ok_def)
  obtain q where q: "effectiveRate b = Fin q" "0 < q"
    using assms(2) effectiveRate_finite unfolding rates_finite_def is_Fin_def by blast
  have "0 \<le> seconds (t - lastRefill b) * q" using assms(3) q(2) by (simp add: seconds_nonneg)
  then show ?thesis using refill_Fin [OF k(4,1) q(1), of t] k by (simp add: bucket_ok_def)
qed

lemma step_ok:
  assumes "bucket_ok m b" "rates_finite b" "op_finite c" "lastRefill b \<le> op_time b c"
  shows "bucket_ok m (snd (bucket_step b c)) \<and> rates_finite (snd (bucket_step b c)) \<and>
    lastRefill (snd (bucket_step b c)) = op_time b c"
  using refill_ok [of m b "op_time b c"] assms
  by (cases c) (auto simp: TryConsume_def Tokens_def UpdateRate_def Let_def bucket_ok_def rates_finite_def op_finite_def)

theorem bucket_invariant:
  assumes "bucket_ok m b" "rates_finite b" "in_window (lastRefill b) e cs" "list_all op_finite cs"
  shows "bucket_ok m (final_bucket b cs)"
  using assms
proof (induction cs arbitrary: b)
  case (Cons c cs)
  have t: "lastRefill b \<le> op_time b c" "in_window (op_time b c) e cs"
    using in_window_step [OF Cons.prems(3)] by blast+
  have "bucket_ok m (snd (bucket_step b c)) \<and> rates_finite (snd (bucket_step b c)) \<and>
      lastRefill (snd (bucket_step b c)) = op_time b c"
    by (rule step_ok) (use Cons.prems t(1) in simp_all)
  then show ?case using Cons.IH [of "snd (bucket_step b c)"] t(2) Cons.prems(4) by simp
qed simp

theorem bucket_invariant_witness:
  "bucket_ok 1 (final_bucket (NewTokenBucket (Fin (1/2)) (Fin 1) (Fin (4/5)) 0)
     [OpConsume 0, OpUpdate (Fin (1/4)), OpConsume 7, OpTokens 9])"
  by (rule bucket_invariant [of _ _ 9]) (simp_all add: bucket_ok_def rates_finite_def op_finite_def NewTokenBucket_def)

text \<open>A rate or a throttle factor that is not a number: from the next call on the bucket grants nothing, whatever rates
  are set later.\<close>

lemma NaN_tokens_stay:
  "tokens b = NaN \<Longrightarrow> maxTokens b = Fin m \<Longrightarrow> granted b cs = 0 \<and> tokens (final_bucket b cs) = NaN"
proof (induction cs arbitrary: b)
  case (Cons c cs)
  have "\<not> fst (bucket_step b c)" "tokens (snd (bucket_step b c)) = NaN" "maxTokens (snd (bucket_step b c)) = Fin m"
    using Cons.prems refill_NaN [of b m] by (cases c; simp add: TryConsume_def Tokens_def UpdateRate_def Let_def)+
  with Cons.IH show ?case by (cases "bucket_step b c") simp
qed simp

theorem NaN_rate_blocks:
  assumes "refillRate b = NaN \<or> throttle b = NaN" "maxTokens b = Fin m"
  shows "\<not> fst (fst (TryConsume b t)) \<and> granted (snd (TryConsume b t)) cs = 0"
proof -
  have n: "tokens (refill b t) = NaN" using refill_NaN [OF assms(2)] effectiveRate_NaN [OF assms(1)] by blast
  then have "TryConsume b t = ((False, int64_of_float NaN), refill b t)" by (simp add: TryConsume_def)
  then show ?thesis using NaN_tokens_stay [OF n, of m cs] assms(2) by simp
qed

lemma NaN_throttle_grants_nothing: "throttle b = NaN \<Longrightarrow> maxTokens b = Fin m \<Longrightarrow> granted b cs = 0"
proof (induction cs arbitrary: b)
  case (Cons c cs)
  have "tokens (refill b t) = NaN" for t
    using Cons.prems refill_NaN effectiveRate_NaN by blast
  then have "\<not> fst (bucket_step b c)" "throttle (snd (bucket_step b c)) = NaN" "maxTokens (snd (bucket_step b c)) = Fin m"
    using Cons.prems by (cases c; simp add: TryConsume_def Tokens_def UpdateRate_def refill_def Let_def)+
  with Cons.IH show ?case by (cases "bucket_step b c") simp
qed simp

text \<open>The wait a denied caller is told is adequate. If the bucket can hold a whole token, its effective rate is a number that
  does not change, and the wait fits into a duration, a call more than \<open>wait\<close> nanoseconds later is granted.\<close>

theorem TryConsume_after_wait:
  assumes deny: "TryConsume b t = ((False, wait), b')"
    and later: "t + wait + 1 \<le> t'" and whole: "maxTokens b = Fin m" "1 \<le> m"
    and rate: "effectiveRate b = Fin r" and few: "tokens b' = Fin k" and fits: "(1 - k) / r * 1000000000 < 2 ^ 63"
  shows "fst (fst (TryConsume b' t'))"
proof -
  have r: "0 < r" by (rule effectiveRate_cases [of b]) (use rate in simp_all)
  from deny few have b': "b' = refill b t" and k: "k < 1"
    and w: "wait = int64_of_float ((Fin 1 - Fin k) / Fin r * Fin 1000000000)"
    by (auto simp: TryConsume_def Let_def rate split: if_splits)
  let ?q = "(1 - k) / r * 1000000000"
  have "0 \<le> ?q" using k r by simp
  moreover from this have "\<lfloor>?q\<rfloor> < 2 ^ 63" using fits by (simp add: floor_less_iff)
  moreover have "- (2 ^ 63) \<le> \<lfloor>?q\<rfloor>" using \<open>0 \<le> ?q\<close> by (simp add: le_floor_iff)
  ultimately have wait: "wait = \<lfloor>?q\<rfloor>"
    using w r by (simp add: int64_of_float_def truncate_rat_def)
  have "?q < of_int (wait + 1)" unfolding wait using floor_correct by blast
  also have "\<dots> \<le> of_int (t' - t)" using later by (simp only: of_int_le_iff)
  finally have "(1 - k) / r < seconds (t' - t)" by (simp add: seconds_def pos_less_divide_eq)
  then have "1 - k < seconds (t' - t) * r" using r by (simp add: pos_divide_less_eq)
  moreover have "tokens (refill b' t') = Fin (min m (k + seconds (t' - t) * r))"
    using refill_Fin [of b' m k r t'] whole rate few by (simp add: b')
  ultimately have "Fin 1 \<le> tokens (refill b' t')" using whole by simp
  then show ?thesis by (simp add: TryConsume_def Let_def)
qed

theorem TryConsume_after_wait_witness:
  "fst (fst (TryConsume (snd (TryConsume
      \<lparr>tokens = Fin 0, maxTokens = Fin 1, refillRate = Fin (1/2), lastRefill = 0, throttle = Fin 1\<rparr> 0)) 2000000001))"
  by (rule TryConsume_after_wait [where b = "\<lparr>tokens = Fin 0, maxTokens = Fin 1, refillRate = Fin (1/2),
        lastRefill = 0, throttle = Fin 1\<rparr>" and t = 0 and wait = 2000000000 and m = 1 and r = "1/2" and k = 0])
    (simp_all add: TryConsume_eval effectiveRate_eval int64_of_float_def truncate_rat_def)

end
