(* ===== verification/RequestQueue.thy ===== *)
theory RequestQueue
  imports RequestHeap Bucket
begin

text \<open>
  The waiting queue of one bucket (\<^verbatim>\<open>RequestQueue\<close> in \<^verbatim>\<open>internal/ratelimit/queue.go\<close>) as a
  concurrent system: any number of goroutines inside \<^verbatim>\<open>Enqueue\<close> and the \<^verbatim>\<open>dispatch\<close>
  goroutine. A step of the relation \<open>qstep\<close> is one critical section under \<^verbatim>\<open>q.mu\<close> or one
  channel operation outside of it; which goroutine moves next is not determined.

  Channels: \<^verbatim>\<open>done\<close> and each \<^verbatim>\<open>ready\<close> are only closed, so a flag and a set describe them;
  \<^verbatim>\<open>notify\<close> has a buffer of one, so it is a flag as well.

  Shown of every reachable state: the heap is well-formed and holds at most \<^verbatim>\<open>maxDepth\<close>
  requests, no accepted request is lost, a caller that is let through has a token that the
  dispatcher took for it, and no wake-up of the dispatcher is lost.
\<close>

datatype enq_result = EnqOk | ErrQueueFull | CtxErr | ErrQueueStopped

text \<open>Where a caller is inside \<^verbatim>\<open>Enqueue\<close>: its request is pushed, it waits in the select, or
  it has returned.\<close>

datatype phase = Pushed req_core | Selecting req_core | Returned enq_result

text \<open>Where \<^verbatim>\<open>dispatch\<close> is: at the top of its loop, about to close a request's \<^verbatim>\<open>ready\<close>
  channel, in one of its two selects, or returned.\<close>

datatype disp = DLoop | DClosing req_core | DWaitEmpty | DWaitToken duration | DStopped

record qsys =
  q_heap :: request_heap
  q_bucket :: token_bucket
  q_maxDepth :: int
  q_done :: bool
  q_notify :: bool
  q_disp :: disp
  q_phase :: "nat \<rightharpoonup> phase"
  q_ready :: "nat set"
  q_granted :: nat

definition NewRequestQueue :: "token_bucket \<Rightarrow> int \<Rightarrow> qsys" where
  "NewRequestQueue b maxDepth =
     \<lparr>q_heap = [], q_bucket = b, q_maxDepth = maxDepth, q_done = False, q_notify = False,
      q_disp = DLoop, q_phase = Map.empty, q_ready = {}, q_granted = 0\<rparr>"

text \<open>The first critical section of \<^verbatim>\<open>Enqueue\<close>.\<close>

definition Enqueue_push :: "nat \<Rightarrow> PriorityLevel \<Rightarrow> time \<Rightarrow> qsys \<Rightarrow> qsys" where
  "Enqueue_push rid p t s =
     (if int (length (q_heap s)) \<ge> q_maxDepth s
      then s\<lparr>q_phase := (q_phase s)(rid \<mapsto> Returned ErrQueueFull)\<rparr>
      else let req = (rid, p, t) in
           s\<lparr>q_heap := heap_Push (q_heap s) (mk_request req),
             q_phase := (q_phase s)(rid \<mapsto> Pushed req)\<rparr>)"

text \<open>\<^verbatim>\<open>select { case q.notify <- struct{}{}: default: }\<close>\<close>

definition Enqueue_notify :: "nat \<Rightarrow> req_core \<Rightarrow> qsys \<Rightarrow> qsys" where
  "Enqueue_notify rid req s =
     s\<lparr>q_notify := True, q_phase := (q_phase s)(rid \<mapsto> Selecting req)\<rparr>"

definition Enqueue_return :: "nat \<Rightarrow> enq_result \<Rightarrow> qsys \<Rightarrow> qsys" where
  "Enqueue_return rid res s = s\<lparr>q_phase := (q_phase s)(rid \<mapsto> Returned res)\<rparr>"

text \<open>\<^verbatim>\<open>remove\<close>, called when the caller's context is done.\<close>

definition queue_remove :: "req_core \<Rightarrow> qsys \<Rightarrow> qsys" where
  "queue_remove req s = s\<lparr>q_heap := remove_req (q_heap s) req\<rparr>"

text \<open>One round of \<^verbatim>\<open>dispatch\<close> under the mutex, with the wait capped at 100 ms.\<close>

definition dispatch_round :: "time \<Rightarrow> qsys \<Rightarrow> qsys" where
  "dispatch_round t s =
     (if q_heap s = [] then s\<lparr>q_disp := DWaitEmpty\<rparr>
      else case TryConsume (q_bucket s) t of
        ((allowed, wait), b) \<Rightarrow>
          if allowed then
            (case pop_core (q_heap s) of
               None \<Rightarrow> s
             | Some (req, h) \<Rightarrow>
                 s\<lparr>q_bucket := b, q_heap := h, q_disp := DClosing req,
                   q_granted := Suc (q_granted s)\<rparr>)
          else s\<lparr>q_bucket := b, q_disp := DWaitToken (min wait (100 * millisecond))\<rparr>)"

definition close_ready :: "req_core \<Rightarrow> qsys \<Rightarrow> qsys" where
  "close_ready req s = s\<lparr>q_ready := insert (fst req) (q_ready s), q_disp := DLoop\<rparr>"

definition Depth :: "qsys \<Rightarrow> nat" where
  "Depth s = length (q_heap s)"

definition queue_Stop :: "qsys \<Rightarrow> qsys" where
  "queue_Stop s = s\<lparr>q_done := True\<rparr>"

inductive qstep :: "qsys \<Rightarrow> qsys \<Rightarrow> bool" where
  enqueue: "q_phase s rid = None \<Longrightarrow> qstep s (Enqueue_push rid p t s)"
| notify: "q_phase s rid = Some (Pushed req) \<Longrightarrow> qstep s (Enqueue_notify rid req s)"
| sel_ready: "q_phase s rid = Some (Selecting req) \<Longrightarrow> rid \<in> q_ready s \<Longrightarrow>
    qstep s (Enqueue_return rid EnqOk s)"
| sel_ctx: "q_phase s rid = Some (Selecting req) \<Longrightarrow>
    qstep s (Enqueue_return rid CtxErr (queue_remove req s))"
| sel_done: "q_phase s rid = Some (Selecting req) \<Longrightarrow> q_done s \<Longrightarrow>
    qstep s (Enqueue_return rid ErrQueueStopped s)"
| round: "q_disp s = DLoop \<Longrightarrow> qstep s (dispatch_round t s)"
| close: "q_disp s = DClosing req \<Longrightarrow> qstep s (close_ready req s)"
| wake_notify: "q_disp s = DWaitEmpty \<or> q_disp s = DWaitToken d \<Longrightarrow> q_notify s \<Longrightarrow>
    qstep s (s\<lparr>q_notify := False, q_disp := DLoop\<rparr>)"
| wake_timer: "q_disp s = DWaitToken d \<Longrightarrow> qstep s (s\<lparr>q_disp := DLoop\<rparr>)"
| wake_done: "q_disp s = DWaitEmpty \<or> q_disp s = DWaitToken d \<Longrightarrow> q_done s \<Longrightarrow>
    qstep s (s\<lparr>q_disp := DStopped\<rparr>)"
| stop: "qstep s (queue_Stop s)"
| other_bucket_use: "qstep s (s\<lparr>q_bucket := b\<rparr>)"

inductive qreach :: "qsys \<Rightarrow> qsys \<Rightarrow> bool" for s0 where
  init: "qreach s0 s0"
| step: "qreach s0 s \<Longrightarrow> qstep s t \<Longrightarrow> qreach s0 t"

inductive_cases qstep_E: "qstep s t"

section \<open>The invariant\<close>

text \<open>The requests in a heap, and that no two of them have the same identity.\<close>

definition cores :: "request_heap \<Rightarrow> req_core set" where
  "cores h = set (map core h)"

definition ids_distinct :: "request_heap \<Rightarrow> bool" where
  "ids_distinct h \<longleftrightarrow> distinct (map fst (map core h))"

definition heap_ids :: "qsys \<Rightarrow> nat set" where
  "heap_ids s = fst ` cores (q_heap s)"

definition closing_ids :: "qsys \<Rightarrow> nat set" where
  "closing_ids s = (case q_disp s of DClosing req \<Rightarrow> {fst req} | _ \<Rightarrow> {})"

text \<open>The structural part: the heap, its depth and the identities in it.\<close>

definition q_struct :: "qsys \<Rightarrow> bool" where
  "q_struct s \<longleftrightarrow>
     heap_inv (q_heap s) \<and> ids_distinct (q_heap s)
     \<and> int (length (q_heap s)) \<le> max 0 (q_maxDepth s)
     \<and> (\<forall>x \<in> cores (q_heap s).
          q_phase s (fst x) \<in> {Some (Pushed x), Some (Selecting x), Some (Returned ErrQueueStopped)})"

text \<open>The accounting part: tokens taken by the dispatcher against requests let through.\<close>

definition q_account :: "qsys \<Rightarrow> bool" where
  "q_account s \<longleftrightarrow>
     finite (q_ready s)
     \<and> q_granted s = card (q_ready s) + card (closing_ids s)
     \<and> closing_ids s \<inter> q_ready s = {}
     \<and> (q_ready s \<union> closing_ids s) \<inter> heap_ids s = {}
     \<and> (\<forall>i \<in> q_ready s \<union> closing_ids s. q_phase s i \<noteq> None \<and> q_phase s i \<noteq> Some (Returned ErrQueueFull))
     \<and> (\<forall>i. q_phase s i = Some (Returned EnqOk) \<longrightarrow> i \<in> q_ready s)"

text \<open>Some caller has pushed its request and is before its send on \<^verbatim>\<open>notify\<close>.\<close>

definition about_to_notify :: "(nat \<rightharpoonup> phase) \<Rightarrow> bool" where
  "about_to_notify ph \<longleftrightarrow> (\<exists>i x. ph i = Some (Pushed x))"

text \<open>No request is lost, and no wake-up: a dispatcher asleep on an empty heap will be
  notified if the heap is not empty any more.\<close>

definition q_progress :: "qsys \<Rightarrow> bool" where
  "q_progress s \<longleftrightarrow>
     (\<forall>i x. q_phase s i = Some (Pushed x) \<or> q_phase s i = Some (Selecting x) \<longrightarrow>
        fst x = i \<and> (x \<in> cores (q_heap s) \<or> i \<in> q_ready s \<union> closing_ids s))
     \<and> (q_disp s = DWaitEmpty \<longrightarrow> q_heap s \<noteq> [] \<longrightarrow>
          q_notify s \<or> about_to_notify (q_phase s))"

definition q_inv :: "qsys \<Rightarrow> bool" where
  "q_inv s \<longleftrightarrow> q_struct s \<and> q_account s \<and> q_progress s"

lemmas q_defs = Enqueue_push_def Enqueue_notify_def Enqueue_return_def queue_remove_def
  dispatch_round_def close_ready_def queue_Stop_def Let_def

lemmas q_inv_defs = q_inv_def q_struct_def q_account_def q_progress_def

lemma q_inv_init: "q_inv (NewRequestQueue b d)"
  by (simp add: q_inv_defs NewRequestQueue_def heap_ids_def cores_def ids_distinct_def
      closing_ids_def heap_inv_def heap_upto_def indexed_def)

section \<open>What the heap operations do to the set of waiting requests\<close>

lemma ids_distinct_mset:
  "mset (map core h) = add_mset x (mset (map core h')) \<Longrightarrow>
   cores h = insert x (cores h') \<and> length h = Suc (length h')
   \<and> (ids_distinct h \<longleftrightarrow> ids_distinct h' \<and> fst x \<notin> fst ` cores h')"
proof -
  assume eq: "mset (map core h) = add_mset x (mset (map core h'))"
  then have m: "mset (map core h) = mset (x # map core h')" by simp
  have "mset (map fst (map core h)) = mset (map fst (x # map core h'))"
    using m by (metis mset_map)
  then have "ids_distinct h \<longleftrightarrow> distinct (map fst (x # map core h'))"
    unfolding ids_distinct_def by (rule mset_eq_imp_distinct_iff)
  moreover have "cores h = insert x (cores h')"
    using mset_eq_setD [OF m] by (simp add: cores_def)
  moreover have "length h = Suc (length h')"
    using mset_eq_length [OF m] by simp
  ultimately show ?thesis by (auto simp: ids_distinct_def cores_def)
qed

lemma push_cores:
  assumes "heap_inv h"
  shows "heap_inv (heap_Push h (mk_request x))" "cores (heap_Push h (mk_request x)) = insert x (cores h)"
    "ids_distinct (heap_Push h (mk_request x)) \<longleftrightarrow> ids_distinct h \<and> fst x \<notin> fst ` cores h"
  using hp.push [OF assms, of x] ids_distinct_mset by blast+

lemma pop_cores:
  assumes "heap_inv h" "pop_core h = Some (x, h')"
  shows "heap_inv h'" "cores h = insert x (cores h')" "length h = Suc (length h')"
    "ids_distinct h \<longleftrightarrow> ids_distinct h' \<and> fst x \<notin> fst ` cores h'"
    "\<forall>y \<in> cores h. rank_core x \<le> rank_core y"
proof -
  note p = hp.pop_Some [OF assms]
  show "heap_inv h'" "cores h = insert x (cores h')" "length h = Suc (length h')"
    "ids_distinct h \<longleftrightarrow> ids_distinct h' \<and> fst x \<notin> fst ` cores h'"
    using p ids_distinct_mset by blast+
  from p have "\<forall>y \<in># mset (map core h). rank_core x \<le> rank_core y" by blast
  then show "\<forall>y \<in> cores h. rank_core x \<le> rank_core y" by (simp add: cores_def)
qed

lemma remove_cores:
  assumes "heap_inv h" "ids_distinct h"
  shows "heap_inv (remove_req h x)" "cores (remove_req h x) = cores h - {x}"
    "ids_distinct (remove_req h x)" "length (remove_req h x) \<le> length h"
proof -
  have "heap_inv (remove_req h x) \<and> cores (remove_req h x) = cores h - {x}
    \<and> ids_distinct (remove_req h x) \<and> length (remove_req h x) \<le> length h"
  proof (cases "x \<in> cores h")
    case True
    then have "x \<in># mset (map core h)" by (simp add: cores_def)
    from hp.remove [OF assms(1) this] ids_distinct_mset [of h x "remove_req h x"] assms(2)
    show ?thesis by auto
  next
    case False
    then have "remove_req h x = h" using remove_req_absent by (simp add: cores_def)
    with False assms show ?thesis by auto
  qed
  then show "heap_inv (remove_req h x)" "cores (remove_req h x) = cores h - {x}"
    "ids_distinct (remove_req h x)" "length (remove_req h x) \<le> length h" by auto
qed

lemma cores_empty [simp]: "cores h = {} \<longleftrightarrow> h = []"
  by (simp add: cores_def)

lemma cores_Nil [simp]: "cores [] = {}"
  by (simp add: cores_def)

declare split_paired_All [simp del] split_paired_Ex [simp del]

lemma about_to_notify_push: "about_to_notify (ph(i \<mapsto> Pushed x))"
  unfolding about_to_notify_def by (rule exI [of _ i]) simp

lemma about_to_notify_other:
  assumes "about_to_notify ph" "\<And>x. ph i \<noteq> Some (Pushed x)"
  shows "about_to_notify (ph(i := v))"
proof -
  from assms(1) obtain j x where "ph j = Some (Pushed x)" by (auto simp: about_to_notify_def)
  with assms(2) [of x] have "(ph(i := v)) j = Some (Pushed x)" by auto
  then show ?thesis unfolding about_to_notify_def by blast
qed

section \<open>Every step keeps the invariant\<close>

lemmas q_local_defs = Enqueue_push_def Enqueue_notify_def Enqueue_return_def queue_remove_def
  close_ready_def queue_Stop_def Let_def heap_ids_def closing_ids_def

lemma q_invI: "q_struct s \<Longrightarrow> q_account s \<Longrightarrow> q_progress s \<Longrightarrow> q_inv s"
  by (simp add: q_inv_def)

lemma q_inv_heapD: "q_inv s \<Longrightarrow> heap_inv (q_heap s) \<and> ids_distinct (q_heap s)"
  by (simp add: q_inv_def q_struct_def)

lemma q_inv_fullD: "q_inv s \<Longrightarrow> q_struct s \<and> q_account s \<and> q_progress s"
  by (simp add: q_inv_def)

lemma q_inv_enqueue:
  assumes "q_inv s" "q_phase s rid = None"
  shows "q_inv (Enqueue_push rid p t s)"
proof -
  have inv: "heap_inv (q_heap s)" and fresh: "rid \<notin> fst ` cores (q_heap s)"
    using assms by (auto simp: q_inv_defs)
  note push = push_cores [OF inv, of "(rid, p, t)"]
  note s = q_inv_fullD [OF assms(1)]
  show ?thesis
  proof (rule q_invI)
    show "q_struct (Enqueue_push rid p t s)"
      using s assms(2) push fresh inv by (auto simp: q_struct_def Enqueue_push_def Let_def)
    show "q_account (Enqueue_push rid p t s)"
      using s assms(2) push fresh by (auto simp: q_account_def q_local_defs split: disp.splits)
    show "q_progress (Enqueue_push rid p t s)"
      using s assms(2) push
      by (auto simp: q_progress_def q_local_defs about_to_notify_push
          intro: about_to_notify_other split: disp.splits)
  qed
qed

lemma q_inv_notify:
  assumes "q_inv s" "q_phase s rid = Some (Pushed req)"
  shows "q_inv (Enqueue_notify rid req s)"
proof (rule q_invI)
  note s = q_inv_fullD [OF assms(1)]
  show "q_struct (Enqueue_notify rid req s)" "q_account (Enqueue_notify rid req s)"
    using s assms(2) by (auto simp: q_struct_def q_account_def q_local_defs)
  show "q_progress (Enqueue_notify rid req s)"
    using s assms(2) by (auto simp: q_progress_def q_local_defs split: disp.splits)
qed

text \<open>The three ways out of the select: with the request removed from the heap or not.\<close>

lemma q_inv_return:
  assumes "q_inv s" "q_phase s rid = Some (Selecting req)"
    and "res \<noteq> ErrQueueFull" "res = EnqOk \<Longrightarrow> rid \<in> q_ready s"
    and "h = q_heap s \<and> res \<in> {EnqOk, ErrQueueStopped} \<or> h = remove_req (q_heap s) req"
  shows "q_inv (Enqueue_return rid res (s\<lparr>q_heap := h\<rparr>))"
proof -
  note s = q_inv_fullD [OF assms(1)]
  note hi = q_inv_heapD [OF assms(1)]
  note rem = remove_cores [OF conjunct1 [OF hi] conjunct2 [OF hi], of req]
  have h: "heap_inv h" "ids_distinct h" "length h \<le> length (q_heap s)"
    "cores (q_heap s) - {req} \<subseteq> cores h" "cores h \<subseteq> cores (q_heap s)"
    using rem hi assms(5) by auto
  have fst_req: "fst req = rid" using s assms(2) by (auto simp: q_progress_def)
  have mine: "x = req" if "x \<in> cores (q_heap s)" "fst x = rid" for x
    using that s assms(2) by (auto simp: q_struct_def)
  have out: "req \<notin> cores h \<or> res = ErrQueueStopped"
    using assms(4,5) rem(2) s fst_req by (force simp: q_account_def heap_ids_def)
  show ?thesis
  proof (rule q_invI)
    show "q_struct (Enqueue_return rid res (s\<lparr>q_heap := h\<rparr>))"
      using s h mine out by (auto simp: q_struct_def Enqueue_return_def)
    show "q_account (Enqueue_return rid res (s\<lparr>q_heap := h\<rparr>))"
      using s h(5) assms(2-4) by (auto simp: q_account_def q_local_defs split: disp.splits)
    have kept: "x \<in> cores h" if "x \<in> cores (q_heap s)" "fst x \<noteq> rid" for x
      using that h(4) fst_req by auto
    have ready: "closing_ids (Enqueue_return rid res (s\<lparr>q_heap := h\<rparr>)) = closing_ids s"
      by (simp add: closing_ids_def Enqueue_return_def)
    have "about_to_notify ((q_phase s)(rid \<mapsto> Returned res))" if "about_to_notify (q_phase s)"
      using that assms(2) by (simp add: about_to_notify_other)
    moreover have "q_heap s \<noteq> []" if "h \<noteq> []" using that h(3) by auto
    ultimately show "q_progress (Enqueue_return rid res (s\<lparr>q_heap := h\<rparr>))"
      using s kept unfolding q_progress_def ready
      by (fastforce simp: Enqueue_return_def split: if_splits)
  qed
qed

text \<open>What a round of \<^verbatim>\<open>dispatch\<close> can do, as an equation on the state.\<close>

lemma dispatch_round_cases:
  obtains (empty) "q_heap s = []" "dispatch_round t s = s\<lparr>q_disp := DWaitEmpty\<rparr>"
  | (wait) w b where "q_heap s \<noteq> []" "TryConsume (q_bucket s) t = ((False, w), b)"
      "dispatch_round t s =
         s\<lparr>q_bucket := b, q_disp := DWaitToken (min w (100 * millisecond))\<rparr>"
  | (grant) w b req h where "TryConsume (q_bucket s) t = ((True, w), b)"
      "pop_core (q_heap s) = Some (req, h)"
      "dispatch_round t s = s\<lparr>q_bucket := b, q_heap := h, q_disp := DClosing req,
         q_granted := Suc (q_granted s)\<rparr>"
proof (cases "q_heap s = []")
  case True
  then show ?thesis using empty by (simp add: dispatch_round_def)
next
  case False
  obtain a w b where t: "TryConsume (q_bucket s) t = ((a, w), b)" by (metis prod.exhaust)
  from False obtain req h where p: "pop_core (q_heap s) = Some (req, h)" by (auto simp: pop_core_def)
  show ?thesis
    using wait [OF False] grant [OF _ p] t p False by (cases a) (auto simp: dispatch_round_def)
qed

lemma q_inv_grant:
  assumes "q_inv s" "q_disp s = DLoop" "pop_core (q_heap s) = Some (req, h)"
  shows "q_inv (s\<lparr>q_bucket := b, q_heap := h, q_disp := DClosing req,
    q_granted := Suc (q_granted s)\<rparr>)"
proof -
  note s = q_inv_fullD [OF assms(1)]
  note pop = pop_cores [OF conjunct1 [OF q_inv_heapD [OF assms(1)]] assms(3)]
  show ?thesis
  proof (rule q_invI, goal_cases)
    case 1
    then show ?case using s pop by (auto simp: q_struct_def)
  next
    case 2
    have "q_phase s (fst req) \<noteq> None" "q_phase s (fst req) \<noteq> Some (Returned ErrQueueFull)"
      using s pop(2) by (auto simp: q_struct_def)
    then show ?case
      using s pop assms(2) by (auto simp: q_account_def q_local_defs q_struct_def)
  next
    case 3
    have "x = req \<or> x \<in> cores h" if "x \<in> cores (q_heap s)" for x using that pop(2) by auto
    then show ?case
      using s assms(2) unfolding q_progress_def by (auto simp: closing_ids_def) blast+
  qed
qed

lemma q_inv_round:
  assumes "q_inv s" "q_disp s = DLoop"
  shows "q_inv (dispatch_round t s)"
proof (cases rule: dispatch_round_cases [of s t])
  case (grant w b req h)
  then show ?thesis using q_inv_grant [OF assms grant(2)] by simp
next
  case empty
  then show ?thesis using assms by (simp add: q_inv_defs heap_ids_def closing_ids_def)
next
  case wait
  then show ?thesis using assms by (simp add: q_inv_defs heap_ids_def closing_ids_def)
qed

lemma q_inv_close:
  assumes "q_inv s" "q_disp s = DClosing req"
  shows "q_inv (close_ready req s)"
  using assms by (auto simp: q_inv_defs q_local_defs)

text \<open>The dispatcher's wake-ups, \<^verbatim>\<open>Stop\<close> and other users of the bucket leave the requests alone.\<close>

lemma q_inv_frame:
  assumes "q_inv s" "q_heap s' = q_heap s" "q_maxDepth s' = q_maxDepth s" "q_phase s' = q_phase s"
    and "q_ready s' = q_ready s" "q_granted s' = q_granted s" "closing_ids s' = closing_ids s"
    and "q_disp s' = DWaitEmpty \<Longrightarrow> q_disp s = DWaitEmpty \<and> q_notify s' = q_notify s"
  shows "q_inv s'"
proof (rule q_invI)
  note s = q_inv_fullD [OF assms(1)] and eqs = assms(2-7)
  have ids: "heap_ids s' = heap_ids s" by (simp add: heap_ids_def eqs)
  show "q_struct s'" using s unfolding q_struct_def eqs by blast
  show "q_account s'" using s unfolding q_account_def eqs ids by blast
  show "q_progress s'" using s assms(8) unfolding q_progress_def eqs by metis
qed

lemma q_inv_step: "qstep s t \<Longrightarrow> q_inv s \<Longrightarrow> q_inv t"
proof (induction rule: qstep.induct)
  case (sel_ready s rid req)
  then show ?case using q_inv_return [of s rid req EnqOk "q_heap s"] by simp
next
  case (sel_ctx s rid req)
  then show ?case
    using q_inv_return [of s rid req CtxErr "remove_req (q_heap s) req"] by (simp add: queue_remove_def)
next
  case (sel_done s rid req)
  then show ?case using q_inv_return [of s rid req ErrQueueStopped "q_heap s"] by simp
next
  case (wake_notify s d)
  then show ?case by - (rule q_inv_frame [of s], auto simp: closing_ids_def queue_Stop_def)
next
  case (wake_timer s d)
  then show ?case by - (rule q_inv_frame [of s], auto simp: closing_ids_def queue_Stop_def)
next
  case (wake_done s d)
  then show ?case by - (rule q_inv_frame [of s], auto simp: closing_ids_def queue_Stop_def)
next
  case (stop s)
  then show ?case by - (rule q_inv_frame [of s], auto simp: closing_ids_def queue_Stop_def)
next
  case (other_bucket_use s b)
  then show ?case by - (rule q_inv_frame [of s], auto simp: closing_ids_def queue_Stop_def)
qed (simp_all add: q_inv_enqueue q_inv_notify q_inv_round q_inv_close)

lemma q_inv_reach: "qreach (NewRequestQueue b d) s \<Longrightarrow> q_inv s"
  by (induction rule: qreach.induct) (auto intro: q_inv_step q_inv_init)

lemma q_maxDepth_step: "qstep s t \<Longrightarrow> q_maxDepth t = q_maxDepth s"
  by (induction rule: qstep.induct)
    (auto simp: q_defs split: prod.splits option.splits)

lemma q_maxDepth_reach: "qreach (NewRequestQueue b d) s \<Longrightarrow> q_maxDepth s = d"
  by (induction rule: qreach.induct) (auto simp: q_maxDepth_step NewRequestQueue_def)

lemma qreach_trans: "qreach s t \<Longrightarrow> qreach t u \<Longrightarrow> qreach s u"
  by (rotate_tac, induction rule: qreach.induct) (auto intro: qreach.step)

section \<open>Properties\<close>

text \<open>C5: in every state any interleaving of callers, dispatcher and shutdown can reach, the
  heap is well-formed and at most \<^verbatim>\<open>maxDepth\<close> requests wait, every caller whose
  \<^verbatim>\<open>Enqueue\<close> returned nil was let through by the dispatcher, and the number of such callers
  is at most the number of tokens the dispatcher took from the bucket.\<close>

theorem queue_safety:
  assumes "qreach (NewRequestQueue b d) s"
  shows "heap_inv (q_heap s) \<and> int (Depth s) \<le> max 0 d
    \<and> {i. q_phase s i = Some (Returned EnqOk)} \<subseteq> q_ready s
    \<and> card {i. q_phase s i = Some (Returned EnqOk)} \<le> q_granted s"
proof -
  note inv = q_inv_fullD [OF q_inv_reach [OF assms]]
  have sub: "{i. q_phase s i = Some (Returned EnqOk)} \<subseteq> q_ready s"
    using inv by (auto simp: q_account_def)
  moreover have "card {i. q_phase s i = Some (Returned EnqOk)} \<le> card (q_ready s)"
    using inv sub by (auto simp: q_account_def intro: card_mono)
  then have "card {i. q_phase s i = Some (Returned EnqOk)} \<le> q_granted s"
    using inv unfolding q_account_def by linarith
  moreover have "heap_inv (q_heap s) \<and> int (Depth s) \<le> max 0 d"
    using inv q_maxDepth_reach [OF assms] by (simp add: q_struct_def Depth_def)
  ultimately show ?thesis by blast
qed

text \<open>A run in which one caller comes, is let through and returns.\<close>

definition served_run :: qsys where
  "served_run =
     (let q0 = NewRequestQueue (NewTokenBucket (Fin 1) (Fin 1) (Fin 1) 0) 1; req = (7, PriorityHigh, 0);
          q1 = Enqueue_push 7 PriorityHigh 0 q0; q2 = Enqueue_notify 7 req q1;
          q3 = dispatch_round 0 q2; q4 = close_ready req q3
      in Enqueue_return 7 EnqOk q4)"

text \<open>A run in which a second caller finds no token and waits.\<close>

definition waiting_run :: qsys where
  "waiting_run =
     dispatch_round 0 (Enqueue_notify 8 (8, PriorityLow, 0) (Enqueue_push 8 PriorityLow 0 served_run))"

lemmas run_simps = NewRequestQueue_def NewTokenBucket_def q_defs TryConsume_eval pop_core_def
  heap_Push_def heap_Pop_def up.simps down.simps Push_last_def Pop_last_def Swap_def mk_request_def
  core_def

lemma served_run_eval:
  "served_run =
     \<lparr>q_heap = [], q_bucket = \<lparr>tokens = Fin 0, maxTokens = Fin 1, refillRate = Fin 1, lastRefill = 0,
                                 throttle = Fin 1\<rparr>,
      q_maxDepth = 1, q_done = False, q_notify = True, q_disp = DLoop,
      q_phase = [7 \<mapsto> Returned EnqOk], q_ready = {7}, q_granted = 1\<rparr>"
  by (simp add: served_run_def run_simps)

lemma waiting_run_eval:
  "waiting_run = served_run
     \<lparr>q_heap := [\<lparr>req_id = 8, priority = PriorityLow, enqueuedAt = 0, index = 0\<rparr>],
      q_disp := DWaitToken (100 * millisecond),
      q_phase := [7 \<mapsto> Returned EnqOk, 8 \<mapsto> Selecting (8, PriorityLow, 0)]\<rparr>"
  by (simp add: waiting_run_def served_run_eval run_simps duration_defs int64_of_float_def truncate_rat_def)

lemma served_run_reach: "qreach (NewRequestQueue (NewTokenBucket (Fin 1) (Fin 1) (Fin 1) 0) 1) served_run"
  unfolding served_run_def Let_def
  by (intro qreach.step [OF _ qstep.sel_ready [where req = "(7, PriorityHigh, 0)"]]
      qreach.step [OF _ qstep.close] qreach.step [OF _ qstep.round] qreach.step [OF _ qstep.notify]
      qreach.step [OF _ qstep.enqueue] qreach.init) (simp_all add: run_simps)

lemma waiting_run_reach: "qreach (NewRequestQueue (NewTokenBucket (Fin 1) (Fin 1) (Fin 1) 0) 1) waiting_run"
  unfolding waiting_run_def
  by (intro qreach.step [OF _ qstep.round] qreach.step [OF _ qstep.notify]
      qreach.step [OF _ qstep.enqueue] served_run_reach) (simp_all add: served_run_eval run_simps)

theorem queue_safety_witness:
  "card {i. q_phase waiting_run i = Some (Returned EnqOk)} \<le> q_granted waiting_run
   \<and> q_phase waiting_run 7 = Some (Returned EnqOk) \<and> Depth waiting_run = 1"
  using queue_safety [OF waiting_run_reach]
  by (simp add: waiting_run_eval served_run_eval Depth_def)

text \<open>The dispatcher can get back to the top of its loop without touching heap or bucket.\<close>

definition back_at_top :: "qsys \<Rightarrow> qsys \<Rightarrow> qsys \<Rightarrow> bool" where
  "back_at_top s u v \<longleftrightarrow> (s = u \<or> qstep s u) \<and> (u = v \<or> qstep u v)
     \<and> q_disp v = DLoop \<and> q_heap v = q_heap s \<and> q_bucket v = q_bucket s"

lemma back_at_top_one:
  "qstep s v \<Longrightarrow> q_disp v = DLoop \<Longrightarrow> q_heap v = q_heap s \<Longrightarrow> q_bucket v = q_bucket s \<Longrightarrow>
   \<exists>u v. back_at_top s u v"
  unfolding back_at_top_def by blast

lemma dispatcher_wakes:
  assumes "q_progress s" "q_heap s \<noteq> []" "q_disp s \<noteq> DStopped"
  shows "\<exists>u v. back_at_top s u v"
proof (cases "q_disp s")
  case DLoop
  then have "back_at_top s s s" by (simp add: back_at_top_def)
  then show ?thesis by blast
next
  case (DClosing req)
  then show ?thesis
    using back_at_top_one [OF qstep.close [OF DClosing]] by (simp add: close_ready_def)
next
  case (DWaitToken w)
  then show ?thesis using back_at_top_one [OF qstep.wake_timer [OF DWaitToken]] by simp
next
  case DWaitEmpty
  then consider "q_notify s" | i x where "q_phase s i = Some (Pushed x)"
    using assms by (auto simp: q_progress_def about_to_notify_def)
  then show ?thesis
  proof cases
    case 1
    then show ?thesis
      using back_at_top_one [OF qstep.wake_notify [of s]] DWaitEmpty by simp
  next
    case 2
    let ?u = "Enqueue_notify i x s"
    have "back_at_top s ?u (?u\<lparr>q_notify := False, q_disp := DLoop\<rparr>)"
      unfolding back_at_top_def
      using qstep.notify [OF 2] qstep.wake_notify [of ?u] DWaitEmpty
      by (simp add: Enqueue_notify_def)
    then show ?thesis by blast
  qed
qed (use assms in simp)

text \<open>C6: no accepted request is lost and no wake-up is lost. In every reachable state a caller
  that is past its push has its request in the heap, or its token has been taken for it; and
  while the dispatcher runs and requests wait, at most two steps, none of which touches the
  heap or the bucket, bring the dispatcher back to the top of its loop.\<close>

theorem queue_no_lost_request:
  assumes "qreach (NewRequestQueue b d) s"
  shows "(q_phase s i \<in> {Some (Pushed req), Some (Selecting req)} \<longrightarrow>
            req \<in> cores (q_heap s) \<or> i \<in> q_ready s \<or> i \<in> closing_ids s)
    \<and> (q_heap s \<noteq> [] \<and> q_disp s \<noteq> DStopped \<longrightarrow> (\<exists>u v. back_at_top s u v))"
proof -
  note inv = q_inv_fullD [OF q_inv_reach [OF assms]]
  then show ?thesis using dispatcher_wakes [of s] by (auto simp: q_progress_def)
qed

theorem queue_no_lost_request_witness:
  "(8, PriorityLow, 0) \<in> cores (q_heap waiting_run) \<and> (\<exists>u v. back_at_top waiting_run u v)"
  using queue_no_lost_request [OF waiting_run_reach, of 8 "(8, PriorityLow, 0)"]
  by (simp add: waiting_run_eval served_run_eval closing_ids_def)

text \<open>A round of the dispatcher with requests waiting and a token available lets through
  one of the waiting requests that no other precedes in (priority, time of arrival), takes
  exactly that one out of the heap, and keeps the others.\<close>

theorem dispatch_picks_first:
  assumes "qreach (NewRequestQueue b d) s" "q_disp s = DLoop" "q_heap s \<noteq> []"
    and "fst (fst (TryConsume (q_bucket s) t))"
  shows "\<exists>req. q_disp (dispatch_round t s) = DClosing req \<and> req \<in> cores (q_heap s)
    \<and> (\<forall>y \<in> cores (q_heap s). rank_core req \<le> rank_core y)
    \<and> cores (q_heap (dispatch_round t s)) = cores (q_heap s) - {req}
    \<and> q_granted (dispatch_round t s) = Suc (q_granted s)"
proof (cases rule: dispatch_round_cases [of s t])
  case (grant w b req h)
  note hi = q_inv_heapD [OF q_inv_reach [OF assms(1)]]
  note pop = pop_cores [OF conjunct1 [OF hi] grant(2)]
  have "cores h = cores (q_heap s) - {req}" using pop(2,4) hi by auto
  then show ?thesis using grant(3) pop by simp
qed (use assms in simp_all)

theorem dispatch_picks_first_witness:
  "\<exists>req. q_disp (dispatch_round 1000000000 (waiting_run\<lparr>q_disp := DLoop\<rparr>)) = DClosing req
     \<and> req \<in> cores (q_heap waiting_run)"
proof -
  let ?s = "waiting_run\<lparr>q_disp := DLoop\<rparr>"
  have reach: "qreach (NewRequestQueue (NewTokenBucket (Fin 1) (Fin 1) (Fin 1) 0) 1) ?s"
    by (rule qreach.step [OF waiting_run_reach], rule qstep.wake_timer)
      (simp add: waiting_run_eval served_run_eval)
  show ?thesis
    using dispatch_picks_first [OF reach, of 1000000000]
    by (auto simp: waiting_run_eval served_run_eval TryConsume_eval)
qed

end
