(* ===== verification/Limiter.thy ===== *)
theory Limiter
  imports RateTable RequestQueue Http
begin

text \<open>
  The registry of buckets (\<^verbatim>\<open>internal/ratelimit/limiter.go\<close>): one bucket and one queue per
  merchant, method and endpoint, one per method and endpoint for the whole application,
  created on first use with the published limits, dropped after \<open>ttl\<close> without use.

  A \<^verbatim>\<open>*TokenBucket\<close> is shared by its entry and its queue; here it lives in the queue's state,
  and is reached by the key of the entry. The two \<^verbatim>\<open>sync.Map\<close>s are maps; each method is
  one step.

  Shown: every bucket the limiter hands out is well-formed and can hold a whole token, and holds a number of
  tokens within its capacity unless it learned a rate that is not finite; merchants never share a
  bucket; use and collection of other entries leave an entry alone; with the default time to live a collected
  bucket was full, so that collecting it gives nobody extra tokens, unless it had learned a lower rate. A response
  whose rate header says \<^verbatim>\<open>NaN\<close> closes its bucket for good.
\<close>

record bucket_entry =
  be_queue :: qsys
  lastUsed :: time

record limiter =
  lm_buckets :: "string \<rightharpoonup> bucket_entry"
  lm_appBuckets :: "string \<rightharpoonup> bucket_entry"
  lm_throttle :: float64
  lm_queueMaxDepth :: int
  lm_done :: bool

definition NewLimiter :: "float64 \<Rightarrow> int \<Rightarrow> limiter" where
  "NewLimiter thr queueMaxDepth =
     \<lparr>lm_buckets = Map.empty, lm_appBuckets = Map.empty, lm_throttle = thr,
      lm_queueMaxDepth = queueMaxDepth, lm_done = False\<rparr>"

definition bucket_key :: "string \<Rightarrow> string \<Rightarrow> string \<Rightarrow> string" where
  "bucket_key merchantKey method ep = merchantKey @ '':'' @ method @ '':'' @ ep"

definition app_key :: "string \<Rightarrow> string \<Rightarrow> string" where
  "app_key method ep = method @ '':'' @ ep"

definition new_entry :: "bucket_params \<Rightarrow> float64 \<Rightarrow> int \<Rightarrow> time \<Rightarrow> bucket_entry" where
  "new_entry params thr depth t =
     \<lparr>be_queue = NewRequestQueue (NewTokenBucket (Fin (Rate params)) (Fin (Burst params)) thr t) depth,
      lastUsed = t\<rparr>"

definition GetBucket :: "limiter \<Rightarrow> string \<Rightarrow> string \<Rightarrow> string \<Rightarrow> time \<Rightarrow> token_bucket option \<times> limiter" where
  "GetBucket l merchantKey method ep t =
     (let key = bucket_key merchantKey method ep in
      case lm_buckets l key of
        Some entry \<Rightarrow>
          (Some (q_bucket (be_queue entry)),
           l\<lparr>lm_buckets := (lm_buckets l)(key \<mapsto> entry\<lparr>lastUsed := t\<rparr>)\<rparr>)
      | None \<Rightarrow>
          (case LookupDefaults method ep of
             None \<Rightarrow> (None, l)
           | Some params \<Rightarrow>
               (let entry = new_entry params (lm_throttle l) (lm_queueMaxDepth l) t in
                (Some (q_bucket (be_queue entry)), l\<lparr>lm_buckets := (lm_buckets l)(key \<mapsto> entry)\<rparr>))))"

definition GetAppBucket :: "limiter \<Rightarrow> string \<Rightarrow> string \<Rightarrow> time \<Rightarrow> token_bucket option \<times> limiter" where
  "GetAppBucket l method ep t =
     (let key = app_key method ep in
      case lm_appBuckets l key of
        Some entry \<Rightarrow>
          (Some (q_bucket (be_queue entry)),
           l\<lparr>lm_appBuckets := (lm_appBuckets l)(key \<mapsto> entry\<lparr>lastUsed := t\<rparr>)\<rparr>)
      | None \<Rightarrow>
          (case map_of AppBucketParams key of
             None \<Rightarrow> (None, l)
           | Some params \<Rightarrow>
               (let entry = new_entry params (Fin 1) (lm_queueMaxDepth l) t in
                (Some (q_bucket (be_queue entry)), l\<lparr>lm_appBuckets := (lm_appBuckets l)(key \<mapsto> entry)\<rparr>))))"

definition getQueue :: "limiter \<Rightarrow> string \<Rightarrow> string \<Rightarrow> string \<Rightarrow> qsys option" where
  "getQueue l merchantKey method ep =
     map_option be_queue (lm_buckets l (bucket_key merchantKey method ep))"

definition resolvePriority :: "header \<Rightarrow> PriorityLevel" where
  "resolvePriority h =
     (let v = to_lower (hdr_get h ''X-SP-Proxy-Priority'') in
      if v = ''high'' then PriorityHigh
      else if v = ''low'' then PriorityLow
      else PriorityNormal)"

text \<open>Changing the bucket of an entry, for the methods called through the pointer.\<close>

definition with_bucket :: "bucket_entry \<Rightarrow> token_bucket \<Rightarrow> bucket_entry" where
  "with_bucket e b = e\<lparr>be_queue := (be_queue e)\<lparr>q_bucket := b\<rparr>\<rparr>"

definition bucket_at :: "limiter \<Rightarrow> string \<Rightarrow> token_bucket option" where
  "bucket_at l key = map_option (q_bucket \<circ> be_queue) (lm_buckets l key)"

definition app_bucket_at :: "limiter \<Rightarrow> string \<Rightarrow> token_bucket option" where
  "app_bucket_at l key = map_option (q_bucket \<circ> be_queue) (lm_appBuckets l key)"

definition set_bucket :: "limiter \<Rightarrow> string \<Rightarrow> token_bucket \<Rightarrow> limiter" where
  "set_bucket l key b =
     l\<lparr>lm_buckets := (lm_buckets l)(key := map_option (\<lambda>e. with_bucket e b) (lm_buckets l key))\<rparr>"

definition set_app_bucket :: "limiter \<Rightarrow> string \<Rightarrow> token_bucket \<Rightarrow> limiter" where
  "set_app_bucket l key b =
     l\<lparr>lm_appBuckets := (lm_appBuckets l)(key := map_option (\<lambda>e. with_bucket e b) (lm_appBuckets l key))\<rparr>"

definition UpdateFromResponse ::
  "limiter \<Rightarrow> string \<Rightarrow> string \<Rightarrow> string \<Rightarrow> header \<Rightarrow> time \<Rightarrow> limiter" where
  "UpdateFromResponse l merchantKey method ep respHeader t =
     (let rateLimitHeader = hdr_get respHeader ''x-amzn-RateLimit-Limit'' in
      if rateLimitHeader = [] then l
      else case parse_float rateLimitHeader of
        None \<Rightarrow> l
      | Some rate \<Rightarrow>
          (case GetBucket l merchantKey method ep t of
             (None, l') \<Rightarrow> l'
           | (Some bucket, l') \<Rightarrow>
               set_bucket l' (bucket_key merchantKey method ep) (UpdateRate bucket rate)))"

text \<open>One tick of the collector. A collected queue is stopped; it leaves the map with it.\<close>

definition gc_map :: "time \<Rightarrow> (string \<rightharpoonup> bucket_entry) \<Rightarrow> (string \<rightharpoonup> bucket_entry)" where
  "gc_map cutoff m = (\<lambda>key. case m key of
     Some entry \<Rightarrow> if lastUsed entry < cutoff then None else Some entry
   | None \<Rightarrow> None)"

definition limiter_gc :: "limiter \<Rightarrow> duration \<Rightarrow> time \<Rightarrow> limiter" where
  "limiter_gc l ttl t =
     (let cutoff = t - ttl in
      l\<lparr>lm_buckets := gc_map cutoff (lm_buckets l),
        lm_appBuckets := gc_map cutoff (lm_appBuckets l)\<rparr>)"

definition BucketCount :: "limiter \<Rightarrow> nat" where
  "BucketCount l = card (dom (lm_buckets l))"

definition stop_entry :: "bucket_entry \<Rightarrow> bucket_entry" where
  "stop_entry e = e\<lparr>be_queue := queue_Stop (be_queue e)\<rparr>"

definition limiter_Stop :: "limiter \<Rightarrow> limiter" where
  "limiter_Stop l =
     l\<lparr>lm_done := True,
       lm_buckets := (\<lambda>k. map_option stop_entry (lm_buckets l k)),
       lm_appBuckets := (\<lambda>k. map_option stop_entry (lm_appBuckets l k))\<rparr>"

section \<open>Sequences of operations\<close>

text \<open>What callers do with a limiter: look buckets up, consume through the pointers, learn rates
  from responses; what the collector and the shutdown do.\<close>

datatype lim_op =
    LGet string string string
  | LGetApp string string
  | LConsume string
  | LConsumeApp string
  | LTokens string
  | LUpdate string string string header
  | LGc duration
  | LStop

fun lim_exec :: "limiter \<Rightarrow> time \<Rightarrow> lim_op \<Rightarrow> limiter" where
  "lim_exec l t (LGet mk m ep) = snd (GetBucket l mk m ep t)"
| "lim_exec l t (LGetApp m ep) = snd (GetAppBucket l m ep t)"
| "lim_exec l t (LConsume key) =
     (case bucket_at l key of None \<Rightarrow> l | Some b \<Rightarrow> set_bucket l key (snd (TryConsume b t)))"
| "lim_exec l t (LConsumeApp key) =
     (case app_bucket_at l key of None \<Rightarrow> l | Some b \<Rightarrow> set_app_bucket l key (snd (TryConsume b t)))"
| "lim_exec l t (LTokens key) =
     (case bucket_at l key of None \<Rightarrow> l | Some b \<Rightarrow> set_bucket l key (snd (Tokens b t)))"
| "lim_exec l t (LUpdate mk m ep h) = UpdateFromResponse l mk m ep h t"
| "lim_exec l t (LGc ttl) = limiter_gc l ttl t"
| "lim_exec l t LStop = limiter_Stop l"

fun lim_run :: "limiter \<Rightarrow> (time \<times> lim_op) list \<Rightarrow> limiter" where
  "lim_run l [] = l"
| "lim_run l ((t, c) # cs) = lim_run (lim_exec l t c) cs"

fun lim_times :: "time \<Rightarrow> (time \<times> lim_op) list \<Rightarrow> bool" where
  "lim_times s [] = True"
| "lim_times s ((t, c) # cs) = (s \<le> t \<and> lim_times t cs)"

text \<open>A response that teaches a finite rate, or none.\<close>

definition learns_finite :: "lim_op \<Rightarrow> bool" where
  "learns_finite c =
     (case c of
        LUpdate mk m ep h \<Rightarrow>
          (case parse_float (hdr_get h ''x-amzn-RateLimit-Limit'') of None \<Rightarrow> True | Some r \<Rightarrow> is_Fin r)
      | _ \<Rightarrow> True)"

text \<open>A bucket made from published parameters; \<open>fin\<close> says that only finite numbers went into it.\<close>

definition bucket_made :: "bool \<Rightarrow> bucket_params \<Rightarrow> float64 \<Rightarrow> time \<Rightarrow> token_bucket \<Rightarrow> bool" where
  "bucket_made fin p thr t b \<longleftrightarrow>
     bucket_sane (Burst p) b \<and> throttle b = thr \<and> lastRefill b \<le> t \<and> (fin \<longrightarrow> bucket_ok (Burst p) b \<and> rates_finite b)"

definition lim_ok :: "bool \<Rightarrow> time \<Rightarrow> limiter \<Rightarrow> bool" where
  "lim_ok fin t l \<longleftrightarrow>
     (\<forall>key b. bucket_at l key = Some b \<longrightarrow>
        (\<exists>mk m ep p. key = bucket_key mk m ep \<and> LookupDefaults m ep = Some p
           \<and> bucket_made fin p (lm_throttle l) t b))
     \<and> (\<forall>key b. app_bucket_at l key = Some b \<longrightarrow>
        (\<exists>p. map_of AppBucketParams key = Some p \<and> bucket_made True p (Fin 1) t b))"

lemma bucket_made_new:
  "params_ok p \<Longrightarrow> fin \<longrightarrow> is_Fin thr \<Longrightarrow> bucket_made fin p thr t (NewTokenBucket (Fin (Rate p)) (Fin (Burst p)) thr t)"
  by (auto simp: bucket_made_def params_ok_def NewTokenBucket_def bucket_ok_def bucket_sane_def rates_finite_def)

lemma bucket_made_later: "bucket_made fin p thr s b \<Longrightarrow> s \<le> t \<Longrightarrow> bucket_made fin p thr t b"
  by (auto simp: bucket_made_def)

lemma bucket_made_op:
  assumes "bucket_made fin p thr s b" "s \<le> t" "fin \<longrightarrow> op_finite c" "lastRefill b \<le> op_time b c" "op_time b c \<le> t"
    "throttle (snd (bucket_step b c)) = throttle b"
  shows "bucket_made fin p thr t (snd (bucket_step b c))"
  using assms step_sane [of "Burst p" b c] step_ok [of "Burst p" b c] by (auto simp: bucket_made_def)

lemma bucket_made_step:
  assumes "bucket_made fin p thr s b" "s \<le> t"
  shows "bucket_made fin p thr t (snd (TryConsume b t))" "bucket_made fin p thr t (snd (Tokens b t))"
    "fin \<longrightarrow> is_Fin r \<Longrightarrow> bucket_made fin p thr t (UpdateRate b r)"
  using bucket_made_op [OF assms, of "OpConsume t"] bucket_made_op [OF assms, of "OpTokens t"]
    bucket_made_op [OF assms, of "OpUpdate r"] assms
  by (auto simp: bucket_made_def op_finite_def TryConsume_def Tokens_def UpdateRate_def Let_def)

lemma lim_ok_later: "lim_ok fin s l \<Longrightarrow> s \<le> t \<Longrightarrow> lim_ok fin t l"
  unfolding lim_ok_def by (blast intro: bucket_made_later)

text \<open>How each accessor sees each update.\<close>

lemma bucket_at_simps [simp]:
  "bucket_at (set_bucket l k b) j =
     (if j = k then map_option (\<lambda>_. b) (bucket_at l k) else bucket_at l j)"
  "bucket_at (set_app_bucket l k b) j = bucket_at l j"
  "app_bucket_at (set_app_bucket l k b) j =
     (if j = k then map_option (\<lambda>_. b) (app_bucket_at l k) else app_bucket_at l j)"
  "app_bucket_at (set_bucket l k b) j = app_bucket_at l j"
  by (auto simp: bucket_at_def app_bucket_at_def set_bucket_def set_app_bucket_def with_bucket_def
      option.map_comp comp_def)

lemma lm_throttle_simps [simp]:
  "lm_throttle (set_bucket l k b) = lm_throttle l"
  "lm_throttle (set_app_bucket l k b) = lm_throttle l"
  by (simp_all add: set_bucket_def set_app_bucket_def)

lemma new_entry_bucket [simp]:
  "q_bucket (be_queue (new_entry p thr d t)) = NewTokenBucket (Fin (Rate p)) (Fin (Burst p)) thr t"
  by (simp add: new_entry_def NewRequestQueue_def)

lemma GetBucket_spec:
  fixes l mk m ep t
  defines "key \<equiv> bucket_key mk m ep" and "l' \<equiv> snd (GetBucket l mk m ep t)"
  shows "fst (GetBucket l mk m ep t) = bucket_at l' key"
    "bucket_at l' j =
      (if j = key \<and> bucket_at l key = None
       then map_option (\<lambda>p. NewTokenBucket (Fin (Rate p)) (Fin (Burst p)) (lm_throttle l) t) (LookupDefaults m ep)
       else bucket_at l j)"
    "app_bucket_at l' j = app_bucket_at l j" "lm_throttle l' = lm_throttle l"
  by (auto simp: key_def l'_def GetBucket_def Let_def bucket_at_def app_bucket_at_def
      split: option.splits)

lemma GetAppBucket_spec:
  fixes l m ep t
  defines "key \<equiv> app_key m ep" and "l' \<equiv> snd (GetAppBucket l m ep t)"
  shows "fst (GetAppBucket l m ep t) = app_bucket_at l' key"
    "app_bucket_at l' j =
      (if j = key \<and> app_bucket_at l key = None
       then map_option (\<lambda>p. NewTokenBucket (Fin (Rate p)) (Fin (Burst p)) (Fin 1) t) (map_of AppBucketParams key)
       else app_bucket_at l j)"
    "bucket_at l' j = bucket_at l j" "lm_throttle l' = lm_throttle l"
  by (auto simp: key_def l'_def GetAppBucket_def Let_def bucket_at_def app_bucket_at_def
      split: option.splits)

lemma bucket_at_gc:
  "bucket_at (limiter_gc l ttl t) k = bucket_at l k \<or> bucket_at (limiter_gc l ttl t) k = None"
  "app_bucket_at (limiter_gc l ttl t) k = app_bucket_at l k \<or> app_bucket_at (limiter_gc l ttl t) k = None"
  by (auto simp: limiter_gc_def gc_map_def bucket_at_def app_bucket_at_def Let_def split: option.splits)

lemma bucket_at_Stop [simp]:
  "bucket_at (limiter_Stop l) k = bucket_at l k" "app_bucket_at (limiter_Stop l) k = app_bucket_at l k"
  "lm_throttle (limiter_Stop l) = lm_throttle l" "lm_throttle (limiter_gc l ttl t) = lm_throttle l"
  by (auto simp: limiter_Stop_def stop_entry_def queue_Stop_def bucket_at_def app_bucket_at_def
      option.map_comp comp_def limiter_gc_def Let_def)

section \<open>The invariant\<close>

lemma lim_ok_NewLimiter: "lim_ok fin t (NewLimiter thr d)"
  by (simp add: lim_ok_def NewLimiter_def bucket_at_def app_bucket_at_def)

lemma lim_ok_GetBucket:
  "lim_ok fin t l \<Longrightarrow> fin \<longrightarrow> is_Fin (lm_throttle l) \<Longrightarrow> lim_ok fin t (snd (GetBucket l mk m ep t))"
  unfolding lim_ok_def GetBucket_spec
  by (auto split: if_splits intro!: bucket_made_new LookupDefaults_ok) (blast+)?

lemma lim_ok_GetAppBucket: "lim_ok fin t l \<Longrightarrow> lim_ok fin t (snd (GetAppBucket l m ep t))"
  unfolding lim_ok_def GetAppBucket_spec
  by (auto split: if_splits intro!: bucket_made_new AppBucketParams_ok)

text \<open>Replacing a bucket by one made from the same parameters.\<close>

lemma lim_ok_set_bucket:
  assumes "lim_ok fin t l" "bucket_at l k = Some b" "\<And>p thr. bucket_made fin p thr t b \<Longrightarrow> bucket_made fin p thr t b'"
  shows "lim_ok fin t (set_bucket l k b')"
  using assms unfolding lim_ok_def by (auto split: if_splits) blast

lemma lim_ok_set_app_bucket:
  assumes "lim_ok fin t l" "app_bucket_at l k = Some b" "\<And>p thr. bucket_made True p thr t b \<Longrightarrow> bucket_made True p thr t b'"
  shows "lim_ok fin t (set_app_bucket l k b')"
  using assms unfolding lim_ok_def by (auto split: if_splits) blast

lemma lim_ok_gc: "lim_ok fin t l \<Longrightarrow> lim_ok fin t (limiter_gc l ttl t)"
  unfolding lim_ok_def bucket_at_Stop using bucket_at_gc [of l ttl t] by (metis option.distinct(1))

lemma lim_ok_UpdateFromResponse:
  assumes "lim_ok fin t l" "fin \<longrightarrow> is_Fin (lm_throttle l) \<and> learns_finite (LUpdate mk m ep h)"
  shows "lim_ok fin t (UpdateFromResponse l mk m ep h t)"
  using lim_ok_GetBucket [of fin t l mk m ep] GetBucket_spec(1) [of l mk m ep t] assms
  by (auto simp: UpdateFromResponse_def learns_finite_def Let_def split: option.splits prod.splits
      intro!: lim_ok_set_bucket bucket_made_step(3) [OF _ order_refl])

lemma lim_ok_exec:
  assumes "lim_ok fin s l" "s \<le> t" "fin \<longrightarrow> is_Fin (lm_throttle l) \<and> learns_finite c"
  shows "lim_ok fin t (lim_exec l t c)"
  using lim_ok_later [OF assms(1,2)] assms(3)
  by (cases c) (auto simp: lim_ok_GetBucket lim_ok_GetAppBucket lim_ok_gc lim_ok_UpdateFromResponse
      split: option.splits intro!: lim_ok_set_bucket lim_ok_set_app_bucket
        bucket_made_step [OF _ order_refl], simp_all add: lim_ok_def)

lemma lm_throttle_exec: "lm_throttle (lim_exec l t x) = lm_throttle l"
  by (cases x) (auto simp: GetBucket_spec GetAppBucket_spec UpdateFromResponse_def Let_def
      split: option.splits prod.splits, (metis GetBucket_spec(4) snd_conv)+)

lemma lim_ok_run:
  "lim_ok fin s l \<Longrightarrow> lim_times s cs \<Longrightarrow> fin \<longrightarrow> is_Fin (lm_throttle l) \<and> list_all (learns_finite \<circ> snd) cs \<Longrightarrow>
     \<exists>t \<ge> s. lim_ok fin t (lim_run l cs)"
proof (induction cs arbitrary: s l)
  case (Cons c cs)
  obtain t x where c: "c = (t, x)" by (cases c)
  with Cons.prems have "s \<le> t" "lim_ok fin t (lim_exec l t x)" "lim_times t cs"
    using lim_ok_exec by auto
  with Cons.IH [of t "lim_exec l t x"] Cons.prems(3) c show ?case
    by (metis lim_run.simps(2) order_trans lm_throttle_exec list.pred_inject(2))
qed auto

lemma lim_throttle_run: "lm_throttle (lim_run l cs) = lm_throttle l"
  by (induction cs arbitrary: l rule: list.induct) (auto simp: lm_throttle_exec split: prod.splits)

section \<open>Keys\<close>

lemma bucket_key_inj:
  assumes "CHR '':'' \<notin> set m" "CHR '':'' \<notin> set m'" "CHR '':'' \<notin> set ep" "CHR '':'' \<notin> set ep'"
  shows "bucket_key mk m ep = bucket_key mk' m' ep' \<longleftrightarrow> mk = mk' \<and> m = m' \<and> ep = ep'"
proof -
  have "bucket_key mk m ep = bucket_key mk' m' ep' \<longleftrightarrow>
      (mk @ '':'' @ m) @ CHR '':'' # ep = (mk' @ '':'' @ m') @ CHR '':'' # ep'"
    by (simp add: bucket_key_def)
  also have "\<dots> \<longleftrightarrow> mk @ CHR '':'' # m = mk' @ CHR '':'' # m' \<and> ep = ep'"
    by (subst sep_right) (use assms in simp_all)
  also have "\<dots> \<longleftrightarrow> mk = mk' \<and> m = m' \<and> ep = ep'"
    by (subst sep_right) (use assms in simp_all)
  finally show ?thesis .
qed

section \<open>Properties\<close>

text \<open>C26: whatever sequence of lookups, consumptions, learned rates, collections and shutdown a
  limiter goes through, every bucket in it is one that the published limits give for the
  method and endpoint in its key: its capacity is the published burst, at least one token, and its rate is scaled by the
  configured factor, or by 1 for an application bucket. An application bucket always holds a number of tokens between 0 and
  the burst. A merchant's bucket does too as long as the factor and every rate learned from a response are finite
  numbers; otherwise its token count may be not-a-number.\<close>

theorem limiter_invariant:
  assumes "lim_times s cs" "l = lim_run (NewLimiter thr d) cs"
  shows "(\<forall>key b. bucket_at l key = Some b \<longrightarrow>
      (\<exists>mk m ep p. key = bucket_key mk m ep \<and> LookupDefaults m ep = Some p \<and> 1 \<le> Burst p
        \<and> maxTokens b = Fin (Burst p) \<and> throttle b = thr \<and> (tokens b = NaN \<or> bucket_ok (Burst p) b)
        \<and> (is_Fin thr \<and> list_all (learns_finite \<circ> snd) cs \<longrightarrow> bucket_ok (Burst p) b)))
    \<and> (\<forall>key b. app_bucket_at l key = Some b \<longrightarrow>
      (\<exists>p. map_of AppBucketParams key = Some p \<and> 1 \<le> Burst p \<and> throttle b = Fin 1 \<and> bucket_ok (Burst p) b))"
proof -
  define fin where "fin = (is_Fin thr \<and> list_all (learns_finite \<circ> snd) cs)"
  have thr: "lm_throttle (NewLimiter thr d) = thr" by (simp add: NewLimiter_def)
  obtain t where ok: "lim_ok fin t l"
    using lim_ok_run [OF lim_ok_NewLimiter assms(1), of fin thr d] thr by (auto simp: fin_def assms(2))
  have "lm_throttle l = thr" by (simp add: assms(2) lim_throttle_run thr)
  with ok show ?thesis
    unfolding lim_ok_def bucket_made_def bucket_sane_def fin_def
    by (metis LookupDefaults_ok AppBucketParams_ok params_ok_def)
qed

definition demo_ops :: "(time \<times> lim_op) list" where
  "demo_ops = [(0, LGet ''A'' ''POST'' ''/feeds/2021-06-30/feeds''),
     (1, LConsume (bucket_key ''A'' ''POST'' ''/feeds/2021-06-30/feeds''))]"

lemma demo_bucket:
  "bucket_at (lim_run (NewLimiter (Fin (4/5)) 100) demo_ops)
       (bucket_key ''A'' ''POST'' ''/feeds/2021-06-30/feeds'')
     = Some \<lparr>tokens = Fin 14, maxTokens = Fin 15, refillRate = Fin (83 / 10000), lastRefill = 1, throttle = Fin (4/5)\<rparr>"
proof -
  have "LookupDefaults ''POST'' ''/feeds/2021-06-30/feeds'' = Some \<lparr>Rate = 83 / 10000, Burst = 15\<rparr>"
    by (simp add: LookupDefaults_def MethodBucketOverrides_def)
  then show ?thesis
    by (simp add: demo_ops_def GetBucket_spec split: option.splits)
      (simp add: NewLimiter_def bucket_at_def NewTokenBucket_def TryConsume_eval)
qed

theorem limiter_invariant_witness:
  "\<exists>mk m ep p. bucket_key ''A'' ''POST'' ''/feeds/2021-06-30/feeds'' = bucket_key mk m ep
    \<and> LookupDefaults m ep = Some p \<and> Burst p = 15
    \<and> bucket_ok (Burst p) \<lparr>tokens = Fin 14, maxTokens = Fin 15, refillRate = Fin (83 / 10000), lastRefill = 1, throttle = Fin (4/5)\<rparr>"
proof -
  have "lim_times 0 demo_ops" "list_all (learns_finite \<circ> snd) demo_ops" by (simp_all add: demo_ops_def learns_finite_def)
  with limiter_invariant [OF _ refl, of 0 demo_ops "Fin (4/5)" 100] demo_bucket show ?thesis by fastforce
qed

text \<open>A response whose rate header says \<^verbatim>\<open>NaN\<close>, in any letter case, closes the bucket for good: \<^verbatim>\<open>strconv.ParseFloat\<close>
  accepts it, nothing rejects it, and from then on no request of that merchant to that endpoint gets a token, whatever rates
  later responses carry. The wait that a refused caller is told is the least \<^verbatim>\<open>int64\<close>, which a timer takes for none.\<close>

theorem NaN_header_blocks:
  assumes "hdr_get h ''x-amzn-RateLimit-Limit'' = ''NaN''" "lim_ok fin t l" "LookupDefaults m ep \<noteq> None"
  shows "\<exists>b. bucket_at (UpdateFromResponse l mk m ep h t) (bucket_key mk m ep) = Some b \<and>
    fst (TryConsume b u) = (False, - (2 ^ 63)) \<and> granted (snd (TryConsume b u)) cs = 0"
proof -
  obtain b l' where g: "GetBucket l mk m ep t = (Some b, l')" "bucket_at l' (bucket_key mk m ep) = Some b"
    using GetBucket_spec(1,2) [of l mk m ep t] assms(3)
    by (cases "GetBucket l mk m ep t") (auto split: if_splits option.splits)
  have "lim_ok False t l'"
    using lim_ok_GetBucket [of False t l mk m ep] assms(2) g(1) by (auto simp: lim_ok_def bucket_made_def) blast+
  then obtain m' where m: "maxTokens b = Fin m'"
    using g(2) unfolding lim_ok_def bucket_made_def bucket_sane_def by metis
  let ?b = "UpdateRate b NaN"
  have at: "bucket_at (UpdateFromResponse l mk m ep h t) (bucket_key mk m ep) = Some ?b"
    using g assms(1) by (simp add: UpdateFromResponse_def parse_float_special)
  have r: "refillRate ?b = NaN" "maxTokens ?b = Fin m'" using m by (simp_all add: UpdateRate_def)
  then have "tokens (refill ?b u) = NaN" using refill_NaN effectiveRate_NaN by metis
  then have "fst (TryConsume ?b u) = (False, - (2 ^ 63))" by (simp add: TryConsume_def int64_of_float_def)
  then show ?thesis using at NaN_rate_blocks [OF _ r(2), of u cs] r(1) by blast
qed

text \<open>C27: merchants do not share rate limits. What one merchant does with its bucket (look it up,
  consume from it, learn a rate from a response) leaves the bucket of any other merchant,
  method or endpoint exactly as it was.\<close>

theorem merchant_isolation:
  assumes "LookupDefaults m ep \<noteq> None" "LookupDefaults m' ep' \<noteq> None"
    and "CHR '':'' \<notin> set m" "CHR '':'' \<notin> set m'" "(mk, m, ep) \<noteq> (mk', m', ep')"
  shows "bucket_at (lim_exec (lim_exec (lim_exec l t1 (LGet mk m ep))
            t2 (LConsume (bucket_key mk m ep))) t3 (LUpdate mk m ep h)) (bucket_key mk' m' ep')
       = bucket_at l (bucket_key mk' m' ep')"
proof -
  have "CHR '':'' \<notin> set ep" "CHR '':'' \<notin> set ep'"
    using assms LookupDefaults_no_colon by blast+
  with assms have ne: "bucket_key mk' m' ep' \<noteq> bucket_key mk m ep"
    using bucket_key_inj [of m m' ep ep' mk mk'] by metis
  have upd: "bucket_at (UpdateFromResponse l mk m ep h t3) (bucket_key mk' m' ep')
      = bucket_at l (bucket_key mk' m' ep')" for l
    using GetBucket_spec(1,2) [of l mk m ep t3] ne
    by (auto simp: UpdateFromResponse_def Let_def split: option.splits prod.splits if_splits)
  show ?thesis using ne by (simp add: upd GetBucket_spec split: option.splits)
qed

theorem merchant_isolation_witness:
  "bucket_at (lim_exec (lim_exec (lim_exec (NewLimiter (Fin 1) 1) 0 (LGet ''A'' ''POST'' ''/feeds/2021-06-30/feeds''))
      0 (LConsume (bucket_key ''A'' ''POST'' ''/feeds/2021-06-30/feeds'')))
      0 (LUpdate ''A'' ''POST'' ''/feeds/2021-06-30/feeds'' []))
      (bucket_key ''B'' ''POST'' ''/feeds/2021-06-30/feeds'')
   = bucket_at (NewLimiter (Fin 1) 1) (bucket_key ''B'' ''POST'' ''/feeds/2021-06-30/feeds'')"
proof -
  have "LookupDefaults ''POST'' ''/feeds/2021-06-30/feeds'' \<noteq> None"
    by (simp add: LookupDefaults_def MethodBucketOverrides_def)
  then show ?thesis by (intro merchant_isolation) simp_all
qed

lemma idle_full:
  assumes "params_ok p" "throttle b = Fin f" "1 / 2 \<le> f" "refillRate b = Fin r" "Rate p \<le> r" "bucket_ok (Burst p) b"
    and "lastRefill b + 2 * hour \<le> t"
  shows "tokens (refill b t) = Fin (Burst p)" "effectiveRate b = Fin (r * f)" "0 < f"
proof -
  have rate: "0 < Rate p" "1 \<le> Burst p" "Burst p \<le> 3600 * Rate p"
    using assms(1) by (simp_all add: params_ok_def)
  show f: "0 < f" using assms(3) by linarith
  have "Rate p * (1 / 2) \<le> r * f" using rate(1) assms(3,5) f by (intro mult_mono) simp_all
  then have half: "Rate p / 2 \<le> r * f" by simp
  then have "0 < r * f" using rate(1) by linarith
  then show e: "effectiveRate b = Fin (r * f)" by (simp add: effectiveRate_def assms(2,4))
  obtain k where k: "tokens b = Fin k" "0 \<le> k" "maxTokens b = Fin (Burst p)"
    using assms(6) by (auto simp: bucket_ok_def)
  have "of_int (2 * hour) \<le> (of_int (t - lastRefill b) :: rat)" using assms(7) by linarith
  then have "7200 \<le> seconds (t - lastRefill b)" by (simp add: seconds_def duration_defs)
  then have "7200 * (Rate p / 2) \<le> seconds (t - lastRefill b) * (r * f)"
    using half rate(1) by (intro mult_mono) simp_all
  then have "Burst p \<le> k + seconds (t - lastRefill b) * (r * f)"
    using rate(3) k(2) by linarith
  then show "tokens (refill b t) = Fin (Burst p)" using refill_Fin [OF k(3,1) e, of t] by simp
qed

text \<open>C28: collecting an idle bucket gives nobody extra tokens, with the default time to live of two hours and a throttle factor of at
  least one half (the default is 0.8), if the bucket holds a number of tokens and the rate it refills at is the published
  one or a higher one learned from a response. Then a call on the bucket that replaces it gets the answer that a call on the old one
  would have got and leaves as many tokens, and the new bucket refills no faster. If no other rate was learned, the two
  buckets are the same after the call.\<close>

theorem gc_transparent:
  assumes "lm_buckets l (bucket_key mk m ep) = Some e" "LookupDefaults m ep = Some p" "b = q_bucket (be_queue e)"
    and "bucket_ok (Burst p) b" "throttle b = lm_throttle l" "lastRefill b \<le> t - 2 * hour" "lastUsed e < t - 2 * hour"
    and "refillRate b = Fin r" "Rate p \<le> r" "lm_throttle l = Fin f" "1 / 2 \<le> f"
  shows "bucket_at (limiter_gc l (2 * hour) t) (bucket_key mk m ep) = None
    \<and> (\<exists>b'. bucket_at (snd (GetBucket (limiter_gc l (2 * hour) t) mk m ep t)) (bucket_key mk m ep) = Some b'
           \<and> fst (TryConsume b' t) = fst (TryConsume b t) \<and> tokens (snd (TryConsume b' t)) = tokens (snd (TryConsume b t))
           \<and> effectiveRate b' \<le> effectiveRate b \<and> (r = Rate p \<longrightarrow> snd (TryConsume b' t) = snd (TryConsume b t)))"
proof -
  let ?new = "NewTokenBucket (Fin (Rate p)) (Fin (Burst p)) (lm_throttle l) t"
  have p: "params_ok p" "0 < Rate p" "1 \<le> Burst p"
    using LookupDefaults_ok [OF assms(2)] by (simp_all add: params_ok_def)
  have gone: "bucket_at (limiter_gc l (2 * hour) t) (bucket_key mk m ep) = None"
    using assms(1,7) by (simp add: limiter_gc_def gc_map_def bucket_at_def Let_def)
  have th: "throttle b = Fin f" using assms(5,10) by simp
  have "lastRefill b + 2 * hour \<le> t" using assms(6) by linarith
  note full = idle_full [OF p(1) th assms(11,8,9,4) this]
  have new: "refill ?new t = ?new" "tokens ?new = Fin (Burst p)" "effectiveRate ?new = Fin (Rate p * f)"
    using p full(3) assms(10) by (simp_all add: refill_def NewTokenBucket_def effectiveRate_def not_le mult_pos_pos)
  have t: "TryConsume ?new t = ((True, 0), ?new\<lparr>tokens := Fin (Burst p - 1)\<rparr>)"
    "TryConsume b t = ((True, 0), (refill b t)\<lparr>tokens := Fin (Burst p - 1)\<rparr>)"
    using p(3) new full(1) by (simp_all add: TryConsume_def)
  have "refill b t = ?new" if "r = Rate p"
    using full(1) that assms(4,5,8) p(3) by (simp add: refill_def NewTokenBucket_def bucket_ok_def)
  moreover have "effectiveRate ?new \<le> effectiveRate b"
    using assms(9) full(2,3) new(3) by (simp add: mult_right_mono)
  moreover have "bucket_at (snd (GetBucket (limiter_gc l (2 * hour) t) mk m ep t)) (bucket_key mk m ep) = Some ?new"
    using gone assms(2) by (simp add: GetBucket_spec)
  ultimately show ?thesis using gone t by (intro conjI exI [of _ ?new]) simp_all
qed

theorem gc_transparent_witness:
  "\<exists>b. bucket_at (snd (GetBucket (limiter_gc (lim_run (NewLimiter (Fin (4/5)) 100) demo_ops)
          (2 * hour) (3 * hour)) ''A'' ''POST'' ''/feeds/2021-06-30/feeds'' (3 * hour)))
        (bucket_key ''A'' ''POST'' ''/feeds/2021-06-30/feeds'') = Some b
     \<and> snd (TryConsume b (3 * hour)) = snd (TryConsume \<lparr>tokens = Fin 14, maxTokens = Fin 15, refillRate = Fin (83 / 10000),
          lastRefill = 1, throttle = Fin (4/5)\<rparr> (3 * hour))"
proof -
  let ?l = "lim_run (NewLimiter (Fin (4/5)) 100) demo_ops"
  let ?k = "bucket_key ''A'' ''POST'' ''/feeds/2021-06-30/feeds''"
  let ?b = "\<lparr>tokens = Fin 14, maxTokens = Fin 15, refillRate = Fin (83 / 10000), lastRefill = 1, throttle = Fin (4/5)\<rparr>"
  let ?p = "\<lparr>Rate = 83 / 10000, Burst = 15\<rparr>"
  have look: "LookupDefaults ''POST'' ''/feeds/2021-06-30/feeds'' = Some ?p"
    by (simp add: LookupDefaults_def MethodBucketOverrides_def)
  obtain e0 where e0: "lm_buckets ?l ?k = Some e0" "?b = q_bucket (be_queue e0)" "lastUsed e0 = 0"
    using demo_bucket
    by (auto simp: bucket_at_def demo_ops_def GetBucket_def look NewLimiter_def set_bucket_def
        with_bucket_def new_entry_def Let_def split: option.splits)
  have thr: "lm_throttle ?l = Fin (4/5)" by (simp add: lim_throttle_run) (simp add: NewLimiter_def)
  have "bucket_ok (Burst ?p) ?b" "throttle ?b = lm_throttle ?l" "lastRefill ?b \<le> 3 * hour - 2 * hour"
    "lastUsed e0 < 3 * hour - 2 * hour" "refillRate ?b = Fin (83 / 10000)" "Rate ?p \<le> 83 / 10000" "1 / 2 \<le> (4 / 5 :: rat)"
    by (simp_all add: bucket_ok_def thr e0(3) duration_defs)
  from gc_transparent [OF e0(1) look e0(2) this(1-6) thr this(7)] show ?thesis by fastforce
qed

text \<open>A bucket that learned a rate below the published one loses it when it is collected, and the bucket that replaces it is full: here
  a rate of zero, learned with no token left, would keep the caller out after three hours, and the collection lets it in.\<close>

theorem gc_forgets_learned_rate:
  fixes l :: limiter
  defines "b \<equiv> \<lparr>tokens = Fin 0, maxTokens = Fin 15, refillRate = Fin 0, lastRefill = 0, throttle = Fin (4/5)\<rparr>"
  assumes "lm_buckets l (bucket_key mk ''POST'' ''/feeds/2021-06-30/feeds'') = Some e" "q_bucket (be_queue e) = b" "lastUsed e = 0"
  shows "\<not> fst (fst (TryConsume b (3 * hour)))
    \<and> (\<exists>b'. bucket_at (snd (GetBucket (limiter_gc l (2 * hour) (3 * hour)) mk ''POST'' ''/feeds/2021-06-30/feeds'' (3 * hour)))
          (bucket_key mk ''POST'' ''/feeds/2021-06-30/feeds'') = Some b' \<and> tokens b' = Fin 15)"
proof
  have look: "LookupDefaults ''POST'' ''/feeds/2021-06-30/feeds'' = Some \<lparr>Rate = 83 / 10000, Burst = 15\<rparr>"
    by (simp add: LookupDefaults_def MethodBucketOverrides_def)
  show "\<not> fst (fst (TryConsume b (3 * hour)))" by (simp add: b_def TryConsume_eval duration_defs)
  have "bucket_at (limiter_gc l (2 * hour) (3 * hour)) (bucket_key mk ''POST'' ''/feeds/2021-06-30/feeds'') = None"
    using assms(2,4) by (simp add: limiter_gc_def gc_map_def bucket_at_def Let_def duration_defs)
  then show "\<exists>b'. bucket_at (snd (GetBucket (limiter_gc l (2 * hour) (3 * hour)) mk ''POST'' ''/feeds/2021-06-30/feeds'' (3 * hour)))
          (bucket_key mk ''POST'' ''/feeds/2021-06-30/feeds'') = Some b' \<and> tokens b' = Fin 15"
    by (simp add: GetBucket_spec look NewTokenBucket_def)
qed

end
