(* ===== verification/RateLimit.thy ===== *)
theory RateLimit
  imports Limiter Merchant
begin

text \<open>
  The rate-limit middleware (\<^verbatim>\<open>internal/ratelimit/middleware.go\<close>): which throttle mode and
  timeout apply to a request, the wait for an application-wide token, and the three ways to
  serve a request whose own bucket is empty.

  Two places block. The wait for an application token is a loop that its timers wake up any
  finite number of times until its context ends, as it must: it has a deadline.
  \<^verbatim>\<open>EnqueueAndWait\<close> takes a schedule: what the callers and the dispatcher of the queue do until
  this caller returns. Other requests act on the limiter meanwhile.

  Shown: the header can make the outcome stricter, never laxer; the timeout never exceeds the
  operator's; every request is either forwarded once, after its tokens were taken, or answered
  with 429 or 499.
\<close>

record rl_config =
  rl_Enabled :: bool
  rl_DefaultMode :: string
  rl_QueueTimeout :: string
  rl_QueueMaxDepth :: int
  rl_ThrottleFactor :: float64
  rl_BucketTTL :: string
  rl_MerchantModes :: "(string \<rightharpoonup> string) option"
  rl_EndpointModes :: "(string \<rightharpoonup> string) option"

datatype ThrottleMode = ThrottleModeQueue | ThrottleModeReject | ThrottleModeQueueTimeout

text \<open>\<open>None\<close> is the empty mode.\<close>

definition parseThrottleMode :: "string \<Rightarrow> ThrottleMode option" where
  "parseThrottleMode s =
     (let l = to_lower s in
      if l = ''reject'' then Some ThrottleModeReject
      else if l = ''queue'' then Some ThrottleModeQueue
      else if l = ''queue-timeout'' then Some ThrottleModeQueueTimeout
      else if has_prefix l ''queue-timeout'' then Some ThrottleModeQueueTimeout
      else None)"

text \<open>One map of overrides: a nil map, a missing key and an unknown mode all leave the mode.\<close>

definition override_mode :: "(string \<rightharpoonup> string) option \<Rightarrow> string \<Rightarrow> ThrottleMode \<Rightarrow> ThrottleMode" where
  "override_mode modes k cur =
     (case modes of None \<Rightarrow> cur
      | Some ms \<Rightarrow>
          (case ms k of None \<Rightarrow> cur
           | Some mode \<Rightarrow> (case parseThrottleMode mode of None \<Rightarrow> cur | Some m \<Rightarrow> m)))"

definition operator_mode :: "string \<Rightarrow> string \<Rightarrow> rl_config \<Rightarrow> ThrottleMode" where
  "operator_mode merchantKey ep cfg =
     (let m0 = ThrottleModeQueue;
          m1 = override_mode (rl_MerchantModes cfg) merchantKey m0;
          m2 = override_mode (rl_EndpointModes cfg) ep m1
      in if m2 = ThrottleModeQueue
         then (case parseThrottleMode (rl_DefaultMode cfg) of None \<Rightarrow> m2 | Some m \<Rightarrow> m)
         else m2)"

definition resolveThrottleMode :: "header \<Rightarrow> string \<Rightarrow> string \<Rightarrow> rl_config \<Rightarrow> ThrottleMode" where
  "resolveThrottleMode h merchantKey ep cfg =
     (let operatorMode = operator_mode merchantKey ep cfg;
          hv = hdr_get h ''X-SP-Proxy-Throttle-Mode''
      in if hv \<noteq> [] then
           (case parseThrottleMode hv of
              Some requested \<Rightarrow>
                if operatorMode = ThrottleModeReject \<and> requested \<noteq> ThrottleModeReject
                then ThrottleModeReject else requested
            | None \<Rightarrow> operatorMode)
         else operatorMode)"

text \<open>\<^verbatim>\<open>cfgMax, _ := time.ParseDuration(...)\<close>: the duration is 0 on an error.\<close>

definition resolveTimeout :: "header \<Rightarrow> rl_config \<Rightarrow> duration" where
  "resolveTimeout h cfg =
     (let parsed = (case parse_duration (rl_QueueTimeout cfg) of None \<Rightarrow> 0 | Some d \<Rightarrow> d);
          cfgMax = (if parsed \<le> 0 then 1 * second else parsed);
          hv = hdr_get h ''X-SP-Proxy-Throttle-Mode''
      in if hv = [] then cfgMax
         else case split_n2 (CHR '':'') hv of
           [_, suffix] \<Rightarrow>
             (case parse_duration (suffix @ ''ms'') of
                Some d \<Rightarrow> if d > 0 then (if d > cfgMax then cfgMax else d) else cfgMax
              | None \<Rightarrow> cfgMax)
         | _ \<Rightarrow> cfgMax)"

section \<open>The world of the middleware and its schedule\<close>

record lim_world = world +
  lim :: limiter

text \<open>What a caller of \<^verbatim>\<open>Enqueue\<close> learns: the result, whether a context error is
  \<^verbatim>\<open>context.Canceled\<close> (otherwise the deadline passed), and whether the client's own context is
  done when it returns.\<close>

record wait_out =
  wo_result :: enq_result
  wo_canceled :: bool
  wo_gone :: bool

type_synonym 'w enq_schedule = "string \<Rightarrow> PriorityLevel \<Rightarrow> duration option \<Rightarrow> 'w \<Rightarrow> wait_out \<times> 'w"

text \<open>What the select of \<^verbatim>\<open>waitForAppBucket\<close> sees: timers, each with what happened to the world
  until it fired, then the end of the context. \<open>env_client_gone\<close> tells, of a world, whether \<^verbatim>\<open>r.Context()\<close> is done in it.\<close>

record 'w rl_env =
  env_enqueue :: "'w enq_schedule"
  env_timers :: "('w \<Rightarrow> 'w) list"
  env_ctx_end :: "'w \<Rightarrow> 'w"
  env_client_gone :: "'w \<Rightarrow> bool"

definition EnqueueAndWait ::
  "('a lim_world_scheme) rl_env \<Rightarrow> duration option \<Rightarrow> string \<Rightarrow> string \<Rightarrow> string \<Rightarrow> header \<Rightarrow>
     'a lim_world_scheme \<Rightarrow> wait_out \<times> 'a lim_world_scheme" where
  "EnqueueAndWait env deadline merchantKey method ep h s =
     (case getQueue (lim s) merchantKey method ep of
        None \<Rightarrow> (\<lparr>wo_result = ErrQueueFull, wo_canceled = False, wo_gone = env_client_gone env s\<rparr>, s)
      | Some q \<Rightarrow>
          env_enqueue env (bucket_key merchantKey method ep) (resolvePriority h) deadline s)"

definition ms_since :: "time \<Rightarrow> time \<Rightarrow> string" where
  "ms_since start t = string_of_int ((t - start) div millisecond)"

section \<open>The application-wide limit\<close>

text \<open>The bucket behind a pointer: the entry's, or the one last seen if the entry was collected.\<close>

definition deref :: "token_bucket option \<Rightarrow> token_bucket \<Rightarrow> token_bucket" where
  "deref cur seen = (case cur of Some b \<Rightarrow> b | None \<Rightarrow> seen)"

text \<open>\<^verbatim>\<open>appBucket.TryConsume()\<close>, \<^verbatim>\<open>bucket.TryConsume()\<close> and \<^verbatim>\<open>bucket.Tokens()\<close> through the
  pointers.\<close>

definition app_try ::
  "string \<Rightarrow> token_bucket \<Rightarrow> 'a lim_world_scheme \<Rightarrow> (bool \<times> duration) \<times> 'a lim_world_scheme" where
  "app_try key seen s =
     (case TryConsume (deref (app_bucket_at (lim s) key) seen) (now s) of
        (res, b) \<Rightarrow> (res, s\<lparr>lim := set_app_bucket (lim s) key b\<rparr>))"

definition bucket_try ::
  "string \<Rightarrow> token_bucket \<Rightarrow> 'a lim_world_scheme \<Rightarrow> (bool \<times> duration) \<times> 'a lim_world_scheme" where
  "bucket_try key seen s =
     (case TryConsume (deref (bucket_at (lim s) key) seen) (now s) of
        (res, b) \<Rightarrow> (res, s\<lparr>lim := set_bucket (lim s) key b\<rparr>))"

definition bucket_tokens ::
  "string \<Rightarrow> token_bucket \<Rightarrow> 'a lim_world_scheme \<Rightarrow> float64 \<times> 'a lim_world_scheme" where
  "bucket_tokens key seen s =
     (case Tokens (deref (bucket_at (lim s) key) seen) (now s) of
        (n, b) \<Rightarrow> (n, s\<lparr>lim := set_bucket (lim s) key b\<rparr>))"

text \<open>The \<^verbatim>\<open>for\<close> loop, and the branch of its select on the context.\<close>

definition app_timeout ::
  "'a lim_world_scheme rl_env \<Rightarrow> time \<Rightarrow> duration \<Rightarrow> rw \<Rightarrow> 'a lim_world_scheme \<Rightarrow>
     bool \<times> rw \<times> 'a lim_world_scheme" where
  "app_timeout env queueStart appWait w s1 =
     (let s = env_ctx_end env s1;
          w1 = w_set w ''X-SP-Proxy-Queued'' ''true'';
          w2 = w_set w1 ''X-SP-Proxy-Queue-Wait-Ms'' (ms_since queueStart (now s))
      in if env_client_gone env s
         then (False,
               w_write_header (w_set w2 ''X-SP-Proxy-Error-Reason'' ''client_disconnected_in_queue'') 499,
               s)
         else (False,
               http_error (w_set w2 ''Retry-After'' (fmt_fixed 1 (seconds appWait)))
                 ''Application rate limit queue timeout'' 429,
               s))"

fun app_loop ::
  "'a lim_world_scheme rl_env \<Rightarrow> string \<Rightarrow> token_bucket \<Rightarrow> time \<Rightarrow>
     ('a lim_world_scheme \<Rightarrow> 'a lim_world_scheme) list \<Rightarrow> rw \<Rightarrow> 'a lim_world_scheme \<Rightarrow>
     bool \<times> rw \<times> 'a lim_world_scheme" where
  "app_loop env key seen queueStart [] w s =
     (case app_try key seen s of
        ((appAllowed, appWait), s1) \<Rightarrow>
          if appAllowed then (True, w, s1) else app_timeout env queueStart appWait w s1)"
| "app_loop env key seen queueStart (timer # timers) w s =
     (case app_try key seen s of
        ((appAllowed, appWait), s1) \<Rightarrow>
          if appAllowed then (True, w, s1) else app_loop env key seen queueStart timers w (timer s1))"

definition waitForAppBucket ::
  "'a lim_world_scheme rl_env \<Rightarrow> rl_config \<Rightarrow> request \<Rightarrow> string \<Rightarrow> string \<Rightarrow> string \<Rightarrow> rw \<Rightarrow>
     'a lim_world_scheme \<Rightarrow> bool \<times> rw \<times> 'a lim_world_scheme" where
  "waitForAppBucket env cfg r merchantKey method ep w s =
     (case GetAppBucket (lim s) method ep (now s) of
        (None, l) \<Rightarrow> (True, w, s\<lparr>lim := l\<rparr>)
      | (Some appBucket, l) \<Rightarrow>
          (let key = app_key method ep in
           case app_try key appBucket (s\<lparr>lim := l\<rparr>) of
             ((appAllowed, appWait), s1) \<Rightarrow>
               if appAllowed then (True, w, s1)
               else if resolveThrottleMode (r_header r) merchantKey ep cfg = ThrottleModeReject
               then (False,
                     http_error (w_set w ''Retry-After'' (fmt_fixed 1 (seconds appWait)))
                       ''Application rate limit exceeded'' 429,
                     s1)
               else app_loop env key appBucket (now s1) (env_timers env) w s1))"

section \<open>Serving a request whose bucket is empty\<close>

definition serveQueued ::
  "'a lim_world_scheme rl_env \<Rightarrow> 'a lim_world_scheme handler \<Rightarrow> token_bucket \<Rightarrow> time \<Rightarrow> duration option \<Rightarrow>
     string \<Rightarrow> string \<Rightarrow> string \<Rightarrow> string \<Rightarrow> 'a lim_world_scheme handler" where
  "serveQueued env nxt bucket queueStart deadline merchantKey method ep retryAfter r w s =
     (case EnqueueAndWait env deadline merchantKey method ep (r_header r) s of
        (out, s1) \<Rightarrow>
          (let w1 = w_set (w_set w ''X-SP-Proxy-Queued'' ''true'')
                      ''X-SP-Proxy-Queue-Wait-Ms'' (ms_since queueStart (now s1))
           in if wo_result out \<noteq> EnqOk then
                (if wo_gone out \<or> (wo_result out = CtxErr \<and> wo_canceled out) then
                   (w_write_header (w_set w1 ''X-SP-Proxy-Error-Reason'' ''client_disconnected_in_queue'') 499,
                    r_header r, s1)
                 else if retryAfter \<noteq> [] then
                   (http_error (w_set w1 ''Retry-After'' retryAfter) ''Queue timeout'' 429, r_header r, s1)
                 else (http_error w1 ''Queue full or timeout'' 429, r_header r, s1))
              else
                (case bucket_tokens (bucket_key merchantKey method ep) bucket s1 of
                   (n, s2) \<Rightarrow>
                     nxt r (w_set w1 ''X-SP-Proxy-Rate-Limit-Remaining'' (fmt_float 2 n)) s2)))"

definition serveThrottled ::
  "'a lim_world_scheme rl_env \<Rightarrow> 'a lim_world_scheme handler \<Rightarrow> rl_config \<Rightarrow> ThrottleMode \<Rightarrow> token_bucket \<Rightarrow>
     duration \<Rightarrow> string \<Rightarrow> string \<Rightarrow> string \<Rightarrow> 'a lim_world_scheme handler" where
  "serveThrottled env nxt cfg mode bucket waitTime merchantKey method ep r w s =
     (let queueStart = now s in
      case mode of
        ThrottleModeReject \<Rightarrow>
          (http_error (w_set w ''Retry-After'' (fmt_fixed 1 (seconds waitTime))) ''Rate limit exceeded'' 429,
           r_header r, s)
      | ThrottleModeQueue \<Rightarrow>
          serveQueued env nxt bucket queueStart None merchantKey method ep [] r w s
      | ThrottleModeQueueTimeout \<Rightarrow>
          serveQueued env nxt bucket queueStart (Some (resolveTimeout (r_header r) cfg))
            merchantKey method ep (fmt_fixed 1 (seconds waitTime)) r w s)"

definition RateLimitMiddleware ::
  "'a lim_world_scheme rl_env \<Rightarrow> rl_config \<Rightarrow> 'a lim_world_scheme handler \<Rightarrow> 'a lim_world_scheme handler" where
  "RateLimitMiddleware env cfg nxt r w s =
     (if \<not> rl_Enabled cfg then nxt r w s
      else
        (let m = MerchantFromContext r; ep = ClassifyEndpoint (r_path r); method = r_method r in
         case GetBucket (lim s) (m_key m) method ep (now s) of
           (None, l) \<Rightarrow> nxt r (w_set w ''X-SP-Proxy-Rate-Limit-Active'' ''false'') (s\<lparr>lim := l\<rparr>)
         | (Some bucket, l) \<Rightarrow>
             (case waitForAppBucket env cfg r (m_key m) method ep w (s\<lparr>lim := l\<rparr>) of
                (ok, w1, s1) \<Rightarrow>
                  if \<not> ok then (w1, r_header r, s1)
                  else
                    (let mode = resolveThrottleMode (r_header r) (m_key m) ep cfg;
                         key = bucket_key (m_key m) method ep in
                     case bucket_try key bucket s1 of
                       ((allowed, waitTime), s2) \<Rightarrow>
                         if allowed then
                           (case bucket_tokens key bucket s2 of
                              (n, s3) \<Rightarrow>
                                nxt r (w_set (w_set w1 ''X-SP-Proxy-Queued'' ''false'')
                                        ''X-SP-Proxy-Rate-Limit-Remaining'' (fmt_float 2 n)) s3)
                         else serveThrottled env nxt cfg mode bucket waitTime
                                (m_key m) method ep r w1 s2))))"

section \<open>Lemmas\<close>

lemma app_timeout_fails:
  "app_timeout env start d w s = (ok, w', s') \<Longrightarrow>
   \<not> ok \<and> (w_codes w' = w_codes w @ [429] \<or> w_codes w' = w_codes w @ [499])"
  by (auto simp: app_timeout_def Let_def split: if_splits)

text \<open>Taking a token, and being refused one: the bucket behind the pointer, as it is in the world at that moment and refilled to
  its time, has a whole token, which is then gone from it; or it has none, and is only refilled.\<close>

definition app_token_taken :: "string \<Rightarrow> token_bucket \<Rightarrow> 'a lim_world_scheme \<Rightarrow> 'a lim_world_scheme \<Rightarrow> bool" where
  "app_token_taken key seen s s' \<longleftrightarrow>
     (let b = refill (deref (app_bucket_at (lim s) key) seen) (now s) in
      Fin 1 \<le> tokens b \<and> s' = s\<lparr>lim := set_app_bucket (lim s) key (b\<lparr>tokens := tokens b - Fin 1\<rparr>)\<rparr>)"

definition app_token_refused :: "string \<Rightarrow> token_bucket \<Rightarrow> 'a lim_world_scheme \<Rightarrow> 'a lim_world_scheme \<Rightarrow> bool" where
  "app_token_refused key seen s s' \<longleftrightarrow>
     (let b = refill (deref (app_bucket_at (lim s) key) seen) (now s) in
      \<not> Fin 1 \<le> tokens b \<and> s' = s\<lparr>lim := set_app_bucket (lim s) key b\<rparr>)"

definition own_token_taken :: "string \<Rightarrow> token_bucket \<Rightarrow> 'a lim_world_scheme \<Rightarrow> 'a lim_world_scheme \<Rightarrow> bool" where
  "own_token_taken key seen s s' \<longleftrightarrow>
     (let b = refill (deref (bucket_at (lim s) key) seen) (now s) in
      Fin 1 \<le> tokens b \<and> s' = s\<lparr>lim := set_bucket (lim s) key (b\<lparr>tokens := tokens b - Fin 1\<rparr>)\<rparr>)"

definition own_token_refused :: "string \<Rightarrow> token_bucket \<Rightarrow> 'a lim_world_scheme \<Rightarrow> 'a lim_world_scheme \<Rightarrow> bool" where
  "own_token_refused key seen s s' \<longleftrightarrow>
     (let b = refill (deref (bucket_at (lim s) key) seen) (now s) in
      \<not> Fin 1 \<le> tokens b \<and> s' = s\<lparr>lim := set_bucket (lim s) key b\<rparr>)"

lemma app_try_cases:
  "app_try key seen s = ((ok, d), s') \<Longrightarrow> (if ok then app_token_taken key seen s s' else app_token_refused key seen s s')"
  by (auto simp: app_try_def TryConsume_def app_token_taken_def app_token_refused_def Let_def split: if_splits)

lemma bucket_try_cases:
  "bucket_try key seen s = ((ok, d), s') \<Longrightarrow> (if ok then own_token_taken key seen s s' else own_token_refused key seen s s')"
  by (auto simp: bucket_try_def TryConsume_def own_token_taken_def own_token_refused_def Let_def split: if_splits)

text \<open>The worlds in which a request tries for an application token: the first one, and after each refusal what has become of it
  by the time of the next attempt.\<close>

inductive app_attempt ::
  "string \<Rightarrow> token_bucket \<Rightarrow> ('a lim_world_scheme \<Rightarrow> 'a lim_world_scheme) list \<Rightarrow> 'a lim_world_scheme \<Rightarrow> 'a lim_world_scheme \<Rightarrow> bool"
  for key seen where
  now: "app_attempt key seen timers s s"
| later: "app_token_refused key seen s s1 \<Longrightarrow> app_attempt key seen timers (timer s1) u \<Longrightarrow>
    app_attempt key seen (timer # timers) s u"

lemma app_loop_result:
  "app_loop env key seen start timers w s = (ok, w', s') \<Longrightarrow>
   (ok \<and> w' = w \<and> (\<exists>u. app_attempt key seen timers s u \<and> app_token_taken key seen u s')) \<or>
   (\<not> ok \<and> (w_codes w' = w_codes w @ [429] \<or> w_codes w' = w_codes w @ [499]))"
proof (induction env key seen start timers w s rule: app_loop.induct)
  case (1 env key seen start w s)
  obtain a d s1 where t: "app_try key seen s = ((a, d), s1)" by (metis prod.exhaust)
  then show ?case using 1 app_try_cases [OF t] by (cases a) (auto intro: app_attempt.now dest: app_timeout_fails)
next
  case (2 env key seen start timer timers w s)
  obtain a d s1 where t: "app_try key seen s = ((a, d), s1)" by (metis prod.exhaust)
  show ?case
  proof (cases a)
    case True
    then show ?thesis using 2(2) app_try_cases [OF t] t by (auto intro: app_attempt.now)
  next
    case False
    have "app_token_refused key seen s s1" using app_try_cases [OF t] False by simp
    note again = app_attempt.later [OF this, of timers timer]
    have loop: "app_loop env key seen start timers w (timer s1) = (ok, w', s')" using 2(2) t False by simp
    have "(ok \<and> w' = w \<and> (\<exists>u. app_attempt key seen timers (timer s1) u \<and> app_token_taken key seen u s')) \<or>
      (\<not> ok \<and> (w_codes w' = w_codes w @ [429] \<or> w_codes w' = w_codes w @ [499]))"
      by (rule 2(1) [OF t [symmetric] refl False loop])
    then show ?thesis using again by blast
  qed
qed

text \<open>How a request gets past the application limit: there is none for its method and endpoint, or it took a token of that bucket
  in one of its attempts. With the mode \<^verbatim>\<open>reject\<close> there is one attempt; otherwise the loop starts with another one at
  once.\<close>

definition passes_app ::
  "'a lim_world_scheme rl_env \<Rightarrow> rl_config \<Rightarrow> request \<Rightarrow> 'a lim_world_scheme \<Rightarrow> 'a lim_world_scheme \<Rightarrow> bool" where
  "passes_app env cfg r s s1 \<longleftrightarrow>
     (let mk = m_key (MerchantFromContext r); ep = ClassifyEndpoint (r_path r); m = r_method r;
          reject = (resolveThrottleMode (r_header r) mk ep cfg = ThrottleModeReject);
          (appBucket, l) = GetAppBucket (lim s) m ep (now s)
      in case appBucket of
           None \<Rightarrow> s1 = s\<lparr>lim := l\<rparr>
         | Some seen \<Rightarrow>
             \<exists>u. app_attempt (app_key m ep) seen (if reject then [] else (\<lambda>s. s) # env_timers env) (s\<lparr>lim := l\<rparr>) u \<and>
               app_token_taken (app_key m ep) seen u s1)"

lemma waitForAppBucket_result:
  assumes "waitForAppBucket env cfg r (m_key (MerchantFromContext r)) (r_method r) (ClassifyEndpoint (r_path r)) w s = (ok, w', s')"
  shows "(ok \<and> w' = w \<and> passes_app env cfg r s s') \<or>
   (\<not> ok \<and> (w_codes w' = w_codes w @ [429] \<or> w_codes w' = w_codes w @ [499]))"
proof -
  let ?m = "r_method r" and ?ep = "ClassifyEndpoint (r_path r)"
  let ?key = "app_key ?m ?ep"
  obtain o' l where g: "GetAppBucket (lim s) ?m ?ep (now s) = (o', l)" by fastforce
  show ?thesis
  proof (cases o')
    case None
    then show ?thesis using assms g by (auto simp: waitForAppBucket_def passes_app_def)
  next
    case (Some b)
    obtain a d s1 where t: "app_try ?key b (s\<lparr>lim := l\<rparr>) = ((a, d), s1)" by (metis prod.exhaust)
    show ?thesis
    proof (cases a)
      case True
      then have "app_token_taken ?key b (s\<lparr>lim := l\<rparr>) s'" "ok" "w' = w"
        using assms g Some t app_try_cases [OF t] by (simp_all add: waitForAppBucket_def)
      then show ?thesis using g Some by (auto simp: passes_app_def Let_def intro: app_attempt.now)
    next
      case False
      have refused: "app_token_refused ?key b (s\<lparr>lim := l\<rparr>) s1" using app_try_cases [OF t] False by simp
      show ?thesis
        using assms g Some t False app_attempt.later [OF refused, of "env_timers env" "\<lambda>s. s"]
          app_loop_result [of env ?key b "now s1" "env_timers env" w s1 ok w' s']
        by (auto simp: waitForAppBucket_def passes_app_def Let_def split: if_splits)
    qed
  qed
qed

text \<open>Getting past it at once: in the first attempt.\<close>

definition passes_app_at_once :: "request \<Rightarrow> 'a lim_world_scheme \<Rightarrow> 'a lim_world_scheme \<Rightarrow> bool" where
  "passes_app_at_once r s s1 \<longleftrightarrow>
     (let m = r_method r; ep = ClassifyEndpoint (r_path r); (appBucket, l) = GetAppBucket (lim s) m ep (now s)
      in case appBucket of
           None \<Rightarrow> s1 = s\<lparr>lim := l\<rparr>
         | Some seen \<Rightarrow> app_token_taken (app_key m ep) seen (s\<lparr>lim := l\<rparr>) s1)"

lemma app_try_takes: "app_token_taken key seen s s' \<Longrightarrow> \<exists>d. app_try key seen s = ((True, d), s')"
  by (auto simp: app_try_def TryConsume_def app_token_taken_def Let_def)

lemma waitForAppBucket_at_once:
  assumes "passes_app_at_once r s s1"
  shows "waitForAppBucket env cfg r mk (r_method r) (ClassifyEndpoint (r_path r)) w s = (True, w, s1)"
proof -
  let ?m = "r_method r" and ?ep = "ClassifyEndpoint (r_path r)"
  obtain o' l where g: "GetAppBucket (lim s) ?m ?ep (now s) = (o', l)" by fastforce
  show ?thesis
  proof (cases o')
    case None
    then show ?thesis using assms g by (simp add: waitForAppBucket_def passes_app_at_once_def)
  next
    case (Some seen)
    then obtain d where "app_try (app_key ?m ?ep) seen (s\<lparr>lim := l\<rparr>) = ((True, d), s1)"
      using assms g app_try_takes by (fastforce simp: passes_app_at_once_def)
    then show ?thesis using g Some by (simp add: waitForAppBucket_def)
  qed
qed

text \<open>How it gets past its own: a token of its bucket, or, after a refusal there and if the mode is not \<^verbatim>\<open>reject\<close>, its
  queue, which it may wait in until the deadline of its mode. The bucket is then read once more, for a header.\<close>

definition queue_deadline :: "rl_config \<Rightarrow> request \<Rightarrow> ThrottleMode \<Rightarrow> duration option" where
  "queue_deadline cfg r mode = (if mode = ThrottleModeQueueTimeout then Some (resolveTimeout (r_header r) cfg) else None)"

definition passes_own ::
  "'a lim_world_scheme rl_env \<Rightarrow> rl_config \<Rightarrow> request \<Rightarrow> token_bucket \<Rightarrow> 'a lim_world_scheme \<Rightarrow> 'a lim_world_scheme \<Rightarrow> bool" where
  "passes_own env cfg r seen s s' \<longleftrightarrow>
     (let mk = m_key (MerchantFromContext r); ep = ClassifyEndpoint (r_path r); m = r_method r;
          mode = resolveThrottleMode (r_header r) mk ep cfg; key = bucket_key mk m ep
      in (\<exists>s1. own_token_taken key seen s s1 \<and> s' = snd (bucket_tokens key seen s1)) \<or>
         (\<exists>s1 out s2. own_token_refused key seen s s1 \<and> mode \<noteq> ThrottleModeReject \<and>
            EnqueueAndWait env (queue_deadline cfg r mode) mk m ep (r_header r) s1 = (out, s2) \<and> wo_result out = EnqOk \<and>
            s' = snd (bucket_tokens key seen s2)))"

text \<open>How a request leaves the middleware: to \<open>nxt\<close>, once and with no status written, or with a status and not to \<open>nxt\<close>.\<close>

definition forwards_in :: "('a lim_world_scheme handler \<Rightarrow> 'a lim_world_scheme handler) \<Rightarrow> request \<Rightarrow> rw \<Rightarrow>
    'a lim_world_scheme \<Rightarrow> 'a lim_world_scheme \<Rightarrow> bool" where
  "forwards_in mw r w s s' \<longleftrightarrow> (\<exists>w'. w_codes w' = w_codes w \<and> w_body w' = w_body w \<and> (\<forall>nxt. mw nxt r w s = nxt r w' s'))"

definition refuses :: "('a lim_world_scheme handler \<Rightarrow> 'a lim_world_scheme handler) \<Rightarrow> request \<Rightarrow> rw \<Rightarrow>
    'a lim_world_scheme \<Rightarrow> bool" where
  "refuses mw r w s \<longleftrightarrow>
     (\<exists>w' s' c. (\<forall>nxt. mw nxt r w s = (w', r_header r, s')) \<and> c \<in> {429, 499}
        \<and> w_codes w' = w_codes w @ [c])"

lemma forwards_inI:
  "(\<And>nxt. mw nxt r w s = nxt r w' s') \<Longrightarrow> w_codes w' = w_codes w \<Longrightarrow> w_body w' = w_body w \<Longrightarrow> forwards_in mw r w s s'"
  by (auto simp: forwards_in_def)

lemma serveQueued_result:
  assumes "EnqueueAndWait env dl mk m ep (r_header r) s = (out, s1)"
  shows "if wo_result out = EnqOk
    then forwards_in (\<lambda>nxt. serveQueued env nxt b st dl mk m ep ra) r w s (snd (bucket_tokens (bucket_key mk m ep) b s1))
    else refuses (\<lambda>nxt. serveQueued env nxt b st dl mk m ep ra) r w s"
proof -
  obtain n s2 where t: "bucket_tokens (bucket_key mk m ep) b s1 = (n, s2)" by (metis prod.exhaust)
  show ?thesis
  proof (cases "wo_result out = EnqOk")
    case True
    let ?w = "w_set (w_set (w_set w ''X-SP-Proxy-Queued'' ''true'') ''X-SP-Proxy-Queue-Wait-Ms'' (ms_since st (now s1)))
      ''X-SP-Proxy-Rate-Limit-Remaining'' (fmt_float 2 n)"
    have "forwards_in (\<lambda>nxt. serveQueued env nxt b st dl mk m ep ra) r w s s2"
      by (rule forwards_inI [where w' = ?w]) (simp_all add: serveQueued_def assms t True)
    then show ?thesis using True t by simp
  next
    case False
    then show ?thesis by (auto simp: serveQueued_def refuses_def assms Let_def)
  qed
qed

lemma serveThrottled_result:
  assumes "EnqueueAndWait env (queue_deadline cfg r mode) mk m ep (r_header r) s = (out, s1)"
  shows "if mode \<noteq> ThrottleModeReject \<and> wo_result out = EnqOk
    then forwards_in (\<lambda>nxt. serveThrottled env nxt cfg mode b wt mk m ep) r w s (snd (bucket_tokens (bucket_key mk m ep) b s1))
    else refuses (\<lambda>nxt. serveThrottled env nxt cfg mode b wt mk m ep) r w s"
proof (cases mode)
  case ThrottleModeQueue
  then show ?thesis
    using serveQueued_result [of env None mk m ep r s out s1 b "now s" "[]" w] assms
    by (auto simp: serveThrottled_def queue_deadline_def forwards_in_def refuses_def Let_def split: if_splits)
next
  case ThrottleModeReject
  then show ?thesis by (auto simp: serveThrottled_def refuses_def Let_def)
next
  case ThrottleModeQueueTimeout
  then show ?thesis
    using serveQueued_result [of env "Some (resolveTimeout (r_header r) cfg)" mk m ep r s out s1 b "now s"
        "fmt_fixed 1 (seconds wt)" w] assms
    by (auto simp: serveThrottled_def queue_deadline_def forwards_in_def refuses_def Let_def split: if_splits)
qed

section \<open>Properties\<close>

text \<open>C2: with the limiter enabled, a request to an endpoint with a published limit is either
  passed on exactly once, after it got past both limits, or answered without passing it on, with exactly one status, 429 or 499.
  Getting past the application limit means that there is none, or that in one of the request's attempts the application's bucket,
  as it was at that moment, had a whole token when refilled and lost it. Getting past its own limit means the same of the
  merchant's bucket, or that the queue let the request through. The next handler starts in the world that results. A request that finds
  a token in both buckets when it arrives is not refused. This holds
  whatever the waiting brings: other callers, timers, timeouts, disconnects.\<close>

theorem rate_limit_forward_or_refuse:
  assumes "rl_Enabled cfg"
    and "GetBucket (lim s) (m_key (MerchantFromContext r)) (r_method r) (ClassifyEndpoint (r_path r)) (now s) = (Some b, l)"
  shows "(\<exists>s1 s'. passes_app env cfg r (s\<lparr>lim := l\<rparr>) s1 \<and> passes_own env cfg r b s1 s' \<and>
      forwards_in (RateLimitMiddleware env cfg) r w s s')
    \<or> refuses (RateLimitMiddleware env cfg) r w s \<and>
      (\<forall>s1 s2. \<not> (passes_app_at_once r (s\<lparr>lim := l\<rparr>) s1 \<and>
        own_token_taken (bucket_key (m_key (MerchantFromContext r)) (r_method r) (ClassifyEndpoint (r_path r))) b s1 s2))"
proof -
  let ?mk = "m_key (MerchantFromContext r)" and ?ep = "ClassifyEndpoint (r_path r)" and ?m = "r_method r"
  let ?mode = "resolveThrottleMode (r_header r) ?mk ?ep cfg"
  obtain ok w1 s1 where a: "waitForAppBucket env cfg r ?mk ?m ?ep w (s\<lparr>lim := l\<rparr>) = (ok, w1, s1)"
    by (metis prod.exhaust)
  obtain al wt s2 where c: "bucket_try (bucket_key ?mk ?m ?ep) b s1 = ((al, wt), s2)"
    by (metis prod.exhaust)
  obtain n s3 where t: "bucket_tokens (bucket_key ?mk ?m ?ep) b s2 = (n, s3)" by (metis prod.exhaust)
  obtain out s4 where e: "EnqueueAndWait env (queue_deadline cfg r ?mode) ?mk ?m ?ep (r_header r) s2 = (out, s4)" by fastforce
  note app = waitForAppBucket_result [OF a]
  have eq: "RateLimitMiddleware env cfg nxt r w s =
      (if \<not> ok then (w1, r_header r, s1)
       else if al then nxt r (w_set (w_set w1 ''X-SP-Proxy-Queued'' ''false'')
              ''X-SP-Proxy-Rate-Limit-Remaining'' (fmt_float 2 n)) s3
       else serveThrottled env nxt cfg ?mode b wt ?mk ?m ?ep r w1 s2)" for nxt
    using assms by (simp add: RateLimitMiddleware_def a c t Let_def)
  have at_once: "ok \<and> al" if "passes_app_at_once r (s\<lparr>lim := l\<rparr>) u" "own_token_taken (bucket_key ?mk ?m ?ep) b u u2" for u u2
  proof -
    have "ok" "u = s1" using waitForAppBucket_at_once [OF that(1), of env cfg ?mk w] a by simp_all
    then show ?thesis
      using that(2) bucket_try_cases [OF c] by (auto simp: own_token_taken_def own_token_refused_def Let_def split: if_splits)
  qed
  consider "\<not> ok" | "ok" "al" | "ok" "\<not> al" by blast
  then show ?thesis
  proof cases
    case 1
    then have "refuses (RateLimitMiddleware env cfg) r w s" using app unfolding refuses_def eq by auto
    then show ?thesis using at_once 1 by blast
  next
    case 2
    then have "passes_own env cfg r b s1 s3"
      using bucket_try_cases [OF c] t by (auto simp: passes_own_def Let_def)
    moreover have "forwards_in (RateLimitMiddleware env cfg) r w s s3"
      by (rule forwards_inI [where w' = "w_set (w_set w1 ''X-SP-Proxy-Queued'' ''false'') ''X-SP-Proxy-Rate-Limit-Remaining'' (fmt_float 2 n)"])
        (use 2 app eq in auto)
    ultimately show ?thesis using app 2(1) by blast
  next
    case 3
    then have w1: "w1 = w" and pa: "passes_app env cfg r (s\<lparr>lim := l\<rparr>) s1" using app by simp_all
    have eq3: "RateLimitMiddleware env cfg nxt r w s = serveThrottled env nxt cfg ?mode b wt ?mk ?m ?ep r w s2" for nxt
      using 3 by (simp add: eq w1)
    show ?thesis
    proof (cases "?mode \<noteq> ThrottleModeReject \<and> wo_result out = EnqOk")
      case True
      then have "passes_own env cfg r b s1 (snd (bucket_tokens (bucket_key ?mk ?m ?ep) b s4))"
        using bucket_try_cases [OF c] 3(2) e unfolding passes_own_def Let_def by auto
      moreover have "forwards_in (RateLimitMiddleware env cfg) r w s (snd (bucket_tokens (bucket_key ?mk ?m ?ep) b s4))"
        using serveThrottled_result [OF e, of b wt w] True unfolding forwards_in_def eq3 by simp
      ultimately show ?thesis using pa by blast
    next
      case False
      then have "refuses (RateLimitMiddleware env cfg) r w s"
        using serveThrottled_result [OF e, of b wt w] unfolding refuses_def eq3 by (simp split: if_splits)
      then show ?thesis using at_once 3(2) by blast
    qed
  qed
qed

text \<open>An environment in which nobody else acts, the queue refuses and the context times out.\<close>

definition quiet_env :: "'w rl_env" where
  "quiet_env = \<lparr>env_enqueue = (\<lambda>_ _ _ s. (\<lparr>wo_result = CtxErr, wo_canceled = False, wo_gone = False\<rparr>, s)),
     env_timers = [], env_ctx_end = (\<lambda>s. s), env_client_gone = (\<lambda>_. False)\<rparr>"

definition reject_config :: rl_config where
  "reject_config = \<lparr>rl_Enabled = True, rl_DefaultMode = ''reject'', rl_QueueTimeout = ''60s'',
     rl_QueueMaxDepth = 100, rl_ThrottleFactor = Fin (4/5), rl_BucketTTL = ''2h'',
     rl_MerchantModes = None, rl_EndpointModes = None\<rparr>"

definition feeds_request :: request where
  "feeds_request = \<lparr>r_method = ''POST'', r_path = ''/feeds/2021-06-30/feeds'', r_query = [],
     r_header = [], r_body = [], r_length = 0, ctx_merchant = None, ctx_request_id = [],
     ctx_done = False\<rparr>"

lemma feeds_known:
  "fst (GetBucket (NewLimiter thr d) mk (r_method feeds_request)
     (ClassifyEndpoint (r_path feeds_request)) t) \<noteq> None"
proof -
  have "ClassifyEndpoint (r_path feeds_request) = ''/feeds/2021-06-30/feeds''"
    unfolding feeds_request_def by code_simp
  moreover have "LookupDefaults ''POST'' ''/feeds/2021-06-30/feeds'' \<noteq> None"
    by (simp add: LookupDefaults_def MethodBucketOverrides_def)
  ultimately show ?thesis
    by (auto simp: GetBucket_def feeds_request_def NewLimiter_def Let_def)
qed

theorem rate_limit_forward_or_refuse_witness:
  "\<exists>b l. GetBucket (NewLimiter (Fin (4/5)) 10) [] ''POST'' (ClassifyEndpoint ''/feeds/2021-06-30/feeds'') 0 = (Some b, l) \<and>
   ((\<exists>s1 s'. passes_app quiet_env reject_config feeds_request \<lparr>now = 0, lim = l\<rparr> s1 \<and>
        passes_own quiet_env reject_config feeds_request b s1 s' \<and>
        forwards_in (RateLimitMiddleware quiet_env reject_config) feeds_request new_rw \<lparr>now = 0, lim = NewLimiter (Fin (4/5)) 10\<rparr> s')
    \<or> refuses (RateLimitMiddleware quiet_env reject_config) feeds_request new_rw \<lparr>now = 0, lim = NewLimiter (Fin (4/5)) 10\<rparr>)"
proof -
  let ?s = "\<lparr>now = 0, lim = NewLimiter (Fin (4/5)) 10\<rparr> :: lim_world"
  have r: "m_key (MerchantFromContext feeds_request) = []" "r_method feeds_request = ''POST''" "r_path feeds_request = ''/feeds/2021-06-30/feeds''"
    by (simp_all add: feeds_request_def MerchantFromContext_def)
  obtain b l where g: "GetBucket (NewLimiter (Fin (4/5)) 10) [] ''POST'' (ClassifyEndpoint ''/feeds/2021-06-30/feeds'') 0 = (Some b, l)"
    using feeds_known [of "Fin (4/5)" 10 "[]" 0] unfolding r by (metis eq_fst_iff not_None_eq)
  then show ?thesis
    using rate_limit_forward_or_refuse [of reject_config ?s feeds_request b l quiet_env new_rw] r
    by (auto simp: reject_config_def)
qed

text \<open>The operator's \<^verbatim>\<open>reject\<close> is a ceiling that no header breaks through, a header can always
  ask to be rejected, and a header that names no mode changes nothing.\<close>

theorem reject_is_ceiling:
  "(operator_mode mk ep cfg = ThrottleModeReject \<longrightarrow>
      resolveThrottleMode h mk ep cfg = ThrottleModeReject)
   \<and> (parseThrottleMode (hdr_get h ''X-SP-Proxy-Throttle-Mode'') = Some ThrottleModeReject \<longrightarrow>
      resolveThrottleMode h mk ep cfg = ThrottleModeReject)
   \<and> (parseThrottleMode (hdr_get h ''X-SP-Proxy-Throttle-Mode'') = None \<longrightarrow>
      resolveThrottleMode h mk ep cfg = operator_mode mk ep cfg)"
proof -
  have empty: "parseThrottleMode [] = None" by (simp add: parseThrottleMode_def to_lower_def)
  show ?thesis by (auto simp: resolveThrottleMode_def Let_def empty split: option.splits)
qed

theorem reject_is_ceiling_witness:
  "resolveThrottleMode [(''X-Sp-Proxy-Throttle-Mode'', [''queue''])] ''A'' ''/x'' reject_config
     = ThrottleModeReject"
proof -
  have "operator_mode ''A'' ''/x'' reject_config = ThrottleModeReject" by code_simp
  then show ?thesis using reject_is_ceiling [of "''A''" "''/x''" reject_config] by blast
qed

text \<open>A client can shorten the queue timeout, never lengthen it: for every header the timeout
  is positive and at most the one the operator configured.\<close>

theorem resolveTimeout_bounded:
  "0 < resolveTimeout h cfg \<and> resolveTimeout h cfg \<le> resolveTimeout [] cfg"
proof -
  have "hdr_get [] k = []" for k by (simp add: hdr_get_def hdr_vals_def)
  then show ?thesis
    by (simp add: resolveTimeout_def Let_def duration_defs split: option.splits list.splits)
qed

text \<open>The order in which overrides apply: a per-endpoint mode other than \<^verbatim>\<open>queue\<close> wins over the
  merchant's, a per-merchant mode other than \<^verbatim>\<open>queue\<close> wins over the default, and the default
  applies whenever those two come to \<^verbatim>\<open>queue\<close>, also when \<^verbatim>\<open>queue\<close> was asked for explicitly.\<close>

theorem operator_mode_order:
  "(rl_EndpointModes cfg = Some em \<and> em ep = Some x \<and> parseThrottleMode x = Some m \<and> m \<noteq> ThrottleModeQueue
      \<longrightarrow> operator_mode mk ep cfg = m)
   \<and> (rl_EndpointModes cfg = None \<and> rl_MerchantModes cfg = Some mm \<and> mm mk = Some x
        \<and> parseThrottleMode x = Some m \<and> m \<noteq> ThrottleModeQueue
      \<longrightarrow> operator_mode mk ep cfg = m)
   \<and> (rl_EndpointModes cfg = None \<and> rl_MerchantModes cfg = Some mm \<and> mm mk = Some x
        \<and> parseThrottleMode x = Some ThrottleModeQueue \<and> parseThrottleMode (rl_DefaultMode cfg) = Some m
      \<longrightarrow> operator_mode mk ep cfg = m)"
  by (simp add: operator_mode_def override_mode_def Let_def)

theorem operator_mode_order_witness:
  "operator_mode ''A'' ''/x'' (reject_config\<lparr>rl_MerchantModes := Some [''A'' \<mapsto> ''reject''],
      rl_EndpointModes := Some [''/x'' \<mapsto> ''queue-timeout'']\<rparr>) = ThrottleModeQueueTimeout
   \<and> operator_mode ''A'' ''/x'' (reject_config\<lparr>rl_MerchantModes := Some [''A'' \<mapsto> ''queue'']\<rparr>)
      = ThrottleModeReject"
proof -
  have p: "parseThrottleMode ''reject'' = Some ThrottleModeReject"
    "parseThrottleMode ''queue'' = Some ThrottleModeQueue"
    "parseThrottleMode ''queue-timeout'' = Some ThrottleModeQueueTimeout"
    by code_simp+
  let ?c = "reject_config\<lparr>rl_MerchantModes := Some [''A'' \<mapsto> ''reject''],
      rl_EndpointModes := Some [''/x'' \<mapsto> ''queue-timeout'']\<rparr>"
  let ?d = "reject_config\<lparr>rl_MerchantModes := Some [''A'' \<mapsto> ''queue'']\<rparr>"
  show ?thesis
    using operator_mode_order [of ?c "[''/x'' \<mapsto> ''queue-timeout'']" "''/x''" "''queue-timeout''"
        ThrottleModeQueueTimeout "''A''"]
      operator_mode_order [of ?d Map.empty "''/x''" "''queue''" ThrottleModeReject "''A''"
        "[''A'' \<mapsto> ''queue'']"]
    by (simp add: p reject_config_def)
qed

text \<open>What a header does to an operator who bounds the wait: asking for plain \<^verbatim>\<open>queue\<close> replaces
  \<^verbatim>\<open>queue-timeout\<close>, and the request then waits without any deadline.\<close>

theorem header_lifts_queue_timeout:
  assumes "operator_mode mk ep cfg = ThrottleModeQueueTimeout"
    and "parseThrottleMode (hdr_get (r_header r) ''X-SP-Proxy-Throttle-Mode'') = Some ThrottleModeQueue"
    and "getQueue (lim s) mk m ep \<noteq> None"
  shows "let mode = resolveThrottleMode (r_header r) mk ep cfg in
      mode = ThrottleModeQueue
      \<and> serveThrottled env nxt cfg mode b wt mk m ep r w s
          = serveQueued env nxt b (now s) None mk m ep [] r w s
      \<and> EnqueueAndWait env None mk m ep (r_header r) s
          = env_enqueue env (bucket_key mk m ep) (resolvePriority (r_header r)) None s"
proof -
  have ne: "hdr_get (r_header r) ''X-SP-Proxy-Throttle-Mode'' \<noteq> []"
    using assms(2) by (auto simp: parseThrottleMode_def to_lower_def)
  then show ?thesis
    using assms by (auto simp: resolveThrottleMode_def serveThrottled_def EnqueueAndWait_def Let_def)
qed

theorem header_lifts_queue_timeout_witness:
  "resolveThrottleMode [(''X-Sp-Proxy-Throttle-Mode'', [''queue''])] ''A'' ''/x''
     (reject_config\<lparr>rl_DefaultMode := ''queue-timeout''\<rparr>) = ThrottleModeQueue"
proof -
  let ?cfg = "reject_config\<lparr>rl_DefaultMode := ''queue-timeout''\<rparr>"
  let ?r = "feeds_request\<lparr>r_header := [(''X-Sp-Proxy-Throttle-Mode'', [''queue''])]\<rparr>"
  let ?l = "(NewLimiter (Fin 1) 1)\<lparr>lm_buckets := [bucket_key ''A'' ''POST'' ''/x'' \<mapsto>
      new_entry \<lparr>Rate = 1, Burst = 1\<rparr> (Fin 1) 1 0]\<rparr>"
  have "operator_mode ''A'' ''/x'' ?cfg = ThrottleModeQueueTimeout" by code_simp
  moreover have "parseThrottleMode (hdr_get (r_header ?r) ''X-SP-Proxy-Throttle-Mode'')
      = Some ThrottleModeQueue" by code_simp
  ultimately show ?thesis
    using header_lifts_queue_timeout [of "''A''" "''/x''" ?cfg ?r "\<lparr>now = 0, lim = ?l\<rparr>" "''POST''"]
    by (simp add: getQueue_def Let_def)
qed

end
