(* ===== verification/CacheServe.thy ===== *)
theory CacheServe
  imports CacheKeys MemCache Tiers RateLimit PiiEngine
begin

text \<open>
  What the cache handlers share (\<^verbatim>\<open>internal/cache/middleware.go\<close>): serving a cached response,
  recording the response of the next handler and storing it, the time to live of a stored
  response; and the cache for single POST requests (\<^verbatim>\<open>internal/cache/postcache.go\<close>), whose key is
  a hash of the body without the caller's own tracking fields.

  \<^verbatim>\<open>json.RawMessage\<close> values are JSON trees whose scalars are literals; decoding and encoding them
  and SHA-256 come from the \<open>codec\<close>. \<^verbatim>\<open>time.Parse(time.RFC3339, s)\<close> is an argument.
\<close>

record cache_config =
  cc_Enabled :: bool
  cc_MaxMemory :: int
  cc_DefaultTTL :: string
  cc_MaxClientTTL :: string
  cc_ExcludePII :: bool

record cache_world = lim_world +
  mcache :: mem_cache

section \<open>Serving and recording\<close>

text \<open>\<^verbatim>\<open>int(d.Seconds())\<close> truncates towards zero.\<close>

definition int_seconds :: "duration \<Rightarrow> string" where
  "int_seconds d = string_of_int (if 0 \<le> d then d div second else - ((- d) div second))"

definition serveCachedResponse :: "rw \<Rightarrow> cached_response \<Rightarrow> time \<Rightarrow> rw" where
  "serveCachedResponse w cached t =
     (let age = t - CachedAt cached;
          remaining = TTL cached - age;
          w1 = w\<lparr>w_header := hdr_add_all (w_header w) (Headers cached)\<rparr>;
          w2 = w_set w1 ''X-SP-Proxy-Cache'' ''HIT'';
          w3 = w_set w2 ''X-SP-Proxy-Cache-Age'' (int_seconds age);
          w4 = w_set w3 ''X-SP-Proxy-Cache-TTL-Remaining'' (int_seconds remaining);
          w5 = (if SourceRequestID cached \<noteq> []
                then w_set w4 ''X-SP-Proxy-Cache-Source-ID'' (SourceRequestID cached) else w4)
      in w_write (w_write_header w5 (StatusCode cached)) (Body cached))"

text \<open>\<^verbatim>\<open>responseRecorder\<close>: a fresh writer; here the last \<^verbatim>\<open>WriteHeader\<close> wins.\<close>

definition newResponseRecorder :: rw where
  "newResponseRecorder = new_rw"

definition rec_statusCode :: "rw \<Rightarrow> nat" where
  "rec_statusCode rec = (if w_codes rec = [] then 200 else last (w_codes rec))"

text \<open>The copy of a recorded response to the client.\<close>

definition copy_recorded :: "rw \<Rightarrow> rw \<Rightarrow> rw" where
  "copy_recorded w rec =
     (let w1 = w\<lparr>w_header := hdr_add_all (w_header w) (w_header rec)\<rparr>;
          w2 = w_set w1 ''X-SP-Proxy-Cache'' ''MISS''
      in w_write (w_write_header w2 (rec_statusCode rec)) (w_body rec))"

definition RequestIDFromContext :: "request \<Rightarrow> string" where
  "RequestIDFromContext r = ctx_request_id r"

definition ContextWithRequestID :: "request \<Rightarrow> string \<Rightarrow> request" where
  "ContextWithRequestID r i = r\<lparr>ctx_request_id := i\<rparr>"

definition maxClientTTL :: "cache_config option \<Rightarrow> duration" where
  "maxClientTTL cfg =
     (case cfg of
        None \<Rightarrow> 24 * hour
      | Some c \<Rightarrow>
          if cc_MaxClientTTL c = [] then 24 * hour
          else (case parse_duration (cc_MaxClientTTL c) of
              Some d \<Rightarrow> if d > 0 then d else 24 * hour
            | None \<Rightarrow> 24 * hour))"

definition resolveTTL ::
  "(string \<Rightarrow> time option) \<Rightarrow> header \<Rightarrow> tier_config \<Rightarrow> cache_config option \<Rightarrow> time \<Rightarrow> duration" where
  "resolveTTL parse_rfc3339 h tier cfg t =
     (let maxTTL = maxClientTTL cfg;
          clamp = (\<lambda>d. if d > maxTTL then maxTTL else d);
          until = hdr_get h ''X-SP-Proxy-Cache-Until'';
          ttlStr = hdr_get h ''X-SP-Proxy-Cache-TTL'';
          byUntil = (if until = [] then None
                     else case parse_rfc3339 until of
                       None \<Rightarrow> None
                     | Some u \<Rightarrow> if u - t > 0 then Some (clamp (u - t)) else None);
          byTTL = (if ttlStr = [] then None
                   else case parse_duration ttlStr of
                     None \<Rightarrow> None
                   | Some d \<Rightarrow> if d > 0 then Some (clamp d) else None)
      in case byUntil of
           Some d \<Rightarrow> d
         | None \<Rightarrow> (case byTTL of Some d \<Rightarrow> d | None \<Rightarrow> tc_DefaultTTL tier))"

text \<open>The stored copy of a 2xx response.\<close>

definition recorded_response :: "rw \<Rightarrow> duration \<Rightarrow> time \<Rightarrow> request \<Rightarrow> cached_response" where
  "recorded_response rec ttl t r =
     \<lparr>StatusCode = rec_statusCode rec, Headers = w_header rec, Body = w_body rec, CachedAt = t,
      TTL = ttl, SourceRequestID = RequestIDFromContext r\<rparr>"

definition recordAndCache ::
  "(string \<Rightarrow> time option) \<Rightarrow> tier_config \<Rightarrow> cache_config \<Rightarrow> string \<Rightarrow> 'a cache_world_scheme handler \<Rightarrow>
     'a cache_world_scheme handler" where
  "recordAndCache prfc tier cfg key nxt r w s =
     (case nxt r newResponseRecorder s of
        (rec, h, s1) \<Rightarrow>
          (let w1 = copy_recorded w rec in
           if 200 \<le> rec_statusCode rec \<and> rec_statusCode rec < 300
           then (let ttl = resolveTTL prfc h tier (Some cfg) (now s1);
                     resp = recorded_response rec ttl (now s1) r
                 in (w1, h, s1\<lparr>mcache := mc_Set (mcache s1) key resp ttl (now s1)\<rparr>))
           else (w1, h, s1)))"

section \<open>POST requests keyed by their body\<close>

definition postCacheNonIdentityFields :: "string list" where
  "postCacheNonIdentityFields = [''Identifier'', ''clientReferenceDetails'']"

text \<open>\<^verbatim>\<open>json.Marshal\<close> of a map writes the fields in the order of their keys.\<close>

definition sort_fields :: "(string \<times> json) list \<Rightarrow> (string \<times> json) list" where
  "sort_fields fs = sort_key fst fs"

fun stripNonIdentityFields :: "(string \<times> json) list \<Rightarrow> (string \<times> json) list" and strip_value :: "json \<Rightarrow> json" where
  "stripNonIdentityFields [] = []"
| "stripNonIdentityFields ((k, v) # fs) =
     (if k \<in> set postCacheNonIdentityFields then stripNonIdentityFields fs
      else (k, strip_value v) # stripNonIdentityFields fs)"
| "strip_value (JObj fs) = JObj (sort_fields (stripNonIdentityFields fs))"
| "strip_value v = v"

definition normalizeBody :: "codec \<Rightarrow> string \<Rightarrow> string option" where
  "normalizeBody cd body =
     (case unmarshal cd body of
        Some (JObj fs) \<Rightarrow> marshal cd (JObj (sort_fields (stripNonIdentityFields fs)))
      | Some JNull \<Rightarrow> marshal cd JNull
      | Some (JArr xs) \<Rightarrow> marshal cd (JArr xs)
      | _ \<Rightarrow> None)"

definition generatePostCacheKey :: "codec \<Rightarrow> string \<Rightarrow> string \<Rightarrow> string \<Rightarrow> string" where
  "generatePostCacheKey cd merchantKey path body =
     (case normalizeBody cd body of
        None \<Rightarrow> merchantKey @ '':POST:'' @ path @ '':'' @ hex_encode (sum256 cd body)
      | Some normalized \<Rightarrow> merchantKey @ '':POST:'' @ path @ '':'' @ hex_encode (sum256 cd normalized))"

text \<open>The body is in memory, so that reading it does not fail here.\<close>

definition handlePostCache ::
  "codec \<Rightarrow> (string \<Rightarrow> time option) \<Rightarrow> tier_config \<Rightarrow> cache_config \<Rightarrow> 'a cache_world_scheme handler \<Rightarrow>
     'a cache_world_scheme handler" where
  "handlePostCache cd prfc tier cfg nxt r w s =
     (let m = MerchantFromContext r;
          key = generatePostCacheKey cd (m_key m) (r_path r) (r_body r)
      in case mc_Get (mcache s) key (now s) of
           (Some cached, mc) \<Rightarrow> (serveCachedResponse w cached (now s), r_header r, s\<lparr>mcache := mc\<rparr>)
         | (None, mc) \<Rightarrow> recordAndCache prfc tier cfg key nxt r w (s\<lparr>mcache := mc\<rparr>))"

end
