(* ===== verification/BatchCache.thy ===== *)
theory BatchCache
  imports CacheServe "HOL-Library.Monad_Syntax"
begin

text \<open>
  Per-element caching of batch POST requests (\<^verbatim>\<open>internal/cache/batch.go\<close>): the key of each
  element of the request array, the lookup of all of them, a response assembled from the cache
  if every element is there, and otherwise the whole request passed on and each successful
  element of the response stored under the key of the request element at the same index.

  Decoding into a Go struct matches field names without regard to case, lets a later field win,
  leaves a field alone on null and reports a value of the wrong type. (The code merges repeated
  nested objects; the keys of one object are taken to be distinct.)
\<close>

section \<open>Decoding into structs\<close>

definition struct_fields :: "json \<Rightarrow> (string \<times> json) list option" where
  "struct_fields v = (case v of JObj fs \<Rightarrow> Some fs | JNull \<Rightarrow> Some [] | _ \<Rightarrow> None)"

definition field_vals :: "(string \<times> json) list \<Rightarrow> string \<Rightarrow> json list" where
  "field_vals fs name = map snd (filter (\<lambda>(k, _). to_lower k = to_lower name) fs)"

text \<open>The value a field ends up with, from its zero value \<open>z\<close>; \<open>None\<close> is a decoding error.\<close>

fun decode_vals :: "(json \<Rightarrow> 'a option) \<Rightarrow> 'a \<Rightarrow> json list \<Rightarrow> 'a option" where
  "decode_vals dec z [] = Some z"
| "decode_vals dec z (v # vs) =
     (if v = JNull then decode_vals dec z vs
      else case dec v of None \<Rightarrow> None | Some x \<Rightarrow> decode_vals dec x vs)"

definition field_of :: "(json \<Rightarrow> 'a option) \<Rightarrow> 'a \<Rightarrow> (string \<times> json) list \<Rightarrow> string \<Rightarrow> 'a option" where
  "field_of dec z fs name = decode_vals dec z (field_vals fs name)"

definition dec_str :: "json \<Rightarrow> string option" where
  "dec_str v = (case v of JStr s \<Rightarrow> Some s | _ \<Rightarrow> None)"

definition dec_bool :: "json \<Rightarrow> bool option option" where
  "dec_bool v = (case v of JBool b \<Rightarrow> Some (Some b) | _ \<Rightarrow> None)"

text \<open>The literal of a JSON number never spells a special value.\<close>

definition dec_float :: "json \<Rightarrow> rat option" where
  "dec_float v = (case v of JNum n \<Rightarrow> (case parse_float n of Some (Fin q) \<Rightarrow> Some q | _ \<Rightarrow> None) | _ \<Rightarrow> None)"

definition dec_int :: "json \<Rightarrow> int option" where
  "dec_int v = (case v of JNum n \<Rightarrow> atoi n | _ \<Rightarrow> None)"

text \<open>A slice of strings; a null element is the empty string.\<close>

definition dec_strs :: "json \<Rightarrow> string list option" where
  "dec_strs v =
     (case v of
        JArr xs \<Rightarrow> those (map (\<lambda>x. if x = JNull then Some [] else dec_str x) xs)
      | _ \<Rightarrow> None)"

section \<open>Keys of elements\<close>

definition extractPathSegment :: "string \<Rightarrow> string \<Rightarrow> string \<Rightarrow> string" where
  "extractPathSegment uri prefix suffix =
     (if \<not> has_prefix uri prefix then []
      else
        (let rest = drop (length prefix) uri in
         if suffix = [] then rest
         else case index_of rest suffix of None \<Rightarrow> [] | Some idx \<Rightarrow> take idx rest))"

text \<open>The body shared by the two extractors for offers.\<close>

definition offers_key :: "string \<Rightarrow> string \<Rightarrow> json \<Rightarrow> string option" where
  "offers_key label uriPrefix elem =
     do {
       fs \<leftarrow> struct_fields elem;
       uri \<leftarrow> field_of dec_str [] fs ''uri'';
       marketplaceId \<leftarrow> field_of dec_str [] fs ''MarketplaceId'';
       itemCondition \<leftarrow> field_of dec_str [] fs ''ItemCondition'';
       customerType \<leftarrow> field_of dec_str [] fs ''CustomerType'';
       let ident = extractPathSegment uri uriPrefix ''/offers'';
       if ident = [] then None
       else Some (label @ '':'' @ ident @ '':'' @ marketplaceId @ '':'' @ itemCondition @ '':'' @
         (if customerType = [] then ''Consumer'' else customerType))
     }"

definition extractItemOffersKey :: "json \<Rightarrow> string option" where
  "extractItemOffersKey elem = offers_key ''itemOffers'' ''/products/pricing/v0/items/'' elem"

definition extractListingOffersKey :: "json \<Rightarrow> string option" where
  "extractListingOffersKey elem = offers_key ''listingOffers'' ''/products/pricing/v0/listings/'' elem"

text \<open>\<^verbatim>\<open>{CurrencyCode, Amount}\<close>, as a value and behind a pointer.\<close>

definition dec_money :: "json \<Rightarrow> (string \<times> rat) option" where
  "dec_money v =
     do {
       fs \<leftarrow> struct_fields v;
       c \<leftarrow> field_of dec_str [] fs ''CurrencyCode'';
       a \<leftarrow> field_of dec_float 0 fs ''Amount'';
       Some (c, a)
     }"

definition dec_prices :: "json \<Rightarrow> ((string \<times> rat) \<times> (string \<times> rat) option) option" where
  "dec_prices v =
     do {
       fs \<leftarrow> struct_fields v;
       listing \<leftarrow> field_of dec_money ([], 0) fs ''ListingPrice'';
       shipping \<leftarrow> field_of (\<lambda>x. map_option Some (dec_money x)) None fs ''Shipping'';
       Some (listing, shipping)
     }"

definition dec_fer :: "json \<Rightarrow> (string \<times> bool option \<times> ((string \<times> rat) \<times> (string \<times> rat) option) \<times> string) option" where
  "dec_fer v =
     do {
       fs \<leftarrow> struct_fields v;
       marketplaceId \<leftarrow> field_of dec_str [] fs ''MarketplaceId'';
       fulfilled \<leftarrow> field_of dec_bool None fs ''IsAmazonFulfilled'';
       prices \<leftarrow> field_of dec_prices (([], 0), None) fs ''PriceToEstimateFees'';
       program \<leftarrow> field_of dec_str [] fs ''OptionalFulfillmentProgram'';
       Some (marketplaceId, fulfilled, prices, program)
     }"

definition extractFeesKey :: "json \<Rightarrow> string option" where
  "extractFeesKey elem =
     do {
       fs \<leftarrow> struct_fields elem;
       idType \<leftarrow> field_of dec_str [] fs ''IdType'';
       idValue \<leftarrow> field_of dec_str [] fs ''IdValue'';
       (marketplaceId, isFulfilled, ((currency, amount), shipping), program) \<leftarrow>
         field_of dec_fer ([], None, (([], 0), None), []) fs ''FeesEstimateRequest'';
       let fulfilled = (case isFulfilled of None \<Rightarrow> ''nil'' | Some True \<Rightarrow> ''true'' | Some False \<Rightarrow> ''false'');
       let shippingAmt = (case shipping of None \<Rightarrow> 0 | Some (_, a) \<Rightarrow> a);
       Some (''fees:'' @ idType @ '':'' @ idValue @ '':'' @ marketplaceId @ '':'' @ fulfilled @ '':'' @
         fmt_fixed 2 amount @ '':'' @ currency @ '':'' @ fmt_fixed 2 shippingAmt @ '':'' @ program)
     }"

definition extractCompetitiveSummaryKey :: "json \<Rightarrow> string option" where
  "extractCompetitiveSummaryKey elem =
     do {
       fs \<leftarrow> struct_fields elem;
       asin \<leftarrow> field_of dec_str [] fs ''asin'';
       marketplaceId \<leftarrow> field_of dec_str [] fs ''marketplaceId'';
       includedData \<leftarrow> field_of dec_strs [] fs ''includedData'';
       if asin = [] \<or> marketplaceId = [] then None
       else Some (''competitiveSummary:'' @ asin @ '':'' @ marketplaceId @ '':'' @ join '','' (sort includedData))
     }"

definition extractFOEPKey :: "json \<Rightarrow> string option" where
  "extractFOEPKey elem =
     do {
       fs \<leftarrow> struct_fields elem;
       marketplaceId \<leftarrow> field_of dec_str [] fs ''marketplaceId'';
       sku \<leftarrow> field_of dec_str [] fs ''sku'';
       if sku = [] \<or> marketplaceId = [] then None
       else Some (''foep:'' @ sku @ '':'' @ marketplaceId)
     }"

section \<open>The registry of batch endpoints\<close>

datatype batchBodyFormat = batchFormatWrapped | batchFormatBare

record batch_config =
  bc_format :: batchBodyFormat
  bc_extractKey :: "json \<Rightarrow> string option"
  bc_wrapReq :: string
  bc_wrapResp :: string

definition wrapped_config :: "(json \<Rightarrow> string option) \<Rightarrow> batch_config" where
  "wrapped_config ex = \<lparr>bc_format = batchFormatWrapped, bc_extractKey = ex, bc_wrapReq = ''requests'',
     bc_wrapResp = ''responses''\<rparr>"

definition batchEndpointRegistry :: "(string \<times> batch_config) list" where
  "batchEndpointRegistry = [
     (''/batches/products/pricing/v0/itemOffers'', wrapped_config extractItemOffersKey),
     (''/batches/products/pricing/v0/listingOffers'', wrapped_config extractListingOffersKey),
     (''/products/fees/v0/feesEstimate'',
      \<lparr>bc_format = batchFormatBare, bc_extractKey = extractFeesKey, bc_wrapReq = [], bc_wrapResp = []\<rparr>),
     (''/batches/products/pricing/2022-05-01/items/competitiveSummary'', wrapped_config extractCompetitiveSummaryKey),
     (''/batches/products/pricing/2022-05-01/offer/featuredOfferExpectedPrice'', wrapped_config extractFOEPKey)]"

text \<open>The Go map is visited in any order; no two of its keys are prefixes of one path, so that the
  order does not matter.\<close>

definition lookupBatchConfig :: "string \<Rightarrow> batch_config option" where
  "lookupBatchConfig path = map_option snd (find (\<lambda>(prefix, _). has_prefix path prefix) batchEndpointRegistry)"

definition batchElementCacheKey :: "string \<Rightarrow> string \<Rightarrow> string \<Rightarrow> string" where
  "batchElementCacheKey merchantKey path elementSuffix =
     merchantKey @ '':BATCH:'' @ path @ '':'' @ elementSuffix"

section \<open>Elements of requests and responses\<close>

text \<open>The array in a body: under a field of an object, or the body itself. A null array is empty.\<close>

definition json_elements :: "json \<Rightarrow> json list option" where
  "json_elements v = (case v of JArr xs \<Rightarrow> Some xs | JNull \<Rightarrow> Some [] | _ \<Rightarrow> None)"

definition parse_elements :: "codec \<Rightarrow> batchBodyFormat \<Rightarrow> string \<Rightarrow> string \<Rightarrow> json list option" where
  "parse_elements cd fmt field body =
     (case unmarshal cd body of
        None \<Rightarrow> None
      | Some v \<Rightarrow>
          (case fmt of
             batchFormatWrapped \<Rightarrow>
               (case struct_fields v of
                  None \<Rightarrow> None
                | Some fs \<Rightarrow> (case map_of fs field of None \<Rightarrow> None | Some arr \<Rightarrow> json_elements arr))
           | batchFormatBare \<Rightarrow> json_elements v))"

definition parseBatchElements :: "codec \<Rightarrow> batch_config \<Rightarrow> string \<Rightarrow> json list option" where
  "parseBatchElements cd bcfg body = parse_elements cd (bc_format bcfg) (bc_wrapReq bcfg) body"

definition parseBatchResponseElements :: "codec \<Rightarrow> batch_config \<Rightarrow> string \<Rightarrow> json list option" where
  "parseBatchResponseElements cd bcfg body = parse_elements cd (bc_format bcfg) (bc_wrapResp bcfg) body"

definition isSuccessElement :: "batch_config \<Rightarrow> json \<Rightarrow> bool" where
  "isSuccessElement bcfg elem =
     (case bc_format bcfg of
        batchFormatWrapped \<Rightarrow>
          (case struct_fields elem of
             None \<Rightarrow> False
           | Some fs \<Rightarrow>
               (case field_of (\<lambda>v. Option.bind (struct_fields v) (\<lambda>fs'. field_of dec_int 0 fs' ''statusCode'')) 0
                   fs ''status'' of
                  None \<Rightarrow> False | Some c \<Rightarrow> 200 \<le> c \<and> c < 300))
      | batchFormatBare \<Rightarrow>
          (case struct_fields elem of
             None \<Rightarrow> False
           | Some fs \<Rightarrow> field_of dec_str [] fs ''Status'' = Some ''Success''))"

text \<open>The entry of an element: its key, empty if none could be extracted, and what was cached.\<close>

record element_entry =
  el_key :: string
  el_cached :: "cached_response option"

fun lookup_elements :: "(json \<Rightarrow> string option) \<Rightarrow> string \<Rightarrow> string \<Rightarrow> json list \<Rightarrow> mem_cache \<Rightarrow> time \<Rightarrow>
    element_entry list \<times> mem_cache" where
  "lookup_elements ex mk path [] mc t = ([], mc)"
| "lookup_elements ex mk path (elem # elems) mc t =
     (case ex elem of
        None \<Rightarrow>
          (case lookup_elements ex mk path elems mc t of
             (es, mc') \<Rightarrow> (\<lparr>el_key = [], el_cached = None\<rparr> # es, mc'))
      | Some suffix \<Rightarrow>
          (let cacheKey = batchElementCacheKey mk path suffix in
           case mc_Get mc cacheKey t of
             (cached, mc1) \<Rightarrow>
               (case lookup_elements ex mk path elems mc1 t of
                  (es, mc') \<Rightarrow> (\<lparr>el_key = cacheKey, el_cached = cached\<rparr> # es, mc'))))"

definition assembleBatchResponse :: "codec \<Rightarrow> batch_config \<Rightarrow> element_entry list \<Rightarrow> string option" where
  "assembleBatchResponse cd bcfg entries =
     (case those (map el_cached entries) of
        None \<Rightarrow> None
      | Some resps \<Rightarrow>
          (case those (map (\<lambda>c. unmarshal cd (Body c)) resps) of
             None \<Rightarrow> None
           | Some elements \<Rightarrow>
               (case bc_format bcfg of
                  batchFormatWrapped \<Rightarrow> marshal cd (JObj [(bc_wrapResp bcfg, JArr elements)])
                | batchFormatBare \<Rightarrow> marshal cd (JArr elements))))"

fun store_elements :: "codec \<Rightarrow> batch_config \<Rightarrow> duration \<Rightarrow> time \<Rightarrow> string \<Rightarrow> element_entry list \<Rightarrow> json list \<Rightarrow>
    mem_cache \<Rightarrow> mem_cache" where
  "store_elements cd bcfg ttl t rid (e # es) (respElem # rs) mc =
     (let mc1 =
        (if el_key e = [] \<or> \<not> isSuccessElement bcfg respElem then mc
         else case marshal cd respElem of
           None \<Rightarrow> mc
         | Some elemBody \<Rightarrow>
             mc_Set mc (el_key e)
               \<lparr>StatusCode = 200, Headers = [(''Content-Type'', [''application/json''])], Body = elemBody,
                CachedAt = t, TTL = ttl, SourceRequestID = rid\<rparr> ttl t)
      in store_elements cd bcfg ttl t rid es rs mc1)"
| "store_elements cd bcfg ttl t rid _ _ mc = mc"

definition cacheResponseElements ::
  "codec \<Rightarrow> (string \<Rightarrow> time option) \<Rightarrow> header \<Rightarrow> request \<Rightarrow> string \<Rightarrow> element_entry list \<Rightarrow> batch_config \<Rightarrow>
     tier_config \<Rightarrow> cache_config \<Rightarrow> time \<Rightarrow> mem_cache \<Rightarrow> mem_cache" where
  "cacheResponseElements cd prfc h r respBody entries bcfg tier cfg t mc =
     (case parseBatchResponseElements cd bcfg respBody of
        None \<Rightarrow> mc
      | Some respElements \<Rightarrow>
          store_elements cd bcfg (resolveTTL prfc h tier (Some cfg) t) t (RequestIDFromContext r)
            entries respElements mc)"

definition handleBatchCache ::
  "codec \<Rightarrow> (string \<Rightarrow> time option) \<Rightarrow> tier_config \<Rightarrow> cache_config \<Rightarrow> batch_config \<Rightarrow>
     'a cache_world_scheme handler \<Rightarrow> 'a cache_world_scheme handler" where
  "handleBatchCache cd prfc tier cfg bcfg nxt r w s =
     (case parseBatchElements cd bcfg (r_body r) of
        None \<Rightarrow> nxt r w s
      | Some [] \<Rightarrow> nxt r w s
      | Some elements \<Rightarrow>
          (case lookup_elements (bc_extractKey bcfg) (m_key (MerchantFromContext r)) (r_path r) elements
                  (mcache s) (now s) of
             (entries, mc) \<Rightarrow>
               (let s1 = s\<lparr>mcache := mc\<rparr>;
                    allCached = list_all (\<lambda>e. el_cached e \<noteq> None) entries;
                    assembled = (if allCached then assembleBatchResponse cd bcfg entries else None)
                in case assembled of
                     Some body \<Rightarrow>
                       (w_write (w_write_header
                          (w_set (w_set w ''Content-Type'' ''application/json'') ''X-SP-Proxy-Cache'' ''HIT'') 200) body,
                        r_header r, s1)
                   | None \<Rightarrow>
                       (case nxt r newResponseRecorder s1 of
                          (rec, h, s2) \<Rightarrow>
                            (let w1 = copy_recorded w rec in
                             if 200 \<le> rec_statusCode rec \<and> rec_statusCode rec < 300
                             then (w1, h, s2\<lparr>mcache := cacheResponseElements cd prfc h r (w_body rec) entries bcfg
                                     tier cfg (now s2) (mcache s2)\<rparr>)
                             else (w1, h, s2))))))"

end
