(* ===== verification/Proxy.thy ===== *)
theory Proxy
  imports RateLimit
begin

text \<open>
  The reverse proxy (\<^verbatim>\<open>internal/proxy\<close>) and the region table (\<^verbatim>\<open>internal/server/region.go\<close>):
  the director, the response modifier that feeds the rate limiter, the classification of
  transport errors and the error handler, and the composition of middlewares.

  \<^verbatim>\<open>httputil.ReverseProxy\<close> is written out as far as a plain request needs it: the request is
  cloned and directed, hop-by-hop headers are removed, \<^verbatim>\<open>X-Forwarded-For\<close> and an empty
  \<^verbatim>\<open>User-Agent\<close> are set; the response loses its hop-by-hop headers, is modified and copied.
  Protocol upgrades and trailers are left out. The transport is the parameter \<open>roundTrip\<close>.

  Shown: no \<^verbatim>\<open>X-SP-Proxy-*\<close> header ever reaches the transport; whatever error the transport
  reports, the client sees status 502 and one of four coarse reasons.
\<close>

section \<open>Regions\<close>

datatype region = RegionEU | RegionNA | RegionFE | OtherRegion string

fun RegionEndpoints :: "region \<Rightarrow> string option" where
  "RegionEndpoints RegionEU = Some ''sellingpartnerapi-eu.amazon.com''"
| "RegionEndpoints RegionNA = Some ''sellingpartnerapi-na.amazon.com''"
| "RegionEndpoints RegionFE = Some ''sellingpartnerapi-fe.amazon.com''"
| "RegionEndpoints (OtherRegion _) = None"

definition AllRegions :: "region list" where
  "AllRegions = [RegionEU, RegionNA, RegionFE]"

section \<open>The director\<close>

record outbound =
  o_scheme :: string
  o_host :: string
  o_req :: request

definition internal_header :: "string \<Rightarrow> bool" where
  "internal_header k \<longleftrightarrow> has_prefix (to_lower k) ''x-sp-proxy-''"

text \<open>The loop deletes from the map while it ranges over it: every key present at the start is
  visited once, or deleted before its turn.\<close>

definition strip_internal :: "header \<Rightarrow> header" where
  "strip_internal h = foldl (\<lambda>h k. if internal_header k then hdr_del h k else h) h (map fst h)"

definition newDirectorWithScheme :: "string \<Rightarrow> string \<Rightarrow> request \<Rightarrow> outbound" where
  "newDirectorWithScheme scheme targetHost req =
     \<lparr>o_scheme = scheme, o_host = targetHost, o_req = req\<lparr>r_header := strip_internal (r_header req)\<rparr>\<rparr>"

definition newDirector :: "string \<Rightarrow> request \<Rightarrow> outbound" where
  "newDirector targetHost = newDirectorWithScheme ''https'' targetHost"

section \<open>Transport errors\<close>

text \<open>An error as \<^verbatim>\<open>errors.Is\<close> and \<^verbatim>\<open>errors.As\<close> see it: a chain of wrappers around a cause. The
  strings of \<open>UrlError\<close>, \<open>OpError\<close> and \<open>Wrapped\<close> are what \<^verbatim>\<open>Error()\<close> prints before the cause;
  for \<open>OpError\<close> the operation comes first.\<close>

datatype go_error =
    CtxDeadlineExceeded
  | CtxCanceled
  | Errno string bool
  | OsDeadlineExceeded
  | UrlError string go_error
  | OpError string string go_error
  | DNSError string bool
  | CertificateVerificationError string
  | RecordHeaderError string
  | Wrapped string go_error
  | PlainError string

fun err_chain :: "go_error \<Rightarrow> go_error list" where
  "err_chain (UrlError p e) = UrlError p e # err_chain e"
| "err_chain (OpError op p e) = OpError op p e # err_chain e"
| "err_chain (Wrapped p e) = Wrapped p e # err_chain e"
| "err_chain e = [e]"

text \<open>The method \<^verbatim>\<open>Timeout()\<close>; a type without it does not time out.\<close>

fun err_timeout :: "go_error \<Rightarrow> bool" where
  "err_timeout CtxDeadlineExceeded = True"
| "err_timeout OsDeadlineExceeded = True"
| "err_timeout (Errno _ t) = t"
| "err_timeout (UrlError _ e) = err_timeout e"
| "err_timeout (OpError _ _ e) = err_timeout e"
| "err_timeout (DNSError _ t) = t"
| "err_timeout _ = False"

fun err_text :: "go_error \<Rightarrow> string" where
  "err_text CtxDeadlineExceeded = ''context deadline exceeded''"
| "err_text CtxCanceled = ''context canceled''"
| "err_text (Errno s _) = s"
| "err_text OsDeadlineExceeded = ''i/o timeout''"
| "err_text (UrlError p e) = p @ err_text e"
| "err_text (OpError op p e) = op @ p @ err_text e"
| "err_text (DNSError s _) = s"
| "err_text (CertificateVerificationError s) = s"
| "err_text (RecordHeaderError s) = s"
| "err_text (Wrapped p e) = p @ err_text e"
| "err_text (PlainError s) = s"

definition errors_Is :: "go_error \<Rightarrow> go_error \<Rightarrow> bool" where
  "errors_Is e target \<longleftrightarrow> target \<in> set (err_chain e)"

text \<open>\<^verbatim>\<open>errors.As\<close>: the first error of the chain of the wanted type.\<close>

definition errors_As :: "(go_error \<Rightarrow> bool) \<Rightarrow> go_error \<Rightarrow> go_error option" where
  "errors_As P e = find P (err_chain e)"

definition ECONNREFUSED :: go_error where "ECONNREFUSED = Errno ''connection refused'' False"
definition ECONNRESET :: go_error where "ECONNRESET = Errno ''connection reset by peer'' False"

definition classifyByErrorsIs :: "go_error \<Rightarrow> string option" where
  "classifyByErrorsIs e =
     (if errors_Is e CtxDeadlineExceeded then Some ''upstream_timeout''
      else if errors_Is e CtxCanceled then Some ''client_disconnected''
      else if errors_Is e ECONNREFUSED then Some ''connection_refused''
      else if errors_Is e ECONNRESET then Some ''connection_reset''
      else None)"

fun is_UrlError :: "go_error \<Rightarrow> bool" where
  "is_UrlError (UrlError _ _) = True" | "is_UrlError _ = False"

fun is_OpError :: "go_error \<Rightarrow> bool" where
  "is_OpError (OpError _ _ _) = True" | "is_OpError _ = False"

fun is_DNSError :: "go_error \<Rightarrow> bool" where
  "is_DNSError (DNSError _ _) = True" | "is_DNSError _ = False"

fun is_CertError :: "go_error \<Rightarrow> bool" where
  "is_CertError (CertificateVerificationError _) = True" | "is_CertError _ = False"

fun is_RecordError :: "go_error \<Rightarrow> bool" where
  "is_RecordError (RecordHeaderError _) = True" | "is_RecordError _ = False"

definition classify_tls :: "go_error \<Rightarrow> string option" where
  "classify_tls e =
     (if errors_As is_CertError e \<noteq> None then Some ''tls_certificate_error''
      else if errors_As is_RecordError e \<noteq> None then Some ''tls_handshake_error''
      else None)"

definition classifyNetOrTLSError :: "go_error \<Rightarrow> string option" where
  "classifyNetOrTLSError e =
     (case errors_As is_OpError e of
        Some (OpError op p inner) \<Rightarrow>
          if err_timeout (OpError op p inner) then Some ''upstream_timeout''
          else if op = ''dial'' then
            (if errors_As is_DNSError inner \<noteq> None then Some ''dns_resolution_failed''
             else Some ''connection_failed'')
          else if op = ''read'' then Some ''upstream_read_error''
          else if op = ''write'' then Some ''upstream_write_error''
          else classify_tls e
      | _ \<Rightarrow> classify_tls e)"

definition classifyByErrorString :: "string \<Rightarrow> string" where
  "classifyByErrorString s =
     (if contains s ''tls'' \<or> contains s ''TLS'' \<or> contains s ''certificate'' then ''tls_error''
      else if contains s ''timeout'' \<or> contains s ''Timeout'' then ''upstream_timeout''
      else if contains s ''EOF'' then ''upstream_closed_connection''
      else if contains s ''connection reset'' then ''connection_reset''
      else if contains s ''no such host'' then ''dns_resolution_failed''
      else ''upstream_error'')"

text \<open>The part after the URL error was unwrapped.\<close>

definition classify_cause :: "go_error \<Rightarrow> string" where
  "classify_cause e =
     (case classifyNetOrTLSError e of
        Some reason \<Rightarrow> reason
      | None \<Rightarrow>
          if errors_Is e OsDeadlineExceeded then ''upstream_timeout''
          else classifyByErrorString (err_text e))"

definition classifyUpstreamError :: "go_error option \<Rightarrow> string" where
  "classifyUpstreamError err =
     (case err of
        None \<Rightarrow> ''unknown''
      | Some e \<Rightarrow>
          (case classifyByErrorsIs e of
             Some reason \<Rightarrow> reason
           | None \<Rightarrow>
               (case errors_As is_UrlError e of
                  Some (UrlError p inner) \<Rightarrow>
                    if err_timeout (UrlError p inner) then ''upstream_timeout'' else classify_cause inner
                | _ \<Rightarrow> classify_cause e)))"

definition externalReason :: "string \<Rightarrow> string" where
  "externalReason internal =
     (if internal \<in> {''upstream_timeout'', ''client_disconnected'', ''client_disconnected_in_queue''} then internal
      else ''upstream_error'')"

text \<open>The slot for the internal reason that the logging middleware puts in the request context:
  \<open>None\<close> without one, otherwise the assignment through the pointer.\<close>

type_synonym 's reason_slot = "(string \<Rightarrow> 's \<Rightarrow> 's) option"

definition SetInternalErrorReason :: "'s reason_slot \<Rightarrow> string \<Rightarrow> 's \<Rightarrow> 's" where
  "SetInternalErrorReason slot reason s = (case slot of None \<Rightarrow> s | Some assign \<Rightarrow> assign reason s)"

definition newErrorHandler :: "'s reason_slot \<Rightarrow> rw \<Rightarrow> go_error \<Rightarrow> 's \<Rightarrow> rw \<times> 's" where
  "newErrorHandler slot w err s =
     (let reason = classifyUpstreamError (Some err);
          external = externalReason reason;
          s1 = SetInternalErrorReason slot reason s;
          w1 = w_set w ''Content-Type'' ''application/json'';
          w2 = w_set w1 ''X-SP-Proxy-Error-Reason'' external
      in (w_write (w_write_header w2 502)
            (''{\"errors\":[{\"code\":\"PROXY_ERROR\",\"message\":\"upstream unavailable\",\"detail\":\"'' @ external @ ''\"}]}''),
          s1))"

section \<open>The response modifier\<close>

record upstream_response =
  resp_status :: nat
  resp_header :: header
  resp_body :: string

definition newResponseModifierWithLimiter ::
  "bool \<Rightarrow> request \<Rightarrow> upstream_response \<Rightarrow> 'a lim_world_scheme \<Rightarrow> upstream_response \<times> 'a lim_world_scheme" where
  "newResponseModifierWithLimiter limited req resp s =
     (let m = MerchantFromContext req in
      if m_key m = [] then (resp, s)
      else
        (let resp1 = resp\<lparr>resp_header := hdr_set (resp_header resp) ''X-SP-Proxy-Merchant-Key'' (m_key m)\<rparr> in
         (resp1,
          if limited
          then s\<lparr>lim := UpdateFromResponse (lim s) (m_key m) (r_method req) (ClassifyEndpoint (r_path req))
                   (resp_header resp1) (now s)\<rparr>
          else s)))"

section \<open>The reverse proxy\<close>

definition hopHeaders :: "string list" where
  "hopHeaders = [''Connection'', ''Proxy-Connection'', ''Keep-Alive'', ''Proxy-Authenticate'', ''Proxy-Authorization'',
     ''Te'', ''Trailer'', ''Transfer-Encoding'', ''Upgrade'']"

definition connection_tokens :: "header \<Rightarrow> string list" where
  "connection_tokens h =
     filter (\<lambda>t. t \<noteq> []) (map trim_space (concat (map (split_on (CHR '','')) (hdr_vals h ''Connection''))))"

definition removeHopByHopHeaders :: "header \<Rightarrow> header" where
  "removeHopByHopHeaders h = foldl hdr_del (foldl hdr_del h (connection_tokens h)) hopHeaders"

definition forwarded_for :: "string option \<Rightarrow> header \<Rightarrow> header" where
  "forwarded_for clientIP h =
     (case clientIP of
        None \<Rightarrow> h
      | Some ip \<Rightarrow>
          hdr_set h ''X-Forwarded-For''
            (join '', '' (hdr_vals h ''X-Forwarded-For'' @ [ip])))"

definition default_agent :: "header \<Rightarrow> header" where
  "default_agent h = (if map_of h ''User-Agent'' = None then hdr_set h ''User-Agent'' [] else h)"

type_synonym 's transport = "outbound \<Rightarrow> 's \<Rightarrow> (go_error + upstream_response) \<times> 's"

record region_proxy =
  px_director :: "request \<Rightarrow> outbound"
  px_limited :: bool

definition outgoing :: "region_proxy \<Rightarrow> string option \<Rightarrow> request \<Rightarrow> outbound" where
  "outgoing px clientIP r =
     (let o1 = px_director px r;
          h = default_agent (forwarded_for clientIP (removeHopByHopHeaders (r_header (o_req o1))))
      in o1\<lparr>o_req := (o_req o1)\<lparr>r_header := h\<rparr>\<rparr>)"

definition ReverseProxy ::
  "region_proxy \<Rightarrow> 'a lim_world_scheme transport \<Rightarrow> 'a lim_world_scheme reason_slot \<Rightarrow> string option \<Rightarrow>
     'a lim_world_scheme handler" where
  "ReverseProxy px roundTrip slot clientIP r w s =
     (case roundTrip (outgoing px clientIP r) s of
        (Inl err, s1) \<Rightarrow>
          (case newErrorHandler slot w err s1 of (w', s2) \<Rightarrow> (w', r_header r, s2))
      | (Inr resp, s1) \<Rightarrow>
          (case newResponseModifierWithLimiter (px_limited px) r
                  (resp\<lparr>resp_header := removeHopByHopHeaders (resp_header resp)\<rparr>) s1 of
             (resp', s2) \<Rightarrow>
               (w_write (w_write_header (w\<lparr>w_header := hdr_add_all (w_header w) (resp_header resp')\<rparr>)
                  (resp_status resp')) (resp_body resp'), r_header r, s2)))"

definition NewRegionProxyWithLimiter :: "region \<Rightarrow> region_proxy option" where
  "NewRegionProxyWithLimiter rg =
     (case RegionEndpoints rg of
        None \<Rightarrow> None
      | Some target \<Rightarrow> Some \<lparr>px_director = newDirector target, px_limited = True\<rparr>)"

definition NewRegionProxy :: "region \<Rightarrow> region_proxy option" where
  "NewRegionProxy rg =
     (case RegionEndpoints rg of
        None \<Rightarrow> None
      | Some target \<Rightarrow> Some \<lparr>px_director = newDirector target, px_limited = False\<rparr>)"

text \<open>The constructors that the tests use forward over plain HTTP.\<close>

definition NewTestProxy :: "string \<Rightarrow> region_proxy" where
  "NewTestProxy host = \<lparr>px_director = newDirectorWithScheme ''http'' host, px_limited = False\<rparr>"

definition NewTestProxyWithLimiter :: "string \<Rightarrow> region_proxy" where
  "NewTestProxyWithLimiter host = \<lparr>px_director = newDirectorWithScheme ''http'' host, px_limited = True\<rparr>"

text \<open>The settings of the transport that the region proxies use.\<close>

record transport_settings =
  tr_DialTimeout :: duration
  tr_DialKeepAlive :: duration
  tr_MaxIdleConns :: nat
  tr_MaxIdleConnsPerHost :: nat
  tr_MaxConnsPerHost :: nat
  tr_IdleConnTimeout :: duration
  tr_TLSHandshakeTimeout :: duration
  tr_ResponseHeaderTimeout :: duration
  tr_DisableCompression :: bool

definition newTransport :: transport_settings where
  "newTransport =
     \<lparr>tr_DialTimeout = 10 * second, tr_DialKeepAlive = 30 * second, tr_MaxIdleConns = 200, tr_MaxIdleConnsPerHost = 50,
      tr_MaxConnsPerHost = 100, tr_IdleConnTimeout = 90 * second, tr_TLSHandshakeTimeout = 10 * second,
      tr_ResponseHeaderTimeout = 30 * second, tr_DisableCompression = False\<rparr>"

text \<open>The longest time until an upstream's response header, on a new connection.\<close>

definition header_wait :: "transport_settings \<Rightarrow> duration" where
  "header_wait tr = tr_DialTimeout tr + tr_TLSHandshakeTimeout tr + tr_ResponseHeaderTimeout tr"

text \<open>A transport whose answer depends on the request and the time only.\<close>

definition plain_transport :: "(outbound \<Rightarrow> time \<Rightarrow> go_error + upstream_response) \<Rightarrow> 'a world_scheme transport" where
  "plain_transport answer out s = (answer out (now s), s)"

lemma ReverseProxy_world:
  "\<exists>l. snd (snd (ReverseProxy px (plain_transport answer) None ip r w s)) = s\<lparr>lim := l\<rparr>"
proof -
  have "\<exists>l. s = s\<lparr>lim := l\<rparr>" by (rule exI [of _ "lim s"]) simp
  then show ?thesis
    by (auto simp: ReverseProxy_def plain_transport_def newErrorHandler_def SetInternalErrorReason_def
        newResponseModifierWithLimiter_def Let_def split: sum.splits)
qed

section \<open>Composition of middlewares\<close>

text \<open>The loop runs from the last middleware to the first.\<close>

fun chain_from :: "nat \<Rightarrow> ('s handler \<Rightarrow> 's handler) list \<Rightarrow> 's handler \<Rightarrow> 's handler" where
  "chain_from 0 ms h = h"
| "chain_from (Suc i) ms h = chain_from i ms ((ms ! i) h)"

definition BuildChain :: "'s handler \<Rightarrow> ('s handler \<Rightarrow> 's handler) list \<Rightarrow> 's handler" where
  "BuildChain h ms = chain_from (length ms) ms h"

lemma BuildChain_foldr: "BuildChain h ms = foldr (\<lambda>m. m) ms h"
proof -
  have "i \<le> length ms \<Longrightarrow> chain_from i ms h = foldr (\<lambda>m. m) (take i ms) h" for i
    by (induction i arbitrary: h) (simp_all add: take_Suc_conv_app_nth)
  then show ?thesis by (simp add: BuildChain_def)
qed

section \<open>Internal headers\<close>

definition hdr_canonical :: "header \<Rightarrow> bool" where
  "hdr_canonical h \<longleftrightarrow> (\<forall>k \<in> fst ` set h. canonical_key k = k)"

definition clean_header :: "header \<Rightarrow> bool" where
  "clean_header h \<longleftrightarrow> (\<forall>k \<in> fst ` set h. \<not> internal_header k)"

lemma strip_internal_clean:
  assumes "hdr_canonical h"
  shows "clean_header (strip_internal h)"
proof -
  have "fst ` set (foldl (\<lambda>h k. if internal_header k then hdr_del h k else h) g ks)
      = fst ` set g - {canonical_key k |k. k \<in> set ks \<and> internal_header k}" for g ks
    by (induction ks arbitrary: g) (auto simp: hdr_del_def image_iff)
  then show ?thesis using assms by (fastforce simp: clean_header_def strip_internal_def hdr_canonical_def)
qed

lemma clean_del: "clean_header h \<Longrightarrow> clean_header (foldl hdr_del h ks)"
proof (induction ks arbitrary: h)
  case (Cons k ks)
  have "clean_header (hdr_del h k)" using Cons.prems by (auto simp: clean_header_def hdr_del_def)
  then show ?case using Cons.IH by simp
qed simp

lemma clean_set: "clean_header h \<Longrightarrow> \<not> internal_header (canonical_key k) \<Longrightarrow> clean_header (hdr_set h k v)"
  by (simp add: clean_header_def hdr_set_def keys_hdr_put)

lemma forwarded_agent_external:
  "\<not> internal_header (canonical_key ''X-Forwarded-For'')" "\<not> internal_header (canonical_key ''User-Agent'')"
  by (simp_all add: internal_header_def canonical_key_def valid_header_byte_def to_lower_def lower_char_def
      upper_char_def Let_def)

lemma outgoing_clean:
  assumes "hdr_canonical (r_header r)" "px_director px = newDirector target"
  shows "clean_header (r_header (o_req (outgoing px ip r)))"
  using strip_internal_clean [OF assms(1)] assms(2)
  by (auto simp: outgoing_def newDirector_def newDirectorWithScheme_def default_agent_def forwarded_for_def
      removeHopByHopHeaders_def Let_def intro!: clean_set clean_del forwarded_agent_external split: option.splits)

section \<open>Properties\<close>

text \<open>C24: no internal header leaves the proxy. A region's proxy asks the transport only for
  requests to that region's host over HTTPS without any \<^verbatim>\<open>X-SP-Proxy-*\<close> header, in any letter
  case: two transports that agree on such requests cannot be told apart.\<close>

theorem internal_headers_stay:
  assumes "hdr_canonical (r_header r)" "NewRegionProxyWithLimiter rg = Some px"
    and "\<And>out s. o_scheme out = ''https'' \<Longrightarrow> RegionEndpoints rg = Some (o_host out) \<Longrightarrow>
      clean_header (r_header (o_req out)) \<Longrightarrow> rt out s = rt' out s"
  shows "ReverseProxy px rt slot ip r w s = ReverseProxy px rt' slot ip r w s"
proof -
  obtain target where t: "RegionEndpoints rg = Some target" "px_director px = newDirector target"
    using assms(2) by (auto simp: NewRegionProxyWithLimiter_def split: option.splits)
  have "o_scheme (outgoing px ip r) = ''https''" "o_host (outgoing px ip r) = target"
    by (simp_all add: outgoing_def t newDirector_def newDirectorWithScheme_def Let_def)
  then have "rt (outgoing px ip r) s = rt' (outgoing px ip r) s"
    using assms(3) outgoing_clean [OF assms(1) t(2)] t(1) by simp
  then show ?thesis by (simp add: ReverseProxy_def)
qed

definition demo_request :: request where
  "demo_request = \<lparr>r_method = ''GET'', r_path = ''/orders/v0/orders'', r_query = [],
     r_header = [(''X-Sp-Proxy-Merchant-Id'', [''A'']), (''X-Amz-Access-Token'', [''t''])], r_body = [], r_length = 0,
     ctx_merchant = None, ctx_request_id = [], ctx_done = False\<rparr>"

definition eu_proxy :: region_proxy where
  "eu_proxy = \<lparr>px_director = newDirector ''sellingpartnerapi-eu.amazon.com'', px_limited = True\<rparr>"

definition demo_lim_world :: lim_world where
  "demo_lim_world = \<lparr>now = 0, lim = NewLimiter (Fin 1) 1\<rparr>"

definition ok_response :: upstream_response where
  "ok_response = \<lparr>resp_status = 200, resp_header = [], resp_body = ''{}''\<rparr>"

theorem internal_headers_stay_witness:
  "ReverseProxy eu_proxy (\<lambda>out s. (Inr ok_response, s)) None None demo_request new_rw demo_lim_world
   = ReverseProxy eu_proxy (\<lambda>out s. (if clean_header (r_header (o_req out)) then Inr ok_response else Inl CtxCanceled, s))
       None None demo_request new_rw demo_lim_world"
proof (rule internal_headers_stay [where rg = RegionEU])
  show "hdr_canonical (r_header demo_request)"
    by (simp add: demo_request_def hdr_canonical_def canonical_key_def valid_header_byte_def lower_char_def
        upper_char_def Let_def)
qed (simp_all add: NewRegionProxyWithLimiter_def eu_proxy_def)

text \<open>C30: transport errors are reported coarsely. Whatever the transport's error, the client gets
  status 502 and one of four reasons in header and body; the internal classification goes only to the
  slot. A deadline in the chain of causes is reported as a timeout, and else a cancelled context
  as the client's disconnect.\<close>

theorem upstream_error_coarse:
  assumes "roundTrip (outgoing px ip r) s = (Inl err, s1)"
  shows "\<exists>e \<in> {''upstream_timeout'', ''client_disconnected'', ''client_disconnected_in_queue'', ''upstream_error''}.
      \<exists>w'. ReverseProxy px roundTrip slot ip r w s
          = (w', r_header r, SetInternalErrorReason slot (classifyUpstreamError (Some err)) s1)
      \<and> w_codes w' = w_codes w @ [502] \<and> hdr_get (w_header w') ''X-SP-Proxy-Error-Reason'' = e
      \<and> w_body w' = w_body w @
          ''{\"errors\":[{\"code\":\"PROXY_ERROR\",\"message\":\"upstream unavailable\",\"detail\":\"'' @ e @ ''\"}]}''
      \<and> (errors_Is err CtxDeadlineExceeded \<longrightarrow> e = ''upstream_timeout'')
      \<and> (\<not> errors_Is err CtxDeadlineExceeded \<and> errors_Is err CtxCanceled \<longrightarrow> e = ''client_disconnected'')"
proof -
  let ?e = "externalReason (classifyUpstreamError (Some err))"
  have "?e \<in> {''upstream_timeout'', ''client_disconnected'', ''client_disconnected_in_queue'', ''upstream_error''}"
    by (auto simp: externalReason_def)
  moreover have "errors_Is err CtxDeadlineExceeded \<Longrightarrow> ?e = ''upstream_timeout''"
    by (simp add: classifyUpstreamError_def classifyByErrorsIs_def externalReason_def)
  moreover have "\<not> errors_Is err CtxDeadlineExceeded \<Longrightarrow> errors_Is err CtxCanceled \<Longrightarrow> ?e = ''client_disconnected''"
    by (simp add: classifyUpstreamError_def classifyByErrorsIs_def externalReason_def)
  ultimately show ?thesis
    using assms by (intro bexI [of _ ?e]) (auto simp: ReverseProxy_def newErrorHandler_def Let_def hdr_simps)
qed

theorem upstream_error_coarse_witness:
  "\<exists>w'. ReverseProxy eu_proxy (\<lambda>out s. (Inl (UrlError ''Get: '' CtxDeadlineExceeded), s)) None None demo_request new_rw
      demo_lim_world = (w', r_header demo_request, demo_lim_world)
    \<and> w_codes w' = [502] \<and> hdr_get (w_header w') ''X-SP-Proxy-Error-Reason'' = ''upstream_timeout''"
proof -
  have "errors_Is (UrlError ''Get: '' CtxDeadlineExceeded) CtxDeadlineExceeded" by (simp add: errors_Is_def)
  then show ?thesis
    using upstream_error_coarse [where roundTrip = "\<lambda>out s. (Inl (UrlError ''Get: '' CtxDeadlineExceeded), s)"
        and px = eu_proxy and ip = None and r = demo_request and s = demo_lim_world and slot = None and w = new_rw, OF refl]
    by (fastforce simp: SetInternalErrorReason_def)
qed

end
