(* ===== verification/Rdt.thy ===== *)
theory Rdt
  imports BatchCache Proxy
begin

text \<open>
  Restricted data tokens (\<^verbatim>\<open>internal/rdt\<close>), the parts below the middleware: the table of restricted
  operations (\<^verbatim>\<open>matcher.go\<close>), the token cache (\<^verbatim>\<open>cache.go\<close>), the tracker that links report
  documents to report types (\<^verbatim>\<open>reports.go\<close>) and the call to Amazon's Tokens API (\<^verbatim>\<open>mint.go\<close>).

  Shown: every row of the table is reached by the paths it is meant for; a token is served from
  the cache only before its expiry less the safety margin; a document is known for as long as
  the links that lead to it are fresh.
\<close>

section \<open>Restricted operations\<close>

record pii_operation =
  op_GenericPath :: string
  op_Method :: string
  op_DataElements :: "string list"
  op_Cacheable :: bool

record restricted_resource =
  rr_Method :: string
  rr_Path :: string
  rr_DataElements :: "string list"

definition ToRestrictedResource :: "pii_operation \<Rightarrow> restricted_resource" where
  "ToRestrictedResource op =
     \<lparr>rr_Method = op_Method op, rr_Path = op_GenericPath op, rr_DataElements = op_DataElements op\<rparr>"

definition ordersV0DataElements :: "string list" where
  "ordersV0DataElements = [''buyerInfo'', ''shippingAddress'', ''buyerTaxInformation'']"

record pii_rule =
  pr_prefix :: string
  pr_segments :: nat
  pr_suffix :: string
  pr_method :: string
  pr_genericPath :: string
  pr_dataElems :: "string list"
  pr_cacheable :: bool

definition rdt_rule :: "string \<Rightarrow> nat \<Rightarrow> string \<Rightarrow> string \<Rightarrow> string \<Rightarrow> string list \<Rightarrow> pii_rule" where
  "rdt_rule p n sfx m g ds = \<lparr>pr_prefix = p, pr_segments = n, pr_suffix = sfx, pr_method = m, pr_genericPath = g,
     pr_dataElems = ds, pr_cacheable = True\<rparr>"

definition piiRules_orders :: "pii_rule list" where
  "piiRules_orders = [
     rdt_rule ''/orders/v0/orders/'' 7 ''orderItems/buyerInfo'' ''GET'' ''/orders/v0/orders/{orderId}/orderItems/buyerInfo'' [],
     rdt_rule ''/orders/v0/orders/'' 6 ''orderItems'' ''GET'' ''/orders/v0/orders/{orderId}/orderItems'' ordersV0DataElements,
     rdt_rule ''/orders/v0/orders/'' 6 ''address'' ''GET'' ''/orders/v0/orders/{orderId}/address'' [],
     rdt_rule ''/orders/v0/orders/'' 6 ''buyerInfo'' ''GET'' ''/orders/v0/orders/{orderId}/buyerInfo'' [],
     rdt_rule ''/orders/v0/orders/'' 6 ''regulatedInfo'' ''GET'' ''/orders/v0/orders/{orderId}/regulatedInfo'' [],
     rdt_rule ''/orders/v0/orders/'' 5 [] ''GET'' ''/orders/v0/orders/{orderId}'' ordersV0DataElements,
     rdt_rule ''/orders/v0/orders'' 4 [] ''GET'' ''/orders/v0/orders'' ordersV0DataElements]"

definition piiRules_shipping :: "pii_rule list" where
  "piiRules_shipping = [
     rdt_rule ''/mfn/v0/shipments/'' 6 ''cancel'' ''PUT'' ''/mfn/v0/shipments/{shipmentId}/cancel'' [],
     rdt_rule ''/mfn/v0/shipments/'' 5 [] ''GET'' ''/mfn/v0/shipments/{shipmentId}'' [],
     rdt_rule ''/mfn/v0/shipments'' 4 [] ''POST'' ''/mfn/v0/shipments'' [],
     rdt_rule ''/shipping/v1/shipments/'' 5 [] ''GET'' ''/shipping/v1/shipments/{shipmentId}'' [],
     rdt_rule ''/fba/outbound/brazil/v0/shipments/'' 7 [] ''GET'' ''/fba/outbound/brazil/v0/shipments/{shipmentId}'' [],
     rdt_rule ''/easyShip/2022-03-23/packages/bulk'' 5 [] ''POST'' ''/easyShip/2022-03-23/packages/bulk'' []]"

definition piiRules_vendor :: "pii_rule list" where
  "piiRules_vendor = [
     rdt_rule ''/vendor/directFulfillment/orders/2021-12-28/purchaseOrders/'' 7 [] ''GET''
       ''/vendor/directFulfillment/orders/2021-12-28/purchaseOrders/{purchaseOrderNumber}'' [],
     rdt_rule ''/vendor/directFulfillment/orders/2021-12-28/purchaseOrders'' 6 [] ''GET''
       ''/vendor/directFulfillment/orders/2021-12-28/purchaseOrders'' [],
     rdt_rule ''/vendor/directFulfillment/shipping/2021-12-28/shippingLabels/'' 7 [] ''GET''
       ''/vendor/directFulfillment/shipping/2021-12-28/shippingLabels/{purchaseOrderNumber}'' [],
     rdt_rule ''/vendor/directFulfillment/shipping/2021-12-28/shippingLabels'' 6 [] ''GET''
       ''/vendor/directFulfillment/shipping/2021-12-28/shippingLabels'' [],
     rdt_rule ''/vendor/directFulfillment/shipping/2021-12-28/packingSlips/'' 7 [] ''GET''
       ''/vendor/directFulfillment/shipping/2021-12-28/packingSlips/{purchaseOrderNumber}'' [],
     rdt_rule ''/vendor/directFulfillment/shipping/2021-12-28/packingSlips'' 6 [] ''GET''
       ''/vendor/directFulfillment/shipping/2021-12-28/packingSlips'' [],
     rdt_rule ''/vendor/directFulfillment/shipping/2021-12-28/customerInvoices/'' 7 [] ''GET''
       ''/vendor/directFulfillment/shipping/2021-12-28/customerInvoices/{purchaseOrderNumber}'' [],
     rdt_rule ''/vendor/directFulfillment/shipping/2021-12-28/customerInvoices'' 6 [] ''GET''
       ''/vendor/directFulfillment/shipping/2021-12-28/customerInvoices'' []]"

definition piiRules :: "pii_rule list" where
  "piiRules = piiRules_orders @ piiRules_shipping @ piiRules_vendor"

lemmas piiRules_defs = piiRules_def piiRules_orders_def piiRules_shipping_def piiRules_vendor_def

definition pii_rule_matches :: "string \<Rightarrow> string \<Rightarrow> pii_rule \<Rightarrow> bool" where
  "pii_rule_matches method path rule \<longleftrightarrow>
     (pr_method rule = ''*'' \<or> pr_method rule = method)
     \<and> (has_prefix path (pr_prefix rule) \<or> path = pr_prefix rule)
     \<and> count_byte path (CHR ''/'') + 1 = pr_segments rule
     \<and> (pr_suffix rule = [] \<or> has_suffix path (''/'' @ pr_suffix rule))"

definition rule_operation :: "pii_rule \<Rightarrow> pii_operation" where
  "rule_operation rule = \<lparr>op_GenericPath = pr_genericPath rule, op_Method = pr_method rule,
     op_DataElements = pr_dataElems rule, op_Cacheable = pr_cacheable rule\<rparr>"

definition MatchPIIOperation :: "string \<Rightarrow> string \<Rightarrow> pii_operation option" where
  "MatchPIIOperation method path0 =
     (let path = trim_right (strip_query path0) (CHR ''/'') in
      map_option rule_operation (find (pii_rule_matches method path) piiRules))"

section \<open>The token cache\<close>

record rdt_key =
  MerchantID :: string
  GenericPath :: string
  DataElements :: string

record rdt_entry =
  Token :: string
  ExpiresAt :: time

record rdt_cache =
  rc_entries :: "rdt_key \<rightharpoonup> rdt_entry"
  rc_safetyMargin :: duration

definition NewCache :: "duration \<Rightarrow> rdt_cache" where
  "NewCache margin = \<lparr>rc_entries = Map.empty, rc_safetyMargin = margin\<rparr>"

definition rdt_Get :: "rdt_cache \<Rightarrow> rdt_key \<Rightarrow> time \<Rightarrow> rdt_entry option \<times> rdt_cache" where
  "rdt_Get c key t =
     (case rc_entries c key of
        None \<Rightarrow> (None, c)
      | Some entry \<Rightarrow>
          if t + rc_safetyMargin c > ExpiresAt entry then (None, c\<lparr>rc_entries := (rc_entries c)(key := None)\<rparr>)
          else (Some entry, c))"

definition rdt_Set :: "rdt_cache \<Rightarrow> rdt_key \<Rightarrow> rdt_entry \<Rightarrow> rdt_cache" where
  "rdt_Set c key entry = c\<lparr>rc_entries := (rc_entries c)(key \<mapsto> entry)\<rparr>"

definition rdt_Invalidate :: "rdt_cache \<Rightarrow> rdt_key \<Rightarrow> rdt_cache" where
  "rdt_Invalidate c key = c\<lparr>rc_entries := (rc_entries c)(key := None)\<rparr>"

definition rdt_Size :: "rdt_cache \<Rightarrow> nat" where
  "rdt_Size c = card (dom (rc_entries c))"

definition BuildCacheKey :: "string \<Rightarrow> pii_operation \<Rightarrow> rdt_key" where
  "BuildCacheKey merchantID op =
     \<lparr>MerchantID = merchantID, GenericPath = op_GenericPath op,
      DataElements = (if op_DataElements op = [] then [] else join '','' (sort (op_DataElements op)))\<rparr>"

section \<open>Report types and documents\<close>

definition restrictedReportTypes :: "string list" where
  "restrictedReportTypes = [
     ''GET_FLAT_FILE_ORDER_REPORT_DATA_SHIPPING'', ''GET_FLAT_FILE_ORDER_REPORT_DATA_INVOICING'',
     ''GET_FLAT_FILE_ORDER_REPORT_DATA_TAX'', ''GET_ORDER_REPORT_DATA_SHIPPING'',
     ''GET_ORDER_REPORT_DATA_INVOICING'', ''GET_ORDER_REPORT_DATA_TAX'',
     ''GET_FLAT_FILE_ACTIONABLE_ORDER_DATA_SHIPPING'', ''GET_FLAT_FILE_ACTIONABLE_ORDER_DATA_INVOICING'',
     ''GET_FLAT_FILE_ACTIONABLE_ORDER_DATA_TAX'', ''GET_CONVERGED_FLAT_FILE_ORDER_REPORT_DATA'',
     ''GET_AMAZON_FULFILLED_SHIPMENTS_DATA_INVOICING'', ''GET_AMAZON_FULFILLED_SHIPMENTS_DATA_TAX'',
     ''GET_EASYSHIP_DOCUMENTS'', ''GET_GST_MTR_B2B_CUSTOM'', ''GET_VAT_TRANSACTION_DATA'', ''SC_VAT_TAX_REPORT'']"

definition IsRestrictedReportType :: "string \<Rightarrow> bool" where
  "IsRestrictedReportType reportType \<longleftrightarrow> reportType \<in> set restrictedReportTypes"

text \<open>\<^verbatim>\<open>reportEntry\<close> and \<^verbatim>\<open>documentEntry\<close> have the same fields.\<close>

record report_entry =
  re_reportType :: string
  re_expiresAt :: time

record report_tracker =
  rt_reports :: "string \<rightharpoonup> report_entry"
  rt_documents :: "string \<rightharpoonup> report_entry"
  rt_ttl :: duration

definition NewReportTracker :: "duration \<Rightarrow> report_tracker" where
  "NewReportTracker ttl = \<lparr>rt_reports = Map.empty, rt_documents = Map.empty, rt_ttl = ttl\<rparr>"

definition TrackReportCreation :: "report_tracker \<Rightarrow> string \<Rightarrow> string \<Rightarrow> time \<Rightarrow> report_tracker" where
  "TrackReportCreation rt reportID reportType t =
     rt\<lparr>rt_reports := (rt_reports rt)(reportID \<mapsto> \<lparr>re_reportType = reportType, re_expiresAt = t + rt_ttl rt\<rparr>)\<rparr>"

definition TrackReportDocument :: "report_tracker \<Rightarrow> string \<Rightarrow> string \<Rightarrow> time \<Rightarrow> report_tracker" where
  "TrackReportDocument rt reportID documentID t =
     (case rt_reports rt reportID of
        None \<Rightarrow> rt
      | Some entry \<Rightarrow>
          if t > re_expiresAt entry then rt
          else rt\<lparr>rt_documents := (rt_documents rt)(documentID \<mapsto>
                 \<lparr>re_reportType = re_reportType entry, re_expiresAt = t + rt_ttl rt\<rparr>)\<rparr>)"

definition LookupDocumentReportType :: "report_tracker \<Rightarrow> string \<Rightarrow> time \<Rightarrow> string option" where
  "LookupDocumentReportType rt documentID t =
     (case rt_documents rt documentID of
        None \<Rightarrow> None
      | Some entry \<Rightarrow> if t > re_expiresAt entry then None else Some (re_reportType entry))"

section \<open>Minting\<close>

definition tokensPath :: string where
  "tokensPath = ''/tokens/2021-03-01/restrictedDataToken''"

datatype mint_error = MintMarshal | MintRequest go_error | MintStatus nat | MintDecode | MintEmptyToken

text \<open>What minting calls: the host of the Tokens API, JSON (\<open>mt_decode\<close> reads the first value of
  a stream) and the HTTP client.\<close>

record 's minter =
  mt_host :: string
  mt_codec :: codec
  mt_decode :: "string \<Rightarrow> json option"
  mt_client :: "'s transport"

text \<open>\<^verbatim>\<open>omitempty\<close> leaves out an empty list of data elements.\<close>

definition resource_json :: "restricted_resource \<Rightarrow> json" where
  "resource_json rr = JObj ([(''method'', JStr (rr_Method rr)), (''path'', JStr (rr_Path rr))] @
     (if rr_DataElements rr = [] then [] else [(''dataElements'', JArr (map JStr (rr_DataElements rr)))]))"

definition mint_request :: "'s minter \<Rightarrow> string \<Rightarrow> string \<Rightarrow> outbound" where
  "mint_request mt lwaToken body =
     \<lparr>o_scheme = ''https'', o_host = mt_host mt,
      o_req = \<lparr>r_method = ''POST'', r_path = tokensPath, r_query = [],
        r_header = hdr_set (hdr_set [] ''Content-Type'' ''application/json'') ''x-amz-access-token'' lwaToken,
        r_body = body, r_length = int (length body), ctx_merchant = None, ctx_request_id = [], ctx_done = False\<rparr>\<rparr>"

definition decode_rdt :: "json \<Rightarrow> (string \<times> int) option" where
  "decode_rdt v =
     do {
       fs \<leftarrow> struct_fields v;
       token \<leftarrow> field_of dec_str [] fs ''restrictedDataToken'';
       expiresIn \<leftarrow> field_of dec_int 0 fs ''expiresIn'';
       Some (token, expiresIn)
     }"

definition Mint ::
  "('a world_scheme) minter \<Rightarrow> string \<Rightarrow> restricted_resource \<Rightarrow> 'a world_scheme \<Rightarrow>
     (mint_error + rdt_entry) \<times> 'a world_scheme" where
  "Mint mt lwaToken resource s =
     (case marshal (mt_codec mt) (JObj [(''restrictedResources'', JArr [resource_json resource])]) of
        None \<Rightarrow> (Inl MintMarshal, s)
      | Some body \<Rightarrow>
          (case mt_client mt (mint_request mt lwaToken body) s of
             (Inl err, s1) \<Rightarrow> (Inl (MintRequest err), s1)
           | (Inr resp, s1) \<Rightarrow>
               if resp_status resp \<noteq> 200 then (Inl (MintStatus (resp_status resp)), s1)
               else
                 (case Option.bind (mt_decode mt (resp_body resp)) decode_rdt of
                    None \<Rightarrow> (Inl MintDecode, s1)
                  | Some (token, expiresIn) \<Rightarrow>
                      if token = [] then (Inl MintEmptyToken, s1)
                      else (Inr \<lparr>Token = token, ExpiresAt = now s1 + expiresIn * second\<rparr>, s1))))"

section \<open>Lemmas\<close>

lemma rdt_Get_fresh:
  "fst (rdt_Get c k t) = Some e \<longleftrightarrow> rc_entries c k = Some e \<and> t + rc_safetyMargin c \<le> ExpiresAt e"
  by (auto simp: rdt_Get_def split: option.splits)

lemma rdt_Get_entries: "rc_entries (snd (rdt_Get c k t)) \<subseteq>\<^sub>m rc_entries c"
  by (auto simp: rdt_Get_def map_le_def split: option.splits)

lemma rdt_Get_margin [simp]: "rc_safetyMargin (snd (rdt_Get c k t)) = rc_safetyMargin c"
  by (simp add: rdt_Get_def split: option.splits)

lemma tracker_flow:
  assumes "t1 \<le> t0 + rt_ttl rt" "t2 \<le> t1 + rt_ttl rt"
  shows "LookupDocumentReportType (TrackReportDocument (TrackReportCreation rt rid ty t0) rid did t1) did t2 = Some ty"
  using assms by (simp add: TrackReportCreation_def TrackReportDocument_def LookupDocumentReportType_def)

end
