(* ===== verification/RdtMiddleware.thy ===== *)
theory RdtMiddleware
  imports Rdt CacheServe
begin

text \<open>
  The middleware that swaps access tokens for restricted data tokens
  (\<^verbatim>\<open>internal/rdt/middleware.go\<close>): the override header, the three steps of the report flow, and
  minting with a cache for the restricted operations.

  \<^verbatim>\<open>singleflight\<close> lets a call join an identical call in flight; \<open>sf_join\<close> says whether there is
  one, and with what result. The recorders around the response writer pass everything on; what
  they saw is read off the writer before and after the call.
\<close>

record rdt_world = cache_world +
  rdtc :: rdt_cache
  tracker :: report_tracker

definition rdtTokenPrefix :: string where
  "rdtTokenPrefix = ''Atz.sprdt|''"

definition forceRDTHeader :: string where
  "forceRDTHeader = ''X-SP-Proxy-Force-RDT''"

definition reportsBasePath :: string where
  "reportsBasePath = ''/reports/2021-06-30/reports''"

definition documentsBasePath :: string where
  "documentsBasePath = ''/reports/2021-06-30/documents/''"

record 's rdt_middleware =
  mw_minter :: "'s minter option"
  mw_reports :: bool
  sf_join :: "string \<Rightarrow> 's \<Rightarrow> (rdt_entry option \<times> 's) option"

definition access_token :: "request \<Rightarrow> string" where
  "access_token r = hdr_get (r_header r) ''x-amz-access-token''"

definition set_token :: "request \<Rightarrow> string \<Rightarrow> request" where
  "set_token r token = r\<lparr>r_header := hdr_set (r_header r) ''x-amz-access-token'' token\<rparr>"

section \<open>The recorders\<close>

text \<open>The codes and bytes that the next handler wrote: \<open>w\<close> before the call, \<open>w'\<close> after it.\<close>

definition new_codes :: "rw \<Rightarrow> rw \<Rightarrow> nat list" where
  "new_codes w w' = drop (length (w_codes w)) (w_codes w')"

definition statusRecorder :: "rw \<Rightarrow> rw \<Rightarrow> nat" where
  "statusRecorder w w' = (if new_codes w w' = [] then 0 else last (new_codes w w'))"

definition bodyRecorder_status :: "rw \<Rightarrow> rw \<Rightarrow> nat" where
  "bodyRecorder_status w w' = (if statusRecorder w w' = 0 then 200 else statusRecorder w w')"

definition bodyRecorder_body :: "rw \<Rightarrow> rw \<Rightarrow> string" where
  "bodyRecorder_body w w' = drop (length (w_body w)) (w_body w')"

text \<open>One string field of a body; \<open>None\<close> if it cannot be decoded.\<close>

definition body_field :: "codec \<Rightarrow> string \<Rightarrow> string \<Rightarrow> string option" where
  "body_field cd name body =
     do { v \<leftarrow> unmarshal cd body; fs \<leftarrow> struct_fields v; field_of dec_str [] fs name }"

section \<open>Serving with a restricted token\<close>

definition serveWithRDT ::
  "'a rdt_world_scheme handler \<Rightarrow> string \<Rightarrow> rdt_key \<Rightarrow> 'a rdt_world_scheme handler" where
  "serveWithRDT nxt rdtToken cacheKey r w s =
     (case nxt (set_token r rdtToken) w s of
        (w', h', s') \<Rightarrow>
          (w', h', if statusRecorder w w' \<in> {403, 401} then s'\<lparr>rdtc := rdt_Invalidate (rdtc s') cacheKey\<rparr> else s'))"

definition singleflight_key :: "codec \<Rightarrow> string \<Rightarrow> rdt_key \<Rightarrow> string" where
  "singleflight_key cd token k =
     MerchantID k @ ''|'' @ GenericPath k @ ''|'' @ DataElements k @ ''|'' @ hex_encode (take 8 (sum256 cd token))"

text \<open>The function that \<^verbatim>\<open>group.Do\<close> runs.\<close>

definition mint_once ::
  "'a rdt_world_scheme minter \<Rightarrow> string \<Rightarrow> pii_operation \<Rightarrow> rdt_key \<Rightarrow> 'a rdt_world_scheme \<Rightarrow>
     rdt_entry option \<times> 'a rdt_world_scheme" where
  "mint_once mt token op cacheKey s =
     (case (if op_Cacheable op then rdt_Get (rdtc s) cacheKey (now s) else (None, rdtc s)) of
        (Some entry, c) \<Rightarrow> (Some entry, s\<lparr>rdtc := c\<rparr>)
      | (None, c) \<Rightarrow>
          (case Mint mt token (ToRestrictedResource op) (s\<lparr>rdtc := c\<rparr>) of
             (Inl _, s1) \<Rightarrow> (None, s1)
           | (Inr entry, s1) \<Rightarrow>
               (Some entry, if op_Cacheable op then s1\<lparr>rdtc := rdt_Set (rdtc s1) cacheKey entry\<rparr> else s1)))"

definition mintWithSingleflight ::
  "'a rdt_world_scheme rdt_middleware \<Rightarrow> 'a rdt_world_scheme minter \<Rightarrow> string \<Rightarrow> pii_operation \<Rightarrow> rdt_key \<Rightarrow>
     'a rdt_world_scheme \<Rightarrow> rdt_entry option \<times> 'a rdt_world_scheme" where
  "mintWithSingleflight mw mt token op cacheKey s =
     (case sf_join mw (singleflight_key (mt_codec mt) token cacheKey) s of
        Some joined \<Rightarrow> joined
      | None \<Rightarrow> mint_once mt token op cacheKey s)"

definition handlePIIOperation ::
  "'a rdt_world_scheme rdt_middleware \<Rightarrow> 'a rdt_world_scheme minter \<Rightarrow> 'a rdt_world_scheme handler \<Rightarrow>
     'a rdt_world_scheme handler" where
  "handlePIIOperation mw mt nxt r w s =
     (case MatchPIIOperation (r_method r) (r_path r) of
        None \<Rightarrow> nxt r w s
      | Some op \<Rightarrow>
          (let token = access_token r in
           if has_prefix token rdtTokenPrefix then nxt r w s
           else
             (let cacheKey = BuildCacheKey (m_key (MerchantFromContext r)) op in
              case (if op_Cacheable op then rdt_Get (rdtc s) cacheKey (now s) else (None, rdtc s)) of
                (Some entry, c) \<Rightarrow> serveWithRDT nxt (Token entry) cacheKey r w (s\<lparr>rdtc := c\<rparr>)
              | (None, c) \<Rightarrow>
                  (case mintWithSingleflight mw mt token op cacheKey (s\<lparr>rdtc := c\<rparr>) of
                     (None, s1) \<Rightarrow> nxt r w s1
                   | (Some entry, s1) \<Rightarrow> serveWithRDT nxt (Token entry) cacheKey r w s1))))"

text \<open>The end that \<^verbatim>\<open>handleForceRDT\<close> and \<^verbatim>\<open>handleDocumentDownload\<close> share: mint for a concrete path,
  fail open.\<close>

definition mint_and_forward ::
  "'a rdt_world_scheme minter \<Rightarrow> restricted_resource \<Rightarrow> 'a rdt_world_scheme handler \<Rightarrow> 'a rdt_world_scheme handler" where
  "mint_and_forward mt resource nxt r w s =
     (case Mint mt (access_token r) resource s of
        (Inl _, s1) \<Rightarrow> nxt r w s1
      | (Inr entry, s1) \<Rightarrow> nxt (set_token r (Token entry)) w s1)"

definition handleForceRDT ::
  "'a rdt_world_scheme minter \<Rightarrow> 'a rdt_world_scheme handler \<Rightarrow> 'a rdt_world_scheme handler" where
  "handleForceRDT mt nxt r w s =
     (if has_prefix (access_token r) rdtTokenPrefix then nxt r w s
      else mint_and_forward mt \<lparr>rr_Method = r_method r, rr_Path = strip_query (r_path r), rr_DataElements = []\<rparr> nxt r w s)"

section \<open>The report flow\<close>

definition sniffCreateReport ::
  "codec \<Rightarrow> 'a rdt_world_scheme handler \<Rightarrow> 'a rdt_world_scheme handler" where
  "sniffCreateReport cd nxt r w s =
     (let reportType = (case body_field cd ''reportType'' (r_body r) of None \<Rightarrow> [] | Some t \<Rightarrow> t) in
      case nxt r w s of
        (w', h', s') \<Rightarrow>
          (w', h',
           if reportType \<noteq> [] \<and> bodyRecorder_status w w' < 400 then
             (case body_field cd ''reportId'' (bodyRecorder_body w w') of
                None \<Rightarrow> s'
              | Some reportID \<Rightarrow>
                  if reportID = [] then s'
                  else s'\<lparr>tracker := TrackReportCreation (tracker s') reportID reportType (now s')\<rparr>)
           else s'))"

definition report_id_of_path :: "string \<Rightarrow> string" where
  "report_id_of_path path =
     (let reportID = trim_prefix path (reportsBasePath @ ''/'') in
      case index_byte reportID (CHR ''/'') of None \<Rightarrow> reportID | Some idx \<Rightarrow> take idx reportID)"

definition sniffGetReport ::
  "codec \<Rightarrow> 'a rdt_world_scheme handler \<Rightarrow> 'a rdt_world_scheme handler" where
  "sniffGetReport cd nxt r w s =
     (let reportID = report_id_of_path (r_path r) in
      case nxt r w s of
        (w', h', s') \<Rightarrow>
          (w', h',
           if bodyRecorder_status w w' < 400 then
             (case body_field cd ''reportDocumentId'' (bodyRecorder_body w w') of
                None \<Rightarrow> s'
              | Some docID \<Rightarrow>
                  if docID = [] then s'
                  else s'\<lparr>tracker := TrackReportDocument (tracker s') reportID docID (now s')\<rparr>)
           else s'))"

definition handleDocumentDownload ::
  "'a rdt_world_scheme minter \<Rightarrow> 'a rdt_world_scheme handler \<Rightarrow> 'a rdt_world_scheme handler" where
  "handleDocumentDownload mt nxt r w s =
     (let docID = trim_prefix (r_path r) documentsBasePath in
      if docID = [] then nxt r w s
      else if has_prefix (access_token r) rdtTokenPrefix then nxt r w s
      else
        (case LookupDocumentReportType (tracker s) docID (now s) of
           None \<Rightarrow> nxt r w s
         | Some reportType \<Rightarrow>
             if \<not> IsRestrictedReportType reportType then nxt r w s
             else mint_and_forward mt
                    \<lparr>rr_Method = ''GET'', rr_Path = documentsBasePath @ docID, rr_DataElements = []\<rparr> nxt r w s))"

text \<open>\<open>None\<close>: not a request of the report flow.\<close>

definition handleReportSniffing ::
  "'a rdt_world_scheme minter \<Rightarrow> 'a rdt_world_scheme handler \<Rightarrow> request \<Rightarrow> rw \<Rightarrow> 'a rdt_world_scheme \<Rightarrow>
     (rw \<times> header \<times> 'a rdt_world_scheme) option" where
  "handleReportSniffing mt nxt r w s =
     (let path = r_path r in
      if r_method r = ''POST'' \<and> path = reportsBasePath then Some (sniffCreateReport (mt_codec mt) nxt r w s)
      else if r_method r = ''GET'' \<and> has_prefix path (reportsBasePath @ ''/'') \<and> \<not> has_prefix path documentsBasePath
      then Some (sniffGetReport (mt_codec mt) nxt r w s)
      else if r_method r = ''GET'' \<and> has_prefix path documentsBasePath then Some (handleDocumentDownload mt nxt r w s)
      else None)"

definition strip_force :: "request \<Rightarrow> request" where
  "strip_force r = r\<lparr>r_header := hdr_del (r_header r) forceRDTHeader\<rparr>"

definition rdt_Handler ::
  "'a rdt_world_scheme rdt_middleware \<Rightarrow> 'a rdt_world_scheme handler \<Rightarrow> 'a rdt_world_scheme handler" where
  "rdt_Handler mw nxt r0 w s =
     (case mw_minter mw of
        None \<Rightarrow> nxt r0 w s
      | Some mt \<Rightarrow>
          (let forceValue = hdr_get (r_header r0) forceRDTHeader;
               r = strip_force r0
           in if forceValue = ''false'' then nxt r w s
              else if forceValue = ''true'' then handleForceRDT mt nxt r w s
              else
                (case (if mw_reports mw then handleReportSniffing mt nxt r w s else None) of
                   Some result \<Rightarrow> result
                 | None \<Rightarrow> handlePIIOperation mw mt nxt r w s)))"

lemma strip_force_fields [simp]:
  "r_method (strip_force r) = r_method r" "r_path (strip_force r) = r_path r" "r_body (strip_force r) = r_body r"
  "MerchantFromContext (strip_force r) = MerchantFromContext r" "access_token (strip_force r) = access_token r"
proof -
  have "canonical_key ''x-amz-access-token'' \<noteq> canonical_key forceRDTHeader"
    by (simp add: forceRDTHeader_def canonical_key_def valid_header_byte_def lower_char_def upper_char_def Let_def)
  then show "access_token (strip_force r) = access_token r"
    by (simp add: access_token_def strip_force_def hdr_simps)
qed (simp_all add: strip_force_def MerchantFromContext_def)

section \<open>One call, at most one token swapped\<close>

text \<open>What a request looks like that is forwarded with the client's token (\<open>None\<close>) or another one.\<close>

definition with_token :: "request \<Rightarrow> string option \<Rightarrow> request" where
  "with_token r tok = (case tok of None \<Rightarrow> r | Some t \<Rightarrow> set_token r t)"

text \<open>\<open>f\<close> calls the next handler exactly once, swaps no restricted token of the client's, and returns
  the response and header map it got; of the world after the call it may change its own two fields.\<close>

definition forwards_once ::
  "('a rdt_world_scheme handler \<Rightarrow> rw \<times> header \<times> 'a rdt_world_scheme) \<Rightarrow> request \<Rightarrow> rw \<Rightarrow> bool" where
  "forwards_once f r w \<longleftrightarrow>
     (\<exists>tok s1 post. (has_prefix (access_token r) rdtTokenPrefix \<longrightarrow> tok = None)
        \<and> (\<forall>nxt. f nxt = (case nxt (with_token r tok) w s1 of (w', h', s') \<Rightarrow> (w', h', post w' s')))
        \<and> (\<forall>w' s'. \<exists>c tr. post w' s' = s'\<lparr>rdtc := c, tracker := tr\<rparr>))"

lemma forwards_onceI:
  assumes "\<And>nxt. f nxt = (case nxt (with_token r tok) w s1 of (w', h', s') \<Rightarrow> (w', h', post w' s'))"
    and "has_prefix (access_token r) rdtTokenPrefix \<Longrightarrow> tok = None"
    and "\<And>w' s'. \<exists>c tr. post w' s' = s'\<lparr>rdtc := c, tracker := tr\<rparr>"
  shows "forwards_once f r w"
  unfolding forwards_once_def using assms by blast

lemma rdt_update_exists:
  "\<exists>c tr. (s' :: 'a rdt_world_scheme) = s'\<lparr>rdtc := c, tracker := tr\<rparr>"
  "\<exists>c tr. s'\<lparr>rdtc := c0\<rparr> = s'\<lparr>rdtc := c, tracker := tr\<rparr>"
  "\<exists>c tr. s'\<lparr>tracker := tr0\<rparr> = s'\<lparr>rdtc := c, tracker := tr\<rparr>"
proof -
  show "\<exists>c tr. s' = s'\<lparr>rdtc := c, tracker := tr\<rparr>"
    by (rule exI [of _ "rdtc s'"], rule exI [of _ "tracker s'"]) simp
  show "\<exists>c tr. s'\<lparr>rdtc := c0\<rparr> = s'\<lparr>rdtc := c, tracker := tr\<rparr>"
    by (rule exI [of _ c0], rule exI [of _ "tracker s'"]) simp
  show "\<exists>c tr. s'\<lparr>tracker := tr0\<rparr> = s'\<lparr>rdtc := c, tracker := tr\<rparr>"
    by (rule exI [of _ "rdtc s'"], rule exI [of _ tr0]) simp
qed

lemma forwards_once_plain: "forwards_once (\<lambda>nxt. nxt r w s1) r w"
  by (rule forwards_onceI [where tok = None and ?s1.0 = s1 and post = "\<lambda>w' s'. s'"])
    (simp_all add: with_token_def rdt_update_exists)

lemma forwards_once_swap:
  assumes "\<not> has_prefix (access_token r) rdtTokenPrefix"
  shows "forwards_once (\<lambda>nxt. nxt (set_token r t) w s1) r w"
  by (rule forwards_onceI [where tok = "Some t" and ?s1.0 = s1 and post = "\<lambda>w' s'. s'"])
    (use assms in \<open>simp_all add: with_token_def rdt_update_exists\<close>)

lemma forwards_once_serve:
  assumes "\<not> has_prefix (access_token r) rdtTokenPrefix"
  shows "forwards_once (\<lambda>nxt. serveWithRDT nxt t k r w s1) r w"
  by (rule forwards_onceI [where tok = "Some t" and ?s1.0 = s1 and
        post = "\<lambda>w' s'. if statusRecorder w w' \<in> {403, 401} then s'\<lparr>rdtc := rdt_Invalidate (rdtc s') k\<rparr> else s'"])
    (use assms in \<open>auto simp: serveWithRDT_def with_token_def rdt_update_exists split: prod.splits\<close>)

lemma forwards_once_PII: "forwards_once (\<lambda>nxt. handlePIIOperation mw mt nxt r w s) r w"
proof (cases "MatchPIIOperation (r_method r) (r_path r)")
  case None
  then show ?thesis by (simp add: handlePIIOperation_def forwards_once_plain)
next
  case (Some op)
  let ?k = "BuildCacheKey (m_key (MerchantFromContext r)) op"
  show ?thesis
  proof (cases "has_prefix (access_token r) rdtTokenPrefix")
    case True
    then show ?thesis using Some by (simp add: handlePIIOperation_def forwards_once_plain)
  next
    case False
    obtain e c where g: "(if op_Cacheable op then rdt_Get (rdtc s) ?k (now s) else (None, rdtc s)) = (e, c)"
      by fastforce
    obtain e2 s1 where m: "mintWithSingleflight mw mt (access_token r) op ?k (s\<lparr>rdtc := c\<rparr>) = (e2, s1)"
      by fastforce
    show ?thesis using False Some
      by (cases e; cases e2)
        (simp_all add: handlePIIOperation_def g m Let_def forwards_once_plain forwards_once_serve)
  qed
qed

lemma forwards_once_mint:
  assumes "\<not> has_prefix (access_token r) rdtTokenPrefix"
  shows "forwards_once (\<lambda>nxt. mint_and_forward mt res nxt r w s) r w"
proof -
  obtain e s1 where "Mint mt (access_token r) res s = (e, s1)" by fastforce
  then show ?thesis using assms
    by (cases e) (simp_all add: mint_and_forward_def forwards_once_plain forwards_once_swap)
qed

lemma forwards_once_post:
  assumes "\<And>w' s'. \<exists>c tr. post w' s' = s'\<lparr>rdtc := c, tracker := tr\<rparr>"
  shows "forwards_once (\<lambda>nxt. case nxt r w s of (w', h', s') \<Rightarrow> (w', h', post w' s')) r w"
  by (rule forwards_onceI [where tok = None and ?s1.0 = s and post = post]) (use assms in \<open>simp_all add: with_token_def\<close>)

lemma forwards_once_sniff:
  "forwards_once (\<lambda>nxt. sniffCreateReport cd nxt r w s) r w"
  "forwards_once (\<lambda>nxt. sniffGetReport cd nxt r w s) r w"
  unfolding sniffCreateReport_def sniffGetReport_def Let_def
  by (rule forwards_once_post, auto simp: rdt_update_exists split: option.splits)+

lemma forwards_once_if:
  "(b \<Longrightarrow> forwards_once f r w) \<Longrightarrow> (\<not> b \<Longrightarrow> forwards_once g r w) \<Longrightarrow> forwards_once (\<lambda>nxt. if b then f nxt else g nxt) r w"
  by (cases b) simp_all

lemma forwards_once_opt:
  "(b \<Longrightarrow> forwards_once f r w) \<Longrightarrow>
   (\<not> b \<Longrightarrow> forwards_once (\<lambda>nxt. case g nxt of Some x \<Rightarrow> x | None \<Rightarrow> h nxt) r w) \<Longrightarrow>
   forwards_once (\<lambda>nxt. case (if b then Some (f nxt) else g nxt) of Some x \<Rightarrow> x | None \<Rightarrow> h nxt) r w"
  by (cases b) simp_all

lemma forwards_once_document: "forwards_once (\<lambda>nxt. handleDocumentDownload mt nxt r w s) r w"
proof -
  have "forwards_once (\<lambda>nxt. case l of None \<Rightarrow> nxt r w s
         | Some ty \<Rightarrow> if \<not> IsRestrictedReportType ty then nxt r w s else mint_and_forward mt res nxt r w s) r w"
    if "\<not> has_prefix (access_token r) rdtTokenPrefix" for l res
    using that by (cases l) (auto intro!: forwards_once_if forwards_once_plain forwards_once_mint)
  then show ?thesis
    unfolding handleDocumentDownload_def Let_def by (intro forwards_once_if forwards_once_plain)
qed

section \<open>What enters the token cache\<close>

definition rdt_all :: "(rdt_key \<Rightarrow> rdt_entry \<Rightarrow> bool) \<Rightarrow> rdt_cache \<Rightarrow> bool" where
  "rdt_all Q c \<longleftrightarrow> (\<forall>k e. rc_entries c k = Some e \<longrightarrow> Q k e)"

lemma rdt_all_Get: "rdt_all Q c \<Longrightarrow> rdt_all Q (snd (rdt_Get c k t))"
  by (auto simp: rdt_all_def rdt_Get_def split: option.splits if_splits)

lemma rdt_all_Set: "rdt_all Q c \<Longrightarrow> Q k e \<Longrightarrow> rdt_all Q (rdt_Set c k e)"
  by (simp add: rdt_all_def rdt_Set_def)

lemma rdt_all_Invalidate: "rdt_all Q c \<Longrightarrow> rdt_all Q (rdt_Invalidate c k)"
  by (simp add: rdt_all_def rdt_Invalidate_def)

text \<open>A middleware whose HTTP client, joined calls and next handler leave the token cache alone.\<close>

locale rdt_client =
  fixes mw :: "'a rdt_world_scheme rdt_middleware"
    and mt :: "'a rdt_world_scheme minter"
    and nxt :: "'a rdt_world_scheme handler"
    and r :: request
    and Q :: "rdt_key \<Rightarrow> rdt_entry \<Rightarrow> bool"
  assumes client_keeps: "rdtc (snd (mt_client mt out s)) = rdtc s"
    and join_keeps: "sf_join mw key s = Some j \<Longrightarrow> rdtc (snd j) = rdtc s"
    and next_keeps: "rdtc (snd (snd (nxt r' w s))) = rdtc s"
    and mint_ok: "MatchPIIOperation (r_method r) (r_path r) = Some op \<Longrightarrow>
      Mint mt (access_token r) (ToRestrictedResource op) s = (Inr e, s1) \<Longrightarrow>
      Q (BuildCacheKey (m_key (MerchantFromContext r)) op) e"
begin

lemma Mint_keeps: "rdtc (snd (Mint mt token res s)) = rdtc s"
  using client_keeps by (auto simp: Mint_def split: option.splits prod.splits sum.splits) (metis snd_conv)+

lemma Mint_res: "Mint mt token res s = (x, s1) \<Longrightarrow> rdtc s1 = rdtc s"
  using Mint_keeps [of token res s] by simp

lemma next_res: "nxt r' w s = (w', h', s') \<Longrightarrow> rdtc s' = rdtc s"
  using next_keeps [of r' w s] by simp

lemma serve_ok: "rdt_all Q (rdtc s) \<Longrightarrow> rdt_all Q (rdtc (snd (snd (serveWithRDT nxt t k r' w s))))"
  by (auto simp: serveWithRDT_def rdt_all_Invalidate split: prod.splits dest!: next_res)

lemma forward_ok: "rdt_all Q (rdtc s) \<Longrightarrow> rdt_all Q (rdtc (snd (snd (mint_and_forward mt res nxt r' w s))))"
  by (auto simp: mint_and_forward_def next_keeps split: prod.splits sum.splits dest!: Mint_res)

lemma mint_once_ok:
  assumes "MatchPIIOperation (r_method r) (r_path r) = Some op" "rdt_all Q (rdtc s)"
  shows "rdt_all Q (rdtc (snd (mint_once mt (access_token r) op (BuildCacheKey (m_key (MerchantFromContext r)) op) s)))"
proof -
  let ?k = "BuildCacheKey (m_key (MerchantFromContext r)) op"
  obtain e c where g: "(if op_Cacheable op then rdt_Get (rdtc s) ?k (now s) else (None, rdtc s)) = (e, c)" by fastforce
  have c: "rdt_all Q c" using g assms(2) rdt_all_Get [OF assms(2), of ?k "now s"] by (auto split: if_splits)
  obtain x s1 where m: "Mint mt (access_token r) (ToRestrictedResource op) (s\<lparr>rdtc := c\<rparr>) = (x, s1)" by fastforce
  have s1: "rdt_all Q (rdtc s1)" using Mint_res [OF m] c by simp
  show ?thesis
  proof (cases e)
    case None
    have "Q ?k entry" if "x = Inr entry" for entry using mint_ok [OF assms(1)] m that by blast
    then show ?thesis using None s1 by (cases x) (simp_all add: mint_once_def g m rdt_all_Set)
  next
    case (Some entry)
    then show ?thesis using c by (simp add: mint_once_def g)
  qed
qed

lemma PII_ok:
  assumes "rdt_all Q (rdtc s)"
  shows "rdt_all Q (rdtc (snd (snd (handlePIIOperation mw mt nxt r w s))))"
proof (cases "MatchPIIOperation (r_method r) (r_path r)")
  case None
  then show ?thesis using assms by (simp add: handlePIIOperation_def next_keeps)
next
  case (Some op)
  let ?k = "BuildCacheKey (m_key (MerchantFromContext r)) op"
  obtain e c where g: "(if op_Cacheable op then rdt_Get (rdtc s) ?k (now s) else (None, rdtc s)) = (e, c)" by fastforce
  have c: "rdt_all Q (rdtc (s\<lparr>rdtc := c\<rparr>))"
    using g assms rdt_all_Get [OF assms, of ?k "now s"] by (auto split: if_splits)
  obtain e2 s1 where m: "mintWithSingleflight mw mt (access_token r) op ?k (s\<lparr>rdtc := c\<rparr>) = (e2, s1)" by fastforce
  have s1: "rdt_all Q (rdtc s1)"
    using m c mint_once_ok [OF Some c] join_keeps
    by (auto simp: mintWithSingleflight_def split: option.splits)
  show ?thesis using assms c s1 Some
    by (cases e; cases e2) (simp_all add: handlePIIOperation_def g m Let_def next_keeps serve_ok)
qed

lemma sniff_ok:
  "rdtc (snd (snd (sniffCreateReport cd nxt r' w s))) = rdtc s"
  "rdtc (snd (snd (sniffGetReport cd nxt r' w s))) = rdtc s"
  by (auto simp: sniffCreateReport_def sniffGetReport_def Let_def split: prod.splits option.splits dest!: next_res)

lemma document_ok:
  "rdt_all Q (rdtc s) \<Longrightarrow> rdt_all Q (rdtc (snd (snd (handleDocumentDownload mt nxt r' w s))))"
  by (auto simp: handleDocumentDownload_def Let_def next_keeps forward_ok split: option.splits)

lemma handler_ok:
  assumes "mw_minter mw = Some mt" "strip_force r0 = r" "rdt_all Q (rdtc s)"
  shows "rdt_all Q (rdtc (snd (snd (rdt_Handler mw nxt r0 w s))))"
  using assms PII_ok [OF assms(3)] document_ok [OF assms(3)] forward_ok [OF assms(3)]
  by (auto simp: rdt_Handler_def Let_def next_keeps handleForceRDT_def handleReportSniffing_def sniff_ok split: option.splits)

end

text \<open>The middleware in front of the reverse proxy, with a transport that leaves the world alone.\<close>

definition plain_minter :: "string \<Rightarrow> codec \<Rightarrow> (string \<Rightarrow> json option) \<Rightarrow> (outbound \<Rightarrow> time \<Rightarrow> go_error + upstream_response) \<Rightarrow>
    'a rdt_world_scheme minter" where
  "plain_minter host cd dec answer =
     \<lparr>mt_host = host, mt_codec = cd, mt_decode = dec, mt_client = plain_transport answer\<rparr>"

definition plain_rdt :: "'a rdt_world_scheme minter \<Rightarrow> 'a rdt_world_scheme rdt_middleware" where
  "plain_rdt mt = \<lparr>mw_minter = Some mt, mw_reports = True, sf_join = (\<lambda>_ _. None)\<rparr>"

definition cached_or_own ::
  "(rdt_key \<rightharpoonup> rdt_entry) \<Rightarrow> 'a rdt_world_scheme minter \<Rightarrow> request \<Rightarrow> rdt_key \<Rightarrow> rdt_entry \<Rightarrow> bool" where
  "cached_or_own old mt r k e \<longleftrightarrow>
     old k = Some e
     \<or> (\<exists>op s0 s1. MatchPIIOperation (r_method r) (r_path r) = Some op
          \<and> k = BuildCacheKey (m_key (MerchantFromContext r)) op
          \<and> Mint mt (access_token r) (ToRestrictedResource op) s0 = (Inr e, s1))"

lemma ReverseProxy_rdtc: "rdtc (snd (snd (ReverseProxy px (plain_transport answer) None ip r w s))) = rdtc s"
  using ReverseProxy_world [of px answer ip r w s] by auto

interpretation swapping: rdt_client "plain_rdt mt" "plain_minter host cd dec answer :: 'a rdt_world_scheme minter"
  "ReverseProxy px (plain_transport answer') None ip" r
  "cached_or_own old (plain_minter host cd dec answer :: 'a rdt_world_scheme minter) r"
proof
  show "rdtc (snd (mt_client (plain_minter host cd dec answer) out s)) = rdtc s" for out and s :: "'a rdt_world_scheme"
    by (simp add: plain_minter_def plain_transport_def)
qed (auto simp: plain_rdt_def ReverseProxy_rdtc cached_or_own_def)

section \<open>Properties\<close>

text \<open>C22: the middleware only ever swaps the access token. Each request is passed on exactly once,
  less the override header, with the client's token or one other in its place, and never
  with another if the client already sent a restricted token; the response and the header map
  come back as the next handler left them. In particular a failure to mint is not seen.\<close>

theorem rdt_swaps_only_token:
  assumes "mw_minter mw = Some mt"
  shows "\<exists>tok s1 post. (has_prefix (access_token (strip_force r0)) rdtTokenPrefix \<longrightarrow> tok = None)
    \<and> (\<forall>nxt. rdt_Handler mw nxt r0 w s
          = (case nxt (with_token (strip_force r0) tok) w s1 of (w', h', s') \<Rightarrow> (w', h', post w' s')))
    \<and> (\<forall>w' s'. \<exists>c tr. post w' s' = s'\<lparr>rdtc := c, tracker := tr\<rparr>)"
proof -
  define r where "r = strip_force r0"
  let ?path = "r_path r"
  have force: "forwards_once (\<lambda>nxt. handleForceRDT mt nxt r w s) r w"
    unfolding handleForceRDT_def by (intro forwards_once_if forwards_once_plain forwards_once_mint)
  have sniff: "forwards_once (\<lambda>nxt. case (if mw_reports mw then handleReportSniffing mt nxt r w s else None) of
      Some result \<Rightarrow> result | None \<Rightarrow> handlePIIOperation mw mt nxt r w s) r w"
  proof (cases "mw_reports mw")
    case True
    show ?thesis unfolding if_P [OF True] handleReportSniffing_def Let_def
      by (intro forwards_once_opt forwards_once_sniff forwards_once_document) (simp add: forwards_once_PII)
  qed (simp add: forwards_once_PII)
  have "forwards_once (\<lambda>nxt. rdt_Handler mw nxt r0 w s) r w"
    unfolding rdt_Handler_def assms(1) option.case Let_def r_def [symmetric]
    by (intro forwards_once_if forwards_once_plain force sniff)
  then show ?thesis unfolding forwards_once_def r_def .
qed

text \<open>C21: a restricted token is cached only for the merchant it was minted for. After any request, a
  token in the cache was there before, or was minted just now with the token this request came
  with, for the restricted operation its path names, and lies under the key of its own merchant and that
  operation. (The HTTP client, the next handler and calls in flight are taken to leave the cache alone.)\<close>

theorem rdt_cache_own_merchant:
  assumes "mw_minter mw = Some mt"
    and "\<And>out s. rdtc (snd (mt_client mt out s)) = rdtc s"
    and "\<And>key s j. sf_join mw key s = Some j \<Longrightarrow> rdtc (snd j) = rdtc s"
    and "\<And>r' w s. rdtc (snd (snd (nxt r' w s))) = rdtc s"
    and "rc_entries (rdtc (snd (snd (rdt_Handler mw nxt r w s)))) k = Some e"
  shows "rc_entries (rdtc s) k = Some e
    \<or> (\<exists>op s0 s1. MatchPIIOperation (r_method r) (r_path r) = Some op
        \<and> k = BuildCacheKey (m_key (MerchantFromContext r)) op
        \<and> Mint mt (access_token r) (ToRestrictedResource op) s0 = (Inr e, s1))"
proof -
  let ?r = "strip_force r"
  let ?Q = "cached_or_own (rc_entries (rdtc s)) mt ?r"
  have "rdt_client mw mt nxt ?r ?Q"
    by unfold_locales (use assms in \<open>auto simp: cached_or_own_def\<close>)
  moreover have "rdt_all ?Q (rdtc s)" by (simp add: rdt_all_def cached_or_own_def)
  ultimately have "rdt_all ?Q (rdtc (snd (snd (rdt_Handler mw nxt r w s))))"
    using rdt_client.handler_ok [OF _ assms(1) refl] by blast
  then have "?Q k e" using assms(5) by (simp add: rdt_all_def)
  then show ?thesis by (simp add: cached_or_own_def strip_force_fields)
qed

section \<open>A cached token\<close>

lemma hdr_put_put: "hdr_put (hdr_put h k v) k v' = hdr_put h k v'"
  by (induction h k v rule: hdr_put.induct) auto

lemma hdr_del_put: "canonical_key f \<noteq> k \<Longrightarrow> hdr_del (hdr_put h k v) f = hdr_put (hdr_del h f) k v"
  by (induction h k v rule: hdr_put.induct) (auto simp: hdr_del_def)

lemma token_force_keys: "canonical_key forceRDTHeader \<noteq> canonical_key ''x-amz-access-token''"
  by (simp add: forceRDTHeader_def canonical_key_def valid_header_byte_def lower_char_def upper_char_def Let_def)

lemma set_token_strip: "strip_force (set_token r t) = set_token (strip_force r) t"
  by (simp add: strip_force_def set_token_def hdr_set_def hdr_del_put token_force_keys)

lemma set_token_twice: "set_token (set_token r t) t' = set_token r t'"
  by (simp add: set_token_def hdr_set_def hdr_put_put)

lemma set_token_fields [simp]:
  "r_method (set_token r t) = r_method r" "r_path (set_token r t) = r_path r"
  "MerchantFromContext (set_token r t) = MerchantFromContext r" "access_token (set_token r t) = t"
  "hdr_get (r_header (set_token r t)) forceRDTHeader = hdr_get (r_header r) forceRDTHeader"
  by (simp_all add: set_token_def MerchantFromContext_def access_token_def hdr_simps token_force_keys)

lemma rules_cacheable: "rule \<in> set piiRules \<Longrightarrow> pr_cacheable rule"
  by (auto simp: piiRules_defs rdt_rule_def)

lemma rules_not_reports: "rule \<in> set piiRules \<Longrightarrow> \<not> has_prefix (pr_prefix rule @ x) ''/reports''"
  by (auto simp: piiRules_defs rdt_rule_def)

lemma find_SomeD: "find P xs = Some x \<Longrightarrow> x \<in> set xs \<and> P x"
  by (auto simp: find_Some_iff in_set_conv_nth)

lemma Match_cacheable: "MatchPIIOperation m p = Some op \<Longrightarrow> op_Cacheable op"
  by (auto simp: MatchPIIOperation_def Let_def rule_operation_def rules_cacheable dest!: find_SomeD)

lemma Match_not_reports:
  assumes "MatchPIIOperation m p = Some op"
  shows "\<not> has_prefix p ''/reports''"
proof
  assume rep: "has_prefix p ''/reports''"
  let ?p = "trim_right (strip_query p) (CHR ''/'')"
  obtain rule where rule: "rule \<in> set piiRules" "pii_rule_matches m ?p rule"
    using assms by (auto simp: MatchPIIOperation_def Let_def dest!: find_SomeD)
  have "has_prefix ?p (pr_prefix rule)" using rule(2) by (auto simp: pii_rule_matches_def)
  moreover have "has_prefix p ?p"
    using trim_right_decomp [of "strip_query p" "CHR ''/''"]
    by (auto simp: has_prefix_iff strip_query_def split: option.splits) (metis append.assoc append_take_drop_id)+
  ultimately obtain x where "p = pr_prefix rule @ x" by (metis has_prefix_iff has_prefix_trans)
  with rules_not_reports [OF rule(1), of x] rep show False by simp
qed

lemma sniff_other: "\<not> has_prefix (r_path r) ''/reports'' \<Longrightarrow> handleReportSniffing mt nxt r w s = None"
  by (auto simp: handleReportSniffing_def Let_def reportsBasePath_def documentsBasePath_def has_prefix_iff)

text \<open>A cached restricted token goes to whoever names its merchant. While a fresh token for the
  merchant and operation is in the cache, every request for that operation with that merchant is passed
  on with this token, whatever access token the caller sent: the request that goes out does not
  depend on it.\<close>

theorem cached_rdt_any_token:
  assumes "mw_minter mw = Some mt" "hdr_get (r_header r) forceRDTHeader \<notin> {''true'', ''false''}"
    and "MatchPIIOperation (r_method r) (r_path r) = Some op"
    and "rc_entries (rdtc s) (BuildCacheKey (m_key (MerchantFromContext r)) op) = Some entry"
    and "now s + rc_safetyMargin (rdtc s) \<le> ExpiresAt entry"
  shows "\<exists>r' post. access_token r' = Token entry
    \<and> (\<forall>t. \<not> has_prefix t rdtTokenPrefix \<longrightarrow>
         (\<forall>nxt. rdt_Handler mw nxt (set_token r t) w s
            = (case nxt r' w s of (w', h', s') \<Rightarrow> (w', h', post w' s'))))"
proof -
  let ?k = "BuildCacheKey (m_key (MerchantFromContext r)) op" and ?r' = "set_token (strip_force r) (Token entry)"
  let ?post = "\<lambda>w' s'. if statusRecorder w w' \<in> {403, 401} then s'\<lparr>rdtc := rdt_Invalidate (rdtc s') ?k\<rparr> else s'"
  have get: "rdt_Get (rdtc s) ?k (now s) = (Some entry, rdtc s)"
    using assms(4,5) by (simp add: rdt_Get_def)
  note cacheable = Match_cacheable [OF assms(3)]
  note no_report = sniff_other [where r = "set_token (strip_force r) t" for t, simplified, OF Match_not_reports [OF assms(3)]]
  have "rdt_Handler mw nxt (set_token r t) w s = (case nxt ?r' w s of (w', h', s') \<Rightarrow> (w', h', ?post w' s'))"
    if "\<not> has_prefix t rdtTokenPrefix" for t nxt
    using that assms(1-3)
    by (simp add: rdt_Handler_def Let_def set_token_strip no_report handlePIIOperation_def cacheable get serveWithRDT_def
        set_token_twice)
  then show ?thesis by (intro exI [of _ ?r'] exI [of _ ?post]) simp
qed

section \<open>The report flow\<close>

lemma handler_sniffs:
  assumes "mw_minter mw = Some mt" "mw_reports mw" "hdr_get (r_header r) forceRDTHeader \<notin> {''true'', ''false''}"
    and "handleReportSniffing mt nxt (strip_force r) w s = Some res"
  shows "rdt_Handler mw nxt r w s = res"
  using assms by (simp add: rdt_Handler_def Let_def)

lemma report_id_of_path_id: "CHR ''/'' \<notin> set rid \<Longrightarrow> report_id_of_path (reportsBasePath @ ''/'' @ rid) = rid"
proof -
  assume "CHR ''/'' \<notin> set rid"
  moreover have "trim_prefix (reportsBasePath @ ''/'' @ rid) (reportsBasePath @ ''/'') = rid"
    by (simp add: trim_prefix_def reportsBasePath_def)
  moreover have "index_byte rid (CHR ''/'') = None" using \<open>CHR ''/'' \<notin> set rid\<close> by (metis index_byte_None)
  ultimately show ?thesis by (simp add: report_id_of_path_def)
qed

lemma report_paths:
  "\<not> has_prefix (reportsBasePath @ x) documentsBasePath" "has_prefix (reportsBasePath @ ''/'' @ rid) (reportsBasePath @ ''/'')"
  "\<not> has_prefix (documentsBasePath @ x) (reportsBasePath @ ''/'')"
  "trim_prefix (documentsBasePath @ x) documentsBasePath = x"
  by (simp_all add: reportsBasePath_def documentsBasePath_def trim_prefix_def)

text \<open>C23: the report flow ends in a token for the concrete document. A report of a restricted type
  is created, its status names a document, and the document is fetched, each time through
  the middleware and each link used before it expires. Then the fetch is passed on with a
  token minted for exactly that document's path, or, if minting fails, with the client's own.\<close>

theorem restricted_report_flow:
  assumes mw: "mw_minter mw = Some mt" "mw_reports mw"
    and no_force: "\<forall>r \<in> {r1, r2, r3}. hdr_get (r_header r) forceRDTHeader \<notin> {''true'', ''false''}"
    and create: "r_method r1 = ''POST''" "r_path r1 = reportsBasePath"
      "body_field (mt_codec mt) ''reportType'' (r_body r1) = Some ty" "IsRestrictedReportType ty"
      "n1 (strip_force r1) w1 s1 = (w1', h1, s1')" "bodyRecorder_status w1 w1' < 400"
      "body_field (mt_codec mt) ''reportId'' (bodyRecorder_body w1 w1') = Some rid" "rid \<noteq> []" "CHR ''/'' \<notin> set rid"
    and status: "r_method r2 = ''GET''" "r_path r2 = reportsBasePath @ ''/'' @ rid"
      "tracker s2 = tracker (snd (snd (rdt_Handler mw n1 r1 w1 s1)))"
      "n2 (strip_force r2) w2 s2 = (w2', h2, s2')" "tracker s2' = tracker s2" "bodyRecorder_status w2 w2' < 400"
      "body_field (mt_codec mt) ''reportDocumentId'' (bodyRecorder_body w2 w2') = Some did" "did \<noteq> []"
      "now s2' \<le> now s1' + rt_ttl (tracker s1')"
    and fetch: "r_method r3 = ''GET''" "r_path r3 = documentsBasePath @ did"
      "tracker s3 = tracker (snd (snd (rdt_Handler mw n2 r2 w2 s2)))"
      "\<not> has_prefix (access_token r3) rdtTokenPrefix" "now s3 \<le> now s2' + rt_ttl (tracker s1')"
  shows "rdt_Handler mw n3 r3 w3 s3 =
    (case Mint mt (access_token r3) \<lparr>rr_Method = ''GET'', rr_Path = r_path r3, rr_DataElements = []\<rparr> s3 of
       (Inl _, s) \<Rightarrow> n3 (strip_force r3) w3 s
     | (Inr entry, s) \<Rightarrow> n3 (set_token (strip_force r3) (Token entry)) w3 s)"
proof -
  have ty: "ty \<noteq> []" using create(4) by (auto simp: IsRestrictedReportType_def restrictedReportTypes_def)
  have "tracker (snd (snd (rdt_Handler mw n1 r1 w1 s1))) = TrackReportCreation (tracker s1') rid ty (now s1')"
    using mw no_force create ty by (subst handler_sniffs [OF mw]) (auto simp: handleReportSniffing_def sniffCreateReport_def Let_def)
  then have t2: "tracker s2' = TrackReportCreation (tracker s1') rid ty (now s1')" using status(3,5) by simp
  have "rdt_Handler mw n2 r2 w2 s2 = sniffGetReport (mt_codec mt) n2 (strip_force r2) w2 s2"
    using no_force status(1,2) by (intro handler_sniffs [OF mw]) (auto simp: handleReportSniffing_def report_paths)
  then have "tracker s3 = TrackReportDocument (tracker s2') rid did (now s2')"
    using status(2,4,6-8) fetch(3) report_id_of_path_id [OF create(9)] by (simp add: sniffGetReport_def)
  then have look: "LookupDocumentReportType (tracker s3) did (now s3) = Some ty"
    using t2 tracker_flow status(9) fetch(5) by simp
  have "rdt_Handler mw n3 r3 w3 s3 = handleDocumentDownload mt n3 (strip_force r3) w3 s3"
    using no_force fetch(1,2) by (intro handler_sniffs [OF mw]) (auto simp: handleReportSniffing_def report_paths)
  also have "\<dots> = mint_and_forward mt \<lparr>rr_Method = ''GET'', rr_Path = r_path r3, rr_DataElements = []\<rparr> n3 (strip_force r3) w3 s3"
    using fetch(2,4) status(8) look create(4) by (simp add: handleDocumentDownload_def report_paths)
  finally show ?thesis by (simp add: mint_and_forward_def)
qed

section \<open>Witnesses\<close>

text \<open>A Tokens API that always answers with the same token, a JSON decoder that always finds the same
  fields, and an upstream that always answers 200.\<close>

definition demo_rdt_json :: json where
  "demo_rdt_json = JObj [(''restrictedDataToken'', JStr ''Atz.sprdt|x''), (''reportType'', JStr ''SC_VAT_TAX_REPORT''),
     (''reportId'', JStr ''R''), (''reportDocumentId'', JStr ''D'')]"

definition demo_minter :: "rdt_world minter" where
  "demo_minter = plain_minter ''sellingpartnerapi-eu.amazon.com''
     \<lparr>unmarshal = (\<lambda>_. Some demo_rdt_json), marshal = (\<lambda>_. Some ''{}''), sum256 = (\<lambda>_. [])\<rparr>
     (\<lambda>_. Some demo_rdt_json) (\<lambda>_ _. Inr ok_response)"

definition demo_rdt :: "rdt_world rdt_middleware" where
  "demo_rdt = plain_rdt demo_minter"

definition demo_origin :: "rdt_world handler" where
  "demo_origin r w s = (w_write_header w 200, r_header r, s)"

definition demo_rdt_world :: rdt_world where
  "demo_rdt_world = \<lparr>now = 0, lim = NewLimiter (Fin 1) 1, mcache = NewMemoryCache 1000, rdtc = NewCache (-1),
     tracker = NewReportTracker (70 * minute)\<rparr>"

definition demo_entry :: rdt_entry where
  "demo_entry = \<lparr>Token = ''Atz.sprdt|x'', ExpiresAt = 0\<rparr>"

definition orders_op :: pii_operation where
  "orders_op = \<lparr>op_GenericPath = ''/orders/v0/orders'', op_Method = ''GET'', op_DataElements = ordersV0DataElements,
     op_Cacheable = True\<rparr>"

lemma demo_Match: "MatchPIIOperation ''GET'' ''/orders/v0/orders'' = Some orders_op"
  by code_simp

lemma canonical_token_force:
  "canonical_key ''x-amz-access-token'' = ''X-Amz-Access-Token''" "canonical_key forceRDTHeader = ''X-Sp-Proxy-Force-Rdt''"
  by code_simp+

lemma demo_request_fields:
  "r_method demo_request = ''GET''" "r_path demo_request = ''/orders/v0/orders''" "access_token demo_request = ''t''"
  "hdr_get (r_header demo_request) forceRDTHeader = []" "m_key (MerchantFromContext demo_request) = []"
  by (simp_all add: demo_request_def access_token_def hdr_get_def hdr_vals_def canonical_token_force MerchantFromContext_def)

lemma demo_Mint: "Mint demo_minter token res s = (Inr \<lparr>Token = ''Atz.sprdt|x'', ExpiresAt = now s\<rparr>, s)"
  by (simp add: Mint_def demo_minter_def plain_minter_def plain_transport_def ok_response_def demo_rdt_json_def
      decode_rdt_def struct_fields_def field_of_def field_vals_def to_lower_def lower_char_def Let_def dec_str_def)

theorem rdt_swaps_only_token_witness:
  "\<exists>tok s1 post. (has_prefix (access_token (strip_force demo_request)) rdtTokenPrefix \<longrightarrow> tok = None)
    \<and> (\<forall>nxt. rdt_Handler demo_rdt nxt demo_request new_rw demo_rdt_world
          = (case nxt (with_token (strip_force demo_request) tok) new_rw s1 of (w', h', s') \<Rightarrow> (w', h', post w' s')))
    \<and> (\<forall>w' s'. \<exists>c tr. post w' s' = s'\<lparr>rdtc := c, tracker := tr\<rparr>)"
  by (rule rdt_swaps_only_token [where mt = demo_minter]) (simp add: demo_rdt_def plain_rdt_def)

lemma demo_rdt_entry:
  "rc_entries (rdtc (snd (snd (rdt_Handler demo_rdt demo_origin demo_request new_rw demo_rdt_world))))
     (BuildCacheKey [] orders_op) = Some demo_entry"
proof -
  have "handleReportSniffing demo_minter nxt (strip_force demo_request) w s = None" for nxt w and s :: rdt_world
    by (rule sniff_other) (simp add: demo_request_fields)
  then show ?thesis
    by (simp add: rdt_Handler_def demo_rdt_def plain_rdt_def demo_request_fields Let_def handlePIIOperation_def demo_Match
        rdtTokenPrefix_def orders_op_def rdt_Get_def demo_rdt_world_def NewCache_def mintWithSingleflight_def
        mint_once_def demo_Mint serveWithRDT_def demo_origin_def statusRecorder_def new_codes_def rdt_Set_def
        demo_entry_def)
qed

theorem rdt_cache_own_merchant_witness:
  "\<exists>e op s0 s1. rc_entries (rdtc (snd (snd (rdt_Handler demo_rdt demo_origin demo_request new_rw demo_rdt_world))))
      (BuildCacheKey [] op) = Some e
    \<and> Mint demo_minter ''t'' (ToRestrictedResource op) s0 = (Inr e, s1)"
proof -
  have "rc_entries (rdtc demo_rdt_world) (BuildCacheKey [] orders_op) = Some demo_entry
    \<or> (\<exists>op s0 s1. MatchPIIOperation (r_method demo_request) (r_path demo_request) = Some op
        \<and> BuildCacheKey [] orders_op = BuildCacheKey (m_key (MerchantFromContext demo_request)) op
        \<and> Mint demo_minter (access_token demo_request) (ToRestrictedResource op) s0 = (Inr demo_entry, s1))"
    by (rule rdt_cache_own_merchant [where mw = demo_rdt, OF _ _ _ _ demo_rdt_entry])
      (simp_all add: demo_rdt_def plain_rdt_def demo_minter_def plain_minter_def plain_transport_def demo_origin_def)
  then show ?thesis using demo_rdt_entry
    by (auto simp: demo_rdt_world_def NewCache_def demo_request_fields demo_Match)
qed

theorem cached_rdt_any_token_witness:
  "\<exists>r' post. access_token r' = ''Atz.sprdt|x''
    \<and> (\<forall>nxt. rdt_Handler demo_rdt nxt (set_token demo_request ''Atza|other'') new_rw
           (demo_rdt_world\<lparr>rdtc := rdt_Set (NewCache (-1)) (BuildCacheKey [] orders_op) demo_entry\<rparr>)
         = (case nxt r' new_rw (demo_rdt_world\<lparr>rdtc := rdt_Set (NewCache (-1)) (BuildCacheKey [] orders_op) demo_entry\<rparr>) of
              (w', h', s') \<Rightarrow> (w', h', post w' s')))"
proof -
  let ?s = "demo_rdt_world\<lparr>rdtc := rdt_Set (NewCache (-1)) (BuildCacheKey [] orders_op) demo_entry\<rparr>"
  have "\<exists>r' post. access_token r' = Token demo_entry
      \<and> (\<forall>t. \<not> has_prefix t rdtTokenPrefix \<longrightarrow> (\<forall>nxt. rdt_Handler demo_rdt nxt (set_token demo_request t) new_rw ?s
            = (case nxt r' new_rw ?s of (w', h', s') \<Rightarrow> (w', h', post w' s'))))"
    by (rule cached_rdt_any_token [where mt = demo_minter and op = orders_op])
      (simp_all add: demo_rdt_def plain_rdt_def demo_request_fields demo_Match rdt_Set_def NewCache_def demo_rdt_world_def
        demo_entry_def)
  moreover have "\<not> has_prefix ''Atza|other'' rdtTokenPrefix" by (simp add: rdtTokenPrefix_def)
  ultimately show ?thesis by (auto simp: demo_entry_def)
qed

definition demo_report :: "string \<Rightarrow> string \<Rightarrow> request" where
  "demo_report method path = demo_request\<lparr>r_method := method, r_path := path\<rparr>"

lemma demo_report_fields:
  "r_method (demo_report m p) = m" "r_path (demo_report m p) = p" "access_token (demo_report m p) = ''t''"
  "hdr_get (r_header (demo_report m p)) forceRDTHeader = []"
  using demo_request_fields by (simp_all add: demo_report_def access_token_def)

lemma demo_body_field:
  "body_field (mt_codec demo_minter) ''reportType'' b = Some ''SC_VAT_TAX_REPORT''"
  "body_field (mt_codec demo_minter) ''reportId'' b = Some ''R''"
  "body_field (mt_codec demo_minter) ''reportDocumentId'' b = Some ''D''"
  by (simp_all add: body_field_def demo_minter_def plain_minter_def demo_rdt_json_def struct_fields_def field_of_def
      field_vals_def to_lower_def lower_char_def Let_def dec_str_def)

definition demo_after_create :: rdt_world where
  "demo_after_create = snd (snd (rdt_Handler demo_rdt demo_origin (demo_report ''POST'' reportsBasePath) new_rw demo_rdt_world))"

definition demo_after_status :: rdt_world where
  "demo_after_status = snd (snd (rdt_Handler demo_rdt demo_origin (demo_report ''GET'' (reportsBasePath @ ''/'' @ ''R''))
     new_rw demo_after_create))"

lemma demo_after_now: "now demo_after_create = 0" "now demo_after_status = 0"
proof -
  have now: "now (snd (snd (rdt_Handler demo_rdt demo_origin r w s))) = now s"
    if sniff: "handleReportSniffing demo_minter demo_origin (strip_force r) w s = Some res" "now (snd (snd res)) = now s"
      "hdr_get (r_header r) forceRDTHeader = []" for r w s res
    using that by (subst handler_sniffs [OF _ _ _ sniff(1)]) (simp_all add: demo_rdt_def plain_rdt_def)
  show "now demo_after_create = 0" unfolding demo_after_create_def
    by (subst now [where res = "sniffCreateReport (mt_codec demo_minter) demo_origin
          (strip_force (demo_report ''POST'' reportsBasePath)) new_rw demo_rdt_world"])
      (simp_all add: handleReportSniffing_def demo_report_fields sniffCreateReport_def demo_origin_def demo_body_field
        demo_rdt_world_def)
  then show "now demo_after_status = 0" unfolding demo_after_status_def
    by (subst now [where res = "sniffGetReport (mt_codec demo_minter) demo_origin
          (strip_force (demo_report ''GET'' (reportsBasePath @ ''/'' @ ''R''))) new_rw demo_after_create"])
      (simp_all add: handleReportSniffing_def demo_report_fields sniffGetReport_def demo_origin_def demo_body_field
        report_paths [simplified] Let_def)
qed

lemma demo_rdt_facts:
  "mw_minter demo_rdt = Some demo_minter" "mw_reports demo_rdt" "now demo_rdt_world = 0"
  "rt_ttl (tracker demo_rdt_world) = 70 * minute"
  "snd (snd (rdt_Handler demo_rdt demo_origin (demo_report ''POST'' reportsBasePath) new_rw demo_rdt_world)) = demo_after_create"
  "snd (snd (rdt_Handler demo_rdt demo_origin (demo_report ''GET'' (reportsBasePath @ ''/R'')) new_rw demo_after_create))
     = demo_after_status"
  by (simp_all add: demo_rdt_def plain_rdt_def demo_rdt_world_def NewReportTracker_def demo_after_create_def
      demo_after_status_def)

theorem restricted_report_flow_witness:
  "rdt_Handler demo_rdt demo_origin (demo_report ''GET'' (documentsBasePath @ ''D'')) new_rw demo_after_status
   = demo_origin (set_token (strip_force (demo_report ''GET'' (documentsBasePath @ ''D''))) ''Atz.sprdt|x'') new_rw
       demo_after_status"
proof -
  let ?r1 = "demo_report ''POST'' reportsBasePath" and ?r2 = "demo_report ''GET'' (reportsBasePath @ ''/'' @ ''R'')"
    and ?r3 = "demo_report ''GET'' (documentsBasePath @ ''D'')"
  have "rdt_Handler demo_rdt demo_origin ?r3 new_rw demo_after_status =
    (case Mint demo_minter (access_token ?r3) \<lparr>rr_Method = ''GET'', rr_Path = r_path ?r3, rr_DataElements = []\<rparr> demo_after_status of
       (Inl _, s) \<Rightarrow> demo_origin (strip_force ?r3) new_rw s
     | (Inr entry, s) \<Rightarrow> demo_origin (set_token (strip_force ?r3) (Token entry)) new_rw s)"
    by (rule restricted_report_flow [where ?r1.0 = ?r1 and ?r2.0 = ?r2 and ?n1.0 = demo_origin and ?n2.0 = demo_origin
          and ?w1.0 = new_rw and ?w2.0 = new_rw and ?s1.0 = demo_rdt_world and ?s2.0 = demo_after_create
          and ty = "''SC_VAT_TAX_REPORT''" and rid = "''R''" and did = "''D''"
          and ?w1' = "w_write_header new_rw 200" and ?w2' = "w_write_header new_rw 200"
          and ?s1' = demo_rdt_world and ?s2' = demo_after_create
          and ?h1.0 = "r_header (strip_force ?r1)" and ?h2.0 = "r_header (strip_force ?r2)"])
      (simp_all add: demo_rdt_facts demo_report_fields demo_body_field bodyRecorder_status_def
        statusRecorder_def new_codes_def IsRestrictedReportType_def restrictedReportTypes_def demo_after_now
        rdtTokenPrefix_def duration_defs, simp_all add: demo_origin_def)
  then show ?thesis by (simp add: demo_Mint)
qed

end
