(* ===== verification/Logging.thy ===== *)
theory Logging
  imports AsyncLogger RdtMiddleware
begin

text \<open>
  The logging middleware and what it uses: the response capture, the store of access tokens
  (\<^verbatim>\<open>internal/logging/middleware.go\<close>, \<^verbatim>\<open>capture.go\<close>, \<^verbatim>\<open>internal/tokenstore/store.go\<close>).

  What a handler wrote through the capture is read off the response writer before and after the call;
  \<open>capture_ops\<close> shows that this does not depend on how the handler split its writes. The slot for
  the internal error reason lives in the world; each request has its own, as the middleware
  resets it before the call. The decoder of gzip streams is a parameter that returns the bytes up to the end
  or the first error, and whether there was one; the 16 bytes of \<^verbatim>\<open>crypto/rand\<close> are another.
  Request bodies are read without errors, as elsewhere in the model.

  Shown: the middleware changes neither the response nor what the next handler sees of the request;
  the capture is a bounded prefix; no personal data that the registry's rules name, no sensitive header
  and no query value with a sensitive name reaches the body store or the metadata row.
\<close>

section \<open>Token store\<close>

record token_store =
  ts_entries :: "string \<Rightarrow> (string \<times> time) option"
  ts_ttl :: duration

definition defaultTTL :: duration where
  "defaultTTL = 55 * minute"

definition NewWithTTL :: "duration \<Rightarrow> token_store" where
  "NewWithTTL ttl = \<lparr>ts_entries = Map.empty, ts_ttl = ttl\<rparr>"

definition NewTokenStore :: token_store where
  "NewTokenStore = NewWithTTL defaultTTL"

definition token_Set :: "string \<Rightarrow> string \<Rightarrow> time \<Rightarrow> token_store \<Rightarrow> token_store" where
  "token_Set merchantKey token t ts =
     (if merchantKey = [] \<or> token = [] then ts
      else ts\<lparr>ts_entries := (ts_entries ts)(merchantKey \<mapsto> (token, t))\<rparr>)"

definition token_Get :: "string \<Rightarrow> time \<Rightarrow> token_store \<Rightarrow> string option \<times> token_store" where
  "token_Get merchantKey t ts =
     (case ts_entries ts merchantKey of
        None \<Rightarrow> (None, ts)
      | Some (token, seenAt) \<Rightarrow>
          if ts_ttl ts \<le> t - seenAt then (None, ts\<lparr>ts_entries := (ts_entries ts)(merchantKey := None)\<rparr>)
          else (Some token, ts))"

definition whole_minutes :: "duration \<Rightarrow> string" where
  "whole_minutes d = fmt_fixed 0 (of_int d / of_int minute)"

definition UnavailabilityReason :: "string \<Rightarrow> time \<Rightarrow> token_store \<Rightarrow> string" where
  "UnavailabilityReason merchantKey t ts =
     (case ts_entries ts merchantKey of
        None \<Rightarrow> ''No valid token available for this merchant. Send a new request through your client to activate replay.''
      | Some (token, seenAt) \<Rightarrow>
          if t - seenAt < ts_ttl ts then []
          else ''Token expired (last seen '' @ whole_minutes (t - seenAt) @ '' minutes ago, limit is ''
               @ whole_minutes (ts_ttl ts) @ ''). Send a new request through your client to refresh it.'')"

text \<open>A lookup gives the token of the last \<^verbatim>\<open>Set\<close> for that merchant, until the lifetime is over.\<close>

lemma token_get_set:
  assumes "k \<noteq> []" "tok \<noteq> []"
  shows "fst (token_Get k' t (token_Set k tok t0 ts)) =
    (if k' = k then (if t - t0 < ts_ttl ts then Some tok else None) else fst (token_Get k' t ts))"
  using assms by (auto simp: token_Get_def token_Set_def split: option.splits)

lemma token_get_get: "fst (token_Get k' t (snd (token_Get k t ts))) = fst (token_Get k' t ts)"
  by (auto simp: token_Get_def split: option.splits)

section \<open>Response capture\<close>

record response_capture =
  rc_writer :: rw
  rc_body :: string
  rc_statusCode :: nat
  rc_maxSize :: int
  rc_overflow :: bool
  rc_wroteHead :: bool
  rc_bytesWritten :: int

definition NewResponseCapture :: "rw \<Rightarrow> int \<Rightarrow> response_capture" where
  "NewResponseCapture w maxSize =
     \<lparr>rc_writer = w, rc_body = [], rc_statusCode = 200, rc_maxSize = maxSize, rc_overflow = False,
      rc_wroteHead = False, rc_bytesWritten = 0\<rparr>"

definition capture_WriteHeader :: "nat \<Rightarrow> response_capture \<Rightarrow> response_capture" where
  "capture_WriteHeader code c =
     (let c1 = (if \<not> rc_wroteHead c then c\<lparr>rc_statusCode := code, rc_wroteHead := True\<rparr> else c)
      in c1\<lparr>rc_writer := w_write_header (rc_writer c1) code\<rparr>)"

definition capture_Write :: "string \<Rightarrow> response_capture \<Rightarrow> response_capture" where
  "capture_Write b c =
     (let remaining = rc_maxSize c - int (length (rc_body c));
          c1 = (if rc_overflow c then c
                else if remaining \<le> 0 then c\<lparr>rc_overflow := True\<rparr>
                else if int (length b) \<le> remaining then c\<lparr>rc_body := rc_body c @ b\<rparr>
                else c\<lparr>rc_body := rc_body c @ take (nat remaining) b, rc_overflow := True\<rparr>)
      in c1\<lparr>rc_writer := w_write (rc_writer c1) b, rc_bytesWritten := rc_bytesWritten c1 + int (length b)\<rparr>)"

text \<open>The calls a handler makes on a response writer.\<close>

datatype write_op = OpHeader nat | OpBytes string

fun writer_op :: "write_op \<Rightarrow> rw \<Rightarrow> rw" where
  "writer_op (OpHeader code) w = w_write_header w code"
| "writer_op (OpBytes b) w = w_write w b"

fun capture_op :: "write_op \<Rightarrow> response_capture \<Rightarrow> response_capture" where
  "capture_op (OpHeader code) c = capture_WriteHeader code c"
| "capture_op (OpBytes b) c = capture_Write b c"

text \<open>The capture after a call that took the writer from \<open>w\<close> to \<open>w'\<close>.\<close>

definition capture_after :: "rw \<Rightarrow> rw \<Rightarrow> int \<Rightarrow> response_capture" where
  "capture_after w w' maxSize =
     (capture_Write (drop (length (w_body w)) (w_body w'))
       (fold capture_WriteHeader (new_codes w w') (NewResponseCapture w maxSize)))
     \<lparr>rc_writer := w'\<rparr>"

section \<open>The log entry\<close>

record log_world = rdt_world +
  lw_tokens :: token_store
  lw_reason :: string
  lw_logger :: alog

text \<open>\<^verbatim>\<open>proxy.PrepareInternalErrorReason\<close>: the slot that the error handler writes into.\<close>

definition log_slot :: "'a log_world_scheme reason_slot" where
  "log_slot = Some (\<lambda>reason s. s\<lparr>lw_reason := reason\<rparr>)"

definition DefaultMaxCaptureSize :: int where
  "DefaultMaxCaptureSize = 256 * 1024"

definition captureRequestBody :: "request \<Rightarrow> int \<Rightarrow> string \<times> request" where
  "captureRequestBody r maxCaptureSize =
     (if r_length r \<le> 0 \<or> maxCaptureSize < r_length r then ([], r)
      else if r_method r \<notin> {''POST'', ''PUT'', ''PATCH''} then ([], r)
      else let body = take (nat maxCaptureSize) (r_body r) in (body, r\<lparr>r_body := body\<rparr>))"

type_synonym gunzip = "string \<Rightarrow> (string \<times> bool) option"

definition decompressIfGzipBounded :: "gunzip \<Rightarrow> string \<Rightarrow> header \<Rightarrow> int \<Rightarrow> string" where
  "decompressIfGzipBounded gz data header maxOut =
     (if data = [] then data
      else if to_lower (hdr_get header ''Content-Encoding'') \<noteq> ''gzip'' then data
      else case gz data of
        None \<Rightarrow> data
      | Some (out, failed) \<Rightarrow>
          let decoded = take (nat (maxOut + 1)) out in
          if failed \<and> int (length out) \<le> maxOut then data
          else if maxOut < int (length decoded) then data
          else decoded)"

definition decompressIfGzip :: "gunzip \<Rightarrow> string \<Rightarrow> header \<Rightarrow> string" where
  "decompressIfGzip gz data header = decompressIfGzipBounded gz data header (4 * DefaultMaxCaptureSize)"

definition headerToMap :: "header \<Rightarrow> (string \<times> string) list" where
  "headerToMap h = map (\<lambda>(k, vals). (k, hd vals)) (filter (\<lambda>(k, vals). vals \<noteq> []) h)"

definition buildRequestLog ::
  "request \<Rightarrow> response_capture \<Rightarrow> registry \<Rightarrow> string \<Rightarrow> string \<Rightarrow> time \<Rightarrow> time \<Rightarrow> string \<Rightarrow> request_log" where
  "buildRequestLog r capture reg requestID region startTime t internalReason =
     (let h = w_header (rc_writer capture);
          totalLatency = (t - startTime) div millisecond;
          m = MerchantFromContext r;
          queued = (hdr_get h ''X-SP-Proxy-Queued'' = ''true'');
          wait = (if queued then (case atoi (hdr_get h ''X-SP-Proxy-Queue-Wait-Ms'') of Some ms \<Rightarrow> ms | None \<Rightarrow> 0) else 0)
      in \<lparr>lg_ID = requestID, lg_Timestamp = startTime, lg_MerchantKey = m_key m, lg_Region = region,
          lg_Method = r_method r, lg_Path = r_path r,
          lg_QueryParams = RedactQueryString (r_query r) (queryParamsExtra reg),
          lg_StatusCode = int (rc_statusCode capture), lg_CacheStatus = hdr_get h ''X-SP-Proxy-Cache'',
          lg_Queued = queued, lg_QueueWaitMs = wait, lg_UpstreamLatencyMs = totalLatency - wait,
          lg_TotalLatencyMs = totalLatency, lg_PIIRedactedRequest = False, lg_PIIRedactedResponse = False,
          lg_AmazonRequestID = (if hdr_get h ''x-amz-request-id'' \<noteq> [] then hdr_get h ''x-amz-request-id''
                                else hdr_get h ''x-amzn-RequestId''),
          lg_RequestContentLength = r_length r, lg_ResponseContentLength = rc_bytesWritten capture,
          lg_BodyFile = [], lg_BodyOffset = 0, lg_BodyLength = 0,
          lg_ErrorReason = (if internalReason \<noteq> [] then internalReason else hdr_get h ''X-SP-Proxy-Error-Reason''),
          lg_CachedFromID = []\<rparr>)"

definition buildLogEntry ::
  "gunzip \<Rightarrow> request \<Rightarrow> response_capture \<Rightarrow> registry \<Rightarrow> request_log \<Rightarrow> string \<Rightarrow> string \<Rightarrow> int \<Rightarrow> log_entry" where
  "buildLogEntry gz r capture reg meta requestID requestBody maxCaptureSize =
     (let h = w_header (rc_writer capture);
          reqHeaders = headerToMap (RedactHeaders (r_header r));
          respHeaders = headerToMap (RedactHeaders h);
          bodyEntry = \<lparr>en_ID = requestID, en_RequestHeaders = reqHeaders, en_ResponseHeaders = respHeaders,
                       en_RequestBody = None, en_ResponseBody = None\<rparr>
      in if lg_CacheStatus meta = ''HIT''
         then \<lparr>le_Meta = meta\<lparr>lg_CachedFromID := hdr_get h ''X-SP-Proxy-Cache-Source-ID''\<rparr>,
               le_Body = Some bodyEntry, le_RequestBodyEndpoint = []\<rparr>
         else
           let responseBody = decompressIfGzipBounded gz (rc_body capture) h (4 * maxCaptureSize);
               body1 = bodyEntry\<lparr>en_ResponseBody := if responseBody \<noteq> [] then Some responseBody else None,
                                 en_RequestBody := if requestBody \<noteq> [] then Some requestBody else None\<rparr>;
               meta1 = (if ContainsPII reg r then meta\<lparr>lg_PIIRedactedResponse := True\<rparr> else meta)
           in if RequestBodyContainsPII reg r
              then \<lparr>le_Meta = meta1\<lparr>lg_PIIRedactedRequest := True\<rparr>, le_Body = Some body1,
                    le_RequestBodyEndpoint = RequestBodyPattern reg r\<rparr>
              else \<lparr>le_Meta = meta1, le_Body = Some body1, le_RequestBodyEndpoint = []\<rparr>)"

definition LoggingMiddleware ::
  "gunzip \<Rightarrow> string \<Rightarrow> registry \<Rightarrow> string \<Rightarrow> int \<Rightarrow> 'a log_world_scheme handler \<Rightarrow> 'a log_world_scheme handler" where
  "LoggingMiddleware gz random reg region maxCaptureSize0 nxt = (\<lambda>r0 w s0.
     let maxCaptureSize = (if maxCaptureSize0 \<le> 0 then DefaultMaxCaptureSize else maxCaptureSize0);
         startTime = now s0;
         requestID = GenerateRequestID random;
         r1 = r0\<lparr>ctx_request_id := requestID\<rparr>;
         s1 = s0\<lparr>lw_reason := []\<rparr>
     in case captureRequestBody r1 maxCaptureSize of
          (requestBody, r2) \<Rightarrow>
            (case nxt r2 w s1 of
               (w', h', s2) \<Rightarrow>
                 let capture = capture_after w w' maxCaptureSize;
                     r = r2\<lparr>r_header := h'\<rparr>
                 in if hdr_get (w_header w') ''X-SP-Proxy-Error-Reason'' = ''client_disconnected'' then (w', h', s2)
                    else
                      let m = MerchantFromContext r;
                          tok = hdr_get (r_header r) ''X-Amz-Access-Token'';
                          s3 = (if tok \<noteq> [] \<and> m_key m \<noteq> [] then s2\<lparr>lw_tokens := token_Set (m_key m) tok (now s2) (lw_tokens s2)\<rparr> else s2);
                          meta = buildRequestLog r capture reg requestID region startTime (now s3) (lw_reason s3);
                          entry = buildLogEntry gz r capture reg meta requestID requestBody maxCaptureSize
                      in (w', h', s3\<lparr>lw_logger := Log entry (lw_logger s3)\<rparr>)))"

section \<open>Transparency\<close>

lemma capture_Write_simps [simp]:
  "rc_writer (capture_Write b c) = w_write (rc_writer c) b"
  "rc_bytesWritten (capture_Write b c) = rc_bytesWritten c + int (length b)"
  "rc_statusCode (capture_Write b c) = rc_statusCode c" "rc_wroteHead (capture_Write b c) = rc_wroteHead c"
  "rc_maxSize (capture_Write b c) = rc_maxSize c"
  by (simp_all add: capture_Write_def Let_def)

lemma capture_WriteHeader_simps [simp]:
  "rc_writer (capture_WriteHeader n c) = w_write_header (rc_writer c) n"
  "rc_bytesWritten (capture_WriteHeader n c) = rc_bytesWritten c" "rc_body (capture_WriteHeader n c) = rc_body c"
  "rc_overflow (capture_WriteHeader n c) = rc_overflow c" "rc_maxSize (capture_WriteHeader n c) = rc_maxSize c"
  "rc_wroteHead (capture_WriteHeader n c)"
  "rc_statusCode (capture_WriteHeader n c) = (if rc_wroteHead c then rc_statusCode c else n)"
  by (simp_all add: capture_WriteHeader_def Let_def)

text \<open>What has been captured of the bytes written so far.\<close>

definition captured :: "string \<Rightarrow> response_capture \<Rightarrow> bool" where
  "captured bytes c \<longleftrightarrow> rc_body c = take (nat (rc_maxSize c)) bytes \<and>
     (rc_overflow c \<longrightarrow> nat (rc_maxSize c) \<le> length bytes)"

lemma captured_write: "captured bytes c \<Longrightarrow> captured (bytes @ b) (capture_Write b c)"
  by (auto simp: captured_def capture_Write_def Let_def min_def nat_diff_distrib' split: if_splits)

fun op_bytes :: "write_op \<Rightarrow> string" where
  "op_bytes (OpHeader code) = []"
| "op_bytes (OpBytes b) = b"

fun op_codes :: "write_op \<Rightarrow> nat list" where
  "op_codes (OpHeader code) = [code]"
| "op_codes (OpBytes b) = []"

definition first_code :: "nat list \<Rightarrow> nat" where
  "first_code codes = (case codes of [] \<Rightarrow> 200 | c # _ \<Rightarrow> c)"

lemma capture_run:
  assumes "captured bytes c" "rc_wroteHead c \<longleftrightarrow> codes \<noteq> []" "rc_statusCode c = first_code codes"
  shows "captured (bytes @ concat (map op_bytes ops)) (fold capture_op ops c) \<and>
    rc_writer (fold capture_op ops c) = fold writer_op ops (rc_writer c) \<and>
    rc_maxSize (fold capture_op ops c) = rc_maxSize c \<and>
    rc_bytesWritten (fold capture_op ops c) = rc_bytesWritten c + int (length (concat (map op_bytes ops))) \<and>
    rc_statusCode (fold capture_op ops c) = first_code (codes @ concat (map op_codes ops))"
  using assms
proof (induction ops arbitrary: c bytes codes)
  case Nil
  then show ?case by simp
next
  case (Cons op ops)
  show ?case
  proof (cases op)
    case (OpHeader n)
    have "captured bytes (capture_WriteHeader n c)" using Cons.prems(1) by (simp add: captured_def)
    moreover have "rc_statusCode (capture_WriteHeader n c) = first_code (codes @ [n])"
      using Cons.prems(2,3) by (cases codes) (simp_all add: first_code_def)
    ultimately show ?thesis using Cons.IH [of bytes "capture_WriteHeader n c" "codes @ [n]"] OpHeader by simp
  next
    case (OpBytes b)
    then show ?thesis
      using Cons.IH [OF captured_write [OF Cons.prems(1), of b], of codes] Cons.prems(2,3) by simp
  qed
qed

text \<open>Capturing a response for the log does not change it: whatever calls of \<^verbatim>\<open>WriteHeader\<close> and \<^verbatim>\<open>Write\<close> a
  handler makes, in any number and order, the client's writer gets the same calls; the captured
  body is the response's prefix of the configured size however it was split, the status is that of
  the first \<^verbatim>\<open>WriteHeader\<close>, and the byte count is complete.\<close>

theorem capture_transparent:
  "let c = fold capture_op ops (NewResponseCapture w maxSize) in
   rc_writer c = fold writer_op ops w \<and> rc_body c = take (nat maxSize) (concat (map op_bytes ops)) \<and>
   rc_bytesWritten c = int (length (concat (map op_bytes ops))) \<and>
   rc_statusCode c = first_code (concat (map op_codes ops))"
  using capture_run [of "[]" "NewResponseCapture w maxSize" "[]" ops]
  by (simp add: captured_def NewResponseCapture_def first_code_def Let_def)

lemma capture_after_eq:
  assumes "w_body w' = w_body w @ bytes"
  shows "rc_body (capture_after w w' maxSize) = take (nat maxSize) bytes"
    and "rc_statusCode (capture_after w w' maxSize) = first_code (new_codes w w')"
    and "rc_bytesWritten (capture_after w w' maxSize) = int (length bytes)"
proof -
  let ?ops = "map OpHeader (new_codes w w') @ [OpBytes bytes]"
  have "fold capture_WriteHeader cs c = fold capture_op (map OpHeader cs) c" for cs c
    by (induction cs arbitrary: c) simp_all
  then have ca: "capture_after w w' maxSize = (fold capture_op ?ops (NewResponseCapture w maxSize))\<lparr>rc_writer := w'\<rparr>"
    using assms by (simp add: capture_after_def)
  have o: "concat (map op_bytes ?ops) = bytes" "concat (map op_codes ?ops) = new_codes w w'"
    by (simp_all add: comp_def concat_map_singleton)
  note run = capture_run [of "[]" "NewResponseCapture w maxSize" "[]" ?ops, unfolded o]
  show "rc_body (capture_after w w' maxSize) = take (nat maxSize) bytes"
    "rc_statusCode (capture_after w w' maxSize) = first_code (new_codes w w')"
    "rc_bytesWritten (capture_after w w' maxSize) = int (length bytes)"
    using run unfolding ca by (simp_all add: captured_def NewResponseCapture_def first_code_def)
qed

section \<open>What reaches the stores\<close>

definition doc_redacted :: "codec \<Rightarrow> field_redaction list \<Rightarrow> string \<Rightarrow> bool" where
  "doc_redacted cd rules b \<longleftrightarrow> (\<exists>data. (marshal cd data = Some b \<or> unmarshal cd b = Some data) \<and>
     (\<forall>rule \<in> set rules. \<forall>x \<in> set (select (parsePath (JSONPath rule)) data). redacted_value x))"

text \<open>A body is clean if it is a placeholder, or a document with everything redacted that the rules select, or nothing that the
  decoder accepts: such a body passes the engine as it is, see \<open>undecodable_passes\<close>.\<close>

definition body_clean :: "codec \<Rightarrow> field_redaction list \<Rightarrow> string option \<Rightarrow> bool" where
  "body_clean cd rules body \<longleftrightarrow>
     (\<forall>b. body = Some b \<longrightarrow> (\<exists>ep. b = RedactFullBody cd ep) \<or> doc_redacted cd rules b \<or> unmarshal cd b = None)"

lemma rules_for_registry:
  assumes "reg = SetFailClosed (NewRegistryWithExtras extras) fc"
  shows "RulesFor reg ep = rules_at DefaultPIIRules ep @ rules_at ConditionalPIIRules ep"
    "RequestBodyRulesFor reg ep = rules_at DefaultRequestBodyPIIRules ep"
    "\<forall>rule \<in> set (RulesFor reg ep). path_ok (parsePath (JSONPath rule))"
proof -
  show r: "RulesFor reg ep = rules_at DefaultPIIRules ep @ rules_at ConditionalPIIRules ep"
    by (simp add: assms RulesFor_def SetFailClosed_def NewRegistryWithExtras_def NewRegistry_def)
  show "RequestBodyRulesFor reg ep = rules_at DefaultRequestBodyPIIRules ep"
    by (simp add: assms RequestBodyRulesFor_def SetFailClosed_def NewRegistryWithExtras_def NewRegistry_def)
  show "\<forall>rule \<in> set (RulesFor reg ep). path_ok (parsePath (JSONPath rule))"
    unfolding r using rules_live_lookup [OF rules_live_default] rules_live_lookup [OF rules_live_conditional] by auto
qed

lemma messaging_paths:
  "list_all (\<lambda>(k, rs). list_all (\<lambda>rule. path_ok (parsePath (JSONPath rule))) rs) RequestBodyRules_messaging"
  by code_simp

lemma request_paths:
  assumes "rule \<in> set (rules_at DefaultRequestBodyPIIRules ep)"
  shows "path_ok (parsePath (JSONPath rule))"
proof -
  obtain rs where rs: "(ep, rs) \<in> set DefaultRequestBodyPIIRules" "rule \<in> set rs"
    using assms by (cases "map_of DefaultRequestBodyPIIRules ep") (auto simp: rules_at_def dest: map_of_SomeD)
  then have "(ep, rs) \<in> set RequestBodyRules_messaging \<or> (ep, rs) \<in> set RequestBodyRules_shipping"
    by (auto simp: DefaultRequestBodyPIIRules_def)
  then show ?thesis
    using messaging_paths rules_live_body rs(2) by (fastforce simp: rules_live_def list_all_iff)
qed

lemma redact_with_clean:
  assumes "\<forall>r \<in> set rules. path_ok (parsePath (JSONPath r))" "\<And>j. marshal cd j \<noteq> None"
    and "redact_with cd rules b = (out, flag)"
  shows "doc_redacted cd rules out \<or> unmarshal cd out = None"
proof (cases flag)
  case True
  then show ?thesis using redact_with_result [OF assms(1,3)] unfolding doc_redacted_def by blast
next
  case False
  then have "out = b" "unmarshal cd b = None \<or>
      (\<exists>data. unmarshal cd b = Some data \<and> (\<forall>rule \<in> set rules. select (parsePath (JSONPath rule)) data = []))"
    using redact_with_result [OF assms(1,3)] assms(2) by auto
  then show ?thesis unfolding doc_redacted_def by fastforce
qed

lemma no_rules_clean: "doc_redacted cd [] b \<or> unmarshal cd b = None"
  by (cases "unmarshal cd b") (auto simp: doc_redacted_def)

lemma unknown_no_rules:
  assumes "ClassifyKnown path = (ep, False)" "rules_live t"
  shows "rules_at t ep = []"
proof (rule ccontr)
  assume "rules_at t ep \<noteq> []"
  then obtain rule where "rule \<in> set (rules_at t ep)" by (cases "rules_at t ep") auto
  then have "ClassifyKnown ep = (ep, True)" using rules_live_lookup [OF assms(2)] by blast
  moreover have "ep = clean_path path"
    using assms(1) by (auto simp: ClassifyKnown_def Let_def split: option.splits)
  then have "ClassifyKnown ep = ClassifyKnown path" by (intro ClassifyKnown_cleaned) simp
  ultimately show False using assms(1) by simp
qed

lemma response_clean:
  assumes reg: "reg = SetFailClosed (NewRegistryWithExtras extras) fc"
    and law: "\<And>j. marshal cd j \<noteq> None"
    and body: "b = redact_response (cd, reg) ep known b0"
  shows "body_clean cd (RulesFor reg ep) (en_ResponseBody b)"
  unfolding body_clean_def
proof (intro allI impI)
  fix x assume x: "en_ResponseBody b = Some x"
  show "(\<exists>ep. x = RedactFullBody cd ep) \<or> doc_redacted cd (RulesFor reg ep) x \<or> unmarshal cd x = None"
  proof (cases "IsFullBodyPII reg ep known")
    case True
    then show ?thesis using x by (auto simp: body redact_response_def)
  next
    case False
    then obtain y where y: "en_ResponseBody b0 = Some y" "x = fst (RedactForLogging cd reg ep y)"
      using x by (auto simp: body redact_response_def split: option.splits)
    show ?thesis
    proof (cases "RulesFor reg ep = []")
      case True
      then show ?thesis using no_rules_clean by metis
    next
      case False
      obtain out flag where o: "redact_with cd (RulesFor reg ep) y = (out, flag)" by fastforce
      then have "x = out" using y(2) False by (simp add: RedactForLogging_def Let_def)
      then show ?thesis
        using redact_with_clean [OF rules_for_registry(3) [OF reg] law o] by metis
    qed
  qed
qed

text \<open>The pattern under which a request body is redacted: it has rules, or fail-closed mode applies
  to an unknown path.\<close>

lemma request_pattern:
  assumes reg: "reg = SetFailClosed (NewRegistryWithExtras extras) fc" and pii: "RequestBodyContainsPII reg r"
    and ep: "ClassifyKnown (r_path r) = (ep, known)" "pat = RequestBodyPattern reg r"
  shows "(if pat = [] then ep else pat) = pat"
    and "RequestBodyRulesFor reg pat = [] \<Longrightarrow> IsFullBodyPII reg ep known"
proof -
  obtain p has k where c: "classifyRequestBody reg r = (p, has, k)" by (cases "classifyRequestBody reg r")
  have nb: "\<not> bodyless_method (r_method r)" and "has \<or> failClosed reg \<and> \<not> k"
    using pii c by (auto simp: RequestBodyContainsPII_def split: if_splits)
  then have pat: "pat = p" using ep(2) c by (auto simp: RequestBodyPattern_def)
  have cases: "classifyMessagingPOST r \<noteq> [] \<and> p = classifyMessagingPOST r \<and> k \<or>
      p = ep \<and> k = known"
    and rules: "has \<longleftrightarrow> RequestBodyRulesFor reg p \<noteq> []"
    using c ep(1) by (auto simp: classifyRequestBody_def RequestBodyRulesFor_def Let_def split: if_splits)
  show "(if pat = [] then ep else pat) = pat" using cases pat by auto
  assume none: "RequestBodyRulesFor reg pat = []"
  then have "\<not> k" "failClosed reg" using \<open>has \<or> failClosed reg \<and> \<not> k\<close> rules pat by auto
  then have "known = False" using cases by auto
  moreover have "rules_at (reg_rules reg) ep = []" "rules_at (conditionalRules reg) ep = []"
    using unknown_no_rules [of "r_path r" ep] ep(1) \<open>known = False\<close> rules_live_default rules_live_conditional
    by (simp_all add: reg SetFailClosed_def NewRegistryWithExtras_def NewRegistry_def)
  ultimately show "IsFullBodyPII reg ep known" using \<open>failClosed reg\<close> by (simp add: IsFullBodyPII_def)
qed

lemma request_clean:
  assumes reg: "reg = SetFailClosed (NewRegistryWithExtras extras) fc"
    and law: "\<And>j. marshal cd j \<noteq> None" and pii: "RequestBodyContainsPII reg r"
    and ep: "ClassifyKnown (r_path r) = (ep, known)" "pat = RequestBodyPattern reg r"
    and body: "b = redact_request (cd, reg) ep known pat b0"
  shows "body_clean cd (RequestBodyRulesFor reg pat) (en_RequestBody b)"
  unfolding body_clean_def
proof (intro allI impI)
  fix x assume x: "en_RequestBody b = Some x"
  note rp = request_pattern [OF reg pii ep]
  let ?rules = "RequestBodyRulesFor reg pat"
  obtain y where y: "en_RequestBody b0 = Some y"
    using x by (cases "en_RequestBody b0") (auto simp: body redact_request_def)
  obtain out flag where o: "RedactRequestBodyForLogging cd reg pat y = (out, flag)" by fastforce
  have x': "x = (if flag then out else if IsFullBodyPII reg ep known then RedactFullBody cd pat else y)"
    using x y o by (cases flag) (auto simp: body redact_request_def rp(1))
  show "(\<exists>ep. x = RedactFullBody cd ep) \<or> doc_redacted cd ?rules x \<or> unmarshal cd x = None"
  proof (cases "?rules = [] \<or> list_ex (\<lambda>rule. JSONPath rule = ''$'') ?rules")
    case True
    then show ?thesis using o x' rp(2) by (auto simp: RedactRequestBodyForLogging_def Let_def split: if_splits)
  next
    case False
    then have rw: "redact_with cd ?rules y = (out, flag)" using o by (simp add: RedactRequestBodyForLogging_def Let_def)
    have ok: "\<forall>r \<in> set ?rules. path_ok (parsePath (JSONPath r))"
      using request_paths by (simp add: rules_for_registry(2) [OF reg])
    have "\<not> flag \<Longrightarrow> out = y" using redact_with_result [OF ok rw] by blast
    then show ?thesis using redact_with_clean [OF ok law rw] x' by (auto split: if_splits)
  qed
qed

text \<open>The engine fails open: what the decoder does not accept is returned as it came, also when the rules would select
  something in it. The decoder refuses some bodies that are syntactically JSON, such as one with the number \<^verbatim>\<open>1e999\<close>, and those can be
  encoded into a line.\<close>

theorem undecodable_passes:
  assumes "unmarshal cd x = None" "en_ResponseBody b = Some x" "\<not> IsFullBodyPII reg ep known"
  shows "en_ResponseBody (redact_response (cd, reg) ep known b) = Some x"
  using assms by (simp add: redact_response_def RedactForLogging_def redact_with_def Let_def)

lemma redact_keeps:
  "en_ResponseBody (redact_request eng ep known pat b) = en_ResponseBody b"
  "en_RequestBody (redact_response eng ep known b) = en_RequestBody b"
  by (simp_all add: redact_request_def redact_response_def Let_def split: prod.splits option.splits bool.splits)

lemma flush_body_redacts:
  assumes "flush_body js eng entry (bs, s) = (entry', bs', s')" "le_Body entry = Some b0"
  shows "le_Body entry' = Some (redactBody eng (le_Meta entry) (le_RequestBodyEndpoint entry) b0)"
  using assms by (auto simp: flush_body_def Let_def split: prod.splits sum.splits)

lemma entry_shape:
  assumes "entry = buildLogEntry gz r cap reg meta rid reqBody maxSize" "lg_Path meta = r_path r"
    "\<not> lg_PIIRedactedRequest meta" "\<not> lg_PIIRedactedResponse meta"
  obtains b0 where "le_Body entry = Some b0" "lg_Path (le_Meta entry) = r_path r"
    "en_RequestHeaders b0 = headerToMap (RedactHeaders (r_header r))"
    "en_ResponseHeaders b0 = headerToMap (RedactHeaders (w_header (rc_writer cap)))"
    "en_RequestBody b0 = None \<and> en_ResponseBody b0 = None \<and> \<not> lg_PIIRedactedRequest (le_Meta entry) \<and> \<not> lg_PIIRedactedResponse (le_Meta entry) \<or>
     lg_PIIRedactedResponse (le_Meta entry) = ContainsPII reg r \<and> lg_PIIRedactedRequest (le_Meta entry) = RequestBodyContainsPII reg r \<and>
     (RequestBodyContainsPII reg r \<longrightarrow> le_RequestBodyEndpoint entry = RequestBodyPattern reg r)"
  using assms by (auto simp: buildLogEntry_def Let_def split: if_splits)

lemma sensitive_header:
  assumes "(k, v) \<in> set (headerToMap (RedactHeaders h))" "to_lower k \<in> set SensitiveHeaders"
  shows "v = ''[REDACTED]''"
  using assms by (auto simp: headerToMap_def RedactHeaders_def split: if_splits)

text \<open>What may be written of a request: its bodies and headers are redacted.\<close>

definition line_clean :: "codec \<Rightarrow> registry \<Rightarrow> request \<Rightarrow> body_entry \<Rightarrow> bool" where
  "line_clean cd reg r b \<longleftrightarrow>
     (ContainsPII reg r \<longrightarrow> body_clean cd (RulesFor reg (Classify (r_path r))) (en_ResponseBody b)) \<and>
     (RequestBodyContainsPII reg r \<longrightarrow> body_clean cd (RequestBodyRulesFor reg (RequestBodyPattern reg r)) (en_RequestBody b)) \<and>
     (\<forall>(k, v) \<in> set (en_RequestHeaders b) \<union> set (en_ResponseHeaders b). to_lower k \<in> set SensitiveHeaders \<longrightarrow> v = ''[REDACTED]'')"

text \<open>What is clean for a request depends on its method, path and query only.\<close>

lemma pii_of_line:
  assumes "r_method r = r_method r'" "r_path r = r_path r'" "r_query r = r_query r'"
  shows "ContainsPII reg r = ContainsPII reg r'" "RequestBodyContainsPII reg r = RequestBodyContainsPII reg r'"
    "RequestBodyPattern reg r = RequestBodyPattern reg r'"
proof -
  have c: "classifyRequestBody reg r = classifyRequestBody reg r'"
    unfolding classifyRequestBody_def classifyMessagingPOST_def assms(1,2) by (rule refl)
  show "ContainsPII reg r = ContainsPII reg r'" "RequestBodyContainsPII reg r = RequestBodyContainsPII reg r'"
    "RequestBodyPattern reg r = RequestBodyPattern reg r'"
    using assms by (simp_all add: ContainsPII_def RequestBodyContainsPII_def RequestBodyPattern_def c)
qed

lemma line_clean_cong:
  assumes "r_method r = r_method r'" "r_path r = r_path r'" "r_query r = r_query r'"
  shows "line_clean cd reg r b = line_clean cd reg r' b"
  by (simp add: line_clean_def pii_of_line [OF assms] assms(2))

lemma entry_redacted:
  assumes "reg = SetFailClosed (NewRegistryWithExtras extras) fc"
    and "\<And>j. marshal cd j \<noteq> None"
    and "meta = buildRequestLog r cap reg rid region t0 t reason"
    and "flush_body js (Some (cd, reg)) (buildLogEntry gz r cap reg meta rid reqBody maxSize) (bs, s) = (entry', bs', s')"
    and "le_Body entry' = Some b"
  shows "line_clean cd reg r b"
proof -
  let ?e = "buildLogEntry gz r cap reg meta rid reqBody maxSize"
  obtain ep known where ep: "ClassifyKnown (r_path r) = (ep, known)" by fastforce
  have m: "lg_Path meta = r_path r" "\<not> lg_PIIRedactedRequest meta" "\<not> lg_PIIRedactedResponse meta"
    by (simp_all add: assms(3) buildRequestLog_def Let_def)
  obtain b0 where b0: "le_Body ?e = Some b0" "lg_Path (le_Meta ?e) = r_path r"
    "en_RequestHeaders b0 = headerToMap (RedactHeaders (r_header r))"
    "en_ResponseHeaders b0 = headerToMap (RedactHeaders (w_header (rc_writer cap)))"
    "en_RequestBody b0 = None \<and> en_ResponseBody b0 = None \<and> \<not> lg_PIIRedactedRequest (le_Meta ?e) \<and> \<not> lg_PIIRedactedResponse (le_Meta ?e) \<or>
     lg_PIIRedactedResponse (le_Meta ?e) = ContainsPII reg r \<and> lg_PIIRedactedRequest (le_Meta ?e) = RequestBodyContainsPII reg r \<and>
     (RequestBodyContainsPII reg r \<longrightarrow> le_RequestBodyEndpoint ?e = RequestBodyPattern reg r)"
    by (rule entry_shape [OF refl m])
  have b: "b = redactBody (Some (cd, reg)) (le_Meta ?e) (le_RequestBodyEndpoint ?e) b0"
    using flush_body_redacts [OF assms(4) b0(1)] assms(5) by simp
  have resp: "body_clean cd (RulesFor reg ep) (en_ResponseBody b)" if "ContainsPII reg r"
    using b0(5)
  proof
    assume "en_RequestBody b0 = None \<and> en_ResponseBody b0 = None \<and> \<not> lg_PIIRedactedRequest (le_Meta ?e) \<and> \<not> lg_PIIRedactedResponse (le_Meta ?e)"
    then show ?thesis by (simp add: b redactBody_def body_clean_def)
  next
    assume "lg_PIIRedactedResponse (le_Meta ?e) = ContainsPII reg r \<and> lg_PIIRedactedRequest (le_Meta ?e) = RequestBodyContainsPII reg r \<and>
     (RequestBodyContainsPII reg r \<longrightarrow> le_RequestBodyEndpoint ?e = RequestBodyPattern reg r)"
    then have "en_ResponseBody b = en_ResponseBody (redact_response (cd, reg) ep known b0)"
      using that ep b0(2) by (simp add: b redactBody_def redact_keeps Let_def)
    then show ?thesis using response_clean [OF assms(1,2), of "redact_response (cd, reg) ep known b0" ep known b0] by simp
  qed
  have req: "body_clean cd (RequestBodyRulesFor reg (RequestBodyPattern reg r)) (en_RequestBody b)" if pii: "RequestBodyContainsPII reg r"
    using b0(5)
  proof
    assume "en_RequestBody b0 = None \<and> en_ResponseBody b0 = None \<and> \<not> lg_PIIRedactedRequest (le_Meta ?e) \<and> \<not> lg_PIIRedactedResponse (le_Meta ?e)"
    then show ?thesis by (simp add: b redactBody_def body_clean_def)
  next
    assume "lg_PIIRedactedResponse (le_Meta ?e) = ContainsPII reg r \<and> lg_PIIRedactedRequest (le_Meta ?e) = RequestBodyContainsPII reg r \<and>
     (RequestBodyContainsPII reg r \<longrightarrow> le_RequestBodyEndpoint ?e = RequestBodyPattern reg r)"
    then obtain b1 where "b = redact_request (cd, reg) ep known (RequestBodyPattern reg r) b1"
      using pii ep b0(2) by (simp add: b redactBody_def Let_def)
    from request_clean [OF assms(1,2) pii ep refl this] show ?thesis .
  qed
  have "en_RequestHeaders b = en_RequestHeaders b0" "en_ResponseHeaders b = en_ResponseHeaders b0"
    by (simp_all add: b redactBody_def redact_response_def redact_request_def Let_def split: prod.splits option.splits bool.splits)
  then show ?thesis using resp req sensitive_header b0(3,4) ep by (auto simp: line_clean_def Classify_def)
qed

text \<open>What the middleware does with the logger: nothing when the client has gone, otherwise one entry, built from the
  exchange.\<close>

lemma logging_logs:
  assumes "LoggingMiddleware gz random reg region maxSize nxt r w s = (w', h', s')"
  shows "\<exists>r2 s2. nxt r2 w (s\<lparr>lw_reason := []\<rparr>) = (w', h', s2) \<and> r_method r2 = r_method r \<and> r_path r2 = r_path r \<and>
    r_query r2 = r_query r \<and>
    (if hdr_get (w_header w') ''X-SP-Proxy-Error-Reason'' = ''client_disconnected'' then s' = s2
     else \<exists>cap rid region t0 t reason reqBody n.
       lw_logger s' = Log (buildLogEntry gz (r2\<lparr>r_header := h'\<rparr>) cap reg
         (buildRequestLog (r2\<lparr>r_header := h'\<rparr>) cap reg rid region t0 t reason) rid reqBody n) (lw_logger s2))"
proof -
  define r1 where "r1 = r\<lparr>ctx_request_id := GenerateRequestID random\<rparr>"
  define m where "m = (if maxSize \<le> 0 then DefaultMaxCaptureSize else maxSize)"
  obtain rb r2 where c: "captureRequestBody r1 m = (rb, r2)" by fastforce
  have r2: "r_method r2 = r_method r" "r_path r2 = r_path r" "r_query r2 = r_query r"
    using c by (auto simp: captureRequestBody_def Let_def r1_def split: if_splits)
  obtain w2 h2 s2 where n: "nxt r2 w (s\<lparr>lw_reason := []\<rparr>) = (w2, h2, s2)" by (metis prod.exhaust)
  note run = assms [unfolded LoggingMiddleware_def Let_def, folded m_def r1_def, unfolded c prod.case n]
  have wh: "w2 = w'" "h2 = h'" using run by (simp_all split: if_splits)
  show ?thesis
  proof (cases "hdr_get (w_header w') ''X-SP-Proxy-Error-Reason'' = ''client_disconnected''")
    case True
    then show ?thesis using run n r2 wh by (intro exI [of _ r2] exI [of _ s2]) simp
  next
    case False
    have "\<exists>cap rid region t0 t reason reqBody n.
       lw_logger s' = Log (buildLogEntry gz (r2\<lparr>r_header := h'\<rparr>) cap reg
         (buildRequestLog (r2\<lparr>r_header := h'\<rparr>) cap reg rid region t0 t reason) rid reqBody n) (lw_logger s2)"
      using run unfolding wh if_not_P [OF False] by (intro exI) (auto split: if_splits)
    then show ?thesis using n r2 wh False by (intro exI [of _ r2] exI [of _ s2]) simp
  qed
qed

text \<open>Logging is transparent: the response and the request's header map are those of the next handler, which is
  called once, with the request as it came but for its new id; of the world only the token store
  and the logger's queue change after it. A body is not longer than its declared length.\<close>

theorem logging_transparent:
  assumes "0 < r_length r \<longrightarrow> int (length (r_body r)) \<le> r_length r"
    and "nxt (r\<lparr>ctx_request_id := GenerateRequestID random\<rparr>) w (s\<lparr>lw_reason := []\<rparr>) = (w', h', s2)"
  shows "\<exists>ts l. LoggingMiddleware gz random reg region maxSize nxt r w s = (w', h', s2\<lparr>lw_tokens := ts, lw_logger := l\<rparr>)"
proof -
  define r1 where "r1 = r\<lparr>ctx_request_id := GenerateRequestID random\<rparr>"
  define m where "m = (if maxSize \<le> 0 then DefaultMaxCaptureSize else maxSize)"
  obtain rb r2 where c: "captureRequestBody r1 m = (rb, r2)" by fastforce
  have "r2 = r1"
    using c assms(1) by (auto simp: captureRequestBody_def Let_def r1_def split: if_splits)
  then have n: "nxt r2 w (s\<lparr>lw_reason := []\<rparr>) = (w', h', s2)" using assms(2) by (simp add: r1_def)
  let ?run = "LoggingMiddleware gz random reg region maxSize nxt r w s"
  note run = LoggingMiddleware_def [of gz random reg region maxSize nxt, unfolded Let_def, folded m_def]
  show ?thesis
  proof (cases "hdr_get (w_header w') ''X-SP-Proxy-Error-Reason'' = ''client_disconnected''")
    case True
    then have "?run = (w', h', s2)" unfolding run r1_def [symmetric] c by (simp add: n)
    then show ?thesis by (intro exI [of _ "lw_tokens s2"] exI [of _ "lw_logger s2"]) simp
  next
    case False
    define r where "r = r2\<lparr>r_header := h'\<rparr>"
    define s3 where "s3 = (if hdr_get (r_header r) ''X-Amz-Access-Token'' \<noteq> [] \<and> m_key (MerchantFromContext r) \<noteq> []
      then s2\<lparr>lw_tokens := token_Set (m_key (MerchantFromContext r)) (hdr_get (r_header r) ''X-Amz-Access-Token'') (now s2) (lw_tokens s2)\<rparr> else s2)"
    have "\<exists>e. ?run = (w', h', s3\<lparr>lw_logger := Log e (lw_logger s3)\<rparr>)"
      unfolding run r1_def [symmetric] c prod.case n if_not_P [OF False] r_def [symmetric] s3_def [symmetric] by (rule exI) (rule refl)
    moreover obtain ts where "s3 = s2\<lparr>lw_tokens := ts\<rparr>"
      by (cases "s3 = s2") (auto simp: s3_def intro: that [of "lw_tokens s2"] split: if_splits)
    ultimately show ?thesis by auto
  qed
qed

section \<open>A document download\<close>

definition doc_codec :: codec where
  "doc_codec = \<lparr>unmarshal = (\<lambda>b. Some (JObj [(''url'', JStr b)])), marshal = (\<lambda>_. Some ''safe''), sum256 = (\<lambda>x. x)\<rparr>"

definition doc_jsonl :: jsonl where
  "doc_jsonl = \<lparr>entry_marshal = (\<lambda>_. Some ''line''), entry_unmarshal = (\<lambda>_. None)\<rparr>"

definition doc_request :: request where
  "doc_request = get_request ''/reports/2021-06-30/documents/D1''"

definition doc_capture :: response_capture where
  "doc_capture = capture_Write ''raw'' (NewResponseCapture new_rw 100)"

definition doc_registry :: registry where
  "doc_registry = SetFailClosed (NewRegistryWithExtras []) True"

definition doc_entry :: log_entry where
  "doc_entry = buildLogEntry (\<lambda>_. None) doc_request doc_capture doc_registry
     (buildRequestLog doc_request doc_capture doc_registry ''id'' ''eu'' 0 0 []) ''id'' [] 100"

definition doc_body :: body_entry where
  "doc_body = redactBody (Some (doc_codec, doc_registry)) (le_Meta doc_entry) (le_RequestBodyEndpoint doc_entry)
     (the (le_Body doc_entry))"

definition doc_sink :: "fs body_store \<times> fs" where
  "doc_sink =
     (\<lparr>bs_writer = \<lparr>currentDir = [''current''], current = NoHandle, currentName = [], offset = 0\<rparr>,
       bs_reader = \<lparr>rd_backend = LocalBackend \<lparr>lb_root = []\<rparr>, rd_dir = [''current'']\<rparr>\<rparr>,
      \<lparr>nodes = [([''current''], Dir)], clock = 0, faults = (\<lambda>_ _. False), short_write = 0, temp = []\<rparr>)"

definition doc_world :: "log_world \<Rightarrow> log_world" where
  "doc_world s = s\<lparr>lw_logger := NewAsyncLogger 10\<rparr>"

theorem logging_transparent_witness:
  "\<forall>s. \<exists>ts l. LoggingMiddleware (\<lambda>_. None) ''x'' doc_registry ''eu'' 0 (\<lambda>r w s. (w_write w ''ok'', r_header r, s)) doc_request new_rw (s :: log_world) =
     (w_write new_rw ''ok'', r_header doc_request, s\<lparr>lw_reason := [], lw_tokens := ts, lw_logger := l\<rparr>)"
proof
  fix s :: log_world
  have "r_length doc_request = 0" by code_simp
  then show "\<exists>ts l. LoggingMiddleware (\<lambda>_. None) ''x'' doc_registry ''eu'' 0 (\<lambda>r w s. (w_write w ''ok'', r_header r, s)) doc_request new_rw s =
     (w_write new_rw ''ok'', r_header doc_request, s\<lparr>lw_reason := [], lw_tokens := ts, lw_logger := l\<rparr>)"
    using logging_transparent [of doc_request "\<lambda>r w s. (w_write w ''ok'', r_header r, s)" "''x''" new_rw s "w_write new_rw ''ok''" "r_header doc_request" "s\<lparr>lw_reason := []\<rparr>"]
    by simp
qed

end
