(* ===== verification/Maintenance.thy ===== *)
theory Maintenance
  imports Storage PiiEngine
begin

text \<open>
  Audit log, purge jobs and scheduler (\<^verbatim>\<open>internal/audit\<close>, \<^verbatim>\<open>internal/purge\<close>, \<^verbatim>\<open>internal/scheduler\<close>).

  The audit table shares the database of the request log; metadata is stored as JSON text through the
  \<open>codec\<close> parameter, \<open>[]\<close> being the nil map. Random ids are a parameter. A job is a function on the
  state that may fail; the ticks of the scheduler's ticker are the list of their times, and
  \<open>stopped\<close> reads from the state whether shutdown was requested by then.

  Shown: what was audited is found again with its metadata; a purge removes exactly the rows past their
  retention; a job runs at a tick exactly when its interval has passed since its last run.
\<close>

section \<open>Audit log\<close>

record audit_event =
  au_ID :: string
  au_Timestamp :: time
  au_EventType :: string
  au_Source :: string
  au_Message :: string
  au_Metadata :: "(string \<times> json) list"

record audit_row =
  ar_id :: string
  ar_timestamp :: time
  ar_event_type :: string
  ar_source :: string
  ar_message :: string
  ar_metadata :: string

record audit_filter =
  af_From :: "time option"
  af_To :: "time option"
  af_EventType :: string
  af_Limit :: int
  af_Offset :: int

record audit_db = db +
  au_rows :: "audit_row list"

definition EventDPPComplianceWarning :: string where
  "EventDPPComplianceWarning = ''dpp_compliance_warning''"

definition MarshalMetadata :: "codec \<Rightarrow> (string \<times> json) list \<Rightarrow> string" where
  "MarshalMetadata cd m = (if m = [] then [] else case marshal cd (JObj m) of None \<Rightarrow> [] | Some b \<Rightarrow> b)"

definition LogAuditEvent :: "codec \<Rightarrow> audit_event \<Rightarrow> 'a audit_db_scheme \<Rightarrow> bool \<times> 'a audit_db_scheme" where
  "LogAuditEvent cd ev d =
     (if db_fault d DbInsert \<or> au_ID ev \<in> ar_id ` set (au_rows d) then (False, d)
      else (True, d\<lparr>au_rows := au_rows d @
        [\<lparr>ar_id = au_ID ev, ar_timestamp = au_Timestamp ev, ar_event_type = au_EventType ev, ar_source = au_Source ev,
          ar_message = au_Message ev, ar_metadata = MarshalMetadata cd (au_Metadata ev)\<rparr>]\<rparr>))"

definition audit_holds :: "audit_filter \<Rightarrow> audit_row \<Rightarrow> bool" where
  "audit_holds f r \<longleftrightarrow>
     (case af_From f of None \<Rightarrow> True | Some t \<Rightarrow> t \<le> ar_timestamp r) \<and>
     (case af_To f of None \<Rightarrow> True | Some t \<Rightarrow> ar_timestamp r < t) \<and>
     (af_EventType f = [] \<or> ar_event_type r = af_EventType f)"

text \<open>Text that is not a JSON object leaves the metadata empty.\<close>

definition scan_event :: "codec \<Rightarrow> audit_row \<Rightarrow> audit_event" where
  "scan_event cd r =
     \<lparr>au_ID = ar_id r, au_Timestamp = ar_timestamp r, au_EventType = ar_event_type r, au_Source = ar_source r,
      au_Message = ar_message r,
      au_Metadata = (if ar_metadata r = [] then []
                     else case unmarshal cd (ar_metadata r) of Some (JObj m) \<Rightarrow> m | _ \<Rightarrow> [])\<rparr>"

definition QueryAuditEvents :: "codec \<Rightarrow> audit_filter \<Rightarrow> 'a audit_db_scheme \<Rightarrow> (audit_event list \<times> int) option" where
  "QueryAuditEvents cd f d =
     (if db_fault d DbSelect then None
      else let hits = filter (audit_holds f) (au_rows d)
           in Some (map (scan_event cd)
                      (take (nat (page_limit (af_Limit f))) (drop (nat (af_Offset f)) (sort_key (\<lambda>r. - ar_timestamp r) hits))),
                    int (length hits)))"

definition audit_PurgeOlderThan :: "time \<Rightarrow> duration \<Rightarrow> 'a audit_db_scheme \<Rightarrow> (unit + int) \<times> 'a audit_db_scheme" where
  "audit_PurgeOlderThan t age d =
     (if db_fault d DbDelete then (Inl (), d)
      else (Inr (int (length (filter (\<lambda>r. ar_timestamp r < t - age) (au_rows d)))),
            d\<lparr>au_rows := filter (\<lambda>r. \<not> ar_timestamp r < t - age) (au_rows d)\<rparr>))"

text \<open>The logger; \<open>present\<close> says whether it and its store are not nil.\<close>

definition AuditLog ::
  "codec \<Rightarrow> bool \<Rightarrow> string \<Rightarrow> time \<Rightarrow> string \<Rightarrow> string \<Rightarrow> string \<Rightarrow> (string \<times> json) list \<Rightarrow> 'a audit_db_scheme \<Rightarrow> bool \<times> 'a audit_db_scheme" where
  "AuditLog cd present random t eventType source message metadata d =
     (if \<not> present then (True, d)
      else LogAuditEvent cd
        \<lparr>au_ID = hex_encode random, au_Timestamp = t, au_EventType = eventType, au_Source = source, au_Message = message,
         au_Metadata = metadata\<rparr> d)"

section \<open>Purge jobs\<close>

text \<open>\<open>text\<close> prints a duration.\<close>

definition MetadataPurgeJob ::
  "codec \<Rightarrow> (duration \<Rightarrow> string) \<Rightarrow> bool \<Rightarrow> string \<Rightarrow> duration \<Rightarrow> time \<Rightarrow> 'a audit_db_scheme \<Rightarrow> bool \<times> 'a audit_db_scheme" where
  "MetadataPurgeJob cd text present random retention t d =
     (case PurgeOlderThan t retention d of
        (Inl e, d1) \<Rightarrow> (False, d1)
      | (Inr n, d1) \<Rightarrow>
          (True,
           if 0 < n
           then snd (AuditLog cd present random t ''purge_metadata'' ''purge'' ''request logs purged''
                       [(''count'', JNum (string_of_int n)), (''retention'', JStr (text retention))] d1)
           else d1))"

definition AuditPurgeJob :: "duration \<Rightarrow> time \<Rightarrow> 'a audit_db_scheme \<Rightarrow> bool \<times> 'a audit_db_scheme" where
  "AuditPurgeJob retention t d =
     (case audit_PurgeOlderThan t retention d of (Inl e, d1) \<Rightarrow> (False, d1) | (Inr n, d1) \<Rightarrow> (True, d1))"

section \<open>Scheduler\<close>

record 's job =
  job_Name :: string
  job_Fn :: "time \<Rightarrow> 's \<Rightarrow> bool \<times> 's"
  job_Interval :: duration

text \<open>No entry of \<^verbatim>\<open>lastRun\<close> reads as the zero time, further back than any interval. \<open>Inl\<close>: the loop returned.
  The list of \<open>(name, time)\<close> records which jobs ran.\<close>

fun run_jobs ::
  "('s \<Rightarrow> bool) \<Rightarrow> 's job list \<Rightarrow> time \<Rightarrow> (string \<rightharpoonup> time) \<Rightarrow> 's \<Rightarrow> bool \<times> (string \<times> time) list \<times> (string \<rightharpoonup> time) \<times> 's" where
  "run_jobs stopped [] t lastRun s = (True, [], lastRun, s)"
| "run_jobs stopped (j # js) t lastRun s =
     (if stopped s then (False, [], lastRun, s)
      else if (case lastRun (job_Name j) of None \<Rightarrow> True | Some l \<Rightarrow> job_Interval j \<le> t - l)
      then (case run_jobs stopped js t (lastRun(job_Name j \<mapsto> t)) (snd (job_Fn j t s)) of
              (go, tr, lastRun', s') \<Rightarrow> (go, (job_Name j, t) # tr, lastRun', s'))
      else run_jobs stopped js t lastRun s)"

text \<open>\<^verbatim>\<open>Run\<close>, over the ticks that arrive. Between two of them the select may also see the
  cancelled context.\<close>

fun sched_Run ::
  "('s \<Rightarrow> bool) \<Rightarrow> 's job list \<Rightarrow> time list \<Rightarrow> (string \<rightharpoonup> time) \<Rightarrow> 's \<Rightarrow> (string \<times> time) list \<times> (string \<rightharpoonup> time) \<times> 's" where
  "sched_Run stopped jobs [] lastRun s = ([], lastRun, s)"
| "sched_Run stopped jobs (t # ts) lastRun s =
     (if stopped s then ([], lastRun, s)
      else case run_jobs stopped jobs t lastRun s of
        (False, tr, lastRun1, s1) \<Rightarrow> (tr, lastRun1, s1)
      | (True, tr, lastRun1, s1) \<Rightarrow>
          (case sched_Run stopped jobs ts lastRun1 s1 of (tr2, lastRun2, s2) \<Rightarrow> (tr @ tr2, lastRun2, s2)))"

definition DefaultTick :: duration where
  "DefaultTick = minute"

section \<open>What the jobs do\<close>

lemma metadata_purge_exact:
  assumes "MetadataPurgeJob cd text present random retention t d = (ok, d')"
  shows "if ok then db_rows d' = filter (\<lambda>r. t - retention \<le> lg_Timestamp r) (db_rows d) else d' = d"
  using assms
  by (auto simp: MetadataPurgeJob_def PurgeOlderThan_def AuditLog_def LogAuditEvent_def Let_def not_less split: if_splits)

text \<open>The ticks at which a job with an interval is due, given its last run.\<close>

fun due :: "duration \<Rightarrow> time option \<Rightarrow> time list \<Rightarrow> time list" where
  "due interval prev [] = []"
| "due interval prev (t # ts) =
     (if (case prev of None \<Rightarrow> True | Some l \<Rightarrow> interval \<le> t - l) then t # due interval (Some t) ts
      else due interval prev ts)"

lemma due_first: "due i (Some l) ts = t # ts' \<Longrightarrow> i \<le> t - l"
  by (induction ts) (auto split: if_splits)

lemma due_spaced: "successively (\<lambda>a b. i \<le> b - a) (due i prev ts)"
proof (induction ts arbitrary: prev)
  case (Cons t ts)
  note IH = Cons.IH
  have "successively (\<lambda>a b. i \<le> b - a) (t # due i (Some t) ts)"
  proof (cases "due i (Some t) ts")
    case (Cons h hs)
    then show ?thesis using due_first [of i t ts h hs] IH [of "Some t"] by simp
  qed simp
  then show ?case using Cons.IH [of prev] by simp
qed simp

lemma run_jobs_others:
  "j \<notin> job_Name ` set js \<Longrightarrow> run_jobs cd js t lr s = (go, tr, lr', s') \<Longrightarrow> lr' j = lr j \<and> j \<notin> fst ` set tr"
proof (induction js arbitrary: lr s go tr lr' s')
  case (Cons x js)
  obtain go1 tr1 lr1 s1 where r: "run_jobs cd js t (lr(job_Name x \<mapsto> t)) (snd (job_Fn x t s)) = (go1, tr1, lr1, s1)"
    by (metis prod.exhaust)
  show ?case using Cons.IH [OF _ r] Cons.IH [of lr s go tr lr' s'] Cons.prems r by (auto split: if_splits)
qed simp

lemma run_jobs_goes: "(\<And>s. \<not> cd s) \<Longrightarrow> run_jobs cd js t lr s = (go, tr, lr', s') \<Longrightarrow> go"
  by (induction js arbitrary: lr s tr) (auto split: if_splits prod.splits)

lemma run_jobs_one:
  assumes "\<And>s. \<not> cd s" "distinct (map job_Name js)" "j \<in> set js" "run_jobs cd js t lr s = (go, tr, lr', s')"
  shows "go \<and> map snd (filter (\<lambda>e. fst e = job_Name j) tr) = due (job_Interval j) (lr (job_Name j)) [t] \<and>
    lr' (job_Name j) = (if due (job_Interval j) (lr (job_Name j)) [t] = [] then lr (job_Name j) else Some t)"
  using assms(2-)
proof (induction js arbitrary: lr s go tr lr' s')
  case (Cons x js)
  define d where "d = (case lr (job_Name x) of None \<Rightarrow> True | Some l \<Rightarrow> job_Interval x \<le> t - l)"
  define lr1 where "lr1 = (if d then lr(job_Name x \<mapsto> t) else lr)"
  define s1 where "s1 = (if d then snd (job_Fn x t s) else s)"
  obtain tr1 where r: "run_jobs cd js t lr1 s1 = (go, tr1, lr', s')" and tr: "tr = (if d then (job_Name x, t) # tr1 else tr1)"
    using Cons.prems(3) assms(1) [of s] by (auto simp: d_def [symmetric] lr1_def s1_def split: if_splits prod.splits)
  show ?case
  proof (cases "j = x")
    case True
    have new: "job_Name x \<notin> job_Name ` set js" using Cons.prems(1) by simp
    have go using run_jobs_goes [OF assms(1) r] by simp
    then show ?thesis
      using run_jobs_others [OF new r] tr True
      by (auto simp: d_def [symmetric] lr1_def filter_empty_conv) (metis fst_conv image_eqI)
  next
    case False
    then have j1: "j \<in> set js" using Cons.prems(2) by simp
    then have "job_Name j \<in> job_Name ` set js" by (rule imageI)
    then have j2: "job_Name j \<noteq> job_Name x" using Cons.prems(1) by auto
    note j = j1 j2
    have "lr1 (job_Name j) = lr (job_Name j)" using j(2) by (simp add: lr1_def)
    moreover have "filter (\<lambda>e. fst e = job_Name j) tr = filter (\<lambda>e. fst e = job_Name j) tr1" using j(2) tr by simp
    ultimately show ?thesis using Cons.IH [OF _ j(1) r] Cons.prems(1) by simp
  qed
qed simp

lemma due_append: "due i prev (t # ts) = due i prev [t] @ due i (if due i prev [t] = [] then prev else Some t) ts"
  by simp

text \<open>C36: while no shutdown is requested, every job runs at exactly the ticks at which its interval has passed since
  its last run, the first tick included, so its runs are at least the interval apart; jobs do not
  disturb each other's schedule, and a failing job is run again when next due.\<close>

theorem jobs_run_when_due:
  assumes "\<And>s. \<not> stopped s" "distinct (map job_Name jobs)" "j \<in> set jobs"
  shows "map snd (filter (\<lambda>e. fst e = job_Name j) (fst (sched_Run stopped jobs ts lastRun s))) =
      due (job_Interval j) (lastRun (job_Name j)) ts \<and>
    successively (\<lambda>a b. job_Interval j \<le> b - a) (due (job_Interval j) (lastRun (job_Name j)) ts)"
proof (rule conjI [OF _ due_spaced], induction ts arbitrary: lastRun s)
  case (Cons t ts)
  obtain go tr lr1 s1 where r: "run_jobs stopped jobs t lastRun s = (go, tr, lr1, s1)" by (metis prod.exhaust)
  obtain tr2 lr2 s2 where r2: "sched_Run stopped jobs ts lr1 s1 = (tr2, lr2, s2)" by (metis prod.exhaust)
  note one = run_jobs_one [OF assms r]
  have "fst (sched_Run stopped jobs (t # ts) lastRun s) = tr @ tr2" using assms(1) r r2 one by simp
  then show ?case using one Cons.IH [of lr1 s1] r2 due_append [of "job_Interval j" "lastRun (job_Name j)" t ts] by simp
qed simp

lemma audit_found_again:
  assumes "LogAuditEvent cd ev d = (True, d')" "\<not> db_fault d' DbSelect"
    and "\<And>m b. marshal cd (JObj m) = Some b \<Longrightarrow> b \<noteq> [] \<and> unmarshal cd b = Some (JObj m)" "marshal cd (JObj (au_Metadata ev)) \<noteq> None"
  shows "scan_event cd (last (au_rows d')) = ev"
  using assms by (cases ev) (auto simp: LogAuditEvent_def scan_event_def MarshalMetadata_def split: if_splits option.splits)

section \<open>An hour of ticks\<close>

definition demo_jobs :: "nat job list" where
  "demo_jobs = [\<lparr>job_Name = ''a'', job_Fn = (\<lambda>t s. (False, s + 1)), job_Interval = 60\<rparr>,
     \<lparr>job_Name = ''b'', job_Fn = (\<lambda>t s. (True, s)), job_Interval = 20\<rparr>]"

theorem jobs_run_when_due_witness:
  "map snd (filter (\<lambda>e. fst e = ''a'') (fst (sched_Run (\<lambda>_. False) demo_jobs [0, 20, 40, 60, 80] Map.empty 0))) = [0, 60]"
proof -
  have "\<lparr>job_Name = ''a'', job_Fn = (\<lambda>t s. (False, s + 1)), job_Interval = 60\<rparr> \<in> set demo_jobs" by (simp add: demo_jobs_def)
  moreover have "distinct (map job_Name demo_jobs)" by (simp add: demo_jobs_def)
  ultimately show ?thesis
    using jobs_run_when_due [of "\<lambda>_. False" demo_jobs _ "[0, 20, 40, 60, 80]" Map.empty 0] by fastforce
qed

end
