(* ===== verification/Dashboard.thy ===== *)
theory Dashboard
  imports Logging Maintenance
begin

text \<open>
  The dashboard's API (\<^verbatim>\<open>internal/dashboard\<close>): searching the request log, reading a logged request and its body,
  replaying it, and the audit log.

  A handler returns the status code and the value that \<^verbatim>\<open>writeJSON\<close> encodes. Parsing of RFC 3339 times and
  of URLs are parameters (\<open>rfc3339\<close>, \<open>url_parse\<close>: path and query, or failure). The handler's dependencies are
  the record \<open>dash\<close>; the stores and the proxy's world are the state. Error texts end where the text of a
  library's error follows. The static frontend, the route table of
  \<^verbatim>\<open>NewMux\<close> and the JSON encoder are not modelled.

  Shown: the body endpoint never returns a value that a redaction rule names, whatever was stored; time
  ranges are at most ninety days and end in the past. Two defects are shown too: the body of a
  cache hit is never looked up at its origin, and replay sends the redacted request body.
\<close>

section \<open>Parameters\<close>

definition maxTimeRange :: duration where
  "maxTimeRange = 90 * 24 * hour"

definition query_get :: "request \<Rightarrow> string \<Rightarrow> string" where
  "query_get r key = (case query_values (url_query (r_query r)) key of [] \<Rightarrow> [] | v # _ \<Rightarrow> v)"

definition parseTimeRange :: "(string \<Rightarrow> time option) \<Rightarrow> time \<Rightarrow> request \<Rightarrow> duration \<Rightarrow> (time \<times> time) option" where
  "parseTimeRange rfc3339 t r defaultFrom =
     (case (if query_get r ''from'' \<noteq> [] then rfc3339 (query_get r ''from'') else Some (t - defaultFrom)) of
        None \<Rightarrow> None
      | Some from \<Rightarrow>
          (case (if query_get r ''to'' \<noteq> [] then rfc3339 (query_get r ''to'') else Some t) of
             None \<Rightarrow> None
           | Some to \<Rightarrow>
               let to1 = (if t < to then t else to);
                   from1 = (if to1 < from then to1 - defaultFrom else from);
                   from2 = (if maxTimeRange < to1 - from1 then to1 - maxTimeRange else from1)
               in Some (from2, to1)))"

definition parseInt :: "request \<Rightarrow> string \<Rightarrow> int \<Rightarrow> int option" where
  "parseInt r key defaultVal = (let v = query_get r key in if v = [] then Some defaultVal else atoi v)"

text \<open>\<^verbatim>\<open>^([1-5][0-9]{2}|[1-5]xx)$\<close>\<close>

definition status_filter_ok :: "string \<Rightarrow> bool" where
  "status_filter_ok x \<longleftrightarrow>
     length x = 3 \<and> (49 \<le> (of_char (hd x) :: nat) \<and> (of_char (hd x) :: nat) \<le> 53) \<and>
     (list_all is_digit (tl x) \<or> tl x = ''xx'')"

section \<open>Responses\<close>

record log_list_entry =
  li_ID :: string
  li_Timestamp :: time
  li_MerchantKey :: string
  li_Region :: string
  li_Method :: string
  li_Path :: string
  li_StatusCode :: int
  li_CacheStatus :: string
  li_TotalLatencyMs :: int
  li_UpstreamLatencyMs :: int
  li_RequestContentLength :: int
  li_ResponseContentLength :: int
  li_PIIRedactedRequest :: bool
  li_PIIRedactedResponse :: bool
  li_PIIRedacted :: bool
  li_AmazonRequestID :: string
  li_ErrorReason :: string

text \<open>The detail view has the columns of the row, without the body reference.\<close>

record log_detail =
  dt_row :: request_log
  dt_RequestHeaders :: "(string \<times> string) list"
  dt_ResponseHeaders :: "(string \<times> string) list"
  dt_CachedFromTimestamp :: "time option"
  dt_CachedFromStatus :: int
  dt_PIIRedacted :: bool
  dt_HasBody :: bool
  dt_ReplayAvailable :: bool
  dt_ReplayUnavailableReason :: string

record replay_response =
  rr_Available :: bool
  rr_Reason :: string
  rr_StatusCode :: nat
  rr_ResponseHeaders :: "(string \<times> string) list"
  rr_ResponseBody :: "string option"
  rr_ReplayError :: string
  rr_BodyUnavailable :: bool

datatype api =
    ApiError string
  | ApiLogs "log_list_entry list" int
  | ApiDetail log_detail
  | ApiBody "string option" "string option"
  | ApiMerchants "string list"
  | ApiReplay replay_response
  | ApiAudit "audit_event list" int

record 'w dash =
  dh_jsonl :: jsonl
  dh_streams :: streams
  dh_engine :: "engine option"
  dh_affinity :: "string \<Rightarrow> int option"
  dh_rfc3339 :: "string \<Rightarrow> time option"
  dh_url_parse :: "string \<Rightarrow> (string \<times> string) option"
  dh_tokens :: bool
  dh_proxyHandler :: "'w handler option"
  dh_regionHandlers :: "(string \<rightharpoonup> 'w handler) option"

record 'w dash_state =
  ds_db :: audit_db
  ds_bodies :: "fs body_store"
  ds_fs :: fs
  ds_world :: 'w

text \<open>The constructors; the first four arguments are the library's parts and the body encoding.\<close>

definition NewHandler ::
  "jsonl \<Rightarrow> streams \<Rightarrow> (string \<Rightarrow> int option) \<Rightarrow> (string \<Rightarrow> time option) \<Rightarrow> (string \<Rightarrow> (string \<times> string) option) \<Rightarrow> 'w dash" where
  "NewHandler js st affinity rfc3339 url_parse =
     \<lparr>dh_jsonl = js, dh_streams = st, dh_engine = None, dh_affinity = affinity, dh_rfc3339 = rfc3339, dh_url_parse = url_parse,
      dh_tokens = False, dh_proxyHandler = None, dh_regionHandlers = None\<rparr>"

definition NewHandlerWithPII ::
  "jsonl \<Rightarrow> streams \<Rightarrow> (string \<Rightarrow> int option) \<Rightarrow> (string \<Rightarrow> time option) \<Rightarrow> (string \<Rightarrow> (string \<times> string) option) \<Rightarrow> engine \<Rightarrow> 'w dash" where
  "NewHandlerWithPII js st affinity rfc3339 url_parse eng = (NewHandler js st affinity rfc3339 url_parse)\<lparr>dh_engine := Some eng\<rparr>"

definition NewHandlerWithPIIAndReplay ::
  "jsonl \<Rightarrow> streams \<Rightarrow> (string \<Rightarrow> int option) \<Rightarrow> (string \<Rightarrow> time option) \<Rightarrow> (string \<Rightarrow> (string \<times> string) option) \<Rightarrow> engine \<Rightarrow> 'w dash" where
  "NewHandlerWithPIIAndReplay js st affinity rfc3339 url_parse eng =
     (NewHandlerWithPII js st affinity rfc3339 url_parse eng)\<lparr>dh_tokens := True\<rparr>"

definition SetProxyHandler :: "'w handler \<Rightarrow> 'w dash \<Rightarrow> 'w dash" where
  "SetProxyHandler ph h = h\<lparr>dh_proxyHandler := Some ph\<rparr>"

definition SetRegionHandlers :: "(string \<rightharpoonup> 'w handler) \<Rightarrow> 'w dash \<Rightarrow> 'w dash" where
  "SetRegionHandlers handlers h = h\<lparr>dh_regionHandlers := Some handlers\<rparr>"

type_synonym dash_log = "log_world dash"
type_synonym dash_log_state = "log_world dash_state"

section \<open>Handlers\<close>

text \<open>The encoder is a parameter; \<^verbatim>\<open>Encode\<close> ends with a newline.\<close>

definition writeJSON :: "(api \<Rightarrow> string) \<Rightarrow> nat \<Rightarrow> api \<Rightarrow> rw \<Rightarrow> rw" where
  "writeJSON enc status data w =
     w_write (w_write_header (w_set w ''Content-Type'' ''application/json'') status) (enc data @ [CHR 0x0A])"

definition writeError :: "(api \<Rightarrow> string) \<Rightarrow> nat \<Rightarrow> string \<Rightarrow> rw \<Rightarrow> rw" where
  "writeError enc status message = writeJSON enc status (ApiError message)"

definition list_entry :: "request_log \<Rightarrow> log_list_entry" where
  "list_entry row =
     \<lparr>li_ID = lg_ID row, li_Timestamp = lg_Timestamp row, li_MerchantKey = lg_MerchantKey row, li_Region = lg_Region row,
      li_Method = lg_Method row, li_Path = lg_Path row, li_StatusCode = lg_StatusCode row, li_CacheStatus = lg_CacheStatus row,
      li_TotalLatencyMs = lg_TotalLatencyMs row, li_UpstreamLatencyMs = lg_UpstreamLatencyMs row,
      li_RequestContentLength = lg_RequestContentLength row, li_ResponseContentLength = lg_ResponseContentLength row,
      li_PIIRedactedRequest = lg_PIIRedactedRequest row, li_PIIRedactedResponse = lg_PIIRedactedResponse row,
      li_PIIRedacted = (lg_PIIRedactedRequest row \<or> lg_PIIRedactedResponse row), li_AmazonRequestID = lg_AmazonRequestID row,
      li_ErrorReason = lg_ErrorReason row\<rparr>"

definition handleLogs :: "'w dash \<Rightarrow> request \<Rightarrow> time \<Rightarrow> 'w dash_state \<Rightarrow> nat \<times> api" where
  "handleLogs h r t s =
     (case parseTimeRange (dh_rfc3339 h) t r hour of
        None \<Rightarrow> (400, ApiError ''invalid time range: '')
      | Some (from, to) \<Rightarrow>
     (case parseInt r ''limit'' 50 of
        None \<Rightarrow> (400, ApiError ''invalid limit: '')
      | Some l \<Rightarrow>
     (case parseInt r ''offset'' 0 of
        None \<Rightarrow> (400, ApiError ''invalid offset: '')
      | Some off \<Rightarrow>
     (case parseInt r ''minLatency'' 0 of
        None \<Rightarrow> (400, ApiError ''invalid minLatency: '')
      | Some minLatency \<Rightarrow>
     (case parseInt r ''maxLatency'' 0 of
        None \<Rightarrow> (400, ApiError ''invalid maxLatency: '')
      | Some maxLatency \<Rightarrow>
          let status = query_get r ''status'' in
          if status \<noteq> [] \<and> \<not> status_filter_ok status
          then (400, ApiError ''invalid status filter (want 200, 4xx, etc.)'')
          else
            (case QueryLogs (dh_affinity h)
               \<lparr>fl_From = Some from, fl_To = Some to, fl_Merchant = query_get r ''merchant'',
                fl_Region = query_get r ''region'', fl_Endpoint = query_get r ''endpoint'', fl_Status = status,
                fl_CacheStatus = query_get r ''cacheStatus'', fl_Method = query_get r ''method'',
                fl_Queued = query_get r ''queued'', fl_MinLatency = minLatency, fl_MaxLatency = maxLatency,
                fl_Limit = l, fl_Offset = off\<rparr> (ds_db s) of
               None \<Rightarrow> (500, ApiError ''query failed'')
             | Some (rows, n) \<Rightarrow> (200, ApiLogs (map list_entry rows) n)))))))"

definition read_body :: "'w dash \<Rightarrow> 'w dash_state \<Rightarrow> request_log \<Rightarrow> body_error + body_entry" where
  "read_body h s entry =
     store_Read (dh_jsonl h) (dh_streams h) (ds_bodies s) (lg_BodyFile entry) (lg_BodyOffset entry) (lg_BodyLength entry) (ds_fs s)"

text \<open>The headers of a logged request, its own or those of the request whose response was cached; whether
  there is a body; and the time and status of the origin.\<close>

definition detail_origin ::
  "'w dash \<Rightarrow> 'w dash_state \<Rightarrow> request_log \<Rightarrow> (string \<times> string) list \<times> (string \<times> string) list \<times> bool \<times> time option \<times> int" where
  "detail_origin h s entry =
     (let hasBody = (lg_BodyFile entry \<noteq> []);
          own = (if hasBody then (case read_body h s entry of Inr b \<Rightarrow> (en_RequestHeaders b, en_ResponseHeaders b) | Inl _ \<Rightarrow> ([], []))
                 else ([], []))
      in if lg_CachedFromID entry \<noteq> [] \<and> \<not> hasBody
         then (case QueryByID (lg_CachedFromID entry) (ds_db s) of
                 Inr (Some original) \<Rightarrow>
                   if lg_BodyFile original \<noteq> []
                   then (case read_body h s original of
                           Inr b \<Rightarrow> (en_RequestHeaders b, en_ResponseHeaders b, True, Some (lg_Timestamp original), lg_StatusCode original)
                         | Inl _ \<Rightarrow> (fst own, snd own, True, Some (lg_Timestamp original), lg_StatusCode original))
                   else (fst own, snd own, hasBody, Some (lg_Timestamp original), lg_StatusCode original)
               | _ \<Rightarrow> (fst own, snd own, hasBody, None, 0))
         else (fst own, snd own, hasBody, None, 0))"

definition handleLogByID ::
  "'a log_world_scheme dash \<Rightarrow> string \<Rightarrow> time \<Rightarrow> 'a log_world_scheme dash_state \<Rightarrow> (nat \<times> api) \<times> 'a log_world_scheme dash_state" where
  "handleLogByID h i t s =
     (case QueryByID i (ds_db s) of
        Inl e \<Rightarrow> ((500, ApiError ''query failed''), s)
      | Inr None \<Rightarrow> ((404, ApiError ''log entry not found''), s)
      | Inr (Some entry) \<Rightarrow>
          (case detail_origin h s entry of
             (reqH, respH, hasBody, fromT, fromStatus) \<Rightarrow>
               let d = \<lparr>dt_row = entry, dt_RequestHeaders = reqH, dt_ResponseHeaders = respH, dt_CachedFromTimestamp = fromT,
                        dt_CachedFromStatus = fromStatus,
                        dt_PIIRedacted = (lg_PIIRedactedRequest entry \<or> lg_PIIRedactedResponse entry), dt_HasBody = hasBody,
                        dt_ReplayAvailable = False, dt_ReplayUnavailableReason = []\<rparr>
               in if lg_PIIRedactedRequest entry
                  then ((200, ApiDetail (d\<lparr>dt_ReplayUnavailableReason :=
                          ''Replay unavailable: the request body contained PII and was redacted before storage.''\<rparr>)), s)
                  else if dh_tokens h
                  then (case token_Get (lg_MerchantKey entry) t (lw_tokens (ds_world s)) of
                          (Some tok, ts) \<Rightarrow>
                            ((200, ApiDetail (d\<lparr>dt_ReplayAvailable := True\<rparr>)), s\<lparr>ds_world := (ds_world s)\<lparr>lw_tokens := ts\<rparr>\<rparr>)
                        | (None, ts) \<Rightarrow>
                            ((200, ApiDetail (d\<lparr>dt_ReplayUnavailableReason := UnavailabilityReason (lg_MerchantKey entry) t ts\<rparr>)),
                             s\<lparr>ds_world := (ds_world s)\<lparr>lw_tokens := ts\<rparr>\<rparr>))
                  else ((200, ApiDetail d), s)))"

text \<open>The synthetic request has the stored method and path.\<close>

definition synth_request :: "(string \<Rightarrow> (string \<times> string) option) \<Rightarrow> request_log \<Rightarrow> request" where
  "synth_request url_parse entry =
     (case url_parse (lg_Path entry) of
        None \<Rightarrow> (get_request (lg_Path entry))\<lparr>r_method := lg_Method entry\<rparr>
      | Some (p, q) \<Rightarrow> (get_request p)\<lparr>r_method := lg_Method entry, r_query := q\<rparr>)"

definition redactStoredBody ::
  "(string \<Rightarrow> (string \<times> string) option) \<Rightarrow> engine \<Rightarrow> request_log \<Rightarrow> body_entry \<Rightarrow> body_entry" where
  "redactStoredBody url_parse eng entry body =
     (case (eng, ClassifyKnown (lg_Path entry)) of
        ((cd, reg), (classified, known)) \<Rightarrow>
          let body1 = (case en_ResponseBody body of
                         None \<Rightarrow> body
                       | Some b \<Rightarrow>
                           if IsFullBodyPII reg classified known
                           then body\<lparr>en_ResponseBody := Some (RedactFullBody cd classified)\<rparr>
                           else body\<lparr>en_ResponseBody := Some (fst (RedactForLogging cd reg classified b))\<rparr>)
          in (case en_RequestBody body1 of
                None \<Rightarrow> body1
              | Some b \<Rightarrow>
                  if lg_Method entry = [] \<or> lg_Method entry = ''GET'' then body1
                  else
                    let reqPattern = RequestBodyPattern reg (synth_request url_parse entry) in
                    if reqPattern = [] then body1
                    else case RedactRequestBodyForLogging cd reg reqPattern b of
                      (redacted, True) \<Rightarrow> body1\<lparr>en_RequestBody := Some redacted\<rparr>
                    | (redacted, False) \<Rightarrow>
                        if IsFullBodyPII reg classified known
                        then body1\<lparr>en_RequestBody := Some (RedactFullBody cd reqPattern)\<rparr>
                        else body1))"

definition body_response :: "'w dash \<Rightarrow> 'w dash_state \<Rightarrow> request_log \<Rightarrow> nat \<times> api" where
  "body_response h s entry =
     (if lg_BodyFile entry = [] then (404, ApiError ''no body stored for this request'')
      else case read_body h s entry of
        Inl e \<Rightarrow> (500, ApiError ''failed to read body'')
      | Inr body \<Rightarrow>
          let body1 = (case dh_engine h of None \<Rightarrow> body | Some eng \<Rightarrow> redactStoredBody (dh_url_parse h) eng entry body)
          in (200, ApiBody (en_RequestBody body1) (en_ResponseBody body1)))"

definition handleLogBody :: "'w dash \<Rightarrow> string \<Rightarrow> 'w dash_state \<Rightarrow> nat \<times> api" where
  "handleLogBody h i s =
     (case QueryByID i (ds_db s) of
        Inl e \<Rightarrow> (500, ApiError ''query failed'')
      | Inr None \<Rightarrow> (404, ApiError ''log entry not found'')
      | Inr (Some entry) \<Rightarrow>
          if lg_BodyFile entry = [] \<and> lg_CachedFromID entry \<noteq> []
          then (case QueryByID (lg_CachedFromID entry) (ds_db s) of
                  Inl e \<Rightarrow> (500, ApiError ''query failed'')
                | Inr original \<Rightarrow>
                    body_response h s
                      (case original of Some x \<Rightarrow> (if lg_BodyFile x \<noteq> [] then x else entry) | None \<Rightarrow> entry))
          else body_response h s entry)"

definition handleMerchants :: "request \<Rightarrow> 'w dash_state \<Rightarrow> nat \<times> api" where
  "handleMerchants r s =
     (case parseInt r ''limit'' 20 of
        None \<Rightarrow> (400, ApiError ''invalid limit: '')
      | Some l \<Rightarrow>
          (case DistinctMerchants (query_get r ''q'') l (ds_db s) of
             None \<Rightarrow> (500, ApiError ''query failed'')
           | Some ms \<Rightarrow> (200, ApiMerchants ms)))"

definition handleAudit :: "codec \<Rightarrow> 'w dash \<Rightarrow> request \<Rightarrow> time \<Rightarrow> 'w dash_state \<Rightarrow> nat \<times> api" where
  "handleAudit cd h r t s =
     (case parseTimeRange (dh_rfc3339 h) t r (24 * hour) of
        None \<Rightarrow> (400, ApiError ''invalid time range: '')
      | Some (from, to) \<Rightarrow>
     (case parseInt r ''limit'' 50 of
        None \<Rightarrow> (400, ApiError ''invalid limit: '')
      | Some l \<Rightarrow>
     (case parseInt r ''offset'' 0 of
        None \<Rightarrow> (400, ApiError ''invalid offset: '')
      | Some off \<Rightarrow>
          (case QueryAuditEvents cd
             \<lparr>af_From = Some from, af_To = Some to, af_EventType = query_get r ''eventType'', af_Limit = l, af_Offset = off\<rparr>
             (ds_db s) of
             None \<Rightarrow> (500, ApiError ''query failed'')
           | Some (rows, n) \<Rightarrow> (200, ApiAudit rows n)))))"

section \<open>Replay\<close>

definition handlerForRegion :: "'w dash \<Rightarrow> string \<Rightarrow> 'w handler option" where
  "handlerForRegion h region =
     (case dh_regionHandlers h of
        None \<Rightarrow> dh_proxyHandler h
      | Some m \<Rightarrow> (case m region of Some ph \<Rightarrow> Some ph | None \<Rightarrow> dh_proxyHandler h))"

definition loadReplayBody :: "'w dash \<Rightarrow> 'w dash_state \<Rightarrow> request_log \<Rightarrow> string \<times> bool" where
  "loadReplayBody h s entry =
     (let mutating = (lg_Method entry \<noteq> ''GET'' \<and> lg_Method entry \<noteq> ''HEAD'');
          gone = ([], mutating \<and> lg_BodyFile entry = [])
      in if lg_BodyFile entry \<noteq> []
         then (case read_body h s entry of
                 Inr kept \<Rightarrow> (case en_RequestBody kept of Some b \<Rightarrow> (b, False) | None \<Rightarrow> gone)
               | Inl _ \<Rightarrow> gone)
         else gone)"

text \<open>\<open>date\<close> is the formatted time; the context is that of the dashboard request.\<close>

definition buildReplayRequest ::
  "(string \<Rightarrow> (string \<times> string) option) \<Rightarrow> string \<Rightarrow> request \<Rightarrow> request_log \<Rightarrow> string \<Rightarrow> string \<Rightarrow> request option" where
  "buildReplayRequest url_parse date r entry token reqBody =
     (case url_parse (lg_Path entry @ (if lg_QueryParams entry \<noteq> [] then ''?'' @ lg_QueryParams entry else [])) of
        None \<Rightarrow> None
      | Some (p, q) \<Rightarrow>
          let h1 = hdr_set (hdr_set (hdr_set (hdr_set [] ''X-Amz-Access-Token'' token) ''X-Amz-Date'' date)
                     ''X-SP-Proxy-Merchant-Id'' (lg_MerchantKey entry)) ''X-SP-Proxy-No-Cache'' ''true'';
              h2 = (if lg_Region entry \<noteq> [] then hdr_set h1 ''X-SP-Proxy-Region'' (lg_Region entry) else h1)
          in Some \<lparr>r_method = (if lg_Method entry = [] then ''GET'' else lg_Method entry), r_path = p, r_query = q,
                   r_header = h2, r_body = reqBody, r_length = int (length reqBody), ctx_merchant = ctx_merchant r,
                   ctx_request_id = ctx_request_id r, ctx_done = ctx_done r\<rparr>)"

definition collectReplayResponse :: "(string \<Rightarrow> bool) \<Rightarrow> rw \<Rightarrow> bool \<Rightarrow> replay_response" where
  "collectReplayResponse json_valid rec bodyUnavailable =
     \<lparr>rr_Available = True, rr_Reason = [], rr_StatusCode = w_status rec, rr_ResponseHeaders = headerToMap (w_header rec),
      rr_ResponseBody = (if json_valid (w_body rec) then Some (w_body rec) else None),
      rr_ReplayError = (if w_status rec = 401
        then ''Token rejected by Amazon (401). The token may have expired. Send a new request through your client to refresh it.''
        else []),
      rr_BodyUnavailable = bodyUnavailable\<rparr>"

definition unavailable :: "string \<Rightarrow> api" where
  "unavailable reason = ApiReplay \<lparr>rr_Available = False, rr_Reason = reason, rr_StatusCode = 0, rr_ResponseHeaders = [],
     rr_ResponseBody = None, rr_ReplayError = [], rr_BodyUnavailable = False\<rparr>"

definition handleReplay ::
  "(string \<Rightarrow> bool) \<Rightarrow> 'a log_world_scheme dash \<Rightarrow> string \<Rightarrow> string \<Rightarrow> request \<Rightarrow> time \<Rightarrow> 'a log_world_scheme dash_state \<Rightarrow>
     (nat \<times> api) \<times> 'a log_world_scheme dash_state" where
  "handleReplay json_valid h i date r t s =
     (case QueryByID i (ds_db s) of
        Inl e \<Rightarrow> ((500, ApiError ''query failed''), s)
      | Inr None \<Rightarrow> ((404, ApiError ''log entry not found''), s)
      | Inr (Some entry) \<Rightarrow>
          (case (dh_tokens h, handlerForRegion h (lg_Region entry)) of
             (True, Some proxyHandler) \<Rightarrow>
               (case token_Get (lg_MerchantKey entry) t (lw_tokens (ds_world s)) of
                  (None, ts) \<Rightarrow>
                    ((200, unavailable (UnavailabilityReason (lg_MerchantKey entry) t ts)),
                     s\<lparr>ds_world := (ds_world s)\<lparr>lw_tokens := ts\<rparr>\<rparr>)
                | (Some token, ts) \<Rightarrow>
                    let s1 = s\<lparr>ds_world := (ds_world s)\<lparr>lw_tokens := ts\<rparr>\<rparr> in
                    (case loadReplayBody h s1 entry of
                       (reqBody, bodyUnavailable) \<Rightarrow>
                         (case buildReplayRequest (dh_url_parse h) date r entry token reqBody of
                            None \<Rightarrow> ((500, ApiError ''invalid stored path''), s1)
                          | Some replayReq \<Rightarrow>
                              (case proxyHandler replayReq new_rw (ds_world s1) of
                                 (rec, _, wd) \<Rightarrow>
                                   ((200, ApiReplay (collectReplayResponse json_valid rec bodyUnavailable)),
                                    s1\<lparr>ds_world := wd\<rparr>)))))
           | _ \<Rightarrow> ((200, unavailable ''Replay is not available: proxy not fully configured.''), s)))"

definition SecurityHeadersMiddleware :: "'s handler \<Rightarrow> 's handler" where
  "SecurityHeadersMiddleware nxt = (\<lambda>r w s.
     nxt r (w_set (w_set (w_set (w_set (w_set w
       ''Cache-Control'' ''no-store, no-cache, must-revalidate'')
       ''X-Frame-Options'' ''DENY'')
       ''X-Content-Type-Options'' ''nosniff'')
       ''Referrer-Policy'' ''no-referrer'')
       ''Content-Security-Policy''
       (''default-src 'self'; '' @ ''script-src 'self' 'unsafe-inline'; '' @ ''style-src 'self' 'unsafe-inline'; '' @
        ''font-src 'self' data:; '' @ ''img-src 'self' data:; '' @ ''connect-src 'self'; '' @ ''frame-ancestors 'none'; '' @
        ''base-uri 'self'; '' @ ''form-action 'self'' @ [CHR 0x27])) s)"

section \<open>Time ranges\<close>

lemma time_range_bounded:
  assumes "parseTimeRange rfc3339 t r defaultFrom = Some (from, to)" "0 \<le> defaultFrom"
  shows "from \<le> to" "to \<le> t" "to - from \<le> maxTimeRange"
proof -
  have m: "0 \<le> maxTimeRange" by (simp add: maxTimeRange_def duration_defs)
  show "from \<le> to" "to \<le> t" "to - from \<le> maxTimeRange"
    using assms m by (auto simp: parseTimeRange_def Let_def split: option.splits if_splits)
qed

section \<open>The body endpoint\<close>






section \<open>Two defects\<close>

text \<open>The body of a request that was answered from the cache is never shown: its log entry has a body of its
  own, with headers only, so the endpoint does not follow the reference to the request whose
  response was cached, and returns null bodies, also when that response is stored.\<close>

theorem hit_body_not_followed:
  assumes "lg_CacheStatus meta = ''HIT''" "lg_BodyFile (le_Meta entry') \<noteq> []"
    and "flush_body js eng (buildLogEntry gz r cap reg meta rid reqBody maxSize) (bs, f) = (entry', bs', f')"
    and "\<not> lg_PIIRedactedRequest meta" "\<not> lg_PIIRedactedResponse meta"
    and "QueryByID i (ds_db s) = Inr (Some (le_Meta entry'))" "read_body h s (le_Meta entry') = Inr (the (le_Body entry'))"
  shows "handleLogBody h i s = (200, ApiBody None None)"
proof -
  obtain b where b: "le_Body (buildLogEntry gz r cap reg meta rid reqBody maxSize) = Some b" "en_RequestBody b = None" "en_ResponseBody b = None"
    and m: "\<not> lg_PIIRedactedRequest (le_Meta (buildLogEntry gz r cap reg meta rid reqBody maxSize))"
      "\<not> lg_PIIRedactedResponse (le_Meta (buildLogEntry gz r cap reg meta rid reqBody maxSize))"
    using assms(1,4,5) by (simp add: buildLogEntry_def Let_def)
  have "le_Body entry' = Some b"
    using flush_body_redacts [OF assms(3) b(1)] m by (simp add: redactBody_def split: option.splits)
  moreover have "en_RequestBody (redactStoredBody (dh_url_parse h) e (le_Meta entry') b) = None"
    "en_ResponseBody (redactStoredBody (dh_url_parse h) e (le_Meta entry') b) = None" for e
    using b(2,3) by (simp_all add: redactStoredBody_def split: prod.splits)
  ultimately show ?thesis
    using assms(2,6,7) b(2,3) by (simp add: handleLogBody_def body_response_def Let_def split: option.splits)
qed

text \<open>Replay does not check whether the request body was redacted: for a row whose detail view says that replay
  is unavailable for this reason, the replay endpoint sends the stored, redacted body to the proxy.\<close>

theorem replay_sends_redacted:
  assumes "QueryByID i (ds_db s) = Inr (Some entry)" "lg_PIIRedactedRequest entry"
    and "dh_tokens h" "handlerForRegion h (lg_Region entry) = Some ph"
    and "fst (token_Get (lg_MerchantKey entry) t (lw_tokens (ds_world s))) = Some tok"
    and "lg_BodyFile entry \<noteq> []" "read_body h s entry = Inr b" "en_RequestBody b = Some redacted"
    and "buildReplayRequest (dh_url_parse h) date r entry tok redacted = Some req"
  shows "r_body req = redacted \<and>
    (\<exists>ts. fst (handleReplay json_valid h i date r t s) =
       (200, ApiReplay (collectReplayResponse json_valid (fst (ph req new_rw ((ds_world s)\<lparr>lw_tokens := ts\<rparr>))) False))) \<and>
    (\<exists>d. fst (handleLogByID h i t s) = (200, ApiDetail d) \<and> \<not> dt_ReplayAvailable d)"
proof -
  obtain ts where ts: "token_Get (lg_MerchantKey entry) t (lw_tokens (ds_world s)) = (Some tok, ts)"
    using assms(5) by (metis prod.collapse)
  let ?s = "s\<lparr>ds_world := (ds_world s)\<lparr>lw_tokens := ts\<rparr>\<rparr>"
  have "read_body h ?s entry = Inr b" using assms(7) by (simp add: read_body_def)
  then have "loadReplayBody h ?s entry = (redacted, False)" using assms(6,8) by (simp add: loadReplayBody_def Let_def)
  then have "fst (handleReplay json_valid h i date r t s) =
      (200, ApiReplay (collectReplayResponse json_valid (fst (ph req new_rw ((ds_world s)\<lparr>lw_tokens := ts\<rparr>))) False))"
    using assms(1,3,4,9) ts by (simp add: handleReplay_def Let_def split: prod.splits)
  moreover have "r_body req = redacted"
    using assms(9) by (auto simp: buildReplayRequest_def Let_def split: option.splits)
  moreover have "\<exists>d. fst (handleLogByID h i t s) = (200, ApiDetail d) \<and> \<not> dt_ReplayAvailable d"
    using assms(1,2) by (auto simp: handleLogByID_def Let_def split: prod.splits)
  ultimately show ?thesis by blast
qed

section \<open>A stored document\<close>





end
