(* ===== verification/Metrics.thy ===== *)
theory Metrics
  imports Logging MemCache
begin

text \<open>
  The Prometheus metrics (\<^verbatim>\<open>internal/prommetrics\<close>): the collectors that \<^verbatim>\<open>New\<close> registers, the middleware that records a
  request, and the periodic gauges. The collectors of the Prometheus client are the list of observations
  made on them, in order: metric, label values and value. Durations and bucket bounds are exact
  fractions of seconds.

  A use on which the client panics is an observation that does not fit its collector; what the panic then does to the
  connection is left out.

  Shown: every observation for a request in valid UTF-8 gives its collector as many label values as it was registered with, in valid
  UTF-8, and never a negative increment (the client panics on each); every request is counted once; a throttled answer
  is counted as the proxy's own or as the upstream's, never both, and an answer from the cache never
  as an upstream error. The merchant label is empty where the middleware is installed.
\<close>

section \<open>Collectors\<close>

datatype metric =
    RequestsTotal | RequestDuration | UpstreamDuration | RequestSizeBytes | ResponseSizeBytes
  | RateLimitQueued | RateLimitRejected | RateLimitQueueDuration | RateLimitBucketsActive
  | CacheHitsTotal | CacheMissesTotal | CacheEvictionsTotal | CacheSizeBytes | CacheEntries
  | PIIRedactionsTotal | UpstreamErrorsTotal | UpstreamThrottlesTotal

datatype collector =
    CounterVec string "string list"
  | HistogramVec string "rat list" "string list"
  | Counter string
  | Gauge string

definition durationBuckets :: "rat list" where
  "durationBuckets = [5 / 1000, 1 / 100, 25 / 1000, 5 / 100, 1 / 10, 25 / 100, 5 / 10, 1, 25 / 10, 5, 10, 30]"

definition ExponentialBuckets :: "rat \<Rightarrow> rat \<Rightarrow> nat \<Rightarrow> rat list" where
  "ExponentialBuckets start factor n = map (\<lambda>i. start * factor ^ i) [0..<n]"

definition sizeBuckets :: "rat list" where
  "sizeBuckets = ExponentialBuckets 256 4 10"

definition metrics_New :: "metric \<Rightarrow> collector" where
  "metrics_New m =
     (let l3 = [''merchant_key'', ''endpoint'', ''region'']; l4 = l3 @ [''method'']; l6 = l4 @ [''status_code'', ''cache_status''] in
      case m of
        RequestsTotal \<Rightarrow> CounterVec ''requests_total'' l6
      | RequestDuration \<Rightarrow> HistogramVec ''request_duration_seconds'' durationBuckets l4
      | UpstreamDuration \<Rightarrow> HistogramVec ''upstream_duration_seconds'' durationBuckets l4
      | RequestSizeBytes \<Rightarrow> HistogramVec ''request_size_bytes'' sizeBuckets l4
      | ResponseSizeBytes \<Rightarrow> HistogramVec ''response_size_bytes'' sizeBuckets l4
      | RateLimitQueued \<Rightarrow> CounterVec ''ratelimit_queued_total'' l3
      | RateLimitRejected \<Rightarrow> CounterVec ''ratelimit_rejected_total'' l3
      | RateLimitQueueDuration \<Rightarrow>
          HistogramVec ''ratelimit_queue_duration_seconds'' [1 / 100, 5 / 100, 1 / 10, 5 / 10, 1, 5, 10, 30, 60] l3
      | RateLimitBucketsActive \<Rightarrow> Gauge ''ratelimit_buckets_active''
      | CacheHitsTotal \<Rightarrow> CounterVec ''cache_hits_total'' l3
      | CacheMissesTotal \<Rightarrow> CounterVec ''cache_misses_total'' l3
      | CacheEvictionsTotal \<Rightarrow> Counter ''cache_evictions_total''
      | CacheSizeBytes \<Rightarrow> Gauge ''cache_size_bytes''
      | CacheEntries \<Rightarrow> Gauge ''cache_entries''
      | PIIRedactionsTotal \<Rightarrow> CounterVec ''pii_redactions_total'' l3
      | UpstreamErrorsTotal \<Rightarrow> CounterVec ''upstream_errors_total'' l3
      | UpstreamThrottlesTotal \<Rightarrow> CounterVec ''upstream_throttles_total'' l3)"

section \<open>Recording\<close>

type_synonym observation = "metric \<times> string list \<times> rat"

record metrics_world = log_world +
  mw_obs :: "observation list"

definition parseQueueWaitMs :: "string \<Rightarrow> int" where
  "parseQueueWaitMs h = (if h = [] then 0 else case atoi h of None \<Rightarrow> 0 | Some n \<Rightarrow> n)"

definition inc :: "metric \<Rightarrow> string list \<Rightarrow> observation" where
  "inc m labels = (m, labels, 1)"

definition recordRateLimitMetrics :: "string \<Rightarrow> string \<Rightarrow> string \<Rightarrow> rw \<Rightarrow> nat \<Rightarrow> string \<Rightarrow> int \<Rightarrow> observation list" where
  "recordRateLimitMetrics merchantKey ep region w statusCode cacheStatus queueWaitMs =
     (if hdr_get (w_header w) ''X-SP-Proxy-Queued'' = ''true''
      then inc RateLimitQueued [merchantKey, ep, region] #
           (if 0 < queueWaitMs then [(RateLimitQueueDuration, [merchantKey, ep, region], of_int queueWaitMs / 1000)] else [])
      else [])
     @ (if statusCode = 429 \<and> cacheStatus = ''NONE'' then [inc RateLimitRejected [merchantKey, ep, region]] else [])"

definition recordCacheAndUpstreamMetrics :: "string \<Rightarrow> string \<Rightarrow> string \<Rightarrow> nat \<Rightarrow> string \<Rightarrow> observation list" where
  "recordCacheAndUpstreamMetrics merchantKey ep region statusCode cacheStatus =
     (if cacheStatus = ''HIT'' then [inc CacheHitsTotal [merchantKey, ep, region]]
      else if cacheStatus \<in> {''MISS'', ''BYPASS'', ''PII_EXCLUDED''} then [inc CacheMissesTotal [merchantKey, ep, region]]
      else [])
     @ (if cacheStatus \<noteq> ''HIT'' \<and> 500 \<le> statusCode then [inc UpstreamErrorsTotal [merchantKey, ep, region]] else [])
     @ (if cacheStatus \<noteq> ''HIT'' \<and> cacheStatus \<noteq> ''NONE'' \<and> statusCode = 429
        then [inc UpstreamThrottlesTotal [merchantKey, ep, region]] else [])"

definition recordRequestMetrics :: "string \<Rightarrow> request \<Rightarrow> rw \<Rightarrow> nat \<Rightarrow> int \<Rightarrow> rat \<Rightarrow> observation list" where
  "recordRequestMetrics region r w statusCode bytesWritten duration =
     (let merchantKey = m_key (MerchantFromContext r);
          ep = Classify (r_path r);
          h = w_header w;
          cacheStatus = (if hdr_get h ''X-SP-Proxy-Cache'' = [] then ''NONE'' else hdr_get h ''X-SP-Proxy-Cache'');
          labels = [merchantKey, ep, region, r_method r];
          queueWaitMs = parseQueueWaitMs (hdr_get h ''X-SP-Proxy-Queue-Wait-Ms'');
          upstream = duration - of_int queueWaitMs / 1000;
          upstreamDuration = (if upstream < 0 then 0 else upstream)
      in [inc RequestsTotal [merchantKey, ep, region, r_method r, string_of_nat statusCode, cacheStatus],
          (RequestDuration, labels, duration)]
         @ (if cacheStatus \<noteq> ''HIT'' then [(UpstreamDuration, labels, upstreamDuration)] else [])
         @ (if 0 < r_length r then [(RequestSizeBytes, labels, of_int (r_length r))] else [])
         @ (if 0 < bytesWritten then [(ResponseSizeBytes, labels, of_int bytesWritten)] else [])
         @ recordRateLimitMetrics merchantKey ep region w statusCode cacheStatus queueWaitMs
         @ recordCacheAndUpstreamMetrics merchantKey ep region statusCode cacheStatus
         @ (if hdr_get h ''X-SP-Proxy-PII-Redacted'' = ''true'' then [inc PIIRedactionsTotal [merchantKey, ep, region]] else []))"

text \<open>The wrapper keeps the first status code, 200 without one, and counts the bytes that pass through it. (A write before the
  first \<^verbatim>\<open>WriteHeader\<close> fixes the status at 200; the writer's model does not record that order, and no handler of
  the chain writes first.)\<close>

definition metrics_Middleware :: "string \<Rightarrow> 'a metrics_world_scheme handler \<Rightarrow> 'a metrics_world_scheme handler" where
  "metrics_Middleware region nxt = (\<lambda>r w s.
     case nxt r w s of
       (w', h', s') \<Rightarrow>
         (w', h', s'\<lparr>mw_obs := mw_obs s' @
            recordRequestMetrics region (r\<lparr>r_header := h'\<rparr>) w' (first_code (new_codes w w'))
              (int (length (w_body w')) - int (length (w_body w)))
              (of_int (now s' - now s) / of_int second)\<rparr>))"

text \<open>One tick of the background goroutine: the cache is absent when caching is disabled.\<close>

definition collector_tick :: "mem_cache option \<Rightarrow> limiter option \<Rightarrow> observation list" where
  "collector_tick cacheProvider lm =
     (case cacheProvider of
        None \<Rightarrow> []
      | Some mc \<Rightarrow>
          [(CacheSizeBytes, [], of_int (BytesUsed (mc_Stats mc))), (CacheEntries, [], of_nat (EntryCount (mc_Stats mc))),
           (CacheEvictionsTotal, [], 0)])
     @ (case lm of None \<Rightarrow> [] | Some l \<Rightarrow> [(RateLimitBucketsActive, [], of_nat (BucketCount l))])"

section \<open>Every observation fits its collector\<close>

text \<open>\<^verbatim>\<open>utf8.ValidString\<close>: how many continuation bytes are due, and the range for the next one. Overlong forms, surrogates and
  values above U+10FFFF are refused.\<close>

fun utf8_from :: "nat \<Rightarrow> nat \<Rightarrow> nat \<Rightarrow> string \<Rightarrow> bool" where
  "utf8_from n lo hi [] = (n = 0)"
| "utf8_from n lo hi (c # s) =
     (let b = of_char c in
      if 0 < n then lo \<le> b \<and> b \<le> hi \<and> utf8_from (n - 1) 128 191 s
      else if b < 128 then utf8_from 0 128 191 s
      else if 194 \<le> b \<and> b \<le> 223 then utf8_from 1 128 191 s
      else if b = 224 then utf8_from 2 160 191 s
      else if b = 237 then utf8_from 2 128 159 s
      else if 225 \<le> b \<and> b \<le> 239 then utf8_from 2 128 191 s
      else if b = 240 then utf8_from 3 144 191 s
      else if b = 244 then utf8_from 3 128 143 s
      else if 241 \<le> b \<and> b \<le> 243 then utf8_from 3 128 191 s
      else False)"

definition utf8_valid :: "string \<Rightarrow> bool" where
  "utf8_valid s = utf8_from 0 128 191 s"

text \<open>Text in which an ASCII character ends a valid string: nothing is due before it, and what comes before is valid.\<close>

definition ascii :: "char \<Rightarrow> bool" where
  "ascii c \<longleftrightarrow> of_char c < (128 :: nat)"

lemma utf8_cut: "utf8_from n lo hi (xs @ c # ys) \<Longrightarrow> ascii c \<Longrightarrow> 128 \<le> lo \<Longrightarrow> utf8_from n lo hi xs"
  by (induction xs arbitrary: n lo hi) (auto simp: ascii_def Let_def split: if_splits)

lemma utf8_ascii: "list_all ascii s \<Longrightarrow> utf8_valid s"
proof -
  have "list_all ascii s \<Longrightarrow> utf8_from 0 128 191 s" by (induction s) (auto simp: ascii_def)
  then show "list_all ascii s \<Longrightarrow> utf8_valid s" by (simp add: utf8_valid_def)
qed

lemma utf8_nat: "utf8_valid (string_of_nat n)"
proof -
  have d: "ascii (digit_char k)" for k by (simp add: ascii_def digit_char_def)
  have "list_all ascii (string_of_nat n)"
    by (induction n rule: string_of_nat.induct) (subst string_of_nat.simps, simp add: d)
  then show ?thesis by (rule utf8_ascii)
qed

lemma utf8_clean_path:
  assumes "utf8_valid p"
  shows "utf8_valid (clean_path p)"
proof -
  have cut: "utf8_valid xs" if "utf8_valid (xs @ ys)" "ys = [] \<or> ascii (hd ys)" for xs ys
    using that utf8_cut [of 0 128 191 xs "hd ys" "tl ys"] by (cases ys) (auto simp: utf8_valid_def)
  have "utf8_valid (strip_query p)"
  proof (cases "index_byte p (CHR ''?'')")
    case (Some i)
    then have "i < length p \<and> p ! i = CHR ''?''" by (auto dest: index_byte_Some)
    then have "p = take i p @ CHR ''?'' # drop (Suc i) p" by (metis id_take_nth_drop)
    then show ?thesis using cut [of "take i p" "CHR ''?'' # drop (Suc i) p"] assms Some by (auto simp: strip_query_def ascii_def)
  qed (simp add: strip_query_def assms)
  moreover obtain n where "strip_query p = clean_path p @ replicate n (CHR ''/'')"
    using trim_right_decomp unfolding clean_path_def by blast
  ultimately show ?thesis using cut [of "clean_path p" "replicate n (CHR ''/'')"] by (cases n) (simp_all add: ascii_def)
qed

lemma patterns_ascii: "list_all (\<lambda>ep. list_all ascii (ep_pattern ep)) endpointPatterns"
  by code_simp

lemma utf8_Classify:
  assumes "utf8_valid p"
  shows "utf8_valid (Classify p)"
proof (cases "find_endpoint (clean_path p) (count_byte (clean_path p) (CHR ''/'') + 1)")
  case None
  then show ?thesis using utf8_clean_path [OF assms] by (simp add: Classify_def ClassifyKnown_def)
next
  case (Some ep)
  then have "ep \<in> set endpointPatterns" by (auto simp: find_endpoint_def find_Some_iff)
  then show ?thesis using Some patterns_ascii utf8_ascii by (auto simp: Classify_def ClassifyKnown_def list_all_iff)
qed

text \<open>What the client of the collectors panics on: a wrong number of label values, a label value that is not UTF-8, and a negative
  amount for a counter.\<close>

definition fits :: "collector \<Rightarrow> string list \<Rightarrow> rat \<Rightarrow> bool" where
  "fits c labels v =
     (case c of
        CounterVec _ ls \<Rightarrow> length labels = length ls \<and> list_all utf8_valid labels \<and> 0 \<le> v
      | HistogramVec _ _ ls \<Rightarrow> length labels = length ls \<and> list_all utf8_valid labels
      | Counter _ \<Rightarrow> labels = [] \<and> 0 \<le> v
      | Gauge _ \<Rightarrow> labels = [])"

definition observation_fits :: "observation \<Rightarrow> bool" where
  "observation_fits x = (case x of (m, labels, v) \<Rightarrow> fits (metrics_New m) labels v)"

lemmas record_defs =
  recordRequestMetrics_def recordRateLimitMetrics_def recordCacheAndUpstreamMetrics_def inc_def Let_def

lemma collector_fits: "list_all observation_fits (collector_tick mc lm)"
  by (simp add: collector_tick_def observation_fits_def fits_def metrics_New_def split: option.split)

text \<open>C40: the collectors are used as they were registered. For a request whose path, method, merchant key and region are valid UTF-8, answered
  with a cache status that is, every observation that the metrics middleware
  makes gives as many label values as the collector has labels, all of them valid UTF-8, and never adds a
  negative amount to a counter; so does every observation of the periodic collector. These are the uses on which
  the Prometheus client panics.\<close>

theorem observations_fit:
  assumes "utf8_valid (r_path r)" "utf8_valid (r_method r)" "utf8_valid (m_key (MerchantFromContext r))" "utf8_valid region"
    and "utf8_valid (hdr_get (w_header w) ''X-SP-Proxy-Cache'')"
  shows "list_all observation_fits (recordRequestMetrics region r w st n d) \<and> list_all observation_fits (collector_tick mc lm)"
proof
  have "utf8_valid ''NONE''" by code_simp
  then show "list_all observation_fits (recordRequestMetrics region r w st n d)"
    using assms utf8_Classify [OF assms(1)] utf8_nat
    by (simp add: record_defs observation_fits_def fits_def metrics_New_def)
  show "list_all observation_fits (collector_tick mc lm)" by (rule collector_fits)
qed

theorem observations_fit_witness:
  "list_all observation_fits (recordRequestMetrics ''eu'' (get_request ''/orders/v0/orders'') new_rw 200 2 1) \<and>
   length (recordRequestMetrics ''eu'' (get_request ''/orders/v0/orders'') new_rw 200 2 1) = 4"
proof -
  let ?r = "get_request ''/orders/v0/orders''"
  have "utf8_valid (r_path ?r)" "utf8_valid (r_method ?r)" "utf8_valid (m_key (MerchantFromContext ?r))" "utf8_valid ''eu''"
    "utf8_valid (hdr_get (w_header new_rw) ''X-SP-Proxy-Cache'')"
    by code_simp+
  moreover have "length (recordRequestMetrics ''eu'' ?r new_rw 200 2 1) = 4" by code_simp
  ultimately show ?thesis using observations_fit [of ?r "''eu''" new_rw 200 2 1] by blast
qed

text \<open>The condition on the path is not checked anywhere: a path that no pattern knows is its own label, and
  the path of a request may be any bytes. With \<^verbatim>\<open>/%ff\<close> the first observation already makes the client panic, after
  the request has been forwarded.\<close>

theorem invalid_path_unfit:
  assumes "\<not> utf8_valid (Classify (r_path r))"
  shows "\<not> list_all observation_fits (recordRequestMetrics region r w st n d)"
  using assms by (simp add: record_defs observation_fits_def fits_def metrics_New_def)

lemma invalid_path_exists: "\<not> utf8_valid (Classify [CHR ''/'', CHR 0xFF])"
  by code_simp

text \<open>A histogram needs strictly increasing bounds. The size buckets end at 64 MiB.\<close>

lemma buckets_increasing:
  "metrics_New m = HistogramVec nm bs ls \<Longrightarrow> sorted_wrt (<) bs"
  by (cases m) (auto simp: metrics_New_def Let_def durationBuckets_def sizeBuckets_def ExponentialBuckets_def upt_rec)

lemma size_buckets_last: "List.last sizeBuckets = 64 * 1024 * 1024"
  by (simp add: sizeBuckets_def ExponentialBuckets_def upt_rec)

section \<open>Accounting\<close>

definition observed :: "metric \<Rightarrow> observation list \<Rightarrow> nat" where
  "observed m os = length (filter (\<lambda>x. fst x = m) os)"

lemma observed_simps [simp]:
  "observed m [] = 0" "observed m (x # os) = (if fst x = m then 1 else 0) + observed m os" "observed m (xs @ ys) = observed m xs + observed m ys"
  by (simp_all add: observed_def)

theorem request_accounting:
  "let os = recordRequestMetrics region r w st n d in
   observed RequestsTotal os = 1 \<and> observed CacheHitsTotal os + observed CacheMissesTotal os \<le> 1 \<and>
   (st = 429 \<longrightarrow> observed RateLimitRejected os + observed UpstreamThrottlesTotal os + observed CacheHitsTotal os = 1) \<and>
   (st \<noteq> 429 \<longrightarrow> observed RateLimitRejected os + observed UpstreamThrottlesTotal os = 0) \<and>
   (observed CacheHitsTotal os = 1 \<longrightarrow> observed UpstreamErrorsTotal os = 0 \<and> observed UpstreamDuration os = 0)"
  by (simp add: record_defs)

text \<open>The middleware hands the exchange through unchanged.\<close>

lemma metrics_transparent:
  "nxt r w s = (w', h', s') \<Longrightarrow> \<exists>obs. metrics_Middleware region nxt r w s = (w', h', s'\<lparr>mw_obs := mw_obs s' @ obs\<rparr>)"
  by (auto simp: metrics_Middleware_def)

text \<open>The middleware is the outermost one, so the request it sees carries no merchant yet: without a merchant in the
  context, the merchant label of every observation is empty.\<close>

theorem merchant_label_empty:
  assumes "ctx_merchant r = None" "x \<in> set (recordRequestMetrics region r w st n d)"
  shows "hd (fst (snd x)) = []"
  using assms
  by (auto simp: record_defs MerchantFromContext_def split: if_splits)

end
