(* ===== verification/Rotator.thy ===== *)
theory Rotator
  imports Bodies
begin

text \<open>
  The rotator of body files (\<^verbatim>\<open>internal/bodies/rotator.go\<close>).

  The loops over directory entries and objects are recursions over the lists that \<^verbatim>\<open>ReadDir\<close> and
  \<^verbatim>\<open>List\<close> returned at their start. The calls of the orphan notifier are returned as the list of their
  arguments; an error it returns is only logged. A phase returns an error flag; \<^verbatim>\<open>RunOnce\<close> keeps the
  first one.

  Shown, for every backend that keeps the contract \<open>blob_store\<close> and then for the local directory:
  a rotation, whatever calls fail in it, leaves the content of every body file readable or deletes
  it because it expired or the budget was exceeded; an entry written is read back for as long as
  its retention runs; after a rotation without failures nothing stays in a tier past its age, and
  the stored bytes fit the budget unless only the active file is left.
\<close>

datatype rotate_error = PromoteError | CompressError | PurgeError | EvictError

record 's rotator =
  ro_backend :: "'s backend"
  ro_codec :: Codec
  ro_dir :: path
  ro_recentMaxAge :: duration
  ro_archiveMaxAge :: duration
  ro_maxBytes :: int
  ro_notifier :: bool

record rotator_options =
  opt_Codec :: "Codec option"
  opt_RecentMaxAge :: duration
  opt_ArchiveMaxAge :: duration
  opt_MaxBytes :: int
  opt_OrphanNotifier :: bool

definition NewRotator :: "'s backend \<Rightarrow> path \<Rightarrow> rotator_options \<Rightarrow> 's rotator" where
  "NewRotator b dir opts =
     \<lparr>ro_backend = b,
      ro_codec = (case opt_Codec opts of None \<Rightarrow> zstdCodec | Some c \<Rightarrow> c),
      ro_dir = dir, ro_recentMaxAge = opt_RecentMaxAge opts, ro_archiveMaxAge = opt_ArchiveMaxAge opts,
      ro_maxBytes = opt_MaxBytes opts, ro_notifier = opt_OrphanNotifier opts\<rparr>"

text \<open>\<^verbatim>\<open>baseFileName\<close>: the text after the last slash, without the suffix of a codec.\<close>

definition after_last_slash :: "string \<Rightarrow> string" where
  "after_last_slash key = rev (takeWhile (\<lambda>c. c \<noteq> CHR ''/'') (rev key))"

definition trim_suffix :: "string \<Rightarrow> string \<Rightarrow> string" where
  "trim_suffix s x = (if has_suffix s x then take (length s - length x) s else s)"

definition baseFileName :: "string \<Rightarrow> string" where
  "baseFileName key =
     (let name = after_last_slash key in
      if has_suffix name ''.zst'' then trim_suffix name ''.zst''
      else if has_suffix name ''.gz'' then trim_suffix name ''.gz''
      else name)"

definition notifyOrphans :: "'s rotator \<Rightarrow> string list \<Rightarrow> string list list" where
  "notifyOrphans r files = (if \<not> ro_notifier r \<or> files = [] then [] else [files])"

section \<open>Promotion\<close>

fun promote_files ::
  "'a fs_scheme rotator \<Rightarrow> string \<Rightarrow> (string \<times> node) list \<Rightarrow> 'a fs_scheme \<Rightarrow> bool \<times> 'a fs_scheme" where
  "promote_files r activeName [] s = (True, s)"
| "promote_files r activeName ((n, nd) # es) s =
     (if nd = Dir \<or> n = activeName \<or> \<not> has_suffix n ''.jsonl'' then promote_files r activeName es s
      else case os_ReadFile s (ro_dir r @ [n]) of
        Inl e \<Rightarrow> (False, s)
      | Inr c \<Rightarrow>
          (case be_Put (ro_backend r) (''recent/'' @ n) (Inr c) s of
             (Some e, s1) \<Rightarrow> (False, s1)
           | (None, s1) \<Rightarrow>
               (case os_Remove (ro_dir r @ [n]) s1 of
                  (Some e, s2) \<Rightarrow> (False, s2)
                | (None, s2) \<Rightarrow> promote_files r activeName es s2)))"

definition promoteCurrentToRecent :: "'a fs_scheme rotator \<Rightarrow> 'a fs_scheme \<Rightarrow> bool \<times> 'a fs_scheme" where
  "promoteCurrentToRecent r s =
     (case os_ReadDir s (ro_dir r) of
        Inl NotExist \<Rightarrow> (True, s)
      | Inl OsError \<Rightarrow> (False, s)
      | Inr entries \<Rightarrow> promote_files r (hourlyFileName (clock s)) entries s)"

section \<open>Compression\<close>

definition compressObject ::
  "streams \<Rightarrow> 'a fs_scheme rotator \<Rightarrow> string \<Rightarrow> string \<Rightarrow> 'a fs_scheme \<Rightarrow> bool \<times> 'a fs_scheme" where
  "compressObject st r srcKey dstKey s =
     (case be_Get (ro_backend r) srcKey 0 0 s of
        Inl e \<Rightarrow> (False, s)
      | Inr c \<Rightarrow>
          (case be_Put (ro_backend r) dstKey (Inr (encode st (ro_codec r) c)) s of
             (Some e, s1) \<Rightarrow> (False, s1)
           | (None, s1) \<Rightarrow> (True, s1)))"

fun compress_objects ::
  "streams \<Rightarrow> 'a fs_scheme rotator \<Rightarrow> time \<Rightarrow> object list \<Rightarrow> 'a fs_scheme \<Rightarrow> bool \<times> 'a fs_scheme" where
  "compress_objects st r cutoff [] s = (True, s)"
| "compress_objects st r cutoff (ob # obs) s =
     (if \<not> has_suffix (ob_Key ob) ''.jsonl'' \<or> cutoff < ob_ModTime ob then compress_objects st r cutoff obs s
      else case compressObject st r (ob_Key ob)
                  (''archive/'' @ trim_prefix (ob_Key ob) ''recent/'' @ Extension (ro_codec r)) s of
        (False, s1) \<Rightarrow> (False, s1)
      | (True, s1) \<Rightarrow>
          (case be_Delete (ro_backend r) [ob_Key ob] s1 of
             (Some e, s2) \<Rightarrow> (False, s2)
           | (None, s2) \<Rightarrow> compress_objects st r cutoff obs s2))"

definition compressToArchive :: "streams \<Rightarrow> 'a fs_scheme rotator \<Rightarrow> 'a fs_scheme \<Rightarrow> bool \<times> 'a fs_scheme" where
  "compressToArchive st r s =
     (case be_List (ro_backend r) ''recent/'' s of
        Inl e \<Rightarrow> (False, s)
      | Inr objects \<Rightarrow> compress_objects st r (clock s - ro_recentMaxAge r) objects s)"

section \<open>Expiry\<close>

definition purgeExpired :: "'a fs_scheme rotator \<Rightarrow> 'a fs_scheme \<Rightarrow> bool \<times> string list list \<times> 'a fs_scheme" where
  "purgeExpired r s =
     (case be_List (ro_backend r) ''archive/'' s of
        Inl e \<Rightarrow> (False, [], s)
      | Inr objects \<Rightarrow>
          let expired = filter (\<lambda>ob. ob_ModTime ob < clock s - ro_archiveMaxAge r) objects;
              files = map (\<lambda>ob. baseFileName (ob_Key ob)) expired
          in if expired = [] then (True, [], s)
             else case be_Delete (ro_backend r) (map ob_Key expired) s of
               (Some e, s1) \<Rightarrow> (False, [], s1)
             | (None, s1) \<Rightarrow> (True, notifyOrphans r files, s1))"

section \<open>Eviction by size\<close>

record inventory_item =
  iv_file :: string
  iv_key :: string
  iv_localPath :: "path option"
  iv_size :: int
  iv_modTime :: time

definition local_items :: "path \<Rightarrow> (string \<times> node) list \<Rightarrow> inventory_item list" where
  "local_items dir es =
     map (\<lambda>(n, nd). \<lparr>iv_file = n, iv_key = [], iv_localPath = Some (dir @ [n]), iv_size = node_size nd,
                     iv_modTime = node_time nd\<rparr>)
       (filter (\<lambda>(n, nd). nd \<noteq> Dir \<and> has_suffix n ''.jsonl'') es)"

definition object_item :: "object \<Rightarrow> inventory_item" where
  "object_item ob =
     \<lparr>iv_file = baseFileName (ob_Key ob), iv_key = ob_Key ob, iv_localPath = None, iv_size = ob_Size ob,
      iv_modTime = ob_ModTime ob\<rparr>"

definition sizeInventory :: "'a fs_scheme rotator \<Rightarrow> 'a fs_scheme \<Rightarrow> (inventory_item list \<times> int) option" where
  "sizeInventory r s =
     (case os_ReadDir s (ro_dir r) of
        Inl OsError \<Rightarrow> None
      | dir \<Rightarrow>
          let es = (case dir of Inr es \<Rightarrow> es | Inl _ \<Rightarrow> []) in
          (case be_List (ro_backend r) ''recent/'' s of
             Inl e \<Rightarrow> None
           | Inr recent \<Rightarrow>
               (case be_List (ro_backend r) ''archive/'' s of
                  Inl e \<Rightarrow> None
                | Inr archive \<Rightarrow>
                    let items = local_items (ro_dir r) es @ map object_item recent @ map object_item archive
                    in Some (sort_key iv_modTime items, sum_list (map iv_size items)))))"

fun evict_items ::
  "'a fs_scheme rotator \<Rightarrow> string \<Rightarrow> inventory_item list \<Rightarrow> int \<Rightarrow> string list \<Rightarrow> 'a fs_scheme \<Rightarrow>
     bool \<times> string list \<times> 'a fs_scheme" where
  "evict_items r activeName [] tot deleted s = (True, deleted, s)"
| "evict_items r activeName (item # items) tot deleted s =
     (if tot \<le> ro_maxBytes r then (True, deleted, s)
      else if iv_file item = activeName then evict_items r activeName items tot deleted s
      else case (case iv_localPath item of
                   Some p \<Rightarrow> (case os_Remove p s of (Some OsError, s1) \<Rightarrow> (False, s1) | (_, s1) \<Rightarrow> (True, s1))
                 | None \<Rightarrow> (case be_Delete (ro_backend r) [iv_key item] s of
                              (Some e, s1) \<Rightarrow> (False, s1) | (None, s1) \<Rightarrow> (True, s1))) of
        (False, s1) \<Rightarrow> (False, deleted, s1)
      | (True, s1) \<Rightarrow>
          evict_items r activeName items (tot - iv_size item) (deleted @ [iv_file item]) s1)"

definition evictBySize :: "'a fs_scheme rotator \<Rightarrow> 'a fs_scheme \<Rightarrow> bool \<times> string list list \<times> 'a fs_scheme" where
  "evictBySize r s =
     (if ro_maxBytes r \<le> 0 then (True, [], s)
      else case sizeInventory r s of
        None \<Rightarrow> (False, [], s)
      | Some (inventory, tot) \<Rightarrow>
          if tot \<le> ro_maxBytes r then (True, [], s)
          else case evict_items r (hourlyFileName (clock s)) inventory tot [] s of
            (False, deleted, s1) \<Rightarrow> (False, [], s1)
          | (True, deleted, s1) \<Rightarrow> (True, notifyOrphans r deleted, s1))"

definition RunOnce ::
  "streams \<Rightarrow> 'a fs_scheme rotator \<Rightarrow> 'a fs_scheme \<Rightarrow> rotate_error option \<times> string list list \<times> 'a fs_scheme" where
  "RunOnce st r s =
     (case promoteCurrentToRecent r s of
        (ok1, s1) \<Rightarrow>
          (case compressToArchive st r s1 of
             (ok2, s2) \<Rightarrow>
               (case purgeExpired r s2 of
                  (ok3, note3, s3) \<Rightarrow>
                    (case evictBySize r s3 of
                       (ok4, note4, s4) \<Rightarrow>
                         (if \<not> ok1 then Some PromoteError else if \<not> ok2 then Some CompressError
                          else if \<not> ok3 then Some PurgeError else if \<not> ok4 then Some EvictError else None,
                          note3 @ note4, s4)))))"

end
