(* ===== verification/Retention.thy ===== *)
theory Retention
  imports Rotator
begin

text \<open>
  What happens to a body file between its first line and its deletion.

  The locale \<open>body_dir\<close> adds to the contract of a backend that it leaves the local directory of
  active files alone and the other way round. Inside it: the copies of a body file (active, promoted,
  archived under one of three names) always agree; writing extends the active file only; a rotation
  with any failures keeps the content of every file that neither expires nor is evicted. The
  local directory is an interpretation.
\<close>

section \<open>The directory of active files\<close>

definition cur_file :: "path \<Rightarrow> 'a fs_scheme \<Rightarrow> string \<Rightarrow> (string \<times> time) option" where
  "cur_file dir s n = (case fs_node s (dir @ [n]) of Some (File c t) \<Rightarrow> Some (c, t) | _ \<Rightarrow> None)"

lemma cur_file_Some: "cur_file dir s n = Some (c, t) \<longleftrightarrow> fs_node s (dir @ [n]) = Some (File c t)"
  by (auto simp: cur_file_def split: option.splits node.splits)

lemma cur_file_set [simp]:
  "cur_file dir (set_node (dir @ [n]) (File c t) s) = (cur_file dir s)(n \<mapsto> (c, t))"
  by (auto simp: cur_file_def fun_eq_iff)

lemma cur_file_del [simp]: "cur_file dir (del_node (dir @ [n]) s) = (cur_file dir s)(n := None)"
  by (auto simp: cur_file_def fun_eq_iff)

lemma cur_file_env [simp]:
  "cur_file dir (s\<lparr>clock := c, faults := f, short_write := m, temp := x\<rparr>) = cur_file dir s"
  by (simp add: cur_file_def fs_node_def fun_eq_iff)

lemma read_dir_done:
  assumes "fs_tree s" "fs_node s dir = Some Dir" "os_ReadDir s dir = Inr es"
  shows "(n, nd) \<in> set es \<longleftrightarrow> fs_node s (dir @ [n]) = Some nd" and "distinct (map fst es)"
proof -
  let ?f = "filter (\<lambda>e. fst e \<noteq> [] \<and> butlast (fst e) = dir) (nodes s)"
  have es: "es = sort_key fst (map (\<lambda>e. (last (fst e), snd e)) ?f)"
    using assms by (auto simp: os_ReadDir_def follow_present split: if_splits)
  have mem: "e \<in> set ?f \<longleftrightarrow> (\<exists>n nd. e = (dir @ [n], nd) \<and> fs_node s (dir @ [n]) = Some nd)" for e
    using fs_tree_mem [OF assms(1), of "fst e" "snd e"]
    by (cases e) (auto, metis append_butlast_last_id)
  show "(n, nd) \<in> set es \<longleftrightarrow> fs_node s (dir @ [n]) = Some nd"
  proof
    assume "(n, nd) \<in> set es"
    then obtain e where "e \<in> set ?f" "(n, nd) = (last (fst e), snd e)" by (auto simp: es)
    then show "fs_node s (dir @ [n]) = Some nd" using mem [of e] by auto
  next
    assume "fs_node s (dir @ [n]) = Some nd"
    then have "(dir @ [n], nd) \<in> set ?f" using mem by blast
    then have "(last (dir @ [n]), nd) \<in> (\<lambda>e. (last (fst e), snd e)) ` set ?f" by force
    then show "(n, nd) \<in> set es" by (simp add: es)
  qed
  have "distinct (map fst ?f)" using assms(1) by (simp add: fs_tree_def distinct_map_filter)
  then have "distinct (map (\<lambda>e. last (fst e)) ?f)"
    using mem by (auto simp: distinct_map inj_on_def)
  then have "distinct (map fst (map (\<lambda>e. (last (fst e), snd e)) ?f))" by (simp add: comp_def)
  then show "distinct (map fst es)"
    unfolding es by (simp only: distinct_map set_sort distinct_sort)
qed

lemma read_dir_quiet:
  assumes "fs_tree s" "fs_node s dir = Some Dir" "quiet s"
  shows "\<exists>es. os_ReadDir s dir = Inr es"
  using assms by (simp add: os_ReadDir_def follow_present quietD)

lemma read_file_cur:
  assumes "fs_tree s" "fs_node s dir = Some Dir"
  shows "os_ReadFile s (dir @ [n]) = Inr c \<Longrightarrow> \<exists>t. cur_file dir s n = Some (c, t)"
    and "quiet s \<Longrightarrow> cur_file dir s n = Some (c, t) \<Longrightarrow> os_ReadFile s (dir @ [n]) = Inr c"
  using assms
  by (auto simp: os_ReadFile_def follow_entry cur_file_def quietD split: if_splits option.splits node.splits)

lemma remove_cur:
  assumes "fs_tree s" "fs_node s dir = Some Dir" "cur_file dir s n = Some v" "os_Remove (dir @ [n]) s = (e, s')"
  shows "e = Some OsError \<and> s' = s \<and> (\<exists>op p. faults s op p) \<or> e = None \<and> s' = del_node (dir @ [n]) s"
  using assms remove_file [OF assms(1,2), of n "fst v" "snd v"]
  by (cases v) (auto simp: cur_file_Some split: if_splits)

section \<open>Copies of a body file\<close>

definition recent_key :: "string \<Rightarrow> string" where
  "recent_key f = ''recent/'' @ f"

definition archive_key :: "string \<Rightarrow> Codec \<Rightarrow> string" where
  "archive_key f cdc = ''archive/'' @ f @ Extension cdc"

text \<open>The content of every copy of a file; \<open>None\<close> stands for an archived copy that does not decode.\<close>

definition copies ::
  "streams \<Rightarrow> (string \<Rightarrow> (string \<times> time) option) \<Rightarrow> (string \<Rightarrow> (string \<times> time) option) \<Rightarrow> string \<Rightarrow> string option set" where
  "copies st cur obj f =
     {Some c |c t. cur f = Some (c, t)} \<union> {Some c |c t. obj (recent_key f) = Some (c, t)} \<union>
     {decode st cdc z |cdc z t. obj (archive_key f cdc) = Some (z, t)}"

definition agree :: "streams \<Rightarrow> (string \<Rightarrow> (string \<times> time) option) \<Rightarrow> (string \<Rightarrow> (string \<times> time) option) \<Rightarrow> bool" where
  "agree st cur obj \<longleftrightarrow> (\<forall>f. body_name f \<longrightarrow> copies st cur obj f = {} \<or> (\<exists>c. copies st cur obj f = {Some c}))"

definition streams_ok :: "streams \<Rightarrow> bool" where
  "streams_ok st \<longleftrightarrow> (\<forall>x. zstd_dec st (zstd_enc st x) = Some x) \<and> (\<forall>x. gzip_dec st (gzip_enc st x) = Some x)"

lemma decode_encode: "streams_ok st \<Longrightarrow> decode st cdc (encode st cdc x) = Some x"
  by (cases cdc) (simp_all add: streams_ok_def)

lemma Extension_cases: "Extension cdc = ''.zst'' \<or> Extension cdc = ''.gz'' \<or> Extension cdc = ''''"
  by (cases cdc) auto

lemma archive_key_inj:
  assumes "archive_key f cdc = archive_key f' cdc'" "body_name f" "body_name f'"
  shows "f = f' \<and> cdc = cdc'"
proof -
  obtain p p' where p: "f = p @ ''.jsonl''" "f' = p' @ ''.jsonl''"
    using assms(2,3) by (auto simp: body_name_def has_suffix_iff)
  have "rev (p @ ''.jsonl'' @ Extension cdc) = rev (p' @ ''.jsonl'' @ Extension cdc')"
    using assms(1) by (simp add: archive_key_def p)
  then show ?thesis unfolding p by (cases cdc; cases cdc') auto
qed

lemma key_tiers [simp]:
  "recent_key f \<noteq> archive_key f' cdc" "archive_key f' cdc \<noteq> recent_key f"
  "recent_key f = recent_key f' \<longleftrightarrow> f = f'"
  by (simp_all add: archive_key_def recent_key_def)

lemma None_pair: "x = None \<longleftrightarrow> (\<forall>c t. x \<noteq> Some (c, t))"
  by (cases x) auto

lemma copies_mem:
  "x \<in> copies st cur obj f \<longleftrightarrow> (\<exists>c t. cur f = Some (c, t) \<and> x = Some c) \<or>
     (\<exists>c t. obj (recent_key f) = Some (c, t) \<and> x = Some c) \<or>
     (\<exists>cdc z t. obj (archive_key f cdc) = Some (z, t) \<and> x = decode st cdc z)"
  unfolding copies_def by (simp only: Un_iff mem_Collect_eq conj_commute disj_assoc)

lemma copiesI:
  "cur f = Some (c, t) \<Longrightarrow> Some c \<in> copies st cur obj f"
  "obj (recent_key f) = Some (c, t) \<Longrightarrow> Some c \<in> copies st cur obj f"
  "obj (archive_key f cdc) = Some (c, t) \<Longrightarrow> decode st cdc c \<in> copies st cur obj f"
  unfolding copies_mem by blast+

lemma copies_empty:
  "copies st cur obj f = {} \<longleftrightarrow> cur f = None \<and> obj (recent_key f) = None \<and> (\<forall>cdc. obj (archive_key f cdc) = None)"
proof
  assume e: "copies st cur obj f = {}"
  have "\<not> (cur f = Some (c, t) \<or> obj (recent_key f) = Some (c, t) \<or> obj (archive_key f cdc) = Some (c, t))" for cdc c t
    using copiesI(1) [of cur f c t st obj] copiesI(2) [of obj f c t st cur] copiesI(3) [of obj f cdc c t st cur] e
    by blast
  then show "cur f = None \<and> obj (recent_key f) = None \<and> (\<forall>cdc. obj (archive_key f cdc) = None)"
    by (simp add: None_pair)
qed (simp add: copies_def)

lemma copies_single:
  "copies st cur obj f = {Some c} \<longleftrightarrow> copies st cur obj f \<noteq> {} \<and> (\<forall>c' t. cur f = Some (c', t) \<longrightarrow> c' = c) \<and>
     (\<forall>c' t. obj (recent_key f) = Some (c', t) \<longrightarrow> c' = c) \<and>
     (\<forall>cdc z t. obj (archive_key f cdc) = Some (z, t) \<longrightarrow> decode st cdc z = Some c)"
proof -
  have "X = {a} \<longleftrightarrow> X \<noteq> {} \<and> (\<forall>x \<in> X. x = a)" for X :: "string option set" and a by auto
  moreover have "(\<forall>x \<in> copies st cur obj f. x = Some c) \<longleftrightarrow> (\<forall>c' t. cur f = Some (c', t) \<longrightarrow> c' = c) \<and>
     (\<forall>c' t. obj (recent_key f) = Some (c', t) \<longrightarrow> c' = c) \<and>
     (\<forall>cdc z t. obj (archive_key f cdc) = Some (z, t) \<longrightarrow> decode st cdc z = Some c)"
    unfolding Ball_def copies_mem by (rule iffI) (simp, auto)
  ultimately show ?thesis by simp
qed

lemmas copies_rules = copies_single copies_empty

lemma copies_cong:
  assumes "cur' f = cur f" "obj' (recent_key f) = obj (recent_key f)"
    "\<And>cdc. obj' (archive_key f cdc) = obj (archive_key f cdc)"
  shows "copies st cur' obj' f = copies st cur obj f"
  using assms by (simp add: copies_def)

text \<open>Moving a file on never changes what its copies say.\<close>

lemma copies_promote:
  assumes "copies st cur obj f = {Some c}" "cur f = Some (c, t)"
  shows "copies st cur (obj(recent_key f \<mapsto> (c, t'))) f = {Some c}"
  using assms by (auto simp: copies_rules)

lemma copies_drop_cur:
  assumes "copies st cur obj f = {Some c}" "obj (recent_key f) = Some (c, t)"
  shows "copies st (cur(f := None)) obj f = {Some c}"
  using assms by (auto simp: copies_rules)

lemma copies_archive:
  assumes "copies st cur obj f = {Some c}" "streams_ok st" "body_name f"
  shows "copies st cur (obj(archive_key f cdc \<mapsto> (encode st cdc c, t'))) f = {Some c}"
proof -
  have "decode st cdc' z = Some c"
    if "(obj(archive_key f cdc \<mapsto> (encode st cdc c, t'))) (archive_key f cdc') = Some (z, u)" for cdc' z u
  proof (cases "cdc' = cdc")
    case True
    then show ?thesis using that decode_encode [OF assms(2)] by auto
  next
    case False
    then have "archive_key f cdc' \<noteq> archive_key f cdc" using archive_key_inj [of f cdc' f cdc] assms(3) by blast
    then show ?thesis using that assms(1) by (auto simp: copies_rules)
  qed
  moreover have "copies st cur (obj(archive_key f cdc \<mapsto> (encode st cdc c, t'))) f \<noteq> {}"
    by (simp add: copies_empty) (metis option.distinct(1))
  ultimately show ?thesis using assms(1) by (simp add: copies_rules)
qed

lemma copies_drop_recent:
  assumes "copies st cur obj f = {Some c}" "obj (archive_key f cdc) = Some (z, t)"
  shows "copies st cur (obj(recent_key f := None)) f = {Some c}"
  using assms by (auto simp: copies_rules)

lemma copies_drop:
  assumes "copies st cur obj f = {Some c}" "\<And>n. cur' n = cur n \<or> cur' n = None" "\<And>k. obj' k = obj k \<or> obj' k = None"
  shows "copies st cur' obj' f = {} \<or> copies st cur' obj' f = {Some c}"
proof (rule disjCI)
  assume ne: "copies st cur' obj' f \<noteq> {Some c}"
  have "cur' f = Some v \<Longrightarrow> cur f = Some v" "obj' k = Some v \<Longrightarrow> obj k = Some v" for k v
    using assms(2) [of f] assms(3) [of k] by auto
  then show "copies st cur' obj' f = {}" using ne assms(1) unfolding copies_single by blast
qed

section \<open>The invariant of the store\<close>

definition closed_name :: "time \<Rightarrow> string \<Rightarrow> bool" where
  "closed_name now f \<longleftrightarrow> (\<exists>t. 0 \<le> t \<and> f = hourlyFileName t \<and> t div hour < now div hour)"

text \<open>The active directory has files of the past and the present hour, the backend of past hours
  only.\<close>

definition tidy :: "time \<Rightarrow> (string \<Rightarrow> (string \<times> time) option) \<Rightarrow> (string \<Rightarrow> (string \<times> time) option) \<Rightarrow> bool" where
  "tidy now cur obj \<longleftrightarrow> 0 \<le> now \<and>
     (\<forall>n. cur n \<noteq> None \<longrightarrow> (\<exists>t. 0 \<le> t \<and> t \<le> now \<and> n = hourlyFileName t)) \<and>
     (\<forall>k. obj k \<noteq> None \<and> \<not> temp_key k \<longrightarrow>
        (\<exists>f. closed_name now f \<and> (k = recent_key f \<or> (\<exists>cdc. k = archive_key f cdc))))"

lemma closed_body_name: "closed_name now f \<Longrightarrow> body_name f"
  by (auto simp: closed_name_def hourly_body_name)

lemma closed_name_later: "closed_name now f \<Longrightarrow> now \<le> now' \<Longrightarrow> closed_name now' f"
proof -
  assume "now \<le> now'"
  then have "now div hour \<le> now' div hour" by (rule zdiv_mono1) (simp add: duration_defs)
  then show "closed_name now f \<Longrightarrow> closed_name now' f" unfolding closed_name_def by fastforce
qed

lemma closed_name_not_active: "closed_name now f \<Longrightarrow> 0 \<le> now \<Longrightarrow> f \<noteq> hourlyFileName now"
proof
  assume "closed_name now f" "0 \<le> now" "f = hourlyFileName now"
  then obtain t where "0 \<le> t" "hourlyFileName t = hourlyFileName now" "t div hour < now div hour"
    by (auto simp: closed_name_def)
  with hourly_hour [of t now] \<open>0 \<le> now\<close> show False by simp
qed

lemma tidy_closed:
  assumes "tidy now cur obj" "cur n \<noteq> None" "n \<noteq> hourlyFileName now"
  shows "closed_name now n"
proof -
  obtain t where t: "0 \<le> t" "t \<le> now" "n = hourlyFileName t" using assms by (auto simp: tidy_def)
  have "t div hour \<le> now div hour" by (rule zdiv_mono1) (use t in \<open>simp_all add: duration_defs\<close>)
  moreover have "t div hour \<noteq> now div hour" using hourly_same [of t now] t(3) assms(3) by auto
  ultimately show ?thesis using t by (auto simp: closed_name_def)
qed

lemma tidy_body_name: "tidy now cur obj \<Longrightarrow> cur n \<noteq> None \<Longrightarrow> body_name n"
  unfolding tidy_def using hourly_body_name by metis

lemma tidy_later: "tidy now cur obj \<Longrightarrow> now \<le> now' \<Longrightarrow> tidy now' cur obj"
  unfolding tidy_def by (meson closed_name_later order_trans)

lemma contains_iff: "contains s p \<longleftrightarrow> (\<exists>a b. s = a @ p @ b)"
proof (induction s)
  case (Cons x xs)
  show ?case
  proof (cases "has_prefix (x # xs) p")
    case True
    then show ?thesis by (auto simp: contains_def has_prefix_iff intro: exI [of _ "[]"])
  next
    case False
    then have "(\<exists>a b. x # xs = a @ p @ b) \<longleftrightarrow> (\<exists>a b. xs = a @ p @ b)"
      by (auto simp: has_prefix_iff Cons_eq_append_conv)
    then show ?thesis using False Cons.IH by (auto simp: contains_def)
  qed
qed (auto simp: contains_def)

lemma name_ok_ext:
  assumes "name_ok f" "has_suffix f ''.jsonl''"
  shows "name_ok (f @ Extension cdc)"
proof -
  obtain p where p: "f = p @ ''.jsonl''" using assms(2) by (auto simp: has_suffix_iff)
  have "contains f ''..'' \<or> contains (Extension cdc) ''..''" if "contains (f @ Extension cdc) ''..''"
  proof -
    have "contains ((p @ ''.json'') @ CHR ''l'' # Extension cdc) ''..''" using that by (simp add: p)
    from contains_split [OF this] show ?thesis
    proof
      assume "contains (p @ ''.json'') ''..''"
      then obtain a c where "p @ ''.json'' = a @ ''..'' @ c" by (auto simp: contains_iff)
      then have "(p @ ''.json'') @ ''l'' = a @ ''..'' @ (c @ ''l'')" by (simp only: append_assoc)
      then have "f = a @ ''..'' @ (c @ ''l'')" by (simp add: p)
      then show ?thesis unfolding contains_iff by blast
    qed simp_all
  qed
  moreover have "\<not> contains (Extension cdc) ''..''" by (cases cdc) (simp_all add: contains_def)
  moreover have "CHR ''/'' \<notin> set (Extension cdc)" by (cases cdc) simp_all
  ultimately show ?thesis using assms(1) p by (auto simp: name_ok_def)
qed

lemma last_two: "last [a, b] = b"
  by simp

lemma body_keys:
  assumes "name_ok f" "has_suffix f ''.jsonl''"
  shows "body_key (recent_key f)" "body_key (archive_key f cdc)"
    "temp_key (recent_key f) \<longleftrightarrow> temp_name f" "temp_key (archive_key f cdc) \<longleftrightarrow> temp_name f"
proof -
  have n: "CHR ''/'' \<notin> set f" "CHR ''/'' \<notin> set (f @ Extension cdc)"
    using assms name_ok_ext [OF assms, of cdc] by (simp_all add: name_ok_def)
  have r: "split_on (CHR ''/'') (recent_key f) = [''recent'', f]"
    using split_key [of "''recent''" f] n(1) by (simp add: recent_key_def tier_ok_def)
  have a: "split_on (CHR ''/'') (archive_key f cdc) = [''archive'', f @ Extension cdc]"
    using split_key [of "''archive''" "f @ Extension cdc"] n(2) by (simp add: archive_key_def tier_ok_def)
  show "body_key (recent_key f)" "body_key (archive_key f cdc)"
    using assms name_ok_ext [OF assms] by (simp_all add: body_key_def r a tier_ok_def)
  obtain p where p: "f = p @ ''.jsonl''" using assms(2) by (auto simp: has_suffix_iff)
  show "temp_key (recent_key f) \<longleftrightarrow> temp_name f" by (simp add: temp_key_def r)
  show "temp_key (archive_key f cdc) \<longleftrightarrow> temp_name f"
  proof -
    have "length ''.blob-'' \<le> length f" by (simp add: p)
    then have "take (length ''.blob-'') (f @ Extension cdc) = take (length ''.blob-'') f"
      by (simp only: take_append) simp
    then show ?thesis unfolding temp_key_def a temp_name_def has_prefix_take 
      by (simp only: last_two)
  qed
qed

lemma body_name_keys:
  assumes "body_name f"
  shows "body_key (recent_key f)" "body_key (archive_key f cdc)"
    "\<not> temp_key (recent_key f)" "\<not> temp_key (archive_key f cdc)"
  using assms body_keys [of f] by (auto simp: body_name_def)

section \<open>Rotation keeps what it moves\<close>

locale body_dir = blob_store b ok objs
  for b :: "'a fs_scheme backend" and ok :: "'a fs_scheme \<Rightarrow> bool"
    and objs :: "'a fs_scheme \<Rightarrow> string \<Rightarrow> (string \<times> time) option" +
  fixes dir :: path and st :: streams
  assumes dir_tree: "ok s \<Longrightarrow> fs_tree s \<and> fs_node s dir = Some Dir"
    and dir_files: "ok s \<Longrightarrow> fs_node s (dir @ [n]) = Some nd \<Longrightarrow> nd \<noteq> Dir"
    and put_cur: "ok s \<Longrightarrow> body_key k \<Longrightarrow> be_Put b k r s = (e, s') \<Longrightarrow> cur_file dir s' = cur_file dir s"
    and delete_cur: "ok s \<Longrightarrow> list_all body_key ks \<Longrightarrow> be_Delete b ks s = (e, s') \<Longrightarrow>
          cur_file dir s' = cur_file dir s"
    and cur_set: "ok s \<Longrightarrow> name_ok n \<Longrightarrow> ok (set_node (dir @ [n]) (File c t) s) \<and>
          objs (set_node (dir @ [n]) (File c t) s) = objs s"
    and cur_del: "ok s \<Longrightarrow> cur_file dir s n \<noteq> None \<Longrightarrow> ok (del_node (dir @ [n]) s) \<and>
          objs (del_node (dir @ [n]) s) = objs s"
    and env_change: "ok s \<Longrightarrow> list_all is_digit x \<Longrightarrow>
          ok (s\<lparr>clock := now, faults := flt, short_write := m, temp := x\<rparr>) \<and>
          objs (s\<lparr>clock := now, faults := flt, short_write := m, temp := x\<rparr>) = objs s"
begin

definition stored :: "'a fs_scheme \<Rightarrow> bool" where
  "stored s \<longleftrightarrow> ok s \<and> tidy (clock s) (cur_file dir s) (objs s) \<and> agree st (cur_file dir s) (objs s)"

definition has :: "'a fs_scheme \<Rightarrow> string \<Rightarrow> string \<Rightarrow> bool" where
  "has s f c \<longleftrightarrow> copies st (cur_file dir s) (objs s) f = {Some c}"

definition gone :: "'a fs_scheme \<Rightarrow> string \<Rightarrow> bool" where
  "gone s f \<longleftrightarrow> copies st (cur_file dir s) (objs s) f = {}"

text \<open>A step of promotion or compression: nothing is lost, the active file is untouched, and a new
  archive object is as old as the step.\<close>

definition moved :: "'a fs_scheme \<Rightarrow> 'a fs_scheme \<Rightarrow> bool" where
  "moved s s' \<longleftrightarrow> stored s' \<and> same_env s s' \<and> (\<forall>f c. body_name f \<longrightarrow> has s f c \<longrightarrow> has s' f c) \<and>
     cur_file dir s' (hourlyFileName (clock s)) = cur_file dir s (hourlyFileName (clock s)) \<and>
     (\<forall>f cdc v. body_name f \<longrightarrow> objs s' (archive_key f cdc) = Some v \<longrightarrow>
        objs s (archive_key f cdc) = Some v \<or> snd v = clock s)"

lemma moved_refl: "stored s \<Longrightarrow> moved s s"
  by (simp add: moved_def)

lemma moved_trans: "moved s s' \<Longrightarrow> moved s' s'' \<Longrightarrow> moved s s''"
  unfolding moved_def same_env_def by metis

lemma storedD:
  assumes "stored s"
  shows "ok s" "tidy (clock s) (cur_file dir s) (objs s)" "agree st (cur_file dir s) (objs s)"
  using assms by (simp_all add: stored_def)

lemma stored_has:
  assumes "stored s" "body_name f" "\<not> gone s f"
  obtains c where "has s f c"
  using assms by (auto simp: stored_def agree_def has_def gone_def)

text \<open>A change of objects that touches no name of a body file.\<close>

lemma moved_objs:
  assumes s: "stored s" and s': "ok s'" "same_env s s'" "cur_file dir s' = cur_file dir s"
    and o: "\<And>k. \<not> temp_key k \<Longrightarrow> objs s' k = objs s k"
  shows "moved s s'"
proof -
  have cp: "copies st (cur_file dir s') (objs s') f = copies st (cur_file dir s) (objs s) f" if "body_name f" for f
    using s'(3) o body_name_keys [OF that] by (intro copies_cong) simp_all
  have "tidy (clock s') (cur_file dir s') (objs s')"
    using storedD(2) [OF s] s'(2,3) o unfolding tidy_def same_env_def by auto
  moreover have "agree st (cur_file dir s') (objs s')"
    using storedD(3) [OF s] cp by (simp add: agree_def)
  ultimately show ?thesis
    using s' cp o body_name_keys by (auto simp: moved_def stored_def has_def)
qed

text \<open>Adding a copy of a closed file under one of its keys.\<close>

lemma moved_put:
  assumes s: "stored s" and s': "ok s'" "same_env s s'" "cur_file dir s' = cur_file dir s"
    and o: "objs s' = (objs s)(k \<mapsto> (z, clock s))" and n: "closed_name (clock s) n" "has s n c"
    and k: "k = recent_key n \<and> z = c \<and> (\<exists>t. cur_file dir s n = Some (c, t)) \<or> (\<exists>cdc. k = archive_key n cdc \<and> z = encode st cdc c \<and> streams_ok st)"
  shows "moved s s'"
proof -
  note bn = closed_body_name [OF n(1)]
  have cn: "copies st (cur_file dir s') (objs s') n = {Some c}"
    using k n(2) copies_promote copies_archive [OF _ _ bn] unfolding s'(3) o has_def by fastforce
  have other: "copies st (cur_file dir s') (objs s') f = copies st (cur_file dir s) (objs s) f"
    if "body_name f" "f \<noteq> n" for f
    using that k archive_key_inj [OF _ that(1) bn] unfolding o s'(3) by (intro copies_cong) auto
  have "agree st (cur_file dir s') (objs s')"
    unfolding agree_def using storedD(3) [OF s] cn other by (metis agree_def)
  moreover have "tidy (clock s') (cur_file dir s') (objs s')"
    using storedD(2) [OF s] s'(2,3) k n(1) unfolding tidy_def same_env_def o by auto
  moreover have "has s' f c'" if "body_name f" "has s f c'" for f c'
    using that cn other n(2) by (cases "f = n") (auto simp: has_def)
  ultimately show ?thesis
    using s' by (auto simp: moved_def stored_def o)
qed

text \<open>Removing a copy of a file that has another one.\<close>

lemma moved_drop:
  assumes s: "stored s" and s': "ok s'" "same_env s s'"
    and n: "closed_name (clock s) n" "has s n c"
    and d: "cur_file dir s' = (cur_file dir s)(n := None) \<and> objs s' = objs s \<and> objs s (recent_key n) \<noteq> None \<or>
      cur_file dir s' = cur_file dir s \<and> objs s' = (objs s)(recent_key n := None) \<and> objs s (archive_key n cdc) \<noteq> None"
  shows "moved s s'"
proof -
  note bn = closed_body_name [OF n(1)]
  have cn: "copies st (cur_file dir s') (objs s') n = {Some c}"
    using d n(2) unfolding has_def by (auto simp: copies_rules)
  have other: "copies st (cur_file dir s') (objs s') f = copies st (cur_file dir s) (objs s) f"
    if "f \<noteq> n" for f
    using that d by (intro copies_cong) auto
  have "agree st (cur_file dir s') (objs s')"
    unfolding agree_def using storedD(3) [OF s] cn other by (metis agree_def)
  moreover have "tidy (clock s') (cur_file dir s') (objs s')"
    using storedD(2) [OF s] s'(2) d unfolding tidy_def same_env_def by (auto split: if_splits)
  moreover have "has s' f c'" if "body_name f" "has s f c'" for f c'
    using that cn other n(2) by (cases "f = n") (auto simp: has_def)
  moreover have "n \<noteq> hourlyFileName (clock s)"
    using closed_name_not_active [OF n(1)] storedD(2) [OF s] by (simp add: tidy_def)
  ultimately show ?thesis
    using s' d by (auto simp: moved_def stored_def)
qed

end

context body_dir
begin

lemma promote_one:
  assumes s: "stored s" and n: "cur_file dir s n = Some (c, t)" "n \<noteq> hourlyFileName (clock s)"
    and put: "be_Put b (recent_key n) (Inr c) s = (e, s1)"
  shows "moved s s1" and "e = None \<Longrightarrow> os_Remove (dir @ [n]) s1 = (e', s2) \<Longrightarrow> moved s s2"
proof -
  have cl: "closed_name (clock s) n" using tidy_closed [OF storedD(2) [OF s], of n] n by simp
  note bn = closed_body_name [OF cl] and ok = storedD(1) [OF s]
  have ng: "\<not> gone s n" using n(1) by (simp add: gone_def copies_empty)
  obtain c' where "has s n c'" using stored_has [OF s bn ng] .
  then have h: "has s n c" using n(1) by (auto simp: has_def copies_rules)
  note env = put_env [OF ok body_name_keys(1) [OF bn] put] and cur = put_cur [OF ok body_name_keys(1) [OF bn] put]
  show m: "moved s s1"
  proof (cases e)
    case None
    then have "objs s1 = (objs s)(recent_key n \<mapsto> (c, clock s))"
      using put_done [OF ok body_name_keys(1) [OF bn]] put by blast
    from moved_put [OF s _ _ cur this cl h] env n(1) show ?thesis by blast
  next
    case (Some er)
    then have "objs s1 k = objs s k" if "\<not> temp_key k" for k
      using put_failed [OF ok body_name_keys(1) [OF bn]] put that by blast
    from moved_objs [OF s _ _ cur this] env show ?thesis by blast
  qed
  assume e: "e = None" and rm: "os_Remove (dir @ [n]) s1 = (e', s2)"
  have s1: "stored s1" "clock s1 = clock s" using m by (simp_all add: moved_def same_env_def)
  have cur1: "cur_file dir s1 n = Some (c, t)" using cur n(1) by simp
  have rec1: "objs s1 (recent_key n) \<noteq> None"
    using put_done [OF ok body_name_keys(1) [OF bn]] put e by fastforce
  note rc = remove_cur [OF dir_tree [OF storedD(1) [OF s1(1)], THEN conjunct1]
      dir_tree [OF storedD(1) [OF s1(1)], THEN conjunct2] cur1 rm]
  have "moved s1 s2"
  proof (cases "s2 = s1")
    case False
    then have s2: "s2 = del_node (dir @ [n]) s1" using rc by auto
    have "ok s2" "objs s2 = objs s1" using cur_del [OF storedD(1) [OF s1(1)], of n] cur1 s2 by auto
    moreover have "has s1 n c" using m h bn by (simp add: moved_def)
    ultimately show ?thesis
      using moved_drop [OF s1(1), of s2 n c] cl s1(2) rec1 s2 by simp
  qed (use s1 moved_refl in auto)
  then show "moved s s2" using m moved_trans by blast
qed

lemma promote_moved:
  assumes "stored s" "ro_backend r = b" "ro_dir r = dir" "active = hourlyFileName (clock s)"
    "promote_files r active es s = (x, s')"
  shows "moved s s'"
  using assms
proof (induction es arbitrary: s)
  case Nil
  then show ?case by (simp add: moved_refl)
next
  case (Cons e es)
  obtain n nd where e: "e = (n, nd)" by fastforce
  show ?case
  proof (cases "nd = Dir \<or> n = active \<or> \<not> has_suffix n ''.jsonl''")
    case True
    then show ?thesis using Cons e by auto
  next
    case False
    show ?thesis
    proof (cases "os_ReadFile s (dir @ [n])")
      case (Inl er)
      then show ?thesis using Cons.prems e False by (auto simp: moved_refl)
    next
      case (Inr c)
      obtain t where cur: "cur_file dir s n = Some (c, t)"
        using read_file_cur(1) [OF _ _ Inr] dir_tree [OF storedD(1) [OF Cons.prems(1)]] by blast
      obtain pe s1 where put: "be_Put b (recent_key n) (Inr c) s = (pe, s1)" by fastforce
      have na: "n \<noteq> hourlyFileName (clock s)" using False Cons.prems(4) by simp
      note one = promote_one [OF Cons.prems(1) cur na put]
      show ?thesis
      proof (cases pe)
        case (Some er)
        then show ?thesis using Cons.prems e False Inr put one(1) by (auto simp: recent_key_def)
      next
        case None
        obtain re s2 where rm: "os_Remove (dir @ [n]) s1 = (re, s2)" by fastforce
        have m: "moved s s2" using one(2) [OF None rm] .
        show ?thesis
        proof (cases re)
          case (Some er)
          then show ?thesis using Cons.prems e False Inr put None rm m by (auto simp: recent_key_def)
        next
          case None': None
          then have "promote_files r active es s2 = (x, s')"
            using Cons.prems e False Inr put None rm by (auto simp: recent_key_def)
          moreover have "stored s2" "active = hourlyFileName (clock s2)"
            using m Cons.prems(4) by (simp_all add: moved_def same_env_def)
          ultimately have "moved s2 s'" using Cons.IH Cons.prems(2,3) by blast
          then show ?thesis using m moved_trans by blast
        qed
      qed
    qed
  qed
qed

lemma compress_one:
  assumes streams: "streams_ok st" and s: "stored s" and k: "has_prefix k ''recent/''" "has_suffix k ''.jsonl''" "body_key k"
    and r: "ro_backend r = b" "ro_codec r = cdc"
    and cp: "compressObject st r k (''archive/'' @ trim_prefix k ''recent/'' @ Extension cdc) s = (x, s1)"
  shows "moved s s1" and "x \<Longrightarrow> be_Delete b [k] s1 = (e', s2) \<Longrightarrow> moved s s2"
proof -
  note ok = storedD(1) [OF s]
  obtain f where kf: "k = recent_key f" using k(1) by (auto simp: has_prefix_iff recent_key_def)
  obtain p where "recent_key f = p @ ''.jsonl''" using k(2) kf by (auto simp: has_suffix_iff)
  then have suf: "has_suffix f ''.jsonl''"
    by (auto simp: recent_key_def has_suffix_iff append_eq_append_conv2 Cons_eq_append_conv)
  have nm: "name_ok f"
    using k(3) by (auto simp: kf recent_key_def elim!: body_keyE) (auto simp: tier_ok_def)
  note keys = body_keys [OF nm suf]
  have dst: "''archive/'' @ trim_prefix k ''recent/'' @ Extension cdc = archive_key f cdc"
    by (simp add: kf recent_key_def archive_key_def trim_prefix_def)
  obtain g where get: "be_Get b k 0 0 s = g" by simp
  have goals: "moved s s1 \<and> (x \<longrightarrow> be_Delete b [k] s1 = (e', s2) \<longrightarrow> moved s s2)"
  proof (cases g)
    case (Inl er)
    then show ?thesis using cp get r s by (auto simp: compressObject_def moved_refl)
  next
    case (Inr c)
    obtain t where rec: "objs s (recent_key f) = Some (c, t)"
      using get_done [OF ok k(3), of 0 0 c] get Inr by (auto simp: kf byte_range_def)
    obtain pe s1' where put: "be_Put b (archive_key f cdc) (Inr (encode st cdc c)) s = (pe, s1')" by fastforce
    have s1: "s1' = s1" "x \<longleftrightarrow> pe = None"
      using cp [unfolded dst] get Inr r put by (auto simp: compressObject_def split: option.splits)
    note put = put [unfolded s1(1)]
    note env = put_env [OF ok keys(2) put] and cur = put_cur [OF ok keys(2) put]
    show ?thesis
    proof (cases pe)
      case (Some er)
      then have "objs s1 k' = objs s k'" if "\<not> temp_key k'" for k'
        using put_failed [OF ok keys(2)] put that by blast
      from moved_objs [OF s _ _ cur this] env Some s1(2) show ?thesis by blast
    next
      case None
      have o1: "objs s1 = (objs s)(archive_key f cdc \<mapsto> (encode st cdc c, clock s))"
        using put_done [OF ok keys(2)] put None by blast
      show ?thesis
      proof (cases "temp_name f")
        case True
        have "objs s1 k' = objs s k'" if "\<not> temp_key k'" for k'
          using that keys(4) True by (auto simp: o1)
        then have m1: "moved s s1" using moved_objs [OF s _ _ cur] env by blast
        have "moved s1 s2" if del: "be_Delete b [k] s1 = (e', s2)"
        proof -
          have ks: "list_all body_key [k]" and st1: "stored s1" "ok s1"
            using k(3) m1 env by (simp_all add: moved_def)
          have "objs s2 k' = objs s1 k'" if "\<not> temp_key k'" for k'
            using delete_objs [OF st1(2) ks del, of k'] keys(3) True that by (auto simp: kf)
          then show ?thesis
            using moved_objs [OF st1(1), of s2] delete_env [OF st1(2) ks del] delete_cur [OF st1(2) ks del] by blast
        qed
        then show ?thesis using m1 moved_trans by blast
      next
        case False
        then have bn: "body_name f" using nm suf by (simp add: body_name_def)
        obtain f' where f': "closed_name (clock s) f'" "recent_key f = recent_key f' \<or> (\<exists>cdc. recent_key f = archive_key f' cdc)"
          using storedD(2) [OF s] rec keys(3) False unfolding tidy_def by blast
        then have cl: "closed_name (clock s) f" by auto
        have "\<not> gone s f" using rec by (simp add: gone_def copies_empty)
        then obtain c' where "has s f c'" using stored_has [OF s bn] by blast
        then have h: "has s f c" using rec by (auto simp: has_def copies_rules)
        have m1: "moved s s1" using moved_put [OF s _ _ cur o1 cl h] env streams by blast
        have st1: "stored s1" "clock s1 = clock s" "has s1 f c" using m1 h bn by (simp_all add: moved_def same_env_def)
        have "moved s1 s2" if del: "be_Delete b [k] s1 = (e', s2)"
        proof -
          have ks: "list_all body_key [k]" using k(3) by simp
          note e2 = delete_env [OF storedD(1) [OF st1(1)] ks del] and c2 = delete_cur [OF storedD(1) [OF st1(1)] ks del]
          have o2: "objs s2 k' = objs s1 k' \<or> k' = k \<and> objs s2 k' = None" for k'
            using delete_objs [OF storedD(1) [OF st1(1)] ks del, of k'] by simp
          show ?thesis
          proof (cases "objs s2 k = objs s1 k")
            case True
            then have "objs s2 k' = objs s1 k'" for k' using o2 [of k'] by auto
            then show ?thesis using moved_objs [OF st1(1), of s2] e2 c2 by blast
          next
            case False
            then have "objs s2 = (objs s1)(recent_key f := None)" using o2 kf by (auto simp: fun_eq_iff)
            then show ?thesis
              using moved_drop [OF st1(1), of s2 f c cdc] e2 c2 cl st1(2,3) o1 by simp
          qed
        qed
        then show ?thesis using m1 moved_trans by blast
      qed
    qed
  qed
  then show "moved s s1" and "x \<Longrightarrow> be_Delete b [k] s1 = (e', s2) \<Longrightarrow> moved s s2" by blast+
qed

lemma compress_moved:
  assumes streams: "streams_ok st" and "stored s" "ro_backend r = b"
    "\<forall>ob \<in> set obs. has_prefix (ob_Key ob) ''recent/'' \<and> body_key (ob_Key ob)"
    "compress_objects st r cutoff obs s = (x, s')"
  shows "moved s s'"
  using assms(2-)
proof (induction obs arbitrary: s)
  case Nil
  then show ?case by (simp add: moved_refl)
next
  case (Cons ob obs)
  show ?case
  proof (cases "\<not> has_suffix (ob_Key ob) ''.jsonl'' \<or> cutoff < ob_ModTime ob")
    case True
    then show ?thesis using Cons by auto
  next
    case False
    obtain y s1 where cp: "compressObject st r (ob_Key ob)
        (''archive/'' @ trim_prefix (ob_Key ob) ''recent/'' @ Extension (ro_codec r)) s = (y, s1)" by fastforce
    have k: "has_prefix (ob_Key ob) ''recent/''" "has_suffix (ob_Key ob) ''.jsonl''" "body_key (ob_Key ob)"
      using Cons.prems(3) False by auto
    note one = compress_one [OF streams Cons.prems(1) k Cons.prems(2) refl cp]
    obtain de s2 where del: "be_Delete b [ob_Key ob] s1 = (de, s2)" by fastforce
    show ?thesis
    proof (cases "y \<and> de = None")
      case False': False
      then have "s' = s1 \<or> y \<and> s' = s2"
        using Cons.prems(2,4) False cp del by (cases y; cases de) auto
      then show ?thesis using one(1) one(2) [OF _ del] by blast
    next
      case True
      then have m: "moved s s2" and rest: "compress_objects st r cutoff obs s2 = (x, s')"
        using one(2) [OF _ del] Cons.prems(2,4) False cp del by auto
      then have "moved s2 s'" using Cons.IH [of s2] Cons.prems(2,3) by (simp add: moved_def)
      then show ?thesis using m moved_trans by blast
    qed
  qed
qed

end

section \<open>What expiry and eviction may delete\<close>

context body_dir
begin

definition dropped :: "'a fs_scheme \<Rightarrow> 'a fs_scheme \<Rightarrow> bool" where
  "dropped s s' \<longleftrightarrow> ok s' \<and> same_env s s' \<and>
     (\<forall>n. cur_file dir s' n = cur_file dir s n \<or> n \<noteq> hourlyFileName (clock s) \<and> cur_file dir s' n = None) \<and>
     (\<forall>k. objs s' k = objs s k \<or> objs s' k = None)"

lemma dropped_refl: "ok s \<Longrightarrow> dropped s s"
  by (simp add: dropped_def)

lemma dropped_trans: "dropped s s' \<Longrightarrow> dropped s' s'' \<Longrightarrow> dropped s s''"
  unfolding dropped_def same_env_def by metis

lemma dropped_stored:
  assumes s: "stored s" and d: "dropped s s'"
  shows "stored s'" and "body_name f \<Longrightarrow> has s f c \<Longrightarrow> has s' f c \<or> gone s' f"
proof -
  have sub: "cur_file dir s' n = cur_file dir s n \<or> cur_file dir s' n = None" "objs s' k = objs s k \<or> objs s' k = None"
    for n k using d unfolding dropped_def by metis+
  then have drop: "copies st (cur_file dir s') (objs s') f = {} \<or> copies st (cur_file dir s') (objs s') f = {Some c}"
    if "copies st (cur_file dir s) (objs s) f = {Some c}" for f c
    using copies_drop [OF that, of "cur_file dir s'" "objs s'"] by blast
  have empty: "copies st (cur_file dir s') (objs s') f = {}"
    if "copies st (cur_file dir s) (objs s) f = {}" for f
    using that sub unfolding copies_empty by metis
  have "agree st (cur_file dir s') (objs s')"
    using storedD(3) [OF s] drop empty unfolding agree_def by metis
  moreover have "tidy (clock s') (cur_file dir s') (objs s')"
    using storedD(2) [OF s] d sub unfolding tidy_def dropped_def same_env_def by metis
  ultimately show "stored s'" using d by (simp add: stored_def dropped_def)
  show "body_name f \<Longrightarrow> has s f c \<Longrightarrow> has s' f c \<or> gone s' f"
    using drop by (auto simp: has_def gone_def)
qed

lemma list_tier:
  assumes "ok s" "t = ''recent'' \<and> p = ''recent/'' \<or> t = ''archive'' \<and> p = ''archive/''" "be_List b p s = Inr os"
  shows "distinct (map ob_Key os)" and "ob \<in> set os \<Longrightarrow> has_prefix (ob_Key ob) p \<and> body_key (ob_Key ob)"
    and "ob \<in> set os \<Longrightarrow> \<exists>c. objs s (ob_Key ob) = Some (c, ob_ModTime ob) \<and> ob_Size ob = int (length c)"
    and "has_prefix k p \<Longrightarrow> objs s k = Some (c, u) \<Longrightarrow>
      \<lparr>ob_Key = k, ob_Size = int (length c), ob_ModTime = u\<rparr> \<in> set os"
proof -
  have p: "p = t @ ''/''" "tier_ok t" using assms(2) by (auto simp: tier_ok_def)
  note l = list_done [OF assms(1) p(2) assms(3) [unfolded p(1)]]
  show "distinct (map ob_Key os)" using l by blast
  show ob: "\<exists>c. objs s (ob_Key ob) = Some (c, ob_ModTime ob) \<and> ob_Size ob = int (length c)" if "ob \<in> set os" for ob
    using l that by blast
  show "has_prefix (ob_Key ob) p \<and> body_key (ob_Key ob)" if "ob \<in> set os" for ob
    using l that ob [OF that] objs_key [OF assms(1)] by (auto simp: p(1))
  show "\<lparr>ob_Key = k, ob_Size = int (length c), ob_ModTime = u\<rparr> \<in> set os" if "has_prefix k p" "objs s k = Some (c, u)" for k c u
    using l that by (auto simp: p(1))
qed

lemma purge_dropped:
  assumes "ok s" "ro_backend r = b" "purgeExpired r s = (x, notes, s')"
  shows "dropped s s'" and "cur_file dir s' = cur_file dir s"
    and "objs s' k = objs s k \<or> objs s' k = None \<and> has_prefix k ''archive/'' \<and> (\<exists>z t. objs s k = Some (z, t) \<and> t < clock s - ro_archiveMaxAge r)"
proof -
  have goals: "dropped s s' \<and> cur_file dir s' = cur_file dir s \<and>
    (\<forall>k. objs s' k = objs s k \<or> objs s' k = None \<and> has_prefix k ''archive/'' \<and> (\<exists>z t. objs s k = Some (z, t) \<and> t < clock s - ro_archiveMaxAge r))"
  proof (cases "be_List b ''archive/'' s")
    case (Inl e)
    then show ?thesis using assms by (auto simp: purgeExpired_def dropped_refl)
  next
    case (Inr os)
    note l = list_tier [OF assms(1) _ Inr, of "''archive''"]
    define ex where "ex = filter (\<lambda>ob. ob_ModTime ob < clock s - ro_archiveMaxAge r) os"
    show ?thesis
    proof (cases "ex = []")
      case True
      then show ?thesis using assms Inr by (auto simp: purgeExpired_def dropped_refl ex_def [symmetric])
    next
      case False
      obtain de s1 where del: "be_Delete b (map ob_Key ex) s = (de, s1)" by fastforce
      have s1: "s' = s1" using assms(2,3) Inr False del
        by (cases de) (auto simp: purgeExpired_def Let_def ex_def [symmetric])
      have ks: "list_all body_key (map ob_Key ex)" using l(2) by (auto simp: list_all_iff ex_def)
      have old: "has_prefix k ''archive/'' \<and> (\<exists>z t. objs s k = Some (z, t) \<and> t < clock s - ro_archiveMaxAge r)"
        if "k \<in> set (map ob_Key ex)" for k
        using that l(2,3) by (fastforce simp: ex_def)
      note d = delete_env [OF assms(1) ks del] delete_objs [OF assms(1) ks del] delete_cur [OF assms(1) ks del]
      have o: "objs s1 k = objs s k \<or> objs s1 k = None \<and>
          has_prefix k ''archive/'' \<and> (\<exists>z t. objs s k = Some (z, t) \<and> t < clock s - ro_archiveMaxAge r)" for k
        using d(2) [of k] old [of k] by blast
      then show ?thesis unfolding s1 dropped_def using d(1,3) by simp metis
    qed
  qed
  then show "dropped s s'" "cur_file dir s' = cur_file dir s"
    "objs s' k = objs s k \<or> objs s' k = None \<and> has_prefix k ''archive/'' \<and> (\<exists>z t. objs s k = Some (z, t) \<and> t < clock s - ro_archiveMaxAge r)"
    by blast+
qed

lemma remove_active_dir:
  assumes "ok s" "os_Remove (dir @ [n]) s = (e, s')"
  shows "s' = s \<and> (e = Some OsError \<longrightarrow> (\<exists>op p. faults s op p)) \<and> (e \<noteq> Some OsError \<longrightarrow> cur_file dir s n = None) \<or>
    e = None \<and> cur_file dir s n \<noteq> None \<and> s' = del_node (dir @ [n]) s"
proof (cases "cur_file dir s n")
  case (Some v)
  with remove_cur [OF _ _ Some assms(2)] dir_tree [OF assms(1)] show ?thesis by auto
next
  case None
  have "fs_node s (dir @ [n]) = None"
    using None dir_files [OF assms(1), of n] fs_tree_node(2) [of s dir n] dir_tree [OF assms(1)]
    by (auto simp: cur_file_def split: option.splits node.splits)
  then show ?thesis using assms(2) dir_tree [OF assms(1)] None
    by (auto simp: os_Remove_def entry_place_dir split: if_splits)
qed

definition item_ok :: "inventory_item \<Rightarrow> bool" where
  "item_ok it \<longleftrightarrow>
     (case iv_localPath it of Some p \<Rightarrow> p = dir @ [iv_file it] | None \<Rightarrow> body_key (iv_key it))"

lemma evict_dropped:
  assumes "ok s" "ro_backend r = b" "\<forall>it \<in> set items. item_ok it" "active = hourlyFileName (clock s)"
    "evict_items r active items tot deleted s = (x, deleted', s')"
  shows "dropped s s'"
  using assms
proof (induction items arbitrary: s tot deleted)
  case Nil
  then show ?case by (simp add: dropped_refl)
next
  case (Cons it items)
  show ?case
  proof (cases "tot \<le> ro_maxBytes r \<or> iv_file it = active")
    case True
    then show ?thesis using Cons by (auto simp: dropped_refl split: if_splits)
  next
    case False
    define step where "step = (case iv_localPath it of
        Some p \<Rightarrow> (case os_Remove p s of (Some OsError, s1) \<Rightarrow> (False, s1) | (_, s1) \<Rightarrow> (True, s1))
      | None \<Rightarrow> (case be_Delete (ro_backend r) [iv_key it] s of (Some e, s1) \<Rightarrow> (False, s1) | (None, s1) \<Rightarrow> (True, s1)))"
    obtain y s1 where y: "step = (y, s1)" by fastforce
    have d: "dropped s s1"
    proof (cases "iv_localPath it")
      case None
      obtain de s1' where del: "be_Delete b [iv_key it] s = (de, s1')" by fastforce
      have ks: "list_all body_key [iv_key it]" using Cons.prems(3) None by (simp add: item_ok_def)
      have "s1 = s1'" using y None del Cons.prems(2) by (auto simp: step_def split: option.splits)
      moreover have "objs s1' k = objs s k \<or> objs s1' k = None" for k
        using delete_objs [OF Cons.prems(1) ks del, of k] by metis
      ultimately show ?thesis
        using delete_env [OF Cons.prems(1) ks del] delete_cur [OF Cons.prems(1) ks del] by (simp add: dropped_def)
    next
      case (Some p)
      have p: "p = dir @ [iv_file it]" using Cons.prems(3) Some by (simp add: item_ok_def)
      obtain re s1' where rm: "os_Remove (dir @ [iv_file it]) s = (re, s1')" by fastforce
      have "s1 = s1'" using y Some p rm by (auto simp: step_def split: option.splits os_error.splits)
      moreover have "dropped s (del_node (dir @ [iv_file it]) s)" if "cur_file dir s (iv_file it) \<noteq> None"
        using cur_del [OF Cons.prems(1) that] False Cons.prems(4) by (simp add: dropped_def)
      ultimately show ?thesis
        using remove_active_dir [OF Cons.prems(1) rm] dropped_refl [OF Cons.prems(1)] by blast
    qed
    show ?thesis
    proof (cases y)
      case False': False
      then show ?thesis using Cons.prems False y d by (auto simp: step_def)
    next
      case True
      then have rest: "evict_items r active items (tot - iv_size it) (deleted @ [iv_file it]) s1 = (x, deleted', s')"
        using Cons.prems(2,5) False y by (simp add: step_def)
      have "dropped s1 s'"
        by (rule Cons.IH [OF _ Cons.prems(2) _ _ rest]) (use d Cons.prems in \<open>simp_all add: dropped_def same_env_def\<close>)
      then show ?thesis using d dropped_trans by blast
    qed
  qed
qed

end

section \<open>A whole rotation\<close>

context body_dir
begin

lemma inventory_items:
  assumes "ok s" "ro_backend r = b" "ro_dir r = dir" "sizeInventory r s = Some (items, tot)" "it \<in> set items"
  shows "item_ok it"
proof -
  obtain es recent archive where *: "be_List b ''recent/'' s = Inr recent" "be_List b ''archive/'' s = Inr archive"
    "items = sort_key iv_modTime (local_items dir es @ map object_item recent @ map object_item archive)"
    using assms(2-4) by (auto simp: sizeInventory_def Let_def split: sum.splits os_error.splits)
  have "it \<in> set (local_items dir es) \<or> it \<in> object_item ` set recent \<or> it \<in> object_item ` set archive"
    using assms(5) by (auto simp: *(3))
  then show ?thesis
    using list_tier(2) [OF assms(1) _ *(1), of "''recent''"] list_tier(2) [OF assms(1) _ *(2), of "''archive''"]
    by (auto simp: item_ok_def local_items_def object_item_def)
qed

lemma evictBySize_dropped:
  assumes "ok s" "ro_backend r = b" "ro_dir r = dir" "evictBySize r s = (x, notes, s')"
  shows "dropped s s'" and "ro_maxBytes r \<le> 0 \<Longrightarrow> s' = s"
proof -
  show "ro_maxBytes r \<le> 0 \<Longrightarrow> s' = s" using assms(4) by (simp add: evictBySize_def)
  show "dropped s s'"
  proof (cases "s' = s")
    case False
    then obtain items tot y deleted where inv: "sizeInventory r s = Some (items, tot)"
      and ev: "evict_items r (hourlyFileName (clock s)) items tot [] s = (y, deleted, s')"
      using assms(4) by (auto simp: evictBySize_def split: if_splits option.splits prod.splits bool.splits)
    have "\<forall>it \<in> set items. item_ok it" using inventory_items [OF assms(1-3) inv] by blast
    from evict_dropped [OF assms(1,2) this refl ev] show ?thesis .
  qed (use dropped_refl assms(1) in simp)
qed

lemma promote_phase:
  assumes "stored s" "ro_backend r = b" "ro_dir r = dir" "promoteCurrentToRecent r s = (x, s')"
  shows "moved s s'"
  using assms promote_moved [OF assms(1-3) refl] moved_refl
  by (auto simp: promoteCurrentToRecent_def split: sum.splits os_error.splits)

lemma compress_phase:
  assumes "streams_ok st" "stored s" "ro_backend r = b" "compressToArchive st r s = (x, s')"
  shows "moved s s'"
proof (cases "be_List b ''recent/'' s")
  case (Inl e)
  then show ?thesis using assms moved_refl by (simp add: compressToArchive_def)
next
  case (Inr os)
  have "\<forall>ob \<in> set os. has_prefix (ob_Key ob) ''recent/'' \<and> body_key (ob_Key ob)"
    using list_tier(2) [OF storedD(1) [OF assms(2)] _ Inr, of "''recent''"] by blast
  from compress_moved [OF assms(1-3) this] Inr assms(3,4) show ?thesis
    by (simp add: compressToArchive_def)
qed

lemma rotation_phases:
  assumes "RunOnce st r s = (err, notes, s')"
  obtains x1 s1 x2 s2 x3 n3 s3 x4 n4 where
    "promoteCurrentToRecent r s = (x1, s1)" "compressToArchive st r s1 = (x2, s2)"
    "purgeExpired r s2 = (x3, n3, s3)" "evictBySize r s3 = (x4, n4, s')" "notes = n3 @ n4"
    "err = None \<longleftrightarrow> x1 \<and> x2 \<and> x3 \<and> x4"
proof -
  obtain x1 s1 where 1: "promoteCurrentToRecent r s = (x1, s1)" by fastforce
  obtain x2 s2 where 2: "compressToArchive st r s1 = (x2, s2)" by fastforce
  obtain x3 n3 s3 where 3: "purgeExpired r s2 = (x3, n3, s3)" by (cases "purgeExpired r s2")
  obtain x4 n4 s4 where 4: "evictBySize r s3 = (x4, n4, s4)" by (cases "evictBySize r s3")
  have "s4 = s'" "notes = n3 @ n4" "err = None \<longleftrightarrow> x1 \<and> x2 \<and> x3 \<and> x4"
    using assms by (auto simp: RunOnce_def 1 2 3 4 split: if_splits)
  with that 1 2 3 4 show thesis by blast
qed

lemma rotation_keeps:
  assumes streams: "streams_ok st" and s: "stored s" and r: "ro_backend r = b" "ro_dir r = dir" and run: "RunOnce st r s = (err, notes, s')"
  shows "stored s'" and "same_env s s'"
    and "cur_file dir s' (hourlyFileName (clock s)) = cur_file dir s (hourlyFileName (clock s))"
    and "body_name f \<Longrightarrow> has s f c \<Longrightarrow> has s' f c \<or> gone s' f"
    and "body_name f \<Longrightarrow> has s f c \<Longrightarrow> ro_maxBytes r \<le> 0 \<Longrightarrow> 0 \<le> ro_archiveMaxAge r \<Longrightarrow>
      (\<And>cdc z t. objs s (archive_key f cdc) = Some (z, t) \<Longrightarrow> clock s - ro_archiveMaxAge r \<le> t) \<Longrightarrow> has s' f c"
    and "body_name f \<Longrightarrow> objs s' (archive_key f cdc) = Some v \<Longrightarrow>
      objs s (archive_key f cdc) = Some v \<or> snd v = clock s"
proof -
  obtain x1 s1 x2 s2 x3 n3 s3 x4 n4 where ph: "promoteCurrentToRecent r s = (x1, s1)"
    "compressToArchive st r s1 = (x2, s2)" "purgeExpired r s2 = (x3, n3, s3)" "evictBySize r s3 = (x4, n4, s')"
    "notes = n3 @ n4" "err = None \<longleftrightarrow> x1 \<and> x2 \<and> x3 \<and> x4"
    by (rule rotation_phases [OF run])
  have m1: "moved s s1" by (rule promote_phase [OF s r ph(1)])
  then have st1: "stored s1" by (simp add: moved_def)
  have m2: "moved s1 s2" by (rule compress_phase [OF streams st1 r(1) ph(2)])
  have m: "moved s s2" by (rule moved_trans [OF m1 m2])
  then have st2: "stored s2" by (simp add: moved_def)
  note pu = purge_dropped [OF storedD(1) [OF st2] r(1) ph(3)]
  have st3: "stored s3" by (rule dropped_stored(1) [OF st2 pu(1)])
  note ev = evictBySize_dropped [OF storedD(1) [OF st3] r ph(4)]
  have d: "dropped s2 s'" using dropped_trans [OF pu(1) ev(1)] .
  have clk: "clock s2 = clock s" using m by (simp add: moved_def same_env_def)
  show "stored s'" by (rule dropped_stored(1) [OF st2 d])
  show "same_env s s'" using m d by (simp add: moved_def dropped_def same_env_def)
  show "cur_file dir s' (hourlyFileName (clock s)) = cur_file dir s (hourlyFileName (clock s))"
    using m d clk unfolding moved_def dropped_def by metis
  show "has s' f c \<or> gone s' f" if "body_name f" "has s f c"
    using that m dropped_stored(2) [OF st2 d that(1)] by (simp add: moved_def)
  show "objs s (archive_key f cdc) = Some v \<or> snd v = clock s"
    if "body_name f" "objs s' (archive_key f cdc) = Some v"
  proof -
    have "objs s2 (archive_key f cdc) = Some v" using d that(2) unfolding dropped_def by (metis option.distinct(1))
    then show ?thesis using m that(1) unfolding moved_def by blast
  qed
  assume f: "body_name f" "has s f c" and lim: "ro_maxBytes r \<le> 0" "0 \<le> ro_archiveMaxAge r"
    and fresh: "\<And>cdc z t. objs s (archive_key f cdc) = Some (z, t) \<Longrightarrow> clock s - ro_archiveMaxAge r \<le> t"
  have h2: "has s2 f c" using m f by (simp add: moved_def)
  have "clock s - ro_archiveMaxAge r \<le> t" if "objs s2 (archive_key f cdc) = Some (z, t)" for cdc z t
    using m f(1) that fresh [of cdc z t] lim(2) unfolding moved_def by fastforce
  then have a: "objs s3 (archive_key f cdc) = objs s2 (archive_key f cdc)" for cdc
    using pu(3) [of "archive_key f cdc"] clk by fastforce
  have rk: "objs s3 (recent_key f) = objs s2 (recent_key f)"
    using pu(3) [of "recent_key f"] by (auto simp: recent_key_def)
  have "has s3 f c" using h2 pu(2) a rk copies_cong [of "cur_file dir s3" f "cur_file dir s2" "objs s3" "objs s2"]
    by (simp add: has_def)
  then show "has s' f c" using ev(2) lim by simp
qed

end

section \<open>Writing and reading\<close>

text \<open>A failing append leaves no partial line.\<close>

definition whole_writes :: "'a fs_scheme \<Rightarrow> bool" where
  "whole_writes s \<longleftrightarrow> short_write s = 0 \<or> (\<forall>q. \<not> faults s OpAppend q)"

context body_dir
begin

definition writer_ok :: "writer \<Rightarrow> 'a fs_scheme \<Rightarrow> bool" where
  "writer_ok w s \<longleftrightarrow> currentDir w = dir \<and>
     (\<forall>q. current w = OpenAt q \<longrightarrow> q = dir @ [currentName w] \<and>
        (\<exists>t0. 0 \<le> t0 \<and> t0 \<le> clock s \<and> currentName w = hourlyFileName t0) \<and>
        (currentName w = hourlyFileName (clock s) \<longrightarrow>
          (\<exists>c t. cur_file dir s (currentName w) = Some (c, t) \<and> offset w = int (length c))))"

lemma active_only_current:
  assumes "stored s"
  shows "objs s (recent_key (hourlyFileName (clock s))) = None" "objs s (archive_key (hourlyFileName (clock s)) cdc) = None"
proof -
  let ?a = "hourlyFileName (clock s)"
  note ti = storedD(2) [OF assms] and bn = hourly_body_name [of "clock s"]
  have no: "\<not> closed_name (clock s) ?a" using closed_name_not_active [of "clock s" ?a] ti by (auto simp: tidy_def)
  have "k \<noteq> recent_key ?a \<and> k \<noteq> archive_key ?a cdc" if k: "objs s k \<noteq> None" "\<not> temp_key k" for k
  proof -
    obtain f where f: "closed_name (clock s) f" "k = recent_key f \<or> (\<exists>cdc. k = archive_key f cdc)"
      using ti k unfolding tidy_def by blast
    then show ?thesis using no archive_key_inj [OF _ closed_body_name [OF f(1)] bn] by auto
  qed
  then show "objs s (recent_key ?a) = None" "objs s (archive_key ?a cdc) = None"
    using body_name_keys [OF bn] by blast+
qed

lemma has_active:
  assumes "stored s"
  shows "has s (hourlyFileName (clock s)) c \<longleftrightarrow> (\<exists>t. cur_file dir s (hourlyFileName (clock s)) = Some (c, t))"
  using active_only_current [OF assms] by (auto simp: has_def copies_rules)

lemma set_active:
  assumes s: "stored s" and s': "s' = set_node (dir @ [hourlyFileName (clock s)]) (File c t) s"
  shows "stored s'" "has s' (hourlyFileName (clock s)) c" "objs s' = objs s" "same_env s s'"
    "f \<noteq> hourlyFileName (clock s) \<Longrightarrow> has s' f c' \<longleftrightarrow> has s f c'"
proof -
  let ?a = "hourlyFileName (clock s)"
  note bn = hourly_body_name [of "clock s"]
  have "ok s'" and o: "objs s' = objs s"
    using cur_set [OF storedD(1) [OF s], of ?a c t] bn s' by (simp_all add: body_name_def)
  have cur: "cur_file dir s' = (cur_file dir s)(?a \<mapsto> (c, t))" by (simp add: s')
  have other: "copies st (cur_file dir s') (objs s') f = copies st (cur_file dir s) (objs s) f" if "f \<noteq> ?a" for f
    using that by (intro copies_cong) (simp_all add: cur o)
  have a: "copies st (cur_file dir s') (objs s') ?a = {Some c}"
    using active_only_current [OF s] by (auto simp: copies_rules cur o)
  have "agree st (cur_file dir s') (objs s')"
    using storedD(3) [OF s] a other unfolding agree_def by metis
  moreover have "tidy (clock s') (cur_file dir s') (objs s')"
    using storedD(2) [OF s] unfolding tidy_def cur o by (auto simp: s')
  ultimately show "stored s'" using \<open>ok s'\<close> by (simp add: stored_def)
  show "has s' ?a c" using a by (simp add: has_def)
  show "objs s' = objs s" by (rule o)
  show "same_env s s'" by (simp add: s')
  show "f \<noteq> ?a \<Longrightarrow> has s' f c' \<longleftrightarrow> has s f c'" using other by (simp add: has_def)
qed

text \<open>Going on from one state to another, every file keeps its content as a prefix.\<close>

definition extended :: "'a fs_scheme \<Rightarrow> 'a fs_scheme \<Rightarrow> bool" where
  "extended s s' \<longleftrightarrow> stored s' \<and> same_env s s' \<and> objs s' = objs s \<and>
     (\<forall>f c. body_name f \<longrightarrow> has s f c \<longrightarrow> (\<exists>d. has s' f (c @ d)))"

lemma extended_refl: "stored s \<Longrightarrow> extended s s"
  by (auto simp: extended_def intro: exI [of _ "[]"])

lemma extended_trans: "extended s s' \<Longrightarrow> extended s' s'' \<Longrightarrow> extended s s''"
  unfolding extended_def same_env_def by (metis append.assoc)

lemma extended_set:
  assumes s: "stored s" and s': "s' = set_node (dir @ [hourlyFileName (clock s)]) (File (c @ d) t) s"
    and c: "has s (hourlyFileName (clock s)) c \<or> gone s (hourlyFileName (clock s)) \<and> c = []"
  shows "extended s s'"
proof -
  note sa = set_active [OF s s']
  have "\<exists>d. has s' f (c' @ d)" if f: "body_name f" "has s f c'" for f c'
  proof (cases "f = hourlyFileName (clock s)")
    case True
    then have "c' = c" using c f(2) by (auto simp: has_def gone_def)
    then show ?thesis using sa(2) True by blast
  next
    case False
    then show ?thesis using sa(5) f(2) by (auto intro: exI [of _ "[]"])
  qed
  then show ?thesis using sa by (simp add: extended_def)
qed

lemma rotate_writer:
  assumes s: "stored s" and w: "writer_ok w s" and rot: "rotateIfNeeded w s = (e, w1, s1)"
  shows "extended s s1" "writer_ok w1 s1"
    and "e = None \<Longrightarrow> currentName w1 = hourlyFileName (clock s)"
proof -
  let ?a = "hourlyFileName (clock s)"
  note ok = storedD(1) [OF s]
  have tree: "fs_tree s" "fs_node s dir = Some Dir" using dir_tree [OF ok] by auto
  have goals: "extended s s1 \<and> writer_ok w1 s1 \<and> (e = None \<longrightarrow> currentName w1 = ?a)"
  proof (cases "?a = currentName w \<and> current w \<noteq> NoHandle")
    case True
    then show ?thesis using rot s w by (auto simp: rotateIfNeeded_def extended_refl)
  next
    case False
    define w0 where "w0 = (if current w \<noteq> NoHandle then w\<lparr>current := ClosedHandle\<rparr> else w)"
    have w0: "writer_ok w0 x" "currentDir w0 = dir" for x
      using w by (auto simp: writer_ok_def w0_def)
    obtain op s2 where opn: "os_OpenAppend (dir @ [?a]) s = (op, s2)" by fastforce
    have wd: "currentDir w = dir" using w by (simp add: writer_ok_def)
    have s2: "s2 = s \<and> (\<forall>q. op = Inr q \<longrightarrow> q = dir @ [?a] \<and> cur_file dir s ?a \<noteq> None) \<or>
        op = Inr (dir @ [?a]) \<and> gone s ?a \<and> s2 = set_node (dir @ [?a]) (File [] (clock s)) s"
    proof (cases "fs_node s (dir @ [?a])")
      case None
      have "gone s ?a" using None active_only_current [OF s] by (simp add: gone_def copies_empty cur_file_def)
      then show ?thesis using opn None tree
        by (auto simp: os_OpenAppend_def follow_entry entry_place_dir split: if_splits)
    next
      case (Some nd)
      then obtain c t where "nd = File c t"
        using dir_files [OF ok Some] fs_tree_node(2) [OF tree(1) Some] by (cases nd) auto
      then show ?thesis using opn Some tree
        by (auto simp: os_OpenAppend_def follow_entry cur_file_def split: if_splits)
    qed
    have ext: "extended s s2"
      using s2 extended_refl [OF s] extended_set [OF s, of s2 "[]" "[]" "clock s"] by auto
    have env: "clock s2 = clock s" using ext by (simp add: extended_def same_env_def)
    show ?thesis
    proof (cases op)
      case (Inl er)
      then have "s1 = s2" "w1 = w0" "e \<noteq> None"
        using rot False opn by (auto simp: rotateIfNeeded_def w0_def wd Let_def)
      then show ?thesis using ext w0 by auto
    next
      case (Inr q)
      then have q: "q = dir @ [?a]" using s2 by auto
      obtain c t where c: "cur_file dir s2 ?a = Some (c, t)"
        using s2 Inr by (auto)
      have sz: "(case fs_node s2 q of None \<Rightarrow> 0 | Some nd \<Rightarrow> node_size nd) = int (length c)"
        using c by (simp add: q cur_file_Some node_size_def)
      show ?thesis
      proof (cases "faults s2 OpStat q")
        case True
        then have "s1 = s2" "w1 = w0" "e \<noteq> None"
          using rot False opn Inr by (auto simp: rotateIfNeeded_def w0_def wd Let_def)
        then show ?thesis using ext w0 by auto
      next
        case False': False
        then have w1: "s1 = s2" "e = None" "w1 = w0\<lparr>current := OpenAt q, currentName := ?a, offset := int (length c)\<rparr>"
          using rot False opn Inr by (auto simp: rotateIfNeeded_def w0_def wd Let_def sz)
        have "0 \<le> clock s" using storedD(2) [OF s] by (simp add: tidy_def)
        then have "writer_ok w1 s1" using w0(2) c env by (auto simp: w1 writer_ok_def q)
        then show ?thesis using ext w1 by simp
      qed
    qed
  qed
  then show "extended s s1" "writer_ok w1 s1" "e = None \<Longrightarrow> currentName w1 = ?a" by blast+
qed

end

context body_dir
begin

lemma write_step:
  assumes s: "stored s" and w: "writer_ok w s" and ww: "whole_writes s"
    and wr: "writer_Write js entry w s = (res, w', s')"
  shows "extended s s'" "writer_ok w' s'"
    and "res = Inr (f, off, n) \<Longrightarrow> f = hourlyFileName (clock s) \<and>
      (\<exists>l c. entry_marshal js entry = Some l \<and> has s' f (c @ l @ [CHR 0x0A]) \<and> off = int (length c) \<and>
         n = int (length l) + 1)"
proof -
  let ?a = "hourlyFileName (clock s)"
  obtain e w1 s1 where rot: "rotateIfNeeded w s = (e, w1, s1)" by (cases "rotateIfNeeded w s")
  note r = rotate_writer [OF s w rot]
  have s1: "stored s1" "clock s1 = clock s" "whole_writes s1"
    using r(1) ww by (simp_all add: extended_def same_env_def whole_writes_def)
  have goals: "extended s s' \<and> writer_ok w' s' \<and> (res = Inr (f, off, n) \<longrightarrow> f = ?a \<and>
      (\<exists>l c. entry_marshal js entry = Some l \<and> has s' f (c @ l @ [CHR 0x0A]) \<and> off = int (length c) \<and>
         n = int (length l) + 1))"
  proof (cases "e = None \<and> (\<exists>l q. entry_marshal js entry = Some l \<and> current w1 = OpenAt q)")
    case False
    then have "s' = s1 \<and> w' = w1 \<and> (\<exists>x. res = Inl x)"
      using wr rot by (auto simp: writer_Write_def Let_def split: option.splits handle.splits)
    then show ?thesis using r by auto
  next
    case True
    then obtain l q where e: "e = None" and l: "entry_marshal js entry = Some l" and q: "current w1 = OpenAt q" by blast
    have name: "currentName w1 = ?a" using r(3) e by simp
    obtain c t where qa: "q = dir @ [?a]" and c: "cur_file dir s1 ?a = Some (c, t)" "offset w1 = int (length c)"
      using r(2) q name s1(2) unfolding writer_ok_def by auto
    have h1: "has s1 ?a c" using has_active [OF s1(1)] c(1) s1(2) by auto
    define put where "put d = set_node (dir @ [?a]) (File (c @ d) (clock s1)) s1" for d
    have ext: "extended s s2" if "s2 = put d" for d s2
      using extended_trans [OF r(1)] extended_set [OF s1(1), of s2 c d "clock s1"] h1 s1(2) that by (auto simp: put_def)
    have cur: "cur_file dir (put d) ?a = Some (c @ d, clock s1)" for d by (simp add: put_def)
    have clk: "clock (put d) = clock s" for d using s1(2) by (simp add: put_def)
    have node: "fs_node s1 q = Some (File c t)" using c(1) by (simp add: qa cur_file_Some)
    show ?thesis
    proof (cases "faults s1 OpAppend q")
      case True
      then have "short_write s1 = 0" using s1(3) by (auto simp: whole_writes_def)
      then have "os_Append q (l @ [CHR 0x0A]) s1 = (Some OsError, put [])"
        using True node by (simp add: os_Append_def qa put_def)
      then have x: "s' = put []" "w' = w1" "\<exists>x. res = Inl x"
        using wr rot e l q by (auto simp: writer_Write_def Let_def)
      have "writer_ok w1 (put [])"
        using r(2) cur [of "[]"] clk [of "[]"] c(2) name s1(2) unfolding writer_ok_def by auto
      then show ?thesis using x ext [of s' "[]"] by auto
    next
      case False
      then have ap: "os_Append q (l @ [CHR 0x0A]) s1 = (None, put (l @ [CHR 0x0A]))"
        using node by (simp add: os_Append_def qa put_def)
      then have x: "s' = put (l @ [CHR 0x0A])" "w' = w1\<lparr>offset := offset w1 + int (length (l @ [CHR 0x0A]))\<rparr>"
        "res = Inr (currentName w1, offset w1, int (length (l @ [CHR 0x0A])))"
        using wr rot e l q by (auto simp: writer_Write_def Let_def)
      have "writer_ok w' s'"
        using r(2) cur [of "l @ [CHR 0x0A]"] clk [of "l @ [CHR 0x0A]"] c(2) name s1(2) unfolding x writer_ok_def by auto
      moreover have "has s' ?a (c @ l @ [CHR 0x0A])"
        using set_active(2) [OF s1(1), of s' "c @ l @ [CHR 0x0A]" "clock s1"] s1(2) x(1) by (simp add: put_def)
      ultimately show ?thesis using ext [OF x(1)] x l c(2) name by auto
    qed
  qed
  then show "extended s s'" "writer_ok w' s'" "res = Inr (f, off, n) \<Longrightarrow> f = ?a \<and>
      (\<exists>l c. entry_marshal js entry = Some l \<and> has s' f (c @ l @ [CHR 0x0A]) \<and> off = int (length c) \<and>
         n = int (length l) + 1)" by blast+
qed

end

lemma read_full_inside:
  assumes "0 \<le> off" "0 \<le> n" "off + n \<le> int (length c)"
  shows "read_full off n c = Some (take (nat n) (drop (nat off) c))"
    and "read_full 0 n (byte_range off n c) = Some (take (nat n) (drop (nat off) c))"
  using assms by (auto simp: read_full_def byte_range_def Let_def)

lemma body_name_suffix:
  assumes "body_name f"
  shows "codecFromSuffix f = None" "codecFromSuffix (archive_key f noneCodec) = None"
    "codecFromSuffix (archive_key f zstdCodec) = Some zstdCodec" "codecFromSuffix (archive_key f gzipCodec) = Some gzipCodec"
proof -
  obtain p where p: "f = p @ ''.jsonl''" using assms by (auto simp: body_name_def has_suffix_iff)
  show "codecFromSuffix f = None" "codecFromSuffix (archive_key f noneCodec) = None"
    "codecFromSuffix (archive_key f zstdCodec) = Some zstdCodec" "codecFromSuffix (archive_key f gzipCodec) = Some gzipCodec"
    by (simp_all add: codecFromSuffix_def NewCodec_def archive_key_def p has_suffix_def)
qed

context body_dir
begin

lemma read_has:
  assumes s: "stored s" "quiet s" and f: "body_name f" "has s f c"
    and n: "0 \<le> off" "0 \<le> n" "off + n \<le> int (length c)"
  shows "reader_Read js st \<lparr>rd_backend = b, rd_dir = dir\<rparr> f off n s = parse_entry js (take (nat n) (drop (nat off) c))"
proof -
  note ok = storedD(1) [OF s(1)] and full = read_full_inside [OF n]
  have tree: "fs_tree s" "fs_node s dir = Some Dir" using dir_tree [OF ok] by auto
  have nf: "\<not> faults s op p" for op p using s(2) by (rule quietD)
  have name: "is_base_name f" "join_name dir f = dir @ [f]"
    using f(1) by (auto simp: body_name_def name_ok_def is_base_name_def join_name_def contains_def)
  have direct: "readDirect js (dir @ [f]) off n s = parse_entry js (take (nat n) (drop (nat off) c))"
    if "cur_file dir s f = Some (c, t)" for t
    using read_file_cur(2) [OF tree s(2) that] n full by (simp add: readDirect_def)
  have range: "readFromBackendRange js b k off n s =
      (case objs s k of None \<Rightarrow> Inl (BodyBlob ErrNotFound) | Some _ \<Rightarrow> parse_entry js (take (nat n) (drop (nat off) c)))"
    if "body_key k" "\<And>c' t. objs s k = Some (c', t) \<Longrightarrow> c' = c" for k
    using get_quiet [OF ok that(1) s(2)] that(2) n full by (auto simp: readFromBackendRange_def split: option.splits)
  have comp: "readFromBackendCompressed js st b k cdc off n s =
      (case objs s k of None \<Rightarrow> Inl (BodyBlob ErrNotFound) | Some _ \<Rightarrow> parse_entry js (take (nat n) (drop (nat off) c)))"
    if "body_key k" "\<And>z t. objs s k = Some (z, t) \<Longrightarrow> decode st cdc z = Some c" for k cdc
    using get_quiet [OF ok that(1) s(2), of 0 0] that(2) n full
    by (auto simp: readFromBackendCompressed_def byte_range_def split: option.splits)
  have cp: "cur_file dir s f \<noteq> None \<or> objs s (recent_key f) \<noteq> None \<or> (\<exists>cdc. objs s (archive_key f cdc) \<noteq> None)"
    "\<And>c' t. cur_file dir s f = Some (c', t) \<Longrightarrow> c' = c" "\<And>c' t. objs s (recent_key f) = Some (c', t) \<Longrightarrow> c' = c"
    "\<And>cdc z t. objs s (archive_key f cdc) = Some (z, t) \<Longrightarrow> decode st cdc z = Some c"
    using f(2) by (auto simp: has_def copies_rules)
  note bk = body_name_keys [OF f(1)] and sx = body_name_suffix [OF f(1)]
  have rec: "readFromBackendRange js b (recent_key f) off n s =
      (case objs s (recent_key f) of None \<Rightarrow> Inl (BodyBlob ErrNotFound) | Some _ \<Rightarrow> parse_entry js (take (nat n) (drop (nat off) c)))"
    by (rule range [OF bk(1) cp(3)])
  have arc: "(case codecFromSuffix (archive_key f cdc) of None \<Rightarrow> readFromBackendRange js b (archive_key f cdc) off n s
      | Some cdc' \<Rightarrow> readFromBackendCompressed js st b (archive_key f cdc) cdc' off n s) =
      (case objs s (archive_key f cdc) of None \<Rightarrow> Inl (BodyBlob ErrNotFound)
        | Some _ \<Rightarrow> parse_entry js (take (nat n) (drop (nat off) c)))" for cdc
    using range [OF bk(2) [of noneCodec]] comp [OF bk(2)] cp(4) sx by (cases cdc) (simp_all, force+)
  define P where "P = parse_entry js (take (nat n) (drop (nat off) c))"
  have P: "P = Inl e \<Longrightarrow> e \<noteq> BodyBlob ErrNotFound" for e
    by (auto simp: P_def parse_entry_def split: option.splits)
  have keys: "[''archive/'' @ f, (''archive/'' @ f) @ ''.zst'', (''archive/'' @ f) @ ''.gz''] = map (archive_key f) [noneCodec, zstdCodec, gzipCodec]"
    by (simp add: archive_key_def)
  have search: "try_archive js st b (map (archive_key f) cs) off n s = P"
    if "\<exists>cdc \<in> set cs. objs s (archive_key f cdc) \<noteq> None" for cs
    using that P by (induction cs) (auto simp: arc P_def [symmetric] split: option.splits sum.splits)
  show ?thesis
  proof (cases "cur_file dir s f")
    case (Some v)
    then have "cur_file dir s f = Some (c, snd v)" using cp(2) [of "fst v" "snd v"] by (cases v) auto
    moreover from this have "os_Stat s (dir @ [f]) = Inr (File c (snd v))"
      using tree nf by (simp add: os_Stat_def follow_entry cur_file_Some)
    ultimately show ?thesis using direct name by (simp add: reader_Read_def)
  next
    case None
    then have "fs_node s (dir @ [f]) = None"
      using dir_files [OF ok, of f] fs_tree_node(2) [OF tree(1), of dir f]
      by (auto simp: cur_file_def split: option.splits node.splits)
    then have st: "os_Stat s (dir @ [f]) = Inl NotExist"
      using tree nf by (simp add: os_Stat_def follow_entry)
    have "reader_Read js st \<lparr>rd_backend = b, rd_dir = dir\<rparr> f off n s =
        (case readFromBackendRange js b (recent_key f) off n s of
           Inr entry \<Rightarrow> Inr entry
         | Inl e \<Rightarrow> if e = BodyBlob ErrNotFound
             then try_archive js st b (map (archive_key f) [noneCodec, zstdCodec, gzipCodec]) off n s else Inl e)"
      unfolding keys [symmetric] by (simp add: reader_Read_def name st sx(1) recent_key_def Let_def split: sum.split)
    also have "\<dots> = P"
    proof (cases "objs s (recent_key f)")
      case None': None
      then obtain cdc where "objs s (archive_key f cdc) \<noteq> None" using cp(1) None by blast
      then have "\<exists>cdc \<in> set [noneCodec, zstdCodec, gzipCodec]. objs s (archive_key f cdc) \<noteq> None"
        by (cases cdc) simp_all
      from search [OF this] show ?thesis using None' rec by simp
    next
      case (Some v)
      then show ?thesis using rec P by (simp add: P_def [symmetric] split: sum.splits)
    qed
    finally show ?thesis by (simp add: P_def)
  qed
qed

end

section \<open>Any sequence of operations\<close>

datatype body_op = OWrite body_entry | ORotate | OEnv time "fs_op \<Rightarrow> path \<Rightarrow> bool" nat string

fun body_exec ::
  "jsonl \<Rightarrow> streams \<Rightarrow> 'a fs_scheme rotator \<Rightarrow> body_op \<Rightarrow> writer \<times> 'a fs_scheme \<Rightarrow> writer \<times> 'a fs_scheme" where
  "body_exec js st r (OWrite entry) (w, s) = snd (writer_Write js entry w s)"
| "body_exec js st r ORotate (w, s) = (w, snd (snd (RunOnce st r s)))"
| "body_exec js st r (OEnv t flt m x) (w, s) = (w, s\<lparr>clock := t, faults := flt, short_write := m, temp := x\<rparr>)"

definition body_run ::
  "jsonl \<Rightarrow> streams \<Rightarrow> 'a fs_scheme rotator \<Rightarrow> body_op list \<Rightarrow> writer \<times> 'a fs_scheme \<Rightarrow> writer \<times> 'a fs_scheme" where
  "body_run js st r ops ws = fold (body_exec js st r) ops ws"

text \<open>The clock does not go back, random names are digits, and a failing append writes nothing.\<close>

fun env_fine :: "time \<Rightarrow> body_op list \<Rightarrow> bool" where
  "env_fine now [] = True"
| "env_fine now (OEnv t flt m x # ops) \<longleftrightarrow>
     now \<le> t \<and> list_all is_digit x \<and> (m = 0 \<or> (\<forall>q. \<not> flt OpAppend q)) \<and> env_fine t ops"
| "env_fine now (op # ops) \<longleftrightarrow> env_fine now ops"

fun latest :: "time \<Rightarrow> body_op list \<Rightarrow> time" where
  "latest now [] = now"
| "latest now (OEnv t flt m x # ops) = latest t ops"
| "latest now (op # ops) = latest now ops"

lemma latest_mono: "env_fine now ops \<Longrightarrow> now \<le> latest now ops"
  by (induction now ops rule: env_fine.induct) auto

lemma body_run_Cons: "body_run js st r (op # ops) ws = body_run js st r ops (body_exec js st r op ws)"
  by (simp add: body_run_def)

context body_dir
begin

definition working :: "writer \<Rightarrow> 'a fs_scheme \<Rightarrow> bool" where
  "working w s \<longleftrightarrow> stored s \<and> writer_ok w s \<and> whole_writes s"

lemma env_working:
  assumes a: "working w s" and "clock s \<le> t" "list_all is_digit x" "m = 0 \<or> (\<forall>q. \<not> flt OpAppend q)"
  shows "working w (s\<lparr>clock := t, faults := flt, short_write := m, temp := x\<rparr>)"
proof -
  let ?s = "s\<lparr>clock := t, faults := flt, short_write := m, temp := x\<rparr>"
  have s: "stored s" using a by (simp add: working_def)
  have o: "ok ?s" "objs ?s = objs s" using env_change [OF storedD(1) [OF s] assms(3)] by blast+
  have st: "stored ?s"
    using tidy_later [OF storedD(2) [OF s] assms(2)] storedD(3) [OF s] o by (simp add: stored_def)
  have "currentName w = hourlyFileName (clock s)"
    if "0 \<le> t0" "t0 \<le> clock s" "currentName w = hourlyFileName t0" "currentName w = hourlyFileName t" for t0
  proof -
    have "t0 div hour = t div hour" using hourly_hour [of t0 t] that assms(2) by simp
    moreover have "t0 div hour \<le> clock s div hour" "clock s div hour \<le> t div hour"
      using zdiv_mono1 [of t0 "clock s" hour] zdiv_mono1 [of "clock s" t hour] that assms(2)
      by (simp_all add: duration_defs)
    ultimately show ?thesis using hourly_same [of t0 "clock s"] that(3) by simp
  qed
  then have "writer_ok w ?s"
    using a assms(2) unfolding working_def writer_ok_def by fastforce
  then show ?thesis using st assms(4) by (auto simp: working_def whole_writes_def)
qed

lemma exec_working:
  assumes streams: "streams_ok st" and r: "ro_backend r = b" "ro_dir r = dir"
    and a: "working w s" "env_fine (clock s) (op # ops)" and x: "body_exec js st r op (w, s) = (w', s')"
  shows "working w' s'" "env_fine (clock s') ops" "latest (clock s) (op # ops) = latest (clock s') ops"
proof -
  have *: "stored s" "writer_ok w s" "whole_writes s" using a(1) by (simp_all add: working_def)
  have "working w' s' \<and> env_fine (clock s') ops \<and> latest (clock s) (op # ops) = latest (clock s') ops"
  proof (cases op)
    case (OWrite entry)
    obtain res where "writer_Write js entry w s = (res, w', s')"
      using x OWrite by (cases "writer_Write js entry w s") auto
    note st = write_step [OF * this]
    then show ?thesis using a(2) OWrite *(3) by (auto simp: working_def extended_def same_env_def whole_writes_def)
  next
    case ORotate
    obtain err ns where run: "RunOnce st r s = (err, ns, s')" and w: "w' = w"
      using x ORotate by (cases "RunOnce st r s") auto
    note k = rotation_keeps [OF streams *(1) r run]
    have "writer_ok w s'" using *(2) k(2,3) unfolding writer_ok_def same_env_def by metis
    then show ?thesis using a(2) ORotate *(3) k(1,2) w by (auto simp: working_def same_env_def whole_writes_def)
  next
    case (OEnv t flt m y)
    have s': "s' = s\<lparr>clock := t, faults := flt, short_write := m, temp := y\<rparr>" "w' = w" using x OEnv by simp_all
    have fine: "clock s \<le> t" "list_all is_digit y" "m = 0 \<or> (\<forall>q. \<not> flt OpAppend q)" using a(2) OEnv by simp_all
    show ?thesis using env_working [OF a(1) fine(1,2), of m flt] fine(3) s' a(2) OEnv by simp
  qed
  then show "working w' s'" "env_fine (clock s') ops" "latest (clock s) (op # ops) = latest (clock s') ops" by blast+
qed

text \<open>The content of a file at its birth stays a prefix of what its copies say.\<close>

definition alive :: "time \<Rightarrow> 'a fs_scheme \<Rightarrow> string \<Rightarrow> string \<Rightarrow> bool" where
  "alive born s f c \<longleftrightarrow> (\<exists>d. has s f (c @ d)) \<and> born \<le> clock s \<and>
     (\<forall>cdc v. objs s (archive_key f cdc) = Some v \<longrightarrow> born \<le> snd v)"

lemma exec_alive:
  assumes streams: "streams_ok st" and r: "ro_backend r = b" "ro_dir r = dir" "ro_maxBytes r \<le> 0" "0 \<le> ro_archiveMaxAge r"
    and w: "working w s" "env_fine (clock s) (op # ops)" and x: "body_exec js st r op (w, s) = (w', s')"
    and a: "alive born s f c" "body_name f" "clock s \<le> born + ro_archiveMaxAge r"
  shows "alive born s' f c"
proof -
  have *: "stored s" "writer_ok w s" "whole_writes s" using w(1) by (simp_all add: working_def)
  obtain d where d: "has s f (c @ d)" using a(1) by (auto simp: alive_def)
  show ?thesis
  proof (cases op)
    case (OWrite entry)
    obtain res where "writer_Write js entry w s = (res, w', s')"
      using x OWrite by (cases "writer_Write js entry w s") auto
    note st = write_step [OF * this]
    obtain d' where "has s' f ((c @ d) @ d')" using st(1) a(2) d unfolding extended_def by blast
    then have "\<exists>d. has s' f (c @ d)" by auto
    then show ?thesis using a(1) st(1) by (auto simp: alive_def extended_def same_env_def)
  next
    case ORotate
    obtain err ns where run: "RunOnce st r s = (err, ns, s')"
      using x ORotate by (cases "RunOnce st r s") auto
    note k = rotation_keeps [OF streams *(1) r(1,2) run]
    have "has s' f (c @ d)"
    proof (rule k(5) [OF a(2) d r(3,4)])
      fix cdc z u assume "objs s (archive_key f cdc) = Some (z, u)"
      then have "born \<le> u" using a(1) unfolding alive_def by fastforce
      then show "clock s - ro_archiveMaxAge r \<le> u" using a(3) by simp
    qed
    moreover have "born \<le> snd v" if "objs s' (archive_key f cdc) = Some v" for cdc v
      using k(6) [OF a(2) that] a(1) unfolding alive_def by metis
    ultimately show ?thesis using a(1) k(2) by (auto simp: alive_def same_env_def)
  next
    case (OEnv t flt m y)
    have s': "s' = s\<lparr>clock := t, faults := flt, short_write := m, temp := y\<rparr>" using x OEnv by simp
    have "list_all is_digit y" "clock s \<le> t" using w(2) OEnv by simp_all
    then have "objs s' = objs s" "clock s \<le> clock s'" using env_change [OF storedD(1) [OF *(1)]] s' by auto
    then show ?thesis using a(1) s' by (auto simp: alive_def has_def)
  qed
qed

end

context body_dir
begin

lemma run_working:
  assumes streams: "streams_ok st" and r: "ro_backend r = b" "ro_dir r = dir"
    and a: "working w s" "env_fine (clock s) ops" and x: "body_run js st r ops (w, s) = (w', s')"
  shows "working w' s' \<and> clock s' = latest (clock s) ops"
  using a x
proof (induction ops arbitrary: w s)
  case Nil
  then show ?case by (simp add: body_run_def)
next
  case (Cons op ops)
  obtain w1 s1 where x1: "body_exec js st r op (w, s) = (w1, s1)" by fastforce
  note e = exec_working [OF streams r Cons.prems(1,2) x1]
  have "body_run js st r ops (w1, s1) = (w', s')" using Cons.prems(3) by (simp add: body_run_Cons x1)
  from Cons.IH [OF e(1,2) this] e(3) show ?case by simp
qed

lemma run_alive:
  assumes streams: "streams_ok st" and r: "ro_backend r = b" "ro_dir r = dir" "ro_maxBytes r \<le> 0" "0 \<le> ro_archiveMaxAge r"
    and w: "working w s" "env_fine (clock s) ops" and x: "body_run js st r ops (w, s) = (w', s')"
    and a: "alive born s f c" "body_name f" "latest (clock s) ops \<le> born + ro_archiveMaxAge r"
  shows "alive born s' f c"
  using w x a(1,3)
proof (induction ops arbitrary: w s)
  case Nil
  then show ?case by (simp add: body_run_def)
next
  case (Cons op ops)
  obtain w1 s1 where x1: "body_exec js st r op (w, s) = (w1, s1)" by fastforce
  note e = exec_working [OF streams r(1,2) Cons.prems(1,2) x1]
  have run: "body_run js st r ops (w1, s1) = (w', s')" using Cons.prems(3) by (simp add: body_run_Cons x1)
  have "clock s \<le> born + ro_archiveMaxAge r" using latest_mono [OF Cons.prems(2)] Cons.prems(5) by simp
  from exec_alive [OF streams r Cons.prems(1,2) x1 Cons.prems(4) a(2) this]
  have "alive born s1 f c" .
  from Cons.IH [OF e(1,2) run this] Cons.prems(5) e(3) show ?case by simp
qed

theorem body_readback:
  assumes streams: "streams_ok st" and r: "ro_backend r = b" "ro_dir r = dir" "ro_maxBytes r \<le> 0" "0 \<le> ro_archiveMaxAge r"
    and w: "working w s" and wr: "writer_Write js entry w s = (Inr (f, off, n), w1, s1)"
    and run: "env_fine (clock s) ops" "body_run js st r ops (w1, s1) = (w2, s2)"
    and q: "quiet s2" "clock s2 \<le> clock s + ro_archiveMaxAge r"
  shows "\<exists>l. entry_marshal js entry = Some l \<and>
    reader_Read js st \<lparr>rd_backend = b, rd_dir = dir\<rparr> f off n s2 = parse_entry js (l @ [CHR 0x0A])"
proof -
  have *: "stored s" "writer_ok w s" "whole_writes s" using w by (simp_all add: working_def)
  note st = write_step [OF * wr]
  from st(3) [OF refl] obtain l c where f: "f = hourlyFileName (clock s)" and l: "entry_marshal js entry = Some l"
    "has s1 f (c @ l @ [CHR 0x0A])" "off = int (length c)" "n = int (length l) + 1" by blast
  have clk: "clock s1 = clock s" using st(1) by (simp add: extended_def same_env_def)
  have w1: "working w1 s1" using st *(3) by (auto simp: working_def extended_def same_env_def whole_writes_def)
  have bn: "body_name f" by (simp add: f hourly_body_name)
  have "objs s1 = objs s" using st(1) by (simp add: extended_def)
  then have "alive (clock s) s1 f (c @ l @ [CHR 0x0A])"
    using l(2) active_only_current(2) [OF *(1)] clk unfolding alive_def f by (auto intro: exI [of _ "[]"])
  moreover have fine: "env_fine (clock s1) ops" using run(1) clk by simp
  note rw = run_working [OF streams r(1,2) w1 fine run(2)]
  ultimately have "alive (clock s) s2 f (c @ l @ [CHR 0x0A])"
    using run_alive [OF streams r w1 fine run(2) _ bn] q(2) rw by simp
  then obtain d where "has s2 f ((c @ l @ [CHR 0x0A]) @ d)" by (auto simp: alive_def)
  from read_has [OF _ q(1) bn this, of off n js] rw l(3,4)
  have "reader_Read js st \<lparr>rd_backend = b, rd_dir = dir\<rparr> f off n s2 = parse_entry js (l @ [CHR 0x0A])"
    by (simp add: working_def nat_add_distrib)
  with l(1) show ?thesis by blast
qed

end

section \<open>The local directory\<close>

lemma local_cur_put:
  assumes "local_ok base s" "body_key k" "local_Put \<lparr>lb_root = base\<rparr> k r s = (e, s')"
  shows "cur_file (base @ [''current'']) s' = cur_file (base @ [''current'']) s"
proof -
  from assms(2) obtain t n where k: "k = t @ CHR ''/'' # n" "tier_ok t" "name_ok n" by (auto elim: body_keyE)
  have "t \<noteq> ''current''" using k(2) by (auto simp: tier_ok_def)
  then show ?thesis
    using local_Put_cases [OF assms(1) k(2,3) assms(3) [unfolded k(1)]] by (auto simp: cur_file_def fun_eq_iff)
qed

lemma local_cur_delete:
  assumes "local_ok base s" "list_all body_key ks" "local_Delete \<lparr>lb_root = base\<rparr> ks s = (e, s')"
  shows "cur_file (base @ [''current'']) s' = cur_file (base @ [''current'']) s"
proof
  fix n
  have "fs_node s' (base @ [''current'', n]) = fs_node s (base @ [''current'', n])"
    using local_Delete_cases [OF assms] by (fastforce simp: tier_ok_def)
  then show "cur_file (base @ [''current'']) s' n = cur_file (base @ [''current'']) s n" by (simp add: cur_file_def)
qed

lemma local_objs_current:
  "local_objs base (set_node (base @ [''current'', n]) nd s) = local_objs base s"
  "local_objs base (del_node (base @ [''current'', n]) s) = local_objs base s"
  by (rule ext, rule local_objs_cong, auto simp: tier_ok_def)+

lemma local_env:
  "local_objs base (s\<lparr>clock := t, faults := flt, short_write := m, temp := x\<rparr>) = local_objs base s"
  "local_ok base s \<Longrightarrow> list_all is_digit x \<Longrightarrow> local_ok base (s\<lparr>clock := t, faults := flt, short_write := m, temp := x\<rparr>)"
proof -
  have n: "fs_node (s\<lparr>clock := t, faults := flt, short_write := m, temp := x\<rparr>) = fs_node s"
    by (simp add: fs_node_def fun_eq_iff)
  show "local_objs base (s\<lparr>clock := t, faults := flt, short_write := m, temp := x\<rparr>) = local_objs base s"
    by (rule ext, rule local_objs_cong) (simp add: n)
  show "local_ok base s \<Longrightarrow> list_all is_digit x \<Longrightarrow> local_ok base (s\<lparr>clock := t, faults := flt, short_write := m, temp := x\<rparr>)"
    by (simp add: local_ok_def fs_tree_def n)
qed

interpretation local_bodies: body_dir "LocalBackend \<lparr>lb_root = base\<rparr> :: 'a fs_scheme backend" "local_ok base"
    "local_objs base" "base @ [''current'']" st for base st
proof (unfold_locales, unfold local_backend_sel)
  fix s s' :: "'a fs_scheme" and n nd k r e ks c t x now flt m
  assume ok: "local_ok base s"
  have cur: "fs_node s (base @ [''current'']) = Some Dir" using ok by (simp add: local_ok_def)
  show "fs_tree s \<and> fs_node s (base @ [''current'']) = Some Dir" using ok by (simp add: local_ok_def)
  show "fs_node s ((base @ [''current'']) @ [n]) = Some nd \<Longrightarrow> nd \<noteq> Dir"
    using local_area(2) [OF ok tier_area(2), of n "[]" nd] by auto
  show "body_key k \<Longrightarrow> local_Put \<lparr>lb_root = base\<rparr> k r s = (e, s') \<Longrightarrow>
      cur_file (base @ [''current'']) s' = cur_file (base @ [''current'']) s"
    by (rule local_cur_put [OF ok])
  show "list_all body_key ks \<Longrightarrow> local_Delete \<lparr>lb_root = base\<rparr> ks s = (e, s') \<Longrightarrow>
      cur_file (base @ [''current'']) s' = cur_file (base @ [''current'']) s"
    by (rule local_cur_delete [OF ok])
  show "name_ok n \<Longrightarrow> local_ok base (set_node ((base @ [''current'']) @ [n]) (File c t) s) \<and>
      local_objs base (set_node ((base @ [''current'']) @ [n]) (File c t) s) = local_objs base s"
    using local_ok_set [OF ok tier_area(2) cur, of n c t] local_objs_current(1) [of base n "File c t" s] by simp
  show "cur_file (base @ [''current'']) s n \<noteq> None \<Longrightarrow> local_ok base (del_node ((base @ [''current'']) @ [n]) s) \<and>
      local_objs base (del_node ((base @ [''current'']) @ [n]) s) = local_objs base s"
    using local_ok_del [OF ok, of "base @ [''current'']" n] local_objs_current(2) [of base n s]
    by (auto simp: cur_file_def split: option.splits node.splits)
  show "list_all is_digit x \<Longrightarrow>
      local_ok base (s\<lparr>clock := now, faults := flt, short_write := m, temp := x\<rparr>) \<and>
      local_objs base (s\<lparr>clock := now, faults := flt, short_write := m, temp := x\<rparr>) = local_objs base s"
    by (simp add: local_env ok)
qed

text \<open>The store of a base directory in terms of the file system: its state is well formed, its copies
  agree, and its writer's offset is the length of the active file.\<close>

definition bodies_stored :: "path \<Rightarrow> streams \<Rightarrow> 'a fs_scheme \<Rightarrow> bool" where
  "bodies_stored base st s \<longleftrightarrow> local_ok base s \<and>
     tidy (clock s) (cur_file (base @ [''current'']) s) (local_objs base s) \<and>
     agree st (cur_file (base @ [''current'']) s) (local_objs base s)"

definition body_content :: "path \<Rightarrow> streams \<Rightarrow> 'a fs_scheme \<Rightarrow> string \<Rightarrow> string option set" where
  "body_content base st s f = copies st (cur_file (base @ [''current'']) s) (local_objs base s) f"

definition writer_fits :: "path \<Rightarrow> writer \<Rightarrow> 'a fs_scheme \<Rightarrow> bool" where
  "writer_fits base w s \<longleftrightarrow> currentDir w = base @ [''current''] \<and>
     (\<forall>q. current w = OpenAt q \<longrightarrow> q = (base @ [''current'']) @ [currentName w] \<and>
        (\<exists>t0. 0 \<le> t0 \<and> t0 \<le> clock s \<and> currentName w = hourlyFileName t0) \<and>
        (currentName w = hourlyFileName (clock s) \<longrightarrow>
          (\<exists>c t. cur_file (base @ [''current'']) s (currentName w) = Some (c, t) \<and> offset w = int (length c))))"

definition local_rotator :: "path \<Rightarrow> rotator_options \<Rightarrow> 'a fs_scheme rotator" where
  "local_rotator base opts = NewRotator (LocalBackend \<lparr>lb_root = base\<rparr>) (base @ [''current'']) opts"

definition local_reader :: "path \<Rightarrow> 'a fs_scheme body_reader" where
  "local_reader base = \<lparr>rd_backend = LocalBackend \<lparr>lb_root = base\<rparr>, rd_dir = base @ [''current'']\<rparr>"

lemma local_stored: "local_bodies.stored base st s \<longleftrightarrow> bodies_stored base st s"
  by (simp add: local_bodies.stored_def bodies_stored_def)

lemma local_has: "local_bodies.has base st s f c \<longleftrightarrow> body_content base st s f = {Some c}"
  by (simp add: local_bodies.has_def body_content_def)

lemma local_gone: "local_bodies.gone base st s f \<longleftrightarrow> body_content base st s f = {}"
  by (simp add: local_bodies.gone_def body_content_def)

lemma local_working:
  "local_bodies.working base st w s \<longleftrightarrow> bodies_stored base st s \<and> writer_fits base w s \<and> whole_writes s"
  by (simp add: local_bodies.working_def local_stored local_bodies.writer_ok_def writer_fits_def)

lemma local_rotator_sel [simp]:
  "ro_backend (local_rotator base opts) = LocalBackend \<lparr>lb_root = base\<rparr>"
  "ro_dir (local_rotator base opts) = base @ [''current'']"
  "ro_maxBytes (local_rotator base opts) = opt_MaxBytes opts"
  "ro_archiveMaxAge (local_rotator base opts) = opt_ArchiveMaxAge opts"
  "ro_recentMaxAge (local_rotator base opts) = opt_RecentMaxAge opts"
  "ro_notifier (local_rotator base opts) = opt_OrphanNotifier opts"
  by (simp_all add: local_rotator_def NewRotator_def)

text \<open>C13: an entry that the writer accepted is read back, for as long as the archive age runs and size
  eviction is off: through any sequence of further writes, hour changes, promotions, compressions
  and expiries, in which any file operation may fail at any time, the reader finds the entry's
  line by the file name, offset and length that the writer returned. Reading itself meets no failure;
  the clock does not go back, and a failing append leaves no partial line. zstd and gzip decode what
  they encoded, and JSON decoding of a line gives the entry that was encoded, in compacted form.\<close>

theorem bodies_readback:
  assumes "streams_ok st" and "\<And>e l. entry_marshal js e = Some l \<Longrightarrow> entry_unmarshal js (l @ [CHR 0x0A]) = Some (compacted e)"
    and "bodies_stored base st s" "writer_fits base w s" "whole_writes s"
    and "writer_Write js entry w s = (Inr (f, off, n), w1, s1)"
    and "env_fine (clock s) ops" "body_run js st (local_rotator base opts) ops (w1, s1) = (w2, s2)"
    and "opt_MaxBytes opts \<le> 0" "0 \<le> opt_ArchiveMaxAge opts"
    and "quiet s2" "clock s2 \<le> clock s + opt_ArchiveMaxAge opts"
  shows "reader_Read js st (local_reader base) f off n s2 = Inr (compacted entry)"
proof -
  have w: "local_bodies.working base st w s" using assms(3-5) by (simp add: local_working)
  from local_bodies.body_readback [OF assms(1) local_rotator_sel(1,2) _ _ w assms(6-8,11)] assms(2,9,10,12)
  show ?thesis by (auto simp: local_reader_def parse_entry_def)
qed

lemma fresh_store:
  assumes "local_ok base s" "0 \<le> clock s" "\<forall>(p, nd) \<in> set (nodes s). \<not> (\<exists>c t. nd = File c t)"
  shows "bodies_stored base st s"
proof -
  have no: "fs_node s p \<noteq> Some (File c t)" for p c t
    using fs_tree_mem [OF local_okD(1) [OF assms(1)], of p "File c t"] assms(3) by (auto simp: fs_node_def)
  have "cur_file (base @ [''current'']) s = Map.empty"
    using no by (auto simp: cur_file_def fun_eq_iff split: option.splits node.splits)
  moreover have "local_objs base s = Map.empty"
    using no by (auto simp: local_objs_def fun_eq_iff split: list.splits option.splits node.splits)
  ultimately show ?thesis
    using assms(1,2) by (auto simp: bodies_stored_def tidy_def agree_def copies_empty)
qed

section \<open>A day of a store\<close>

text \<open>A store in an empty directory, one entry, and a run in which the first promotion fails, the second
  succeeds, and a day later the file is compressed.\<close>

definition demo_body :: body_entry where
  "demo_body = \<lparr>en_ID = ''id1'', en_RequestHeaders = [], en_ResponseHeaders = [], en_RequestBody = None,
     en_ResponseBody = Some ''null''\<rparr>"

definition demo_jsonl :: jsonl where
  "demo_jsonl = \<lparr>entry_marshal = (\<lambda>e. if e = demo_body then Some ''{id1}'' else None),
     entry_unmarshal = (\<lambda>b. if b = ''{id1}'' @ [CHR 0x0A] then Some demo_body else None)\<rparr>"

definition demo_streams :: streams where
  "demo_streams = \<lparr>zstd_enc = (\<lambda>x. ''Z'' @ x), zstd_dec = (\<lambda>x. if x = [] then None else Some (tl x)),
     gzip_enc = (\<lambda>x. ''G'' @ x), gzip_dec = (\<lambda>x. if x = [] then None else Some (tl x))\<rparr>"

definition demo_disk :: fs where
  "demo_disk = \<lparr>nodes = [([''data''], Dir), ([''data'', ''current''], Dir)], clock = 5 * minute, faults = (\<lambda>_ _. False),
     short_write = 0, temp = ''7''\<rparr>"

definition demo_writer :: writer where
  "demo_writer = \<lparr>currentDir = [''data'', ''current''], current = NoHandle, currentName = [], offset = 0\<rparr>"

definition demo_options :: rotator_options where
  "demo_options = \<lparr>opt_Codec = None, opt_RecentMaxAge = 24 * hour, opt_ArchiveMaxAge = 720 * hour, opt_MaxBytes = 0,
     opt_OrphanNotifier = True\<rparr>"

definition demo_body_ops :: "body_op list" where
  "demo_body_ops =
     [OEnv (2 * hour) (\<lambda>op p. op = OpRename) 0 ''7'', ORotate,
      OEnv (3 * hour) (\<lambda>_ _. False) 0 ''8'', ORotate,
      OEnv (30 * hour) (\<lambda>_ _. False) 0 ''9'', ORotate,
      OEnv (31 * hour) (\<lambda>_ _. False) 0 ''10'']"

lemma demo_streams_ok: "streams_ok demo_streams"
  by (simp add: streams_ok_def demo_streams_def)

lemma demo_disk_stored: "bodies_stored [''data''] demo_streams demo_disk"
  by (rule fresh_store)
    (simp_all add: local_ok_def fs_tree_def demo_disk_def fs_node_def tier_node_def area_ok_def tier_ok_def is_digit_def
      duration_defs)

lemma demo_writer_fits: "writer_fits [''data''] demo_writer s"
  by (simp add: writer_fits_def demo_writer_def)

definition demo_written :: "writer \<times> fs" where
  "demo_written = snd (writer_Write demo_jsonl demo_body demo_writer demo_disk)"

lemma demo_write:
  "writer_Write demo_jsonl demo_body demo_writer demo_disk = (Inr (''1970-01-01-00.jsonl'', 0, 6), demo_written)"
  unfolding demo_written_def by (simp add: prod_eq_iff) code_simp

definition demo_day :: "writer \<times> fs" where
  "demo_day = body_run demo_jsonl demo_streams (local_rotator [''data''] demo_options) demo_body_ops demo_written"

lemma body_exec_env:
  "body_exec js st r (OEnv t flt m x) ws = (fst ws, (snd ws)\<lparr>clock := t, faults := flt, short_write := m, temp := x\<rparr>)"
  by (cases ws) simp

lemma demo_day_last:
  "faults (snd demo_day) = (\<lambda>_ _. False)" "clock (snd demo_day) = 31 * hour" "temp (snd demo_day) = ''10''"
  by (simp_all add: demo_day_def demo_body_ops_def body_run_def body_exec_env)

lemma demo_day_nodes:
  "nodes (snd demo_day) =
     [([''data'', ''archive'', ''1970-01-01-00.jsonl.zst''], File (''Z{id1}'' @ [CHR 0x0A]) (30 * hour)),
      ([''data'', ''archive''], Dir), ([''data'', ''recent''], Dir), ([''data''], Dir), ([''data'', ''current''], Dir)]"
  by code_simp

theorem bodies_readback_witness:
  "reader_Read demo_jsonl demo_streams (local_reader [''data'']) ''1970-01-01-00.jsonl'' 0 6 (snd demo_day) = Inr demo_body"
proof -
  have law: "entry_marshal demo_jsonl e = Some l \<Longrightarrow> entry_unmarshal demo_jsonl (l @ [CHR 0x0A]) = Some ((\<lambda>e. e) e)" for e l
    by (auto simp: demo_jsonl_def split: if_splits)
  have q: "quiet (snd demo_day)"
    by (simp add: quiet_def demo_day_last demo_day_nodes temp_file_def)
  have fine: "env_fine (clock demo_disk) demo_body_ops"
    by (simp add: demo_disk_def demo_body_ops_def is_digit_def duration_defs)
  have whole: "whole_writes demo_disk" by (simp add: whole_writes_def demo_disk_def)
  have wr: "writer_Write demo_jsonl demo_body demo_writer demo_disk =
      (Inr (''1970-01-01-00.jsonl'', 0, 6), fst demo_written, snd demo_written)"
    by (simp add: demo_write)
  have run: "body_run demo_jsonl demo_streams (local_rotator [''data''] demo_options) demo_body_ops
      (fst demo_written, snd demo_written) = (fst demo_day, snd demo_day)"
    by (simp add: demo_day_def)
  have opts: "opt_MaxBytes demo_options \<le> 0" "0 \<le> opt_ArchiveMaxAge demo_options"
    "clock (snd demo_day) \<le> clock demo_disk + opt_ArchiveMaxAge demo_options"
    by (simp_all add: demo_options_def demo_day_last demo_disk_def duration_defs)
  from bodies_readback [OF demo_streams_ok law demo_disk_stored demo_writer_fits whole wr fine run opts(1,2) q opts(3)]
  show ?thesis by simp
qed

end
