(* ===== verification/Housekeeping.thy ===== *)
theory Housekeeping
  imports Retention
begin

text \<open>
  Rotations in which no call fails: every phase succeeds, nothing stays in a tier past its age, the
  stored bytes fit the budget unless only the active file is left, and every body file that
  disappears is reported to the orphan notifier.
\<close>

lemma quiet_del: "quiet s \<Longrightarrow> quiet (del_node p s)"
  by (rule quiet_subset) (auto simp: del_node_def same_env_def)

lemma after_slash: "CHR ''/'' \<notin> set n \<Longrightarrow> after_last_slash (p @ CHR ''/'' # n) = n"
proof -
  assume "CHR ''/'' \<notin> set n"
  then have "takeWhile (\<lambda>c. c \<noteq> CHR ''/'') (rev n @ x) = rev n @ takeWhile (\<lambda>c. c \<noteq> CHR ''/'') x" for x
    by (subst takeWhile_append2) auto
  then show ?thesis by (simp add: after_last_slash_def)
qed

lemma base_name:
  assumes "body_name f"
  shows "baseFileName (recent_key f) = f" "baseFileName (archive_key f cdc) = f"
proof -
  obtain p where p: "f = p @ ''.jsonl''" using assms by (auto simp: body_name_def has_suffix_iff)
  have n: "CHR ''/'' \<notin> set f" "CHR ''/'' \<notin> set (f @ Extension cdc)"
    using assms name_ok_ext [of f cdc] by (simp_all add: body_name_def name_ok_def)
  have r: "after_last_slash (recent_key f) = f"
    using after_slash [OF n(1), of "''recent''"] by (simp add: recent_key_def)
  have a: "after_last_slash (archive_key f cdc) = f @ Extension cdc"
    using after_slash [OF n(2), of "''archive''"] by (simp add: archive_key_def)
  show "baseFileName (recent_key f) = f" unfolding baseFileName_def r Let_def by (simp add: p has_suffix_def)
  show "baseFileName (archive_key f cdc) = f"
    unfolding baseFileName_def a Let_def by (cases cdc) (simp_all add: p has_suffix_def trim_suffix_def)
qed

context body_dir
begin

lemma promote_quiet:
  assumes "stored s" "quiet s" "ro_backend r = b" "ro_dir r = dir" "active = hourlyFileName (clock s)"
    "distinct (map fst es)" "\<forall>(n, nd) \<in> set es. nd \<noteq> Dir \<and> cur_file dir s n \<noteq> None"
    "promote_files r active es s = (x, s')"
  shows "x \<and> quiet s' \<and> (\<forall>n. cur_file dir s' n = (if n \<in> fst ` set es \<and> n \<noteq> active then None else cur_file dir s n)) \<and>
    (\<forall>k. temp_key k \<longrightarrow> objs s' k = objs s k)"
  using assms
proof (induction es arbitrary: s)
  case Nil
  then show ?case by simp
next
  case (Cons e es)
  obtain n nd where e: "e = (n, nd)" by fastforce
  have nd: "nd \<noteq> Dir" "cur_file dir s n \<noteq> None" using Cons.prems(7) e by auto
  then obtain c t where cur: "cur_file dir s n = Some (c, t)" by auto
  have rest: "distinct (map fst es)" "n \<notin> fst ` set es" using Cons.prems(6) e by auto
  have suffix: "has_suffix n ''.jsonl''"
    using tidy_body_name [OF storedD(2) [OF Cons.prems(1)] nd(2)] by (simp add: body_name_def)
  show ?case
  proof (cases "n = active")
    case True
    then have "promote_files r active es s = (x, s')" using Cons.prems(8) e by simp
    moreover have "\<forall>(n, nd) \<in> set es. nd \<noteq> Dir \<and> cur_file dir s n \<noteq> None" using Cons.prems(7) by simp
    ultimately show ?thesis using Cons.IH [OF Cons.prems(1-5) rest(1)] e True rest(2) by auto
  next
    case False
    note ok = storedD(1) [OF Cons.prems(1)]
    have tree: "fs_tree s" "fs_node s dir = Some Dir" using dir_tree [OF ok] by auto
    have na: "n \<noteq> hourlyFileName (clock s)" using False Cons.prems(5) by simp
    have bn: "body_name n" by (rule tidy_body_name [OF storedD(2) [OF Cons.prems(1)] nd(2)])
    note bk = body_name_keys [OF bn]
    obtain s1 where put: "be_Put b (recent_key n) (Inr c) s = (None, s1)" and q1: "quiet s1"
      using put_quiet [OF ok bk(1) Cons.prems(2), of c] bk(3) by blast
    note m1 = promote_one(1) [OF Cons.prems(1) cur na put]
    then have s1: "stored s1" by (simp add: moved_def)
    have cur1: "cur_file dir s1 = cur_file dir s" by (rule put_cur [OF ok bk(1) put])
    obtain re s2 where rm: "os_Remove (dir @ [n]) s1 = (re, s2)" by fastforce
    have "re = None \<and> s2 = del_node (dir @ [n]) s1"
      using remove_cur [OF _ _ _ rm, of "(c, t)"] dir_tree [OF storedD(1) [OF s1]] cur cur1 quietD [OF q1] by auto
    then have re: "re = None" and s2: "s2 = del_node (dir @ [n]) s1" by auto
    have m2: "moved s s2" by (rule promote_one(2) [OF Cons.prems(1) cur na put refl rm])
    have st2: "stored s2" "clock s2 = clock s" using m2 by (simp_all add: moved_def same_env_def)
    have cur2: "cur_file dir s2 = (cur_file dir s)(n := None)" by (simp add: s2 cur1)
    have "promote_files r active es s2 = (x, s')"
      using Cons.prems(3,4,8) e nd(1) False suffix read_file_cur(2) [OF tree Cons.prems(2) cur] put rm re
      by (simp add: recent_key_def)
    moreover have "\<forall>(n, nd) \<in> set es. nd \<noteq> Dir \<and> cur_file dir s2 n \<noteq> None"
      using Cons.prems(7) rest(2) by (force simp: cur2)
    moreover have "quiet s2" unfolding s2 by (rule quiet_del [OF q1])
    moreover have "active = hourlyFileName (clock s2)" using Cons.prems(5) st2(2) by simp
    ultimately have "x \<and> quiet s' \<and>
        (\<forall>m. cur_file dir s' m = (if m \<in> fst ` set es \<and> m \<noteq> active then None else cur_file dir s2 m)) \<and>
        (\<forall>k. temp_key k \<longrightarrow> objs s' k = objs s2 k)"
      using Cons.IH [OF st2(1) _ Cons.prems(3,4) _ rest(1)] by blast
    moreover have "objs s2 k = objs s k" if "temp_key k" for k
      using put_done [OF ok bk(1) put] cur_del [OF storedD(1) [OF s1], of n] cur cur1 bk(3) that s2 by auto
    ultimately show ?thesis using cur2 e False by auto
  qed
qed


lemma promote_phase_quiet:
  assumes "stored s" "quiet s" "ro_backend r = b" "ro_dir r = dir" "promoteCurrentToRecent r s = (x, s')"
  shows "x" "quiet s'" "cur_file dir s' n \<noteq> None \<Longrightarrow> n = hourlyFileName (clock s)"
    and "temp_key k \<Longrightarrow> objs s' k = objs s k"
proof -
  have tree: "fs_tree s" "fs_node s dir = Some Dir" using dir_tree [OF storedD(1) [OF assms(1)]] by auto
  obtain es where es: "os_ReadDir s dir = Inr es" using read_dir_quiet [OF tree assms(2)] by blast
  note rd = read_dir_done [OF tree es]
  have "nd \<noteq> Dir \<and> cur_file dir s n \<noteq> None" if "(n, nd) \<in> set es" for n nd
    using that rd(1) [of n nd] dir_files [OF storedD(1) [OF assms(1)], of n nd] fs_tree_node(2) [OF tree(1), of dir n nd]
    by (cases nd) (auto simp: cur_file_def)
  then have all: "\<forall>(n, nd) \<in> set es. nd \<noteq> Dir \<and> cur_file dir s n \<noteq> None" by blast
  have pf: "promote_files r (hourlyFileName (clock s)) es s = (x, s')"
    using assms(4,5) es by (simp add: promoteCurrentToRecent_def)
  note q = promote_quiet [OF assms(1-4) refl rd(2) all pf]
  show "x" "quiet s'" using q by auto
  show "temp_key k \<Longrightarrow> objs s' k = objs s k" using q by blast
  assume n: "cur_file dir s' n \<noteq> None"
  then have "cur_file dir s n \<noteq> None" using q by (metis (full_types))
  then obtain nd where "(n, nd) \<in> set es" using rd(1) by (auto simp: cur_file_def split: option.splits)
  then have "n \<in> fst ` set es" by force
  then show "n = hourlyFileName (clock s)" using q n by (metis (full_types))
qed

end

section \<open>Compression and expiry\<close>

context body_dir
begin

text \<open>No left-over temporary file looks like a body file.\<close>

definition plain :: "'a fs_scheme \<Rightarrow> bool" where
  "plain s \<longleftrightarrow> (\<forall>k. has_suffix k ''.jsonl'' \<and> temp_key k \<longrightarrow> objs s k = None)"

lemma recent_body_name:
  assumes "has_prefix k ''recent/''" "has_suffix k ''.jsonl''" "body_key k" "\<not> temp_key k"
  obtains f where "k = recent_key f" "body_name f"
proof -
  obtain f where kf: "k = recent_key f" using assms(1) by (auto simp: has_prefix_iff recent_key_def)
  obtain p where "recent_key f = p @ ''.jsonl''" using assms(2) kf by (auto simp: has_suffix_iff)
  then have suf: "has_suffix f ''.jsonl''"
    by (auto simp: recent_key_def has_suffix_iff append_eq_append_conv2 Cons_eq_append_conv)
  have nm: "name_ok f"
    using assms(3) by (auto simp: kf recent_key_def elim!: body_keyE) (auto simp: tier_ok_def)
  have "\<not> temp_name f" using body_keys(3) [OF nm suf] assms(4) kf by simp
  then show thesis using that kf nm suf by (auto simp: body_name_def)
qed

lemma compress_one_quiet:
  assumes s: "ok s" "quiet s" "plain s" and r: "ro_backend r = b" "ro_codec r = cdc"
    and k: "has_prefix k ''recent/''" "has_suffix k ''.jsonl''" "body_key k" "objs s k = Some (c, t)"
  obtains s1 s2 where
    "compressObject st r k (''archive/'' @ trim_prefix k ''recent/'' @ Extension cdc) s = (True, s1)"
    "be_Delete b [k] s1 = (None, s2)" "ok s2" "quiet s2" "plain s2" "cur_file dir s2 = cur_file dir s"
    "\<And>k'. has_prefix k' ''recent/'' \<Longrightarrow> objs s2 k' = (if k' = k then None else objs s k')"
proof -
  have "\<not> temp_key k" using s(3) k(2,4) by (auto simp: plain_def)
  from recent_body_name [OF k(1-3) this] obtain f where f: "k = recent_key f" "body_name f" .
  note keys = body_name_keys [OF f(2)]
  have dst: "''archive/'' @ trim_prefix k ''recent/'' @ Extension cdc = archive_key f cdc"
    by (simp add: f recent_key_def archive_key_def trim_prefix_def)
  have get: "be_Get b k 0 0 s = Inr c"
    using get_quiet [OF s(1) k(3) s(2), of 0 0] k(4) by (simp add: byte_range_def)
  obtain s1 where put: "be_Put b (archive_key f cdc) (Inr (encode st cdc c)) s = (None, s1)" and q1: "quiet s1"
    using put_quiet [OF s(1) keys(2) s(2)] keys(4) by blast
  note ok1 = put_env [OF s(1) keys(2) put, THEN conjunct1]
  have o1: "objs s1 = (objs s)(archive_key f cdc \<mapsto> (encode st cdc c, clock s))"
    using put_done [OF s(1) keys(2)] put by blast
  have ks: "list_all body_key [k]" using k(3) by simp
  obtain s2 where del: "be_Delete b [k] s1 = (None, s2)" and q2: "quiet s2"
    using delete_quiet [OF ok1 ks q1] by blast
  have o2: "objs s2 k' = (if k' = k then None else objs s1 k')" for k'
    using delete_objs [OF ok1 ks del, of k'] delete_done [OF ok1 ks del, of k'] by auto
  have pl: "plain s2" using s(3) keys(4) unfolding plain_def o2 o1 by auto
  have "has_prefix k' ''recent/'' \<Longrightarrow> k' \<noteq> archive_key f cdc" for k'
    by (auto simp: archive_key_def)
  then have rec: "has_prefix k' ''recent/'' \<Longrightarrow> objs s2 k' = (if k' = k then None else objs s k')" for k'
    by (simp add: o2 o1)
  have "cur_file dir s2 = cur_file dir s"
    using delete_cur [OF ok1 ks del] put_cur [OF s(1) keys(2) put] by simp
  moreover have "compressObject st r k (''archive/'' @ trim_prefix k ''recent/'' @ Extension cdc) s = (True, s1)"
    unfolding dst compressObject_def using get put r by simp
  ultimately show thesis
    using that del delete_env [OF ok1 ks del] q2 pl rec by blast
qed

lemma compress_quiet:
  assumes "ok s" "quiet s" "plain s" "ro_backend r = b"
    "\<forall>ob \<in> set obs. has_prefix (ob_Key ob) ''recent/'' \<and> body_key (ob_Key ob) \<and> (\<exists>c. objs s (ob_Key ob) = Some (c, ob_ModTime ob))"
    "distinct (map ob_Key obs)" "compress_objects st r cutoff obs s = (x, s')"
  shows "x \<and> ok s' \<and> quiet s' \<and> cur_file dir s' = cur_file dir s \<and>
    (\<forall>k. has_prefix k ''recent/'' \<longrightarrow> objs s' k =
       (if \<exists>ob \<in> set obs. ob_Key ob = k \<and> has_suffix k ''.jsonl'' \<and> ob_ModTime ob \<le> cutoff then None else objs s k))"
  using assms
proof (induction obs arbitrary: s)
  case Nil
  then show ?case by simp
next
  case (Cons ob obs)
  show ?case
  proof (cases "\<not> has_suffix (ob_Key ob) ''.jsonl'' \<or> cutoff < ob_ModTime ob")
    case True
    then have "compress_objects st r cutoff obs s = (x, s')" using Cons.prems(7) by auto
    from Cons.IH [OF Cons.prems(1-4) _ _ this] Cons.prems(5,6) True show ?thesis by auto
  next
    case False
    let ?k = "ob_Key ob"
    obtain c where k: "has_prefix ?k ''recent/''" "has_suffix ?k ''.jsonl''" "body_key ?k" "objs s ?k = Some (c, ob_ModTime ob)"
      using Cons.prems(5) False by auto
    obtain s1 s2 where cp: "compressObject st r ?k (''archive/'' @ trim_prefix ?k ''recent/'' @ Extension (ro_codec r)) s = (True, s1)"
      "be_Delete b [?k] s1 = (None, s2)" "ok s2" "quiet s2" "plain s2" "cur_file dir s2 = cur_file dir s"
      "\<And>k'. has_prefix k' ''recent/'' \<Longrightarrow> objs s2 k' = (if k' = ?k then None else objs s k')"
      by (rule compress_one_quiet [OF Cons.prems(1-4) refl k]) blast
    have run: "compress_objects st r cutoff obs s2 = (x, s')"
      using Cons.prems(4,7) False cp(1,2) by simp
    have new: "ob_Key ob' \<noteq> ?k" if "ob' \<in> set obs" for ob'
      using Cons.prems(6) that imageI [OF that, of ob_Key] by (metis distinct.simps(2) list.set_map list.simps(9))
    then have "\<forall>ob \<in> set obs. has_prefix (ob_Key ob) ''recent/'' \<and> body_key (ob_Key ob) \<and> (\<exists>c. objs s2 (ob_Key ob) = Some (c, ob_ModTime ob))"
      using Cons.prems(5) cp(7) by simp
    from Cons.IH [OF cp(3-5) Cons.prems(4) this _ run] Cons.prems(6) cp(6,7) new False
    show ?thesis by auto
  qed
qed

lemma compress_phase_quiet:
  assumes "ok s" "quiet s" "plain s" "ro_backend r = b" "compressToArchive st r s = (x, s')"
  shows "x" "ok s'" "quiet s'" "cur_file dir s' = cur_file dir s"
    and "has_suffix k ''.jsonl'' \<Longrightarrow> has_prefix k ''recent/'' \<Longrightarrow> objs s' k = Some (c, t) \<Longrightarrow> clock s - ro_recentMaxAge r < t"
proof -
  obtain os where os: "be_List b ''recent/'' s = Inr os"
    using list_quiet [OF assms(1) _ assms(2), of "''recent''"] by (auto simp: tier_ok_def)
  note l = list_tier [OF assms(1) _ os, of "''recent''"]
  have all: "\<forall>ob \<in> set os. has_prefix (ob_Key ob) ''recent/'' \<and> body_key (ob_Key ob) \<and> (\<exists>c. objs s (ob_Key ob) = Some (c, ob_ModTime ob))"
    using l(2,3) by blast
  have d: "distinct (map ob_Key os)" using l(1) by blast
  have "compress_objects st r (clock s - ro_recentMaxAge r) os s = (x, s')"
    using assms(4,5) os by (simp add: compressToArchive_def)
  note q = compress_quiet [OF assms(1-4) all d this]
  show "x" "ok s'" "quiet s'" "cur_file dir s' = cur_file dir s" using q by blast+
  assume k: "has_suffix k ''.jsonl''" "has_prefix k ''recent/''" "objs s' k = Some (c, t)"
  then have sk: "objs s k = Some (c, t)" using q by (metis option.distinct(1))
  have "\<lparr>ob_Key = k, ob_Size = int (length c), ob_ModTime = t\<rparr> \<in> set os" using l(4) [OF _ k(2) sk] by simp
  then have "\<not> t \<le> clock s - ro_recentMaxAge r \<or> objs s' k = None"
    using q k(1,2) by (metis object.select_convs(1,3))
  then show "clock s - ro_recentMaxAge r < t" using k(3) by auto
qed

lemma purge_quiet:
  assumes "ok s" "quiet s" "ro_backend r = b" "purgeExpired r s = (x, ns, s')"
  shows "x" "quiet s'"
    and "has_prefix k ''archive/'' \<Longrightarrow> objs s' k = Some (c, t) \<Longrightarrow> clock s - ro_archiveMaxAge r \<le> t"
    and "objs s k \<noteq> None \<Longrightarrow> objs s' k = None \<Longrightarrow> ro_notifier r \<Longrightarrow> baseFileName k \<in> set (concat ns)"
proof -
  obtain os where os: "be_List b ''archive/'' s = Inr os"
    using list_quiet [OF assms(1) _ assms(2), of "''archive''"] by (auto simp: tier_ok_def)
  note l = list_tier [OF assms(1) _ os, of "''archive''"]
  define ex where "ex = filter (\<lambda>ob. ob_ModTime ob < clock s - ro_archiveMaxAge r) os"
  have ks: "list_all body_key (map ob_Key ex)" using l(2) by (auto simp: list_all_iff ex_def)
  obtain s1 where del: "be_Delete b (map ob_Key ex) s = (None, s1)" and q1: "quiet s1"
    using delete_quiet [OF assms(1) ks assms(2)] by blast
  have run: "x = True \<and> ns = (if ex = [] then [] else notifyOrphans r (map (\<lambda>ob. baseFileName (ob_Key ob)) ex)) \<and>
      s' = (if ex = [] then s else s1)"
    using assms(3,4) os del by (auto simp: purgeExpired_def Let_def ex_def [symmetric])
  have o: "objs s' k = (if k \<in> set (map ob_Key ex) then None else objs s k)" for k
    using run delete_objs [OF assms(1) ks del, of k] delete_done [OF assms(1) ks del, of k] by auto
  show "x" "quiet s'" using run q1 assms(2) by auto
  show "clock s - ro_archiveMaxAge r \<le> t" if "has_prefix k ''archive/''" "objs s' k = Some (c, t)"
  proof (rule ccontr)
    assume "\<not> clock s - ro_archiveMaxAge r \<le> t"
    moreover have "objs s k = Some (c, t)" using o [of k] that(2) by (auto split: if_splits)
    ultimately have "\<lparr>ob_Key = k, ob_Size = int (length c), ob_ModTime = t\<rparr> \<in> set ex"
      using l(4) [OF _ that(1)] by (simp add: ex_def)
    then have "k \<in> set (map ob_Key ex)" by force
    then show False using o [of k] that(2) by simp
  qed
  assume "objs s k \<noteq> None" "objs s' k = None" "ro_notifier r"
  then have "k \<in> set (map ob_Key ex)" using o [of k] by (auto split: if_splits)
  then show "baseFileName k \<in> set (concat ns)"
    using run \<open>ro_notifier r\<close> by (auto simp: notifyOrphans_def)
qed

end

section \<open>Eviction\<close>

context body_dir
begin

text \<open>The items of a state: its active files and its objects.\<close>

definition cur_item :: "string \<Rightarrow> string \<Rightarrow> time \<Rightarrow> inventory_item" where
  "cur_item n c t = \<lparr>iv_file = n, iv_key = [], iv_localPath = Some (dir @ [n]), iv_size = int (length c), iv_modTime = t\<rparr>"

definition obj_item :: "string \<Rightarrow> string \<Rightarrow> time \<Rightarrow> inventory_item" where
  "obj_item k c t = object_item \<lparr>ob_Key = k, ob_Size = int (length c), ob_ModTime = t\<rparr>"

definition present :: "'a fs_scheme \<Rightarrow> inventory_item \<Rightarrow> bool" where
  "present s it \<longleftrightarrow> (\<exists>n c t. cur_file dir s n = Some (c, t) \<and> it = cur_item n c t) \<or>
     (\<exists>k c t. objs s k = Some (c, t) \<and> it = obj_item k c t)"

lemma item_sel [simp]:
  "iv_file (cur_item n c t) = n" "iv_localPath (cur_item n c t) = Some (dir @ [n])" "iv_size (cur_item n c t) = int (length c)"
  "iv_modTime (cur_item n c t) = t" "iv_key (obj_item k c t) = k" "iv_localPath (obj_item k c t) = None"
  "iv_size (obj_item k c t) = int (length c)" "iv_modTime (obj_item k c t) = t" "iv_file (obj_item k c t) = baseFileName k"
  by (simp_all add: cur_item_def obj_item_def object_item_def)

lemma present_iff:
  "present s it \<longleftrightarrow>
     (case iv_localPath it of
        Some p \<Rightarrow> (\<exists>c t. cur_file dir s (iv_file it) = Some (c, t) \<and> it = cur_item (iv_file it) c t)
      | None \<Rightarrow> (\<exists>c t. objs s (iv_key it) = Some (c, t) \<and> it = obj_item (iv_key it) c t))"
proof (cases "iv_localPath it")
  case None
  then have "it \<noteq> cur_item n c t" for n c t by auto
  moreover have "(\<exists>k c t. objs s k = Some (c, t) \<and> it = obj_item k c t) \<longleftrightarrow>
      (\<exists>c t. objs s (iv_key it) = Some (c, t) \<and> it = obj_item (iv_key it) c t)" by (metis item_sel(5))
  ultimately show ?thesis unfolding present_def using None by simp
next
  case (Some p)
  then have "it \<noteq> obj_item k c t" for k c t by auto
  moreover have "(\<exists>n c t. cur_file dir s n = Some (c, t) \<and> it = cur_item n c t) \<longleftrightarrow>
      (\<exists>c t. cur_file dir s (iv_file it) = Some (c, t) \<and> it = cur_item (iv_file it) c t)" by (metis item_sel(1))
  ultimately show ?thesis unfolding present_def using Some by simp
qed

lemma present_drop:
  assumes "present s it" "\<And>n. cur_file dir s1 n = (if iv_localPath it \<noteq> None \<and> n = iv_file it then None else cur_file dir s n)"
    "\<And>k. objs s1 k = (if iv_localPath it = None \<and> k = iv_key it then None else objs s k)"
  shows "present s1 it' \<longleftrightarrow> present s it' \<and> it' \<noteq> it"
proof -
  have "it' = it" if "present s it'" "iv_localPath it' \<noteq> None" "iv_localPath it \<noteq> None" "iv_file it' = iv_file it"
    using that assms(1) unfolding present_iff by (auto split: option.splits)
  moreover have "it' = it" if "present s it'" "iv_localPath it' = None" "iv_localPath it = None" "iv_key it' = iv_key it"
    using that assms(1) unfolding present_iff by (auto split: option.splits)
  ultimately show ?thesis
    unfolding present_iff [of s1] present_iff [of s it'] assms(2,3)
    by (cases "iv_localPath it'"; cases "iv_localPath it") (auto simp: present_iff [of s it'])
qed

lemma objs_tier: "ok s \<Longrightarrow> objs s k \<noteq> None \<Longrightarrow> has_prefix k ''recent/'' \<or> has_prefix k ''archive/''"
  using objs_key [of s k] by (force elim!: body_keyE simp: tier_ok_def has_prefix_iff)

lemma tier_objects:
  assumes "ok s" "t = ''recent'' \<and> p = ''recent/'' \<or> t = ''archive'' \<and> p = ''archive/''" "be_List b p s = Inr os"
  shows "it \<in> object_item ` set os \<longleftrightarrow> (\<exists>k c u. has_prefix k p \<and> objs s k = Some (c, u) \<and> it = obj_item k c u)"
    and "distinct (map object_item os)"
proof -
  note l = list_tier [OF assms]
  show "it \<in> object_item ` set os \<longleftrightarrow> (\<exists>k c u. has_prefix k p \<and> objs s k = Some (c, u) \<and> it = obj_item k c u)"
  proof
    assume "it \<in> object_item ` set os"
    then obtain ob where ob: "ob \<in> set os" "it = object_item ob" by blast
    with l(2,3) [OF ob(1)] show "\<exists>k c u. has_prefix k p \<and> objs s k = Some (c, u) \<and> it = obj_item k c u"
      by (auto simp: obj_item_def object_item_def)
  qed (use l(4) in \<open>force simp: obj_item_def\<close>)
  have key: "iv_key (object_item ob) = ob_Key ob" for ob by (simp add: object_item_def)
  show "distinct (map object_item os)"
    using l(1) distinct_map [of iv_key "map object_item os"] by (simp add: comp_def key)
qed

lemma inventory_quiet:
  assumes s: "stored s" "quiet s" and r: "ro_backend r = b" "ro_dir r = dir"
  obtains items where "sizeInventory r s = Some (items, \<Sum>it \<in> set items. iv_size it)" "sorted (map iv_modTime items)"
    "distinct items" "set items = Collect (present s)"
proof -
  note ok = storedD(1) [OF s(1)]
  have tree: "fs_tree s" "fs_node s dir = Some Dir" using dir_tree [OF ok] by auto
  obtain es where es: "os_ReadDir s dir = Inr es" using read_dir_quiet [OF tree s(2)] by blast
  obtain rs as where rs: "be_List b ''recent/'' s = Inr rs" and as: "be_List b ''archive/'' s = Inr as"
    using list_quiet [OF ok _ s(2), of "''recent''"] list_quiet [OF ok _ s(2), of "''archive''"] by (auto simp: tier_ok_def)
  note rd = read_dir_done [OF tree es]
  note ro = tier_objects [OF ok _ rs, of "''recent''"] and ao = tier_objects [OF ok _ as, of "''archive''"]
  define xs where "xs = local_items dir es @ map object_item rs @ map object_item as"
  have loc: "it \<in> set (local_items dir es) \<longleftrightarrow> (\<exists>n c t. cur_file dir s n = Some (c, t) \<and> it = cur_item n c t)" for it
  proof
    assume "it \<in> set (local_items dir es)"
    then obtain n nd where n: "(n, nd) \<in> set es" "nd \<noteq> Dir"
      "it = \<lparr>iv_file = n, iv_key = [], iv_localPath = Some (dir @ [n]), iv_size = node_size nd, iv_modTime = node_time nd\<rparr>"
      by (auto simp: local_items_def)
    then obtain c t where "nd = File c t"
      using rd(1) [of n nd] fs_tree_node(2) [OF tree(1), of dir n nd] by (cases nd) auto
    then show "\<exists>n c t. cur_file dir s n = Some (c, t) \<and> it = cur_item n c t"
      using n rd(1) by (force simp: cur_file_Some cur_item_def node_size_def node_time_def)
  next
    assume "\<exists>n c t. cur_file dir s n = Some (c, t) \<and> it = cur_item n c t"
    then obtain n c t where n: "cur_file dir s n = Some (c, t)" "it = cur_item n c t" by blast
    then have "(n, File c t) \<in> set es" using rd(1) by (simp add: cur_file_Some)
    moreover have "has_suffix n ''.jsonl''"
      using tidy_body_name [OF storedD(2) [OF s(1)], of n] n(1) by (simp add: body_name_def)
    ultimately show "it \<in> set (local_items dir es)"
      by (force simp: local_items_def n(2) cur_item_def node_size_def node_time_def)
  qed
  have "map iv_file (local_items dir es) = map fst (filter (\<lambda>(n, nd). nd \<noteq> Dir \<and> has_suffix n ''.jsonl'') es)"
    by (simp add: local_items_def comp_def case_prod_beta)
  then have "distinct (map iv_file (local_items dir es))" using rd(2) by (simp add: distinct_map_filter)
  then have dl: "distinct (local_items dir es)" by (simp add: distinct_map)
  have "iv_localPath it \<noteq> None" if "it \<in> set (local_items dir es)" for it
    using that by (auto simp: local_items_def)
  moreover have "iv_localPath (object_item ob) = None" for ob by (simp add: object_item_def)
  ultimately have lo: "set (local_items dir es) \<inter> (object_item ` set rs \<union> object_item ` set as) = {}"
    by (force simp: disjoint_iff)
  have "has_prefix (iv_key it) ''recent/''" if "it \<in> object_item ` set rs" for it
    using that ro(1) [of it] by auto
  moreover have "has_prefix (iv_key it) ''archive/''" if "it \<in> object_item ` set as" for it
    using that ao(1) [of it] by auto
  moreover have "\<not> (has_prefix k ''recent/'' \<and> has_prefix k ''archive/'')" for k by (auto simp: has_prefix_iff)
  ultimately have "object_item ` set rs \<inter> object_item ` set as = {}" by blast
  then have "distinct xs" using dl ro(2) ao(2) lo by (simp add: xs_def Int_Un_distrib)
  moreover have "it \<in> set xs \<longleftrightarrow> present s it" for it
  proof -
    define R A where tiers: "R = (\<lambda>k. has_prefix k ''recent/'')" "A = (\<lambda>k. has_prefix k ''archive/'')"
    have "it \<in> set xs \<longleftrightarrow> (\<exists>n c t. cur_file dir s n = Some (c, t) \<and> it = cur_item n c t) \<or>
        (\<exists>k c u. (R k \<or> A k) \<and> objs s k = Some (c, u) \<and> it = obj_item k c u)"
      unfolding xs_def set_append set_map Un_iff loc 
        ro(1) [simplified, folded tiers(1) [THEN fun_cong]] ao(1) [simplified, folded tiers(2) [THEN fun_cong]] by blast
    moreover have "R k \<or> A k" if "objs s k = Some (c, u)" for k c u
      using objs_tier [OF ok, of k] that by (simp add: tiers)
    ultimately show ?thesis unfolding present_def by metis
  qed
  then have "set xs = Collect (present s)" by blast
  moreover have "sizeInventory r s = Some (sort_key iv_modTime xs, sum_list (map iv_size xs))"
    using r es rs as by (simp add: sizeInventory_def xs_def Let_def)
  ultimately show thesis using that [of "sort_key iv_modTime xs"] by (simp add: sum_list_distinct_conv_sum_set)
qed

lemma evict_one_quiet:
  assumes s: "ok s" "quiet s" and r: "ro_backend r = b" and it: "present s it"
  obtains s1 where
    "(case iv_localPath it of
        Some p \<Rightarrow> (case os_Remove p s of (Some OsError, s1) \<Rightarrow> (False, s1) | (_, s1) \<Rightarrow> (True, s1))
      | None \<Rightarrow> (case be_Delete (ro_backend r) [iv_key it] s of (Some e, s1) \<Rightarrow> (False, s1) | (None, s1) \<Rightarrow> (True, s1)))
     = (True, s1)" "ok s1" "quiet s1" "clock s1 = clock s" "\<And>it'. present s1 it' \<longleftrightarrow> present s it' \<and> it' \<noteq> it"
  using it [unfolded present_def]
proof (elim disjE exE conjE)
  fix n c t assume n: "cur_file dir s n = Some (c, t)" "it = cur_item n c t"
  obtain re s1 where rm: "os_Remove (dir @ [n]) s = (re, s1)" by fastforce
  have s1: "re = None" "s1 = del_node (dir @ [n]) s"
    using remove_active_dir [OF s(1) rm] n(1) quietD [OF s(2)] by auto
  have o: "ok s1" "objs s1 = objs s" using cur_del [OF s(1), of n] n(1) s1(2) by auto
  have "present s1 it' \<longleftrightarrow> present s it' \<and> it' \<noteq> it" for it'
    by (rule present_drop [OF it]) (simp_all add: n(2) s1(2) o(2) [unfolded s1(2)])
  then show thesis using that [of s1] rm s1 o(1) quiet_del [OF s(2)] n(2) by simp
next
  fix k c t assume k: "objs s k = Some (c, t)" "it = obj_item k c t"
  have ks: "list_all body_key [k]" using objs_key [OF s(1) k(1)] by simp
  obtain s1 where del: "be_Delete b [k] s = (None, s1)" and q1: "quiet s1"
    using delete_quiet [OF s(1) ks s(2)] by blast
  note env = delete_env [OF s(1) ks del] and cur = delete_cur [OF s(1) ks del]
  have o: "objs s1 k' = (if k' = k then None else objs s k')" for k'
    using delete_objs [OF s(1) ks del, of k'] delete_done [OF s(1) ks del, of k'] by auto
  have "present s1 it' \<longleftrightarrow> present s it' \<and> it' \<noteq> it" for it'
    by (rule present_drop [OF it]) (simp_all add: k(2) o cur)
  then show thesis using that [of s1] del q1 env k(2) r by (simp add: same_env_def)
qed

lemma evict_quiet:
  assumes "ok s" "quiet s" "ro_backend r = b" "\<forall>it \<in> set items. present s it" "distinct items"
    "evict_items r active items tot deleted s = (x, deleted', s')"
  shows "x \<and> ok s' \<and> quiet s' \<and> (\<exists>pre post. items = pre @ post \<and>
    (let del = filter (\<lambda>it. iv_file it \<noteq> active) pre in
     deleted' = deleted @ map iv_file del \<and> (\<forall>it. present s' it \<longleftrightarrow> present s it \<and> it \<notin> set del) \<and>
     (post = [] \<or> tot - sum_list (map iv_size del) \<le> ro_maxBytes r)))"
  using assms
proof (induction items arbitrary: s tot deleted)
  case Nil
  then show ?case by (auto simp: Let_def)
next
  case (Cons it items)
  consider "tot \<le> ro_maxBytes r" | "ro_maxBytes r < tot" "iv_file it = active" | "ro_maxBytes r < tot" "iv_file it \<noteq> active" by fastforce
  then show ?case
  proof cases
    case 1
    then show ?thesis using Cons.prems by (intro conjI exI [of _ "[]"] exI [of _ "it # items"]) (simp_all add: Let_def)
  next
    case 2
    then have "evict_items r active items tot deleted s = (x, deleted', s')" using Cons.prems(6) by simp
    with Cons.IH [OF Cons.prems(1-3) _ _ this] Cons.prems(4,5) obtain pre post where
      "x \<and> ok s' \<and> quiet s' \<and> items = pre @ post \<and>
       (let del = filter (\<lambda>it. iv_file it \<noteq> active) pre in
        deleted' = deleted @ map iv_file del \<and> (\<forall>it. present s' it \<longleftrightarrow> present s it \<and> it \<notin> set del) \<and>
        (post = [] \<or> tot - sum_list (map iv_size del) \<le> ro_maxBytes r))" by auto
    then show ?thesis using 2 by (intro conjI exI [of _ "it # pre"] exI [of _ post]) (simp_all add: Let_def)
  next
    case 3
    from Cons.prems(4) have "present s it" by simp
    then obtain s1 where s1:
      "(case iv_localPath it of
        Some p \<Rightarrow> (case os_Remove p s of (Some OsError, s1) \<Rightarrow> (False, s1) | (_, s1) \<Rightarrow> (True, s1))
      | None \<Rightarrow> (case be_Delete (ro_backend r) [iv_key it] s of (Some e, s1) \<Rightarrow> (False, s1) | (None, s1) \<Rightarrow> (True, s1)))
     = (True, s1)" "ok s1" "quiet s1" "clock s1 = clock s" "\<And>it'. present s1 it' \<longleftrightarrow> present s it' \<and> it' \<noteq> it"
      by (rule evict_one_quiet [OF Cons.prems(1-3)]) blast
    have run: "evict_items r active items (tot - iv_size it) (deleted @ [iv_file it]) s1 = (x, deleted', s')"
      using Cons.prems(6) 3 s1(1) by simp
    have "\<forall>it \<in> set items. present s1 it" using Cons.prems(4,5) s1(5) by auto
    with Cons.IH [OF s1(2,3) Cons.prems(3) _ _ run] Cons.prems(5) obtain pre post where
      *: "x" "ok s'" "quiet s'" "items = pre @ post"
        "deleted' = (deleted @ [iv_file it]) @ map iv_file (filter (\<lambda>it. iv_file it \<noteq> active) pre)"
        "post = [] \<or> tot - iv_size it - sum_list (map iv_size (filter (\<lambda>it. iv_file it \<noteq> active) pre)) \<le> ro_maxBytes r"
      and pr: "\<And>it'. present s' it' \<longleftrightarrow> present s1 it' \<and> it' \<notin> set (filter (\<lambda>it. iv_file it \<noteq> active) pre)"
      by (auto simp: Let_def)
    have f: "filter (\<lambda>it. iv_file it \<noteq> active) (it # pre) = it # filter (\<lambda>it. iv_file it \<noteq> active) pre" using 3 by simp
    have "present s' it' \<longleftrightarrow> present s it' \<and> it' \<notin> set (it # filter (\<lambda>it. iv_file it \<noteq> active) pre)" for it'
      using pr [of it'] s1(5) [of it'] by auto
    then have "let del = filter (\<lambda>it. iv_file it \<noteq> active) (it # pre) in
       deleted' = deleted @ map iv_file del \<and> (\<forall>it. present s' it \<longleftrightarrow> present s it \<and> it \<notin> set del) \<and>
       (post = [] \<or> tot - sum_list (map iv_size del) \<le> ro_maxBytes r)"
      unfolding f Let_def using *(5,6) by (simp add: algebra_simps)
    moreover have "it # items = (it # pre) @ post" using *(4) by simp
    ultimately show ?thesis using *(1-3) by (intro conjI exI)
  qed
qed

lemma evict_phase_quiet:
  assumes s: "stored s" "quiet s" and r: "ro_backend r = b" "ro_dir r = dir" and ev: "evictBySize r s = (x, ns, s')"
  shows "x" "quiet s'"
    and "present s it \<Longrightarrow> \<not> present s' it \<Longrightarrow> ro_notifier r \<Longrightarrow> iv_file it \<in> set (concat ns)"
    and "0 < ro_maxBytes r \<Longrightarrow> \<exists>items items' tot tot'. sizeInventory r s = Some (items, tot) \<and> sizeInventory r s' = Some (items', tot') \<and>
      set items' \<subseteq> set items \<and> (tot' \<le> ro_maxBytes r \<or> (\<forall>it \<in> set items'. iv_file it = hourlyFileName (clock s))) \<and>
      (\<forall>d \<in> set items - set items'. iv_file d \<noteq> hourlyFileName (clock s) \<and>
         (\<forall>k \<in> set items'. iv_file k \<noteq> hourlyFileName (clock s) \<longrightarrow> iv_modTime d \<le> iv_modTime k)) \<and>
      (tot \<le> ro_maxBytes r \<longrightarrow> s' = s)"
proof -
  let ?a = "hourlyFileName (clock s)"
  obtain items where inv: "sizeInventory r s = Some (items, \<Sum>it \<in> set items. iv_size it)" "sorted (map iv_modTime items)"
    "distinct items" "set items = Collect (present s)"
    by (rule inventory_quiet [OF s r])
  let ?tot = "\<Sum>it \<in> set items. iv_size it"
  have st': "stored s'" by (rule dropped_stored(1) [OF s(1) evictBySize_dropped(1) [OF storedD(1) [OF s(1)] r ev]])
  let ?kept = "\<lambda>items'. set items' \<subseteq> set items \<and>
      (\<forall>d \<in> set items - set items'. iv_file d \<noteq> ?a \<and> (\<forall>k \<in> set items'. iv_file k \<noteq> ?a \<longrightarrow> iv_modTime d \<le> iv_modTime k))"
  have "x \<and> quiet s' \<and> (\<forall>it. present s it \<longrightarrow> \<not> present s' it \<longrightarrow> ro_notifier r \<longrightarrow> iv_file it \<in> set (concat ns)) \<and>
    (0 < ro_maxBytes r \<longrightarrow> (\<exists>items' tot'. sizeInventory r s' = Some (items', tot') \<and> ?kept items' \<and>
      (tot' \<le> ro_maxBytes r \<or> (\<forall>it \<in> set items'. iv_file it = ?a)) \<and> (?tot \<le> ro_maxBytes r \<longrightarrow> s' = s)))"
  proof (cases "ro_maxBytes r \<le> 0 \<or> ?tot \<le> ro_maxBytes r")
    case True
    then have "x" "s' = s" using ev inv(1) by (auto simp: evictBySize_def split: if_splits)
    then show ?thesis using True s inv(1) by (auto intro!: exI [of _ items])
  next
    case False
    obtain y del s1 where e: "evict_items r ?a items ?tot [] s = (y, del, s1)" by (cases "evict_items r ?a items ?tot [] s")
    have all: "\<forall>it \<in> set items. present s it" using inv(4) by simp
    from evict_quiet [OF storedD(1) [OF s(1)] s(2) r(1) all inv(3) e] obtain pre post where
      *: "y" "quiet s1" "items = pre @ post"
      and del: "del = map iv_file (filter (\<lambda>it. iv_file it \<noteq> ?a) pre)"
      and pr: "\<And>it. present s1 it \<longleftrightarrow> present s it \<and> it \<notin> set (filter (\<lambda>it. iv_file it \<noteq> ?a) pre)"
      and fit: "post = [] \<or> ?tot - sum_list (map iv_size (filter (\<lambda>it. iv_file it \<noteq> ?a) pre)) \<le> ro_maxBytes r"
      by (auto simp: Let_def)
    let ?D = "filter (\<lambda>it. iv_file it \<noteq> ?a) pre"
    have res: "x" "s' = s1" "ns = notifyOrphans r del" using ev inv(1) False e *(1) by (auto simp: evictBySize_def)
    obtain items' where inv': "sizeInventory r s' = Some (items', \<Sum>it \<in> set items'. iv_size it)" "set items' = Collect (present s')"
      by (rule inventory_quiet [OF st' *(2) [folded res(2)] r])
    have set': "set items' = set items - set ?D" using inv'(2) inv(4) pr by (auto simp: res(2))
    have dist: "distinct ?D" "set ?D \<subseteq> set items" using inv(3) *(3) by auto
    then have "(\<Sum>it \<in> set items'. iv_size it) = ?tot - sum_list (map iv_size ?D)"
      unfolding set' by (simp add: sum_diff sum_list_distinct_conv_sum_set)
    moreover have "iv_file it = ?a" if "post = []" "it \<in> set items'" for it
      using that *(3) by (auto simp: set')
    ultimately have "(\<Sum>it \<in> set items'. iv_size it) \<le> ro_maxBytes r \<or> (\<forall>it \<in> set items'. iv_file it = ?a)"
      using fit by auto
    moreover have "?kept items'"
      using inv(2) *(3) by (auto simp: set' sorted_append)
    moreover have told: "iv_file it \<in> set (concat ns)" if "present s it" "\<not> present s' it" "ro_notifier r" for it
    proof -
      have "it \<in> set ?D" using that(1,2) pr [of it] by (simp only: res(2)) metis
      then have "iv_file it \<in> set del" unfolding del set_map by (rule imageI)
      then show ?thesis using that(3) by (auto simp: res(3) notifyOrphans_def)
    qed
    ultimately have "\<exists>items' tot'. sizeInventory r s' = Some (items', tot') \<and> ?kept items' \<and>
      (tot' \<le> ro_maxBytes r \<or> (\<forall>it \<in> set items'. iv_file it = ?a))" using inv'(1) by (intro exI conjI) simp_all
    then have "\<exists>items' tot'. sizeInventory r s' = Some (items', tot') \<and> ?kept items' \<and>
      (tot' \<le> ro_maxBytes r \<or> (\<forall>it \<in> set items'. iv_file it = ?a)) \<and> (?tot \<le> ro_maxBytes r \<longrightarrow> s' = s)"
      using False by simp
    moreover have "quiet s'" using res(2) *(2) by simp
    ultimately show ?thesis using res(1) told by (intro conjI allI impI)
  qed
  then show "x" "quiet s'"
    and "present s it \<Longrightarrow> \<not> present s' it \<Longrightarrow> ro_notifier r \<Longrightarrow> iv_file it \<in> set (concat ns)"
    and "0 < ro_maxBytes r \<Longrightarrow> \<exists>items items' tot tot'. sizeInventory r s = Some (items, tot) \<and> sizeInventory r s' = Some (items', tot') \<and>
      set items' \<subseteq> set items \<and> (tot' \<le> ro_maxBytes r \<or> (\<forall>it \<in> set items'. iv_file it = ?a)) \<and>
      (\<forall>d \<in> set items - set items'. iv_file d \<noteq> ?a \<and> (\<forall>k \<in> set items'. iv_file k \<noteq> ?a \<longrightarrow> iv_modTime d \<le> iv_modTime k)) \<and>
      (tot \<le> ro_maxBytes r \<longrightarrow> s' = s)"
    using inv(1) by blast+
qed

lemma has_item:
  assumes "body_name f" "has s f c" "gone s' f"
  obtains it where "present s it" "\<not> present s' it" "iv_file it = f"
proof -
  have g: "cur_file dir s' f = None" "objs s' (recent_key f) = None" "objs s' (archive_key f cdc) = None" for cdc
    using assms(3) by (simp_all add: gone_def copies_empty)
  have "copies st (cur_file dir s) (objs s) f \<noteq> {}" using assms(2) by (simp add: has_def)
  then consider c t where "cur_file dir s f = Some (c, t)" | k c t where "objs s k = Some (c, t)" "objs s' k = None" "baseFileName k = f"
    using g base_name [OF assms(1)] unfolding copies_empty by (metis not_None_eq surj_pair)
  then show thesis
  proof cases
    case (1 c t)
    then show ?thesis using that [of "cur_item f c t"] g(1) by (simp add: present_iff)
  next
    case (2 k c t)
    then show ?thesis using that [of "obj_item k c t"] by (simp add: present_iff)
  qed
qed

lemma rotation_quiet:
  assumes streams: "streams_ok st" and s: "stored s" "quiet s" "plain s" and r: "ro_backend r = b" "ro_dir r = dir"
    and run: "RunOnce st r s = (err, ns, s')"
  shows "err = None"
    and "cur_file dir s' n \<noteq> None \<Longrightarrow> n = hourlyFileName (clock s)"
    and "body_name f \<Longrightarrow> objs s' (recent_key f) = Some (c, t) \<Longrightarrow> clock s - ro_recentMaxAge r < t"
    and "has_prefix k ''archive/'' \<Longrightarrow> objs s' k = Some (c, t) \<Longrightarrow> clock s - ro_archiveMaxAge r \<le> t"
    and "body_name f \<Longrightarrow> has s f c \<Longrightarrow> has s' f c \<or> gone s' f \<and> (ro_notifier r \<longrightarrow> f \<in> set (concat ns))"
proof -
  obtain x1 s1 x2 s2 x3 n3 s3 x4 n4 where ph: "promoteCurrentToRecent r s = (x1, s1)"
    "compressToArchive st r s1 = (x2, s2)" "purgeExpired r s2 = (x3, n3, s3)" "evictBySize r s3 = (x4, n4, s')"
    "ns = n3 @ n4" "err = None \<longleftrightarrow> x1 \<and> x2 \<and> x3 \<and> x4"
    by (rule rotation_phases [OF run])
  have m1: "moved s s1" by (rule promote_phase [OF s(1) r ph(1)])
  then have st1: "stored s1" "clock s1 = clock s" by (simp_all add: moved_def same_env_def)
  note q1 = promote_phase_quiet [OF s(1,2) r ph(1)]
  have pl1: "plain s1" using s(3) q1(4) unfolding plain_def by metis
  note q2 = compress_phase_quiet [OF storedD(1) [OF st1(1)] q1(2) pl1 r(1) ph(2)]
  have m2: "moved s s2" by (rule moved_trans [OF m1 compress_phase [OF streams st1(1) r(1) ph(2)]])
  then have st2: "stored s2" "clock s2 = clock s" by (simp_all add: moved_def same_env_def)
  note q3 = purge_quiet [OF storedD(1) [OF st2(1)] q2(3) r(1) ph(3)]
  note p3 = purge_dropped [OF storedD(1) [OF st2(1)] r(1) ph(3)]
  have st3: "stored s3" by (rule dropped_stored(1) [OF st2(1) p3(1)])
  note q4 = evict_phase_quiet [OF st3 q3(2) r ph(4)]
  note d4 = evictBySize_dropped(1) [OF storedD(1) [OF st3] r ph(4)]
  have sub4: "objs s' k = Some v \<Longrightarrow> objs s3 k = Some v" "cur_file dir s' n = Some v \<Longrightarrow> cur_file dir s3 n = Some v" for k n v
    using d4 unfolding dropped_def by (metis option.distinct(1))+
  have sub3: "objs s3 k = Some v \<Longrightarrow> objs s2 k = Some v" for k v
    using p3(3) [of k] by auto
  show "err = None" using ph(6) q1(1) q2(1) q3(1) q4(1) by simp
  show "n = hourlyFileName (clock s)" if n: "cur_file dir s' n \<noteq> None"
    using q1(3) [of n] q2(4) p3(2) sub4(2) [of n] n by auto
  show "clock s - ro_recentMaxAge r < t" if "body_name f" "objs s' (recent_key f) = Some (c, t)"
  proof -
    have "has_suffix (recent_key f) ''.jsonl''" "has_prefix (recent_key f) ''recent/''"
      using that(1) by (auto simp: body_name_def recent_key_def has_suffix_iff)
    then show ?thesis using q2(5) sub3 [OF sub4(1) [OF that(2)]] st1(2) by simp
  qed
  show "clock s - ro_archiveMaxAge r \<le> t" if "has_prefix k ''archive/''" "objs s' k = Some (c, t)"
    using q3(3) [OF that(1) sub4(1) [OF that(2)]] st2(2) by simp
  show "has s' f c \<or> gone s' f \<and> (ro_notifier r \<longrightarrow> f \<in> set (concat ns))" if f: "body_name f" "has s f c"
  proof -
    have h2: "has s2 f c" using m2 f by (simp add: moved_def)
    consider "has s3 f c" | "gone s3 f" using dropped_stored(2) [OF st2(1) p3(1) f(1) h2] by blast
    then show ?thesis
    proof cases
      case 1
      have "f \<in> set (concat n4)" if g: "gone s' f" "ro_notifier r"
      proof -
        obtain it where "present s3 it" "\<not> present s' it" "iv_file it = f" using has_item [OF f(1) 1 g(1)] .
        then show ?thesis using q4(3) g(2) by blast
      qed
      then show ?thesis using dropped_stored(2) [OF st3 d4 f(1) 1] ph(5) by auto
    next
      case 2
      obtain k where k: "objs s2 k \<noteq> None" "objs s3 k = None" "baseFileName k = f"
        using h2 2 p3(2) base_name [OF f(1)] unfolding has_def gone_def copies_rules by metis
      then have "ro_notifier r \<Longrightarrow> f \<in> set (concat ns)" using q3(4) ph(5) by auto
      moreover have "gone s' f" using 2 sub4 unfolding gone_def copies_empty by (metis not_None_eq)
      ultimately show ?thesis by blast
    qed
  qed
qed

end

section \<open>The local directory\<close>

definition temps_apart :: "'a fs_scheme \<Rightarrow> bool" where
  "temps_apart s \<longleftrightarrow> list_all (\<lambda>(p, nd). p \<noteq> [] \<longrightarrow> \<not> (temp_name (last p) \<and> has_suffix (last p) ''.jsonl'')) (nodes s)"

lemma suffix_after_slash: "has_suffix (t @ CHR ''/'' # n) x \<Longrightarrow> CHR ''/'' \<notin> set x \<Longrightarrow> has_suffix n x"
  by (auto simp: has_suffix_iff append_eq_append_conv2 Cons_eq_append_conv)

lemma local_plain:
  assumes "local_ok base s" "temps_apart s"
  shows "local_bodies.plain base s"
  unfolding local_bodies.plain_def
proof (intro allI impI)
  fix k assume k: "has_suffix k ''.jsonl'' \<and> temp_key k"
  show "local_objs base s k = None"
  proof (rule ccontr)
    assume "local_objs base s k \<noteq> None"
    then obtain t n c u where n: "split_on (CHR ''/'') k = [t, n]" "tier_ok t" "fs_node s (base @ [t, n]) = Some (File c u)"
      by (auto simp: local_objs_def split: list.splits if_splits option.splits node.splits)
    then have "(base @ [t, n], File c u) \<in> set (nodes s)" using fs_tree_mem [OF local_okD(1) [OF assms(1)]] by simp
    then have no: "\<not> (temp_name n \<and> has_suffix n ''.jsonl'')"
      using assms(2) by (auto simp: temps_apart_def list_all_iff)
    have "k = t @ CHR ''/'' # n" "CHR ''/'' \<notin> set n"
      using join_split_on [of "CHR ''/''" k] split_on_elem_no_sep [of n "CHR ''/''" k] n(1) by simp_all
    then have "has_suffix n ''.jsonl''" using k suffix_after_slash [of t n "''.jsonl''"] by simp
    then show False using no k n(1) by (simp add: temp_key_def)
  qed
qed

text \<open>C19: a rotation in which no call fails returns no error; it leaves only the file of the running hour in
  the active directory, no promoted file older than the first age and no archived one older than
  the second.\<close>

theorem rotation_enforces_ages:
  assumes "streams_ok st" "bodies_stored base st s" "quiet s" "temps_apart s"
    and "RunOnce st (local_rotator base opts) s = (err, told, s')"
  shows "err = None \<and> (\<forall>n. cur_file (base @ [''current'']) s' n \<noteq> None \<longrightarrow> n = hourlyFileName (clock s)) \<and>
    (\<forall>f c t. body_name f \<longrightarrow> local_objs base s' (recent_key f) = Some (c, t) \<longrightarrow> clock s - opt_RecentMaxAge opts < t) \<and>
    (\<forall>k c t. has_prefix k ''archive/'' \<longrightarrow> local_objs base s' k = Some (c, t) \<longrightarrow> clock s - opt_ArchiveMaxAge opts \<le> t)"
proof -
  have st: "local_bodies.stored base st s" "local_bodies.plain base s"
    using assms(2,4) local_plain [of base s] by (simp_all add: local_stored bodies_stored_def)
  note q = local_bodies.rotation_quiet [OF assms(1) st(1) assms(3) st(2) local_rotator_sel(1,2) assms(5)]
  show ?thesis using q(1) q(2) q(3) [unfolded local_rotator_sel] q(4) [unfolded local_rotator_sel] by (intro conjI allI impI)
qed

text \<open>A rotation in which no call fails keeps the content of every body file or deletes the file and
  names it to the orphan notifier, so that references to it can be cleared.\<close>

theorem lost_bodies_reported:
  assumes "streams_ok st" "bodies_stored base st s" "quiet s" "temps_apart s"
    and "RunOnce st (local_rotator base opts) s = (err, told, s')"
    and "body_name f" "body_content base st s f = {Some c}"
  shows "body_content base st s' f = {Some c} \<or>
    body_content base st s' f = {} \<and> (opt_OrphanNotifier opts \<longrightarrow> f \<in> set (concat told))"
proof -
  have st: "local_bodies.stored base st s" "local_bodies.plain base s"
    using assms(2,4) local_plain [of base s] by (simp_all add: local_stored bodies_stored_def)
  from local_bodies.rotation_quiet(5) [OF assms(1) st(1) assms(3) st(2) local_rotator_sel(1,2) assms(5,6), of c] assms(7)
  show ?thesis by (simp add: local_has local_gone)
qed

text \<open>C20: with a byte budget, eviction without failing calls leaves stored files that fit the budget, or only
  the file of the running hour; it deletes the oldest files first, never that of the running hour, and
  nothing when the budget was kept.\<close>

theorem eviction_keeps_budget:
  assumes "bodies_stored base st s" "quiet s" "0 < opt_MaxBytes opts"
    and "evictBySize (local_rotator base opts) s = (ok, told, s')"
  shows "ok \<and> (\<exists>items items' tot tot'. sizeInventory (local_rotator base opts) s = Some (items, tot) \<and>
    sizeInventory (local_rotator base opts) s' = Some (items', tot') \<and> set items' \<subseteq> set items \<and>
    (tot' \<le> opt_MaxBytes opts \<or> (\<forall>it \<in> set items'. iv_file it = hourlyFileName (clock s))) \<and>
    (\<forall>d \<in> set items - set items'. iv_file d \<noteq> hourlyFileName (clock s) \<and>
       (\<forall>k \<in> set items'. iv_file k \<noteq> hourlyFileName (clock s) \<longrightarrow> iv_modTime d \<le> iv_modTime k)) \<and>
    (tot \<le> opt_MaxBytes opts \<longrightarrow> s' = s))"
proof -
  have st: "local_bodies.stored base st s" using assms(1) by (simp add: local_stored)
  note q = local_bodies.evict_phase_quiet [OF st assms(2) local_rotator_sel(1,2) assms(4)]
  show ?thesis using q(1) q(4) [unfolded local_rotator_sel] assms(3) by (intro conjI)
qed

section \<open>A month of a store\<close>

text \<open>The day of the previous theory, thirty-three days later.\<close>

definition demo_month :: fs where
  "demo_month = snd (body_run demo_jsonl demo_streams (local_rotator [''data''] demo_options)
     (demo_body_ops @ [OEnv (800 * hour) (\<lambda>_ _. False) 0 ''11'']) demo_written)"

definition demo_rotated :: "rotate_error option \<times> string list list \<times> fs" where
  "demo_rotated = RunOnce demo_streams (local_rotator [''data''] demo_options) demo_month"

lemma demo_month_eq: "demo_month = (snd demo_day)\<lparr>clock := 800 * hour, faults := \<lambda>_ _. False, short_write := 0, temp := ''11''\<rparr>"
  by (simp add: demo_month_def demo_day_def body_run_def body_exec_env)

lemma demo_stored:
  "bodies_stored [''data''] demo_streams demo_month" "bodies_stored [''data''] demo_streams (snd demo_day)"
proof -
  have w0: "local_bodies.working [''data''] demo_streams demo_writer demo_disk"
    unfolding local_working using demo_disk_stored demo_writer_fits by (simp add: whole_writes_def) (simp add: demo_disk_def)
  have wr: "body_exec demo_jsonl demo_streams (local_rotator [''data''] demo_options) (OWrite demo_body) (demo_writer, demo_disk) = (fst demo_written, snd demo_written)"
    by (simp add: demo_write)
  have fine: "env_fine (clock demo_disk) (OWrite demo_body # demo_body_ops @ [OEnv (800 * hour) (\<lambda>_ _. False) 0 ''11''])"
    "env_fine (clock demo_disk) (OWrite demo_body # demo_body_ops)"
    by (simp_all add: demo_disk_def demo_body_ops_def is_digit_def duration_defs)
  note e = local_bodies.exec_working [OF demo_streams_ok local_rotator_sel(1,2) w0 _ wr]
  have "local_bodies.working [''data''] demo_streams (fst x) (snd x)"
    if "x = body_run demo_jsonl demo_streams (local_rotator [''data''] demo_options) ops demo_written"
      "env_fine (clock demo_disk) (OWrite demo_body # ops)" for x ops
    using local_bodies.run_working [OF demo_streams_ok local_rotator_sel(1,2) e(1) e(2), OF that(2) that(2)] that(1) 
    by (metis prod.collapse)
  from this [OF refl fine(1)] this [OF refl fine(2)]
  show "bodies_stored [''data''] demo_streams demo_month" "bodies_stored [''data''] demo_streams (snd demo_day)"
    unfolding local_working by (simp_all add: demo_month_def demo_day_def)
qed

lemma demo_month_quiet: "quiet demo_month" "temps_apart demo_month" "quiet (snd demo_day)"
  by (simp_all add: quiet_def demo_month_eq demo_day_nodes demo_day_last temps_apart_def temp_file_def temp_name_def)

lemma no_files_no_content:
  assumes "\<forall>(p, nd) \<in> set (nodes s). \<not> (\<exists>c t. nd = File c t)"
  shows "body_content base st s f = {}"
proof -
  have no: "fs_node s p \<noteq> Some (File c t)" for p c t
    using assms by (auto simp: fs_node_def dest!: map_of_SomeD split: if_splits)
  have "cur_file (base @ [''current'']) s = Map.empty"
    using no by (auto simp: cur_file_def fun_eq_iff split: option.splits node.splits)
  moreover have "local_objs base s = Map.empty"
    using no by (auto simp: local_objs_def fun_eq_iff split: list.splits option.splits node.splits)
  ultimately show ?thesis by (simp add: body_content_def copies_empty)
qed

lemma demo_month_archived: "local_objs [''data''] demo_month (archive_key ''1970-01-01-00.jsonl'' zstdCodec) \<noteq> None"
  by code_simp

lemma demo_rotated_nodes:
  "nodes (snd (snd demo_rotated)) =
     [([''data'', ''archive''], Dir), ([''data'', ''recent''], Dir), ([''data''], Dir), ([''data'', ''current''], Dir)]"
  by code_simp

theorem rotation_enforces_ages_witness:
  "fst demo_rotated = None \<and>
   {t. \<exists>k c. has_prefix k ''archive/'' \<and> local_objs [''data''] (snd (snd demo_rotated)) k = Some (c, t)} \<subseteq> {80 * hour ..}"
proof -
  have run: "RunOnce demo_streams (local_rotator [''data''] demo_options) demo_month =
      (fst demo_rotated, fst (snd demo_rotated), snd (snd demo_rotated))"
    by (simp add: demo_rotated_def)
  from rotation_enforces_ages [OF demo_streams_ok demo_stored(1) demo_month_quiet(1,2) run]
  have "fst demo_rotated = None" and
    "\<And>k c t. has_prefix k ''archive/'' \<Longrightarrow> local_objs [''data''] (snd (snd demo_rotated)) k = Some (c, t) \<Longrightarrow>
      clock demo_month - opt_ArchiveMaxAge demo_options \<le> t" by blast+
  moreover have "clock demo_month - opt_ArchiveMaxAge demo_options = 80 * hour"
    by (simp add: demo_month_eq demo_options_def)
  ultimately show ?thesis by auto
qed

theorem lost_bodies_reported_witness:
  "''1970-01-01-00.jsonl'' \<in> set (concat (fst (snd demo_rotated)))"
proof -
  have run: "RunOnce demo_streams (local_rotator [''data''] demo_options) demo_month =
      (fst demo_rotated, fst (snd demo_rotated), snd (snd demo_rotated))"
    by (simp add: demo_rotated_def)
  have name: "body_name ''1970-01-01-00.jsonl''" by code_simp
  have "body_content [''data''] demo_streams demo_month ''1970-01-01-00.jsonl'' \<noteq> {}"
    unfolding body_content_def copies_empty using demo_month_archived by auto
  then obtain c where c: "body_content [''data''] demo_streams demo_month ''1970-01-01-00.jsonl'' = {Some c}"
    using demo_stored(1) name by (auto simp: bodies_stored_def agree_def body_content_def)
  have none: "body_content [''data''] demo_streams (snd (snd demo_rotated)) ''1970-01-01-00.jsonl'' = {}"
    by (rule no_files_no_content) (simp add: demo_rotated_nodes)
  from lost_bodies_reported [OF demo_streams_ok demo_stored(1) demo_month_quiet(1,2) run name c] none
  show ?thesis by (simp add: demo_options_def)
qed

definition demo_tight :: rotator_options where
  "demo_tight = demo_options\<lparr>opt_MaxBytes := 3\<rparr>"

theorem eviction_keeps_budget_witness:
  "fst (evictBySize (local_rotator [''data''] demo_tight) (snd demo_day)) \<and>
   (\<exists>items tot. sizeInventory (local_rotator [''data''] demo_tight) (snd (snd (evictBySize (local_rotator [''data''] demo_tight) (snd demo_day)))) = Some (items, tot) \<and>
     (tot \<le> 3 \<or> (\<forall>it \<in> set items. iv_file it = hourlyFileName (31 * hour))))"
proof -
  have "0 < opt_MaxBytes demo_tight" by (simp add: demo_tight_def demo_options_def)
  moreover have "evictBySize (local_rotator [''data''] demo_tight) (snd demo_day) =
    (fst (evictBySize (local_rotator [''data''] demo_tight) (snd demo_day)),
     fst (snd (evictBySize (local_rotator [''data''] demo_tight) (snd demo_day))),
     snd (snd (evictBySize (local_rotator [''data''] demo_tight) (snd demo_day))))" by simp
  ultimately obtain items tot where "sizeInventory (local_rotator [''data''] demo_tight)
      (snd (snd (evictBySize (local_rotator [''data''] demo_tight) (snd demo_day)))) = Some (items, tot)"
    "tot \<le> opt_MaxBytes demo_tight \<or> (\<forall>it \<in> set items. iv_file it = hourlyFileName (clock (snd demo_day)))"
    "fst (evictBySize (local_rotator [''data''] demo_tight) (snd demo_day))"
    using eviction_keeps_budget [OF demo_stored(2) demo_month_quiet(3), of demo_tight] by blast
  then show ?thesis by (intro conjI exI) (simp_all add: demo_tight_def demo_day_last)
qed

end
