(* ===== verification/BodyRefs.thy ===== *)
theory BodyRefs
  imports Housekeeping Logging
begin

text \<open>
  The request log and the body files together: rows point into files by name, offset and length, the
  logger writes both, the rotator moves and deletes files and has the references to deleted ones
  cleared, the purge job deletes rows.

  A run is a sequence of such steps in any order: a batch flushed, a rotation with its notifications, a
  purge, and changes of the environment (time, which calls fail, of the file system and of the
  database). A rotation is only taken as a step when none of its own calls fails, as it would
  otherwise return before it names what it deleted. Flushing and rotating are not interleaved with each other.

  Shown: after any run, every reference of the log leads to the entry that was written for that row.
\<close>

section \<open>Notification\<close>

text \<open>\<^verbatim>\<open>storeOrphanNotifier.OnBodiesDeleted\<close>; an error is logged by the rotator.\<close>

definition OnBodiesDeleted :: "string list \<Rightarrow> 'a db_scheme \<Rightarrow> bool \<times> 'a db_scheme" where
  "OnBodiesDeleted files d = (case NullifyBodyRefs files d of (Inl e, d') \<Rightarrow> (False, d') | (Inr n, d') \<Rightarrow> (True, d'))"

definition notify_all :: "string list list \<Rightarrow> 'a db_scheme \<Rightarrow> 'a db_scheme" where
  "notify_all told d = fold (\<lambda>files d. snd (OnBodiesDeleted files d)) told d"

section \<open>Runs\<close>

text \<open>What the middleware hands to the logger: a row without reference, and a body with the id of the row.\<close>

definition logged :: "log_entry \<Rightarrow> bool" where
  "logged e \<longleftrightarrow> lg_BodyFile (le_Meta e) = [] \<and> (\<forall>b. le_Body e = Some b \<longrightarrow> en_ID b = lg_ID (le_Meta e))"

inductive storage_run ::
  "jsonl \<Rightarrow> streams \<Rightarrow> engine option \<Rightarrow> path \<Rightarrow> rotator_options \<Rightarrow> 'a sink \<Rightarrow> 'a sink \<Rightarrow> bool"
  for js st eng base opts sk0 where
  run_start: "storage_run js st eng base opts sk0 sk0"
| run_flush: "storage_run js st eng base opts sk0 sk \<Longrightarrow> list_all logged batch \<Longrightarrow>
    storage_run js st eng base opts sk0 (flush js eng batch sk)"
| run_rotate: "storage_run js st eng base opts sk0 (bs, s, d) \<Longrightarrow> quiet s \<Longrightarrow> temps_apart s \<Longrightarrow> \<not> db_fault d DbUpdate \<Longrightarrow>
    RunOnce st (local_rotator base opts) s = (err, told, s') \<Longrightarrow>
    storage_run js st eng base opts sk0 (bs, s', notify_all told d)"
| run_purge: "storage_run js st eng base opts sk0 (bs, s, d) \<Longrightarrow>
    storage_run js st eng base opts sk0 (bs, s, snd (PurgeOlderThan t age d))"
| run_env: "storage_run js st eng base opts sk0 (bs, s, d) \<Longrightarrow> clock s \<le> t \<Longrightarrow> list_all is_digit x \<Longrightarrow>
    m = 0 \<or> (\<forall>q. \<not> flt OpAppend q) \<Longrightarrow>
    storage_run js st eng base opts sk0 (bs, s\<lparr>clock := t, faults := flt, short_write := m, temp := x\<rparr>, d\<lparr>db_fault := g\<rparr>)"

section \<open>References\<close>

definition ref_ok :: "jsonl \<Rightarrow> path \<Rightarrow> streams \<Rightarrow> 'a fs_scheme \<Rightarrow> request_log \<Rightarrow> bool" where
  "ref_ok js base st s r \<longleftrightarrow> lg_BodyFile r = [] \<or>
     body_name (lg_BodyFile r) \<and> (\<exists>e l c d. entry_marshal js e = Some l \<and> en_ID e = lg_ID r \<and>
       local_bodies.has base st s (lg_BodyFile r) (c @ (l @ [CHR 0x0A]) @ d) \<and>
       lg_BodyOffset r = int (length c) \<and> lg_BodyLength r = int (length l) + 1)"

definition refs_ok :: "jsonl \<Rightarrow> path \<Rightarrow> streams \<Rightarrow> 'a sink \<Rightarrow> bool" where
  "refs_ok js base st sk = (case sk of (bs, s, d) \<Rightarrow>
     local_bodies.working base st (bs_writer bs) s \<and> bs_reader bs = local_reader base \<and>
     (\<forall>r \<in> set (db_rows d). ref_ok js base st s r))"

lemma ref_ok_extended:
  assumes "local_bodies.extended base st s s'" "ref_ok js base st s r"
  shows "ref_ok js base st s' r"
  using assms unfolding ref_ok_def local_bodies.extended_def by (metis append.assoc)

lemma ref_ok_env:
  "ref_ok js base st (s\<lparr>clock := t, faults := flt, short_write := m, temp := x\<rparr>) r \<longleftrightarrow> ref_ok js base st s r"
  by (simp add: ref_ok_def local_has body_content_def local_env)

lemma redact_id: "en_ID (redactBody eng meta pat b) = en_ID b"
  by (simp add: redactBody_def redact_response_def redact_request_def Let_def split: prod.splits option.splits bool.splits)

lemma flush_body_refs:
  assumes "flush_body js eng e (bs, s) = (e', bs', s')" "local_bodies.working base st (bs_writer bs) s" "logged e"
  shows "local_bodies.working base st (bs_writer bs') s'" "bs_reader bs' = bs_reader bs" "local_bodies.extended base st s s'"
    "ref_ok js base st s' (le_Meta e')"
proof -
  have w: "local_bodies.stored base st s" "local_bodies.writer_ok base (bs_writer bs) s" "whole_writes s"
    using assms(2) by (simp_all add: local_bodies.working_def)
  have "local_bodies.working base st (bs_writer bs') s' \<and> bs_reader bs' = bs_reader bs \<and> local_bodies.extended base st s s' \<and>
    ref_ok js base st s' (le_Meta e')"
  proof (cases "le_Body e")
    case None
    then have "e' = e" "bs' = bs" "s' = s" using assms(1) by (simp_all add: flush_body_def)
    then show ?thesis using assms(2,3) local_bodies.extended_refl [OF w(1)] by (simp add: logged_def ref_ok_def)
  next
    case (Some b0)
    define b where "b = redactBody eng (le_Meta e) (le_RequestBodyEndpoint e) b0"
    obtain res wr where wr: "writer_Write js b (bs_writer bs) s = (res, wr, s')" and bs': "bs' = bs\<lparr>bs_writer := wr\<rparr>"
      and e': "le_Meta e' = (case res of Inl _ \<Rightarrow> le_Meta e
        | Inr (f, off, n) \<Rightarrow> (le_Meta e)\<lparr>lg_BodyFile := f, lg_BodyOffset := off, lg_BodyLength := n\<rparr>)"
      using assms(1) Some by (auto simp: flush_body_def store_Write_def Let_def b_def split: prod.splits sum.splits)
    note ws = local_bodies.write_step [OF w wr]
    have "local_bodies.working base st wr s'"
      using ws(1,2) w(3) by (auto simp: local_bodies.working_def local_bodies.extended_def same_env_def whole_writes_def)
    moreover have "ref_ok js base st s' (le_Meta e')"
    proof (cases res)
      case (Inl x)
      then show ?thesis using e' assms(3) by (simp add: logged_def ref_ok_def)
    next
      case (Inr x)
      obtain f off n where x: "x = (f, off, n)" by (metis prod.exhaust)
      from ws(3) [of f off n] Inr x obtain l c where f: "f = hourlyFileName (clock s)" and l: "entry_marshal js b = Some l"
        "local_bodies.has base st s' f (c @ l @ [CHR 0x0A])" "off = int (length c)" "n = int (length l) + 1" by blast
      have "en_ID b = lg_ID (le_Meta e)" using assms(3) Some by (simp add: b_def redact_id logged_def)
      then show ?thesis
        unfolding ref_ok_def using e' Inr x l f
        by (intro disjI2 conjI exI [of _ b] exI [of _ l] exI [of _ c] exI [of _ "[]"]) (simp_all add: hourly_body_name)
    qed
    ultimately show ?thesis using ws(1) by (simp add: bs')
  qed
  then show "local_bodies.working base st (bs_writer bs') s'" "bs_reader bs' = bs_reader bs" "local_bodies.extended base st s s'"
    "ref_ok js base st s' (le_Meta e')" by blast+
qed

lemma flush_bodies_refs:
  assumes "flush_bodies js eng batch (bs, s) = (batch', bs', s')" "local_bodies.working base st (bs_writer bs) s" "list_all logged batch"
  shows "local_bodies.working base st (bs_writer bs') s' \<and> bs_reader bs' = bs_reader bs \<and> local_bodies.extended base st s s' \<and>
    (\<forall>e \<in> set batch'. ref_ok js base st s' (le_Meta e))"
  using assms
proof (induction batch arbitrary: bs s batch')
  case Nil
  then show ?case by (auto simp: local_bodies.working_def intro: local_bodies.extended_refl)
next
  case (Cons e batch)
  obtain e1 bs1 s1 where 1: "flush_body js eng e (bs, s) = (e1, bs1, s1)" by (metis prod.exhaust)
  obtain batch2 where 2: "flush_bodies js eng batch (bs1, s1) = (batch2, bs', s')" and b': "batch' = e1 # batch2"
    using Cons.prems(1) 1 by (auto split: prod.splits)
  have e: "logged e" "list_all logged batch" using Cons.prems(3) by simp_all
  note f = flush_body_refs [OF 1 Cons.prems(2) e(1)]
  note IH = Cons.IH [OF 2 f(1) e(2)]
  have "local_bodies.extended base st s s'" using local_bodies.extended_trans [OF f(3)] IH by blast
  moreover have "ref_ok js base st s' (le_Meta e1)" using ref_ok_extended [OF _ f(4)] IH by blast
  ultimately show ?case using IH f(2) b' by simp
qed

lemma flush_refs:
  assumes "refs_ok js base st sk" "list_all logged batch"
  shows "refs_ok js base st (flush js eng batch sk)"
proof -
  obtain bs s d where sk: "sk = (bs, s, d)" by (metis prod.exhaust)
  obtain batch' bs' s' where f: "flush_bodies js eng batch (bs, s) = (batch', bs', s')" by (metis prod.exhaust)
  have w: "local_bodies.working base st (bs_writer bs) s" "bs_reader bs = local_reader base"
    "\<forall>r \<in> set (db_rows d). ref_ok js base st s r"
    using assms(1) by (simp_all add: refs_ok_def sk)
  note r = flush_bodies_refs [OF f w(1) assms(2)]
  obtain ok d' where l: "LogRequestBatch (map le_Meta batch') d = (ok, d')" by fastforce
  have "\<forall>r \<in> set (db_rows d'). ref_ok js base st s' r"
    using batch_whole_or_nothing [OF l] r w(3) ref_ok_extended by (cases ok) fastforce+
  then show ?thesis using assms(1) r w(2) by (simp add: flush_def sk f l refs_ok_def)
qed

lemma nullify_rows:
  assumes "\<not> db_fault d DbUpdate"
  shows "db_rows (snd (OnBodiesDeleted files d)) = map (\<lambda>r. if lg_BodyFile r \<in> set files then clear_ref r else r) (db_rows d)"
    "db_fault (snd (OnBodiesDeleted files d)) = db_fault d"
  using assms by (auto simp: OnBodiesDeleted_def NullifyBodyRefs_def)

lemma notify_rows:
  assumes "\<not> db_fault d DbUpdate" "r \<in> set (db_rows (notify_all told d))"
  shows "lg_BodyFile r = [] \<or> r \<in> set (db_rows d) \<and> lg_BodyFile r \<notin> set (concat told)"
  using assms
proof (induction told arbitrary: d)
  case Nil
  then show ?case by (simp add: notify_all_def)
next
  case (Cons files told)
  let ?d = "snd (OnBodiesDeleted files d)"
  have "r \<in> set (db_rows (notify_all told ?d))" "\<not> db_fault ?d DbUpdate"
    using Cons.prems nullify_rows(2) [OF Cons.prems(1)] by (simp_all add: notify_all_def)
  from Cons.IH [OF this(2,1)] show ?case
    by (auto simp: nullify_rows(1) [OF Cons.prems(1)] clear_ref_def)
qed

lemma rotate_refs:
  assumes streams: "streams_ok st" and n: "opt_OrphanNotifier opts" and sk: "refs_ok js base st (bs, s, d)"
    and q: "quiet s" "temps_apart s" "\<not> db_fault d DbUpdate"
    and run: "RunOnce st (local_rotator base opts) s = (err, told, s')"
  shows "refs_ok js base st (bs, s', notify_all told d)"
proof -
  have w: "local_bodies.working base st (bs_writer bs) s" and rd: "bs_reader bs = local_reader base"
    and rows: "\<And>r. r \<in> set (db_rows d) \<Longrightarrow> ref_ok js base st s r"
    using sk by (auto simp: refs_ok_def)
  have st: "local_bodies.stored base st s" "local_bodies.plain base s"
    using w local_plain [of base s] q(2) by (simp_all add: local_bodies.working_def local_stored bodies_stored_def)
  note rq = local_bodies.rotation_quiet(5) [OF streams st(1) q(1) st(2) local_rotator_sel(1,2) run]
  have "body_exec js st (local_rotator base opts) ORotate (bs_writer bs, s) = (bs_writer bs, s')" by (simp add: run)
  from local_bodies.exec_working(1) [OF streams local_rotator_sel(1,2) w _ this, of "[]"]
  have w': "local_bodies.working base st (bs_writer bs) s'" by simp
  have "ref_ok js base st s' r" if r: "r \<in> set (db_rows (notify_all told d))" for r
  proof (cases "lg_BodyFile r = []")
    case False
    then have "r \<in> set (db_rows d)" "lg_BodyFile r \<notin> set (concat told)" using notify_rows [OF q(3) r] by simp_all
    then have "ref_ok js base st s r" and nt: "lg_BodyFile r \<notin> set (concat told)" using rows by simp_all
    moreover have "local_bodies.has base st s' (lg_BodyFile r) c" if "body_name (lg_BodyFile r)" "local_bodies.has base st s (lg_BodyFile r) c" for c
      using rq [OF that] nt n by (auto simp: local_rotator_sel)
    ultimately show ?thesis using False unfolding ref_ok_def by metis
  qed (simp add: ref_ok_def)
  then show ?thesis using w' rd by (simp add: refs_ok_def)
qed

lemma run_refs:
  assumes "storage_run js st eng base opts sk0 sk" "streams_ok st" "opt_OrphanNotifier opts" "refs_ok js base st sk0"
  shows "refs_ok js base st sk"
  using assms(1)
proof (induction rule: storage_run.induct)
  case run_start
  then show ?case by (rule assms(4))
next
  case (run_flush sk batch)
  then show ?case by (intro flush_refs)
next
  case (run_rotate bs s d err told s')
  then show ?case by (intro rotate_refs [OF assms(2,3)])
next
  case (run_purge bs s d t age)
  then show ?case by (auto simp: refs_ok_def PurgeOlderThan_def Let_def)
next
  case (run_env bs s d t x m flt g)
  then show ?case using local_bodies.env_working [of base st "bs_writer bs" s t x m flt] by (auto simp: refs_ok_def ref_ok_env)
qed

section \<open>No dangling reference\<close>

text \<open>What the middleware builds is fit to be logged.\<close>

lemma built_logged:
  assumes "meta = buildRequestLog r cap reg rid region t0 t reason"
  shows "logged (buildLogEntry gz r cap reg meta rid reqBody maxSize)"
  by (simp add: assms logged_def buildLogEntry_def buildRequestLog_def Let_def)

text \<open>C4: no row of the request log points to a body that is not its own: after any sequence of flushed batches,
  rotations with their notifications, purges, failing calls and passing time, every row with a body
  reference is read back, by the file name, offset and length it holds, as the entry that was written
  for it. Rotations meet no failing call themselves; reading meets none; the clock does not go back and
  a failing append leaves no partial line. The decoders invert the encoders.\<close>

theorem no_dangling_bodies:
  assumes "streams_ok st" "opt_OrphanNotifier opts"
    and "\<And>e l. entry_marshal js e = Some l \<Longrightarrow> entry_unmarshal js (l @ [CHR 0x0A]) = Some (compacted e) \<and> en_ID (compacted e) = en_ID e"
    and "bodies_stored base st s0" "writer_fits base (bs_writer bs0) s0" "whole_writes s0" "bs_reader bs0 = local_reader base"
    and "\<forall>r \<in> set (db_rows d0). lg_BodyFile r = []"
    and "storage_run js st eng base opts (bs0, s0, d0) (bs, s, d)"
    and "quiet s" "r \<in> set (db_rows d)" "lg_BodyFile r \<noteq> []"
  shows "\<exists>e. store_Read js st bs (lg_BodyFile r) (lg_BodyOffset r) (lg_BodyLength r) s = Inr e \<and> en_ID e = lg_ID r"
proof -
  have "refs_ok js base st (bs0, s0, d0)"
    using assms(4-8) by (simp add: refs_ok_def local_working ref_ok_def)
  from run_refs [OF assms(9,1,2) this] have ok: "refs_ok js base st (bs, s, d)" .
  then have rd: "bs_reader bs = local_reader base" "local_bodies.stored base st s"
    and ref: "ref_ok js base st s r"
    using assms(11) by (simp_all add: refs_ok_def local_bodies.working_def)
  then obtain e l c x where e: "body_name (lg_BodyFile r)" "entry_marshal js e = Some l" "en_ID e = lg_ID r"
    "local_bodies.has base st s (lg_BodyFile r) (c @ (l @ [CHR 0x0A]) @ x)"
    "lg_BodyOffset r = int (length c)" "lg_BodyLength r = int (length l) + 1"
    using assms(12) by (auto simp: ref_ok_def)
  from local_bodies.read_has [OF rd(2) assms(10) e(1,4), of "lg_BodyOffset r" "lg_BodyLength r" js]
  have "store_Read js st bs (lg_BodyFile r) (lg_BodyOffset r) (lg_BodyLength r) s = parse_entry js (l @ [CHR 0x0A])"
    by (simp add: store_Read_def rd(1) local_reader_def e(5,6) nat_add_distrib)
  then show ?thesis using assms(3) [OF e(2)] e(3) by (simp add: parse_entry_def)
qed

section \<open>A logged request\<close>

definition demo_request :: log_entry where
  "demo_request = \<lparr>le_Meta = demo_row ''id1'' ''A1'' 20, le_Body = Some demo_body, le_RequestBodyEndpoint = []\<rparr>"

definition demo_flushed :: "unit sink" where
  "demo_flushed = flush demo_jsonl None [demo_request]
     (\<lparr>bs_writer = demo_writer, bs_reader = local_reader [''data'']\<rparr>, demo_disk, \<lparr>db_rows = [], db_fault = (\<lambda>_. False)\<rparr>)"

text \<open>Three hours later, before and after a rotation.\<close>

definition demo_later :: fs where
  "demo_later = (fst (snd demo_flushed))\<lparr>clock := 3 * hour, faults := \<lambda>_ _. False, short_write := 0, temp := ''8''\<rparr>"

definition demo_promoted :: "rotate_error option \<times> string list list \<times> fs" where
  "demo_promoted = RunOnce demo_streams (local_rotator [''data''] demo_options) demo_later"

definition demo_rows :: db where
  "demo_rows = (notify_all (fst (snd demo_promoted)) (snd (snd demo_flushed)\<lparr>db_fault := \<lambda>_. False\<rparr>))\<lparr>db_fault := \<lambda>_. False\<rparr>"

definition demo_end :: fs where
  "demo_end = (snd (snd demo_promoted))\<lparr>clock := 4 * hour, faults := \<lambda>_ _. False, short_write := 0, temp := ''9''\<rparr>"

lemma demo_flushed_sink:
  "case demo_flushed of (b, s, d) \<Rightarrow>
     clock s \<le> 3 * hour \<and>
     nodes s = [([''data'', ''current'', ''1970-01-01-00.jsonl''], File (''{id1}'' @ [CHR 0x0A]) (5 * minute)),
       ([''data''], Dir), ([''data'', ''current''], Dir)] \<and>
     map (\<lambda>r. (lg_ID r, lg_BodyFile r, lg_BodyOffset r, lg_BodyLength r)) (db_rows d) =
       [(''id1'', ''1970-01-01-00.jsonl'', 0, 6)]"
  by code_simp

lemma demo_promoted_disk:
  "case demo_promoted of (e, told, s) \<Rightarrow>
     clock s \<le> 4 * hour \<and> told = [] \<and>
     nodes s = [([''data'', ''recent'', ''1970-01-01-00.jsonl''], File (''{id1}'' @ [CHR 0x0A]) (3 * hour)),
       ([''data'', ''recent''], Dir), ([''data''], Dir), ([''data'', ''current''], Dir)]"
  by code_simp

lemma demo_storage_run:
  "storage_run demo_jsonl demo_streams None [''data''] demo_options
     (\<lparr>bs_writer = demo_writer, bs_reader = local_reader [''data'']\<rparr>, demo_disk, \<lparr>db_rows = [], db_fault = (\<lambda>_. False)\<rparr>)
     (fst demo_flushed, demo_end, demo_rows)"
proof -
  have 1: "storage_run demo_jsonl demo_streams None [''data''] demo_options
     (\<lparr>bs_writer = demo_writer, bs_reader = local_reader [''data'']\<rparr>, demo_disk, \<lparr>db_rows = [], db_fault = (\<lambda>_. False)\<rparr>)
     (fst demo_flushed, fst (snd demo_flushed), snd (snd demo_flushed))"
    using run_flush [OF run_start, of "[demo_request]"]
    by (simp add: demo_flushed_def logged_def demo_request_def demo_row_def demo_body_def)
  have "clock (fst (snd demo_flushed)) \<le> 3 * hour" using demo_flushed_sink by (simp add: case_prod_beta)
  note 2 = run_env [OF 1 this, of "''8''" 0 "\<lambda>_ _. False" "\<lambda>_. False"]
  have n: "nodes demo_later = [([''data'', ''current'', ''1970-01-01-00.jsonl''], File (''{id1}'' @ [CHR 0x0A]) (5 * minute)),
     ([''data''], Dir), ([''data'', ''current''], Dir)]" using demo_flushed_sink by (simp add: case_prod_beta demo_later_def)
  have "quiet demo_later" "temps_apart demo_later"
    unfolding quiet_def temps_apart_def n by (simp_all add: demo_later_def temp_file_def temp_name_def)
  then have 3: "storage_run demo_jsonl demo_streams None [''data''] demo_options
     (\<lparr>bs_writer = demo_writer, bs_reader = local_reader [''data'']\<rparr>, demo_disk, \<lparr>db_rows = [], db_fault = (\<lambda>_. False)\<rparr>)
     (fst demo_flushed, snd (snd demo_promoted), notify_all (fst (snd demo_promoted)) (snd (snd demo_flushed)\<lparr>db_fault := \<lambda>_. False\<rparr>))"
    using run_rotate [of demo_jsonl demo_streams None "[''data'']" demo_options _ "fst demo_flushed" demo_later
        "snd (snd demo_flushed)\<lparr>db_fault := \<lambda>_. False\<rparr>" "fst demo_promoted" "fst (snd demo_promoted)" "snd (snd demo_promoted)"] 2
    by (simp add: demo_later_def [symmetric] demo_promoted_def is_digit_def)
  have "clock (snd (snd demo_promoted)) \<le> 4 * hour" using demo_promoted_disk by (simp add: case_prod_beta)
  from run_env [OF 3 this, of "''9''" 0 "\<lambda>_ _. False" "\<lambda>_. False"] show ?thesis
    by (simp add: demo_rows_def demo_end_def is_digit_def)
qed

theorem no_dangling_bodies_witness:
  "map (\<lambda>r. (lg_ID r, lg_BodyFile r, lg_BodyOffset r, lg_BodyLength r)) (db_rows demo_rows) = [(''id1'', ''1970-01-01-00.jsonl'', 0, 6)] \<and>
   (\<exists>e. store_Read demo_jsonl demo_streams (fst demo_flushed) ''1970-01-01-00.jsonl'' 0 6 demo_end = Inr e \<and> en_ID e = ''id1'')"
proof -
  let ?bs = "\<lparr>bs_writer = demo_writer, bs_reader = local_reader [''data'']\<rparr> :: fs body_store"
    and ?d = "\<lparr>db_rows = [], db_fault = (\<lambda>_. False)\<rparr> :: db"
  have law: "entry_unmarshal demo_jsonl (l @ [CHR 0x0A]) = Some ((\<lambda>e. e) e) \<and> en_ID ((\<lambda>e. e) e) = en_ID e"
    if "entry_marshal demo_jsonl e = Some l" for e l
    using that by (auto simp: demo_jsonl_def split: if_splits)
  have told: "fst (snd demo_promoted) = []" using demo_promoted_disk by (simp add: case_prod_beta)
  have "map (\<lambda>r. (lg_ID r, lg_BodyFile r, lg_BodyOffset r, lg_BodyLength r)) (db_rows (snd (snd demo_flushed))) =
      [(''id1'', ''1970-01-01-00.jsonl'', 0, 6)]" using demo_flushed_sink by (simp add: case_prod_beta)
  then have rows: "map (\<lambda>r. (lg_ID r, lg_BodyFile r, lg_BodyOffset r, lg_BodyLength r)) (db_rows demo_rows) =
      [(''id1'', ''1970-01-01-00.jsonl'', 0, 6)]" by (simp add: demo_rows_def told notify_all_def)
  then obtain r where r: "r \<in> set (db_rows demo_rows)" "lg_ID r = ''id1''" "lg_BodyFile r = ''1970-01-01-00.jsonl''"
    "lg_BodyOffset r = 0" "lg_BodyLength r = 6" by auto
  have n: "nodes demo_end = [([''data'', ''recent'', ''1970-01-01-00.jsonl''], File (''{id1}'' @ [CHR 0x0A]) (3 * hour)),
     ([''data'', ''recent''], Dir), ([''data''], Dir), ([''data'', ''current''], Dir)]"
    using demo_promoted_disk by (simp add: case_prod_beta demo_end_def)
  have q: "quiet demo_end" unfolding quiet_def n by (simp add: demo_end_def temp_file_def)
  have whole: "whole_writes demo_disk" by (simp add: whole_writes_def demo_disk_def)
  have "opt_OrphanNotifier demo_options" by (simp add: demo_options_def)
  from no_dangling_bodies [where ?bs0.0 = ?bs and ?s0.0 = demo_disk and ?d0.0 = ?d, OF demo_streams_ok this law demo_disk_stored _ whole _ _ demo_storage_run q r(1)]
  have "\<exists>e. store_Read demo_jsonl demo_streams (fst demo_flushed) ''1970-01-01-00.jsonl'' 0 6 demo_end = Inr e \<and> en_ID e = ''id1''"
    using demo_writer_fits [of demo_disk] r by simp
  then show ?thesis using rows by blast
qed

end
