(* ===== verification/CacheMiddleware.thy ===== *)
theory CacheMiddleware
  imports BatchCache Proxy
begin

text \<open>
  The cache middleware (\<^verbatim>\<open>CacheMiddleware\<close> in \<^verbatim>\<open>internal/cache/middleware.go\<close>): preconditions that
  bypass the cache, the batch and POST handlers, and the cache for GET.

  Shown: personal data never enters the cache and is never served from it; only 2xx responses
  are stored; a mutation has deleted the entries of its resource before it is passed on; a
  client's time to live is clamped; whatever is true of every stored response and its key stays
  true, so that a hit replays a response recorded for the same key.
\<close>

definition cacheKeySuffix_ok :: "char \<Rightarrow> bool" where
  "cacheKeySuffix_ok c \<longleftrightarrow>
     (let n = (of_char c :: nat) in
      (65 \<le> n \<and> n \<le> 90) \<or> (97 \<le> n \<and> n \<le> 122) \<or> (48 \<le> n \<and> n \<le> 57) \<or> c = CHR ''_'' \<or> c = CHR ''-'')"

definition sanitizeCacheKeySuffix :: "string \<Rightarrow> string" where
  "sanitizeCacheKeySuffix s =
     (if s = [] then []
      else let cleaned = filter cacheKeySuffix_ok s
           in if 64 < length cleaned then take 64 cleaned else cleaned)"

definition InvalidateOnMutation :: "mem_cache \<Rightarrow> string \<Rightarrow> string \<Rightarrow> string \<Rightarrow> mem_cache" where
  "InvalidateOnMutation mc merchantKey method path =
     foldl mc_DeleteByPrefix mc (mutation_prefixes merchantKey method path)"

text \<open>\<open>None\<close>: no early exit, the caller goes on.\<close>

definition handleCachePreconditions ::
  "cache_config \<Rightarrow> tier_config \<Rightarrow> string \<Rightarrow> 'a cache_world_scheme handler \<Rightarrow> request \<Rightarrow> rw \<Rightarrow>
     'a cache_world_scheme \<Rightarrow> (rw \<times> header \<times> 'a cache_world_scheme) option" where
  "handleCachePreconditions cfg tier merchantKey nxt r w s =
     (if tc_Tier tier = CacheTierNever \<and> tc_Reason tier = [] then
        Some (if r_method r \<noteq> ''GET''
              then nxt r w (s\<lparr>mcache := InvalidateOnMutation (mcache s) merchantKey (r_method r) (r_path r)\<rparr>)
              else nxt r w s)
      else if cc_ExcludePII cfg \<and> tc_Reason tier = ''PII_EXCLUDED'' then
        Some (nxt r (w_set w ''X-SP-Proxy-Cache'' ''PII_EXCLUDED'') s)
      else if hdr_get (r_header r) ''X-SP-Proxy-No-Cache'' = ''true'' then
        Some (nxt r (w_set w ''X-SP-Proxy-Cache'' ''BYPASS'') s)
      else None)"

text \<open>The cache for GET, as the end of \<^verbatim>\<open>CacheMiddleware\<close> has it.\<close>

definition get_cache_key :: "request \<Rightarrow> string" where
  "get_cache_key r =
     GenerateCacheKey (m_key (MerchantFromContext r)) (r_method r) (r_path r) (r_query r)
       (sanitizeCacheKeySuffix (hdr_get (r_header r) ''X-SP-Proxy-Cache-Key''))"

definition handleGetCache ::
  "(string \<Rightarrow> time option) \<Rightarrow> tier_config \<Rightarrow> cache_config \<Rightarrow> 'a cache_world_scheme handler \<Rightarrow>
     'a cache_world_scheme handler" where
  "handleGetCache prfc tier cfg nxt r w s =
     (let key = get_cache_key r in
      case mc_Get (mcache s) key (now s) of
        (Some cached, mc) \<Rightarrow> (serveCachedResponse w cached (now s), r_header r, s\<lparr>mcache := mc\<rparr>)
      | (None, mc) \<Rightarrow> recordAndCache prfc tier cfg key nxt r w (s\<lparr>mcache := mc\<rparr>))"

definition CacheMiddleware ::
  "codec \<Rightarrow> (string \<Rightarrow> time option) \<Rightarrow> tier_classifier \<Rightarrow> cache_config \<Rightarrow> 'a cache_world_scheme handler \<Rightarrow>
     'a cache_world_scheme handler" where
  "CacheMiddleware cd prfc tiers cfg nxt r w s =
     (if \<not> cc_Enabled cfg then nxt r w s
      else
        (let m = MerchantFromContext r;
             tier = tier_Classify tiers (r_method r) (r_path r) r
         in case handleCachePreconditions cfg tier (m_key m) nxt r w s of
              Some result \<Rightarrow> result
            | None \<Rightarrow>
                (case (if r_method r = ''POST'' \<and> tc_BatchCacheable tier then lookupBatchConfig (r_path r) else None) of
                   Some bcfg \<Rightarrow> handleBatchCache cd prfc tier cfg bcfg nxt r w s
                 | None \<Rightarrow>
                     if r_method r = ''POST'' \<and> tc_PostCacheable tier
                     then handlePostCache cd prfc tier cfg nxt r w s
                     else handleGetCache prfc tier cfg nxt r w s)))"

section \<open>Lemmas\<close>

lemma sanitize_chars: "c \<in> set (sanitizeCacheKeySuffix s) \<Longrightarrow> cacheKeySuffix_ok c"
  by (auto simp: sanitizeCacheKeySuffix_def Let_def split: if_splits dest: in_set_takeD)

lemma sanitize_length: "length (sanitizeCacheKeySuffix s) \<le> 64"
  by (simp add: sanitizeCacheKeySuffix_def Let_def)

lemma InvalidateOnMutation_spec:
  "mc_inv mc \<Longrightarrow> mc_inv (InvalidateOnMutation mc mk m p)
     \<and> mc_entries (InvalidateOnMutation mc mk m p) =
         (\<lambda>k. if list_ex (has_prefix k) (mutation_prefixes mk m p) then None else mc_entries mc k)"
proof -
  have "mc_inv mc \<Longrightarrow> mc_inv (foldl mc_DeleteByPrefix mc ps)
      \<and> mc_entries (foldl mc_DeleteByPrefix mc ps) = (\<lambda>k. if list_ex (has_prefix k) ps then None else mc_entries mc k)" for ps
  proof (induction ps arbitrary: mc)
    case (Cons p ps)
    note d = mc_DeleteByPrefix_spec [OF Cons.prems, of p]
    from Cons.IH [OF d(1)] show ?case by (auto simp: d(2) fun_eq_iff)
  qed simp
  then show "mc_inv mc \<Longrightarrow> ?thesis" by (simp add: InvalidateOnMutation_def)
qed

section \<open>What enters the cache\<close>

text \<open>\<open>cache_all P\<close>: the cache is well formed and \<open>P\<close> holds of every key and the response stored
  under it. Deleting keeps it, and so does storing what satisfies \<open>P\<close>.\<close>

definition cache_all :: "(string \<Rightarrow> cached_response \<Rightarrow> bool) \<Rightarrow> mem_cache \<Rightarrow> bool" where
  "cache_all P mc \<longleftrightarrow> mc_inv mc \<and> (\<forall>k e. mc_entries mc k = Some e \<longrightarrow> P k (ce_response e))"

named_theorems cache_all_intros

lemma cache_all_Get [cache_all_intros]: "cache_all P mc \<Longrightarrow> cache_all P (snd (mc_Get mc k t))"
  by (auto simp: cache_all_def mc_Get_spec split: if_splits)

lemma cache_all_Set [cache_all_intros]:
  assumes "cache_all P mc" "P k resp"
  shows "cache_all P (mc_Set mc k resp ttl t)"
proof -
  have inv: "mc_inv mc" using assms(1) by (simp add: cache_all_def)
  have "P j (ce_response e)" if "mc_entries (mc_Set mc k resp ttl t) j = Some e" for j e
    using that assms mc_Set_spec(2) [OF inv, of k resp ttl t] mc_Set_spec(3) [OF inv, of j k resp ttl t]
    by (cases "j = k") (auto simp: cache_all_def)
  then show ?thesis using mc_Set_spec(1) [OF inv] by (simp add: cache_all_def)
qed

lemma cache_all_Invalidate [cache_all_intros]: "cache_all P mc \<Longrightarrow> cache_all P (InvalidateOnMutation mc mk m p)"
  using InvalidateOnMutation_spec by (auto simp: cache_all_def split: if_splits)

lemma cache_all_lookup [cache_all_intros]:
  "cache_all P mc \<Longrightarrow> cache_all P (snd (lookup_elements ex mk path elems mc t))"
proof (induction ex mk path elems mc t rule: lookup_elements.induct)
  case (2 ex mk path elem elems mc t)
  show ?case
  proof (cases "ex elem")
    case None
    with 2(1) 2(3) show ?thesis by (auto split: prod.splits)
  next
    case (Some suffix)
    obtain c mc1 where g: "mc_Get mc (batchElementCacheKey mk path suffix) t = (c, mc1)" by fastforce
    then have "cache_all P mc1" using cache_all_Get [OF 2(3)] by (metis snd_conv)
    with 2(2) [OF Some refl g [symmetric]] Some g show ?thesis by (auto split: prod.splits)
  qed
qed simp

lemma lookup_elements_keys:
  "e \<in> set (fst (lookup_elements ex mk path elems mc t)) \<Longrightarrow> el_key e = [] \<or> has_prefix (el_key e) (mk @ '':BATCH:'')"
  by (induction ex mk path elems mc t rule: lookup_elements.induct)
    (auto simp: batchElementCacheKey_def has_prefix_iff Let_def split: option.splits prod.splits)

lemma cache_all_store [cache_all_intros]:
  assumes "cache_all P mc"
    and "\<And>e resp. e \<in> set es \<Longrightarrow> el_key e \<noteq> [] \<Longrightarrow> StatusCode resp = 200 \<Longrightarrow> P (el_key e) resp"
  shows "cache_all P (store_elements cd bcfg ttl t rid es rs mc)"
  using assms
proof (induction cd bcfg ttl t rid es rs mc rule: store_elements.induct)
  case (1 cd bcfg ttl t rid e es respElem rs mc)
  have step: "cache_all P (if el_key e = [] \<or> \<not> isSuccessElement bcfg respElem then mc
         else case marshal cd respElem of None \<Rightarrow> mc | Some elemBody \<Rightarrow>
             mc_Set mc (el_key e)
               \<lparr>StatusCode = 200, Headers = [(''Content-Type'', [''application/json''])], Body = elemBody,
                CachedAt = t, TTL = ttl, SourceRequestID = rid\<rparr> ttl t)"
    using 1(2,3) by (auto intro!: cache_all_Set split: option.splits)
  show ?case unfolding store_elements.simps Let_def
    by (rule 1(1) [OF refl step]) (use 1(3) in simp)
qed simp_all

text \<open>The whole middleware: a response \<open>P\<close> need only hold of 2xx responses under keys of the
  requesting merchant.\<close>

locale cache_client =
  fixes P :: "string \<Rightarrow> cached_response \<Rightarrow> bool"
    and nxt :: "'a cache_world_scheme handler"
    and r :: request
  assumes store_ok: "has_prefix k (m_key (MerchantFromContext r) @ '':'') \<Longrightarrow>
      200 \<le> StatusCode resp \<Longrightarrow> StatusCode resp < 300 \<Longrightarrow> P k resp"
    and next_ok: "cache_all P (mcache s) \<Longrightarrow> cache_all P (mcache (snd (snd (nxt r w s))))"
begin

lemma next_res: "nxt r w s = (w', h', s') \<Longrightarrow> cache_all P (mcache s) \<Longrightarrow> cache_all P (mcache s')"
  using next_ok [of s w] by simp

lemma record_ok:
  assumes "cache_all P (mcache s)" "has_prefix key (m_key (MerchantFromContext r) @ '':'')"
  shows "cache_all P (mcache (snd (snd (recordAndCache prfc tier cfg key nxt r w s))))"
proof -
  obtain rec h s1 where n: "nxt r newResponseRecorder s = (rec, h, s1)" by (metis prod_cases3)
  have "cache_all P (mcache s1)" by (rule next_res [OF n assms(1)])
  then show ?thesis using n assms(2)
    by (auto simp: recordAndCache_def Let_def recorded_response_def intro!: cache_all_Set store_ok)
qed

lemma lookup_then_record_ok:
  assumes "cache_all P (mcache s)" "has_prefix key (m_key (MerchantFromContext r) @ '':'')"
  shows "cache_all P (mcache (snd (snd (case mc_Get (mcache s) key (now s) of
        (Some cached, mc) \<Rightarrow> (serveCachedResponse w cached (now s), r_header r, s\<lparr>mcache := mc\<rparr>)
      | (None, mc) \<Rightarrow> recordAndCache prfc tier cfg key nxt r w (s\<lparr>mcache := mc\<rparr>)))))"
proof -
  obtain c mc where g: "mc_Get (mcache s) key (now s) = (c, mc)" by fastforce
  have mc: "cache_all P mc" using cache_all_Get [OF assms(1), of key "now s"] g by simp
  show ?thesis using g mc record_ok [of "s\<lparr>mcache := mc\<rparr>" key] assms(2) by (cases c) simp_all
qed

lemma batch_ok:
  assumes "cache_all P (mcache s)"
  shows "cache_all P (mcache (snd (snd (handleBatchCache cd prfc tier cfg bcfg nxt r w s))))"
proof -
  let ?mk = "m_key (MerchantFromContext r)"
  have run: "cache_all P (mcache (snd (snd (handleBatchCache cd prfc tier cfg bcfg nxt r w s))))"
    if el: "parseBatchElements cd bcfg (r_body r) = Some (x # xs)" for x xs
  proof -
    obtain es mc where l: "lookup_elements (bc_extractKey bcfg) ?mk (r_path r) (x # xs) (mcache s) (now s) = (es, mc)"
      by fastforce
    have mc: "cache_all P mc"
      using cache_all_lookup [OF assms, of "bc_extractKey bcfg" ?mk "r_path r" "x # xs" "now s"] l by simp
    have keys: "P (el_key e) resp" if "e \<in> set es" "el_key e \<noteq> []" "StatusCode resp = 200" for e resp
      using lookup_elements_keys [of e "bc_extractKey bcfg" ?mk "r_path r" "x # xs" "mcache s" "now s"] l that
      by (auto intro!: store_ok simp: has_prefix_iff)
    obtain rec h s2 where n: "nxt r newResponseRecorder (s\<lparr>mcache := mc\<rparr>) = (rec, h, s2)" by (metis prod_cases3)
    have s2: "cache_all P (mcache s2)" using next_res [OF n] mc by simp
    have store: "cache_all P (store_elements cd bcfg ttl t rid es rs (mcache s2))" for ttl t rid rs
      by (rule cache_all_store [OF s2]) (rule keys)
    have "handleBatchCache cd prfc tier cfg bcfg nxt r w s
        = (case (if list_all (\<lambda>e. el_cached e \<noteq> None) es then assembleBatchResponse cd bcfg es else None) of
             Some body \<Rightarrow>
               (w_write (w_write_header
                  (w_set (w_set w ''Content-Type'' ''application/json'') ''X-SP-Proxy-Cache'' ''HIT'') 200) body,
                r_header r, s\<lparr>mcache := mc\<rparr>)
           | None \<Rightarrow>
               if 200 \<le> rec_statusCode rec \<and> rec_statusCode rec < 300
               then (copy_recorded w rec, h, s2\<lparr>mcache := cacheResponseElements cd prfc h r (w_body rec) es bcfg
                       tier cfg (now s2) (mcache s2)\<rparr>)
               else (copy_recorded w rec, h, s2))"
      unfolding handleBatchCache_def el option.case list.case l prod.case Let_def n by (rule refl)
    then show ?thesis using mc s2 store
      by (simp add: cacheResponseElements_def split: option.splits)
  qed
  show ?thesis
  proof (cases "parseBatchElements cd bcfg (r_body r)")
    case None
    then show ?thesis using next_ok assms by (simp add: handleBatchCache_def)
  next
    case (Some el)
    then show ?thesis using run next_ok assms by (cases el) (simp_all add: handleBatchCache_def)
  qed
qed

lemma preconditions_ok:
  assumes "cache_all P (mcache s)" "handleCachePreconditions cfg tier mk nxt r w s = Some res"
  shows "cache_all P (mcache (snd (snd res)))"
  using assms by (auto simp: handleCachePreconditions_def intro!: next_ok cache_all_Invalidate split: if_splits)

lemma middleware_ok:
  assumes "cache_all P (mcache s)"
  shows "cache_all P (mcache (snd (snd (CacheMiddleware cd prfc tiers cfg nxt r w s))))"
proof -
  have "cache_all P (mcache (snd (snd (handleGetCache prfc tier cfg nxt r w s))))" for tier
    unfolding handleGetCache_def Let_def
    by (rule lookup_then_record_ok [OF assms]) (simp add: get_cache_key_def GenerateCacheKey_rest has_prefix_iff)
  moreover have "cache_all P (mcache (snd (snd (handlePostCache cd prfc tier cfg nxt r w s))))" for tier
    unfolding handlePostCache_def Let_def
    by (rule lookup_then_record_ok [OF assms]) (simp add: generatePostCacheKey_def has_prefix_iff split: option.splits)
  ultimately show ?thesis using assms next_ok batch_ok preconditions_ok
    by (simp add: CacheMiddleware_def Let_def split: option.splits)
qed

end

text \<open>The cache in front of the reverse proxy, with a transport that leaves the world alone.\<close>

definition stored_or_own :: "(string \<rightharpoonup> cache_entry) \<Rightarrow> request \<Rightarrow> string \<Rightarrow> cached_response \<Rightarrow> bool" where
  "stored_or_own old r k resp \<longleftrightarrow>
     (\<exists>e. old k = Some e \<and> ce_response e = resp)
     \<or> (has_prefix k (m_key (MerchantFromContext r) @ '':'') \<and> 200 \<le> StatusCode resp \<and> StatusCode resp < 300)"

lemma ReverseProxy_cache:
  "mcache (snd (snd (ReverseProxy px (plain_transport answer) None ip r w s))) = mcache s"
  using ReverseProxy_world [of px answer ip r w s] by auto

interpretation proxied: cache_client "stored_or_own old r" "ReverseProxy px (plain_transport answer) None ip" r
  by unfold_locales (simp_all add: stored_or_own_def ReverseProxy_cache)

section \<open>Properties\<close>

text \<open>C8: personal data is never cached. With the exclusion on and a classifier that asks the PII
  registry, a GET that may return personal data is passed on with the cache exactly as it was,
  and what comes back is what the next handler returned: nothing is looked up and nothing is
  stored.\<close>

theorem pii_never_cached:
  assumes "cc_Enabled cfg" "cc_ExcludePII cfg" "ContainsPII reg r"
  shows "CacheMiddleware cd prfc (NewTierClassifier (Some (ContainsPII reg))) cfg nxt r w s
     = nxt r (w_set w ''X-SP-Proxy-Cache'' ''PII_EXCLUDED'') s"
proof -
  have get: "r_method r = ''GET''" using assms(3) by (auto simp: ContainsPII_def split: if_splits)
  then have "tier_Classify (NewTierClassifier (Some (ContainsPII reg))) (r_method r) (r_path r) r
      = tier_never ''PII_EXCLUDED''"
    using assms(3) by (simp add: tier_Classify_def NewTierClassifier_def)
  then show ?thesis
    using assms(1,2) by (simp add: CacheMiddleware_def handleCachePreconditions_def tier_never_def Let_def)
qed

definition demo_cache_config :: cache_config where
  "demo_cache_config = \<lparr>cc_Enabled = True, cc_MaxMemory = 1000, cc_DefaultTTL = ''60s'', cc_MaxClientTTL = ''24h'',
     cc_ExcludePII = True\<rparr>"

theorem pii_never_cached_witness:
  "\<forall>cd prfc w. \<forall>s :: cache_world. \<forall>nxt.
     CacheMiddleware cd prfc (NewTierClassifier (Some (ContainsPII NewRegistryFailClosed))) demo_cache_config nxt
       (get_request ''/catalog/2022-04-01/items'') w s
     = nxt (get_request ''/catalog/2022-04-01/items'') (w_set w ''X-SP-Proxy-Cache'' ''PII_EXCLUDED'') s"
proof (intro allI)
  fix cd prfc w and s :: cache_world and nxt
  have "ClassifyKnown ''/catalog/2022-04-01/items'' = (''/catalog/2022-04-01/items'', False)" by code_simp
  then have "ContainsPII NewRegistryFailClosed (get_request ''/catalog/2022-04-01/items'')"
    by (simp add: ContainsPII_def NewRegistryFailClosed_def get_request_def)
  then show "CacheMiddleware cd prfc (NewTierClassifier (Some (ContainsPII NewRegistryFailClosed))) demo_cache_config nxt
       (get_request ''/catalog/2022-04-01/items'') w s
     = nxt (get_request ''/catalog/2022-04-01/items'') (w_set w ''X-SP-Proxy-Cache'' ''PII_EXCLUDED'') s"
    by (intro pii_never_cached) (simp_all add: demo_cache_config_def)
qed

text \<open>A client cannot keep a response in the cache longer than the operator allows. Whatever
  headers it sends, the time to live is the tier's own or a positive time of at most the
  configured maximum, 24 hours without one.\<close>

theorem client_ttl_clamped:
  "resolveTTL prfc h tier cfg t = tc_DefaultTTL tier
   \<or> (0 < resolveTTL prfc h tier cfg t \<and> resolveTTL prfc h tier cfg t \<le> maxClientTTL cfg)"
proof -
  have "0 < maxClientTTL cfg"
    by (auto simp: maxClientTTL_def duration_defs split: option.splits)
  then show ?thesis by (auto simp: resolveTTL_def Let_def split: option.splits)
qed

text \<open>What a mutation deletes, and what it leaves.\<close>

lemma InvalidateOnMutation_own:
  assumes "mc_inv mc" "m \<noteq> ''GET''"
  shows "mc_entries (InvalidateOnMutation mc mk m path) (GenerateCacheKey mk ''GET'' path q sfx) = None"
proof -
  obtain p ps where ps: "mutation_prefixes mk m path = p # ps"
    using assms(2) by (simp add: mutation_prefixes_def)
  have hd: "p = mk @ '':GET:'' @ ExtractResourcePrefix path"
    using ps assms(2) by (simp add: mutation_prefixes_def)
  have "has_prefix (key_rest path q sfx) (ExtractResourcePrefix path)"
    using has_prefix_trans [of "key_rest path q sfx" path] ExtractResourcePrefix_prefix
    by (simp add: key_rest_def)
  then have "has_prefix (GenerateCacheKey mk ''GET'' path q sfx) p"
    by (simp add: hd GenerateCacheKey_rest)
  then show ?thesis using InvalidateOnMutation_spec [OF assms(1)] by (simp add: ps)
qed

lemma batch_listing_prefix_form:
  assumes "batch_listing_prefix mk path = Some p"
  shows "\<exists>x. p = mk @ '':'' @ ''BATCH'' @ '':'' @ x"
proof -
  obtain sku where "p = mk @ '':BATCH:/batches/products/pricing/v0/listingOffers:listingOffers:'' @ sku @ '':''"
    using assms by (auto simp: batch_listing_prefix_def Let_def split: if_splits option.splits list.splits)
  then have "p = mk @ '':'' @ ''BATCH'' @ '':'' @ (''/batches/products/pricing/v0/listingOffers:listingOffers:'' @ sku @ '':'')"
    by simp
  then show ?thesis by (rule exI)
qed

lemma mutation_prefix_form:
  assumes "p \<in> set (mutation_prefixes mk m path)"
  shows "\<exists>m1 x. m1 \<in> {''GET'', ''BATCH''} \<and> p = mk @ '':'' @ m1 @ '':'' @ x"
proof -
  have "p = mk @ '':GET:'' @ ExtractResourcePrefix path \<or> batch_listing_prefix mk path = Some p"
  proof (cases "m = ''GET''")
    case True
    then show ?thesis using assms unfolding mutation_prefixes_def if_P [OF True] list.set by blast
  next
    case False
    have tail: "set (if c then (case batch_listing_prefix mk path of None \<Rightarrow> [] | Some p \<Rightarrow> [p]) else [])
        \<subseteq> {p. batch_listing_prefix mk path = Some p}" for c
      by (cases "batch_listing_prefix mk path") (cases c; simp)+
    show ?thesis using assms tail unfolding mutation_prefixes_def if_not_P [OF False] list.set by blast
  qed
  then show ?thesis
  proof
    assume "p = mk @ '':GET:'' @ ExtractResourcePrefix path"
    then have "p = mk @ '':'' @ ''GET'' @ '':'' @ ExtractResourcePrefix path" by simp
    moreover have "''GET'' \<in> {''GET'', ''BATCH''}" by simp
    ultimately show ?thesis by metis
  next
    assume "batch_listing_prefix mk path = Some p"
    from batch_listing_prefix_form [OF this] show ?thesis by blast
  qed
qed

lemma cache_method_ok:
  "m \<in> {''GET'', ''POST'', ''BATCH''} \<Longrightarrow> CHR '':'' \<notin> set m \<and> length m < 32"
  by auto

lemma InvalidateOnMutation_other:
  assumes "mc_inv mc" "merchant_key_ok mk" "merchant_key_ok mk'" "mk \<noteq> mk'"
    and "m' \<in> {''GET'', ''POST'', ''BATCH''}"
  shows "mc_entries (InvalidateOnMutation mc mk m path) (mk' @ '':'' @ m' @ '':'' @ x')
     = mc_entries mc (mk' @ '':'' @ m' @ '':'' @ x')"
proof -
  have "\<not> has_prefix (mk' @ '':'' @ m' @ '':'' @ x') p" if p: "p \<in> set (mutation_prefixes mk m path)" for p
  proof
    assume "has_prefix (mk' @ '':'' @ m' @ '':'' @ x') p"
    then obtain z where z: "mk' @ '':'' @ m' @ '':'' @ x' = p @ z" unfolding has_prefix_iff by blast
    obtain m1 x where m1: "m1 \<in> {''GET'', ''BATCH''}" and x: "p = mk @ '':'' @ m1 @ '':'' @ x"
      using mutation_prefix_form [OF p] by blast
    have ok: "CHR '':'' \<notin> set m1" "length m1 < 32" "CHR '':'' \<notin> set m'" "length m' < 32"
      using cache_method_ok [of m1] cache_method_ok [of m'] m1 assms(5) by blast+
    from z x have "mk' @ '':'' @ m' @ '':'' @ x' = mk @ '':'' @ m1 @ '':'' @ (x @ z)"
      by (simp only: append_assoc)
    then show False using keys_apart [OF assms(3,2) ok(3,1,4,2)] assms(4) by blast
  qed
  then have "\<not> list_ex (has_prefix (mk' @ '':'' @ m' @ '':'' @ x')) (mutation_prefixes mk m path)"
    by (auto simp: list_ex_iff)
  then show ?thesis using InvalidateOnMutation_spec [OF assms(1)] by simp
qed

text \<open>C11: a mutation leaves no stale entry behind. When a request with a method other than GET and
  POST is passed on, the entries for a GET on the same path by the same merchant, whatever the
  query and suffix, are already gone. If the keys of both merchants are of the form that keeps keys apart, an id without a colon or the
  hash of a token, then every entry of the other merchant is still there. (For an id with a colon the prefix that is deleted may
  reach into another merchant's keys.)\<close>

theorem mutation_invalidates_first:
  assumes "cc_Enabled cfg" "r_method r \<noteq> ''GET''" "r_method r \<noteq> ''POST''" "mc_inv (mcache s)"
  defines "mk \<equiv> m_key (MerchantFromContext r)"
  shows "\<exists>mc. CacheMiddleware cd prfc tiers cfg nxt r w s = nxt r w (s\<lparr>mcache := mc\<rparr>)
    \<and> mc_inv mc \<and> (\<forall>q sfx. mc_entries mc (GenerateCacheKey mk ''GET'' (r_path r) q sfx) = None)
    \<and> (merchant_key_ok mk \<longrightarrow> (\<forall>mk' m' x. merchant_key_ok mk' \<and> mk' \<noteq> mk \<and> m' \<in> {''GET'', ''POST'', ''BATCH''} \<longrightarrow>
         mc_entries mc (mk' @ '':'' @ m' @ '':'' @ x) = mc_entries (mcache s) (mk' @ '':'' @ m' @ '':'' @ x)))"
proof (intro exI conjI impI allI)
  let ?mc = "InvalidateOnMutation (mcache s) mk (r_method r) (r_path r)"
  have "tier_Classify tiers (r_method r) (r_path r) r = tier_never []"
    using assms(2,3) by (simp add: tier_Classify_def)
  then show "CacheMiddleware cd prfc tiers cfg nxt r w s = nxt r w (s\<lparr>mcache := ?mc\<rparr>)"
    using assms(1,2) by (simp add: CacheMiddleware_def handleCachePreconditions_def tier_never_def mk_def Let_def)
  show "mc_inv ?mc" using InvalidateOnMutation_spec [OF assms(4)] by blast
  show "mc_entries ?mc (GenerateCacheKey mk ''GET'' (r_path r) q sfx) = None" for q sfx
    by (rule InvalidateOnMutation_own [OF assms(4,2)])
  show "mc_entries ?mc (mk' @ '':'' @ m' @ '':'' @ x) = mc_entries (mcache s) (mk' @ '':'' @ m' @ '':'' @ x)"
    if "merchant_key_ok mk" "merchant_key_ok mk' \<and> mk' \<noteq> mk \<and> m' \<in> {''GET'', ''POST'', ''BATCH''}" for mk' m' x
    using InvalidateOnMutation_other [OF assms(4) that(1)] that(2) by blast
qed

definition put_request :: request where
  "put_request = (get_request ''/listings/2021-08-01/items/S/SKU'')\<lparr>r_method := ''PUT'',
     ctx_merchant := Some \<lparr>m_key = ''A'', m_source = ''header''\<rparr>\<rparr>"

definition demo_world :: "mem_cache \<Rightarrow> cache_world" where
  "demo_world mc = \<lparr>now = 0, lim = NewLimiter (Fin 1) 1, mcache = mc\<rparr>"

lemma demo_world_fields [simp]: "now (demo_world mc) = 0" "mcache (demo_world mc) = mc"
  by (simp_all add: demo_world_def)

theorem mutation_invalidates_first_witness:
  "\<forall>cd prfc tiers nxt w. \<exists>mc. CacheMiddleware cd prfc tiers demo_cache_config nxt put_request w (demo_world (NewMemoryCache 1000))
      = nxt put_request w ((demo_world (NewMemoryCache 1000))\<lparr>mcache := mc\<rparr>)
    \<and> mc_entries mc (GenerateCacheKey ''A'' ''GET'' ''/listings/2021-08-01/items/S/SKU'' [] []) = None"
proof (intro allI)
  fix cd prfc tiers nxt w
  have "mc_inv (mcache (demo_world (NewMemoryCache 1000)))" by (simp add: mc_inv_New)
  moreover have "cc_Enabled demo_cache_config" "r_method put_request \<noteq> ''GET''" "r_method put_request \<noteq> ''POST''"
    by (simp_all add: demo_cache_config_def put_request_def)
  moreover have "m_key (MerchantFromContext put_request) = ''A''" "r_path put_request = ''/listings/2021-08-01/items/S/SKU''"
    by (simp_all add: put_request_def get_request_def MerchantFromContext_def)
  ultimately show "\<exists>mc. CacheMiddleware cd prfc tiers demo_cache_config nxt put_request w (demo_world (NewMemoryCache 1000))
      = nxt put_request w ((demo_world (NewMemoryCache 1000))\<lparr>mcache := mc\<rparr>)
    \<and> mc_entries mc (GenerateCacheKey ''A'' ''GET'' ''/listings/2021-08-01/items/S/SKU'' [] []) = None"
    using mutation_invalidates_first [of demo_cache_config put_request "demo_world (NewMemoryCache 1000)"] by metis
qed

text \<open>When a request gets as far as the cache.\<close>

definition cache_consulted :: "cache_config \<Rightarrow> tier_config \<Rightarrow> request \<Rightarrow> bool" where
  "cache_consulted cfg tier r \<longleftrightarrow>
     cc_Enabled cfg \<and> \<not> (tc_Tier tier = CacheTierNever \<and> tc_Reason tier = []) \<and>
     \<not> (cc_ExcludePII cfg \<and> tc_Reason tier = ''PII_EXCLUDED'') \<and> hdr_get (r_header r) ''X-SP-Proxy-No-Cache'' \<noteq> ''true''"

lemma consulted_GET:
  assumes "r_method r = ''GET''" "cache_consulted cfg (tier_Classify tiers ''GET'' (r_path r) r) r"
  shows "CacheMiddleware cd prfc tiers cfg nxt r w s = handleGetCache prfc (tier_Classify tiers ''GET'' (r_path r) r) cfg nxt r w s"
  using assms by (auto simp: CacheMiddleware_def handleCachePreconditions_def cache_consulted_def Let_def)

text \<open>C32: a cached GET is replayed. If a GET that may be cached misses and the next handler answers with a 2xx status,
  then the same request is answered from the cache with the same status and body, whatever the next
  handler would do, as long as the time to live has not passed and the entry is still the one that was stored: nothing has
  evicted, deleted or replaced it.\<close>

theorem get_cache_replays:
  fixes tiers :: tier_classifier and r :: request
  assumes "tier = tier_Classify tiers ''GET'' (r_path r) r" "r_method r = ''GET''" "cache_consulted cfg tier r"
    and "fst (mc_Get (mcache s) (get_cache_key r) (now s)) = None"
    and "nxt r newResponseRecorder (s\<lparr>mcache := snd (mc_Get (mcache s) (get_cache_key r) (now s))\<rparr>) = (rec, h, s1)"
    and "mc_inv (mcache s1)" "200 \<le> rec_statusCode rec" "rec_statusCode rec < 300"
    and "CacheMiddleware cd prfc tiers cfg nxt r w s = (w', h', s')"
    and "mc_entries (mcache s2) (get_cache_key r) = mc_entries (mcache s') (get_cache_key r)"
    and "now s2 \<le> now s1 + resolveTTL prfc h tier (Some cfg) (now s1)"
  shows "\<exists>v. (\<forall>nxt2. fst (CacheMiddleware cd prfc tiers cfg nxt2 r new_rw s2) = v)
    \<and> w_status v = rec_statusCode rec \<and> w_body v = w_body rec
    \<and> w_status w' = (if w_codes w = [] then rec_statusCode rec else w_status w)"
proof -
  let ?k = "get_cache_key r" and ?ttl = "resolveTTL prfc h tier (Some cfg) (now s1)"
  let ?resp = "recorded_response rec ?ttl (now s1) r"
  note mw = consulted_GET [OF assms(2), of cfg tiers, folded assms(1), OF assms(3)]
  obtain mc where mc: "mc_Get (mcache s) ?k (now s) = (None, mc)" using assms(4) by (metis prod.collapse)
  have "(w', h', s') = (copy_recorded w rec, h, s1\<lparr>mcache := mc_Set (mcache s1) ?k ?resp ?ttl (now s1)\<rparr>)"
    using assms(5,7,8) mc by (simp add: assms(9) [symmetric] mw handleGetCache_def recordAndCache_def Let_def)
  then have res: "w' = copy_recorded w rec" "s' = s1\<lparr>mcache := mc_Set (mcache s1) ?k ?resp ?ttl (now s1)\<rparr>"
    by simp_all
  have "mc_entries (mcache s2) ?k = Some \<lparr>ce_response = ?resp, ce_expiresAt = now s1 + ?ttl, ce_size = entrySize ?resp\<rparr>"
    using mc_Set_spec(2) [OF assms(6)] res(2) assms(10) by simp
  then obtain mc2 where hit: "mc_Get (mcache s2) ?k (now s2) = (Some ?resp, mc2)"
    using assms(11) by (simp add: mc_Get_def)
  have "fst (CacheMiddleware cd prfc tiers cfg nxt2 r new_rw s2) = serveCachedResponse new_rw ?resp (now s2)" for nxt2
    by (simp add: mw handleGetCache_def hit)
  moreover have "w_status (serveCachedResponse new_rw ?resp (now s2)) = rec_statusCode rec"
    "w_body (serveCachedResponse new_rw ?resp (now s2)) = w_body rec"
    by (simp_all add: serveCachedResponse_def recorded_response_def w_status_def Let_def new_rw_def)
  moreover have "w_status w' = (if w_codes w = [] then rec_statusCode rec else w_status w)"
    by (simp add: res(1) copy_recorded_def w_status_def Let_def split: list.splits)
  ultimately show ?thesis by blast
qed

definition demo_upstream :: "cache_world handler" where
  "demo_upstream = ReverseProxy eu_proxy (plain_transport (\<lambda>_ _. Inr ok_response)) None None"

lemma demo_upstream_eq:
  "demo_upstream (get_request p) newResponseRecorder s
     = (\<lparr>w_header = [], w_codes = [200], w_body = ''{}''\<rparr>, [], s)"
  by (simp add: demo_upstream_def ReverseProxy_def plain_transport_def newResponseModifierWithLimiter_def
      MerchantFromContext_def get_request_def ok_response_def removeHopByHopHeaders_def connection_tokens_def
      hdr_vals_def hopHeaders_def hdr_del_def newResponseRecorder_def new_rw_def hdr_add_all_def w_write_def
      w_write_header_def)

lemma demo_tier_Classify:
  "tier_Classify (NewTierClassifier None) ''GET'' ''/definitions/'' r
     = \<lparr>tc_Tier = CacheTierAggressive, tc_DefaultTTL = 24 * hour, tc_Reason = [], tc_BatchCacheable = False,
        tc_PostCacheable = False\<rparr>"
  by (simp add: tier_Classify_def NewTierClassifier_def defaultTierPatterns_def tierPatterns_stable_def Let_def)

theorem get_cache_replays_witness:
  "\<exists>v. (\<forall>nxt2. fst (CacheMiddleware demo_codec (\<lambda>_. None) (NewTierClassifier None) demo_cache_config nxt2 (get_request ''/definitions/'') new_rw
         (snd (snd (CacheMiddleware demo_codec (\<lambda>_. None) (NewTierClassifier None) demo_cache_config demo_upstream
            (get_request ''/definitions/'') new_rw (demo_world (NewMemoryCache 1000)))))) = v)
     \<and> w_status v = 200 \<and> w_body v = ''{}''"
proof -
  let ?s = "demo_world (NewMemoryCache 1000)" and ?r = "get_request ''/definitions/''"
  let ?s1 = "?s\<lparr>mcache := snd (mc_Get (mcache ?s) (get_cache_key ?r) (now ?s))\<rparr>"
  let ?rec = "\<lparr>w_header = [], w_codes = [200], w_body = ''{}''\<rparr>"
  let ?tier = "tier_Classify (NewTierClassifier None) ''GET'' (r_path ?r) ?r"
  have r: "r_method ?r = ''GET''" "r_path ?r = ''/definitions/''" "r_header ?r = []" by (simp_all add: get_request_def)
  have use: "cache_consulted demo_cache_config ?tier ?r"
    by (simp add: cache_consulted_def r demo_tier_Classify demo_cache_config_def hdr_get_def hdr_vals_def)
  obtain w' h' s' where res: "CacheMiddleware demo_codec (\<lambda>_. None) (NewTierClassifier None) demo_cache_config demo_upstream ?r new_rw ?s = (w', h', s')"
    by (metis prod_cases3)
  have ttl: "0 \<le> resolveTTL (\<lambda>_. None) [] ?tier (Some demo_cache_config) t" for t
    by (simp add: resolveTTL_def hdr_get_def hdr_vals_def r demo_tier_Classify duration_defs)
  have get: "mc_Get (NewMemoryCache 1000) (get_cache_key ?r) 0 = (None, (NewMemoryCache 1000)\<lparr>mc_misses := Suc 0\<rparr>)"
    by (simp add: mc_Get_def NewMemoryCache_def)
  have now: "now s' = 0"
    using res by (auto simp: consulted_GET [OF r(1) use] handleGetCache_def recordAndCache_def get demo_upstream_eq Let_def
        split: if_splits)
  have "\<exists>v. (\<forall>nxt2. fst (CacheMiddleware demo_codec (\<lambda>_. None) (NewTierClassifier None) demo_cache_config nxt2 ?r new_rw s') = v)
      \<and> w_status v = rec_statusCode ?rec \<and> w_body v = w_body ?rec
      \<and> w_status w' = (if w_codes new_rw = [] then rec_statusCode ?rec else w_status new_rw)"
    by (rule get_cache_replays [where s = ?s and nxt = demo_upstream and h = "[]" and ?s1.0 = ?s1, OF refl r(1) use _ _ _ _ _ res refl])
      (use ttl in \<open>simp_all add: get demo_upstream_eq mc_inv_New now rec_statusCode_def\<close>)
  then show ?thesis by (auto simp: res rec_statusCode_def)
qed

text \<open>C9: only successes are cached, each for its own merchant. Whatever the request, an entry that is in
  the cache afterwards was there before with the same response, or holds a response with a 2xx
  status under a key of the merchant who made the request. The next handler only has to
  leave the cache well formed and add nothing to it.\<close>

theorem only_success_cached:
  assumes "mc_inv (mcache s)"
    and "\<And>w s. mc_inv (mcache s) \<Longrightarrow> mc_inv (mcache (snd (snd (nxt r w s))))
           \<and> mc_entries (mcache (snd (snd (nxt r w s)))) \<subseteq>\<^sub>m mc_entries (mcache s)"
    and "mc_entries (mcache (snd (snd (CacheMiddleware cd prfc tiers cfg nxt r w s)))) k = Some e"
  shows "(\<exists>e0. mc_entries (mcache s) k = Some e0 \<and> ce_response e0 = ce_response e)
    \<or> (has_prefix k (m_key (MerchantFromContext r) @ '':'')
        \<and> 200 \<le> StatusCode (ce_response e) \<and> StatusCode (ce_response e) < 300)"
proof -
  let ?P = "stored_or_own (mc_entries (mcache s)) r"
  have next_ok: "cache_all ?P (mcache (snd (snd (nxt r w' s'))))" if c: "cache_all ?P (mcache s')" for w' s'
  proof -
    have inv: "mc_inv (mcache s')" using c by (simp add: cache_all_def)
    have "mc_entries (mcache s') j = Some e" if "mc_entries (mcache (snd (snd (nxt r w' s')))) j = Some e" for j e
      using assms(2) [OF inv, of w'] that by (metis domI map_le_def)
    then show ?thesis using assms(2) [OF inv, of w'] c by (auto simp: cache_all_def)
  qed
  have "cache_client ?P nxt r"
    by unfold_locales (simp add: stored_or_own_def, rule next_ok)
  moreover have "cache_all ?P (mcache s)" using assms(1) by (auto simp: cache_all_def stored_or_own_def)
  ultimately have "cache_all ?P (mcache (snd (snd (CacheMiddleware cd prfc tiers cfg nxt r w s))))"
    by (rule cache_client.middleware_ok)
  then have "?P k (ce_response e)" using assms(3) by (simp add: cache_all_def)
  then show ?thesis unfolding stored_or_own_def .
qed

theorem only_success_cached_witness:
  "\<exists>e. mc_entries (mcache (snd (snd (CacheMiddleware demo_codec (\<lambda>_. None) (NewTierClassifier None) demo_cache_config
        demo_upstream (get_request ''/definitions/'') new_rw (demo_world (NewMemoryCache 1000))))))
      (get_cache_key (get_request ''/definitions/'')) = Some e
    \<and> 200 \<le> StatusCode (ce_response e) \<and> StatusCode (ce_response e) < 300"
proof -
  let ?r = "get_request ''/definitions/''"
  have r: "r_method ?r = ''GET''" "r_path ?r = ''/definitions/''" "r_header ?r = []" by (simp_all add: get_request_def)
  have get: "mc_Get (NewMemoryCache 1000) (get_cache_key ?r) 0 = (None, (NewMemoryCache 1000)\<lparr>mc_misses := Suc 0\<rparr>)"
    by (simp add: mc_Get_def NewMemoryCache_def)
  have inv: "mc_inv ((NewMemoryCache 1000)\<lparr>mc_misses := Suc 0\<rparr>)" by (simp add: mc_inv_New)
  let ?res = "CacheMiddleware demo_codec (\<lambda>_. None) (NewTierClassifier None) demo_cache_config
        demo_upstream ?r new_rw (demo_world (NewMemoryCache 1000))"
  have "\<exists>e. mc_entries (mcache (snd (snd ?res))) (get_cache_key ?r) = Some e"
    by (simp add: CacheMiddleware_def demo_cache_config_def r demo_tier_Classify handleCachePreconditions_def
        hdr_get_def hdr_vals_def handleGetCache_def recordAndCache_def get demo_upstream_eq rec_statusCode_def Let_def
        mc_Set_spec(2) [OF inv])
  then obtain e where e: "mc_entries (mcache (snd (snd ?res))) (get_cache_key ?r) = Some e" by blast
  have nxt: "mc_inv (mcache s) \<Longrightarrow> mc_inv (mcache (snd (snd (demo_upstream ?r w s))))
      \<and> mc_entries (mcache (snd (snd (demo_upstream ?r w s)))) \<subseteq>\<^sub>m mc_entries (mcache s)" for w s
    by (simp add: demo_upstream_def ReverseProxy_cache)
  have "200 \<le> StatusCode (ce_response e) \<and> StatusCode (ce_response e) < 300"
    using only_success_cached [OF _ nxt e] mc_inv_New [of 1000] by (auto simp: NewMemoryCache_def)
  with e show ?thesis by blast
qed

end
