(* ===== verification/Config.thy ===== *)
theory Config
  imports CacheMiddleware
begin

text \<open>
  The configuration (\<^verbatim>\<open>internal/config/config.go\<close>): reading it from environment variables with
  defaults, validating it, and the warnings.

  \<^verbatim>\<open>os.Getenv\<close> is the function \<open>env\<close>, empty where a variable is unset; \<^verbatim>\<open>os.Stat\<close> is the
  predicate \<open>exists\<close>. Errors and warnings are values of a datatype with the arguments that their
  texts mention.

  Shown: reading with a logger gives the same configuration; the defaults are valid and
  without warnings even in production; a valid configuration meets what the limiter, the cache
  and the request queue rely on; the production warnings are not errors.
\<close>

section \<open>The sections of the configuration\<close>

record server_config =
  PortEU :: int
  PortNA :: int
  PortFE :: int
  PortDashboard :: int
  DashboardBindAddr :: string
  RegionBindAddr :: string
  StrictMerchant :: bool
  ShutdownTimeout :: string

record pii_config =
  FailClosed :: bool
  QueryParamsExtra :: "string list"

record storage_config =
  st_Backend :: string
  SQLitePath :: string

record s3_config =
  s3_Bucket :: string
  s3_Region :: string
  s3_Endpoint :: string
  s3_AccessKey :: string
  s3_SecretKey :: string
  s3_PathStyle :: bool
  s3_SSE :: string
  s3_SSEKMSKey :: string

record bodies_config =
  bd_Enabled :: bool
  bd_BasePath :: string
  bd_Backend :: string
  bd_RecentMaxAge :: string
  bd_ArchiveMaxAge :: string
  bd_Compression :: string
  bd_MaxCaptureSize :: int
  bd_MaxBytes :: int
  bd_S3 :: s3_config

record purge_config =
  MetadataRetention :: string
  AuditRetention :: string

record prometheus_config =
  pm_Enabled :: bool
  pm_Port :: int
  pm_Path :: string

record rdt_config =
  AutoMint :: bool

record config =
  cf_Env :: string
  cf_Server :: server_config
  cf_RateLimit :: rl_config
  cf_Cache :: cache_config
  cf_PII :: pii_config
  cf_Storage :: storage_config
  cf_Bodies :: bodies_config
  cf_Purge :: purge_config
  cf_Prometheus :: prometheus_config
  cf_RDT :: rdt_config

section \<open>Reading the environment\<close>

type_synonym env = "string \<Rightarrow> string"

text \<open>\<^verbatim>\<open>strconv.ParseBool\<close>; \<^verbatim>\<open>strconv.ParseInt(v, 10, 64)\<close> is \<^verbatim>\<open>Atoi\<close> on a 64-bit machine.\<close>

definition parse_bool :: "string \<Rightarrow> bool option" where
  "parse_bool s =
     (if s \<in> set [''1'', ''t'', ''T'', ''true'', ''TRUE'', ''True''] then Some True
      else if s \<in> set [''0'', ''f'', ''F'', ''false'', ''FALSE'', ''False''] then Some False
      else None)"

definition envInt :: "env \<Rightarrow> string \<Rightarrow> int \<Rightarrow> int" where
  "envInt env key fallback =
     (if env key \<noteq> [] then (case atoi (env key) of Some i \<Rightarrow> i | None \<Rightarrow> fallback) else fallback)"

definition envInt64 :: "env \<Rightarrow> string \<Rightarrow> int \<Rightarrow> int" where
  "envInt64 env key fallback =
     (if env key \<noteq> [] then (case atoi (env key) of Some i \<Rightarrow> i | None \<Rightarrow> fallback) else fallback)"

definition envStr :: "env \<Rightarrow> string \<Rightarrow> string \<Rightarrow> string" where
  "envStr env key fallback = (if env key \<noteq> [] then env key else fallback)"

definition envFloat :: "env \<Rightarrow> string \<Rightarrow> float64 \<Rightarrow> float64" where
  "envFloat env key fallback =
     (if env key \<noteq> [] then (case parse_float (env key) of Some f \<Rightarrow> f | None \<Rightarrow> fallback) else fallback)"

definition envBool :: "env \<Rightarrow> string \<Rightarrow> bool \<Rightarrow> bool" where
  "envBool env key fallback =
     (if env key \<noteq> [] then (case parse_bool (env key) of Some b \<Rightarrow> b | None \<Rightarrow> fallback) else fallback)"

text \<open>The variants that log: the value, and the warnings as pairs of key and value.\<close>

definition envLog :: "(string \<Rightarrow> 'v option) \<Rightarrow> env \<Rightarrow> string \<Rightarrow> 'v \<Rightarrow> 'v \<times> (string \<times> string) list" where
  "envLog parse env key fallback =
     (if env key \<noteq> []
      then (case parse (env key) of Some v \<Rightarrow> (v, []) | None \<Rightarrow> (fallback, [(key, env key)]))
      else (fallback, []))"

definition envIntLog :: "env \<Rightarrow> string \<Rightarrow> int \<Rightarrow> int \<times> (string \<times> string) list" where
  "envIntLog = envLog atoi"

definition envInt64Log :: "env \<Rightarrow> string \<Rightarrow> int \<Rightarrow> int \<times> (string \<times> string) list" where
  "envInt64Log = envLog atoi"

definition envFloatLog :: "env \<Rightarrow> string \<Rightarrow> float64 \<Rightarrow> float64 \<times> (string \<times> string) list" where
  "envFloatLog = envLog parse_float"

definition envBoolLog :: "env \<Rightarrow> string \<Rightarrow> bool \<Rightarrow> bool \<times> (string \<times> string) list" where
  "envBoolLog = envLog parse_bool"

definition envStrSlice :: "env \<Rightarrow> string \<Rightarrow> string list" where
  "envStrSlice env key =
     (if env key = [] then []
      else filter (\<lambda>p. p \<noteq> []) (map trim_space (split_on (CHR '','') (env key))))"

text \<open>The functions that \<^verbatim>\<open>loadConfig\<close> picks, with or without a logger.\<close>

record readers =
  iInt :: "string \<Rightarrow> int \<Rightarrow> int"
  iInt64 :: "string \<Rightarrow> int \<Rightarrow> int"
  iFloat :: "string \<Rightarrow> float64 \<Rightarrow> float64"
  iBool :: "string \<Rightarrow> bool \<Rightarrow> bool"

definition readers_for :: "bool \<Rightarrow> env \<Rightarrow> readers" where
  "readers_for logger env =
     (if logger
      then \<lparr>iInt = \<lambda>k f. fst (envIntLog env k f), iInt64 = \<lambda>k f. fst (envInt64Log env k f),
            iFloat = \<lambda>k f. fst (envFloatLog env k f), iBool = \<lambda>k f. fst (envBoolLog env k f)\<rparr>
      else \<lparr>iInt = envInt env, iInt64 = envInt64 env, iFloat = envFloat env, iBool = envBool env\<rparr>)"

definition load_server :: "env \<Rightarrow> readers \<Rightarrow> server_config" where
  "load_server env i =
     \<lparr>PortEU = iInt i ''SP_PROXY_PORT_EU'' 8080, PortNA = iInt i ''SP_PROXY_PORT_NA'' 8081,
      PortFE = iInt i ''SP_PROXY_PORT_FE'' 8082, PortDashboard = iInt i ''SP_PROXY_PORT_DASHBOARD'' 9090,
      DashboardBindAddr = envStr env ''SP_PROXY_DASHBOARD_BIND_ADDR'' ''127.0.0.1'',
      RegionBindAddr = envStr env ''SP_PROXY_REGION_BIND_ADDR'' ''127.0.0.1'',
      StrictMerchant = iBool i ''SP_PROXY_STRICT_MERCHANT'' False,
      ShutdownTimeout = envStr env ''SP_PROXY_SHUTDOWN_TIMEOUT'' ''30s''\<rparr>"

definition load_rate_limit :: "env \<Rightarrow> readers \<Rightarrow> rl_config" where
  "load_rate_limit env i =
     \<lparr>rl_Enabled = iBool i ''SP_PROXY_RATELIMIT_ENABLED'' True,
      rl_DefaultMode = envStr env ''SP_PROXY_RATELIMIT_MODE'' ''queue'',
      rl_QueueTimeout = envStr env ''SP_PROXY_RATELIMIT_QUEUE_TIMEOUT'' ''60s'',
      rl_QueueMaxDepth = iInt i ''SP_PROXY_RATELIMIT_QUEUE_MAX_DEPTH'' 100,
      rl_ThrottleFactor = iFloat i ''SP_PROXY_RATELIMIT_THROTTLE_FACTOR'' (Fin (8 / 10)),
      rl_BucketTTL = envStr env ''SP_PROXY_BUCKET_TTL'' ''2h'', rl_MerchantModes = None, rl_EndpointModes = None\<rparr>"

definition load_cache :: "env \<Rightarrow> readers \<Rightarrow> cache_config" where
  "load_cache env i =
     \<lparr>cc_Enabled = iBool i ''SP_PROXY_CACHE_ENABLED'' True,
      cc_MaxMemory = iInt64 i ''SP_PROXY_CACHE_MAX_MEMORY'' 268435456,
      cc_DefaultTTL = envStr env ''SP_PROXY_CACHE_DEFAULT_TTL'' ''60s'',
      cc_MaxClientTTL = envStr env ''SP_PROXY_CACHE_MAX_CLIENT_TTL'' ''24h'',
      cc_ExcludePII = iBool i ''SP_PROXY_CACHE_EXCLUDE_PII'' True\<rparr>"

definition load_s3 :: "env \<Rightarrow> readers \<Rightarrow> s3_config" where
  "load_s3 env i =
     \<lparr>s3_Bucket = envStr env ''SP_PROXY_S3_BUCKET'' [], s3_Region = envStr env ''SP_PROXY_S3_REGION'' [],
      s3_Endpoint = envStr env ''SP_PROXY_S3_ENDPOINT'' [], s3_AccessKey = envStr env ''SP_PROXY_S3_ACCESS_KEY'' [],
      s3_SecretKey = envStr env ''SP_PROXY_S3_SECRET_KEY'' [], s3_PathStyle = iBool i ''SP_PROXY_S3_PATH_STYLE'' False,
      s3_SSE = envStr env ''SP_PROXY_S3_SSE'' [], s3_SSEKMSKey = envStr env ''SP_PROXY_S3_SSE_KMS_KEY'' []\<rparr>"

definition load_bodies :: "env \<Rightarrow> readers \<Rightarrow> bodies_config" where
  "load_bodies env i =
     \<lparr>bd_Enabled = iBool i ''SP_PROXY_BODIES_ENABLED'' True,
      bd_BasePath = envStr env ''SP_PROXY_BODIES_PATH'' ''/data/bodies'',
      bd_Backend = envStr env ''SP_PROXY_BODIES_BACKEND'' ''local'',
      bd_RecentMaxAge = envStr env ''SP_PROXY_BODIES_RECENT_MAX_AGE'' ''24h'',
      bd_ArchiveMaxAge = envStr env ''SP_PROXY_BODIES_ARCHIVE_MAX_AGE'' ''720h'',
      bd_Compression = envStr env ''SP_PROXY_BODIES_COMPRESSION'' ''zstd'',
      bd_MaxCaptureSize = iInt64 i ''SP_PROXY_BODIES_MAX_CAPTURE_SIZE'' (256 * 1024),
      bd_MaxBytes = iInt64 i ''SP_PROXY_BODIES_MAX_BYTES'' (8 * 1024 * 1024 * 1024),
      bd_S3 = load_s3 env i\<rparr>"

definition loadConfig :: "bool \<Rightarrow> env \<Rightarrow> config" where
  "loadConfig logger env =
     (let i = readers_for logger env in
      \<lparr>cf_Env = envStr env ''SP_PROXY_ENV'' ''development'', cf_Server = load_server env i,
       cf_RateLimit = load_rate_limit env i, cf_Cache = load_cache env i,
       cf_PII = \<lparr>FailClosed = iBool i ''SP_PROXY_PII_FAIL_CLOSED'' True,
                 QueryParamsExtra = envStrSlice env ''SP_PROXY_PII_QUERY_PARAMS''\<rparr>,
       cf_Storage = \<lparr>st_Backend = envStr env ''SP_PROXY_STORAGE_BACKEND'' ''sqlite'',
                     SQLitePath = envStr env ''SP_PROXY_SQLITE_PATH'' ''/data/sp-proxy.db''\<rparr>,
       cf_Bodies = load_bodies env i,
       cf_Purge = \<lparr>MetadataRetention = envStr env ''SP_PROXY_PURGE_METADATA_RETENTION'' ''720h'',
                   AuditRetention = envStr env ''SP_PROXY_PURGE_AUDIT_RETENTION'' ''9504h''\<rparr>,
       cf_Prometheus = \<lparr>pm_Enabled = iBool i ''SP_PROXY_PROMETHEUS_ENABLED'' True,
                        pm_Port = iInt i ''SP_PROXY_PROMETHEUS_PORT'' 0,
                        pm_Path = envStr env ''SP_PROXY_PROMETHEUS_PATH'' ''/metrics''\<rparr>,
       cf_RDT = \<lparr>AutoMint = iBool i ''SP_PROXY_RDT_AUTO_MINT'' False\<rparr>\<rparr>)"

definition Load :: "env \<Rightarrow> config" where "Load = loadConfig False"

definition LoadWithLogger :: "env \<Rightarrow> config" where "LoadWithLogger = loadConfig True"

definition RegionPort :: "server_config \<Rightarrow> string \<Rightarrow> int" where
  "RegionPort s rg =
     (if rg = ''eu'' then PortEU s else if rg = ''na'' then PortNA s else if rg = ''fe'' then PortFE s else 0)"

section \<open>Validation\<close>

datatype config_error =
    NoProxyPort | NoDashboardPort | BadThrottleFactor float64 | BadQueueDepth int
  | BadDuration string string | NonPositiveDuration string string
  | BadCacheMemory int | BadStorageBackend string | BadCompression string | BadCaptureSize int | BadMaxBytes int
  | S3BucketMissing | BadSSE string | InsecureS3Endpoint string | BadBodiesBackend string
  | SQLiteDirMissing string | BodiesDirMissing string

definition validatePositiveDuration :: "string \<Rightarrow> string \<Rightarrow> config_error option" where
  "validatePositiveDuration name val =
     (case parse_duration val of
        None \<Rightarrow> Some (BadDuration name val)
      | Some d \<Rightarrow> if d \<le> 0 then Some (NonPositiveDuration name val) else None)"

text \<open>The checks run in order; the first error is returned.\<close>

fun first_error :: "'e option list \<Rightarrow> 'e option" where
  "first_error [] = None"
| "first_error (None # es) = first_error es"
| "first_error (Some e # es) = Some e"

definition validateServer :: "config \<Rightarrow> config_error option" where
  "validateServer c =
     (let s = cf_Server c in
      if PortEU s \<le> 0 \<and> PortNA s \<le> 0 \<and> PortFE s \<le> 0 then Some NoProxyPort
      else if PortDashboard s \<le> 0 then Some NoDashboardPort
      else None)"

definition validateRateLimit :: "config \<Rightarrow> config_error option" where
  "validateRateLimit c =
     (let rl = cf_RateLimit c in
      if rl_ThrottleFactor rl \<le> Fin 0 \<or> rl_ThrottleFactor rl > Fin 1 then Some (BadThrottleFactor (rl_ThrottleFactor rl))
      else if rl_QueueMaxDepth rl \<le> 0 then Some (BadQueueDepth (rl_QueueMaxDepth rl))
      else validatePositiveDuration ''SP_PROXY_BUCKET_TTL'' (rl_BucketTTL rl))"

definition validateCache :: "config \<Rightarrow> config_error option" where
  "validateCache c =
     (let cc = cf_Cache c in
      if \<not> cc_Enabled cc then None
      else if cc_MaxMemory cc \<le> 0 then Some (BadCacheMemory (cc_MaxMemory cc))
      else validatePositiveDuration ''SP_PROXY_CACHE_DEFAULT_TTL'' (cc_DefaultTTL cc))"

text \<open>\<^verbatim>\<open>strings.EqualFold\<close>, on ASCII.\<close>

definition IsProduction :: "config \<Rightarrow> bool" where
  "IsProduction c \<longleftrightarrow> to_lower (cf_Env c) = to_lower ''production''"

definition hasInsecureS3Endpoint :: "string \<Rightarrow> bool" where
  "hasInsecureS3Endpoint ep \<longleftrightarrow> ep \<noteq> [] \<and> has_prefix (to_lower ep) ''http://''"

definition validateBodiesBackend :: "config \<Rightarrow> config_error option" where
  "validateBodiesBackend c =
     (let b = cf_Bodies c in
      if bd_Backend b \<in> set [[], ''local''] then None
      else if bd_Backend b = ''s3'' then
        (if s3_Bucket (bd_S3 b) = [] then Some S3BucketMissing
         else if s3_SSE (bd_S3 b) \<notin> set [[], ''AES256'', ''aws:kms'', ''aws:kms:dsse''] then Some (BadSSE (s3_SSE (bd_S3 b)))
         else if IsProduction c \<and> hasInsecureS3Endpoint (s3_Endpoint (bd_S3 b))
         then Some (InsecureS3Endpoint (s3_Endpoint (bd_S3 b)))
         else None)
      else Some (BadBodiesBackend (bd_Backend b)))"

definition validateBodies :: "config \<Rightarrow> config_error option" where
  "validateBodies c =
     (let b = cf_Bodies c in
      if \<not> bd_Enabled b then None
      else first_error
        [validatePositiveDuration ''SP_PROXY_BODIES_RECENT_MAX_AGE'' (bd_RecentMaxAge b),
         validatePositiveDuration ''SP_PROXY_BODIES_ARCHIVE_MAX_AGE'' (bd_ArchiveMaxAge b),
         (if bd_Compression b \<in> set [[], ''zstd'', ''gzip'', ''none''] then None else Some (BadCompression (bd_Compression b))),
         (if bd_MaxCaptureSize b \<le> 0 then Some (BadCaptureSize (bd_MaxCaptureSize b)) else None),
         (if bd_MaxBytes b < 0 then Some (BadMaxBytes (bd_MaxBytes b)) else None),
         validateBodiesBackend c])"

definition validatePurge :: "config \<Rightarrow> config_error option" where
  "validatePurge c =
     first_error
       [validatePositiveDuration ''SP_PROXY_PURGE_METADATA_RETENTION'' (MetadataRetention (cf_Purge c)),
        validatePositiveDuration ''SP_PROXY_PURGE_AUDIT_RETENTION'' (AuditRetention (cf_Purge c))]"

text \<open>\<^verbatim>\<open>filepath.Clean\<close> and \<^verbatim>\<open>filepath.Dir\<close> for Unix paths: components are collected on a stack.\<close>

fun clean_components :: "bool \<Rightarrow> string list \<Rightarrow> string list \<Rightarrow> string list" where
  "clean_components rooted stack [] = rev stack"
| "clean_components rooted stack (p # ps) =
     (if p = [] \<or> p = ''.'' then clean_components rooted stack ps
      else if p = ''..'' then
        (case stack of
           [] \<Rightarrow> clean_components rooted (if rooted then [] else [''..'']) ps
         | prev # rest \<Rightarrow>
             if prev = ''..'' then clean_components rooted (''..'' # stack) ps
             else clean_components rooted rest ps)
      else clean_components rooted (p # stack) ps)"

definition filepath_Clean :: "string \<Rightarrow> string" where
  "filepath_Clean path =
     (let rooted = (path \<noteq> [] \<and> hd path = CHR ''/'');
          out = (if rooted then ''/'' else []) @ join ''/'' (clean_components rooted [] (split_on (CHR ''/'') path))
      in if out = [] then ''.'' else out)"

definition filepath_Dir :: "string \<Rightarrow> string" where
  "filepath_Dir path = filepath_Clean (rev (dropWhile (\<lambda>c. c \<noteq> CHR ''/'') (rev path)))"

definition validatePaths :: "(string \<Rightarrow> bool) \<Rightarrow> config \<Rightarrow> config_error option" where
  "validatePaths exists c =
     first_error
       [(if SQLitePath (cf_Storage c) \<noteq> '':memory:'' \<and> \<not> exists (filepath_Dir (SQLitePath (cf_Storage c)))
         then Some (SQLiteDirMissing (filepath_Dir (SQLitePath (cf_Storage c)))) else None),
        (if bd_Enabled (cf_Bodies c) \<and> filepath_Dir (bd_BasePath (cf_Bodies c)) \<noteq> ''.''
            \<and> \<not> exists (filepath_Dir (bd_BasePath (cf_Bodies c)))
         then Some (BodiesDirMissing (filepath_Dir (bd_BasePath (cf_Bodies c)))) else None)]"

definition Validate :: "(string \<Rightarrow> bool) \<Rightarrow> config \<Rightarrow> config_error option" where
  "Validate exists c =
     first_error
       [validateServer c, validateRateLimit c, validateCache c,
        (if st_Backend (cf_Storage c) \<noteq> ''sqlite'' then Some (BadStorageBackend (st_Backend (cf_Storage c))) else None),
        validateBodies c, validatePurge c, validatePaths exists c]"

section \<open>Warnings\<close>

datatype config_warning =
    WarnS3Endpoint string | WarnS3SSE | WarnFailOpen | WarnCachePII | WarnArchiveAge string
  | WarnMetadataRetention string | WarnAuditRetention string | WarnDashboardBind string | WarnRegionBind string

definition s3Warnings :: "config \<Rightarrow> config_warning list" where
  "s3Warnings c =
     (let b = cf_Bodies c in
      if \<not> bd_Enabled b \<or> bd_Backend b \<noteq> ''s3'' then []
      else (if hasInsecureS3Endpoint (s3_Endpoint (bd_S3 b)) then [WarnS3Endpoint (s3_Endpoint (bd_S3 b))] else []) @
           (if s3_SSE (bd_S3 b) = [] then [WarnS3SSE] else []))"

definition duration_is :: "(duration \<Rightarrow> bool) \<Rightarrow> string \<Rightarrow> bool" where
  "duration_is P s \<longleftrightarrow> (case parse_duration s of None \<Rightarrow> False | Some d \<Rightarrow> P d)"

definition productionDPPWarnings :: "config \<Rightarrow> config_warning list" where
  "productionDPPWarnings c =
     (if \<not> FailClosed (cf_PII c) then [WarnFailOpen] else []) @
     (if \<not> cc_ExcludePII (cf_Cache c) then [WarnCachePII] else []) @
     (if duration_is (\<lambda>d. d > 30 * 24 * hour) (bd_ArchiveMaxAge (cf_Bodies c))
      then [WarnArchiveAge (bd_ArchiveMaxAge (cf_Bodies c))] else []) @
     (if duration_is (\<lambda>d. d > 18 * 30 * 24 * hour) (MetadataRetention (cf_Purge c))
      then [WarnMetadataRetention (MetadataRetention (cf_Purge c))] else []) @
     (if duration_is (\<lambda>d. d < 12 * 30 * 24 * hour) (AuditRetention (cf_Purge c))
      then [WarnAuditRetention (AuditRetention (cf_Purge c))] else [])"

definition isLoopbackBind :: "string \<Rightarrow> bool" where
  "isLoopbackBind addr \<longleftrightarrow> addr \<in> set [''127.0.0.1'', ''::1'', ''localhost'']"

definition productionBindWarnings :: "config \<Rightarrow> config_warning list" where
  "productionBindWarnings c =
     (if \<not> isLoopbackBind (DashboardBindAddr (cf_Server c)) then [WarnDashboardBind (DashboardBindAddr (cf_Server c))] else []) @
     (if \<not> isLoopbackBind (RegionBindAddr (cf_Server c)) then [WarnRegionBind (RegionBindAddr (cf_Server c))] else [])"

definition Warnings :: "config \<Rightarrow> config_warning list" where
  "Warnings c =
     (if \<not> IsProduction c then s3Warnings c
      else s3Warnings c @ productionDPPWarnings c @ productionBindWarnings c)"

section \<open>Properties\<close>

lemma first_error_None: "first_error es = None \<longleftrightarrow> (\<forall>e \<in> set es. e = None)"
  by (induction es rule: first_error.induct) auto

lemma validatePositiveDuration_None:
  "validatePositiveDuration name v = None \<longleftrightarrow> (\<exists>d > 0. parse_duration v = Some d)"
  by (auto simp: validatePositiveDuration_def split: option.splits)

lemma envLog_value:
  "fst (envIntLog env k i) = envInt env k i" "fst (envInt64Log env k i) = envInt64 env k i"
  "fst (envFloatLog env k f) = envFloat env k f" "fst (envBoolLog env k b) = envBool env k b"
  by (simp_all add: envIntLog_def envInt64Log_def envFloatLog_def envBoolLog_def envLog_def envInt_def envInt64_def
      envFloat_def envBool_def split: option.splits)

lemma readers_same: "readers_for True env = readers_for False env"
  by (simp add: readers_for_def envLog_value)

lemma LoadWithLogger_same: "LoadWithLogger env = Load env"
  by (simp add: LoadWithLogger_def Load_def loadConfig_def readers_same)

text \<open>What validation says about the throttle factor: both comparisons are false of not-a-number, which passes.\<close>

lemma throttle_factor_range:
  assumes "validateRateLimit c = None"
  obtains f where "rl_ThrottleFactor (cf_RateLimit c) = Fin f" "0 < f" "f \<le> 1" | "rl_ThrottleFactor (cf_RateLimit c) = NaN"
  using assms by (cases "rl_ThrottleFactor (cf_RateLimit c)") (auto simp: validateRateLimit_def Let_def split: if_splits)

text \<open>C34: a valid configuration gives the components what they rely on. Some region and the dashboard
  are served; the throttle factor is a fraction by which every endpoint's bucket refills, at a positive rate
  of no more than the published one (in exact arithmetic), or it is not a number, and then no bucket that is made with it ever grants a
  token; the request queues admit someone, an enabled cache
  has room and a positive time to live, collection and retention times are positive, and
  in production no body travels to a plain-http store.\<close>

theorem valid_config_usable:
  assumes "Validate exists c = None"
  shows "(\<exists>rg \<in> {''eu'', ''na'', ''fe''}. 0 < RegionPort (cf_Server c) rg) \<and> 0 < PortDashboard (cf_Server c)
    \<and> (LookupDefaults m ep = Some p \<longrightarrow>
         (let b = NewTokenBucket (Fin (Rate p)) (Fin (Burst p)) (rl_ThrottleFactor (cf_RateLimit c)) t
          in (\<exists>f. rl_ThrottleFactor (cf_RateLimit c) = Fin f \<and> effectiveRate b = Fin (f * Rate p) \<and> 0 < f * Rate p \<and> f * Rate p \<le> Rate p)
             \<or> rl_ThrottleFactor (cf_RateLimit c) = NaN \<and> (\<forall>cs. granted b cs = 0)))
    \<and> 0 < rl_QueueMaxDepth (cf_RateLimit c)
    \<and> (cc_Enabled (cf_Cache c) \<longrightarrow>
         0 < cc_MaxMemory (cf_Cache c) \<and> (\<exists>d > 0. parse_duration (cc_DefaultTTL (cf_Cache c)) = Some d))
    \<and> (\<exists>d > 0. parse_duration (rl_BucketTTL (cf_RateLimit c)) = Some d)
    \<and> (\<forall>v \<in> {MetadataRetention (cf_Purge c), AuditRetention (cf_Purge c)}. \<exists>d > 0. parse_duration v = Some d)
    \<and> (IsProduction c \<and> bd_Enabled (cf_Bodies c) \<and> bd_Backend (cf_Bodies c) = ''s3'' \<longrightarrow>
         \<not> hasInsecureS3Endpoint (s3_Endpoint (bd_S3 (cf_Bodies c))))"
proof -
  have none: "validateServer c = None" "validateRateLimit c = None" "validateCache c = None"
    "validateBodies c = None" "validatePurge c = None"
    using assms by (simp_all add: Validate_def first_error_None)
  have rl: "0 < rl_QueueMaxDepth (cf_RateLimit c)" "\<exists>d > 0. parse_duration (rl_BucketTTL (cf_RateLimit c)) = Some d"
    using none(2) by (auto simp: validateRateLimit_def Let_def validatePositiveDuration_None split: if_splits)
  have rate: "let b = NewTokenBucket (Fin (Rate p)) (Fin (Burst p)) (rl_ThrottleFactor (cf_RateLimit c)) t
      in (\<exists>f. rl_ThrottleFactor (cf_RateLimit c) = Fin f \<and> effectiveRate b = Fin (f * Rate p) \<and> 0 < f * Rate p \<and> f * Rate p \<le> Rate p)
         \<or> rl_ThrottleFactor (cf_RateLimit c) = NaN \<and> (\<forall>cs. granted b cs = 0)" if "LookupDefaults m ep = Some p"
  proof -
    have p: "0 < Rate p" "1 \<le> Burst p" using LookupDefaults_ok [OF that] by (simp_all add: params_ok_def)
    show ?thesis
    proof (cases rule: throttle_factor_range [OF none(2)])
      case (1 f)
      with p have "0 < f * Rate p" "f * Rate p \<le> Rate p" by (simp_all add: mult_le_cancel_right1)
      then show ?thesis using 1 by (simp add: effectiveRate_def NewTokenBucket_def mult.commute)
    next
      case 2
      have "granted (NewTokenBucket (Fin (Rate p)) (Fin (Burst p)) NaN t) cs = 0" for cs
        by (rule NaN_throttle_grants_nothing [of _ "Burst p"]) (use p in \<open>simp_all add: NewTokenBucket_def\<close>)
      then show ?thesis using 2 by simp
    qed
  qed
  have "\<exists>rg \<in> {''eu'', ''na'', ''fe''}. 0 < RegionPort (cf_Server c) rg" "0 < PortDashboard (cf_Server c)"
    using none(1) by (auto simp: validateServer_def Let_def RegionPort_def split: if_splits)
  moreover have "cc_Enabled (cf_Cache c) \<Longrightarrow>
      0 < cc_MaxMemory (cf_Cache c) \<and> (\<exists>d > 0. parse_duration (cc_DefaultTTL (cf_Cache c)) = Some d)"
    using none(3) by (auto simp: validateCache_def Let_def validatePositiveDuration_None split: if_splits)
  moreover have "\<forall>v \<in> {MetadataRetention (cf_Purge c), AuditRetention (cf_Purge c)}. \<exists>d > 0. parse_duration v = Some d"
    using none(5) by (simp add: validatePurge_def first_error_None validatePositiveDuration_None)
  moreover have "\<not> hasInsecureS3Endpoint (s3_Endpoint (bd_S3 (cf_Bodies c)))"
    if "IsProduction c" "bd_Enabled (cf_Bodies c)" "bd_Backend (cf_Bodies c) = ''s3''"
    using none(4) that by (auto simp: validateBodies_def Let_def first_error_None validateBodiesBackend_def split: if_splits)
  ultimately show ?thesis using rl rate by blast
qed

definition env_of :: "(string \<times> string) list \<Rightarrow> env" where
  "env_of vs k = (case map_of vs k of None \<Rightarrow> [] | Some v \<Rightarrow> v)"

lemma default_durations:
  "parse_duration ''60s'' = Some (60 * second)" "parse_duration ''2h'' = Some (2 * hour)"
  "parse_duration ''24h'' = Some (24 * hour)" "parse_duration ''720h'' = Some (720 * hour)"
  "parse_duration ''9504h'' = Some (9504 * hour)"
  by (simp_all add: parse_duration_def duration_group_def Let_def is_digit_def digit_val_def unit_map_def duration_defs)

lemmas load_defs = Load_def loadConfig_def readers_for_def load_server_def load_rate_limit_def load_cache_def
  load_bodies_def load_s3_def envInt_def envInt64_def envStr_def envFloat_def envBool_def envStrSlice_def Let_def

lemmas validate_defs = Validate_def validateServer_def validateRateLimit_def validateCache_def validateBodies_def
  validateBodiesBackend_def validatePurge_def validatePaths_def validatePositiveDuration_def Let_def

lemma default_dirs: "filepath_Dir ''/data/sp-proxy.db'' = ''/data''" "filepath_Dir ''/data/bodies'' = ''/data''"
  by code_simp+

text \<open>The defaults are safe. With nothing but the environment's name set, to any value, the configuration is
  valid where the data directory exists, and it has no warning, not even in production: unknown
  endpoints are treated as personal data, personal data is not cached, the listeners bind to
  the loopback address and the retention times are within the limits.\<close>

theorem default_config_safe:
  assumes "exists ''/data''"
  shows "Validate exists (Load (env_of [(''SP_PROXY_ENV'', name)])) = None
    \<and> Warnings (Load (env_of [(''SP_PROXY_ENV'', name)])) = []"
proof
  show "Validate exists (Load (env_of [(''SP_PROXY_ENV'', name)])) = None"
    using assms by (simp add: validate_defs load_defs env_of_def default_durations default_dirs duration_defs)
  show "Warnings (Load (env_of [(''SP_PROXY_ENV'', name)])) = []"
    by (simp add: Warnings_def s3Warnings_def productionDPPWarnings_def productionBindWarnings_def load_defs env_of_def
        default_durations duration_is_def duration_defs isLoopbackBind_def)
qed

theorem default_config_safe_witness:
  "Validate (\<lambda>d. d = ''/data'') (Load (env_of [(''SP_PROXY_ENV'', ''production'')])) = None"
  using default_config_safe [of "\<lambda>d. d = ''/data''" "''production''"] by simp

theorem valid_config_usable_witness:
  "0 < rl_QueueMaxDepth (cf_RateLimit (Load (env_of [(''SP_PROXY_ENV'', ''production'')])))"
proof -
  have "Validate (\<lambda>d. d = ''/data'') (Load (env_of [(''SP_PROXY_ENV'', ''production'')])) = None"
    by (simp add: validate_defs load_defs env_of_def default_durations default_dirs duration_defs)
  from valid_config_usable [OF this]
  show ?thesis by blast
qed

text \<open>The factor that is not a number can be set: the environment is accepted, and gives limiters that forward nothing.\<close>

theorem NaN_throttle_accepted:
  assumes "exists ''/data''"
  shows "rl_ThrottleFactor (cf_RateLimit (Load (env_of [(''SP_PROXY_RATELIMIT_THROTTLE_FACTOR'', ''NaN'')]))) = NaN
    \<and> Validate exists (Load (env_of [(''SP_PROXY_RATELIMIT_THROTTLE_FACTOR'', ''NaN'')])) = None"
  using assms
  by (simp add: validate_defs load_defs env_of_def parse_float_special default_durations default_dirs duration_defs)

text \<open>In production the warnings are advice, not errors. Turning off fail-closed redaction and the exclusion of
  personal data from the cache changes nothing about the verdict of validation, and in production gives the two
  warnings.\<close>

theorem warnings_not_errors:
  "Validate exists (c\<lparr>cf_PII := (cf_PII c)\<lparr>FailClosed := False\<rparr>, cf_Cache := (cf_Cache c)\<lparr>cc_ExcludePII := False\<rparr>\<rparr>)
     = Validate exists c
   \<and> (IsProduction c \<longrightarrow>
        {WarnFailOpen, WarnCachePII} \<subseteq>
          set (Warnings (c\<lparr>cf_PII := (cf_PII c)\<lparr>FailClosed := False\<rparr>, cf_Cache := (cf_Cache c)\<lparr>cc_ExcludePII := False\<rparr>\<rparr>)))"
proof -
  let ?c = "c\<lparr>cf_PII := (cf_PII c)\<lparr>FailClosed := False\<rparr>, cf_Cache := (cf_Cache c)\<lparr>cc_ExcludePII := False\<rparr>\<rparr>"
  have prod: "IsProduction ?c = IsProduction c" by (simp add: IsProduction_def)
  have "validateServer ?c = validateServer c" "validateRateLimit ?c = validateRateLimit c"
    "validateCache ?c = validateCache c" "validatePurge ?c = validatePurge c" "validatePaths exists ?c = validatePaths exists c"
    by (simp_all add: validateServer_def validateRateLimit_def validateCache_def validatePurge_def validatePaths_def Let_def)
  moreover have "validateBodiesBackend ?c = validateBodiesBackend c" unfolding validateBodiesBackend_def prod by simp
  then have "validateBodies ?c = validateBodies c" by (simp add: validateBodies_def Let_def)
  ultimately have "Validate exists ?c = Validate exists c" by (simp add: Validate_def)
  then show ?thesis using prod by (simp add: Warnings_def productionDPPWarnings_def)
qed

theorem warnings_not_errors_witness:
  "Validate (\<lambda>_. True) ((Load (env_of [(''SP_PROXY_ENV'', ''production'')]))\<lparr>
       cf_PII := (cf_PII (Load (env_of [(''SP_PROXY_ENV'', ''production'')])))\<lparr>FailClosed := False\<rparr>,
       cf_Cache := (cf_Cache (Load (env_of [(''SP_PROXY_ENV'', ''production'')])))\<lparr>cc_ExcludePII := False\<rparr>\<rparr>) = None"
proof -
  have "Validate (\<lambda>_. True) (Load (env_of [(''SP_PROXY_ENV'', ''production'')])) = None"
    by (simp add: validate_defs load_defs env_of_def default_durations duration_defs)
  then show ?thesis
    using warnings_not_errors [of "\<lambda>_. True" "Load (env_of [(''SP_PROXY_ENV'', ''production'')])"] by metis
qed

end
