(* ===== verification/S3.thy ===== *)
theory S3
  imports Blob Config
begin

text \<open>
  The S3 backend (\<^verbatim>\<open>internal/blob/s3.go\<close>).

  The S3 client is the parameter \<open>s3_api\<close>, a record with the calls that \<^verbatim>\<open>S3API\<close> lists and the backend makes; loading
  the AWS configuration and building the client is the parameter of \<open>NewS3\<close>. The loop of \<^verbatim>\<open>List\<close>
  goes on for as long as the service says that there is more, so it is a partial function: \<open>None\<close> is a
  loop that never ends. Offsets are integers; the addition in the range header does not wrap.

  Shown: \<^verbatim>\<open>List\<close> returns, and returns the whole listing in order, when the service pages a listing of
  finitely many pages; \<^verbatim>\<open>Delete\<close> sends every key once, in order, at most 1000 per call, and stops at the
  first failure; every object is put with the configured encryption.
\<close>

section \<open>The client\<close>

datatype s3_error = NoSuchKeyError | NotFoundError | CodeError string | OtherError

record put_input =
  pi_Bucket :: string
  pi_Key :: string
  pi_Body :: reader
  pi_ContentLength :: "int option"
  pi_ServerSideEncryption :: string
  pi_SSEKMSKeyId :: "string option"

record listed =
  ls_Key :: "string option"
  ls_Size :: "int option"
  ls_LastModified :: "time option"

record list_page =
  lp_Contents :: "listed list"
  lp_IsTruncated :: "bool option"
  lp_NextContinuationToken :: "string option"

record 's s3_api =
  PutObject :: "put_input \<Rightarrow> 's \<Rightarrow> s3_error option \<times> 's"
  GetObject :: "string \<Rightarrow> string \<Rightarrow> string option \<Rightarrow> 's \<Rightarrow> s3_error + string"
  DeleteObjects :: "string \<Rightarrow> string list \<Rightarrow> 's \<Rightarrow> (s3_error + (string \<times> string) list) \<times> 's"
  ListObjectsV2 :: "string \<Rightarrow> string \<Rightarrow> string option \<Rightarrow> 's \<Rightarrow> s3_error + list_page"
  HeadObject :: "string \<Rightarrow> string \<Rightarrow> 's \<Rightarrow> s3_error + int option \<times> time option"

record s3_options =
  so_Bucket :: string
  so_Region :: string
  so_Endpoint :: string
  so_AccessKey :: string
  so_SecretKey :: string
  so_PathStyle :: bool
  so_SSE :: string
  so_SSEKMSKeyID :: string

record 's s3_backend =
  sb_client :: "'s s3_api"
  sb_bucket :: string
  sb_sse :: string
  sb_sseKMSKeyID :: string

section \<open>Construction\<close>

datatype s3_setup_error = BucketRequired | UnsupportedSSE string | AWSConfigError

definition parseSSE :: "string \<Rightarrow> s3_setup_error + string" where
  "parseSSE x = (if x \<in> set [[], ''AES256'', ''aws:kms'', ''aws:kms:dsse''] then Inr x else Inl (UnsupportedSSE x))"

definition NewS3 :: "(s3_options \<Rightarrow> 's s3_api option) \<Rightarrow> s3_options \<Rightarrow> s3_setup_error + 's s3_backend" where
  "NewS3 connect opts =
     (if so_Bucket opts = [] then Inl BucketRequired
      else case parseSSE (so_SSE opts) of
        Inl e \<Rightarrow> Inl e
      | Inr sse \<Rightarrow>
          (case connect opts of
             None \<Rightarrow> Inl AWSConfigError
           | Some client \<Rightarrow>
               Inr \<lparr>sb_client = client, sb_bucket = so_Bucket opts, sb_sse = sse, sb_sseKMSKeyID = so_SSEKMSKeyID opts\<rparr>))"

definition NewS3WithClient :: "'s s3_api \<Rightarrow> string \<Rightarrow> 's s3_backend" where
  "NewS3WithClient client bucket = \<lparr>sb_client = client, sb_bucket = bucket, sb_sse = [], sb_sseKMSKeyID = []\<rparr>"

definition NewS3WithClientSSE :: "'s s3_api \<Rightarrow> string \<Rightarrow> string \<Rightarrow> string \<Rightarrow> s3_setup_error + 's s3_backend" where
  "NewS3WithClientSSE client bucket sse kmsKeyID =
     (case parseSSE sse of
        Inl e \<Rightarrow> Inl e
      | Inr parsed \<Rightarrow> Inr \<lparr>sb_client = client, sb_bucket = bucket, sb_sse = parsed, sb_sseKMSKeyID = kmsKeyID\<rparr>)"

section \<open>Operations\<close>

definition put_object_input :: "'s s3_backend \<Rightarrow> string \<Rightarrow> reader \<Rightarrow> int \<Rightarrow> put_input" where
  "put_object_input b key r n =
     \<lparr>pi_Bucket = sb_bucket b, pi_Key = key, pi_Body = r, pi_ContentLength = (if 0 \<le> n then Some n else None),
      pi_ServerSideEncryption = sb_sse b,
      pi_SSEKMSKeyId =
        (if sb_sse b \<noteq> [] \<and> sb_sseKMSKeyID b \<noteq> [] \<and> (sb_sse b = ''aws:kms'' \<or> sb_sse b = ''aws:kms:dsse'')
         then Some (sb_sseKMSKeyID b) else None)\<rparr>"

definition s3_Put :: "'s s3_backend \<Rightarrow> string \<Rightarrow> reader \<Rightarrow> int \<Rightarrow> 's \<Rightarrow> blob_error option \<times> 's" where
  "s3_Put b key r n s =
     (case PutObject (sb_client b) (put_object_input b key r n) s of
        (Some e, s') \<Rightarrow> (Some BlobError, s')
      | (None, s') \<Rightarrow> (None, s'))"

definition s3RangeHeader :: "int \<Rightarrow> int \<Rightarrow> string" where
  "s3RangeHeader offset len =
     (if len \<le> 0 then ''bytes='' @ string_of_int offset @ ''-''
      else ''bytes='' @ string_of_int offset @ ''-'' @ string_of_int (offset + len - 1))"

definition s3ErrIsNotFound :: "s3_error \<Rightarrow> bool" where
  "s3ErrIsNotFound e =
     (case e of NoSuchKeyError \<Rightarrow> True | NotFoundError \<Rightarrow> True | CodeError c \<Rightarrow> c = ''NoSuchKey'' \<or> c = ''NotFound'' | OtherError \<Rightarrow> False)"

definition s3_Get :: "'s s3_backend \<Rightarrow> string \<Rightarrow> int \<Rightarrow> int \<Rightarrow> 's \<Rightarrow> blob_error + string" where
  "s3_Get b key offset len s =
     (case GetObject (sb_client b) (sb_bucket b) key
             (if 0 < offset \<or> 0 < len then Some (s3RangeHeader offset len) else None) s of
        Inl e \<Rightarrow> Inl (if s3ErrIsNotFound e then ErrNotFound else BlobError)
      | Inr body \<Rightarrow> Inr body)"

definition delete_batch :: nat where
  "delete_batch = 1000"

text \<open>The loop of \<^verbatim>\<open>Delete\<close> on the keys that are left; the batches sent are returned too.\<close>

function s3_delete_loop ::
  "'s s3_backend \<Rightarrow> string list \<Rightarrow> 's \<Rightarrow> blob_error option \<times> string list list \<times> 's" where
  "s3_delete_loop b keys s =
     (if keys = [] then (None, [], s)
      else
        let ids = take delete_batch keys in
        (case DeleteObjects (sb_client b) (sb_bucket b) ids s of
           (Inl e, s') \<Rightarrow> (Some BlobError, [ids], s')
         | (Inr errs, s') \<Rightarrow>
             if errs \<noteq> [] then (Some BlobError, [ids], s')
             else (case s3_delete_loop b (drop delete_batch keys) s' of (e, sent, s'') \<Rightarrow> (e, ids # sent, s''))))"
  by pat_completeness auto
termination
  by (relation "measure (\<lambda>(b, keys, s). length keys)") (auto simp: delete_batch_def)

declare s3_delete_loop.simps [simp del]

definition s3_Delete :: "'s s3_backend \<Rightarrow> string list \<Rightarrow> 's \<Rightarrow> blob_error option \<times> 's" where
  "s3_Delete b keys s = (case s3_delete_loop b keys s of (e, sent, s') \<Rightarrow> (e, s'))"

text \<open>Go's zero time, the first of January of year 1.\<close>

definition zero_time :: time where
  "zero_time = - 62135596800 * second"

definition listed_object :: "listed \<Rightarrow> object" where
  "listed_object o1 =
     \<lparr>ob_Key = (case ls_Key o1 of None \<Rightarrow> [] | Some k \<Rightarrow> k), ob_Size = (case ls_Size o1 of None \<Rightarrow> 0 | Some n \<Rightarrow> n),
      ob_ModTime = (case ls_LastModified o1 of None \<Rightarrow> zero_time | Some t \<Rightarrow> t)\<rparr>"

partial_function (option) s3_list_loop ::
  "'s s3_backend \<Rightarrow> string \<Rightarrow> string option \<Rightarrow> object list \<Rightarrow> 's \<Rightarrow> (blob_error + object list) option" where
  "s3_list_loop b prefix token objects s =
     (case ListObjectsV2 (sb_client b) (sb_bucket b) prefix token s of
        Inl e \<Rightarrow> Some (Inl BlobError)
      | Inr out \<Rightarrow>
          let objects1 = objects @ map listed_object (lp_Contents out) in
          if lp_IsTruncated out \<noteq> Some True then Some (Inr objects1)
          else s3_list_loop b prefix (lp_NextContinuationToken out) objects1 s)"

definition s3_List :: "'s s3_backend \<Rightarrow> string \<Rightarrow> 's \<Rightarrow> (blob_error + object list) option" where
  "s3_List b prefix s = s3_list_loop b prefix None [] s"

definition s3_Stat :: "'s s3_backend \<Rightarrow> string \<Rightarrow> 's \<Rightarrow> blob_error + object" where
  "s3_Stat b key s =
     (case HeadObject (sb_client b) (sb_bucket b) key s of
        Inl e \<Rightarrow> Inl (if s3ErrIsNotFound e then ErrNotFound else BlobError)
      | Inr (len, modified) \<Rightarrow>
          Inr \<lparr>ob_Key = key, ob_Size = (case len of None \<Rightarrow> 0 | Some n \<Rightarrow> n),
               ob_ModTime = (case modified of None \<Rightarrow> zero_time | Some t \<Rightarrow> t)\<rparr>)"

section \<open>Listing\<close>

text \<open>A listing in pages, from one on: the token of a page is the one that the page before it named.\<close>

definition pages_from :: "'s s3_backend \<Rightarrow> string \<Rightarrow> 's \<Rightarrow> listed list list \<Rightarrow> (nat \<Rightarrow> string option) \<Rightarrow> bool" where
  "pages_from b prefix s pages toks \<longleftrightarrow> pages \<noteq> [] \<and>
     (\<forall>i < length pages. ListObjectsV2 (sb_client b) (sb_bucket b) prefix (toks i) s =
        Inr \<lparr>lp_Contents = pages ! i, lp_IsTruncated = Some (Suc i < length pages), lp_NextContinuationToken = toks (Suc i)\<rparr>)"

lemma list_loop_pages:
  assumes "pages_from b prefix s pages toks"
  shows "s3_list_loop b prefix (toks 0) objects s = Some (Inr (objects @ map listed_object (concat pages)))"
  using assms
proof (induction pages arbitrary: toks objects)
  case Nil
  then show ?case by (simp add: pages_from_def)
next
  case (Cons p ps)
  have page: "ListObjectsV2 (sb_client b) (sb_bucket b) prefix (toks 0) s =
      Inr \<lparr>lp_Contents = p, lp_IsTruncated = Some (ps \<noteq> []), lp_NextContinuationToken = toks 1\<rparr>"
    using Cons.prems by (auto simp: pages_from_def)
  show ?case
  proof (cases "ps = []")
    case True
    then show ?thesis by (subst s3_list_loop.simps) (simp add: page)
  next
    case False
    have "pages_from b prefix s ps (\<lambda>i. toks (Suc i))"
      using Cons.prems False by (fastforce simp: pages_from_def)
    from Cons.IH [OF this] show ?thesis
      by (subst s3_list_loop.simps) (simp add: page False)
  qed
qed

text \<open>C37: listing an S3 prefix ends and is complete: when the service hands out a listing in finitely many pages, each
  naming the token of the next one, \<^verbatim>\<open>List\<close> returns the objects of all pages, in order.\<close>

theorem s3_list_complete:
  assumes "toks 0 = None" "pages_from b prefix s pages toks"
  shows "s3_List b prefix s = Some (Inr (map listed_object (concat pages)))"
  using list_loop_pages [OF assms(2), of "[]"] assms(1) by (simp add: s3_List_def)

definition demo_page :: "string option \<Rightarrow> list_page" where
  "demo_page token =
     (if token = None
      then \<lparr>lp_Contents = [\<lparr>ls_Key = Some ''recent/a'', ls_Size = Some 3, ls_LastModified = Some 9\<rparr>], lp_IsTruncated = Some True,
            lp_NextContinuationToken = Some ''t1''\<rparr>
      else \<lparr>lp_Contents = [\<lparr>ls_Key = Some ''recent/b'', ls_Size = Some 4, ls_LastModified = Some 8\<rparr>], lp_IsTruncated = Some False,
            lp_NextContinuationToken = None\<rparr>)"

definition demo_s3 :: "unit s3_backend" where
  "demo_s3 = NewS3WithClient
     \<lparr>PutObject = (\<lambda>_ s. (None, s)), GetObject = (\<lambda>_ _ _ _. Inl NoSuchKeyError), DeleteObjects = (\<lambda>_ _ s. (Inr [], s)),
      ListObjectsV2 = (\<lambda>_ _ token _. Inr (demo_page token)), HeadObject = (\<lambda>_ _ _. Inl NotFoundError)\<rparr> ''bodies''"

theorem s3_list_complete_witness:
  "s3_List demo_s3 ''recent/'' () =
     Some (Inr [\<lparr>ob_Key = ''recent/a'', ob_Size = 3, ob_ModTime = 9\<rparr>, \<lparr>ob_Key = ''recent/b'', ob_Size = 4, ob_ModTime = 8\<rparr>])"
proof -
  let ?pages = "[lp_Contents (demo_page None), lp_Contents (demo_page (Some ''t1''))]"
  let ?toks = "\<lambda>i::nat. if i = 1 then Some ''t1'' else None"
  have "pages_from demo_s3 ''recent/'' () ?pages ?toks"
    by (auto simp: pages_from_def demo_s3_def NewS3WithClient_def demo_page_def less_Suc_eq)
  from s3_list_complete [OF _ this] show ?thesis by (simp add: demo_page_def listed_object_def)
qed

section \<open>Deleting\<close>

lemma delete_loop_batches:
  assumes "s3_delete_loop b keys s = (e, sent, s')"
  shows "\<exists>rest. keys = concat sent @ rest \<and> (e = None \<longrightarrow> rest = []) \<and> (\<forall>ids \<in> set sent. ids \<noteq> [] \<and> length ids \<le> 1000)"
  using assms
proof (induction b keys s arbitrary: e sent s' rule: s3_delete_loop.induct)
  case (1 b keys s)
  show ?case
  proof (cases "keys = []")
    case True
    then show ?thesis using 1(2) by (subst (asm) s3_delete_loop.simps) auto
  next
    case False
    let ?ids = "take delete_batch keys"
    have ids: "?ids \<noteq> []" "length ?ids \<le> 1000" "keys = ?ids @ drop delete_batch keys"
      using False by (simp_all add: delete_batch_def)
    obtain res s1 where d: "DeleteObjects (sb_client b) (sb_bucket b) ?ids s = (res, s1)" by fastforce
    show ?thesis
    proof (cases "res = Inr []")
      case True
      obtain e2 sent2 s2 where r: "s3_delete_loop b (drop delete_batch keys) s1 = (e2, sent2, s2)" by (metis prod.exhaust)
      have "s3_delete_loop b keys s = (e2, ?ids # sent2, s2)"
        by (subst s3_delete_loop.simps) (simp add: False d True r)
      then have e: "e = e2" "sent = ?ids # sent2" using 1(2) by simp_all
      obtain rest where rest: "drop delete_batch keys = concat sent2 @ rest" "e2 = None \<longrightarrow> rest = []"
          "\<forall>ids \<in> set sent2. ids \<noteq> [] \<and> length ids \<le> 1000"
        using 1(1) [OF False refl d [symmetric] True _ r] by auto
      have "keys = concat sent @ rest" using ids(3) rest(1) e(2) by simp
      then show ?thesis using ids(1,2) rest(2,3) e by (intro exI [of _ rest]) simp
    next
      case False
      then have "s3_delete_loop b keys s = (Some BlobError, [?ids], s1)"
        using \<open>keys \<noteq> []\<close> d by (subst s3_delete_loop.simps) (cases res; simp add: Let_def)
      then have "e = Some BlobError" "sent = [?ids]" using 1(2) by simp_all
      then show ?thesis using ids by (intro exI [of _ "drop delete_batch keys"]) simp
    qed
  qed
qed

text \<open>Every call of a deletion names between 1 and 1000 keys, the calls name a prefix of the keys in
  order, each once, and all of them unless one failed.\<close>

lemma s3_delete_batches:
  assumes "s3_Delete b keys s = (e, s')"
  shows "\<exists>sent rest. s3_delete_loop b keys s = (e, sent, s') \<and> keys = concat sent @ rest \<and> (e = None \<longrightarrow> rest = []) \<and>
    (\<forall>ids \<in> set sent. ids \<noteq> [] \<and> length ids \<le> 1000)"
  using assms delete_loop_batches [of b keys s] by (fastforce simp: s3_Delete_def split: prod.splits)

section \<open>Encryption\<close>

text \<open>With a configuration that validation accepts, the backend can be built, and every object is put with the configured
  encryption; a key is named for KMS only.\<close>

lemma valid_config_encrypts:
  assumes "validateBodiesBackend c = None" "bd_Backend (cf_Bodies c) = ''s3''" "connect opts = Some client"
    and "so_Bucket opts = s3_Bucket (bd_S3 (cf_Bodies c))" "so_SSE opts = s3_SSE (bd_S3 (cf_Bodies c))"
  shows "\<exists>b. NewS3 connect opts = Inr b \<and> pi_ServerSideEncryption (put_object_input b key r n) = s3_SSE (bd_S3 (cf_Bodies c)) \<and>
    (pi_SSEKMSKeyId (put_object_input b key r n) \<noteq> None \<longrightarrow> s3_SSE (bd_S3 (cf_Bodies c)) \<in> {''aws:kms'', ''aws:kms:dsse''})"
proof -
  let ?s3 = "bd_S3 (cf_Bodies c)"
  have bucket: "s3_Bucket ?s3 \<noteq> []" and sse: "s3_SSE ?s3 \<in> set [[], ''AES256'', ''aws:kms'', ''aws:kms:dsse'']"
    using assms(1,2) by (auto simp: validateBodiesBackend_def Let_def split: if_splits)
  have "NewS3 connect opts = Inr \<lparr>sb_client = client, sb_bucket = s3_Bucket ?s3, sb_sse = s3_SSE ?s3, sb_sseKMSKeyID = so_SSEKMSKeyID opts\<rparr>"
    using bucket sse by (simp only: NewS3_def parseSSE_def assms(3-5) if_True sum.case option.case if_False simp_thms)
  then show ?thesis by (auto simp: put_object_input_def)
qed

end
