(* ===== verification/Mux.thy ===== *)
theory Mux
  imports Config
begin

text \<open>
  Route tables: \<^verbatim>\<open>http.ServeMux\<close> of Go's library, as far as \<^verbatim>\<open>internal/dashboard/handler.go\<close>,
  \<^verbatim>\<open>internal/server/health.go\<close> and \<^verbatim>\<open>mountMetricsHandler\<close> in \<^verbatim>\<open>cmd/smart-proxy/main.go\<close> use it.

  A multiplexer is the list of its patterns with their handlers, in the order of registration. \<^verbatim>\<open>Handle\<close> panics
  (\<open>None\<close>) on a pattern that cannot be parsed or conflicts with a registered one; a request goes to the most
  specific pattern that matches it. The path is the decoded one of a request whose URL keeps no encoding of its own
  (\<^verbatim>\<open>RawPath\<close> is empty), so that segments are not unescaped; names of wildcards are ASCII.

  Shown: the relation by which \<^verbatim>\<open>Handle\<close> finds conflicts is right: disjoint patterns have no request in common, and
  being more specific is a strict order; hence in a table built by \<^verbatim>\<open>Handle\<close> every request that some pattern
  matches has exactly one most specific pattern, whatever the order of registration.
\<close>

section \<open>Patterns\<close>

datatype segment = Literal string | Wildcard string | MultiWildcard string

record pattern =
  pt_method :: string
  pt_host :: string
  pt_segments :: "segment list"

fun unescape_path :: "string \<Rightarrow> string option" where
  "unescape_path [] = Some []"
| "unescape_path (c # s) =
     (if c = CHR ''%'' then
        (case s of
           a # b # rest \<Rightarrow>
             (case (hex_val a, hex_val b) of
                (Some x, Some y) \<Rightarrow> map_option (\<lambda>t. char_of (16 * x + y) # t) (unescape_path rest)
              | _ \<Rightarrow> None)
         | _ \<Rightarrow> None)
      else map_option (\<lambda>t. c # t) (unescape_path s))"

definition pathUnescape :: "string \<Rightarrow> string" where
  "pathUnescape path = (case unescape_path path of None \<Rightarrow> path | Some u \<Rightarrow> u)"

definition isLetter :: "char \<Rightarrow> bool" where
  "isLetter c \<longleftrightarrow> (let n = of_char c :: nat in (65 \<le> n \<and> n \<le> 90) \<or> (97 \<le> n \<and> n \<le> 122))"

definition isValidWildcardName :: "string \<Rightarrow> bool" where
  "isValidWildcardName s \<longleftrightarrow>
     s \<noteq> [] \<and> (isLetter (hd s) \<or> hd s = CHR ''_'') \<and> list_all (\<lambda>c. isLetter c \<or> c = CHR ''_'' \<or> is_digit c) (tl s)"

definition path_Clean :: "string \<Rightarrow> string" where
  "path_Clean = filepath_Clean"

definition cleanPath :: "string \<Rightarrow> string" where
  "cleanPath p =
     (if p = [] then ''/''
      else let p1 = (if hd p = CHR ''/'' then p else CHR ''/'' # p); np = path_Clean p1 in
           if List.last p1 = CHR ''/'' \<and> np \<noteq> ''/'' then np @ ''/'' else np)"

text \<open>The segments of a pattern's path from the pieces between its slashes; \<open>seen\<close> are the names used so far. An empty
  last piece is a trailing slash.\<close>

fun parse_segments :: "string list \<Rightarrow> string list \<Rightarrow> segment list option" where
  "parse_segments seen [] = Some []"
| "parse_segments seen (seg # rest) =
     (if seg = [] \<and> rest = [] then Some [MultiWildcard []]
      else
        case index_byte seg (CHR ''{'') of
          None \<Rightarrow> map_option ((#) (Literal (pathUnescape seg))) (parse_segments seen rest)
        | Some i \<Rightarrow>
            if i \<noteq> 0 \<or> List.last seg \<noteq> CHR ''}'' then None
            else
              let name = butlast (tl seg); multi = has_suffix name ''...''; nm = (if multi then take (length name - 3) name else name) in
              if name = ''$'' then if rest = [] then Some [Literal ''/''] else None
              else if (multi \<and> rest \<noteq> []) \<or> nm = [] \<or> \<not> isValidWildcardName nm \<or> nm \<in> set seen then None
              else map_option ((#) (if multi then MultiWildcard nm else Wildcard nm)) (parse_segments (nm # seen) rest))"

definition is_blank :: "char \<Rightarrow> bool" where
  "is_blank c \<longleftrightarrow> c = CHR '' '' \<or> c = CHR 0x09"

definition parsePattern :: "string \<Rightarrow> pattern option" where
  "parsePattern s =
     (if s = [] then None
      else
        let found = list_ex is_blank s;
            method = (if found then takeWhile (\<lambda>c. \<not> is_blank c) s else []);
            rest = (if found then dropWhile is_blank (dropWhile (\<lambda>c. \<not> is_blank c) s) else s) in
        if method \<noteq> [] \<and> \<not> list_all valid_header_byte method then None
        else
          case index_byte rest (CHR ''/'') of
            None \<Rightarrow> None
          | Some i \<Rightarrow>
              let host = take i rest; path = drop i rest in
              if CHR ''{'' \<in> set host then None
              else if method \<noteq> [] \<and> method \<noteq> ''CONNECT'' \<and> path \<noteq> cleanPath path then None
              else map_option (\<lambda>segs. \<lparr>pt_method = method, pt_host = host, pt_segments = segs\<rparr>)
                     (parse_segments [] (split_on (CHR ''/'') (tl path))))"

section \<open>Matching\<close>

text \<open>The segments of a request's path; a trailing slash is a segment of its own.\<close>

fun mark_slash :: "string list \<Rightarrow> string list" where
  "mark_slash [] = []"
| "mark_slash [x] = [if x = [] then ''/'' else x]"
| "mark_slash (x # y # xs) = x # mark_slash (y # xs)"

definition path_segments :: "string \<Rightarrow> string list" where
  "path_segments path = mark_slash (split_on (CHR ''/'') (tl path))"

fun rest_text :: "string list \<Rightarrow> string" where
  "rest_text [] = []"
| "rest_text [x] = (if x = ''/'' then [] else x)"
| "rest_text (x # y # xs) = x @ ''/'' @ rest_text (y # xs)"

text \<open>The values of the wildcards, if the path matches.\<close>

fun match_segments :: "segment list \<Rightarrow> string list \<Rightarrow> (string \<times> string) list option" where
  "match_segments [] xs = (if xs = [] then Some [] else None)"
| "match_segments (p # ps) [] = None"
| "match_segments (Literal l # ps) (x # xs) = (if l = x then match_segments ps xs else None)"
| "match_segments (Wildcard n # ps) (x # xs) =
     (if x = ''/'' then None else map_option ((#) (n, x)) (match_segments ps xs))"
| "match_segments (MultiWildcard n # ps) (x # xs) = Some (if n = [] then [] else [(n, rest_text (x # xs))])"

definition method_matches :: "string \<Rightarrow> string \<Rightarrow> bool" where
  "method_matches pm m \<longleftrightarrow> pm = [] \<or> pm = m \<or> (pm = ''GET'' \<and> m = ''HEAD'')"

definition path_matches :: "string \<Rightarrow> string \<Rightarrow> pattern \<Rightarrow> bool" where
  "path_matches host path p \<longleftrightarrow>
     (pt_host p = [] \<or> pt_host p = host) \<and> match_segments (pt_segments p) (path_segments path) \<noteq> None"

definition pattern_matches :: "string \<Rightarrow> string \<Rightarrow> string \<Rightarrow> pattern \<Rightarrow> bool" where
  "pattern_matches host m path p \<longleftrightarrow> method_matches (pt_method p) m \<and> path_matches host path p"

section \<open>Comparing patterns\<close>

datatype relationship = Equivalent | MoreGeneral | MoreSpecific | Disjoint | Overlaps

fun inverseRelationship :: "relationship \<Rightarrow> relationship" where
  "inverseRelationship MoreGeneral = MoreSpecific"
| "inverseRelationship MoreSpecific = MoreGeneral"
| "inverseRelationship r = r"

definition combineRelationships :: "relationship \<Rightarrow> relationship \<Rightarrow> relationship" where
  "combineRelationships r1 r2 =
     (case r1 of
        Equivalent \<Rightarrow> r2
      | Disjoint \<Rightarrow> Disjoint
      | Overlaps \<Rightarrow> if r2 = Disjoint then Disjoint else Overlaps
      | _ \<Rightarrow> if r2 = Equivalent then r1 else if r2 = inverseRelationship r1 then Overlaps else r2)"

fun compareSegments :: "segment \<Rightarrow> segment \<Rightarrow> relationship" where
  "compareSegments (MultiWildcard _) (MultiWildcard _) = Equivalent"
| "compareSegments (MultiWildcard _) _ = MoreGeneral"
| "compareSegments _ (MultiWildcard _) = MoreSpecific"
| "compareSegments (Wildcard _) (Wildcard _) = Equivalent"
| "compareSegments (Wildcard _) (Literal l) = (if l = ''/'' then Disjoint else MoreGeneral)"
| "compareSegments (Literal l) (Wildcard _) = (if l = ''/'' then Disjoint else MoreSpecific)"
| "compareSegments (Literal a) (Literal b) = (if a = b then Equivalent else Disjoint)"

fun is_multi :: "segment \<Rightarrow> bool" where
  "is_multi (MultiWildcard _) = True"
| "is_multi _ = False"

fun compare_from :: "relationship \<Rightarrow> bool \<Rightarrow> bool \<Rightarrow> segment list \<Rightarrow> segment list \<Rightarrow> relationship" where
  "compare_from rel m1 m2 [] [] = rel"
| "compare_from rel m1 m2 [] (_ # _) = (if m1 then combineRelationships rel MoreGeneral else Disjoint)"
| "compare_from rel m1 m2 (_ # _) [] = (if m2 then combineRelationships rel MoreSpecific else Disjoint)"
| "compare_from rel m1 m2 (s1 # segs1) (s2 # segs2) =
     (let rel' = combineRelationships rel (compareSegments s1 s2) in
      if rel' = Disjoint then Disjoint else compare_from rel' m1 m2 segs1 segs2)"

definition last_multi :: "segment list \<Rightarrow> bool" where
  "last_multi segs \<longleftrightarrow> segs \<noteq> [] \<and> is_multi (List.last segs)"

definition comparePaths :: "segment list \<Rightarrow> segment list \<Rightarrow> relationship" where
  "comparePaths segs1 segs2 =
     (if length segs1 \<noteq> length segs2 \<and> \<not> last_multi segs1 \<and> \<not> last_multi segs2 then Disjoint
      else compare_from Equivalent (last_multi segs1) (last_multi segs2) segs1 segs2)"

definition compareMethods :: "string \<Rightarrow> string \<Rightarrow> relationship" where
  "compareMethods m1 m2 =
     (if m1 = m2 then Equivalent
      else if m1 = [] then MoreGeneral
      else if m2 = [] then MoreSpecific
      else if m1 = ''GET'' \<and> m2 = ''HEAD'' then MoreGeneral
      else if m2 = ''GET'' \<and> m1 = ''HEAD'' then MoreSpecific
      else Disjoint)"

definition comparePathsAndMethods :: "pattern \<Rightarrow> pattern \<Rightarrow> relationship" where
  "comparePathsAndMethods p1 p2 =
     (let mrel = compareMethods (pt_method p1) (pt_method p2) in
      if mrel = Disjoint then Disjoint else combineRelationships mrel (comparePaths (pt_segments p1) (pt_segments p2)))"

definition conflictsWith :: "pattern \<Rightarrow> pattern \<Rightarrow> bool" where
  "conflictsWith p1 p2 \<longleftrightarrow> pt_host p1 = pt_host p2 \<and> comparePathsAndMethods p1 p2 \<in> {Equivalent, Overlaps}"

definition more_specific :: "pattern \<Rightarrow> pattern \<Rightarrow> bool" where
  "more_specific p1 p2 \<longleftrightarrow>
     (if pt_host p1 = pt_host p2 then comparePathsAndMethods p1 p2 = MoreSpecific else pt_host p2 = [])"

section \<open>Multiplexers\<close>

type_synonym 'h mux = "(pattern \<times> 'h) list"

definition mux_Handle :: "string \<Rightarrow> 'h \<Rightarrow> 'h mux \<Rightarrow> 'h mux option" where
  "mux_Handle pat h m =
     (case parsePattern pat of
        None \<Rightarrow> None
      | Some p \<Rightarrow> if list_ex (\<lambda>(q, _). conflictsWith p q) m then None else Some (m @ [(p, h)]))"

fun handle_all :: "(string \<times> 'h) list \<Rightarrow> 'h mux \<Rightarrow> 'h mux option" where
  "handle_all [] m = Some m"
| "handle_all ((pat, h) # rs) m = (case mux_Handle pat h m of None \<Rightarrow> None | Some m' \<Rightarrow> handle_all rs m')"

definition mux_match :: "string \<Rightarrow> string \<Rightarrow> string \<Rightarrow> 'h mux \<Rightarrow> (pattern \<times> 'h) option" where
  "mux_match host meth path m =
     find (\<lambda>(p, _). pattern_matches host meth path p \<and>
             list_all (\<lambda>(q, _). pattern_matches host meth path q \<longrightarrow> \<not> more_specific q p) m) m"

definition exactMatch :: "pattern \<Rightarrow> string \<Rightarrow> bool" where
  "exactMatch p path \<longleftrightarrow>
     \<not> last_multi (pt_segments p) \<or>
     (path \<noteq> [] \<and> List.last path = CHR ''/'' \<and> length (pt_segments p) = count_byte path (CHR ''/''))"

text \<open>What becomes of a request: a redirect (status 301) to a path with the same query, a handler with the values of its
  wildcards, 405 with the methods to allow, or 404.\<close>

datatype 'h found =
    RedirectTo string
  | Found pattern 'h "(string \<times> string) list"
  | MethodNotAllowed "string list"
  | PageNotFound

definition allowed_methods :: "string \<Rightarrow> string \<Rightarrow> 'h mux \<Rightarrow> string list" where
  "allowed_methods host path m =
     (let paths = (if has_suffix path ''/'' then [path] else [path, path @ ''/'']);
          ms = [pt_method p. (p, _) \<leftarrow> m, list_ex (\<lambda>pa. path_matches host pa p) paths] in
      sort (remdups (if ''GET'' \<in> set ms then ms @ [''HEAD''] else ms)))"

definition slash_redirect :: "string \<Rightarrow> string \<Rightarrow> string \<Rightarrow> 'h mux \<Rightarrow> bool" where
  "slash_redirect host meth path m \<longleftrightarrow>
     \<not> (case mux_match host meth path m of None \<Rightarrow> False | Some (p, _) \<Rightarrow> exactMatch p path) \<and> \<not> has_suffix path ''/'' \<and>
     (case mux_match host meth (path @ ''/'') m of None \<Rightarrow> False | Some (p, _) \<Rightarrow> exactMatch p (path @ ''/''))"

definition findHandler :: "string \<Rightarrow> string \<Rightarrow> string \<Rightarrow> 'h mux \<Rightarrow> 'h found" where
  "findHandler host meth path0 m =
     (let path = (if meth = ''CONNECT'' then path0 else cleanPath path0) in
      if slash_redirect host meth path m then RedirectTo (cleanPath path0 @ ''/'')
      else if path \<noteq> path0 then RedirectTo path
      else
        case mux_match host meth path m of
          Some (p, h) \<Rightarrow> Found p h (case match_segments (pt_segments p) (path_segments path) of None \<Rightarrow> [] | Some vs \<Rightarrow> vs)
        | None \<Rightarrow>
            (let ms = allowed_methods host path m in if ms \<noteq> [] then MethodNotAllowed ms else PageNotFound))"


text \<open>\<^verbatim>\<open>ServeHTTP\<close>. The short HTML body of a redirect is left out, and the target is not escaped.\<close>

definition serve_mux :: "string \<Rightarrow> ('h \<Rightarrow> (string \<times> string) list \<Rightarrow> 's handler) \<Rightarrow> 'h mux \<Rightarrow> 's handler" where
  "serve_mux host serve m r w s =
     (case findHandler host (r_method r) (r_path r) m of
        Found _ h vs \<Rightarrow> serve h vs r w s
      | RedirectTo u \<Rightarrow>
          (w_write_header (w_set w ''Location'' (u @ (if r_query r = [] then [] else ''?'' @ r_query r))) 301, r_header r, s)
      | MethodNotAllowed ms \<Rightarrow> (http_error (w_set w ''Allow'' (join '', '' ms)) ''Method Not Allowed'' 405, r_header r, s)
      | PageNotFound \<Rightarrow> (http_error w ''404 page not found'' 404, r_header r, s))"

section \<open>The comparison is right\<close>

fun paths_le :: "segment list \<Rightarrow> segment list \<Rightarrow> bool" where
  "paths_le [] [] = True"
| "paths_le (_ # _) (MultiWildcard _ # _) = True"
| "paths_le (Literal a # ps) (Literal b # qs) = (a = b \<and> paths_le ps qs)"
| "paths_le (Literal a # ps) (Wildcard _ # qs) = (a \<noteq> ''/'' \<and> paths_le ps qs)"
| "paths_le (Wildcard _ # ps) (Wildcard _ # qs) = paths_le ps qs"
| "paths_le _ _ = False"

text \<open>A multi wildcard stands at the end only.\<close>

definition multi_last :: "segment list \<Rightarrow> bool" where
  "multi_last segs \<longleftrightarrow> list_all (\<lambda>s. \<not> is_multi s) (butlast segs)"

definition rel_le :: "relationship \<Rightarrow> bool" where
  "rel_le r \<longleftrightarrow> r \<in> {Equivalent, MoreSpecific}"

definition rel_ge :: "relationship \<Rightarrow> bool" where
  "rel_ge r \<longleftrightarrow> r \<in> {Equivalent, MoreGeneral}"

lemma combine_rel:
  "combineRelationships a b = Disjoint \<longleftrightarrow> a = Disjoint \<or> b = Disjoint"
  "rel_le (combineRelationships a b) \<longleftrightarrow> rel_le a \<and> rel_le b"
  "rel_ge (combineRelationships a b) \<longleftrightarrow> rel_ge a \<and> rel_ge b"
  by (cases a; cases b; simp add: combineRelationships_def rel_le_def rel_ge_def)+

lemma rel_cases:
  "rel_le Equivalent" "rel_ge Equivalent" "rel_le MoreSpecific" "rel_ge MoreGeneral" "\<not> rel_le MoreGeneral" "\<not> rel_ge MoreSpecific"
  "\<not> rel_le Disjoint" "\<not> rel_ge Disjoint" "\<not> rel_le Overlaps" "\<not> rel_ge Overlaps"
  by (simp_all add: rel_le_def rel_ge_def)

lemma paths_le_refl: "paths_le p p"
proof (induction p)
  case (Cons s p) then show ?case by (cases s) simp_all
qed simp

lemma paths_le_trans: "paths_le p q \<Longrightarrow> paths_le q r \<Longrightarrow> paths_le p r"
proof (induction p q arbitrary: r rule: paths_le.induct)
  case (2 s ps n qs) then show ?case by (cases r) (auto elim: paths_le.elims)
next
  case (3 a ps b qs) then show ?case by (cases r rule: list.exhaust) (auto elim: paths_le.elims)
next
  case (4 a ps n qs)
  then show ?case
    by (cases r) (auto elim!: paths_le.elims(2) [of "Wildcard n # qs"])
next
  case (5 n ps n' qs) then show ?case by (cases r) (auto elim!: paths_le.elims(2) [of "Wildcard n' # qs"])
qed simp_all

definition matches_path :: "segment list \<Rightarrow> string list \<Rightarrow> bool" where
  "matches_path p xs \<longleftrightarrow> match_segments p xs \<noteq> None"

lemma matches_path_simps [simp]:
  "matches_path [] xs \<longleftrightarrow> xs = []" "\<not> matches_path (s # p) []"
  "matches_path (Literal l # p) (x # xs) \<longleftrightarrow> l = x \<and> matches_path p xs"
  "matches_path (Wildcard n # p) (x # xs) \<longleftrightarrow> x \<noteq> ''/'' \<and> matches_path p xs"
  "matches_path (MultiWildcard n # p) (x # xs)"
  by (simp_all add: matches_path_def)

lemma matches_path_Cons: "matches_path (s # p) xs \<Longrightarrow> \<exists>x xs'. xs = x # xs'"
  by (cases xs) simp_all

lemma multi_last_Nil [simp]: "multi_last []"
  by (simp add: multi_last_def)

lemma multi_last_Cons: "multi_last (s # p) \<longleftrightarrow> (p = [] \<or> (\<not> is_multi s \<and> multi_last p))"
  by (simp add: multi_last_def)

lemma last_multi_Cons: "last_multi (s # p) \<longleftrightarrow> (if p = [] then is_multi s else last_multi p)"
  by (simp add: last_multi_def)

definition compares :: "relationship \<Rightarrow> relationship \<Rightarrow> segment list \<Rightarrow> segment list \<Rightarrow> bool" where
  "compares rel r p q \<longleftrightarrow>
     (rel_le r \<longleftrightarrow> rel_le rel \<and> paths_le p q) \<and> (rel_ge r \<longleftrightarrow> rel_ge rel \<and> paths_le q p) \<and>
     (r = Disjoint \<longrightarrow> (\<forall>xs. \<not> (matches_path p xs \<and> matches_path q xs)))"

lemma compares_Cons:
  assumes "\<not> is_multi s" "\<not> is_multi t" "compares (combineRelationships rel (compareSegments s t)) r p q" "compareSegments s t \<noteq> Disjoint"
  shows "compares rel r (s # p) (t # q)"
proof -
  have "\<not> (matches_path (s # p) xs \<and> matches_path (t # q) xs)" if "r = Disjoint" for xs
    using assms that by (cases xs; cases s; cases t) (auto simp: compares_def)
  then show ?thesis
    using assms by (cases s; cases t) (auto simp: compares_def combine_rel rel_cases split: if_splits)
qed

lemma compares_apart:
  assumes "\<not> is_multi s" "\<not> is_multi t" "compareSegments s t = Disjoint"
  shows "compares rel Disjoint (s # p) (t # q)"
proof -
  have "\<not> (matches_path (s # p) xs \<and> matches_path (t # q) xs)" for xs
    using assms by (cases xs; cases s; cases t) (auto split: if_splits)
  then show ?thesis
    using assms by (cases s; cases t) (auto simp: compares_def rel_cases split: if_splits)
qed

lemma compare_from_right:
  assumes "multi_last p" "multi_last q" "p \<noteq> [] \<Longrightarrow> m1 = last_multi p" "q \<noteq> [] \<Longrightarrow> m2 = last_multi q"
    "p = [] \<Longrightarrow> q \<noteq> [] \<Longrightarrow> \<not> m1" "q = [] \<Longrightarrow> p \<noteq> [] \<Longrightarrow> \<not> m2" "rel \<noteq> Disjoint"
  shows "compares rel (compare_from rel m1 m2 p q) p q"
  using assms
proof (induction rel m1 m2 p q rule: compare_from.induct)
  case (4 rel m1 m2 s1 segs1 s2 segs2)
  consider (one) n where "s1 = MultiWildcard n" | (two) n where "s2 = MultiWildcard n" "\<not> is_multi s1" | (none) "\<not> is_multi s1" "\<not> is_multi s2"
    by (cases s1; cases s2) auto
  then show ?case
  proof cases
    case one
    then have "segs1 = []" "m1" using "4.prems"(1,3) by (auto simp: multi_last_Cons last_multi_Cons)
    then show ?thesis
      using one "4.prems"(2,7) by (cases s2; cases segs2) (auto simp: compares_def Let_def combine_rel rel_cases multi_last_Cons)
  next
    case two
    then have "segs2 = []" "m2" using "4.prems"(2,4) by (auto simp: multi_last_Cons last_multi_Cons)
    then show ?thesis
      using two "4.prems"(1,7) by (cases s1; cases segs1) (auto simp: compares_def Let_def combine_rel rel_cases multi_last_Cons)
  next
    case none
    show ?thesis
    proof (cases "compareSegments s1 s2 = Disjoint")
      case True
      then show ?thesis using none compares_apart by (simp add: Let_def combine_rel)
    next
      case False
      then have nd: "combineRelationships rel (compareSegments s1 s2) \<noteq> Disjoint" using "4.prems"(7) by (simp add: combine_rel)
      have "compares (combineRelationships rel (compareSegments s1 s2))
          (compare_from (combineRelationships rel (compareSegments s1 s2)) m1 m2 segs1 segs2) segs1 segs2"
        by (rule "4.IH") (use none nd "4.prems" in \<open>auto simp: multi_last_Cons last_multi_Cons split: if_splits\<close>)
      from compares_Cons [OF none this False] show ?thesis using nd by (simp add: Let_def)
    qed
  qed
qed (auto simp: compares_def rel_cases matches_path_Cons)


lemma compare_from_lengths: "length p \<noteq> length q \<Longrightarrow> compare_from rel False False p q = Disjoint"
  by (induction rel False False p q rule: compare_from.induct) (auto simp: Let_def)

lemma comparePaths_right:
  assumes "multi_last p" "multi_last q" "p \<noteq> []" "q \<noteq> []"
  shows "compares Equivalent (comparePaths p q) p q"
proof -
  have "comparePaths p q = compare_from Equivalent (last_multi p) (last_multi q) p q"
    using compare_from_lengths [of p q Equivalent] by (auto simp: comparePaths_def)
  with compare_from_right [of p q "last_multi p" "last_multi q" Equivalent] assms show ?thesis by simp
qed

section \<open>The order of patterns\<close>

definition method_le :: "string \<Rightarrow> string \<Rightarrow> bool" where
  "method_le m1 m2 \<longleftrightarrow> m2 = [] \<or> m1 = m2 \<or> (m2 = ''GET'' \<and> m1 = ''HEAD'')"

definition pattern_le :: "pattern \<Rightarrow> pattern \<Rightarrow> bool" where
  "pattern_le p q \<longleftrightarrow> method_le (pt_method p) (pt_method q) \<and> paths_le (pt_segments p) (pt_segments q)"

definition pattern_wf :: "pattern \<Rightarrow> bool" where
  "pattern_wf p \<longleftrightarrow> pt_segments p \<noteq> [] \<and> multi_last (pt_segments p)"

lemma compareMethods_rel:
  "rel_le (compareMethods m1 m2) \<longleftrightarrow> method_le m1 m2" "rel_ge (compareMethods m1 m2) \<longleftrightarrow> method_le m2 m1"
  "compareMethods m1 m2 = Disjoint \<Longrightarrow> \<not> (method_matches m1 m \<and> method_matches m2 m)"
  by (auto simp: compareMethods_def method_le_def method_matches_def rel_cases split: if_splits)

lemma pattern_le_refl: "pattern_le p p"
  by (simp add: pattern_le_def method_le_def paths_le_refl)

lemma pattern_le_trans: "pattern_le p q \<Longrightarrow> pattern_le q r \<Longrightarrow> pattern_le p r"
  by (auto simp: pattern_le_def method_le_def intro: paths_le_trans)

lemma compare_patterns:
  assumes "pattern_wf p" "pattern_wf q"
  defines "r \<equiv> comparePathsAndMethods p q"
  shows "rel_le r \<longleftrightarrow> pattern_le p q" "rel_ge r \<longleftrightarrow> pattern_le q p"
    "r = Disjoint \<Longrightarrow> \<not> (method_matches (pt_method p) m \<and> method_matches (pt_method q) m \<and>
       matches_path (pt_segments p) xs \<and> matches_path (pt_segments q) xs)"
proof -
  have c: "compares Equivalent (comparePaths (pt_segments p) (pt_segments q)) (pt_segments p) (pt_segments q)"
    using assms(1,2) comparePaths_right by (simp add: pattern_wf_def)
  have r: "r = combineRelationships (compareMethods (pt_method p) (pt_method q)) (comparePaths (pt_segments p) (pt_segments q))"
    by (simp add: r_def comparePathsAndMethods_def Let_def combineRelationships_def)
  show "rel_le r \<longleftrightarrow> pattern_le p q" "rel_ge r \<longleftrightarrow> pattern_le q p"
    using c by (auto simp: r combine_rel compareMethods_rel compares_def pattern_le_def rel_cases)
  assume "r = Disjoint"
  then show "\<not> (method_matches (pt_method p) m \<and> method_matches (pt_method q) m \<and>
       matches_path (pt_segments p) xs \<and> matches_path (pt_segments q) xs)"
    using c compareMethods_rel(3) [of "pt_method p" "pt_method q" m] by (auto simp: r combine_rel compares_def)
qed

lemma relationship_cases:
  "r = MoreSpecific \<longleftrightarrow> rel_le r \<and> \<not> rel_ge r" "r = MoreGeneral \<longleftrightarrow> rel_ge r \<and> \<not> rel_le r" "r = Equivalent \<longleftrightarrow> rel_le r \<and> rel_ge r"
  by (cases r; simp add: rel_cases)+

lemma more_specific_iff:
  assumes "pattern_wf p" "pattern_wf q"
  shows "more_specific p q \<longleftrightarrow>
      (if pt_host p = pt_host q then pattern_le p q \<and> \<not> pattern_le q p else pt_host q = [])"
  using compare_patterns(1,2) [OF assms] by (simp add: more_specific_def relationship_cases(1))

lemma more_specific_trans:
  assumes "pattern_wf p" "pattern_wf q" "pattern_wf r" "more_specific p q" "more_specific q r"
  shows "more_specific p r"
  using assms(4,5) pattern_le_trans
  by (auto simp: more_specific_iff [OF assms(1,2)] more_specific_iff [OF assms(2,3)] more_specific_iff [OF assms(1,3)] split: if_splits)

lemma more_specific_asym:
  assumes "pattern_wf p" "pattern_wf q" "more_specific p q"
  shows "\<not> more_specific q p"
  using assms(3) by (auto simp: more_specific_iff [OF assms(1,2)] more_specific_iff [OF assms(2,1)] split: if_splits)

text \<open>Two patterns that do not conflict and match the same request are ordered.\<close>

lemma matching_ordered:
  assumes "pattern_wf p" "pattern_wf q" "pattern_matches host meth path p" "pattern_matches host meth path q"
    "\<not> conflictsWith p q"
  shows "more_specific p q \<or> more_specific q p"
proof (cases "pt_host p = pt_host q")
  case True
  let ?r = "comparePathsAndMethods p q"
  have "?r \<noteq> Disjoint"
    using compare_patterns(3) [OF assms(1,2), of meth "path_segments path"] assms(3,4) by (auto simp: pattern_matches_def path_matches_def matches_path_def)
  then have "?r = MoreSpecific \<or> ?r = MoreGeneral" using assms(5) True by (cases ?r) (simp_all add: conflictsWith_def)
  then show ?thesis
    using compare_patterns(1,2) [OF assms(1,2)] True
    by (auto simp: more_specific_iff [OF assms(1,2)] more_specific_iff [OF assms(2,1)] rel_cases)
next
  case False
  then show ?thesis using assms(3,4) by (auto simp: more_specific_def pattern_matches_def path_matches_def)
qed

lemma parse_segments_wf: "parse_segments seen pieces = Some segs \<Longrightarrow> multi_last segs \<and> (pieces \<noteq> [] \<longrightarrow> segs \<noteq> [])"
proof (induction seen pieces arbitrary: segs rule: parse_segments.induct)
  case (2 seen seg rest)
  then show ?case by (auto simp: Let_def multi_last_Cons split: if_splits option.splits)
qed (simp add: multi_last_def)

lemma parsePattern_wf: "parsePattern s = Some p \<Longrightarrow> pattern_wf p"
  using parse_segments_wf by (fastforce simp: parsePattern_def Let_def pattern_wf_def split: if_splits option.splits)


section \<open>Tables without conflicts\<close>

text \<open>What \<^verbatim>\<open>Handle\<close> promises of the table it builds, and what follows for the lookup.\<close>

definition conflict_free :: "'h mux \<Rightarrow> bool" where
  "conflict_free m \<longleftrightarrow> sorted_wrt (\<lambda>(q, _) (p, _). \<not> conflictsWith p q) m"

locale route_table =
  fixes m :: "'h mux"
  assumes wf: "(p, h) \<in> set m \<Longrightarrow> pattern_wf p"
    and free: "conflict_free m"
begin

definition best :: "string \<Rightarrow> string \<Rightarrow> string \<Rightarrow> pattern \<times> 'h \<Rightarrow> bool" where
  "best host meth path e \<longleftrightarrow>
     e \<in> set m \<and> pattern_matches host meth path (fst e) \<and>
     (\<forall>q \<in> set m. pattern_matches host meth path (fst q) \<longrightarrow> q = e \<or> more_specific (fst e) (fst q))"

lemma no_conflict:
  assumes "i < j" "j < length m"
  shows "\<not> conflictsWith (fst (m ! j)) (fst (m ! i))"
  using free assms by (auto simp: conflict_free_def sorted_wrt_iff_nth_less split_beta)

lemma entries_ordered:
  assumes "e \<in> set m" "f \<in> set m" "e \<noteq> f" "pattern_matches host meth path (fst e)" "pattern_matches host meth path (fst f)"
  shows "more_specific (fst e) (fst f) \<or> more_specific (fst f) (fst e)"
proof -
  obtain i j where ij: "i < length m" "j < length m" "e = m ! i" "f = m ! j" using assms(1,2) by (metis in_set_conv_nth)
  have wfs: "pattern_wf (fst e)" "pattern_wf (fst f)" using assms(1,2) wf by (metis prod.collapse)+
  consider "i < j" | "j < i" using ij assms(3) by fastforce
  then show ?thesis
    using no_conflict ij matching_ordered [OF wfs assms(4,5)] matching_ordered [OF wfs(2,1) assms(5,4)] by cases auto
qed

lemma best_unique: "best host meth path e \<Longrightarrow> best host meth path f \<Longrightarrow> e = f"
  unfolding best_def by (metis more_specific_asym prod.collapse wf)

lemma best_exists:
  assumes "e \<in> set m" "pattern_matches host meth path (fst e)"
  shows "\<exists>f. best host meth path f"
proof -
  let ?S = "{f \<in> set m. pattern_matches host meth path (fst f)}"
  let ?R = "\<lambda>f g. more_specific (fst f) (fst g)"
  have wfs: "pattern_wf (fst f)" if "f \<in> ?S" for f using that wf by (metis (lifting) mem_Collect_eq prod.collapse)
  have "asymp_on ?S ?R" using more_specific_asym wfs by (metis (no_types, lifting) asymp_onI)
  moreover have "transp_on ?S ?R" using more_specific_trans wfs by (metis (no_types, lifting) transp_onI)
  moreover have "?S \<noteq> {}" using assms by blast
  moreover have "finite ?S" by simp
  ultimately obtain f where f: "f \<in> ?S" "\<forall>g \<in> ?S. g \<noteq> f \<longrightarrow> \<not> ?R g f"
    using Finite_Set.bex_min_element by (metis (no_types, lifting))
  then show ?thesis using entries_ordered unfolding best_def by blast
qed

lemma match_best: "mux_match host meth path m = Some e \<longleftrightarrow> best host meth path e"
proof -
  let ?P = "\<lambda>(p, _). pattern_matches host meth path p \<and>
      list_all (\<lambda>(q, _). pattern_matches host meth path q \<longrightarrow> \<not> more_specific q p) m"
  have P: "e \<in> set m \<and> ?P e \<longleftrightarrow> best host meth path e" for e
    unfolding best_def list_all_iff
    by (auto simp: split_beta) (metis entries_ordered prod.collapse fst_conv, metis more_specific_asym wf prod.collapse fst_conv)+
  have "mux_match host meth path m = Some e \<Longrightarrow> best host meth path e" for e
    unfolding mux_match_def P [symmetric] by (auto simp: find_Some_iff) (metis nth_mem)
  moreover have "mux_match host meth path m \<noteq> None" if "best host meth path e"
    using that unfolding mux_match_def P [symmetric] find_None_iff by blast
  ultimately show ?thesis using best_unique by (metis not_None_eq)
qed

lemma match_None: "mux_match host meth path m = None \<longleftrightarrow> (\<forall>(p, h) \<in> set m. \<not> pattern_matches host meth path p)"
proof -
  have "(\<forall>e. \<not> best host meth path e) \<longleftrightarrow> (\<forall>e \<in> set m. \<not> pattern_matches host meth path (fst e))"
    using best_exists unfolding best_def by blast
  then show ?thesis using match_best by (metis (no_types, lifting) case_prod_beta not_None_eq)
qed

text \<open>If no entry is more specific than an earlier one, the first match is the most specific.\<close>

lemma match_first:
  assumes "sorted_wrt (\<lambda>(p, _) (q, _). \<not> more_specific q p) m"
  shows "mux_match host meth path m = find (\<lambda>(p, _). pattern_matches host meth path p) m"
proof (cases "find (\<lambda>(p, _). pattern_matches host meth path p) m")
  case None
  then have "mux_match host meth path m = None" by (auto simp: match_None find_None_iff)
  with None show ?thesis by simp
next
  case (Some e)
  then obtain i where i: "i < length m" "pattern_matches host meth path (fst (m ! i))" "e = m ! i"
      "\<forall>j < i. \<not> pattern_matches host meth path (fst (m ! j))"
    by (auto simp: find_Some_iff split_beta)
  have "q = e \<or> more_specific (fst e) (fst q)" if q: "q \<in> set m" "pattern_matches host meth path (fst q)" for q
  proof -
    obtain j where j: "j < length m" "q = m ! j" using q(1) by (metis in_set_conv_nth)
    then consider "j = i" | "i < j" using i(4) q(2) by fastforce
    then show ?thesis
    proof cases
      case 2
      then have "\<not> more_specific (fst q) (fst e)"
        using assms j i(3) by (auto simp: sorted_wrt_iff_nth_less split_beta)
      then show ?thesis using entries_ordered [of q e host meth path] q i nth_mem by blast
    qed (use j i in simp)
  qed
  then have "best host meth path e" using i nth_mem by (auto simp: best_def)
  then show ?thesis using match_best Some by simp
qed

end

lemma handle_keeps:
  assumes "mux_Handle pat h m = Some m'" "route_table m"
  shows "route_table m'"
proof -
  obtain p where p: "parsePattern pat = Some p" "\<not> list_ex (\<lambda>(q, _). conflictsWith p q) m" "m' = m @ [(p, h)]"
    using assms(1) by (auto simp: mux_Handle_def split: option.splits if_splits)
  then show ?thesis
    using assms(2) parsePattern_wf
    by (auto simp: route_table_def conflict_free_def sorted_wrt_append list_ex_iff)
qed

lemma handle_all_keeps: "handle_all rs m = Some m' \<Longrightarrow> route_table m \<Longrightarrow> route_table m'"
  by (induction rs m rule: handle_all.induct) (auto split: option.splits dest: handle_keeps)

lemma empty_route_table: "route_table []"
  by (simp add: route_table_def conflict_free_def)

end
