(* ===== verification/Server.thy ===== *)
theory Server
  imports Mux "HOL-Library.AList"
begin

text \<open>
  The server (\<^verbatim>\<open>internal/server/server.go\<close>, \<^verbatim>\<open>health.go\<close>): one listener per region with a port, one for the
  dashboard, and the shutdown.

  Listening is a parameter on the state of the network: it returns an address or an error. Serving happens
  in other goroutines. The waiting for a signal separates \<open>start_listeners\<close> from \<open>Shutdown\<close>; shutting down an HTTP
  server is a parameter too, and the order in which the map of servers is walked is an argument.

  Shown: a successful start listens exactly for the regions with a positive port, each with its own handler; a
  failing one names the first port that could not be bound; \<^verbatim>\<open>Shutdown\<close> asks every server once, also when one fails, and a
  second call does nothing.
\<close>

section \<open>State\<close>

record 'h http_server =
  hs_Handler :: 'h
  hs_ReadHeaderTimeout :: duration
  hs_IdleTimeout :: duration

definition new_http_server :: "'h \<Rightarrow> 'h http_server" where
  "new_http_server h = \<lparr>hs_Handler = h, hs_ReadHeaderTimeout = 10 * second, hs_IdleTimeout = 120 * second\<rparr>"

record 'h server =
  sv_config :: config
  sv_handlerFactory :: "(region \<Rightarrow> 'h) option"
  sv_dashboardHandler :: 'h
  sv_regionServers :: "(region \<times> 'h http_server) list"
  sv_regionAddrs :: "(region \<times> string) list"
  sv_dashboardAddr :: string
  sv_dashboardServer :: "'h http_server option"
  sv_shutdownOnce :: bool

datatype start_error = ListenFailed region int | DashboardListenFailed int

section \<open>Health\<close>

definition health_reply :: "string \<Rightarrow> rw \<Rightarrow> rw" where
  "health_reply status w =
     w_write (w_write_header (w_set w ''Content-Type'' ''application/json'') 200) (''{\"status\":\"'' @ status @ ''\"}'')"

definition NotFoundHandler :: "'s handler" where
  "NotFoundHandler r w s = (http_error w ''404 page not found'' 404, r_header r, s)"

definition health_mux :: "string mux option" where
  "health_mux = handle_all [(''GET /_sp-proxy/health'', ''ok''), (''GET /_sp-proxy/ready'', ''ready'')] []"

text \<open>The table is always built, see \<open>health_mux_eq\<close>.\<close>

definition NewHealthHandler :: "'s handler" where
  "NewHealthHandler =
     (case health_mux of
        None \<Rightarrow> NotFoundHandler
      | Some m \<Rightarrow> serve_mux [] (\<lambda>status vs r w s. (health_reply status w, r_header r, s)) m)"

definition health_table :: "string mux" where
  "health_table =
     [(\<lparr>pt_method = ''GET'', pt_host = [], pt_segments = [Literal ''_sp-proxy'', Literal ''health'']\<rparr>, ''ok''),
      (\<lparr>pt_method = ''GET'', pt_host = [], pt_segments = [Literal ''_sp-proxy'', Literal ''ready'']\<rparr>, ''ready'')]"

lemma health_mux_eq: "health_mux = Some health_table"
  by code_simp

interpretation ht: route_table health_table
  by (rule handle_all_keeps [OF health_mux_eq [unfolded health_mux_def] empty_route_table])

text \<open>The stand-alone handler answers its two paths, refuses other methods on them and knows no other path.\<close>

lemma health_replies:
  "r_method r = ''HEAD'' \<Longrightarrow> r_path r = ''/_sp-proxy/ready'' \<Longrightarrow> NewHealthHandler r w s = (health_reply ''ready'' w, r_header r, s)"
  "r_method r = ''POST'' \<Longrightarrow> r_path r = ''/_sp-proxy/health'' \<Longrightarrow>
     NewHealthHandler r w s = (http_error (w_set w ''Allow'' ''GET, HEAD'') ''Method Not Allowed'' 405, r_header r, s)"
  "r_path r = ''/'' \<Longrightarrow> r_method r = ''GET'' \<Longrightarrow> NewHealthHandler r w s = (http_error w ''404 page not found'' 404, r_header r, s)"
proof -
  have f: "\<exists>p. findHandler [] ''HEAD'' ''/_sp-proxy/ready'' health_table = Found p ''ready'' []"
    "findHandler [] ''POST'' ''/_sp-proxy/health'' health_table = MethodNotAllowed [''GET'', ''HEAD'']"
    "findHandler [] ''GET'' ''/'' health_table = PageNotFound"
    by (rule exI [of _ "fst (health_table ! 1)"], code_simp) code_simp+
  have j: "join '', '' [''GET'', ''HEAD''] = ''GET, HEAD''" by code_simp
  show "r_method r = ''HEAD'' \<Longrightarrow> r_path r = ''/_sp-proxy/ready'' \<Longrightarrow> NewHealthHandler r w s = (health_reply ''ready'' w, r_header r, s)"
    "r_method r = ''POST'' \<Longrightarrow> r_path r = ''/_sp-proxy/health'' \<Longrightarrow>
     NewHealthHandler r w s = (http_error (w_set w ''Allow'' ''GET, HEAD'') ''Method Not Allowed'' 405, r_header r, s)"
    "r_path r = ''/'' \<Longrightarrow> r_method r = ''GET'' \<Longrightarrow> NewHealthHandler r w s = (http_error w ''404 page not found'' 404, r_header r, s)"
    using f j by (auto simp: NewHealthHandler_def health_mux_eq serve_mux_def)
qed

section \<open>Start\<close>

definition server_New :: "config \<Rightarrow> (region \<Rightarrow> 's handler) option \<Rightarrow> 's handler option \<Rightarrow> 's handler server" where
  "server_New cfg factory dashboardHandler =
     \<lparr>sv_config = cfg, sv_handlerFactory = factory,
      sv_dashboardHandler = (case dashboardHandler of None \<Rightarrow> NewHealthHandler | Some h \<Rightarrow> h),
      sv_regionServers = [], sv_regionAddrs = [], sv_dashboardAddr = [], sv_dashboardServer = None, sv_shutdownOnce = False\<rparr>"

type_synonym 'n listen = "string \<Rightarrow> 'n \<Rightarrow> string option \<times> 'n"

definition addr_text :: "string \<Rightarrow> int \<Rightarrow> string" where
  "addr_text host port = host @ '':'' @ string_of_int port"

definition regionPorts :: "server_config \<Rightarrow> region \<Rightarrow> int" where
  "regionPorts sc rg = (case rg of RegionEU \<Rightarrow> PortEU sc | RegionNA \<Rightarrow> PortNA sc | RegionFE \<Rightarrow> PortFE sc | OtherRegion _ \<Rightarrow> 0)"

text \<open>\<^verbatim>\<open>m[k] = v\<close> on an association list.\<close>

definition set_key :: "'k \<Rightarrow> 'v \<Rightarrow> ('k \<times> 'v) list \<Rightarrow> ('k \<times> 'v) list" where
  "set_key k v m = AList.update k v m"

fun start_regions ::
  "'n listen \<Rightarrow> region list \<Rightarrow> 's handler server \<Rightarrow> 'n \<Rightarrow> start_error option \<times> 's handler server \<times> 'n" where
  "start_regions listen [] sv net = (None, sv, net)"
| "start_regions listen (rg # rgs) sv net =
     (let sc = cf_Server (sv_config sv); port = regionPorts sc rg in
      if port \<le> 0 then start_regions listen rgs sv net
      else
        let h = (case sv_handlerFactory sv of None \<Rightarrow> NotFoundHandler | Some factory \<Rightarrow> factory rg) in
        (case listen (addr_text (RegionBindAddr sc) port) net of
           (None, net1) \<Rightarrow> (Some (ListenFailed rg port), sv, net1)
         | (Some addr, net1) \<Rightarrow>
             start_regions listen rgs
               (sv\<lparr>sv_regionServers := set_key rg (new_http_server h) (sv_regionServers sv),
                   sv_regionAddrs := set_key rg addr (sv_regionAddrs sv)\<rparr>) net1))"

definition start_listeners :: "'n listen \<Rightarrow> 's handler server \<Rightarrow> 'n \<Rightarrow> start_error option \<times> 's handler server \<times> 'n" where
  "start_listeners listen sv net =
     (case start_regions listen AllRegions sv net of
        (Some e, sv1, net1) \<Rightarrow> (Some e, sv1, net1)
      | (None, sv1, net1) \<Rightarrow>
          let sc = cf_Server (sv_config sv1) in
          (case listen (addr_text (DashboardBindAddr sc) (PortDashboard sc)) net1 of
             (None, net2) \<Rightarrow> (Some (DashboardListenFailed (PortDashboard sc)), sv1, net2)
           | (Some addr, net2) \<Rightarrow>
               (None, sv1\<lparr>sv_dashboardServer := Some (new_http_server (sv_dashboardHandler sv1)), sv_dashboardAddr := addr\<rparr>, net2)))"

definition RegionAddr :: "'h server \<Rightarrow> region \<Rightarrow> string" where
  "RegionAddr sv rg = (case map_of (sv_regionAddrs sv) rg of None \<Rightarrow> [] | Some a \<Rightarrow> a)"

section \<open>Shutdown\<close>

text \<open>The servers of the map in the order of the walk, then the dashboard's. All calls share one context; \<open>stop\<close> is given its timeout
  and shuts one server down, or fails; the last error is returned.\<close>

definition running :: "region list \<Rightarrow> 'h server \<Rightarrow> 'h http_server list" where
  "running order sv =
     List.map_filter (map_of (sv_regionServers sv)) order @ (case sv_dashboardServer sv of None \<Rightarrow> [] | Some d \<Rightarrow> [d])"

fun stop_all :: "(duration \<Rightarrow> 'h http_server \<Rightarrow> 'n \<Rightarrow> string option \<times> 'n) \<Rightarrow> duration \<Rightarrow> 'h http_server list \<Rightarrow> string option \<Rightarrow> 'n \<Rightarrow> string option \<times> 'n" where
  "stop_all stop timeout [] err net = (err, net)"
| "stop_all stop timeout (srv # srvs) err net =
     (case stop timeout srv net of
        (Some e, net1) \<Rightarrow> stop_all stop timeout srvs (Some e) net1
      | (None, net1) \<Rightarrow> stop_all stop timeout srvs err net1)"

definition Shutdown ::
  "(duration \<Rightarrow> 'h http_server \<Rightarrow> 'n \<Rightarrow> string option \<times> 'n) \<Rightarrow> region list \<Rightarrow> 'h server \<Rightarrow> 'n \<Rightarrow> string option \<times> 'h server \<times> 'n" where
  "Shutdown stop order sv net =
     (if sv_shutdownOnce sv then (None, sv, net)
      else
        let timeout = (case parse_duration (ShutdownTimeout (cf_Server (sv_config sv))) of None \<Rightarrow> 30 * second | Some d \<Rightarrow> d)
        in (case stop_all stop timeout (running order sv) None net of (err, net1) \<Rightarrow> (err, sv\<lparr>sv_shutdownOnce := True\<rparr>, net1)))"

section \<open>What is served\<close>

lemma start_regions_frame:
  "start_regions listen rgs sv net = (e, sv', net') \<Longrightarrow>
     sv_config sv' = sv_config sv \<and> sv_handlerFactory sv' = sv_handlerFactory sv \<and> sv_dashboardHandler sv' = sv_dashboardHandler sv \<and>
     sv_dashboardServer sv' = sv_dashboardServer sv \<and> sv_shutdownOnce sv' = sv_shutdownOnce sv"
  by (induction rgs arbitrary: sv net) (auto simp: Let_def split: if_splits prod.splits option.splits dest!: meta_spec)

definition serves :: "'s handler server \<Rightarrow> region \<Rightarrow> 's handler http_server option" where
  "serves sv rg =
     (if regionPorts (cf_Server (sv_config sv)) rg \<le> 0 then None
      else Some (new_http_server (case sv_handlerFactory sv of None \<Rightarrow> NotFoundHandler | Some factory \<Rightarrow> factory rg)))"

lemma start_regions_serves:
  assumes "start_regions listen rgs sv net = (None, sv', net')"
  shows "map_of (sv_regionServers sv') rg =
    (if rg \<in> set rgs \<and> serves sv rg \<noteq> None then serves sv rg else map_of (sv_regionServers sv) rg)"
  using assms
proof (induction rgs arbitrary: sv net)
  case (Cons x rgs)
  show ?case
  proof (cases "regionPorts (cf_Server (sv_config sv)) x \<le> 0")
    case True
    then show ?thesis using Cons.IH [of sv net] Cons.prems by (auto simp: serves_def)
  next
    case False
    let ?h = "case sv_handlerFactory sv of None \<Rightarrow> NotFoundHandler | Some factory \<Rightarrow> factory x"
    obtain a net1 where l: "listen (addr_text (RegionBindAddr (cf_Server (sv_config sv))) (regionPorts (cf_Server (sv_config sv)) x)) net = (Some a, net1)"
      using Cons.prems False by (auto simp: Let_def split: option.splits prod.splits)
    let ?sv = "sv\<lparr>sv_regionServers := set_key x (new_http_server ?h) (sv_regionServers sv), sv_regionAddrs := set_key x a (sv_regionAddrs sv)\<rparr>"
    have "start_regions listen rgs ?sv net1 = (None, sv', net')" using Cons.prems False l by (simp add: Let_def)
    from Cons.IH [OF this] show ?thesis using False by (auto simp: serves_def set_key_def update_conv)
  qed
qed simp

text \<open>What it means to shut the servers down one after the other: every one is asked, also after a failure, and each in the state
  that the one before left. The answers come in order.\<close>

primrec shutdown_each :: "('h http_server \<Rightarrow> 'n \<Rightarrow> string option \<times> 'n) \<Rightarrow> 'h http_server list \<Rightarrow> 'n \<Rightarrow> string option list \<times> 'n" where
  "shutdown_each stop [] net = ([], net)"
| "shutdown_each stop (srv # srvs) net =
     (let (answer, net1) = stop srv net; (answers, net2) = shutdown_each stop srvs net1 in (answer # answers, net2))"

definition last_failure :: "string option list \<Rightarrow> string option" where
  "last_failure answers = (case rev (filter (\<lambda>a. a \<noteq> None) answers) of [] \<Rightarrow> None | a # _ \<Rightarrow> a)"

lemma last_failure_simps [simp]:
  "last_failure [] = None" "last_failure (a # as) = (if last_failure as = None then a else last_failure as)"
proof -
  have "hd (rev (filter (\<lambda>a. a \<noteq> None) as)) \<noteq> None" if "rev (filter (\<lambda>a. a \<noteq> None) as) \<noteq> []"
    using that by (metis (mono_tags, lifting) hd_in_set mem_Collect_eq set_filter set_rev)
  then show "last_failure (a # as) = (if last_failure as = None then a else last_failure as)"
    by (cases "rev (filter (\<lambda>a. a \<noteq> None) as)") (auto simp: last_failure_def)
qed (simp add: last_failure_def)

lemma stop_all_each:
  "stop_all stop timeout srvs err net =
     (case shutdown_each (stop timeout) srvs net of
        (answers, net2) \<Rightarrow> (if last_failure answers = None then err else last_failure answers, net2))"
  by (induction srvs arbitrary: err net) (auto split: prod.splits option.splits)

lemma shutdown_each_all: "length (fst (shutdown_each stop srvs net)) = length srvs"
  by (induction srvs arbitrary: net) (simp_all add: case_prod_beta Let_def)

text \<open>C39: a successful start listens for exactly the regions that have a positive port, each with the handler that the
  factory makes for that region, and for the dashboard. Shutting down afterwards asks every one of these servers to shut down, the
  regions' and then the dashboard's, each once and also when others fail, within the configured timeout, or 30 seconds
  if that does not parse, and returns the last failure; a second shutdown does nothing and returns no error.\<close>

theorem server_lifecycle:
  assumes "start_listeners listen (server_New cfg (Some factory) dash) net = (None, sv, net1)"
    and "distinct order" "set order = fst ` set (sv_regionServers sv)" 
    and "Shutdown stop order sv net1 = (err, sv2, net2)"
  shows "(\<forall>rg. map_of (sv_regionServers sv) rg =
      (if rg \<in> {RegionEU, RegionNA, RegionFE} \<and> 0 < regionPorts (cf_Server cfg) rg then Some (new_http_server (factory rg)) else None)) \<and>
    sv_dashboardServer sv = Some (new_http_server (case dash of None \<Rightarrow> NewHealthHandler | Some h \<Rightarrow> h)) \<and>
    (\<exists>answers. shutdown_each (stop (case parse_duration (ShutdownTimeout (cf_Server cfg)) of None \<Rightarrow> 30 * second | Some d \<Rightarrow> d))
        (map (\<lambda>rg. new_http_server (factory rg)) order @ [the (sv_dashboardServer sv)]) net1 = (answers, net2) \<and>
      length answers = length order + 1 \<and> err = last_failure answers) \<and>
    Shutdown stop order sv2 net3 = (None, sv2, net3)"
proof -
  obtain sv1 n1 where s: "start_regions listen AllRegions (server_New cfg (Some factory) dash) net = (None, sv1, n1)"
    and d: "sv_dashboardServer sv = Some (new_http_server (sv_dashboardHandler sv1))" "sv_regionServers sv = sv_regionServers sv1"
      "sv_shutdownOnce sv = sv_shutdownOnce sv1" "sv_config sv = sv_config sv1"
    using assms(1) by (auto simp: start_listeners_def Let_def split: prod.splits option.splits)
  have fr: "\<not> sv_shutdownOnce sv" "sv_config sv = cfg" "sv_dashboardHandler sv1 = (case dash of None \<Rightarrow> NewHealthHandler | Some h \<Rightarrow> h)"
    using start_regions_frame [OF s] d(3,4) by (simp_all add: server_New_def)
  have m: "map_of (sv_regionServers sv) rg =
      (if rg \<in> {RegionEU, RegionNA, RegionFE} \<and> 0 < regionPorts (cf_Server cfg) rg then Some (new_http_server (factory rg)) else None)" for rg
    unfolding d(2) start_regions_serves [OF s] by (auto simp: serves_def server_New_def AllRegions_def)
  have "map_of (sv_regionServers sv) rg = Some (new_http_server (factory rg))" if "rg \<in> set order" for rg
    using m [of rg] that assms(3) by (metis map_of_eq_None_iff)
  then have "List.map_filter (map_of (sv_regionServers sv)) order = map (\<lambda>rg. new_http_server (factory rg)) order"
    by (induction order) (simp_all add: List.map_filter_simps)
  then have servers: "running order sv = map (\<lambda>rg. new_http_server (factory rg)) order @ [the (sv_dashboardServer sv)]"
    using d(1) by (simp add: running_def)
  define timeout where "timeout = (case parse_duration (ShutdownTimeout (cf_Server cfg)) of None \<Rightarrow> 30 * second | Some d \<Rightarrow> d)"
  have stopped: "stop_all stop timeout (running order sv) None net1 = (err, net2)" "sv_shutdownOnce sv2"
    using assms(4) fr(1,2) by (auto simp: Shutdown_def Let_def timeout_def split: prod.splits)
  obtain answers where a: "shutdown_each (stop timeout) (running order sv) net1 = (answers, net2)" "err = last_failure answers"
    using stopped(1) by (auto simp: stop_all_each split: prod.splits if_splits)
  have "length answers = length order + 1"
    using shutdown_each_all [of "stop timeout" "running order sv" net1] unfolding a(1) by (simp add: servers)
  then show ?thesis
    using m d(1) fr(3) a stopped(2) unfolding servers timeout_def by (simp add: Shutdown_def)
qed

section \<open>The default configuration\<close>

definition demo_start :: "start_error option \<times> unit handler server \<times> nat" where
  "demo_start = start_listeners (\<lambda>addr n. (Some addr, Suc n)) (server_New (Load (\<lambda>_. [])) (Some (\<lambda>_. NotFoundHandler)) None) 0"

lemma default_ports:
  "PortEU (cf_Server (Load (\<lambda>_. []))) = 8080" "PortNA (cf_Server (Load (\<lambda>_. []))) = 8081" "PortFE (cf_Server (Load (\<lambda>_. []))) = 8082"
  by code_simp+

text \<open>Shutting down where the second of four servers fails: all four are asked.\<close>

definition demo_stop :: "duration \<Rightarrow> unit handler http_server \<Rightarrow> nat \<Rightarrow> string option \<times> nat" where
  "demo_stop timeout srv n = (if n = 5 then Some ''timeout'' else None, Suc n)"

theorem server_lifecycle_witness:
  "map_of (sv_regionServers (fst (snd demo_start))) RegionNA = Some (new_http_server NotFoundHandler) \<and>
   fst (Shutdown demo_stop [RegionFE, RegionEU, RegionNA] (fst (snd demo_start)) 4) = Some ''timeout'' \<and>
   snd (snd (Shutdown demo_stop [RegionFE, RegionEU, RegionNA] (fst (snd demo_start)) 4)) = 8"
proof -
  let ?o = "[RegionFE, RegionEU, RegionNA]" and ?sv = "fst (snd demo_start)"
  let ?run = "Shutdown demo_stop ?o ?sv 4"
  have run: "start_listeners (\<lambda>addr n. (Some addr, Suc n)) (server_New (Load (\<lambda>_. [])) (Some (\<lambda>_. NotFoundHandler)) None) 0 =
      (None, ?sv, 4)" and keys: "fst ` set (sv_regionServers ?sv) = {RegionEU, RegionNA, RegionFE}"
    by (auto simp: demo_start_def start_listeners_def AllRegions_def server_New_def Let_def default_ports regionPorts_def set_key_def)
  have o: "distinct ?o" "set ?o = fst ` set (sv_regionServers ?sv)" by (auto simp: keys)
  have "?run = (fst ?run, fst (snd ?run), snd (snd ?run))" by simp
  from server_lifecycle [OF run o this, of 0] show ?thesis
    by (auto simp: regionPorts_def default_ports demo_stop_def)
qed

end
