(* ===== verification/Service.thy ===== *)
theory Service
  imports Dashboard Metrics BodyRefs S3 Server
begin

text \<open>
  The program (\<^verbatim>\<open>cmd/smart-proxy/main.go\<close>): how the components are made from the configuration and put together.

  What lies outside is the record \<open>outside\<close>: hashes, JSON and gzip, the upstream transport, the HTTP client for tokens,
  the schedule of queues and timers, randomness. The order of the start, its exits and the deferred
  calls are in \<open>Program\<close>; log output is left out.

  Shown: in strict mode a request without an identity is answered with 400 and nothing else happens; every other
  request that the chain answers is logged once, with an entry that reaches the disk redacted only; a
  validated configuration gives a rotator, a body backend and retentions that are all positive.
\<close>

section \<open>The outside\<close>

record 'w outside =
  ot_sha256 :: "string \<Rightarrow> string"
  ot_codec :: codec
  ot_rfc3339 :: "string \<Rightarrow> time option"
  ot_gunzip :: gunzip
  ot_random :: string
  ot_clientIP :: "string option"
  ot_env :: "'w rl_env"
  ot_roundTrip :: "'w transport"
  ot_mint_client :: "'w transport"
  ot_decode :: "string \<Rightarrow> json option"
  ot_join :: "string \<Rightarrow> 'w \<Rightarrow> (rdt_entry option \<times> 'w) option"

fun region_text :: "region \<Rightarrow> string" where
  "region_text RegionEU = ''eu''"
| "region_text RegionNA = ''na''"
| "region_text RegionFE = ''fe''"
| "region_text (OtherRegion r) = r"

section \<open>Setup\<close>

definition main_registry :: "config \<Rightarrow> registry" where
  "main_registry cfg = SetFailClosed (NewRegistryWithExtras (QueryParamsExtra (cf_PII cfg))) (FailClosed (cf_PII cfg))"

definition main_resolver :: "config \<Rightarrow> resolver" where
  "main_resolver cfg = SetStrict (NewResolver None) (StrictMerchant (cf_Server cfg))"

definition setupCacheMiddleware ::
  "codec \<Rightarrow> (string \<Rightarrow> time option) \<Rightarrow> config \<Rightarrow> registry \<Rightarrow>
     ('a cache_world_scheme handler \<Rightarrow> 'a cache_world_scheme handler) \<times> mem_cache option" where
  "setupCacheMiddleware cd prfc cfg reg =
     (if \<not> cc_Enabled (cf_Cache cfg) then (\<lambda>nxt. nxt, None)
      else (CacheMiddleware cd prfc (NewTierClassifier (Some (ContainsPII reg))) (cf_Cache cfg),
            Some (NewMemoryCache (cc_MaxMemory (cf_Cache cfg)))))"

definition setupRDTMiddleware ::
  "('a rdt_world_scheme) outside \<Rightarrow> config \<Rightarrow> region \<Rightarrow> 'a rdt_world_scheme handler \<Rightarrow> 'a rdt_world_scheme handler" where
  "setupRDTMiddleware ot cfg region =
     (if \<not> AutoMint (cf_RDT cfg) then (\<lambda>nxt. nxt)
      else rdt_Handler
        \<lparr>mw_minter = Some \<lparr>mt_host = (case RegionEndpoints region of None \<Rightarrow> [] | Some host \<Rightarrow> host), mt_codec = ot_codec ot,
                           mt_decode = ot_decode ot, mt_client = ot_mint_client ot\<rparr>,
         mw_reports = True, sf_join = ot_join ot\<rparr>)"

text \<open>The state that the chains of all regions share at the start.\<close>

definition main_world :: "config \<Rightarrow> time \<Rightarrow> metrics_world" where
  "main_world cfg t =
     \<lparr>now = t, lim = NewLimiter (rl_ThrottleFactor (cf_RateLimit cfg)) (rl_QueueMaxDepth (cf_RateLimit cfg)),
      mcache = (if cc_Enabled (cf_Cache cfg) then NewMemoryCache (cc_MaxMemory (cf_Cache cfg)) else NewMemoryCache 0),
      rdtc = NewCache (5 * minute), tracker = NewReportTracker (70 * minute), lw_tokens = NewTokenStore, lw_reason = [],
      lw_logger = NewAsyncLogger 10000, mw_obs = []\<rparr>"

section \<open>The chain of a region\<close>

definition inner_middlewares ::
  "('a rdt_world_scheme) outside \<Rightarrow> config \<Rightarrow> region \<Rightarrow> ('a rdt_world_scheme handler \<Rightarrow> 'a rdt_world_scheme handler) list" where
  "inner_middlewares ot cfg region =
     [setupRDTMiddleware ot cfg region, fst (setupCacheMiddleware (ot_codec ot) (ot_rfc3339 ot) cfg (main_registry cfg)),
      RateLimitMiddleware (ot_env ot) (cf_RateLimit cfg)]"

definition buildRegionFactory ::
  "('a metrics_world_scheme) outside \<Rightarrow> config \<Rightarrow> region \<Rightarrow> 'a metrics_world_scheme handler" where
  "buildRegionFactory ot cfg region =
     (case NewRegionProxyWithLimiter region of
        None \<Rightarrow> (\<lambda>r w s. (http_error w ''proxy misconfigured'' 500, r_header r, s))
      | Some rp \<Rightarrow>
          let logMiddleware = LoggingMiddleware (ot_gunzip ot) (ot_random ot) (main_registry cfg) (region_text region)
                                (bd_MaxCaptureSize (cf_Bodies cfg));
              middlewares = [merchant_middleware (ot_sha256 ot) (main_resolver cfg), logMiddleware] @ inner_middlewares ot cfg region
          in BuildChain (ReverseProxy rp (ot_roundTrip ot) log_slot (ot_clientIP ot))
               (if pm_Enabled (cf_Prometheus cfg) then metrics_Middleware (region_text region) # middlewares else middlewares))"

section \<open>Storage\<close>

datatype 's body_backend = LocalBodies local_backend | S3Bodies "'s s3_backend"

datatype backend_error = LocalFailed | S3Failed s3_setup_error | UnsupportedBackend string

definition config_s3_options :: "config \<Rightarrow> s3_options" where
  "config_s3_options cfg =
     (let s = bd_S3 (cf_Bodies cfg) in
      \<lparr>so_Bucket = s3_Bucket s, so_Region = s3_Region s, so_Endpoint = s3_Endpoint s, so_AccessKey = s3_AccessKey s,
       so_SecretKey = s3_SecretKey s, so_PathStyle = s3_PathStyle s, so_SSE = s3_SSE s, so_SSEKMSKeyID = s3_SSEKMSKey s\<rparr>)"

text \<open>\<open>base\<close> is the path of \<^verbatim>\<open>cfg.Bodies.BasePath\<close>.\<close>

definition newBodyBackend ::
  "(s3_options \<Rightarrow> 'c s3_api option) \<Rightarrow> path \<Rightarrow> config \<Rightarrow> 'a fs_scheme \<Rightarrow> (backend_error + 'c body_backend) \<times> 'a fs_scheme" where
  "newBodyBackend connect base cfg s =
     (let kind = bd_Backend (cf_Bodies cfg) in
      if kind = [] \<or> kind = ''local''
      then (case NewLocal base s of (Inl e, s') \<Rightarrow> (Inl LocalFailed, s') | (Inr b, s') \<Rightarrow> (Inr (LocalBodies b), s'))
      else if kind = ''s3''
      then (case NewS3 connect (config_s3_options cfg) of Inl e \<Rightarrow> (Inl (S3Failed e), s) | Inr b \<Rightarrow> (Inr (S3Bodies b), s))
      else (Inl (UnsupportedBackend kind), s))"

definition duration_or_zero :: "string \<Rightarrow> duration" where
  "duration_or_zero x = (case parse_duration x of None \<Rightarrow> 0 | Some d \<Rightarrow> d)"

text \<open>\<open>None\<close>: the process exits because of an unknown codec.\<close>

definition startBodyRotator :: "'s backend \<Rightarrow> path \<Rightarrow> config \<Rightarrow> 's rotator option" where
  "startBodyRotator b dir cfg =
     (case NewCodec (bd_Compression (cf_Bodies cfg)) of
        None \<Rightarrow> None
      | Some cdc \<Rightarrow>
          Some (NewRotator b dir
            \<lparr>opt_Codec = Some cdc, opt_RecentMaxAge = duration_or_zero (bd_RecentMaxAge (cf_Bodies cfg)),
             opt_ArchiveMaxAge = duration_or_zero (bd_ArchiveMaxAge (cf_Bodies cfg)),
             opt_MaxBytes = bd_MaxBytes (cf_Bodies cfg), opt_OrphanNotifier = True\<rparr>))"

text \<open>The rotator that \<^verbatim>\<open>main\<close> starts, if any.\<close>

definition main_rotator :: "'s backend \<Rightarrow> path \<Rightarrow> config \<Rightarrow> 's rotator option" where
  "main_rotator b dir cfg = (if bd_Enabled (cf_Bodies cfg) then startBodyRotator b dir cfg else None)"

section \<open>Audit trail and jobs\<close>

text \<open>\<^verbatim>\<open>^AKIA[A-Z0-9]{16}$\<close>; as in Go, \<^verbatim>\<open>$\<close> matches at the very end only.\<close>

definition is_static_key :: "string \<Rightarrow> bool" where
  "is_static_key k \<longleftrightarrow> has_prefix k ''AKIA'' \<and> length k = 20 \<and>
     list_all (\<lambda>c. is_digit c \<or> (65 \<le> (of_char c :: nat) \<and> (of_char c :: nat) \<le> 90)) (drop 4 k)"

definition staticKeyWarning :: string where
  "staticKeyWarning = ''SP_PROXY_S3_ACCESS_KEY looks like a long-lived IAM user key (AKIA...) and SP_PROXY_S3_SSE is empty. '' @
     ''Migrate to STS / role assumption and set SP_PROXY_S3_SSE=AES256 (or aws:kms) to enforce server-side encryption.''"

definition warnIfStaticIAMKey :: "config \<Rightarrow> string list" where
  "warnIfStaticIAMKey cfg =
     (if \<not> is_static_key (s3_AccessKey (bd_S3 (cf_Bodies cfg))) \<or> s3_SSE (bd_S3 (cf_Bodies cfg)) \<noteq> [] then [] else [staticKeyWarning])"

text \<open>The events of the start: type, source, message and metadata. \<open>text\<close> prints a warning.\<close>

definition startup_events :: "(config_warning \<Rightarrow> string) \<Rightarrow> config \<Rightarrow> (string \<times> string \<times> string \<times> (string \<times> json) list) list" where
  "startup_events text cfg =
     (''startup'', ''main'', ''proxy starting'', [(''version'', JStr ''dev'')]) #
     map (\<lambda>w. (EventDPPComplianceWarning, ''config'', w, [])) (map text (Warnings cfg) @ warnIfStaticIAMKey cfg)"

definition main_jobs ::
  "codec \<Rightarrow> (duration \<Rightarrow> string) \<Rightarrow> string \<Rightarrow> config \<Rightarrow> (audit_db job) list" where
  "main_jobs cd text random cfg =
     [\<lparr>job_Name = ''metadata-purge'',
       job_Fn = MetadataPurgeJob cd text True random (duration_or_zero (MetadataRetention (cf_Purge cfg))), job_Interval = 1 * hour\<rparr>,
      \<lparr>job_Name = ''audit-purge'', job_Fn = AuditPurgeJob (duration_or_zero (AuditRetention (cf_Purge cfg))), job_Interval = 24 * hour\<rparr>]"

section \<open>The dashboard\<close>

definition main_dashboard ::
  "('a metrics_world_scheme) outside \<Rightarrow> jsonl \<Rightarrow> streams \<Rightarrow> (string \<Rightarrow> int option) \<Rightarrow> (string \<Rightarrow> (string \<times> string) option) \<Rightarrow> config \<Rightarrow>
     ('a metrics_world_scheme) dash" where
  "main_dashboard ot js st affinity urlp cfg =
     SetRegionHandlers (map_of (map (\<lambda>rg. (region_text rg, buildRegionFactory ot cfg rg)) [RegionEU, RegionNA, RegionFE]))
       (NewHandlerWithPIIAndReplay js st affinity (ot_rfc3339 ot) urlp (ot_codec ot, main_registry cfg))"

section \<open>The configuration reaches the components\<close>

lemma valid_duration: "validatePositiveDuration name val = None \<Longrightarrow> 0 < duration_or_zero val"
  by (auto simp: validatePositiveDuration_def duration_or_zero_def split: option.splits if_splits)

text \<open>A validated configuration gives a rotator with positive ages that reports what it deletes, and purges with
  positive retentions.\<close>

lemma valid_config_storage:
  assumes "Validate exists cfg = None" "bd_Enabled (cf_Bodies cfg)"
  shows "\<exists>r. startBodyRotator b dir cfg = Some r \<and> ro_backend r = b \<and> ro_dir r = dir \<and> 0 < ro_recentMaxAge r \<and> 0 < ro_archiveMaxAge r \<and>
      0 \<le> ro_maxBytes r \<and> ro_notifier r"
    and "0 < duration_or_zero (MetadataRetention (cf_Purge cfg))" "0 < duration_or_zero (AuditRetention (cf_Purge cfg))"
proof -
  have v: "validateBodies cfg = None" "validatePurge cfg = None"
    using assms(1) by (simp_all add: Validate_def first_error_None)
  show "0 < duration_or_zero (MetadataRetention (cf_Purge cfg))" "0 < duration_or_zero (AuditRetention (cf_Purge cfg))"
    using v(2) unfolding validatePurge_def first_error_None by (auto intro: valid_duration)
  have b: "validatePositiveDuration ''SP_PROXY_BODIES_RECENT_MAX_AGE'' (bd_RecentMaxAge (cf_Bodies cfg)) = None"
    "validatePositiveDuration ''SP_PROXY_BODIES_ARCHIVE_MAX_AGE'' (bd_ArchiveMaxAge (cf_Bodies cfg)) = None"
    "bd_Compression (cf_Bodies cfg) \<in> set [[], ''zstd'', ''gzip'', ''none'']" "0 \<le> bd_MaxBytes (cf_Bodies cfg)"
    using v(1) assms(2) unfolding validateBodies_def Let_def by (simp_all add: first_error_None split: if_split_asm)
  obtain cdc where "NewCodec (bd_Compression (cf_Bodies cfg)) = Some cdc"
    using b(3) by (auto simp: NewCodec_def)
  then show "\<exists>r. startBodyRotator b dir cfg = Some r \<and> ro_backend r = b \<and> ro_dir r = dir \<and> 0 < ro_recentMaxAge r \<and> 0 < ro_archiveMaxAge r \<and>
      0 \<le> ro_maxBytes r \<and> ro_notifier r"
    using valid_duration [OF b(1)] valid_duration [OF b(2)] b(4) by (simp add: startBodyRotator_def NewRotator_def)
qed

text \<open>Switching body storage off does not keep bodies from being captured and written: the chain of a region, which hands
  every body to the logger, is the same, only the rotator that would expire them is missing.\<close>

theorem bodies_switch_ignored:
  fixes ot :: "('a metrics_world_scheme) outside"
  assumes "off = cfg\<lparr>cf_Bodies := (cf_Bodies cfg)\<lparr>bd_Enabled := False\<rparr>\<rparr>"
  shows "buildRegionFactory ot off = buildRegionFactory ot cfg \<and> main_rotator b dir off = None"
proof
  have eqs: "main_registry off = main_registry cfg" "main_resolver off = main_resolver cfg"
    "inner_middlewares ot off rg = inner_middlewares ot cfg rg" "cf_Prometheus off = cf_Prometheus cfg"
    "bd_MaxCaptureSize (cf_Bodies off) = bd_MaxCaptureSize (cf_Bodies cfg)" for rg
    by (simp_all add: assms main_registry_def main_resolver_def inner_middlewares_def setupCacheMiddleware_def setupRDTMiddleware_def)
  show "buildRegionFactory ot off = buildRegionFactory ot cfg"
    by (rule ext) (unfold buildRegionFactory_def eqs, rule refl)
qed (simp add: main_rotator_def assms)

end
