(* ===== verification/Routes.thy ===== *)
theory Routes
  imports Dashboard Server
begin

text \<open>
  The dashboard's route table and its frontend (\<^verbatim>\<open>internal/dashboard/handler.go\<close>, \<^verbatim>\<open>embed.go\<close>), and the metrics page that
  \<^verbatim>\<open>mountMetricsHandler\<close> of \<^verbatim>\<open>cmd/smart-proxy/main.go\<close> adds to it.

  A route names the handler that the table holds; \<open>dash_handler\<close> runs it. The frontend's files are embedded at build
  time and not part of the sources, so the file tree is a parameter; serving one file's bytes (ranges, content types)
  is the library's work and the reply only names the file.

  Shown: the table is built without a panic and sends each request where the paths say; adding the metrics page
  takes no request away from an API handler, whatever path the operator chose; the frontend answers
  every path with a file or a redirect and never lists a directory.
\<close>

section \<open>The route table\<close>

datatype route =
    HealthRoute | ReadyRoute | LogsRoute | LogByIDRoute | LogBodyRoute | ReplayRoute | AuditRoute | MerchantsRoute
  | SpaRoute | MetricsRoute

definition NewMux :: "route mux option" where
  "NewMux = handle_all
     [(''GET /_sp-proxy/health'', HealthRoute),
      (''GET /_sp-proxy/ready'', ReadyRoute),
      (''GET /api/v1/logs'', LogsRoute),
      (''GET /api/v1/logs/{id}'', LogByIDRoute),
      (''GET /api/v1/logs/{id}/body'', LogBodyRoute),
      (''POST /api/v1/logs/{id}/replay'', ReplayRoute),
      (''GET /api/v1/audit'', AuditRoute),
      (''GET /api/v1/merchants'', MerchantsRoute),
      (''/'', SpaRoute)] []"

text \<open>\<open>None\<close>: the registration panics. With a port of its own the page is alone on a table of its own.\<close>

definition mountMetricsHandler :: "config \<Rightarrow> route mux \<Rightarrow> (route mux \<times> (int \<times> route mux) option) option" where
  "mountMetricsHandler cfg dashMux =
     (let pm = cf_Prometheus cfg in
      if \<not> pm_Enabled pm then Some (dashMux, None)
      else if pm_Port pm = 0 then map_option (\<lambda>m. (m, None)) (mux_Handle (pm_Path pm) MetricsRoute dashMux)
      else map_option (\<lambda>m. (dashMux, Some (pm_Port pm, m))) (mux_Handle (pm_Path pm) MetricsRoute []))"

section \<open>The frontend\<close>

datatype node_kind = FileNode | DirNode

type_synonym static_tree = "string \<Rightarrow> node_kind option"

definition ValidPath :: "string \<Rightarrow> bool" where
  "ValidPath name \<longleftrightarrow>
     name = ''.'' \<or> list_all (\<lambda>e. e \<noteq> [] \<and> e \<noteq> ''.'' \<and> e \<noteq> ''..'') (split_on (CHR ''/'') name)"

definition static_Open :: "static_tree \<Rightarrow> string \<Rightarrow> node_kind option" where
  "static_Open sub name = (if ValidPath name then sub name else None)"

datatype file_reply = ServeFile string | LocalRedirect string | ListDir string | FileNotFound | NotTraversable

text \<open>\<^verbatim>\<open>http.FS\<close> turns rooted names into those of the tree.\<close>

definition httpFS_name :: "string \<Rightarrow> string" where
  "httpFS_name name = (if name = ''/'' then ''.'' else trim_prefix name ''/'')"

definition path_Base :: "string \<Rightarrow> string" where
  "path_Base path =
     (if path = [] then ''.''
      else let stripped = trim_right path (CHR ''/'');
               base = rev (takeWhile (\<lambda>c. c \<noteq> CHR ''/'') (rev stripped)) in
           if base = [] then ''/'' else base)"

text \<open>\<^verbatim>\<open>http.FileServer\<close>, with the path of the request.\<close>

definition fileServer :: "static_tree \<Rightarrow> string \<Rightarrow> file_reply" where
  "fileServer sub path0 =
     (let url = (if has_prefix path0 ''/'' then path0 else CHR ''/'' # path0); name = path_Clean url in
      if has_suffix url ''/index.html'' then LocalRedirect ''./''
      else
        case static_Open sub (httpFS_name name) of
          None \<Rightarrow> FileNotFound
        | Some FileNode \<Rightarrow>
            if List.last url = CHR ''/''
            then let base = path_Base url in if base = ''/'' \<or> base = ''.'' then NotTraversable else LocalRedirect (''../'' @ base)
            else ServeFile (httpFS_name name)
        | Some DirNode \<Rightarrow>
            if List.last url \<noteq> CHR ''/'' then LocalRedirect (path_Base url @ ''/'')
            else let index = httpFS_name ((if has_suffix name ''/'' then butlast name else name) @ ''/index.html'') in
                 case static_Open sub index of
                   Some FileNode \<Rightarrow> ServeFile index
                 | Some DirNode \<Rightarrow> ListDir index
                 | None \<Rightarrow> ListDir (httpFS_name name))"

definition spaHandler :: "static_tree \<Rightarrow> string \<Rightarrow> file_reply" where
  "spaHandler sub url =
     (let path = (if trim_prefix url ''/'' = [] then ''index.html'' else trim_prefix url ''/'') in
      if static_Open sub path \<noteq> None then fileServer sub url else fileServer sub ''/'')"

section \<open>Serving a request\<close>

datatype dash_reply =
    HealthReply string
  | ApiReply "nat \<times> api"
  | FileReply file_reply
  | MetricsReply

text \<open>What the library writes: the encoded API replies, the file server's replies and the metrics page.\<close>

record pages =
  pg_api :: "api \<Rightarrow> string"
  pg_file :: "file_reply \<Rightarrow> request \<Rightarrow> rw \<Rightarrow> rw"
  pg_metrics :: "request \<Rightarrow> rw \<Rightarrow> rw"

definition render :: "pages \<Rightarrow> request \<Rightarrow> dash_reply \<Rightarrow> rw \<Rightarrow> rw" where
  "render pg r reply w =
     (case reply of
        HealthReply status \<Rightarrow> health_reply status w
      | ApiReply (status, a) \<Rightarrow> writeJSON (pg_api pg) status a w
      | FileReply f \<Rightarrow> pg_file pg f r w
      | MetricsReply \<Rightarrow> pg_metrics pg r w)"

definition PathValue :: "(string \<times> string) list \<Rightarrow> string \<Rightarrow> string" where
  "PathValue vs name = (case map_of vs name of None \<Rightarrow> [] | Some v \<Rightarrow> v)"

definition serve_route ::
  "codec \<Rightarrow> (string \<Rightarrow> bool) \<Rightarrow> static_tree \<Rightarrow> 'a log_world_scheme dash \<Rightarrow> route \<Rightarrow> (string \<times> string) list \<Rightarrow> string \<Rightarrow> request \<Rightarrow> time \<Rightarrow>
     'a log_world_scheme dash_state \<Rightarrow> dash_reply \<times> 'a log_world_scheme dash_state" where
  "serve_route cd json_valid sub h rt vs date r t s =
     (case rt of
        HealthRoute \<Rightarrow> (HealthReply ''ok'', s)
      | ReadyRoute \<Rightarrow> (HealthReply ''ready'', s)
      | LogsRoute \<Rightarrow> (ApiReply (handleLogs h r t s), s)
      | LogByIDRoute \<Rightarrow> (case handleLogByID h (PathValue vs ''id'') t s of (a, s') \<Rightarrow> (ApiReply a, s'))
      | LogBodyRoute \<Rightarrow> (ApiReply (handleLogBody h (PathValue vs ''id'') s), s)
      | ReplayRoute \<Rightarrow> (case handleReplay json_valid h (PathValue vs ''id'') date r t s of (a, s') \<Rightarrow> (ApiReply a, s'))
      | AuditRoute \<Rightarrow> (ApiReply (handleAudit cd h r t s), s)
      | MerchantsRoute \<Rightarrow> (ApiReply (handleMerchants r s), s)
      | SpaRoute \<Rightarrow> (FileReply (spaHandler sub (r_path r)), s)
      | MetricsRoute \<Rightarrow> (MetricsReply, s))"

text \<open>The dashboard's handler; \<open>t\<close> is the time of the request and \<open>date\<close> the same as text.\<close>

definition dash_handler ::
  "codec \<Rightarrow> (string \<Rightarrow> bool) \<Rightarrow> static_tree \<Rightarrow> pages \<Rightarrow> 'a log_world_scheme dash \<Rightarrow> string \<Rightarrow> string \<Rightarrow> time \<Rightarrow> route mux \<Rightarrow>
     'a log_world_scheme dash_state handler" where
  "dash_handler cd json_valid sub pg h host date t =
     serve_mux host (\<lambda>rt vs r w s.
       case serve_route cd json_valid sub h rt vs date r t s of (reply, s') \<Rightarrow> (render pg r reply w, r_header r, s'))"

section \<open>Where requests go\<close>

definition api_pattern :: "string \<Rightarrow> segment list \<Rightarrow> pattern" where
  "api_pattern meth segs = \<lparr>pt_method = meth, pt_host = [], pt_segments = segs\<rparr>"

definition logs_path :: "segment list \<Rightarrow> segment list" where
  "logs_path segs = [Literal ''api'', Literal ''v1'', Literal ''logs''] @ segs"

definition dash_mux :: "route mux" where
  "dash_mux =
     [(api_pattern ''GET'' [Literal ''_sp-proxy'', Literal ''health''], HealthRoute),
      (api_pattern ''GET'' [Literal ''_sp-proxy'', Literal ''ready''], ReadyRoute),
      (api_pattern ''GET'' (logs_path []), LogsRoute),
      (api_pattern ''GET'' (logs_path [Wildcard ''id'']), LogByIDRoute),
      (api_pattern ''GET'' (logs_path [Wildcard ''id'', Literal ''body'']), LogBodyRoute),
      (api_pattern ''POST'' (logs_path [Wildcard ''id'', Literal ''replay'']), ReplayRoute),
      (api_pattern ''GET'' [Literal ''api'', Literal ''v1'', Literal ''audit''], AuditRoute),
      (api_pattern ''GET'' [Literal ''api'', Literal ''v1'', Literal ''merchants''], MerchantsRoute),
      (api_pattern [] [MultiWildcard []], SpaRoute)]"

lemma NewMux_eq: "NewMux = Some dash_mux"
  by code_simp

interpretation dm: route_table dash_mux
  by (rule handle_all_keeps [OF NewMux_eq [unfolded NewMux_def] empty_route_table])

lemma dash_mux_sorted: "sorted_wrt (\<lambda>(p, _) (q, _). \<not> more_specific q p) dash_mux"
  by code_simp


text \<open>Where a request of a method goes, by the segments of its path.\<close>

definition dash_route :: "string \<Rightarrow> string list \<Rightarrow> route \<times> (string \<times> string) list" where
  "dash_route meth segs =
     (let get = (meth = ''GET'' \<or> meth = ''HEAD'') in
      case segs of
        [a, b] \<Rightarrow>
          if get \<and> a = ''_sp-proxy'' \<and> b = ''health'' then (HealthRoute, [])
          else if get \<and> a = ''_sp-proxy'' \<and> b = ''ready'' then (ReadyRoute, [])
          else (SpaRoute, [])
      | [a, b, c] \<Rightarrow>
          if get \<and> a = ''api'' \<and> b = ''v1'' \<and> c = ''logs'' then (LogsRoute, [])
          else if get \<and> a = ''api'' \<and> b = ''v1'' \<and> c = ''audit'' then (AuditRoute, [])
          else if get \<and> a = ''api'' \<and> b = ''v1'' \<and> c = ''merchants'' then (MerchantsRoute, [])
          else (SpaRoute, [])
      | [a, b, c, i] \<Rightarrow>
          if get \<and> a = ''api'' \<and> b = ''v1'' \<and> c = ''logs'' \<and> i \<noteq> ''/'' then (LogByIDRoute, [(''id'', i)])
          else (SpaRoute, [])
      | [a, b, c, i, d] \<Rightarrow>
          if get \<and> a = ''api'' \<and> b = ''v1'' \<and> c = ''logs'' \<and> i \<noteq> ''/'' \<and> d = ''body'' then (LogBodyRoute, [(''id'', i)])
          else if meth = ''POST'' \<and> a = ''api'' \<and> b = ''v1'' \<and> c = ''logs'' \<and> i \<noteq> ''/'' \<and> d = ''replay'' then (ReplayRoute, [(''id'', i)])
          else (SpaRoute, [])
      | _ \<Rightarrow> (SpaRoute, []))"

lemma api_pattern_matches:
  "pattern_matches host meth path (api_pattern pm segs) \<longleftrightarrow> method_matches pm meth \<and> match_segments segs (path_segments path) \<noteq> None"
  by (simp add: pattern_matches_def path_matches_def api_pattern_def)

lemma match_segments_case:
  "match_segments (Literal l # ps) xs = (case xs of [] \<Rightarrow> None | x # ys \<Rightarrow> if l = x then match_segments ps ys else None)"
  "match_segments (Wildcard n # ps) xs =
     (case xs of [] \<Rightarrow> None | x # ys \<Rightarrow> if x = ''/'' then None else map_option ((#) (n, x)) (match_segments ps ys))"
  "match_segments (MultiWildcard n # ps) xs = (case xs of [] \<Rightarrow> None | x # ys \<Rightarrow> Some (if n = [] then [] else [(n, rest_text xs)]))"
  by (cases xs; simp)+

lemma path_segments_not_Nil: "path_segments path \<noteq> []"
proof -
  obtain x ys where "split_on (CHR ''/'') (tl path) = x # ys" by (cases "split_on (CHR ''/'') (tl path)") auto
  then show ?thesis by (cases ys) (simp_all add: path_segments_def)
qed

lemma upto_five:
  assumes "xs \<noteq> []"
  obtains a where "xs = [a]" | a b where "xs = [a, b]" | a b c where "xs = [a, b, c]" | a b c d where "xs = [a, b, c, d]"
    | a b c d e where "xs = [a, b, c, d, e]" | a b c d e f ys where "xs = a # b # c # d # e # f # ys"
  using assms by (cases xs; cases "tl xs"; cases "tl (tl xs)"; cases "tl (tl (tl xs))"; cases "tl (tl (tl (tl xs)))"; cases "tl (tl (tl (tl (tl xs))))") auto

lemma dash_entries:
  "list_all (\<lambda>(p, rt). if rt = SpaRoute then pt_segments p = [MultiWildcard []]
     else \<not> last_multi (pt_segments p) \<and> pt_method p \<noteq> [] \<and> pt_host p = []) dash_mux"
  by code_simp

lemma dash_entry:
  assumes "mux_match host meth path dash_mux = Some (p, rt)"
  shows "if rt = SpaRoute then pt_segments p = [MultiWildcard []]
     else \<not> last_multi (pt_segments p) \<and> pt_method p \<noteq> [] \<and> pt_host p = []"
  using assms dash_entries dm.match_best by (fastforce simp: dm.best_def list_all_iff)

lemma match_literals: "match_segments (map Literal ls) xs = (if xs = ls then Some [] else None)"
  by (induction ls arbitrary: xs) (auto simp: match_segments_case split: list.splits)

lemma match_log_entry:
  "match_segments (logs_path (Wildcard n # map Literal ls)) xs =
     (if take 3 xs = [''api'', ''v1'', ''logs''] \<and> (\<exists>i. drop 3 xs = i # ls \<and> i \<noteq> ''/'') then Some [(n, xs ! 3)] else None)"
proof -
  have "match_segments (logs_path segs) xs =
      (if take 3 xs = [''api'', ''v1'', ''logs''] then match_segments segs (drop 3 xs) else None)" for segs
    by (cases xs; cases "tl xs"; cases "tl (tl xs)") (auto simp: logs_path_def match_segments_case)
  then show ?thesis
    by (cases "drop 3 xs") (auto simp: match_segments_case match_literals nth_via_drop)
qed

lemmas match_api =
  match_literals [of "[a, b]" for a b, unfolded list.map] match_literals [of "[a, b, c]" for a b c, unfolded list.map]
  match_log_entry [of n "[]" for n, unfolded list.map] match_log_entry [of n "[l]" for n l, unfolded list.map]

lemma log_segments: "take 3 xs = [a, b, c] \<Longrightarrow> drop 3 xs = ys \<Longrightarrow> xs = a # b # c # ys"
  using append_take_drop_id [of 3 xs] by simp

text \<open>An API pattern that matches is the one of the request's route.\<close>

lemma api_entry_route:
  assumes "(p, rt) \<in> set dash_mux" "rt \<noteq> SpaRoute" "method_matches (pt_method p) meth" "match_segments (pt_segments p) xs = Some vs"
  shows "dash_route meth xs = (rt, vs)"
proof -
  note lp = logs_path_def [of "[]", unfolded append_Nil2]
  have "(p, rt) \<in> set (butlast dash_mux)" using assms(1,2) by (auto simp: dash_mux_def)
  then show ?thesis
    using assms(3,4)
    by (auto simp: dash_mux_def api_pattern_def lp match_api dash_route_def Let_def method_matches_def split: if_splits dest!: log_segments)
qed

lemma api_route_entry:
  assumes "fst (dash_route meth xs) \<noteq> SpaRoute"
  shows "\<exists>p rt. (p, rt) \<in> set dash_mux \<and> rt \<noteq> SpaRoute \<and> method_matches (pt_method p) meth \<and> match_segments (pt_segments p) xs \<noteq> None"
proof -
  note lp = logs_path_def [of "[]", unfolded append_Nil2]
  have ex: "\<exists>p rt. (p, rt) \<in> set dash_mux \<and> rt \<noteq> SpaRoute \<and> method_matches (pt_method p) meth \<and> match_segments (pt_segments p) xs \<noteq> None"
    if "(api_pattern m segs, rt) \<in> set dash_mux" "rt \<noteq> SpaRoute" "method_matches m meth" "match_segments segs xs \<noteq> None" for m segs rt
    using that by (intro exI [of _ "api_pattern m segs"] exI [of _ rt]) (simp add: api_pattern_def)
  have "xs \<noteq> []" using assms by (auto simp: dash_route_def)
  then show ?thesis
  proof (cases xs rule: upto_five)
    case (2 a b)
    then have "method_matches ''GET'' meth" "(a = ''_sp-proxy'' \<and> b = ''health'') \<or> (a = ''_sp-proxy'' \<and> b = ''ready'')"
      using assms by (auto simp: dash_route_def Let_def method_matches_def split: if_splits)
    then show ?thesis
      using ex [of "''GET''" "[Literal ''_sp-proxy'', Literal ''health'']" HealthRoute] ex [of "''GET''" "[Literal ''_sp-proxy'', Literal ''ready'']" ReadyRoute] 2
      by (auto simp: dash_mux_def)
  next
    case (3 a b c)
    then have "method_matches ''GET'' meth" "a = ''api'' \<and> b = ''v1'' \<and> (c = ''logs'' \<or> c = ''audit'' \<or> c = ''merchants'')"
      using assms by (auto simp: dash_route_def Let_def method_matches_def split: if_splits)
    then show ?thesis
      using ex [of "''GET''" "logs_path []" LogsRoute] ex [of "''GET''" "[Literal ''api'', Literal ''v1'', Literal ''audit'']" AuditRoute]
        ex [of "''GET''" "[Literal ''api'', Literal ''v1'', Literal ''merchants'']" MerchantsRoute] 3
      by (auto simp: dash_mux_def lp)
  next
    case (4 a b c d)
    then have "method_matches ''GET'' meth" "a = ''api'' \<and> b = ''v1'' \<and> c = ''logs'' \<and> d \<noteq> ''/''"
      using assms by (auto simp: dash_route_def Let_def method_matches_def split: if_splits)
    then show ?thesis
      using ex [of "''GET''" "logs_path [Wildcard ''id'']" LogByIDRoute] 4 by (auto simp: dash_mux_def match_api)
  next
    case (5 a b c d e)
    then have path: "a = ''api'' \<and> b = ''v1'' \<and> c = ''logs'' \<and> d \<noteq> ''/''" and
      how: "(method_matches ''GET'' meth \<and> e = ''body'') \<or> (method_matches ''POST'' meth \<and> e = ''replay'')"
      using assms by (auto simp: dash_route_def Let_def method_matches_def split: if_splits)
    from how show ?thesis
    proof
      assume g: "method_matches ''GET'' meth \<and> e = ''body''"
      show ?thesis
        by (rule ex [of "''GET''" "logs_path [Wildcard ''id'', Literal ''body'']" LogBodyRoute]) (use 5 path g in \<open>simp_all add: dash_mux_def match_api\<close>)
    next
      assume g: "method_matches ''POST'' meth \<and> e = ''replay''"
      show ?thesis
        by (rule ex [of "''POST''" "logs_path [Wildcard ''id'', Literal ''replay'']" ReplayRoute]) (use 5 path g in \<open>simp_all add: dash_mux_def match_api\<close>)
    qed
  qed (use assms in \<open>simp_all add: dash_route_def\<close>)
qed

lemma spa_route_values: "fst (dash_route meth xs) = SpaRoute \<Longrightarrow> snd (dash_route meth xs) = []"
proof (cases "xs = []")
  case False
  then show "fst (dash_route meth xs) = SpaRoute \<Longrightarrow> snd (dash_route meth xs) = []"
    by (cases xs rule: upto_five; simp only: dash_route_def Let_def list.case prod.sel if_distrib [of fst] if_distrib [of snd] route.distinct if_False split: if_split_asm)
qed (simp add: dash_route_def)

lemma dash_hosts: "list_all (\<lambda>(q, _). pt_host q = []) dash_mux"
  by code_simp

lemma spa_most_general: "list_all (\<lambda>(q, _). \<not> more_specific (api_pattern [] [MultiWildcard []]) q) dash_mux"
  by code_simp

lemma dash_match:
  assumes "xs = path_segments path"
  shows "\<exists>p. mux_match host meth path dash_mux = Some (p, fst (dash_route meth xs)) \<and>
      match_segments (pt_segments p) xs = Some (snd (dash_route meth xs))"
proof -
  let ?spa = "api_pattern [] [MultiWildcard []]"
  have spa: "(?spa, SpaRoute) \<in> set dash_mux" "pattern_matches host meth path ?spa" "match_segments (pt_segments ?spa) xs = Some []"
    using path_segments_not_Nil [of path] assms
    by (simp add: dash_mux_def, simp add: api_pattern_matches method_matches_def match_segments_case split: list.split,
      simp add: match_segments_case api_pattern_def split: list.split)
  obtain p rt where m: "mux_match host meth path dash_mux = Some (p, rt)"
    using dm.match_None [of host meth path] spa by fastforce
  then have b: "dm.best host meth path (p, rt)" by (simp add: dm.match_best)
  then have e: "(p, rt) \<in> set dash_mux" "method_matches (pt_method p) meth" "match_segments (pt_segments p) xs \<noteq> None"
    using assms by (auto simp: dm.best_def pattern_matches_def path_matches_def)
  show ?thesis
  proof (cases "rt = SpaRoute")
    case False
    then show ?thesis using api_entry_route [OF e(1) False e(2)] e(3) m by auto
  next
    case True
    then have p: "p = ?spa" using e(1) by (auto simp: dash_mux_def)
    have "fst (dash_route meth xs) = SpaRoute"
    proof (rule ccontr)
      assume "fst (dash_route meth xs) \<noteq> SpaRoute"
      then obtain q k where q: "(q, k) \<in> set dash_mux" "k \<noteq> SpaRoute" "pattern_matches host meth path q"
        using api_route_entry dash_hosts assms by (fastforce simp: pattern_matches_def path_matches_def list_all_iff)
      then have "more_specific p q" using b True by (auto simp: dm.best_def)
      then show False using spa_most_general q(1) p by (auto simp: list_all_iff)
    qed
    then show ?thesis using m True p spa(3) spa_route_values by fastforce
  qed
qed

lemma split_on_snoc: "split_on c (s @ [c]) = split_on c s @ [[]]"
  by (induction s) (auto split: list.splits)

lemma mark_slash_Nil: "mark_slash xs = [] \<longleftrightarrow> xs = []"
  by (cases xs rule: mark_slash.cases) simp_all

lemma last_mark_slash: "List.last (mark_slash (xs @ [[]])) = ''/''"
proof (induction xs)
  case (Cons x xs) then show ?case by (cases "xs @ [[]]") (auto simp: mark_slash_Nil)
qed simp

lemma last_path_segments: "path \<noteq> [] \<Longrightarrow> List.last (path_segments (path @ ''/'')) = ''/''"
  by (simp add: path_segments_def split_on_snoc last_mark_slash)

lemma dash_route_slash: "segs \<noteq> [] \<Longrightarrow> List.last segs = ''/'' \<Longrightarrow> dash_route meth segs = (SpaRoute, [])"
  by (erule upto_five) (auto simp: dash_route_def Let_def)

lemma path_Clean_rooted: "p \<noteq> [] \<Longrightarrow> hd p = CHR ''/'' \<Longrightarrow> \<exists>q. path_Clean p = CHR ''/'' # q"
  by (simp add: path_Clean_def filepath_Clean_def Let_def)

lemma cleanPath_rooted: "\<exists>q. cleanPath p = CHR ''/'' # q"
proof (cases "p = []")
  case False
  let ?p1 = "if hd p = CHR ''/'' then p else CHR ''/'' # p"
  obtain q where "path_Clean ?p1 = CHR ''/'' # q" using path_Clean_rooted [of ?p1] False by (cases "hd p = CHR ''/''") auto
  then show ?thesis using False by (simp add: cleanPath_def Let_def split: if_splits)
qed (simp add: cleanPath_def)

lemma dash_no_slash_redirect: "\<not> slash_redirect host meth (CHR ''/'' # q) dash_mux"
proof
  let ?path = "(CHR ''/'' # q) @ ''/''"
  assume "slash_redirect host meth (CHR ''/'' # q) dash_mux"
  then obtain p rt where p: "mux_match host meth ?path dash_mux = Some (p, rt)" "exactMatch p ?path"
    by (auto simp: slash_redirect_def split: option.splits)
  have "dash_route meth (path_segments ?path) = (SpaRoute, [])"
    using dash_route_slash path_segments_not_Nil last_path_segments by blast
  with dash_match [OF refl, of host meth ?path] p(1) have "rt = SpaRoute" by simp
  with dash_entry [OF p(1)] have "pt_segments p = [MultiWildcard []]" by simp
  then show False using p(2) by (simp add: exactMatch_def last_multi_def count_byte_def)
qed

text \<open>C31: the dashboard's route table is built without a panic, and every request goes where its path says: a path that
  is not clean is redirected to the clean one; \<^verbatim>\<open>GET\<close> and \<^verbatim>\<open>HEAD\<close> of the health, log, audit and merchant paths and
  \<^verbatim>\<open>POST\<close> of a replay path reach their API handlers with the id of the path; everything else, an API path with
  another method too, goes to the frontend.\<close>

theorem dashboard_routes:
  "\<exists>m. NewMux = Some m \<and>
     (\<forall>host meth path. meth \<noteq> ''CONNECT'' \<longrightarrow>
        (if cleanPath path = path
         then \<exists>p. findHandler host meth path m =
                Found p (fst (dash_route meth (path_segments path))) (snd (dash_route meth (path_segments path)))
         else findHandler host meth path m = RedirectTo (cleanPath path)))"
proof (intro exI conjI allI impI)
  show "NewMux = Some dash_mux" by (rule NewMux_eq)
  fix host meth path :: string
  assume meth: "meth \<noteq> ''CONNECT''"
  obtain q where q: "cleanPath path = CHR ''/'' # q" using cleanPath_rooted by blast
  then have no: "\<not> slash_redirect host meth (cleanPath path) dash_mux" by (simp add: dash_no_slash_redirect)
  obtain p where p: "mux_match host meth path dash_mux = Some (p, fst (dash_route meth (path_segments path)))"
    "match_segments (pt_segments p) (path_segments path) = Some (snd (dash_route meth (path_segments path)))"
    using dash_match [OF refl] by blast
  show "if cleanPath path = path
        then \<exists>p. findHandler host meth path dash_mux =
               Found p (fst (dash_route meth (path_segments path))) (snd (dash_route meth (path_segments path)))
        else findHandler host meth path dash_mux = RedirectTo (cleanPath path)"
    using meth no p by (cases "cleanPath path = path") (simp_all add: findHandler_def Let_def)
qed

section \<open>Adding the metrics page\<close>

lemma Handle_keeps_match:
  assumes "route_table m" "mux_Handle pat h m = Some m'" "parsePattern pat = Some q" "pt_method q = []" "pt_host q = []"
    "mux_match host meth path m = Some (p, k)" "pt_method p \<noteq> []" "pt_host p = []"
  shows "mux_match host meth path m' = Some (p, k)"
proof -
  have m': "m' = m @ [(q, h)]" using assms(2,3) by (auto simp: mux_Handle_def split: if_splits)
  note t = assms(1) and t' = handle_keeps [OF assms(2,1)]
  have old: "route_table.best m host meth path (p, k)" using assms(6) route_table.match_best [OF t] by blast
  have "(p, k) \<noteq> (q, h)" using assms(4,7) by auto
  have "\<not> more_specific q p"
  proof
    assume "more_specific q p"
    then have "rel_le (comparePathsAndMethods q p)" using assms(5,8) by (simp add: more_specific_def rel_cases)
    moreover have "pattern_wf p" using old route_table.wf [OF t] by (auto simp: route_table.best_def [OF t])
    ultimately have "pattern_le q p" using compare_patterns(1) parsePattern_wf [OF assms(3)] by blast
    then show False using assms(4,7) by (simp add: pattern_le_def method_le_def)
  qed
  then have "route_table.best m' host meth path (p, k)"
    using old route_table.entries_ordered [OF t', of "(q, h)" "(p, k)" host meth path] assms(7) \<open>(p, k) \<noteq> (q, h)\<close>
    unfolding route_table.best_def [OF t] route_table.best_def [OF t'] unfolding m' by auto
  then show ?thesis using route_table.match_best [OF t'] by blast
qed

text \<open>Mounting the metrics page on the dashboard's port, under whatever path the operator configured without
  naming a method or host, either panics at the start or leaves every request of an API handler where it was,
  with the same path values; only requests of the frontend can go to the page.\<close>

theorem metrics_mount_keeps_api:
  assumes "NewMux = Some m" "mountMetricsHandler cfg m = Some (m', own)"
    "parsePattern (pm_Path (cf_Prometheus cfg)) = Some q" "pt_method q = []" "pt_host q = []"
    "findHandler host meth path m = Found p rt vs" "rt \<noteq> SpaRoute" "meth \<noteq> ''CONNECT''"
  shows "findHandler host meth path m' = Found p rt vs"
proof (cases "m' = m")
  case False
  have m: "m = dash_mux" using assms(1) [unfolded NewMux_eq] by simp
  have h: "mux_Handle (pm_Path (cf_Prometheus cfg)) MetricsRoute m = Some m'"
    using assms(2) False by (auto simp: mountMetricsHandler_def Let_def split: if_splits option.splits)
  have f: "cleanPath path = path" "mux_match host meth path m = Some (p, rt)"
    "vs = (case match_segments (pt_segments p) (path_segments path) of None \<Rightarrow> [] | Some vs \<Rightarrow> vs)"
    using assms(6,8) by (auto simp: findHandler_def Let_def split: if_splits option.splits prod.splits)
  have p: "\<not> last_multi (pt_segments p)" "pt_method p \<noteq> []" "pt_host p = []"
    using dash_entry [of host meth path p rt] f(2) assms(7) m by auto
  have "mux_match host meth path m' = Some (p, rt)"
    using Handle_keeps_match [OF _ h assms(3,4,5) f(2) p(2,3)] dm.route_table_axioms m by simp
  then show ?thesis using f p(1) assms(8) by (simp add: findHandler_def Let_def slash_redirect_def exactMatch_def)
qed (use assms(6) in simp)


section \<open>Every reply carries the security headers\<close>

definition keeps_header :: "string \<Rightarrow> (rw \<Rightarrow> rw) \<Rightarrow> bool" where
  "keeps_header k f \<longleftrightarrow> (\<forall>w. hdr_get (w_header (f w)) k = hdr_get (w_header w) k)"

definition framing_headers :: "string list" where
  "framing_headers = [''X-Frame-Options'', ''Referrer-Policy'', ''Content-Security-Policy'']"

lemma framing_keys:
  "k \<in> set framing_headers \<Longrightarrow> list_all (\<lambda>j. canonical_key j \<noteq> canonical_key k)
     [''Content-Type'', ''X-Content-Type-Options'', ''Content-Length'', ''Location'', ''Allow'']"
proof -
  have "list_all (\<lambda>k. list_all (\<lambda>j. canonical_key j \<noteq> canonical_key k)
     [''Content-Type'', ''X-Content-Type-Options'', ''Content-Length'', ''Location'', ''Allow'']) framing_headers" by code_simp
  then show "k \<in> set framing_headers \<Longrightarrow> ?thesis" by (simp add: list_all_iff)
qed

lemma security_headers:
  "\<exists>w'. SecurityHeadersMiddleware nxt r w s = nxt r w' s \<and> hdr_get (w_header w') ''X-Frame-Options'' = ''DENY'' \<and>
     hdr_get (w_header w') ''Referrer-Policy'' = ''no-referrer'' \<and>
     contains (hdr_get (w_header w') ''Content-Security-Policy'') ''frame-ancestors 'none';''"
proof -
  have keys: "canonical_key ''X-Frame-Options'' \<noteq> canonical_key ''X-Content-Type-Options''"
    "canonical_key ''X-Frame-Options'' \<noteq> canonical_key ''Referrer-Policy''"
    "canonical_key ''X-Frame-Options'' \<noteq> canonical_key ''Content-Security-Policy''"
    "canonical_key ''Referrer-Policy'' \<noteq> canonical_key ''Content-Security-Policy''" by code_simp+
  have last: "hdr_get (w_header (w_set v k x)) k = x" for v k x by (simp add: hdr_get_set)
  let ?w = "\<lambda>csp. w_set (w_set (w_set (w_set (w_set w ''Cache-Control'' ''no-store, no-cache, must-revalidate'') ''X-Frame-Options'' ''DENY'')
       ''X-Content-Type-Options'' ''nosniff'') ''Referrer-Policy'' ''no-referrer'') ''Content-Security-Policy'' csp"
  have f: "hdr_get (w_header (?w csp)) ''X-Frame-Options'' = ''DENY''" "hdr_get (w_header (?w csp)) ''Referrer-Policy'' = ''no-referrer''" for csp
    using keys by (simp_all add: hdr_get_set)
  show ?thesis
    unfolding SecurityHeadersMiddleware_def by (rule exI, intro conjI, rule refl, rule f(1), rule f(2), unfold last, code_simp)
qed


text \<open>Whatever the dashboard's port answers, the metrics page, redirects and errors of the multiplexer too, forbids framing and
  referrers, provided that the library's pages leave these headers alone.\<close>

theorem replies_not_framable:
  assumes "\<And>f r k. k \<in> set framing_headers \<Longrightarrow> keeps_header k (pg_file pg f r) \<and> keeps_header k (pg_metrics pg r)"
    and "SecurityHeadersMiddleware (dash_handler cd json_valid sub pg h host date t m) r w s = (w', hd', s')"
  shows "hdr_get (w_header w') ''X-Frame-Options'' = ''DENY'' \<and> hdr_get (w_header w') ''Referrer-Policy'' = ''no-referrer'' \<and>
    contains (hdr_get (w_header w') ''Content-Security-Policy'') ''frame-ancestors 'none';''"
proof -
  have keep: "hdr_get (w_header (fst (dash_handler cd json_valid sub pg h host date t m r w1 s))) k = hdr_get (w_header w1) k"
    if k: "k \<in> set framing_headers" for k w1
    using framing_keys [OF k] assms(1) [OF k]
    by (auto simp: dash_handler_def serve_mux_def render_def writeJSON_def health_reply_def http_error_def keeps_header_def hdr_get_set hdr_get_del
        split: found.splits prod.splits dash_reply.splits)
  obtain w1 where w1: "dash_handler cd json_valid sub pg h host date t m r w1 s = (w', hd', s')"
    "hdr_get (w_header w1) ''X-Frame-Options'' = ''DENY''" "hdr_get (w_header w1) ''Referrer-Policy'' = ''no-referrer''"
    "contains (hdr_get (w_header w1) ''Content-Security-Policy'') ''frame-ancestors 'none';''"
    using security_headers [of "dash_handler cd json_valid sub pg h host date t m" r w s] assms(2) by metis
  have "hdr_get (w_header w') k = hdr_get (w_header w1) k" if "k \<in> set framing_headers" for k
    using keep [OF that, of w1] w1(1) by simp
  then show ?thesis using w1(2,3,4) by (simp add: framing_headers_def)
qed

section \<open>The frontend never lists a directory\<close>


definition plain_element :: "string \<Rightarrow> bool" where
  "plain_element e \<longleftrightarrow> e \<noteq> [] \<and> e \<noteq> ''.'' \<and> e \<noteq> ''..''"

lemma clean_components_plain: "list_all plain_element ps \<Longrightarrow> clean_components rooted st ps = rev st @ ps"
  by (induction ps arbitrary: st) (simp_all add: plain_element_def)

lemma path_Clean_plain:
  assumes "list_all plain_element (split_on (CHR ''/'') p)"
  shows "path_Clean (CHR ''/'' # p) = CHR ''/'' # p"
proof -
  have "clean_components True [] (split_on (CHR ''/'') (CHR ''/'' # p)) = split_on (CHR ''/'') p"
    using clean_components_plain [OF assms] by simp
  then show ?thesis using join_split_on [of "CHR ''/''" p] by (simp add: path_Clean_def filepath_Clean_def Let_def)
qed

lemma plain_not_slash:
  assumes "list_all plain_element (split_on (CHR ''/'') p)"
  shows "p \<noteq> []" "List.last p \<noteq> CHR ''/''"
proof -
  show "p \<noteq> []" using assms by (auto simp: plain_element_def)
  show "List.last p \<noteq> CHR ''/''"
  proof
    assume "List.last p = CHR ''/''"
    then obtain q where "p = q @ [CHR ''/'']" using \<open>p \<noteq> []\<close> by (metis append_butlast_last_id)
    then show False using assms by (simp add: split_on_snoc plain_element_def)
  qed
qed

lemma fileServer_root:
  assumes "sub ''.'' = Some DirNode" "sub ''index.html'' = Some FileNode"
  shows "fileServer sub ''/'' = ServeFile ''index.html''"
proof -
  have "path_Clean ''/'' = ''/''" "ValidPath ''.''" "ValidPath ''index.html''" "\<not> has_suffix ''/'' ''/index.html''" "has_suffix ''/'' ''/''"
    by code_simp+
  then show ?thesis using assms by (simp add: fileServer_def static_Open_def httpFS_name_def trim_prefix_def)
qed

lemma fileServer_opened:
  assumes "static_Open sub p \<noteq> None" "p \<noteq> []" "url = CHR ''/'' # p \<or> (url = p \<and> \<not> has_prefix p ''/'')"
  shows "(\<exists>name. fileServer sub url = ServeFile name \<and> sub name = Some FileNode) \<or> (\<exists>u. fileServer sub url = LocalRedirect u)"
proof -
  have u: "(if has_prefix url ''/'' then url else CHR ''/'' # url) = CHR ''/'' # p" using assms(3) by auto
  have last: "List.last (CHR ''/'' # p) = List.last p" using assms(2) by simp
  show ?thesis
  proof (cases "p = ''.''")
    case True
    have "path_Clean ''/.'' = ''/''" "\<not> has_suffix ''/.'' ''/index.html''" by code_simp+
    then show ?thesis
      using assms(1) True u by (auto simp: fileServer_def httpFS_name_def Let_def static_Open_def split: node_kind.splits if_splits)
  next
    case False
    then have plain: "list_all plain_element (split_on (CHR ''/'') p)"
      using assms(1) by (auto simp: static_Open_def ValidPath_def plain_element_def list_all_iff split: if_splits)
    have "httpFS_name (CHR ''/'' # p) = p" using assms(2) by (simp add: httpFS_name_def trim_prefix_def)
    then show ?thesis
      using assms(1) plain_not_slash(2) [OF plain] last
      by (auto simp: fileServer_def u path_Clean_plain [OF plain] Let_def static_Open_def split: node_kind.splits if_splits)
  qed
qed

text \<open>Whatever path is asked for, the frontend's handler answers with an embedded file or with a redirect; a path
  that names nothing gets the start page, and no directory is ever listed. The file tree is any one with a start page.\<close>

theorem spa_serves_files:
  assumes "sub ''.'' = Some DirNode" "sub ''index.html'' = Some FileNode"
  shows "((\<exists>name. spaHandler sub url = ServeFile name \<and> sub name = Some FileNode) \<or> (\<exists>u. spaHandler sub url = LocalRedirect u)) \<and>
    (static_Open sub (trim_prefix url ''/'') = None \<longrightarrow> spaHandler sub url = ServeFile ''index.html'')"
proof (cases "trim_prefix url ''/'' = []")
  case True
  then have "url = ''/'' \<or> url = []" by (cases url) (auto simp: trim_prefix_def split: if_splits)
  then have "fileServer sub url = ServeFile ''index.html''"
    using fileServer_root [OF assms] fileServer_def [of sub "[]"] fileServer_def [of sub "''/''"] by auto
  then show ?thesis using True assms(2) fileServer_root [OF assms] by (simp add: spaHandler_def)
next
  case False
  let ?p = "trim_prefix url ''/''"
  have "url = CHR ''/'' # ?p \<or> (url = ?p \<and> \<not> has_prefix ?p ''/'')"
    by (cases url) (auto simp: trim_prefix_def)
  then show ?thesis
    using fileServer_opened [OF _ False] False assms(2) fileServer_root [OF assms] by (simp add: spaHandler_def)
qed


section \<open>Examples\<close>

theorem dashboard_routes_witness:
  "\<exists>m p. NewMux = Some m \<and> findHandler [] ''GET'' ''/api/v1/logs/42/body'' m = Found p LogBodyRoute [(''id'', ''42'')]"
proof -
  let ?path = "''/api/v1/logs/42/body''"
  have c: "cleanPath ?path = ?path" "dash_route ''GET'' (path_segments ?path) = (LogBodyRoute, [(''id'', ''42'')])" by code_simp+
  obtain m where m: "NewMux = Some m" and
    r: "\<forall>host meth path. meth \<noteq> ''CONNECT'' \<longrightarrow>
        (if cleanPath path = path
         then \<exists>p. findHandler host meth path m =
                Found p (fst (dash_route meth (path_segments path))) (snd (dash_route meth (path_segments path)))
         else findHandler host meth path m = RedirectTo (cleanPath path))"
    using dashboard_routes by blast
  have "\<exists>p. findHandler [] ''GET'' ?path m = Found p LogBodyRoute [(''id'', ''42'')]"
    using r [rule_format, of "''GET''" ?path "[]"] unfolding c(2) fst_conv snd_conv if_P [OF c(1)] by simp
  with m show ?thesis by blast
qed

definition metrics_config :: config where
  "metrics_config = (Load (\<lambda>_. []))\<lparr>cf_Prometheus := \<lparr>pm_Enabled = True, pm_Port = 0, pm_Path = ''/metrics''\<rparr>\<rparr>"

definition metrics_pattern :: pattern where
  "metrics_pattern = api_pattern [] [Literal ''metrics'']"

lemma metrics_mounted:
  "mountMetricsHandler metrics_config dash_mux = Some (dash_mux @ [(metrics_pattern, MetricsRoute)], None)"
  "parsePattern (pm_Path (cf_Prometheus metrics_config)) = Some metrics_pattern"
proof -
  have parse: "parsePattern ''/metrics'' = Some metrics_pattern" by code_simp
  have "\<not> list_ex (\<lambda>(q, _). conflictsWith metrics_pattern q) dash_mux" by code_simp
  with parse show "mountMetricsHandler metrics_config dash_mux = Some (dash_mux @ [(metrics_pattern, MetricsRoute)], None)"
    by (simp add: mountMetricsHandler_def metrics_config_def mux_Handle_def)
  show "parsePattern (pm_Path (cf_Prometheus metrics_config)) = Some metrics_pattern" using parse by (simp add: metrics_config_def)
qed

theorem metrics_mount_keeps_api_witness:
  "\<exists>p. findHandler [] ''GET'' ''/api/v1/audit'' (dash_mux @ [(metrics_pattern, MetricsRoute)]) = Found p AuditRoute []"
proof -
  have f: "findHandler [] ''GET'' ''/api/v1/audit'' dash_mux = Found (api_pattern ''GET'' [Literal ''api'', Literal ''v1'', Literal ''audit'']) AuditRoute []"
    by code_simp
  show ?thesis
    using metrics_mount_keeps_api [OF NewMux_eq metrics_mounted _ _ f] by (simp add: metrics_pattern_def api_pattern_def)
qed

text \<open>A path that would shadow a log entry, an unrooted one, and the root panic at the start; the configuration check
  lets them through.\<close>

theorem metrics_path_panics:
  "mux_Handle ''/api/v1/logs/export'' MetricsRoute dash_mux = None \<and> mux_Handle ''metrics'' MetricsRoute dash_mux = None \<and>
   mux_Handle ''/'' MetricsRoute dash_mux = None"
  by code_simp

definition demo_static :: static_tree where
  "demo_static name = map_of [(''.'', DirNode), (''index.html'', FileNode), (''assets'', DirNode), (''assets/app.js'', FileNode)] name"

theorem spa_serves_files_witness:
  "spaHandler demo_static ''/logs/42'' = ServeFile ''index.html'' \<and> spaHandler demo_static ''/assets'' = LocalRedirect ''assets/'' \<and>
   (\<exists>name u. spaHandler demo_static ''/assets/'' = ServeFile name \<or> spaHandler demo_static ''/assets/'' = LocalRedirect u)"
proof -
  have t: "demo_static ''.'' = Some DirNode" "demo_static ''index.html'' = Some FileNode"
    "static_Open demo_static (trim_prefix ''/logs/42'' ''/'') = None" "spaHandler demo_static ''/assets'' = LocalRedirect ''assets/''"
    by code_simp+
  then show ?thesis using spa_serves_files [OF t(1,2), of "''/logs/42''"] spa_serves_files [OF t(1,2), of "''/assets/''"] by auto
qed

end
