(* ===== verification/Migrate.thy ===== *)
theory Migrate
  imports PiiWalk
begin

text \<open>
  Schema migrations (\<^verbatim>\<open>internal/storage/migrate.go\<close>).

  The embedded directory is the list of its entries: name, whether it is a directory, and content. Running SQL is the
  parameter \<open>exec\<close> on the schema, \<open>None\<close> where it fails; any statement around it (begin, insert, commit)
  may fail for a version too (\<open>down\<close>). A transaction that does not commit leaves the database as it was.
  \<^verbatim>\<open>sort.Slice\<close> is taken as stable, which makes a difference only for files with the same version.

  Shown: a migration is applied with its version or not at all; migrations run in ascending order, each once;
  a run that broke off is completed by the next one, with the same result as a run that did not break off.
\<close>

record migration =
  mg_version :: int
  mg_name :: string
  mg_sql :: string

record 'q schema_db =
  sd_schema :: 'q
  sd_table :: bool
  sd_applied :: "int list"

definition parse_migration :: "string \<times> bool \<times> string \<Rightarrow> migration option" where
  "parse_migration e =
     (case e of (name, is_dir, content) \<Rightarrow>
        if is_dir \<or> \<not> has_suffix name ''.sql'' then None
        else case split_n2 (CHR ''_'') name of
          [v, _] \<Rightarrow> (case atoi v of None \<Rightarrow> None | Some version \<Rightarrow> Some \<lparr>mg_version = version, mg_name = name, mg_sql = content\<rparr>)
        | _ \<Rightarrow> None)"

definition loadMigrations :: "(string \<times> bool \<times> string) list \<Rightarrow> migration list" where
  "loadMigrations entries = sort_key mg_version (List.map_filter parse_migration entries)"

definition applyMigration ::
  "(string \<Rightarrow> 'q \<Rightarrow> 'q option) \<Rightarrow> (int \<Rightarrow> bool) \<Rightarrow> migration \<Rightarrow> 'q schema_db \<Rightarrow> bool \<times> 'q schema_db" where
  "applyMigration exec down m d =
     (if down (mg_version m) then (False, d)
      else case exec (mg_sql m) (sd_schema d) of
        None \<Rightarrow> (False, d)
      | Some q \<Rightarrow>
          if mg_version m \<in> set (sd_applied d) then (False, d)
          else (True, d\<lparr>sd_schema := q, sd_applied := sd_applied d @ [mg_version m]\<rparr>))"

text \<open>The loop; \<open>applied\<close> is what was read before it.\<close>

fun apply_pending ::
  "(string \<Rightarrow> 'q \<Rightarrow> 'q option) \<Rightarrow> (int \<Rightarrow> bool) \<Rightarrow> int set \<Rightarrow> migration list \<Rightarrow> 'q schema_db \<Rightarrow> bool \<times> 'q schema_db" where
  "apply_pending exec down applied [] d = (True, d)"
| "apply_pending exec down applied (m # ms) d =
     (if mg_version m \<in> applied then apply_pending exec down applied ms d
      else case applyMigration exec down m d of
        (False, d1) \<Rightarrow> (False, d1)
      | (True, d1) \<Rightarrow> apply_pending exec down applied ms d1)"

text \<open>\<open>ready\<close> says whether the table can be created and read.\<close>

definition RunMigrations ::
  "(string \<Rightarrow> 'q \<Rightarrow> 'q option) \<Rightarrow> bool \<Rightarrow> (int \<Rightarrow> bool) \<Rightarrow> (string \<times> bool \<times> string) list \<Rightarrow> 'q schema_db \<Rightarrow> bool \<times> 'q schema_db" where
  "RunMigrations exec ready down entries d =
     (if \<not> ready then (False, d)
      else let d1 = d\<lparr>sd_table := True\<rparr> in apply_pending exec down (set (sd_applied d1)) (loadMigrations entries) d1)"

section \<open>What a run has done\<close>

definition pending :: "int set \<Rightarrow> migration list \<Rightarrow> migration list" where
  "pending applied ms = filter (\<lambda>m. mg_version m \<notin> applied) ms"

lemma apply_pending_all:
  "(\<And>m. m \<in> set ms \<Longrightarrow> mg_version m \<notin> applied) \<Longrightarrow> apply_pending exec down applied ms d = apply_pending exec down {} ms d"
  by (induction ms arbitrary: d) (auto split: prod.splits bool.splits)

lemma apply_pending_filter:
  "apply_pending exec down applied ms d = apply_pending exec down {} (pending applied ms) d"
  by (induction ms arbitrary: d) (auto simp: pending_def split: prod.splits bool.splits)

text \<open>A run stops within the list of migrations: those before were applied in order, without a failure.\<close>

lemma apply_pending_prefix:
  assumes "apply_pending exec down {} ms d = (ok, d')"
  obtains dn left where "ms = dn @ left" "apply_pending exec (\<lambda>_. False) {} dn d = (True, d')" "ok \<longrightarrow> left = []"
    "sd_applied d' = sd_applied d @ map mg_version dn"
proof -
  have "\<exists>dn left. ms = dn @ left \<and> apply_pending exec (\<lambda>_. False) {} dn d = (True, d') \<and> (ok \<longrightarrow> left = []) \<and>
      sd_applied d' = sd_applied d @ map mg_version dn"
    using assms
  proof (induction ms arbitrary: d)
    case (Cons m ms)
    obtain ok1 d1 where a: "applyMigration exec down m d = (ok1, d1)" by fastforce
    show ?case
    proof (cases ok1)
      case False
      then have "d' = d" "\<not> ok"
        using Cons.prems a by (auto simp: applyMigration_def split: if_splits option.splits)
      then show ?thesis by (intro exI [of _ "[]"] exI [of _ "m # ms"]) simp
    next
      case True
      then have "apply_pending exec down {} ms d1 = (ok, d')" using Cons.prems a by simp
      from Cons.IH [OF this] obtain dn lf where IH: "ms = dn @ lf" "apply_pending exec (\<lambda>_. False) {} dn d1 = (True, d')"
        "ok \<longrightarrow> lf = []" "sd_applied d' = sd_applied d1 @ map mg_version dn" by blast
      have "applyMigration exec (\<lambda>_. False) m d = (True, d1)" "sd_applied d1 = sd_applied d @ [mg_version m]"
        using a True by (auto simp: applyMigration_def split: if_splits option.splits)
      then show ?thesis using IH by (intro exI [of _ "m # dn"] exI [of _ lf]) simp
    qed
  qed simp
  then show thesis using that by blast
qed

lemma apply_pending_append:
  "apply_pending exec down {} (xs @ ys) d =
     (case apply_pending exec down {} xs d of (True, d1) \<Rightarrow> apply_pending exec down {} ys d1 | (False, d1) \<Rightarrow> (False, d1))"
  by (induction xs arbitrary: d) (auto split: prod.splits bool.splits)

lemma apply_pending_table:
  "apply_pending exec down applied ms d = (ok, d') \<Longrightarrow> sd_table d' = sd_table d"
  by (induction ms arbitrary: d) (auto simp: applyMigration_def split: if_splits option.splits)

lemma pending_sorted:
  assumes "distinct (map mg_version ms)" "pending applied ms = dn @ left"
  shows "pending (applied \<union> mg_version ` set dn) ms = left"
proof -
  have "distinct (map mg_version (dn @ left))"
    using assms unfolding pending_def by (metis distinct_map_filter)
  then have "filter (\<lambda>m. mg_version m \<notin> mg_version ` set dn) (dn @ left) = left"
    by (auto simp: filter_id_conv filter_empty_conv)
  moreover have "pending (applied \<union> mg_version ` set dn) ms = filter (\<lambda>m. mg_version m \<notin> mg_version ` set dn) (pending applied ms)"
    by (auto simp: pending_def intro: filter_cong)
  ultimately show ?thesis using assms(2) by simp
qed

text \<open>C38: migrations that broke off are resumed: when a run stopped at some migration, for any reason, and a later
  run succeeds, the schema and the list of applied versions are those of a single run that did not
  break off, and every migration file's version is recorded; a further run changes nothing. Versions
  of the files are distinct.\<close>

theorem migrations_resume:
  assumes "distinct (map mg_version (loadMigrations entries))"
    and "RunMigrations exec ready down entries d = (ok, d1)"
    and "RunMigrations exec True (\<lambda>_. False) entries d1 = (True, d2)"
  shows "RunMigrations exec True (\<lambda>_. False) entries d = (True, d2) \<and>
    mg_version ` set (loadMigrations entries) \<subseteq> set (sd_applied d2) \<and> RunMigrations exec True down entries d2 = (True, d2)"
proof -
  let ?ms = "loadMigrations entries" and ?t = "\<lambda>d. d\<lparr>sd_table := True\<rparr>"
  have run: "RunMigrations exec True dn entries e = apply_pending exec dn {} (pending (set (sd_applied e)) ?ms) (?t e)" for dn e
    by (simp add: RunMigrations_def Let_def apply_pending_filter [of exec dn "set (sd_applied e)"])
  obtain dn lf where 1: "pending (set (sd_applied d)) ?ms = dn @ lf" "apply_pending exec (\<lambda>_. False) {} dn (?t d) = (True, ?t d1)"
    "sd_applied d1 = sd_applied d @ map mg_version dn"
  proof (cases ready)
    case True
    then have "apply_pending exec down {} (pending (set (sd_applied d)) ?ms) (?t d) = (ok, d1)" using assms(2) run by simp
    then obtain dn lf where p: "pending (set (sd_applied d)) ?ms = dn @ lf" "apply_pending exec (\<lambda>_. False) {} dn (?t d) = (True, d1)"
      "sd_applied d1 = sd_applied (?t d) @ map mg_version dn" by (rule apply_pending_prefix)
    have "sd_table d1" using apply_pending_table [OF p(2)] by simp
    then have "?t d1 = d1" using p(2) by simp
    then show ?thesis using that p by simp
  next
    case False
    then have "d1 = d" using assms(2) by (simp add: RunMigrations_def)
    then show ?thesis using that [of "[]"] by simp
  qed
  have p2: "pending (set (sd_applied d1)) ?ms = lf" using pending_sorted [OF assms(1) 1(1)] 1(3) by simp
  have 2: "apply_pending exec (\<lambda>_. False) {} lf (?t d1) = (True, d2)" using assms(3) by (simp add: run p2)
  then obtain dn2 where 3: "lf = dn2" "sd_applied d2 = sd_applied (?t d1) @ map mg_version dn2"
    by (metis apply_pending_prefix append_Nil2)
  have whole: "RunMigrations exec True (\<lambda>_. False) entries d = (True, d2)"
    by (simp add: run 1(1) apply_pending_append 1(2) 2)
  have all: "mg_version ` set ?ms \<subseteq> set (sd_applied d2)"
    using p2 3 by (auto simp: pending_def filter_empty_conv)
  have "?t d2 = d2" using apply_pending_table [OF 2] by simp
  moreover have "pending (set (sd_applied d2)) ?ms = []" using all by (auto simp: pending_def filter_empty_conv)
  ultimately show ?thesis using whole all by (simp add: run)
qed

section \<open>The files of the repository\<close>

text \<open>The names in \<^verbatim>\<open>internal/storage/migrations\<close>; the text of a file is given by a function.\<close>

definition migration_names :: "string list" where
  "migration_names = [''001_initial.sql'', ''002_add_cached_from_id.sql'', ''004_audit.sql'', ''006_error_reason.sql'',
     ''007_pii_redacted_split.sql'']"

definition migration_entries :: "(string \<Rightarrow> string) \<Rightarrow> (string \<times> bool \<times> string) list" where
  "migration_entries text = map (\<lambda>n. (n, False, text n)) migration_names"

lemma migration_versions: "map mg_version (loadMigrations (migration_entries id)) = [1, 2, 4, 6, 7]"
  by code_simp

text \<open>A schema that records the statements it was given.\<close>

definition demo_schema :: "string list schema_db" where
  "demo_schema = \<lparr>sd_schema = [], sd_table = False, sd_applied = []\<rparr>"

definition demo_exec :: "string \<Rightarrow> string list \<Rightarrow> string list option" where
  "demo_exec sql q = Some (q @ [sql])"

theorem migrations_resume_witness:
  "fst (RunMigrations demo_exec True (\<lambda>v. v = 4) (migration_entries id) demo_schema) = False \<and>
   RunMigrations demo_exec True (\<lambda>_. False) (migration_entries id) demo_schema =
     (True, \<lparr>sd_schema = migration_names, sd_table = True, sd_applied = [1, 2, 4, 6, 7]\<rparr>)"
proof -
  have d: "distinct (map mg_version (loadMigrations (migration_entries id)))" by (simp add: migration_versions)
  have 1: "RunMigrations demo_exec True (\<lambda>v. v = 4) (migration_entries id) demo_schema =
      (False, \<lparr>sd_schema = [''001_initial.sql'', ''002_add_cached_from_id.sql''], sd_table = True, sd_applied = [1, 2]\<rparr>)"
    by code_simp
  have 2: "RunMigrations demo_exec True (\<lambda>_. False) (migration_entries id)
      \<lparr>sd_schema = [''001_initial.sql'', ''002_add_cached_from_id.sql''], sd_table = True, sd_applied = [1, 2]\<rparr> =
      (True, \<lparr>sd_schema = migration_names, sd_table = True, sd_applied = [1, 2, 4, 6, 7]\<rparr>)"
    by code_simp
  show ?thesis using migrations_resume [OF d 1 2] 1 by simp
qed

end
