(* ===== verification/Opening.thy ===== *)
theory Opening
  imports Migrate
begin

text \<open>
  Opening the metadata store (\<^verbatim>\<open>NewSQLiteStore\<close> in \<^verbatim>\<open>internal/storage/sqlite.go\<close>, \<^verbatim>\<open>NewStore\<close> in \<^verbatim>\<open>store.go\<close>).

  The driver is a parameter: whether a database opens, and what switching to the write-ahead log does to the files, since
  SQLite makes them. The files are a map from names to modes; \<^verbatim>\<open>os.Chmod\<close> fails with \<^verbatim>\<open>ErrNotExist\<close> on a missing file and
  otherwise when the environment says so.

  Shown: a store is open exactly when opening it succeeded, a failure leaves nothing open, and the files that
  exist by then are readable and writable for their owner only.
\<close>

type_synonym file_modes = "string \<rightharpoonup> nat"

record 'q sqlite =
  sq_open :: bool
  sq_files :: file_modes
  sq_db :: "'q schema_db"

record driver =
  dr_open :: "string \<Rightarrow> bool"
  dr_wal :: "string \<Rightarrow> file_modes \<Rightarrow> bool \<times> file_modes"
  dr_chmod_fault :: "string \<Rightarrow> bool"

record 'q schema_steps =
  sm_exec :: "string \<Rightarrow> 'q \<Rightarrow> 'q option"
  sm_ready :: bool
  sm_down :: "int \<Rightarrow> bool"
  sm_entries :: "(string \<times> bool \<times> string) list"

datatype open_error = OpenFailed | PragmaFailed | ChmodFailed string | MigrateFailed | BadBackend string

datatype chmod_error = ChmodNotExist | ChmodError

definition os_Chmod :: "driver \<Rightarrow> string \<Rightarrow> nat \<Rightarrow> file_modes \<Rightarrow> chmod_error + file_modes" where
  "os_Chmod dr p mode files =
     (case files p of
        None \<Rightarrow> Inl ChmodNotExist
      | Some _ \<Rightarrow> if dr_chmod_fault dr p then Inl ChmodError else Inr (files(p \<mapsto> mode)))"

text \<open>Mode \<open>0o600\<close>.\<close>

definition owner_only :: nat where
  "owner_only = 6 * 64"

fun tighten_modes :: "driver \<Rightarrow> string list \<Rightarrow> file_modes \<Rightarrow> open_error option \<times> file_modes" where
  "tighten_modes dr [] files = (None, files)"
| "tighten_modes dr (p # ps) files =
     (case os_Chmod dr p owner_only files of
        Inr files' \<Rightarrow> tighten_modes dr ps files'
      | Inl ChmodNotExist \<Rightarrow> tighten_modes dr ps files
      | Inl ChmodError \<Rightarrow> (Some (ChmodFailed p), files))"

definition store_Migrate :: "'q schema_steps \<Rightarrow> 'q sqlite \<Rightarrow> bool \<times> 'q sqlite" where
  "store_Migrate sm s =
     (case RunMigrations (sm_exec sm) (sm_ready sm) (sm_down sm) (sm_entries sm) (sq_db s) of (ok, d) \<Rightarrow> (ok, s\<lparr>sq_db := d\<rparr>))"

definition sqlite_Close :: "'q sqlite \<Rightarrow> 'q sqlite" where
  "sqlite_Close s = s\<lparr>sq_open := False\<rparr>"

definition NewSQLiteStore :: "driver \<Rightarrow> 'q schema_steps \<Rightarrow> string \<Rightarrow> 'q sqlite \<Rightarrow> open_error option \<times> 'q sqlite" where
  "NewSQLiteStore dr sm path s0 =
     (if \<not> dr_open dr path then (Some OpenFailed, s0)
      else
        let s1 = s0\<lparr>sq_open := True\<rparr> in
        case dr_wal dr path (sq_files s1) of
          (False, fs2) \<Rightarrow> (Some PragmaFailed, sqlite_Close (s1\<lparr>sq_files := fs2\<rparr>))
        | (True, fs2) \<Rightarrow>
            (case (if path \<noteq> '':memory:'' then tighten_modes dr [path, path @ ''-wal'', path @ ''-shm''] fs2 else (None, fs2)) of
               (Some e, fs3) \<Rightarrow> (Some e, sqlite_Close (s1\<lparr>sq_files := fs3\<rparr>))
             | (None, fs3) \<Rightarrow>
                 (case store_Migrate sm (s1\<lparr>sq_files := fs3\<rparr>) of
                    (False, s4) \<Rightarrow> (Some MigrateFailed, sqlite_Close s4)
                  | (True, s4) \<Rightarrow> (None, s4))))"

definition storage_NewStore :: "driver \<Rightarrow> 'q schema_steps \<Rightarrow> string \<Rightarrow> string \<Rightarrow> 'q sqlite \<Rightarrow> open_error option \<times> 'q sqlite" where
  "storage_NewStore dr sm backend sqlitePath s =
     (if backend = ''sqlite'' then NewSQLiteStore dr sm sqlitePath s else (Some (BadBackend backend), s))"

section \<open>Private files\<close>

lemma tighten_modes_private:
  assumes "tighten_modes dr ps files = (None, files')"
  shows "files' q = (if q \<in> set ps \<and> files q \<noteq> None then Some owner_only else files q)"
  using assms
proof (induction ps arbitrary: files)
  case (Cons p ps)
  show ?case
  proof (cases "files p")
    case None
    then show ?thesis using Cons by (auto simp: os_Chmod_def)
  next
    case (Some m)
    then have "tighten_modes dr ps (files(p \<mapsto> owner_only)) = (None, files')"
      using Cons.prems by (auto simp: os_Chmod_def split: if_splits)
    from Cons.IH [OF this] show ?thesis using Some by auto
  qed
qed simp

lemma Migrate_frame: "store_Migrate sm t = (ok, t') \<Longrightarrow> sq_open t' = sq_open t \<and> sq_files t' = sq_files t"
  by (auto simp: store_Migrate_def split: prod.splits)

text \<open>Opening the store on a closed handle: it is open afterwards exactly on success; then the database file, its
  log and its index, as far as they exist, have mode \<open>0o600\<close>, and no other file's mode was touched after SQLite made its own.\<close>

theorem store_opened:
  assumes "NewSQLiteStore dr sm path s = (e, s')" "\<not> sq_open s"
  shows "(sq_open s' \<longleftrightarrow> e = None) \<and>
    (e = None \<longrightarrow> path \<noteq> '':memory:'' \<longrightarrow>
       (\<forall>f. sq_files s' f =
         (if f \<in> {path, path @ ''-wal'', path @ ''-shm''} \<and> snd (dr_wal dr path (sq_files s)) f \<noteq> None then Some owner_only
          else snd (dr_wal dr path (sq_files s)) f)))"
proof (intro conjI impI allI)
  note split = if_splits prod.splits bool.splits option.splits
  show "sq_open s' \<longleftrightarrow> e = None"
    using assms by (auto simp: NewSQLiteStore_def sqlite_Close_def Let_def dest: Migrate_frame split: split)
  fix f
  assume ok: "e = None" and path: "path \<noteq> '':memory:''"
  obtain fs3 where t: "tighten_modes dr [path, path @ ''-wal'', path @ ''-shm''] (snd (dr_wal dr path (sq_files s))) = (None, fs3)"
    "sq_files s' = fs3"
    using assms(1) ok path by (auto simp: NewSQLiteStore_def Let_def dest: Migrate_frame split: split simp del: tighten_modes.simps)
  show "sq_files s' f =
      (if f \<in> {path, path @ ''-wal'', path @ ''-shm''} \<and> snd (dr_wal dr path (sq_files s)) f \<noteq> None then Some owner_only
       else snd (dr_wal dr path (sq_files s)) f)"
    using tighten_modes_private [OF t(1), of f] t(2) by simp
qed

end
