(* ===== verification/Program.thy ===== *)
theory Program
  imports Service Routes Opening
begin

text \<open>
  A run of the program (\<^verbatim>\<open>main\<close> in \<^verbatim>\<open>cmd/smart-proxy/main.go\<close>, \<^verbatim>\<open>Start\<close> in \<^verbatim>\<open>internal/server/server.go\<close>): the steps of the
  start with the exits between them, the wait for a signal, and the deferred calls.

  \<^verbatim>\<open>os.Exit\<close> ends the process without running a deferred call; a panic and a return run them, last registered first.
  \<open>main_run\<close> gives how a run ends and which deferred calls it makes, \<open>run_deferred\<close> what a deferred call does to
  the logger, the stores and the audit trail. What the goroutines and requests do between the start and the signal is a
  parameter on the network's state; log lines are left out.

  Shown: a run that returns closes the logger while both stores are open, so that every accepted log entry is handed
  over before the process ends, and the background jobs are cancelled and the last audit event is written before a store is closed; a run that ends by \<^verbatim>\<open>os.Exit\<close>, a shutdown
  that hits its timeout too, makes none of the deferred calls.
\<close>

section \<open>Metrics\<close>

text \<open>The collectors' interval and what one tick records; \<open>None\<close> if disabled.\<close>

definition setupPrometheus :: "config \<Rightarrow> mem_cache option \<Rightarrow> limiter \<Rightarrow> (duration \<times> observation list) option" where
  "setupPrometheus cfg memCache lm =
     (if \<not> pm_Enabled (cf_Prometheus cfg) then None else Some (15 * second, collector_tick memCache (Some lm)))"

section \<open>Start of the server\<close>

datatype server_error = StartFailed start_error | ShutdownFailed string

text \<open>\<open>serve\<close> is what happens until the signal.\<close>

definition server_Start ::
  "'n listen \<Rightarrow> ('n \<Rightarrow> 'n) \<Rightarrow> (duration \<Rightarrow> 's handler http_server \<Rightarrow> 'n \<Rightarrow> string option \<times> 'n) \<Rightarrow> region list \<Rightarrow> 's handler server \<Rightarrow> 'n \<Rightarrow>
     server_error option \<times> 's handler server \<times> 'n" where
  "server_Start listen serve stop order sv net =
     (case start_listeners listen sv net of
        (Some e, sv1, net1) \<Rightarrow> (Some (StartFailed e), sv1, net1)
      | (None, sv1, net1) \<Rightarrow>
          (case Shutdown stop order sv1 (serve net1) of
             (Some e, sv2, net2) \<Rightarrow> (Some (ShutdownFailed e), sv2, net2)
           | (None, sv2, net2) \<Rightarrow> (None, sv2, net2)))"

section \<open>The run\<close>

datatype deferred =
    LimiterStop | MemCacheClose | MetaStoreClose | BodyStoreClose | LoggerClose | ContextCancel | AuditShutdown | CollectorsStop

datatype exit_reason =
    InvalidConfig config_error
  | MetaStoreFailed open_error
  | BackendFailed backend_error
  | BodyStoreFailed body_error
  | CodecFailed
  | ServerFailed server_error

datatype ending =
    Exited exit_reason
  | Panicked "deferred list"
  | Returned "deferred list"

record ('q, 'c, 'n, 'w) surroundings =
  su_env :: env
  su_exists :: "string \<Rightarrow> bool"
  su_driver :: driver
  su_schema :: "'q schema_steps"
  su_connect :: "s3_options \<Rightarrow> 'c s3_api option"
  su_base :: "path"
  su_listen :: "'n listen"
  su_serve :: "'n \<Rightarrow> 'n"
  su_stop :: "duration \<Rightarrow> 'w handler http_server \<Rightarrow> 'n \<Rightarrow> string option \<times> 'n"
  su_order :: "region list"
  su_outside :: "'w outside"
  su_dashboard :: "config \<Rightarrow> route mux \<Rightarrow> 'w handler"

record ('q, 'n) machine =
  ma_sqlite :: "'q sqlite"
  ma_fs :: fs
  ma_net :: 'n

text \<open>The rotator's codec is the only thing that can go wrong in \<^verbatim>\<open>startBodyRotator\<close>.\<close>

definition rotator_starts :: "config \<Rightarrow> bool" where
  "rotator_starts cfg \<longleftrightarrow> \<not> bd_Enabled (cf_Bodies cfg) \<or> NewCodec (bd_Compression (cf_Bodies cfg)) \<noteq> None"

text \<open>From the dashboard on, with the deferred calls registered so far.\<close>

definition main_serve ::
  "('q, 'c, 'n, 'a metrics_world_scheme) surroundings \<Rightarrow> config \<Rightarrow> deferred list \<Rightarrow> ('q, 'n) machine \<Rightarrow> ending \<times> ('q, 'n) machine" where
  "main_serve su cfg defers m =
     (case NewMux of
        None \<Rightarrow> (Panicked defers, m)
      | Some dashMux \<Rightarrow>
          (case mountMetricsHandler cfg dashMux of
             None \<Rightarrow> (Panicked defers, m)
           | Some (dashMux1, own) \<Rightarrow>
               let srv = server_New cfg (Some (buildRegionFactory (su_outside su) cfg)) (Some (SecurityHeadersMiddleware (su_dashboard su cfg dashMux1))) in
               (case server_Start (su_listen su) (su_serve su) (su_stop su) (su_order su) srv (ma_net m) of
                  (Some e, _, net1) \<Rightarrow> (Exited (ServerFailed e), m\<lparr>ma_net := net1\<rparr>)
                | (None, _, net1) \<Rightarrow> (Returned defers, m\<lparr>ma_net := net1\<rparr>))))"

definition main_run :: "('q, 'c, 'n, 'a metrics_world_scheme) surroundings \<Rightarrow> ('q, 'n) machine \<Rightarrow> ending \<times> ('q, 'n) machine" where
  "main_run su m =
     (let cfg = LoadWithLogger (su_env su) in
      case Validate (su_exists su) cfg of
        Some e \<Rightarrow> (Exited (InvalidConfig e), m)
      | None \<Rightarrow>
          let d1 = [LimiterStop]; d2 = MemCacheClose # d1 in
          (case NewSQLiteStore (su_driver su) (su_schema su) (SQLitePath (cf_Storage cfg)) (ma_sqlite m) of
             (Some e, sq) \<Rightarrow> (Exited (MetaStoreFailed e), m\<lparr>ma_sqlite := sq\<rparr>)
           | (None, sq) \<Rightarrow>
               let m1 = m\<lparr>ma_sqlite := sq\<rparr>; d3 = MetaStoreClose # d2 in
               (case newBodyBackend (su_connect su) (su_base su) cfg (ma_fs m1) of
                  (Inl e, s1) \<Rightarrow> (Exited (BackendFailed e), m1\<lparr>ma_fs := s1\<rparr>)
                | (Inr b, s1) \<Rightarrow>
                    (case NewWriter (su_base su @ [''current'']) s1 of
                       (Inl e, s2) \<Rightarrow> (Exited (BodyStoreFailed e), m1\<lparr>ma_fs := s2\<rparr>)
                     | (Inr w, s2) \<Rightarrow>
                         let m2 = m1\<lparr>ma_fs := s2\<rparr>; d4 = BodyStoreClose # d3; d5 = LoggerClose # d4; d6 = ContextCancel # d5 in
                         if \<not> rotator_starts cfg then (Exited CodecFailed, m2)
                         else let d7 = AuditShutdown # d6; d8 = CollectorsStop # d7 in
                              main_serve su cfg d8 m2))))"

section \<open>The deferred calls\<close>

text \<open>\<open>rs_sink\<close> is what the stores hold; a flush depends on which of them are open. \<open>rs_cancelled\<close> says that the context of the rotator and
  the scheduler is cancelled, \<open>rs_jobsExposed\<close> that a store was closed while that context was still live, so that a
  job could be started on a closed store. The last audit event may fail to be written; the program ignores the error.\<close>

record 's resources =
  rs_logger :: alog
  rs_sink :: 's
  rs_metaOpen :: bool
  rs_bodiesOpen :: bool
  rs_cancelled :: bool
  rs_jobsExposed :: bool
  rs_audit :: "string list"
  rs_auditFault :: bool
  rs_limiterStopped :: bool
  rs_cacheClosed :: bool
  rs_collecting :: bool

definition run_deferred :: "(bool \<Rightarrow> bool \<Rightarrow> log_entry list \<Rightarrow> 's \<Rightarrow> 's) \<Rightarrow> deferred \<Rightarrow> 's resources \<Rightarrow> 's resources" where
  "run_deferred fl d rs =
     (case d of
        LimiterStop \<Rightarrow> rs\<lparr>rs_limiterStopped := True\<rparr>
      | MemCacheClose \<Rightarrow> rs\<lparr>rs_cacheClosed := True\<rparr>
      | MetaStoreClose \<Rightarrow> rs\<lparr>rs_metaOpen := False, rs_jobsExposed := rs_jobsExposed rs \<or> \<not> rs_cancelled rs\<rparr>
      | BodyStoreClose \<Rightarrow> rs\<lparr>rs_bodiesOpen := False, rs_jobsExposed := rs_jobsExposed rs \<or> \<not> rs_cancelled rs\<rparr>
      | LoggerClose \<Rightarrow>
          (case worker_drain (fl (rs_metaOpen rs) (rs_bodiesOpen rs)) (Close (rs_logger rs)) (rs_sink rs) of
             (l, x) \<Rightarrow> rs\<lparr>rs_logger := l, rs_sink := x\<rparr>)
      | ContextCancel \<Rightarrow> rs\<lparr>rs_cancelled := True\<rparr>
      | AuditShutdown \<Rightarrow> (if rs_metaOpen rs \<and> \<not> rs_auditFault rs then rs\<lparr>rs_audit := rs_audit rs @ [''shutdown'']\<rparr> else rs)
      | CollectorsStop \<Rightarrow> rs\<lparr>rs_collecting := False\<rparr>)"

definition run_ending :: "(bool \<Rightarrow> bool \<Rightarrow> log_entry list \<Rightarrow> 's \<Rightarrow> 's) \<Rightarrow> ending \<Rightarrow> 's resources \<Rightarrow> 's resources" where
  "run_ending fl en rs =
     (case en of
        Exited _ \<Rightarrow> rs
      | Panicked ds \<Rightarrow> fold (run_deferred fl) ds rs
      | Returned ds \<Rightarrow> fold (run_deferred fl) ds rs)"

definition exit_code :: "ending \<Rightarrow> nat" where
  "exit_code en = (case en of Exited _ \<Rightarrow> 1 | Panicked _ \<Rightarrow> 2 | Returned _ \<Rightarrow> 0)"


section \<open>How a run ends\<close>

definition all_deferred :: "deferred list" where
  "all_deferred = [CollectorsStop, AuditShutdown, ContextCancel, LoggerClose, BodyStoreClose, MetaStoreClose, MemCacheClose, LimiterStop]"

lemma main_serve_deferred:
  assumes "main_serve su cfg defers m = (en, m')" "en = Returned ds \<or> en = Panicked ds"
  shows "ds = defers \<and> ma_sqlite m' = ma_sqlite m"
  using assms unfolding main_serve_def NewMux_eq option.case Let_def
  by (auto split: option.split_asm prod.split_asm)

text \<open>A run that does not end by \<^verbatim>\<open>os.Exit\<close> has come past the last registration, with a valid configuration and an open store.\<close>

lemma run_registered:
  assumes "main_run su m = (en, m')" "en = Returned ds \<or> en = Panicked ds" "\<not> sq_open (ma_sqlite m)"
  shows "ds = all_deferred \<and> Validate (su_exists su) (LoadWithLogger (su_env su)) = None \<and> sq_open (ma_sqlite m')"
proof -
  let ?cfg = "LoadWithLogger (su_env su)"
  obtain sq where v: "Validate (su_exists su) ?cfg = None"
    and sq: "NewSQLiteStore (su_driver su) (su_schema su) (SQLitePath (cf_Storage ?cfg)) (ma_sqlite m) = (None, sq)"
    and m2: "\<exists>s2. main_serve su ?cfg all_deferred (m\<lparr>ma_sqlite := sq, ma_fs := s2\<rparr>) = (en, m')"
    using assms(1,2) unfolding main_run_def Let_def all_deferred_def
    by (auto split: option.splits prod.splits sum.splits if_splits)
  have "ds = all_deferred \<and> ma_sqlite m' = sq"
    using m2 main_serve_deferred [OF _ assms(2)] by fastforce
  then show ?thesis using v store_opened [OF sq assms(3)] by simp
qed

text \<open>C16: a run of the program that ends by returning, that is, after a signal and a shutdown without an error, hands every
  log entry that the logger accepted to the stores before it ends, in order and while both stores are still open. It
  cancels the context of the background jobs before it closes a store, writes the last audit event while the store is open (unless that
  write fails), and closes everything.\<close>

theorem shutdown_flushes_log:
  assumes "main_run su m = (Returned ds, m')" "\<not> sq_open (ma_sqlite m)"
    and run: "logger_run (fl True True) n x0 es (rs_logger rs) (rs_sink rs)" and opened: "rs_metaOpen rs" "rs_bodiesOpen rs"
    and "rs' = run_ending fl (Returned ds) rs"
  shows "al_done (rs_logger rs') \<and>
    (\<exists>bs. rs_sink rs' = fold (fl True True) bs x0 \<and> subseq (concat bs) es \<and>
       al_dropped (rs_logger rs') + int (length (concat bs)) = int (length es)) \<and>
    rs_audit rs' = rs_audit rs @ (if rs_auditFault rs then [] else [''shutdown'']) \<and>
    rs_cancelled rs' \<and> rs_jobsExposed rs' = rs_jobsExposed rs \<and> \<not> rs_collecting rs' \<and>
    \<not> rs_bodiesOpen rs' \<and> \<not> rs_metaOpen rs' \<and> rs_cacheClosed rs' \<and> rs_limiterStopped rs'"
proof -
  have ds: "ds = all_deferred" using run_registered [OF assms(1) _ assms(2)] by blast
  obtain l x where drain: "worker_drain (fl True True) (Close (rs_logger rs)) (rs_sink rs) = (l, x)" by fastforce
  obtain bs acc where f: "flushed (fl True True) x0 bs acc (Close (rs_logger rs)) (rs_sink rs)" "subseq acc es"
    "al_dropped (Close (rs_logger rs)) = int (length es) - int (length acc)"
    using run_flushed [OF run_close [OF run]] by blast
  obtain bs' where b: "flushed (fl True True) x0 bs' acc l x" "al_done l" "al_dropped l = al_dropped (Close (rs_logger rs))"
    using worker_drain_done [OF f(1) _ drain] by (auto simp: Close_def)
  let ?audit = "rs_audit rs @ (if rs_auditFault rs then [] else [''shutdown''])"
  have "rs' = rs\<lparr>rs_collecting := False, rs_audit := ?audit, rs_cancelled := True, rs_logger := l, rs_sink := x,
      rs_bodiesOpen := False, rs_metaOpen := False, rs_cacheClosed := True, rs_limiterStopped := True\<rparr>"
    using opened drain by (simp add: assms(6) ds all_deferred_def run_ending_def run_deferred_def)
  moreover have "x = fold (fl True True) bs' x0" "acc = concat bs'" using b by (simp_all add: flushed_def)
  ultimately show ?thesis using b(2,3) f(2,3) by auto
qed

text \<open>A shutdown that fails, for instance because a request outlives the timeout, ends the process at once: nothing of what is
  queued or batched is handed over, and the audit trail lacks its last event.\<close>

theorem failed_shutdown_skips_deferred:
  assumes "main_serve su cfg ds m = (Exited (ServerFailed (ShutdownFailed e)), m')"
  shows "run_ending fl (Exited (ServerFailed (ShutdownFailed e))) rs = rs \<and>
    exit_code (fst (main_serve su cfg ds m)) = 1 \<and> (\<exists>sv net. fst (Shutdown (su_stop su) (su_order su) sv net) = Some e)"
proof -
  obtain sv net s n where
    "server_Start (su_listen su) (su_serve su) (su_stop su) (su_order su) sv net = (Some (ShutdownFailed e), s, n)"
    using assms unfolding main_serve_def Let_def by (auto split: option.split_asm prod.split_asm)
  then have "\<exists>sv net. fst (Shutdown (su_stop su) (su_order su) sv net) = Some e"
    unfolding server_Start_def by (auto split: option.split_asm prod.split_asm) (metis fst_conv)
  then show ?thesis using assms by (simp add: run_ending_def exit_code_def)
qed


text \<open>With the default configuration an upstream may take longer to answer than the shutdown waits.\<close>

lemma slow_upstream_outlives_shutdown:
  "\<exists>d. parse_duration (ShutdownTimeout (cf_Server (Load (\<lambda>_. [])))) = Some d \<and> d < header_wait newTransport"
proof -
  have "ShutdownTimeout (cf_Server (Load (\<lambda>_. []))) = ''30s''" by (simp add: load_defs)
  moreover have "parse_duration ''30s'' = Some (30 * second)"
    by (simp add: parse_duration_def duration_group_def Let_def is_digit_def digit_val_def unit_map_def duration_defs)
  ultimately show ?thesis by (simp add: header_wait_def newTransport_def duration_defs)
qed

section \<open>The default configuration\<close>

definition demo_driver :: driver where
  "demo_driver = \<lparr>dr_open = (\<lambda>_. True), dr_wal = (\<lambda>p files. (True, files(p \<mapsto> 420, (p @ ''-wal'') \<mapsto> 420))), dr_chmod_fault = (\<lambda>_. False)\<rparr>"

definition demo_steps :: "string list schema_steps" where
  "demo_steps = \<lparr>sm_exec = demo_exec, sm_ready = True, sm_down = (\<lambda>_. False), sm_entries = migration_entries id\<rparr>"

definition demo_surroundings :: "metrics_world outside \<Rightarrow> string option \<Rightarrow> (string list, unit, nat, metrics_world) surroundings" where
  "demo_surroundings ot err =
     \<lparr>su_env = (\<lambda>_. []), su_exists = (\<lambda>_. True), su_driver = demo_driver, su_schema = demo_steps, su_connect = (\<lambda>_. None),
      su_base = [''data''], su_listen = (\<lambda>addr n. (Some addr, Suc n)), su_serve = id, su_stop = (\<lambda>_ _ n. (err, n)),
      su_order = [RegionEU, RegionNA, RegionFE], su_outside = ot, su_dashboard = (\<lambda>_ _. NotFoundHandler)\<rparr>"

definition demo_machine :: "(string list, nat) machine" where
  "demo_machine = \<lparr>ma_sqlite = \<lparr>sq_open = False, sq_files = (\<lambda>_. None), sq_db = demo_schema\<rparr>, ma_fs = demo_disk, ma_net = 0\<rparr>"

definition demo_resources :: "log_entry list list resources" where
  "demo_resources = \<lparr>rs_logger = demo_logger, rs_sink = [], rs_metaOpen = True, rs_bodiesOpen = True, rs_cancelled = False, rs_jobsExposed = False, rs_audit = [''startup''],
     rs_auditFault = False,
     rs_limiterStopped = False, rs_cacheClosed = False, rs_collecting = True\<rparr>"

lemma stop_all_quiet: "stop_all (\<lambda>_ _ n. (None, n)) timeout srvs None net = (None, net)"
  by (induction srvs) simp_all

lemma demo_start_ok:
  "fst (server_Start (\<lambda>addr n. (Some addr, Suc n)) id (\<lambda>_ _ n. (None, n)) order (server_New (Load (\<lambda>_. [])) (Some factory) dash) 0) = None"
  by (simp add: server_Start_def start_listeners_def AllRegions_def server_New_def Let_def default_ports regionPorts_def Shutdown_def stop_all_quiet)

lemma demo_mount: "\<exists>m. mountMetricsHandler (Load (\<lambda>_. [])) dash_mux = Some (m, None)"
proof -
  have "cf_Prometheus (Load (\<lambda>_. [])) = cf_Prometheus metrics_config"
    by (simp add: metrics_config_def load_defs)
  then have "mountMetricsHandler (Load (\<lambda>_. [])) dash_mux = mountMetricsHandler metrics_config dash_mux"
    by (simp add: mountMetricsHandler_def)
  then show ?thesis by (simp add: metrics_mounted(1))
qed

lemma demo_opening:
  "Validate (\<lambda>_. True) (Load (\<lambda>_. [])) = None"
  "fst (NewSQLiteStore demo_driver demo_steps (SQLitePath (cf_Storage (Load (\<lambda>_. [])))) (ma_sqlite demo_machine)) = None"
  "\<not> isl (fst (newBodyBackend (\<lambda>_. None :: unit s3_api option) [''data''] (Load (\<lambda>_. [])) demo_disk))"
  "\<not> isl (fst (NewWriter ([''data''] @ [''current'']) (snd (newBodyBackend (\<lambda>_. None :: unit s3_api option) [''data''] (Load (\<lambda>_. [])) demo_disk))))"
  "rotator_starts (Load (\<lambda>_. []))"
  by (simp add: validate_defs load_defs default_durations duration_defs) code_simp+

lemma demo_run_returns: "\<exists>m'. main_run (demo_surroundings ot None) demo_machine = (Returned all_deferred, m')"
proof -
  let ?cfg = "Load (\<lambda>_. [])"
  obtain sq where sq: "NewSQLiteStore demo_driver demo_steps (SQLitePath (cf_Storage ?cfg)) (ma_sqlite demo_machine) = (None, sq)"
    using demo_opening(2) by (metis prod.collapse)
  obtain b s1 where b: "newBodyBackend (\<lambda>_. None :: unit s3_api option) [''data''] ?cfg demo_disk = (Inr b, s1)"
    using demo_opening(3) by (metis isl_def prod.collapse sum.exhaust_sel)
  obtain w s2 where w: "NewWriter ([''data''] @ [''current'']) s1 = (Inr w, s2)"
    using demo_opening(4) b by (metis isl_def prod.collapse snd_conv sum.exhaust_sel)
  obtain dm' where dm': "mountMetricsHandler ?cfg dash_mux = Some (dm', None)" using demo_mount by blast
  have serve: "\<exists>m'. main_serve (demo_surroundings ot None) ?cfg all_deferred m = (Returned all_deferred, m')" if "ma_net m = 0" for m
    using demo_start_ok [of "[RegionEU, RegionNA, RegionFE]" "buildRegionFactory ot ?cfg" "Some (SecurityHeadersMiddleware NotFoundHandler)"] that
    by (auto simp: main_serve_def NewMux_eq dm' demo_surroundings_def split: prod.splits option.splits)
  show ?thesis
    using serve [of "demo_machine\<lparr>ma_sqlite := sq, ma_fs := s2\<rparr>"] sq b w demo_opening(1,5)
    by (simp add: main_run_def demo_surroundings_def LoadWithLogger_same Let_def demo_machine_def all_deferred_def)
qed

theorem shutdown_flushes_log_witness:
  "al_done (rs_logger (run_ending (\<lambda>_ _. demo_fl) (Returned all_deferred) demo_resources)) \<and>
   rs_sink (run_ending (\<lambda>_ _. demo_fl) (Returned all_deferred) demo_resources) = [[demo_log ''1'']] \<and>
   rs_audit (run_ending (\<lambda>_ _. demo_fl) (Returned all_deferred) demo_resources) = [''startup'', ''shutdown''] \<and>
   \<not> rs_jobsExposed (run_ending (\<lambda>_ _. demo_fl) (Returned all_deferred) demo_resources)"
proof -
  obtain m' where m': "main_run (demo_surroundings undefined None) demo_machine = (Returned all_deferred, m')"
    using demo_run_returns by blast
  have "rs_sink (run_ending (\<lambda>_ _. demo_fl) (Returned all_deferred) demo_resources) = [[demo_log ''1'']]" by code_simp
  then show ?thesis
    using shutdown_flushes_log [OF m' _ _ _ _ refl, of "\<lambda>_ _. demo_fl" 1 "[]" "[demo_log ''1'', demo_log ''2'']" demo_resources] demo_logger_run
    by (simp add: demo_machine_def demo_resources_def)
qed

end
