(* ===== verification/Background.thy ===== *)
theory Background
  imports Service
begin

text \<open>
  The background goroutines that wait for a ticker or a stop signal: the limiter's garbage collection (\<^verbatim>\<open>StartGC\<close> in
  \<^verbatim>\<open>internal/ratelimit/limiter.go\<close>), the cache's eviction (\<^verbatim>\<open>evictionLoop\<close> in \<^verbatim>\<open>internal/cache/memory.go\<close>), the rotator (\<^verbatim>\<open>Run\<close> in
  \<^verbatim>\<open>internal/bodies/rotator.go\<close>) and the metrics collectors (\<^verbatim>\<open>StartCollectors\<close> in \<^verbatim>\<open>internal/prommetrics/collectors.go\<close>).

  A history is the list of what happens to the shared state: ticks, the stop signal, and the operations of other
  goroutines between them. A tick after the stop does nothing, which covers the select that may still choose a
  tick only up to the signal. Ticks that the loop misses while it works are not in the list.

  Shown: an invariant of the state that both the loop's body and the other goroutines keep holds throughout; the
  limiter's and the cache's invariants are such; after the stop only the others change the state.
\<close>

datatype 's wake = TickAt time | StopSignal | Meanwhile time "'s \<Rightarrow> 's"

fun ticker_loop :: "(time \<Rightarrow> 's \<Rightarrow> 's) \<Rightarrow> bool \<Rightarrow> 's wake list \<Rightarrow> 's \<Rightarrow> 's" where
  "ticker_loop body stopped [] s = s"
| "ticker_loop body stopped (TickAt t # ws) s = ticker_loop body stopped ws (if stopped then s else body t s)"
| "ticker_loop body stopped (StopSignal # ws) s = ticker_loop body True ws s"
| "ticker_loop body stopped (Meanwhile t f # ws) s = ticker_loop body stopped ws (f s)"

definition StartGC :: "duration \<Rightarrow> limiter wake list \<Rightarrow> limiter \<Rightarrow> limiter" where
  "StartGC ttl = ticker_loop (\<lambda>t l. limiter_gc l ttl t) False"

definition evictionLoop :: "mem_cache wake list \<Rightarrow> mem_cache \<Rightarrow> mem_cache" where
  "evictionLoop = ticker_loop (\<lambda>t mc. evictExpired mc t) False"

text \<open>The rotator logs errors and goes on; what it reports to the store is collected.\<close>

definition rotator_Run ::
  "streams \<Rightarrow> 'a fs_scheme rotator \<Rightarrow> ('a fs_scheme \<times> string list list) wake list \<Rightarrow> 'a fs_scheme \<times> string list list \<Rightarrow> 'a fs_scheme \<times> string list list" where
  "rotator_Run st r = ticker_loop (\<lambda>t (s, notes).
     case RunOnce st r (s\<lparr>clock := t\<rparr>) of (e, note, s') \<Rightarrow> (s', notes @ note)) False"

text \<open>The observations made so far, next to the cache and the limiter that are observed.\<close>

definition StartCollectors ::
  "(mem_cache option \<times> limiter option \<times> observation list) wake list \<Rightarrow> mem_cache option \<times> limiter option \<times> observation list \<Rightarrow>
     mem_cache option \<times> limiter option \<times> observation list" where
  "StartCollectors = ticker_loop (\<lambda>t (mc, lm, obs). (mc, lm, obs @ collector_tick mc lm)) False"

section \<open>Invariants of a loop\<close>

fun ascending :: "time \<Rightarrow> 's wake list \<Rightarrow> bool" where
  "ascending now0 [] = True"
| "ascending now0 (TickAt t # ws) = (now0 \<le> t \<and> ascending t ws)"
| "ascending now0 (StopSignal # ws) = ascending now0 ws"
| "ascending now0 (Meanwhile t f # ws) = (now0 \<le> t \<and> ascending t ws)"

text \<open>What the loop's body promises of the state it shares, at a time, and what follows for whole histories.\<close>

locale periodic =
  fixes body :: "time \<Rightarrow> 's \<Rightarrow> 's" and inv :: "time \<Rightarrow> 's \<Rightarrow> bool"
  assumes later: "inv t s \<Longrightarrow> t \<le> u \<Longrightarrow> inv u s"
    and body: "inv t s \<Longrightarrow> inv t (body t s)"
begin

lemma loop_inv:
  assumes "inv now0 s" "ascending now0 ws"
    and others: "\<And>t f u. Meanwhile t f \<in> set ws \<Longrightarrow> inv t u \<Longrightarrow> inv t (f u)"
  shows "\<exists>t \<ge> now0. inv t (ticker_loop body stopped ws s)"
  using assms
proof (induction ws arbitrary: now0 s stopped)
  case (Cons w ws)
  show ?case
  proof (cases w)
    case (TickAt t)
    then have "inv t (if stopped then s else body t s)" "ascending t ws" "now0 \<le> t"
      using Cons.prems(1,2) later body by auto
    with Cons.IH [of t "if stopped then s else body t s" stopped] Cons.prems(3) obtain u
      where "t \<le> u" "inv u (ticker_loop body stopped ws (if stopped then s else body t s))" by auto
    then show ?thesis using TickAt \<open>now0 \<le> t\<close> by (intro exI [of _ u]) simp
  next
    case StopSignal
    then show ?thesis using Cons.IH [OF Cons.prems(1)] Cons.prems(2,3) by simp
  next
    case (Meanwhile t f)
    then have "inv t (f s)" "ascending t ws" "now0 \<le> t" using Cons.prems later by auto
    with Cons.IH [of t "f s" stopped] Cons.prems(3) obtain u where "t \<le> u" "inv u (ticker_loop body stopped ws (f s))" by auto
    then show ?thesis using Meanwhile \<open>now0 \<le> t\<close> by (intro exI [of _ u]) simp
  qed
qed auto

lemma stopped_loop:
  "ticker_loop body True ws s = fold (\<lambda>w s. case w of Meanwhile t f \<Rightarrow> f s | _ \<Rightarrow> s) ws s"
  by (induction ws arbitrary: s) (auto split: wake.splits)

end

lemma lm_throttle_gc: "lm_throttle (limiter_gc l ttl t) = lm_throttle l"
  by (simp add: limiter_gc_def Let_def)

interpretation gc_loop: periodic "\<lambda>t l. limiter_gc l ttl t"
    "\<lambda>t l. lim_ok fin t l \<and> lm_throttle l = thr" for fin thr ttl
  by unfold_locales (auto simp: lim_ok_later lim_ok_gc lm_throttle_gc)

interpretation eviction_loop: periodic "\<lambda>t mc. evictExpired mc t" "\<lambda>t. mc_inv"
  by unfold_locales (simp_all add: evictExpired_spec)

interpretation collector_loop: periodic "\<lambda>t (mc, lm, obs). (mc, lm, obs @ collector_tick mc lm)"
    "\<lambda>t (mc, lm, obs). list_all observation_fits obs"
  by unfold_locales (auto simp: collector_fits)


section \<open>The limiter and the cache under their loops\<close>

text \<open>Whatever operations requests make on the limiter between the ticks of its garbage collection, the limiter stays in
  order, with finite tokens if the throttle factor and the rates it learns are finite; likewise the cache under its eviction.\<close>

theorem limiter_loop_ok:
  assumes "ascending t0 ws" "fin \<longrightarrow> is_Fin thr"
    and "\<And>t f. Meanwhile t f \<in> set ws \<Longrightarrow> \<exists>c. f = (\<lambda>l. lim_exec l t c) \<and> (fin \<longrightarrow> learns_finite c)"
  shows "\<exists>t \<ge> t0. lim_ok fin t (StartGC ttl ws (NewLimiter thr d))"
proof -
  have new: "lim_ok fin t0 (NewLimiter thr d) \<and> lm_throttle (NewLimiter thr d) = thr"
    by (simp add: lim_ok_NewLimiter) (simp add: NewLimiter_def)
  have step: "lim_ok fin t (f l) \<and> lm_throttle (f l) = thr"
    if w: "Meanwhile t f \<in> set ws" and ok: "lim_ok fin t l \<and> lm_throttle l = thr" for t f l
  proof -
    obtain c where c: "f = (\<lambda>l. lim_exec l t c)" "fin \<longrightarrow> learns_finite c" using assms(3) [OF w] by blast
    show ?thesis using lim_ok_exec [of fin t l t c] ok assms(2) c by (simp add: lm_throttle_exec)
  qed
  have "\<exists>t \<ge> t0. lim_ok fin t (ticker_loop (\<lambda>t l. limiter_gc l ttl t) False ws (NewLimiter thr d)) \<and>
      lm_throttle (ticker_loop (\<lambda>t l. limiter_gc l ttl t) False ws (NewLimiter thr d)) = thr"
    by (rule gc_loop.loop_inv [OF new assms(1)]) (rule step)
  then show ?thesis unfolding StartGC_def by blast
qed

theorem cache_loop_ok:
  assumes "mc_inv mc" "ascending t0 ws" "\<And>t f. Meanwhile t f \<in> set ws \<Longrightarrow> \<exists>c. f = (\<lambda>m. mc_exec m t c)"
  shows "mc_inv (evictionLoop ws mc)"
proof -
  have "\<exists>t \<ge> t0. mc_inv (ticker_loop (\<lambda>t mc. evictExpired mc t) False ws mc)"
    by (rule eviction_loop.loop_inv [OF assms(1,2)]) (use assms(3) mc_inv_exec in fastforce)
  then show ?thesis by (simp add: evictionLoop_def)
qed

text \<open>After the stop, the loop's own ticks change nothing.\<close>

lemma stopped_gc: "ticker_loop (\<lambda>t l. limiter_gc l ttl t) True (map TickAt ts) l = l"
  by (induction ts) (simp_all add: gc_loop.stopped_loop)

end
