(* ===== verification/FeedLimit.thy ===== *)
theory FeedLimit
  imports GoLib
begin

text \<open>
  The limiter for \<^verbatim>\<open>JSON_LISTINGS_FEED\<close> submissions (\<^verbatim>\<open>internal/ratelimit/feedlimit.go\<close>): a
  sliding window of at most five submissions per seller and region.

  The specification keeps the whole history of admitted submissions; the code keeps only the
  part of it that can still matter. The two give the same answers, and the window bound
  follows for every window, not only for those ending at a call.
\<close>

definition defaultFeedWindow :: duration where
  "defaultFeedWindow = 5 * minute"

definition defaultFeedMaxPerWin :: nat where
  "defaultFeedMaxPerWin = 5"

definition jsonListingsFeedType :: string where
  "jsonListingsFeedType = ''JSON_LISTINGS_FEED''"

record feed_limiter =
  fl_window :: duration
  fl_maxPerWin :: nat
  fl_entries :: "string \<rightharpoonup> time list"

definition NewFeedLimiterWithWindow :: "duration \<Rightarrow> feed_limiter" where
  "NewFeedLimiterWithWindow w =
     \<lparr>fl_window = w, fl_maxPerWin = defaultFeedMaxPerWin, fl_entries = Map.empty\<rparr>"

definition NewFeedLimiter :: feed_limiter where
  "NewFeedLimiter = NewFeedLimiterWithWindow defaultFeedWindow"

text \<open>A missing key of the Go map reads as the empty slice.\<close>

definition fl_times :: "feed_limiter \<Rightarrow> string \<Rightarrow> time list" where
  "fl_times fl key = (case fl_entries fl key of None \<Rightarrow> [] | Some ts \<Rightarrow> ts)"

definition feed_key :: "string \<Rightarrow> string \<Rightarrow> string" where
  "feed_key merchantKey region = merchantKey @ '':'' @ region"

definition Allow :: "feed_limiter \<Rightarrow> string \<Rightarrow> string \<Rightarrow> string \<Rightarrow> time \<Rightarrow> bool \<times> feed_limiter" where
  "Allow fl merchantKey region feedType t =
     (if feedType \<noteq> jsonListingsFeedType then (True, fl)
      else let key = feed_key merchantKey region;
               cutoff = t - fl_window fl;
               valid = filter (\<lambda>ts. cutoff < ts) (fl_times fl key)
           in if fl_maxPerWin fl \<le> length valid
              then (False, fl\<lparr>fl_entries := (fl_entries fl)(key \<mapsto> valid)\<rparr>)
              else (True, fl\<lparr>fl_entries := (fl_entries fl)(key \<mapsto> valid @ [t])\<rparr>))"

definition IsJSONListingsFeed :: "string \<Rightarrow> bool" where
  "IsJSONListingsFeed feedType \<longleftrightarrow> feedType = jsonListingsFeedType"

section \<open>Runs and their specification\<close>

text \<open>A call: merchant, region, feed type, time.\<close>

type_synonym feed_call = "string \<times> string \<times> string \<times> time"

fun feed_run :: "feed_limiter \<Rightarrow> feed_call list \<Rightarrow> bool list" where
  "feed_run fl [] = []"
| "feed_run fl ((m, rg, ft, t) # cs) =
     (let res = Allow fl m rg ft t in fst res # feed_run (snd res) cs)"

text \<open>The specification: admit if fewer than \<open>n\<close> submissions for the key were admitted in the
  window of length \<open>w\<close> that ends now.\<close>

definition in_feed_window :: "duration \<Rightarrow> time \<Rightarrow> string \<Rightarrow> (string \<times> time) list \<Rightarrow> nat" where
  "in_feed_window w e key hist =
     length (filter (\<lambda>(k, ts). k = key \<and> e - w < ts \<and> ts \<le> e) hist)"

fun feed_log :: "duration \<Rightarrow> nat \<Rightarrow> (string \<times> time) list \<Rightarrow> feed_call list \<Rightarrow>
    bool list \<times> (string \<times> time) list" where
  "feed_log w n hist [] = ([], hist)"
| "feed_log w n hist ((m, rg, ft, t) # cs) =
     (let key = feed_key m rg;
          ok = (ft \<noteq> jsonListingsFeedType \<or> in_feed_window w t key hist < n);
          hist' = (if ft = jsonListingsFeedType \<and> ok then hist @ [(key, t)] else hist);
          rest = feed_log w n hist' cs
      in (ok # fst rest, snd rest))"

fun times_from :: "time \<Rightarrow> feed_call list \<Rightarrow> bool" where
  "times_from s [] = True"
| "times_from s ((m, rg, ft, t) # cs) = (s \<le> t \<and> times_from t cs)"

text \<open>The limiter agrees with the hist on what any window from now on can see.\<close>

definition fl_agrees :: "time \<Rightarrow> feed_limiter \<Rightarrow> (string \<times> time) list \<Rightarrow> bool" where
  "fl_agrees s fl hist \<longleftrightarrow>
     (\<forall>key cut. s - fl_window fl \<le> cut \<longrightarrow>
        filter (\<lambda>ts. cut < ts) (fl_times fl key) =
        filter (\<lambda>ts. cut < ts) (map snd (filter (\<lambda>(k, _). k = key) hist)))
     \<and> (\<forall>(k, ts) \<in> set hist. ts \<le> s)"

definition window_bounded :: "duration \<Rightarrow> nat \<Rightarrow> (string \<times> time) list \<Rightarrow> bool" where
  "window_bounded w n hist \<longleftrightarrow> (\<forall>key e. in_feed_window w e key hist \<le> n)"

lemma filter_sharper:
  "c \<le> (c' :: int) \<Longrightarrow> filter (\<lambda>x. c < x \<and> c' < x) xs = filter (\<lambda>x. c' < x) xs"
  by (induction xs) auto

lemma fl_agrees_count:
  assumes "fl_agrees s fl hist" "s \<le> t"
  shows "length (filter (\<lambda>ts. t - fl_window fl < ts) (fl_times fl key))
       = in_feed_window (fl_window fl) t key hist"
proof -
  have "\<forall>(k, ts) \<in> set hist. ts \<le> t" using assms by (fastforce simp: fl_agrees_def)
  then have "length (filter (\<lambda>ts. c < ts) (map snd (filter (\<lambda>(k, _). k = key) hist)))
      = length (filter (\<lambda>(k, ts). k = key \<and> c < ts \<and> ts \<le> t) hist)" for c
    by (induction hist) auto
  then show ?thesis using assms by (simp add: fl_agrees_def in_feed_window_def)
qed

lemma fl_agrees_later: "fl_agrees s fl hist \<Longrightarrow> s \<le> t \<Longrightarrow> fl_agrees t fl hist"
  by (fastforce simp: fl_agrees_def)

lemma Allow_window [simp]:
  "fl_window (snd (Allow fl m rg ft t)) = fl_window fl"
  "fl_maxPerWin (snd (Allow fl m rg ft t)) = fl_maxPerWin fl"
  by (simp_all add: Allow_def Let_def)

lemma fl_times_upd:
  "fl_times (fl\<lparr>fl_entries := (fl_entries fl)(k \<mapsto> v)\<rparr>) key = (if key = k then v else fl_times fl key)"
  by (simp add: fl_times_def)

text \<open>Pruning, and recording the submissions \<open>new\<close> for one key, keeps the agreement.\<close>

lemma fl_agrees_store:
  assumes "fl_agrees t fl hist" "\<forall>ts \<in> set new. ts \<le> t"
  shows "fl_agrees t (fl\<lparr>fl_entries := (fl_entries fl)
           (k \<mapsto> filter (\<lambda>ts. t - fl_window fl < ts) (fl_times fl k) @ new)\<rparr>) (hist @ map (Pair k) new)"
  (is "fl_agrees t ?fl ?hist")
proof -
  have mine: "map snd (filter (\<lambda>(k', _). k' = key) (map (Pair k) new)) = (if key = k then new else [])"
    for key by (induction new) auto
  have "filter (\<lambda>ts. cut < ts) (fl_times ?fl key)
      = filter (\<lambda>ts. cut < ts) (map snd (filter (\<lambda>(k', _). k' = key) ?hist))"
    if "t - fl_window fl \<le> cut" for key cut
    using assms(1) that by (simp add: fl_agrees_def fl_times_upd mine filter_sharper)
  then show ?thesis using assms unfolding fl_agrees_def by auto
qed

lemma Allow_json:
  "Allow fl m rg jsonListingsFeedType t =
     (let key = feed_key m rg; valid = filter (\<lambda>ts. t - fl_window fl < ts) (fl_times fl key);
          ok = (length valid < fl_maxPerWin fl)
      in (ok, fl\<lparr>fl_entries := (fl_entries fl)(key \<mapsto> valid @ (if ok then [t] else []))\<rparr>))"
  by (simp add: Allow_def Let_def)

lemma Allow_agrees:
  fixes m rg ft :: string
  assumes "fl_agrees s fl hist" "s \<le> t"
  defines "ok \<equiv> ft \<noteq> jsonListingsFeedType
      \<or> in_feed_window (fl_window fl) t (feed_key m rg) hist < fl_maxPerWin fl"
  shows "fst (Allow fl m rg ft t) = ok"
    "fl_agrees t (snd (Allow fl m rg ft t))
       (if ft = jsonListingsFeedType \<and> ok then hist @ [(feed_key m rg, t)] else hist)"
proof -
  let ?key = "feed_key m rg"
  note count = fl_agrees_count [OF assms(1,2), of ?key]
  note later = fl_agrees_later [OF assms(1,2)]
  note store = fl_agrees_store [OF later, of "if ok then [t] else []" ?key]
  show "fst (Allow fl m rg ft t) = ok"
    by (cases "ft = jsonListingsFeedType") (simp_all add: Allow_json Allow_def Let_def ok_def count)
  show "fl_agrees t (snd (Allow fl m rg ft t))
       (if ft = jsonListingsFeedType \<and> ok then hist @ [(?key, t)] else hist)"
  proof (cases "ft = jsonListingsFeedType")
    case True
    then have "length (filter (\<lambda>ts. t - fl_window fl < ts) (fl_times fl ?key)) < fl_maxPerWin fl
        \<longleftrightarrow> ok" by (simp only: ok_def count) simp
    with True store show ?thesis by (simp add: Allow_json Let_def split: if_splits)
  qed (use later in \<open>simp add: Allow_def\<close>)
qed

lemma feed_run_log:
  "fl_agrees s fl hist \<Longrightarrow> times_from s cs \<Longrightarrow>
   feed_run fl cs = fst (feed_log (fl_window fl) (fl_maxPerWin fl) hist cs)"
proof (induction cs arbitrary: s fl hist)
  case (Cons c cs)
  obtain m rg ft t where c: "c = (m, rg, ft, t)" by (metis prod_cases4)
  with Cons.prems have st: "s \<le> t" "times_from t cs" by simp_all
  note al = Allow_agrees [OF Cons.prems(1) st(1), where ft = ft and m = m and rg = rg]
  from Cons.IH [OF al(2) st(2)] al(1) show ?case
    by (simp add: c Let_def split: prod.splits if_splits)
qed simp

lemma in_feed_window_snoc:
  "in_feed_window w e key (hist @ [(k, t)]) =
     in_feed_window w e key hist + (if k = key \<and> e - w < t \<and> t \<le> e then 1 else 0)"
  by (simp add: in_feed_window_def)

lemma in_feed_window_shrink:
  "\<forall>(k, ts) \<in> set hist. ts \<le> t \<Longrightarrow> t \<le> e \<Longrightarrow>
   in_feed_window w e key hist \<le> in_feed_window w t key hist"
  by (induction hist) (auto simp: in_feed_window_def)

lemma feed_log_bounded:
  "window_bounded w n hist \<Longrightarrow> \<forall>(k, ts) \<in> set hist. ts \<le> s \<Longrightarrow> times_from s cs \<Longrightarrow>
   window_bounded w n (snd (feed_log w n hist cs))"
proof (induction cs arbitrary: s hist)
  case (Cons c cs)
  obtain m rg ft t where c: "c = (m, rg, ft, t)" by (metis prod_cases4)
  with Cons.prems have st: "s \<le> t" "times_from t cs" by simp_all
  have old: "\<forall>(k, ts) \<in> set hist. ts \<le> t" using Cons.prems(2) st(1) by fastforce
  let ?key = "feed_key m rg"
  let ?hist = "if ft = jsonListingsFeedType \<and> in_feed_window w t ?key hist < n
    then hist @ [(?key, t)] else hist"
  have "window_bounded w n (hist @ [(?key, t)])" if "in_feed_window w t ?key hist < n"
    using that Cons.prems(1) in_feed_window_shrink [OF old, of _ w ?key]
    by (auto simp: window_bounded_def in_feed_window_snoc) (metis Suc_leI le_less_trans)
  then have "window_bounded w n ?hist" using Cons.prems(1) by simp
  moreover have "\<forall>(k, ts) \<in> set ?hist. ts \<le> t" using old by auto
  ultimately have "window_bounded w n (snd (feed_log w n ?hist cs))"
    using Cons.IH st(2) by blast
  then show ?case by (simp add: c Let_def split: if_splits)
qed simp

lemma NewFeedLimiter_agrees: "fl_agrees s (NewFeedLimiterWithWindow w) []"
  by (simp add: fl_agrees_def fl_times_def NewFeedLimiterWithWindow_def)

text \<open>C29: the limiter that prunes its entries answers every sequence of calls, in order of
  time, exactly as the specification that remembers all admitted submissions; and in no window
  of the configured length, wherever it lies, are more than five submissions of one seller
  and region admitted.\<close>

theorem feed_limiter_refines_window:
  assumes "times_from s cs"
  shows "feed_run (NewFeedLimiterWithWindow w) cs = fst (feed_log w 5 [] cs)
    \<and> in_feed_window w e (feed_key m rg) (snd (feed_log w 5 [] cs)) \<le> 5"
proof -
  have "window_bounded w 5 (snd (feed_log w 5 [] cs))"
    using feed_log_bounded [of w 5 "[]" s cs] assms
    by (simp add: window_bounded_def in_feed_window_def)
  moreover have "feed_run (NewFeedLimiterWithWindow w) cs = fst (feed_log w 5 [] cs)"
    using feed_run_log [OF NewFeedLimiter_agrees assms]
    by (simp add: NewFeedLimiterWithWindow_def defaultFeedMaxPerWin_def)
  ultimately show ?thesis by (simp add: window_bounded_def)
qed

theorem feed_limiter_refines_window_witness:
  "feed_run (NewFeedLimiterWithWindow 10) [(''m'', ''eu'', jsonListingsFeedType, 3), (''m'', ''eu'', jsonListingsFeedType, 4),
      (''m'', ''eu'', jsonListingsFeedType, 5), (''m'', ''eu'', jsonListingsFeedType, 5),
      (''m'', ''eu'', jsonListingsFeedType, 6), (''m'', ''eu'', jsonListingsFeedType, 7)]
     = [True, True, True, True, True, False]"
  by (subst feed_limiter_refines_window [of 0, THEN conjunct1]) code_simp+

end
