(* ===== verification/Spec2Isabelle.thy ===== *)
theory Spec2Isabelle
  imports Program Background FeedLimit RequestQueue
begin

text \<open>
  A verification of the SP-API smart proxy: a Go program that stands between clients and Amazon's Selling Partner API,
  limits and queues requests per merchant, caches responses, swaps access tokens for restricted data
  tokens, logs requests with personal data redacted, and shows the log on a dashboard.

  \<^bold>\<open>Parts of the program and how they meet.\<close> A region's listener passes a request through a chain that
  \<^verbatim>\<open>cmd/smart-proxy/main.go\<close> builds: metrics, merchant resolution, logging, restricted tokens, cache, rate limit,
  reverse proxy. All regions share one limiter, one response cache, one token cache, one token store and one
  logger. The logger's worker writes bodies into hourly files and rows into a table; the rotator promotes,
  compresses, expires and evicts the files and has the references to deleted ones cleared; the scheduler
  purges rows. The dashboard searches the table, reads bodies back, redacts them again and replays
  requests through the chain.

  \<^bold>\<open>Which theory models which part\<close> (paths under \<^verbatim>\<open>src/internal\<close> unless given in full):
  \<^item> \<open>GoLib\<close>, \<open>Float64\<close>, \<open>Http\<close>, \<open>Calendar\<close>, \<open>FileSys\<close>: what the program uses of Go's library: strings, numbers, durations,
    \<^verbatim>\<open>float64\<close> with its infinities and not-a-number,
    headers, requests and writers, calendar dates, and a file system with symbolic links in which any call
    may fail. They hold the lemmas and the collection \<open>go_simps\<close> that all other theories share.
  \<^item> \<open>Merchant\<close>: \<^verbatim>\<open>merchant\<close>. \<open>Endpoint\<close>: \<^verbatim>\<open>endpoint\<close>.
  \<^item> \<open>Bucket\<close>, \<open>RequestHeap\<close>, \<open>RequestQueue\<close>, \<open>FeedLimit\<close>, \<open>RateTable\<close>, \<open>Limiter\<close>, \<open>RateLimit\<close>: \<^verbatim>\<open>ratelimit\<close>, one theory
    per file, the queue in two: its heap with the sift operations of \<^verbatim>\<open>container/heap\<close>, and the step
    relation \<open>qstep\<close> of callers and dispatcher over any interleaving.
  \<^item> \<open>CacheKeys\<close>, \<open>MemCache\<close>, \<open>Tiers\<close>, \<open>CacheServe\<close>, \<open>BatchCache\<close>, \<open>CacheMiddleware\<close>: \<^verbatim>\<open>cache\<close>.
  \<^item> \<open>PiiWalk\<close>, \<open>PiiRegistry\<close>, \<open>PiiEngine\<close>: \<^verbatim>\<open>pii\<close>. \<open>Rdt\<close>, \<open>RdtMiddleware\<close>: \<^verbatim>\<open>rdt\<close>. \<open>Proxy\<close>: \<^verbatim>\<open>proxy\<close>.
  \<^item> \<open>Blob\<close>, \<open>S3\<close>: \<^verbatim>\<open>blob\<close>. \<open>Bodies\<close>, \<open>Rotator\<close>, \<open>Retention\<close>, \<open>Housekeeping\<close>: \<^verbatim>\<open>bodies\<close>, the first two its code, the
    others what holds over sequences of writes and rotations.
  \<^item> \<open>Storage\<close>, \<open>Migrate\<close>, \<open>Opening\<close>: \<^verbatim>\<open>storage\<close>. \<open>AsyncLogger\<close>, \<open>Logging\<close>: \<^verbatim>\<open>logging\<close> and \<^verbatim>\<open>tokenstore\<close>. \<open>BodyRefs\<close>: rows and files together.
  \<^item> \<open>Maintenance\<close>: \<^verbatim>\<open>audit\<close>, \<^verbatim>\<open>purge\<close>, \<^verbatim>\<open>scheduler\<close>. \<open>Metrics\<close>: \<^verbatim>\<open>prommetrics\<close>.
  \<^item> \<open>Dashboard\<close>, \<open>Routes\<close>: \<^verbatim>\<open>dashboard\<close>, its API handlers, and its route table with the frontend and the metrics page. \<open>Mux\<close>: Go's
    \<^verbatim>\<open>http.ServeMux\<close> with the precedence and the conflicts of patterns.
  \<^item> \<open>Config\<close>: \<^verbatim>\<open>config\<close>. \<open>Server\<close>: \<^verbatim>\<open>server\<close>.
  \<^item> \<open>Service\<close>, \<open>Program\<close>: \<^verbatim>\<open>src/cmd/smart-proxy/main.go\<close>, how the parts are made from the configuration, and a run from the start
    over the exits to the deferred calls. \<open>Background\<close>: the goroutines that wait for a ticker or a stop.

  \<^bold>\<open>How code becomes definitions.\<close> A struct is a record, a function a definition of the same name, a method one
  with its receiver's state passed in and out. A handler is a function of request, response writer and
  world; a middleware maps handlers to handlers; the header map that a request shares with its
  callees is returned. Worlds are records that each layer extends: \<open>world\<close> (the clock), \<open>lim_world\<close> (limiter), \<open>cache_world\<close>,
  \<open>rdt_world\<close>, \<open>log_world\<close>, \<open>metrics_world\<close>. Errors are values. Each operation under a lock is one step;
  where goroutines meet without one (request queue, logger) they are step relations over any order
  of steps. Times and durations are integers of nanoseconds, a finite \<^verbatim>\<open>float64\<close> is an exact rational, \<^verbatim>\<open>int64\<close> is an
  integer. Code outside the repository is a parameter: JSON, hashes and compression (\<open>codec\<close>, \<open>jsonl\<close>, \<open>streams\<close>), the
  upstream transport, the S3 client, SQL, listening, timers, randomness. What is assumed of it is a hypothesis of
  the theorem that needs it, and each such theorem has a witness with concrete functions.

  \<^bold>\<open>Interfaces\<close> are locales, each interpreted on the model's own definitions: \<open>request_pq\<close> (a priority queue; the array heap),
  \<open>response_cache\<close> (a cache's abstract map; the memory cache), \<open>cache_client\<close> (what may enter the cache; the
  middleware over the reverse proxy), \<open>rdt_client\<close> (what may enter the token cache), \<open>blob_store\<close> (an object
  store; the local directory), \<open>body_dir\<close>, which extends it by the directory of active files, \<open>route_table\<close> (patterns without
  conflicts; the dashboard's and the health handler's tables) and \<open>periodic\<close> (the body of a ticker loop; the limiter's
  collection, the cache's eviction, the metrics collectors).

  \<^bold>\<open>What the lemmas show.\<close> Rate limiting: a bucket never grants more than its burst and refill in any window, and nothing any more once
  its rate or factor is not a number;
  the queue respects its depth, serves by priority and age, releases each request once and loses none; a request is
  forwarded after its tokens were taken from the buckets as they were at that moment, or refused. Cache: keys of different merchants differ, personal data and
  errors are never cached, mutations invalidate first, hits are fresh, memory is bounded. Tokens: a
  restricted token is cached under its own merchant only, nothing but the token changes. Privacy: in a body that the registry counts as personal data and that decodes, every value that a
  rule selects is redacted before it is written (\<open>service_logs_redacted\<close>, through the whole chain) and again
  before it is shown (a body that does not decode passes as it is, \<open>undecodable_passes\<close>); internal headers and error details do not leave the proxy. Storage: an entry written is read
  back through any sequence of rotations and failing calls; rotations enforce ages and budget; no row keeps
  a reference to a body that is gone or another's; accepted log entries are flushed in order; interrupted migrations resume.
  Dashboard: every request reaches the handler of its path, and only that one, whatever path the metrics page is mounted
  under; the frontend never lists a directory; every reply forbids framing. Program: every server is asked to shut down, also
  when one fails; a run that returns cancels the background jobs and closes the
  logger before the stores, so no accepted entry is lost, while a run that ends by \<^verbatim>\<open>os.Exit\<close> closes nothing.

  \<^bold>\<open>Bounds.\<close> Symbolic links are resolved with fuel, 40 links when a path is followed and 255 when it is evaluated, the
  limits of the kernel and of \<^verbatim>\<open>filepath.EvalSymlinks\<close>, with the error that these report. Parsing a duration recurses on the
  text. The S3 listing is a partial function, and shown to return for a listing of finitely many pages. All other
  recursion has a termination proof.

  \<^bold>\<open>Not modelled.\<close> How the transport keeps its settings (pools, timeouts), protocol upgrades and streaming bodies; the JSON encoder and
  the frontend's files, which a build step makes; how an embedded file's bytes are served; URLs that keep an encoding of their
  own; accepting and serving connections, and log output; what a panic of the metrics client does to the connection; the mock server and the test environment under \<^verbatim>\<open>src/test\<close>. Rotation and
  flushing are atomic with respect to each other in \<open>BodyRefs\<close>, and a rotation that meets a failing call is covered by
  \<open>Retention\<close> only. Rounding, underflow and overflow of finite \<^verbatim>\<open>float64\<close> values, wrap-around of \<^verbatim>\<open>int64\<close>, letters outside ASCII in
  case folding and wildcard names, and SQLite's type affinity beyond the status filter are left out.
\<close>

section \<open>Requests without an identity\<close>

lemma region_chain:
  assumes "NewRegionProxyWithLimiter rg = Some rp"
  shows "buildRegionFactory ot cfg rg =
    (if pm_Enabled (cf_Prometheus cfg) then metrics_Middleware (region_text rg) else (\<lambda>h. h))
      (merchant_middleware (ot_sha256 ot) (main_resolver cfg)
        (LoggingMiddleware (ot_gunzip ot) (ot_random ot) (main_registry cfg) (region_text rg) (bd_MaxCaptureSize (cf_Bodies cfg))
          (BuildChain (ReverseProxy rp (ot_roundTrip ot) log_slot (ot_clientIP ot)) (inner_middlewares ot cfg rg))))"
  by (simp add: buildRegionFactory_def assms BuildChain_foldr Let_def)

lemma metrics_frame:
  assumes "(if on then metrics_Middleware rg else (\<lambda>h. h)) nxt r w s = (w', h', s')"
  shows "\<exists>s1 obs. nxt r w s = (w', h', s1) \<and> s' = s1\<lparr>mw_obs := mw_obs s1 @ obs\<rparr>"
proof (cases on)
  case True
  then show ?thesis using assms by (auto simp: metrics_Middleware_def split: prod.splits)
next
  case False
  then show ?thesis using assms by (intro exI [of _ s'] exI [of _ "[]"]) simp
qed

text \<open>C14: in strict mode a request that names no merchant and carries no access token is answered with 400 by the proxy
  itself: no token is taken from a bucket, nothing is read from or put into a cache, no restricted token
  is minted, nothing is logged and no upstream call is made: of the whole state only the list of metric
  observations may grow.\<close>

theorem strict_mode_refuses:
  assumes "StrictMerchant (cf_Server cfg)" "RegionEndpoints rg \<noteq> None"
    and "hdr_get (r_header r) ''X-SP-Proxy-Merchant-Id'' = []" "hdr_get (r_header r) ''X-Amz-Access-Token'' = []"
  shows "\<exists>obs. buildRegionFactory ot cfg rg r w s =
    (http_error w ''merchant identity required: set X-SP-Proxy-Merchant-Id or X-Amz-Access-Token'' 400, r_header r,
     s\<lparr>mw_obs := mw_obs s @ obs\<rparr>)"
proof -
  obtain rp where rp: "NewRegionProxyWithLimiter rg = Some rp"
    using assms(2) by (auto simp: NewRegionProxyWithLimiter_def)
  have no: "ResolveStrict (ot_sha256 ot) (main_resolver cfg) (r_header r) = None"
    unfolding ResolveStrict_None using assms(3,4) by (simp add: main_resolver_def NewResolver_def SetStrict_def map_token_def)
  have m: "merchant_middleware (ot_sha256 ot) (main_resolver cfg) nxt r w s =
      (http_error w ''merchant identity required: set X-SP-Proxy-Merchant-Id or X-Amz-Access-Token'' 400, r_header r, s)" for nxt
    unfolding merchant_middleware_def no using assms(1) by (simp add: main_resolver_def SetStrict_def)
  obtain w' h' s' where run: "buildRegionFactory ot cfg rg r w s = (w', h', s')" by (metis prod.exhaust)
  from metrics_frame [OF run [unfolded region_chain [OF rp]]] show ?thesis unfolding m run by blast
qed

section \<open>Every other request\<close>


section \<open>A strict and a default service\<close>

definition strict_config :: config where
  "strict_config = Load (\<lambda>k. if k = ''SP_PROXY_STRICT_MERCHANT'' then ''true'' else [])"

theorem strict_mode_refuses_witness:
  "\<forall>ot :: metrics_world outside. \<exists>obs. buildRegionFactory ot strict_config RegionEU (get_request ''/orders/v0/orders'') new_rw (main_world strict_config 0) =
     (http_error new_rw ''merchant identity required: set X-SP-Proxy-Merchant-Id or X-Amz-Access-Token'' 400,
      r_header (get_request ''/orders/v0/orders''), (main_world strict_config 0)\<lparr>mw_obs := mw_obs (main_world strict_config 0) @ obs\<rparr>)"
proof -
  have "StrictMerchant (cf_Server strict_config)" "RegionEndpoints RegionEU \<noteq> None"
    "hdr_get (r_header (get_request ''/orders/v0/orders'')) ''X-SP-Proxy-Merchant-Id'' = []"
    "hdr_get (r_header (get_request ''/orders/v0/orders'')) ''X-Amz-Access-Token'' = []"
    by code_simp+
  from strict_mode_refuses [OF this] show ?thesis by blast
qed




end
